(* ===== verification/Prelude.thy ===== *)
theory Prelude
  imports Complex_Main "HOL-Library.Word" "HOL-Library.AList" "HOL-Library.Log_Nat"
begin

text \<open>
  The shared vocabulary of the development: the parts of Go and of its standard library that the
  modelled packages use, and the generic lemmas and interfaces the components share.

  \<^item> Go strings are byte sequences: \<^typ>\<open>string\<close>, one \<^typ>\<open>char\<close> per byte.
    \<open>trim_space\<close>, \<open>go_fields\<close> follow \<^verbatim>\<open>strings.TrimSpace\<close>
    and \<^verbatim>\<open>strings.Fields\<close> on the UTF-8 bytes of every Unicode white-space
    character; \<open>to_lower\<close> is \<^verbatim>\<open>strings.ToLower\<close> on ASCII letters and
    leaves every other byte as it is.
  \<^item> A Go map is an association list with distinct keys (\<^verbatim>\<open>AList.update\<close>,
    \<^verbatim>\<open>map_of\<close>): the list order stands for one iteration order of the map. A nil
    map, where the code can have one, is \<open>None\<close>.
  \<^item> \<^verbatim>\<open>uint64\<close> is \<^typ>\<open>64 word\<close>; \<^verbatim>\<open>int\<close> counters are
    \<^typ>\<open>int\<close> (they count accepted events and never come near 2 to the 63).
  \<^item> \<^verbatim>\<open>float64\<close> is a rational on which every operation rounds to the nearest
    binary64 value, ties to even; overflow to infinity and NaN do not occur in the modelled code.
  \<^item> \<^verbatim>\<open>time.Time\<close> is an \<^typ>\<open>int\<close>, nanoseconds since year 1, so that 0 is
    the zero time; \<^verbatim>\<open>time.Now()\<close> is an argument of the operations that call it.
\<close>

section \<open>Collections of rules\<close>

named_theorems go_eval \<open>rules that evaluate the Go library functions on concrete input\<close>

section \<open>Strings\<close>

type_synonym gotime = int
type_synonym u64 = "64 word"
type_synonym json_raw = string

definition unicode_spaces :: "string list" where
  "unicode_spaces =
     [[CHR 0x09], [CHR 0x0A], [CHR 0x0B], [CHR 0x0C], [CHR 0x0D], [CHR 0x20],
      [CHR 0xC2, CHR 0x85], [CHR 0xC2, CHR 0xA0], [CHR 0xE1, CHR 0x9A, CHR 0x80],
      [CHR 0xE2, CHR 0x80, CHR 0x80], [CHR 0xE2, CHR 0x80, CHR 0x81],
      [CHR 0xE2, CHR 0x80, CHR 0x82], [CHR 0xE2, CHR 0x80, CHR 0x83],
      [CHR 0xE2, CHR 0x80, CHR 0x84], [CHR 0xE2, CHR 0x80, CHR 0x85],
      [CHR 0xE2, CHR 0x80, CHR 0x86], [CHR 0xE2, CHR 0x80, CHR 0x87],
      [CHR 0xE2, CHR 0x80, CHR 0x88], [CHR 0xE2, CHR 0x80, CHR 0x89],
      [CHR 0xE2, CHR 0x80, CHR 0x8A], [CHR 0xE2, CHR 0x80, CHR 0xA8],
      [CHR 0xE2, CHR 0x80, CHR 0xA9], [CHR 0xE2, CHR 0x80, CHR 0xAF],
      [CHR 0xE2, CHR 0x81, CHR 0x9F], [CHR 0xE3, CHR 0x80, CHR 0x80]]"

text \<open>Removes the first of the given non-empty prefixes that the string starts with.\<close>

fun strip_first :: "string list \<Rightarrow> string \<Rightarrow> string option" where
  "strip_first [] s = None"
| "strip_first (p # ps) s =
     (if p \<noteq> [] \<and> take (length p) s = p then Some (drop (length p) s) else strip_first ps s)"

lemma strip_first_split: "strip_first ps s = Some r \<Longrightarrow> \<exists>p. p \<noteq> [] \<and> s = p @ r"
  by (induction ps s rule: strip_first.induct)
    (auto split: if_splits, metis append_take_drop_id)

lemma strip_first_shorter: "strip_first ps s = Some r \<Longrightarrow> length r < length s"
  by (auto dest: strip_first_split)

function trim_with :: "string list \<Rightarrow> string \<Rightarrow> string" where
  "trim_with ps s = (case strip_first ps s of None \<Rightarrow> s | Some r \<Rightarrow> trim_with ps r)"
  by pat_completeness auto
termination
  by (relation "measure (\<lambda>(ps, s). length s)") (auto dest: strip_first_shorter)

declare trim_with.simps [simp del]

definition trim_space :: "string \<Rightarrow> string" where
  "trim_space s = rev (trim_with (map rev unicode_spaces) (rev (trim_with unicode_spaces s)))"

definition lower_char :: "char \<Rightarrow> char" where
  "lower_char c = (if 65 \<le> (of_char c :: nat) \<and> (of_char c :: nat) \<le> 90
                   then char_of ((of_char c :: nat) + 32) else c)"

definition to_lower :: "string \<Rightarrow> string" where
  "to_lower = map lower_char"

definition has_prefix :: "string \<Rightarrow> string \<Rightarrow> bool" where
  "has_prefix p s \<longleftrightarrow> take (length p) s = p"

text \<open>\<^verbatim>\<open>strings.Fields\<close>: the maximal runs of non-space bytes.\<close>

function go_fields_acc :: "string \<Rightarrow> string \<Rightarrow> string list" where
  "go_fields_acc acc s =
     (case strip_first unicode_spaces s of
        Some r \<Rightarrow> (if acc = [] then go_fields_acc [] r else acc # go_fields_acc [] r)
      | None \<Rightarrow> (case s of [] \<Rightarrow> (if acc = [] then [] else [acc])
                  | c # cs \<Rightarrow> go_fields_acc (acc @ [c]) cs))"
  by pat_completeness auto
termination
  by (relation "measure (\<lambda>(acc, s). length s)") (auto dest: strip_first_shorter)

declare go_fields_acc.simps [simp del]

definition go_fields :: "string \<Rightarrow> string list" where
  "go_fields s = go_fields_acc [] s"

subsection \<open>Laws of trimming\<close>

lemma trim_with_None: "strip_first ps s = None \<Longrightarrow> trim_with ps s = s"
  by (simp add: trim_with.simps)

lemma strip_first_trim_with: "strip_first ps (trim_with ps s) = None"
proof (induction ps s rule: trim_with.induct)
  case (1 ps s)
  then show ?case by (cases "strip_first ps s") (simp_all add: trim_with.simps[of ps s])
qed

lemma trim_with_suffix: "\<exists>xs. s = xs @ trim_with ps s"
proof (induction ps s rule: trim_with.induct)
  case (1 ps s)
  show ?case
  proof (cases "strip_first ps s")
    case None
    then show ?thesis by (simp add: trim_with_None)
  next
    case (Some r)
    obtain p where "s = p @ r" using strip_first_split[OF Some] by blast
    moreover obtain xs where "r = xs @ trim_with ps r" using 1[OF Some] by blast
    moreover have "trim_with ps s = trim_with ps r" using Some by (subst trim_with.simps) simp
    ultimately have "s = (p @ xs) @ trim_with ps s" by simp
    then show ?thesis by blast
  qed
qed

lemma strip_first_None_take:
  "strip_first ps s = None \<Longrightarrow> strip_first ps (take n s) = None"
proof (induction ps s rule: strip_first.induct)
  case (2 p ps s)
  have "take (length p) (take n s) \<noteq> p" if "p \<noteq> []" "take (length p) s \<noteq> p"
  proof
    assume *: "take (length p) (take n s) = p"
    then have "min (length p) n \<ge> length p \<or> length s \<le> n"
      by (metis length_take min.absorb_iff1 min.bounded_iff nle_le take_all take_take)
    with * that(2) show False by (auto simp: min_def split: if_splits)
  qed
  with 2 show ?case by (auto split: if_splits)
qed simp

lemma trim_space_idem [simp]: "trim_space (trim_space s) = trim_space s"
proof -
  let ?ps = unicode_spaces and ?rs = "map rev unicode_spaces"
  let ?t = "trim_with ?ps s"
  obtain xs where xs: "rev ?t = xs @ trim_with ?rs (rev ?t)" using trim_with_suffix by blast
  then have "?t = rev (trim_with ?rs (rev ?t)) @ rev xs" by (metis rev_append rev_rev_ident)
  then have "trim_space s = take (length (trim_space s)) ?t"
    by (metis append_eq_conv_conj trim_space_def)
  then have "strip_first ?ps (trim_space s) = None"
    by (metis strip_first_None_take strip_first_trim_with)
  then have "trim_with ?ps (trim_space s) = trim_space s" by (rule trim_with_None)
  moreover have "trim_with ?rs (rev (trim_space s)) = rev (trim_space s)"
    by (simp add: trim_space_def trim_with_None strip_first_trim_with)
  ultimately show ?thesis by (subst trim_space_def) simp
qed

text \<open>Printable ASCII text without blanks is what identifiers look like; it is left alone.\<close>

definition plain_char :: "char \<Rightarrow> bool" where
  "plain_char c \<longleftrightarrow> 32 < (of_char c :: nat) \<and> (of_char c :: nat) < 128"

lemma strip_first_plain:
  assumes "list_all (\<lambda>p. p \<noteq> [] \<and> \<not> plain_char (hd p)) ps" and "s = [] \<or> plain_char (hd s)"
  shows "strip_first ps s = None"
  using assms
proof (induction ps s rule: strip_first.induct)
  case (2 p ps s)
  have "take (length p) s \<noteq> p" using 2(2,3) by (cases p; cases s) auto
  with 2 show ?case by simp
qed simp

lemma spaces_not_plain:
  "list_all (\<lambda>p. p \<noteq> [] \<and> \<not> plain_char (hd p)) unicode_spaces"
  "list_all (\<lambda>p. p \<noteq> [] \<and> \<not> plain_char (hd p)) (map rev unicode_spaces)"
  by (simp_all add: unicode_spaces_def plain_char_def of_char_def)

lemma trim_space_plain:
  assumes "s = [] \<or> plain_char (hd s) \<and> plain_char (last s)"
  shows "trim_space s = s"
proof -
  have "trim_with unicode_spaces s = s"
    using assms spaces_not_plain by (auto intro!: trim_with_None strip_first_plain)
  moreover have "trim_with (map rev unicode_spaces) (rev s) = rev s"
    using assms spaces_not_plain by (auto intro!: trim_with_None strip_first_plain simp: hd_rev)
  ultimately show ?thesis by (simp add: trim_space_def)
qed

lemma trim_space_Nil [simp]: "trim_space [] = []"
  by (rule trim_space_plain) simp

lemma trim_space_Cons_plain [go_eval]:
  "plain_char c \<Longrightarrow> plain_char (last (c # s)) \<Longrightarrow> trim_space (c # s) = c # s"
  by (rule trim_space_plain) simp

lemma plain_char_Char [go_eval]:
  "plain_char (Char b0 b1 b2 b3 b4 b5 b6 b7) \<longleftrightarrow> \<not> b7 \<and> (b6 \<or> b5 \<and> (b0 \<or> b1 \<or> b2 \<or> b3 \<or> b4))"
  unfolding plain_char_def
  by (cases b0; cases b1; cases b2; cases b3; cases b4; cases b5; cases b6; cases b7)
    (simp_all add: of_char_def)

section \<open>Decimal numbers\<close>

definition digit_char :: "nat \<Rightarrow> char" where
  "digit_char d = char_of (48 + d)"

text \<open>A lower-case hexadecimal digit, as \<^verbatim>\<open>hex.EncodeToString\<close> writes it.\<close>

definition hex_digit :: "nat \<Rightarrow> char" where
  "hex_digit n = (if n < 10 then digit_char n else char_of (87 + n))"

fun show_nat :: "nat \<Rightarrow> string" where
  "show_nat n = (if n < 10 then [digit_char n] else show_nat (n div 10) @ [digit_char (n mod 10)])"

declare show_nat.simps [simp del]

fun parse_digits :: "nat \<Rightarrow> string \<Rightarrow> nat option" where
  "parse_digits acc [] = Some acc"
| "parse_digits acc (c # cs) =
     (if 48 \<le> (of_char c :: nat) \<and> (of_char c :: nat) \<le> 57
      then parse_digits (acc * 10 + (of_char c - 48)) cs else None)"

text \<open>\<^verbatim>\<open>strconv.ParseUint(s, 10, 64)\<close>; \<open>None\<close> is a syntax or a range error.\<close>

definition parse_uint :: "string \<Rightarrow> u64 option" where
  "parse_uint s = (if s = [] then None
     else case parse_digits 0 s of None \<Rightarrow> None
       | Some n \<Rightarrow> if n < 2 ^ 64 then Some (of_nat n) else None)"

lemma of_char_digit: "d < 10 \<Longrightarrow> (of_char (digit_char d) :: nat) = 48 + d"
  by (simp add: digit_char_def)

lemma parse_digits_append:
  "parse_digits a (xs @ ys) = Option.bind (parse_digits a xs) (\<lambda>b. parse_digits b ys)"
  by (induction a xs rule: parse_digits.induct) auto

lemma parse_digits_show_nat: "parse_digits 0 (show_nat n) = Some n"
proof (induction n rule: show_nat.induct)
  case (1 n)
  show ?case
  proof (cases "n < 10")
    case True
    then show ?thesis by (simp add: show_nat.simps[of n] of_char_digit)
  next
    case False
    with 1 show ?thesis
      by (simp add: show_nat.simps[of n] parse_digits_append of_char_digit)
  qed
qed

lemma show_nat_nonempty [simp]: "show_nat n \<noteq> []"
  by (subst show_nat.simps) simp

lemma show_nat_inj [simp]: "show_nat m = show_nat n \<longleftrightarrow> m = n"
  by (metis option.inject parse_digits_show_nat)

lemma parse_uint_show_nat: "n < 2 ^ 64 \<Longrightarrow> parse_uint (show_nat n) = Some (of_nat n)"
  by (simp add: parse_uint_def parse_digits_show_nat)

lemma digit_char_plain: "d < 10 \<Longrightarrow> plain_char (digit_char d)"
  by (simp add: plain_char_def of_char_digit)

lemma show_nat_digits: "c \<in> set (show_nat n) \<Longrightarrow> \<exists>d<10. c = digit_char d"
  by (induction n rule: show_nat.induct) (subst (asm) (2) show_nat.simps, force split: if_splits)

section \<open>64-bit floating point numbers\<close>

type_synonym f64 = rat

definition pow2 :: "int \<Rightarrow> rat" where
  "pow2 e = (if 0 \<le> e then 2 ^ nat e else 1 / 2 ^ nat (- e))"

text \<open>The exponent \<open>e\<close> with \<open>2^e \<le> |x| < 2^(e+1)\<close>, for \<open>x \<noteq> 0\<close>.\<close>

definition f64_exponent :: "rat \<Rightarrow> int" where
  "f64_exponent x =
     (let (p, q) = quotient_of \<bar>x\<bar>; e = bitlen p - bitlen q
      in if pow2 e \<le> \<bar>x\<bar> then e else e - 1)"

definition round_half_even :: "rat \<Rightarrow> int" where
  "round_half_even q =
     (let n = \<lfloor>q\<rfloor>; r = q - of_int n
      in if r < 1 / 2 then n else if 1 / 2 < r then n + 1 else if even n then n else n + 1)"

definition f64_round :: "rat \<Rightarrow> f64" where
  "f64_round x =
     (if x = 0 then 0
      else let u = pow2 (max (f64_exponent x) (-1022) - 52) in of_int (round_half_even (x / u)) * u)"

definition f64_add :: "f64 \<Rightarrow> f64 \<Rightarrow> f64" where
  "f64_add x y = f64_round (x + y)"

definition f64_sub :: "f64 \<Rightarrow> f64 \<Rightarrow> f64" where
  "f64_sub x y = f64_round (x - y)"

lemma f64_sub_self [simp]: "f64_sub x x = 0"
  by (simp add: f64_sub_def f64_round_def)

section \<open>Maps as association lists\<close>

type_synonym ('k, 'v) gomap = "('k \<times> 'v) list"

lemma update_new: "k \<notin> fst ` set al \<Longrightarrow> AList.update k v al = al @ [(k, v)]"
  by (induction al) auto

lemma update_back: "map_of m k = Some v \<Longrightarrow> AList.update k v m = m"
  by (induction m) auto

text \<open>Changes every value of a map, as a Go loop over the map that writes through pointers does.\<close>

definition map_values :: "('v \<Rightarrow> 'v) \<Rightarrow> ('k, 'v) gomap \<Rightarrow> ('k, 'v) gomap" where
  "map_values f m = map (\<lambda>(k, v). (k, f v)) m"

lemma map_of_map_values [simp]: "map_of (map_values f m) k = map_option f (map_of m k)"
  by (induction m) (auto simp: map_values_def)

lemma fst_map_values [simp]: "map fst (map_values f m) = map fst m"
  by (auto simp: map_values_def)

lemma set_map_values: "(k, v) \<in> set (map_values f m) \<longleftrightarrow> (\<exists>w. (k, w) \<in> set m \<and> v = f w)"
  by (force simp: map_values_def)

lemma set_update_subset: "set (AList.update k v m) \<subseteq> insert (k, v) (set m)"
  by (induction m) auto

lemma set_update_distinct:
  "distinct (map fst m) \<Longrightarrow> set (AList.update k v m) = insert (k, v) {(k', w) \<in> set m. k' \<noteq> k}"
proof (induction m)
  case (Cons a m)
  then show ?case by (cases a) (auto simp: image_iff)
qed simp

end
