(* ===== verification/Lifecycle.thy ===== *)
theory Lifecycle
  imports Prelude
begin

text \<open>
  The Turn and Step state machines of \<^verbatim>\<open>node/internal/turn/lifecycle.go\<close> and the durable
  event vocabulary of \<^verbatim>\<open>lifecycle_events.go\<close>. Every status and event constant of the code
  is a constructor; \<open>_Other\<close> stands for a string outside the constants, which Go's string
  types admit. \<^verbatim>\<open>NextTurnStatus\<close> and \<^verbatim>\<open>NextStepStatus\<close> are the functions
  \<open>NextTurnStatus\<close> and \<open>NextStepStatus\<close>; the methods of \<^verbatim>\<open>*Turn\<close> and
  \<^verbatim>\<open>*Step\<close> take an \<open>option\<close>, since the code guards a nil receiver. The locale
  \<open>status_machine\<close> is the contract both machines keep: a terminal status is never left.
\<close>

section \<open>Statuses\<close>

type_synonym turn_source = string

datatype turn_status =
    TurnStatusCreated | TurnStatusRunning | TurnStatusWaiting | TurnStatusCompleted
  | TurnStatusFailed | TurnStatusCancelled | TurnStatusInterrupted | TurnStatusBudgetExhausted

definition turn_terminal :: "turn_status \<Rightarrow> bool" where
  "turn_terminal s \<longleftrightarrow> s \<in> {TurnStatusCompleted, TurnStatusFailed, TurnStatusCancelled,
                           TurnStatusInterrupted, TurnStatusBudgetExhausted}"

datatype step_status =
    StepStatusCreated | StepStatusRequesting | StepStatusAssistantReceived
  | StepStatusExecutingTools | StepStatusWaitingInteraction | StepStatusReadyForNext
  | StepStatusCompleted | StepStatusFailed | StepStatusCancelled | StepStatusInterrupted

definition step_terminal :: "step_status \<Rightarrow> bool" where
  "step_terminal s \<longleftrightarrow> s \<in> {StepStatusCompleted, StepStatusFailed, StepStatusCancelled,
                           StepStatusInterrupted}"

datatype model_attempt_status =
    ModelAttemptStatusRunning | ModelAttemptStatusCompleted | ModelAttemptStatusFailed
  | ModelAttemptStatusInterrupted | ModelAttemptStatusRetrying

datatype tool_execution_status =
    ToolExecutionStatusProposed | ToolExecutionStatusPending | ToolExecutionStatusRunning
  | ToolExecutionStatusSucceeded | ToolExecutionStatusFailed | ToolExecutionStatusDenied
  | ToolExecutionStatusCancelled | ToolExecutionStatusTimedOut | ToolExecutionStatusUnknown
  | ToolExecutionStatus_Other string

definition execution_terminal :: "tool_execution_status \<Rightarrow> bool" where
  "execution_terminal s \<longleftrightarrow>
     s \<in> {ToolExecutionStatusSucceeded, ToolExecutionStatusFailed, ToolExecutionStatusDenied,
          ToolExecutionStatusCancelled, ToolExecutionStatusTimedOut, ToolExecutionStatusUnknown}"

datatype interaction_status =
    InteractionStatusPending | InteractionStatusResolved | InteractionStatusRejected
  | InteractionStatusExpired | InteractionStatusCancelled

section \<open>Events\<close>

datatype event_type =
    EventTurnStarted | EventTurnInputAccepted | EventTurnSnapshotCreated | EventModelContextChanged
  | EventTurnCompleted | EventTurnFailed | EventTurnCancelled | EventTurnInterrupted
  | EventTurnBudgetExhausted
  | EventStepStarted | EventStepResumed | EventStepCompleted | EventStepFailed | EventStepCancelled
  | EventStepInterrupted | EventStepSuspended
  | EventModelRequestStarted | EventModelRequestCompleted | EventModelRequestFailed
  | EventModelRequestRetrying | EventModelUsageRecorded | EventAssistantMessageRecorded
  | EventToolBatchCreated | EventToolBatchSettled | EventToolCallRecorded
  | EventToolInteractionRequested | EventToolExecutionStarted | EventToolExecutionRetrying
  | EventToolExecutionCompleted | EventToolExecutionFailed | EventToolExecutionReconciled
  | EventToolResultRecorded | EventExternalFactRecorded
  | EventInteractionRequested | EventInteractionResolved | EventContextCompacted
  | Event_Other string

definition event_valid :: "event_type \<Rightarrow> bool" where
  "event_valid e = (case e of Event_Other _ \<Rightarrow> False | _ \<Rightarrow> True)"

section \<open>Records\<close>

record turn_budget =
  MaxSteps :: int
  MaxToolRounds :: int
  MaxToolCalls :: int
  MaxToolRetries :: int
  MaxWallTime :: int
  MaxInputTokens :: int
  MaxOutputTokens :: int
  MaxTotalTokens :: int
  MaxCost :: f64
  ReserveFinalSummary :: bool

record step_usage =
  su_InputTokens :: int
  su_OutputTokens :: int
  su_TotalTokens :: int
  su_PromptCacheHitTokens :: int
  su_PromptCacheMissTokens :: int
  su_PromptCacheMetricsObserved :: bool
  su_ReasoningTokens :: int
  su_Cost :: f64

record turn_usage =
  tu_Steps :: int
  tu_ToolRounds :: int
  tu_ToolCalls :: int
  tu_ToolRetries :: int
  tu_InputTokens :: int
  tu_OutputTokens :: int
  tu_TotalTokens :: int
  tu_PromptCacheHitTokens :: int
  tu_PromptCacheMissTokens :: int
  tu_PromptCacheMetricsObserved :: bool
  tu_ReasoningTokens :: int
  tu_SummarySteps :: int
  tu_Cost :: f64

definition zero_budget :: turn_budget where
  "zero_budget = \<lparr>MaxSteps = 0, MaxToolRounds = 0, MaxToolCalls = 0, MaxToolRetries = 0,
     MaxWallTime = 0, MaxInputTokens = 0, MaxOutputTokens = 0, MaxTotalTokens = 0, MaxCost = 0,
     ReserveFinalSummary = False\<rparr>"

definition zero_step_usage :: step_usage where
  "zero_step_usage = \<lparr>su_InputTokens = 0, su_OutputTokens = 0, su_TotalTokens = 0,
     su_PromptCacheHitTokens = 0, su_PromptCacheMissTokens = 0,
     su_PromptCacheMetricsObserved = False, su_ReasoningTokens = 0, su_Cost = 0\<rparr>"

definition zero_turn_usage :: turn_usage where
  "zero_turn_usage = \<lparr>tu_Steps = 0, tu_ToolRounds = 0, tu_ToolCalls = 0, tu_ToolRetries = 0,
     tu_InputTokens = 0, tu_OutputTokens = 0, tu_TotalTokens = 0, tu_PromptCacheHitTokens = 0,
     tu_PromptCacheMissTokens = 0, tu_PromptCacheMetricsObserved = False, tu_ReasoningTokens = 0,
     tu_SummarySteps = 0, tu_Cost = 0\<rparr>"

text \<open>
  Tool definitions and context injections are opaque to the lifecycle code, which only copies
  them: each is represented by its JSON text.
\<close>

record model_context_snapshot =
  mcs_SystemPrompt :: string
  mcs_ToolDefinitions :: "json_raw list"
  mcs_ContextInjections :: "json_raw list"
  mcs_ContextInjectionDigest :: string
  mcs_RuntimeRevision :: int
  mcs_RuntimeDigest :: string
  mcs_PromptDigest :: string
  mcs_ToolDigest :: string
  mcs_SkillsCatalogRevision :: string
  mcs_LoadedSkillsDigest :: string
  mcs_LoadedSkillsContentDigest :: string
  mcs_MemorySnapshotID :: string
  mcs_MemoryStoreRevision :: int
  mcs_MemoryDigest :: string
  mcs_MemoryCoreCount :: int
  mcs_MemoryRecallCount :: int
  mcs_MemoryEstimatedTokens :: int

definition zero_context_snapshot :: model_context_snapshot where
  "zero_context_snapshot = \<lparr>mcs_SystemPrompt = '''', mcs_ToolDefinitions = [],
     mcs_ContextInjections = [], mcs_ContextInjectionDigest = '''', mcs_RuntimeRevision = 0,
     mcs_RuntimeDigest = '''', mcs_PromptDigest = '''', mcs_ToolDigest = '''',
     mcs_SkillsCatalogRevision = '''', mcs_LoadedSkillsDigest = '''',
     mcs_LoadedSkillsContentDigest = '''', mcs_MemorySnapshotID = '''', mcs_MemoryStoreRevision = 0,
     mcs_MemoryDigest = '''', mcs_MemoryCoreCount = 0, mcs_MemoryRecallCount = 0,
     mcs_MemoryEstimatedTokens = 0\<rparr>"

record turn =
  turn_ID :: string
  turn_SessionID :: string
  turn_AgentID :: string
  turn_ParentTurnID :: string
  turn_Source :: turn_source
  turn_Status :: turn_status
  turn_EndReason :: string
  turn_CurrentStepID :: string
  turn_StepIndex :: int
  turn_RuntimeRevision :: int
  turn_ContextEpoch :: int
  turn_ContextSnapshot :: "model_context_snapshot option"
  turn_Budget :: turn_budget
  turn_Usage :: turn_usage
  turn_ModelUsageMissing :: bool
  turn_ModelUsagePending :: bool
  turn_StartedAt :: gotime
  turn_FinishedAt :: "gotime option"

record step =
  step_ID :: string
  step_TurnID :: string
  step_Index :: int
  step_Status :: step_status
  step_EndReason :: string
  step_ContextEpoch :: int
  step_RequestAttempt :: int
  step_ModelRequestID :: string
  step_AssistantMsgID :: string
  step_ToolBatchID :: string
  step_FinalSummary :: bool
  step_StartedAt :: gotime
  step_FinishedAt :: "gotime option"
  step_Usage :: step_usage

record tool_batch =
  batch_ID :: string
  batch_StepID :: string
  batch_ParallelAllowed :: bool
  batch_Status :: string
  batch_ToolCallIDs :: "string list"

record tool_execution =
  ex_ID :: string
  ex_ToolBatchID :: string
  ex_ToolCallID :: string
  ex_ToolName :: string
  ex_Arguments :: json_raw
  ex_Status :: tool_execution_status
  ex_Attempt :: int
  ex_PolicyDecision :: string
  ex_ApprovalID :: string
  ex_ResultRef :: string
  ex_ErrorKind :: string
  ex_StartedAt :: gotime
  ex_FinishedAt :: "gotime option"

record pending_interaction =
  pi_ID :: string
  pi_TurnID :: string
  pi_StepID :: string
  pi_ToolExecutionID :: string
  pi_Kind :: string
  pi_Status :: interaction_status
  pi_Payload :: json_raw
  pi_Resolution :: json_raw
  pi_Revision :: int
  pi_ExpiresAt :: "gotime option"

record model_attempt =
  ma_ID :: string
  ma_StepID :: string
  ma_TurnID :: string
  ma_Attempt :: int
  ma_RequestDigest :: string
  ma_Status :: model_attempt_status
  ma_ErrorKind :: string
  ma_MaxAttempts :: int
  ma_RetryAfterMS :: int
  ma_Retrying :: bool
  ma_Retryable :: bool
  ma_Usage :: step_usage
  ma_UsageRecorded :: bool
  ma_StartedAt :: gotime
  ma_FinishedAt :: "gotime option"

section \<open>Commands and errors\<close>

datatype command_type =
    CommandStartTurn | CommandStartStep | CommandTurnSnapshotCreated | CommandModelContextChanged
  | CommandModelRequestStarted | CommandModelResponseCompleted | CommandModelRequestFailed
  | CommandModelRequestRetrying | CommandModelUsageRecorded | CommandAssistantReceived
  | CommandToolBatchCreated | CommandToolBatchSettled | CommandInteractionRequested
  | CommandInteractionResolved | CommandCompleteStep | CommandFailStep | CommandInterruptStep
  | CommandCancelStep | CommandCompleteTurn | CommandFailTurn | CommandInterruptTurn
  | CommandCancelTurn | CommandBudgetExhausted | CommandContextCompacted
  | CommandExternalFactRecorded | CommandToolCallRecorded | CommandToolExecutionStarted
  | CommandToolExecutionRetrying | CommandToolExecutionCompleted | CommandToolExecutionFailed
  | CommandToolExecutionReconciled | CommandToolResultRecorded
  | Command_Other string

text \<open>
  One constructor per error message of the package, with the values the message prints. The last
  two are run-time panics, which the code never raises (proved in \<^verbatim>\<open>Coordinator_Inv\<close>).
\<close>

datatype lifecycle_error =
    ErrTurnIDRequired | ErrSessionIDRequired | ErrStepIDRequired | ErrStepIndexNotPositive
  | ErrContextEpochNegative | ErrTurnIsNil | ErrStepIsNil | ErrCannotStartStepWhile turn_status
  | ErrInvalidTurnTransition turn_status event_type
  | ErrInvalidStepTransition step_status event_type

datatype envelope_error =
    ErrEventSessionIDRequired | ErrUnknownEventType event_type | ErrEventVersionNotPositive
  | ErrSessionSeqZero | ErrTurnSeqZero | ErrCreatedAtRequired | ErrPayloadInvalidJSON
  | ErrSeqCrossesSessions | ErrSeqCrossesTurns | ErrSessionSeqGap u64 u64 | ErrTurnSeqGap u64 u64
  | ErrEventSessionMismatch string string | ErrRestoreSeqGap u64 u64 | ErrPayloadDecode

datatype command_error =
    ErrCoordinatorSessionRequired | ErrCommandSessionRequired | ErrCommandSessionMismatch string string
  | ErrCommandTurnIDRequired | ErrCommandTurnMismatch string string
  | ErrCommandGenerationMismatch u64 u64 | ErrRequiresActiveTurn command_type
  | ErrRequiresActiveStep command_type | ErrCommandStepIDRequired | ErrCommandStepMismatch string string
  | ErrUnknownCommand command_type

datatype handler_error =
    ErrActiveTurnExists string | ErrStartTurnRequiresID | ErrNoRunningTurn | ErrActiveStepExists string
  | ErrStartStepRequiresID | ErrSnapshotRequiresTurn | ErrSnapshotFrozen
  | ErrContextChangeRequiresStep | ErrContextChangeRequiresSnapshot | ErrContextChangeRequiresDigests
  | ErrAssistantRequiresStep | ErrBatchExists string | ErrModelRequestRequiresStep
  | ErrUsageRequiresStep | ErrUsageRequiresAttempt
  | ErrInteractionRequestRequiresStep | ErrInteractionMismatch string string
  | ErrInteractionResolutionRequiresStep | ErrInteractionRevisionMismatch int int
  | ErrStepCommandRequiresStep | ErrTurnCommandRequiresTurn | ErrCompactionRequiresStep

datatype execution_error =
    ErrToolCallRequiresBatch | ErrToolCallIDRequired | ErrDuplicateToolCall string
  | ErrExecutionRequiresBatch | ErrExecutionIDRequired | ErrUnknownExecution string
  | ErrCannotStart string tool_execution_status | ErrCannotRetry string tool_execution_status
  | ErrCannotComplete string tool_execution_status | ErrCannotBecomeUnknown string tool_execution_status
  | ErrCannotFail string tool_execution_status | ErrNotUnknown string | ErrReconcileRequiresKnown string
  | ErrFactRequiresStep | ErrFactIDRequired | ErrResultRequiresExecution | ErrResultRequiresTerminal string
  | ErrBatchUnfinished string | ErrBatchUnreconciled string | ErrStepBeforeBatchSettled

datatype turn_error =
    ELifecycle lifecycle_error | EEnvelope envelope_error | ECommand command_error
  | EHandler handler_error | EExecution execution_error | EReplay event_type turn_error
  | PanicNilMapWrite | PanicNilDeref

section \<open>Constructors\<close>

definition NewTurn :: "string \<Rightarrow> string \<Rightarrow> string \<Rightarrow> turn_source \<Rightarrow> turn_error + turn" where
  "NewTurn turnID sessionID agentID source =
     (if trim_space turnID = [] then Inl (ELifecycle ErrTurnIDRequired)
      else if trim_space sessionID = [] then Inl (ELifecycle ErrSessionIDRequired)
      else Inr \<lparr>turn_ID = trim_space turnID, turn_SessionID = trim_space sessionID,
             turn_AgentID = trim_space agentID, turn_ParentTurnID = '''', turn_Source = source,
             turn_Status = TurnStatusCreated, turn_EndReason = '''', turn_CurrentStepID = '''',
             turn_StepIndex = 0, turn_RuntimeRevision = 0, turn_ContextEpoch = 0,
             turn_ContextSnapshot = None, turn_Budget = zero_budget, turn_Usage = zero_turn_usage,
             turn_ModelUsageMissing = False, turn_ModelUsagePending = False, turn_StartedAt = 0,
             turn_FinishedAt = None\<rparr>)"

definition NewStep :: "string \<Rightarrow> string \<Rightarrow> int \<Rightarrow> int \<Rightarrow> turn_error + step" where
  "NewStep stepID turnID index contextEpoch =
     (if trim_space stepID = [] then Inl (ELifecycle ErrStepIDRequired)
      else if trim_space turnID = [] then Inl (ELifecycle ErrTurnIDRequired)
      else if index < 1 then Inl (ELifecycle ErrStepIndexNotPositive)
      else if contextEpoch < 0 then Inl (ELifecycle ErrContextEpochNegative)
      else Inr \<lparr>step_ID = trim_space stepID, step_TurnID = trim_space turnID, step_Index = index,
             step_Status = StepStatusCreated, step_EndReason = '''', step_ContextEpoch = contextEpoch,
             step_RequestAttempt = 0, step_ModelRequestID = '''', step_AssistantMsgID = '''',
             step_ToolBatchID = '''', step_FinalSummary = False, step_StartedAt = 0,
             step_FinishedAt = None, step_Usage = zero_step_usage\<rparr>)"

section \<open>Transitions\<close>

definition NextTurnStatus :: "turn_status \<Rightarrow> event_type \<Rightarrow> turn_status \<times> bool" where
  "NextTurnStatus current event =
     (case current of
        TurnStatusCreated \<Rightarrow>
          if event \<in> {EventTurnStarted, EventTurnInputAccepted} then (TurnStatusRunning, True)
          else if event = EventTurnCancelled then (TurnStatusCancelled, True)
          else (current, False)
      | TurnStatusRunning \<Rightarrow>
          if event \<in> {EventStepStarted, EventTurnSnapshotCreated, EventModelContextChanged,
                      EventStepCompleted, EventModelRequestStarted, EventModelRequestCompleted,
                      EventToolBatchCreated, EventToolResultRecorded} then (TurnStatusRunning, True)
          else if event \<in> {EventStepSuspended, EventInteractionRequested} then (TurnStatusWaiting, True)
          else if event = EventInteractionResolved then (TurnStatusRunning, True)
          else if event = EventTurnCompleted then (TurnStatusCompleted, True)
          else if event = EventTurnFailed then (TurnStatusFailed, True)
          else if event = EventTurnCancelled then (TurnStatusCancelled, True)
          else if event = EventTurnInterrupted then (TurnStatusInterrupted, True)
          else if event = EventTurnBudgetExhausted then (TurnStatusBudgetExhausted, True)
          else (current, False)
      | TurnStatusWaiting \<Rightarrow>
          if event \<in> {EventInteractionResolved, EventStepResumed} then (TurnStatusRunning, True)
          else if event = EventContextCompacted then (TurnStatusWaiting, True)
          else if event = EventTurnCancelled then (TurnStatusCancelled, True)
          else if event = EventTurnInterrupted then (TurnStatusInterrupted, True)
          else if event = EventTurnFailed then (TurnStatusFailed, True)
          else (current, False)
      | _ \<Rightarrow> (current, False))"

definition NextStepStatus :: "step_status \<Rightarrow> event_type \<Rightarrow> step_status \<times> bool" where
  "NextStepStatus current event =
     (case current of
        StepStatusCreated \<Rightarrow>
          if event \<in> {EventStepStarted, EventModelRequestStarted} then (StepStatusRequesting, True)
          else if event = EventModelContextChanged then (StepStatusCreated, True)
          else if event = EventStepCancelled then (StepStatusCancelled, True)
          else (current, False)
      | StepStatusRequesting \<Rightarrow>
          if event = EventModelRequestStarted then (StepStatusRequesting, True)
          else if event = EventModelContextChanged then (StepStatusRequesting, True)
          else if event \<in> {EventAssistantMessageRecorded, EventModelRequestCompleted}
               then (StepStatusAssistantReceived, True)
          else if event \<in> {EventModelRequestRetrying, EventContextCompacted}
               then (StepStatusRequesting, True)
          else if event = EventModelRequestFailed then (StepStatusFailed, True)
          else if event = EventStepInterrupted then (StepStatusInterrupted, True)
          else if event = EventStepCancelled then (StepStatusCancelled, True)
          else (current, False)
      | StepStatusAssistantReceived \<Rightarrow>
          if event = EventToolBatchCreated then (StepStatusExecutingTools, True)
          else if event = EventStepCompleted then (StepStatusCompleted, True)
          else if event = EventStepFailed then (StepStatusFailed, True)
          else if event = EventStepCancelled then (StepStatusCancelled, True)
          else (current, False)
      | StepStatusExecutingTools \<Rightarrow>
          if event = EventInteractionRequested then (StepStatusWaitingInteraction, True)
          else if event = EventToolResultRecorded then (StepStatusExecutingTools, True)
          else if event = EventToolBatchSettled then (StepStatusReadyForNext, True)
          else if event = EventStepCompleted then (StepStatusCompleted, True)
          else if event = EventStepFailed then (StepStatusFailed, True)
          else if event = EventStepInterrupted then (StepStatusInterrupted, True)
          else if event = EventStepCancelled then (StepStatusCancelled, True)
          else (current, False)
      | StepStatusWaitingInteraction \<Rightarrow>
          if event = EventContextCompacted then (StepStatusWaitingInteraction, True)
          else if event = EventInteractionResolved then (StepStatusExecutingTools, True)
          else if event = EventStepInterrupted then (StepStatusInterrupted, True)
          else if event = EventStepCancelled then (StepStatusCancelled, True)
          else (current, False)
      | StepStatusReadyForNext \<Rightarrow>
          if event = EventStepCompleted then (StepStatusCompleted, True)
          else if event = EventStepCancelled then (StepStatusCancelled, True)
          else (current, False)
      | _ \<Rightarrow> (current, False))"

section \<open>Operations of Turn and Step\<close>

text \<open>\<^verbatim>\<open>(t *Turn) StartStep\<close>: the updated Turn and the new Step.\<close>

definition StartStep :: "turn option \<Rightarrow> string \<Rightarrow> gotime \<Rightarrow> turn_error + (turn \<times> step)" where
  "StartStep t0 stepID now =
     (case t0 of None \<Rightarrow> Inl (ELifecycle ErrTurnIsNil)
      | Some t \<Rightarrow>
          if turn_Status t \<noteq> TurnStatusRunning then Inl (ELifecycle (ErrCannotStartStepWhile (turn_Status t)))
          else (case NewStep stepID (turn_ID t) (turn_StepIndex t + 1) (turn_ContextEpoch t) of
                  Inl e \<Rightarrow> Inl e
                | Inr st \<Rightarrow>
                    let t1 = t\<lparr>turn_StepIndex := step_Index st, turn_CurrentStepID := step_ID st\<rparr>;
                        t2 = (if now \<noteq> 0 \<and> turn_StartedAt t1 = 0
                              then t1\<lparr>turn_StartedAt := now\<rparr> else t1)
                    in Inr (t2, st)))"

text \<open>\<^verbatim>\<open>(t *Turn) Advance\<close> and \<^verbatim>\<open>(s *Step) Advance\<close>; a refused event changes nothing.\<close>

definition turn_Advance :: "turn option \<Rightarrow> event_type \<Rightarrow> gotime \<Rightarrow> string \<Rightarrow> turn_error + turn" where
  "turn_Advance t0 event now reason =
     (case t0 of None \<Rightarrow> Inl (ELifecycle ErrTurnIsNil)
      | Some t \<Rightarrow>
          let (nxt, ok) = NextTurnStatus (turn_Status t) event
          in if \<not> ok then Inl (ELifecycle (ErrInvalidTurnTransition (turn_Status t) event))
             else
               let t1 = t\<lparr>turn_Status := nxt\<rparr>;
                   t2 = (if trim_space reason \<noteq> [] then t1\<lparr>turn_EndReason := trim_space reason\<rparr> else t1);
                   t3 = (if event = EventTurnStarted \<and> now \<noteq> 0 \<and> turn_StartedAt t2 = 0
                         then t2\<lparr>turn_StartedAt := now\<rparr> else t2);
                   t4 = (if turn_terminal nxt \<and> now \<noteq> 0 then t3\<lparr>turn_FinishedAt := Some now\<rparr> else t3)
               in Inr t4)"

definition step_Advance :: "step option \<Rightarrow> event_type \<Rightarrow> gotime \<Rightarrow> string \<Rightarrow> turn_error + step" where
  "step_Advance s0 event now reason =
     (case s0 of None \<Rightarrow> Inl (ELifecycle ErrStepIsNil)
      | Some st \<Rightarrow>
          let (nxt, ok) = NextStepStatus (step_Status st) event
          in if \<not> ok then Inl (ELifecycle (ErrInvalidStepTransition (step_Status st) event))
             else
               let s1 = st\<lparr>step_Status := nxt\<rparr>;
                   s2 = (if trim_space reason \<noteq> [] then s1\<lparr>step_EndReason := trim_space reason\<rparr> else s1);
                   s3 = (if event = EventStepStarted \<and> now \<noteq> 0 \<and> step_StartedAt s2 = 0
                         then s2\<lparr>step_StartedAt := now\<rparr> else s2);
                   s4 = (if step_terminal nxt \<and> now \<noteq> 0 then s3\<lparr>step_FinishedAt := Some now\<rparr> else s3)
               in Inr s4)"

section \<open>The contract of a status machine\<close>

text \<open>
  What the coordinator relies on: an event is either accepted or leaves the status as it is, a
  terminal status accepts no event, and so every later status of a run equals the terminal one.
\<close>

locale status_machine =
  fixes nxt :: "'s \<Rightarrow> 'e \<Rightarrow> 's \<times> bool"
    and terminal :: "'s \<Rightarrow> bool"
  assumes refused: "\<not> snd (nxt s e) \<Longrightarrow> fst (nxt s e) = s"
    and absorbing: "terminal s \<Longrightarrow> \<not> snd (nxt s e)"
begin

lemma terminal_fixed: "terminal s \<Longrightarrow> fst (nxt s e) = s"
  by (simp add: refused absorbing)

lemma terminal_forever: "terminal s \<Longrightarrow> foldl (\<lambda>s e. fst (nxt s e)) s es = s"
  by (induction es) (simp_all add: terminal_fixed)

lemma accepted_not_terminal: "snd (nxt s e) \<Longrightarrow> \<not> terminal s"
  using absorbing by blast

lemma prefix_terminal:
  "terminal (foldl (\<lambda>s e. fst (nxt s e)) s es) \<Longrightarrow>
   foldl (\<lambda>s e. fst (nxt s e)) s (es @ es') = foldl (\<lambda>s e. fst (nxt s e)) s es"
  by (simp add: terminal_forever)

end

lemmas terminal_defs = turn_terminal_def step_terminal_def execution_terminal_def

interpretation turn_machine: status_machine NextTurnStatus turn_terminal
  by unfold_locales (auto simp: NextTurnStatus_def turn_terminal_def split: turn_status.splits)

interpretation step_machine: status_machine NextStepStatus step_terminal
  by unfold_locales (auto simp: NextStepStatus_def step_terminal_def split: step_status.splits)

section \<open>Properties of the operations\<close>

lemma turn_Advance_Inr:
  "turn_Advance t0 e now r = Inr t' \<Longrightarrow>
   \<exists>t. t0 = Some t \<and> NextTurnStatus (turn_Status t) e = (turn_Status t', True)"
  by (auto simp: turn_Advance_def Let_def split: option.splits prod.splits if_splits)

lemma step_Advance_Inr:
  "step_Advance s0 e now r = Inr s' \<Longrightarrow>
   \<exists>st. s0 = Some st \<and> NextStepStatus (step_Status st) e = (step_Status s', True)"
  by (auto simp: step_Advance_def Let_def split: option.splits prod.splits if_splits)

lemma turn_Advance_keeps [simp]:
  assumes "turn_Advance (Some t) e now r = Inr t'"
  shows "turn_ID t' = turn_ID t" "turn_SessionID t' = turn_SessionID t"
    "turn_Budget t' = turn_Budget t" "turn_Usage t' = turn_Usage t"
    "turn_StepIndex t' = turn_StepIndex t" "turn_ContextEpoch t' = turn_ContextEpoch t"
    "turn_ContextSnapshot t' = turn_ContextSnapshot t"
    "turn_Source t' = turn_Source t"
    "turn_ModelUsageMissing t' = turn_ModelUsageMissing t"
    "turn_ModelUsagePending t' = turn_ModelUsagePending t"
  using assms by (auto simp: turn_Advance_def Let_def split: prod.splits if_splits)

lemma step_Advance_keeps [simp]:
  assumes "step_Advance (Some st) e now r = Inr s'"
  shows "step_ID s' = step_ID st" "step_TurnID s' = step_TurnID st" "step_Index s' = step_Index st"
    "step_ContextEpoch s' = step_ContextEpoch st" "step_ToolBatchID s' = step_ToolBatchID st"
    "step_Usage s' = step_Usage st" "step_FinalSummary s' = step_FinalSummary st"
    "step_AssistantMsgID s' = step_AssistantMsgID st"
  using assms by (auto simp: step_Advance_def Let_def split: prod.splits if_splits)

lemma turn_Advance_terminal: "turn_terminal (turn_Status t) \<Longrightarrow> \<exists>e'. turn_Advance (Some t) e now r = Inl e'"
  using turn_machine.absorbing[of "turn_Status t" e]
  by (auto simp: turn_Advance_def Let_def split: prod.splits)

lemma step_Advance_terminal: "step_terminal (step_Status st) \<Longrightarrow> \<exists>e'. step_Advance (Some st) e now r = Inl e'"
  using step_machine.absorbing[of "step_Status st" e]
  by (auto simp: step_Advance_def Let_def split: prod.splits)

lemma turn_Advance_no_panic [simp]:
  "turn_Advance t e now r \<noteq> Inl PanicNilMapWrite" "turn_Advance t e now r \<noteq> Inl PanicNilDeref"
  by (auto simp: turn_Advance_def Let_def split: option.splits prod.splits)

lemma step_Advance_no_panic [simp]:
  "step_Advance t e now r \<noteq> Inl PanicNilMapWrite" "step_Advance t e now r \<noteq> Inl PanicNilDeref"
  by (auto simp: step_Advance_def Let_def split: option.splits prod.splits)

end
