(* ===== verification/Events.thy ===== *)
theory Events
  imports Lifecycle
begin

text \<open>
  The durable event envelope of \<^verbatim>\<open>node/internal/turn/lifecycle_events.go\<close>. The JSON payload
  is represented by what it decodes to: \<open>lifecycle_payload\<close> has the keys that
  \<^verbatim>\<open>lifecyclePersistEvent\<close> writes (\<^verbatim>\<open>session/runtime_lifecycle.go\<close>) with the
  values \<^verbatim>\<open>encoding/json\<close> reads back; text that is not JSON, or is JSON of another shape,
  is kept as text. \<open>llm_message\<close> is \<^verbatim>\<open>llm.Message\<close>, its parts that the modelled code
  only copies as JSON text.
\<close>

section \<open>Messages\<close>

record llm_tool_call =
  ltc_ID :: string
  ltc_Type :: string
  ltc_Name :: string
  ltc_Arguments :: string

record llm_message =
  msg_Role :: string
  msg_Content :: string
  msg_ContentParts :: "json_raw list"
  msg_FileReferences :: "json_raw list"
  msg_ReasoningContent :: string
  msg_ToolCalls :: "llm_tool_call list"
  msg_ToolCallID :: string
  msg_Name :: string
  msg_Source :: "json_raw option"
  msg_Provenance :: "json_raw option"
  msg_ToolResultMetadata :: "json_raw option"

definition zero_message :: llm_message where
  "zero_message = \<lparr>msg_Role = '''', msg_Content = '''', msg_ContentParts = [],
     msg_FileReferences = [], msg_ReasoningContent = '''', msg_ToolCalls = [], msg_ToolCallID = '''',
     msg_Name = '''', msg_Source = None, msg_Provenance = None, msg_ToolResultMetadata = None\<rparr>"

section \<open>Payloads\<close>

record lifecycle_payload =
  pl_generation :: u64
  pl_reason :: string
  pl_has_tools :: bool
  pl_final_summary :: bool
  pl_tool_batch_id :: string
  pl_external_fact_id :: string
  pl_external_fact_kind :: string
  pl_tool_name :: string
  pl_interaction_id :: string
  pl_interaction_kind :: string
  pl_interaction_revision :: int
  pl_request_digest :: string
  pl_assistant_message_id :: string
  pl_assistant_message :: "llm_message option"
  pl_arguments_json :: string
  pl_runtime_revision :: int
  pl_runtime_digest :: string
  pl_prompt_digest :: string
  pl_tool_digest :: string
  pl_budget :: turn_budget
  pl_context_snapshot :: "model_context_snapshot option"
  pl_interaction_payload :: json_raw
  pl_result_content :: string
  pl_context_before_digest :: string
  pl_context_after_digest :: string
  pl_compacted_message_from :: int
  pl_compacted_message_to :: int
  pl_error_kind :: string
  pl_retryable :: bool
  pl_max_attempts :: int
  pl_retry_after_ms :: int
  pl_execution_status :: tool_execution_status
  pl_usage :: step_usage
  pl_turn_status :: "turn_status option"
  pl_turn_end_reason :: string
  pl_step_status :: "step_status option"
  pl_step_end_reason :: string
  pl_step_index :: int
  pl_context_epoch :: int
  pl_recovery_required :: bool
  pl_input_message :: "llm_message option"

definition zero_payload :: lifecycle_payload where
  "zero_payload = \<lparr>pl_generation = 0, pl_reason = '''', pl_has_tools = False,
     pl_final_summary = False, pl_tool_batch_id = '''', pl_external_fact_id = '''',
     pl_external_fact_kind = '''', pl_tool_name = '''', pl_interaction_id = '''',
     pl_interaction_kind = '''', pl_interaction_revision = 0, pl_request_digest = '''',
     pl_assistant_message_id = '''', pl_assistant_message = None, pl_arguments_json = '''',
     pl_runtime_revision = 0, pl_runtime_digest = '''', pl_prompt_digest = '''',
     pl_tool_digest = '''', pl_budget = zero_budget, pl_context_snapshot = None,
     pl_interaction_payload = '''', pl_result_content = '''', pl_context_before_digest = '''',
     pl_context_after_digest = '''', pl_compacted_message_from = 0, pl_compacted_message_to = 0,
     pl_error_kind = '''', pl_retryable = False, pl_max_attempts = 0, pl_retry_after_ms = 0,
     pl_execution_status = ToolExecutionStatus_Other '''', pl_usage = zero_step_usage,
     pl_turn_status = None, pl_turn_end_reason = '''', pl_step_status = None,
     pl_step_end_reason = '''', pl_step_index = 0, pl_context_epoch = 0,
     pl_recovery_required = False, pl_input_message = None\<rparr>"

datatype payload =
    NoPayload \<comment> \<open>no bytes\<close>
  | BadJSON string \<comment> \<open>\<^verbatim>\<open>json.Valid\<close> is false\<close>
  | ForeignJSON string \<comment> \<open>JSON that does not decode into the payload struct\<close>
  | Decoded lifecycle_payload

definition json_valid_payload :: "payload \<Rightarrow> bool" where
  "json_valid_payload p = (case p of Decoded _ \<Rightarrow> True | ForeignJSON _ \<Rightarrow> True | _ \<Rightarrow> False)"

section \<open>Envelopes\<close>

record turn_event =
  te_ID :: int
  te_AgentID :: string
  te_SessionID :: string
  te_TurnID :: string
  te_StepID :: string
  te_ToolBatchID :: string
  te_ToolCallID :: string
  te_ToolExecutionID :: string
  te_InteractionID :: string
  te_SessionSeq :: u64
  te_TurnSeq :: u64
  te_EventType :: event_type
  te_EventVersion :: int
  te_Source :: string
  te_CommandID :: string
  te_Payload :: payload
  te_PayloadRef :: string
  te_CreatedAt :: gotime

definition NewTurnEventEnvelope :: "string \<Rightarrow> event_type \<Rightarrow> gotime \<Rightarrow> turn_event" where
  "NewTurnEventEnvelope sessionID eventType now =
     \<lparr>te_ID = 0, te_AgentID = '''', te_SessionID = trim_space sessionID, te_TurnID = '''',
      te_StepID = '''', te_ToolBatchID = '''', te_ToolCallID = '''', te_ToolExecutionID = '''',
      te_InteractionID = '''', te_SessionSeq = 0, te_TurnSeq = 0, te_EventType = eventType,
      te_EventVersion = 1, te_Source = '''', te_CommandID = '''', te_Payload = NoPayload,
      te_PayloadRef = '''', te_CreatedAt = now\<rparr>"

definition event_Validate :: "turn_event \<Rightarrow> envelope_error option" where
  "event_Validate e =
     (if trim_space (te_SessionID e) = [] then Some ErrEventSessionIDRequired
      else if \<not> event_valid (te_EventType e) then Some (ErrUnknownEventType (te_EventType e))
      else if te_EventVersion e \<le> 0 then Some ErrEventVersionNotPositive
      else if te_SessionSeq e = 0 then Some ErrSessionSeqZero
      else if te_TurnSeq e = 0 then Some ErrTurnSeqZero
      else if te_CreatedAt e = 0 then Some ErrCreatedAtRequired
      else if te_Payload e \<noteq> NoPayload \<and> \<not> json_valid_payload (te_Payload e)
           then Some ErrPayloadInvalidJSON
      else None)"

definition event_ValidateAfter :: "turn_event \<Rightarrow> turn_event \<Rightarrow> envelope_error option" where
  "event_ValidateAfter e previous =
     (case event_Validate e of Some err \<Rightarrow> Some err
      | None \<Rightarrow>
         if te_SessionID e \<noteq> te_SessionID previous then Some ErrSeqCrossesSessions
         else if te_TurnID e \<noteq> te_TurnID previous then Some ErrSeqCrossesTurns
         else if te_SessionSeq e \<noteq> te_SessionSeq previous + 1
              then Some (ErrSessionSeqGap (te_SessionSeq previous) (te_SessionSeq e))
         else if te_TurnSeq e \<noteq> te_TurnSeq previous + 1
              then Some (ErrTurnSeqGap (te_TurnSeq previous) (te_TurnSeq e))
         else None)"

text \<open>A chain of envelopes accepted one after the other has contiguous sequence numbers.\<close>

fun envelope_chain :: "turn_event \<Rightarrow> turn_event list \<Rightarrow> bool" where
  "envelope_chain p [] = True"
| "envelope_chain p (e # es) = (event_ValidateAfter e p = None \<and> envelope_chain e es)"

lemma envelope_chain_seq:
  assumes "envelope_chain p es" and "i < length es"
  shows "te_SessionSeq (es ! i) = te_SessionSeq p + of_nat (Suc i) \<and>
         te_TurnSeq (es ! i) = te_TurnSeq p + of_nat (Suc i) \<and> te_SessionSeq (es ! i) \<noteq> 0"
  using assms
proof (induction es arbitrary: p i)
  case (Cons e es)
  have head: "te_SessionSeq e = te_SessionSeq p + 1" "te_TurnSeq e = te_TurnSeq p + 1"
    "te_SessionSeq e \<noteq> 0"
    using Cons.prems(1)
    by (auto simp: event_ValidateAfter_def event_Validate_def split: option.splits if_splits)
  show ?case
  proof (cases i)
    case 0
    then show ?thesis using head by simp
  next
    case (Suc j)
    have "te_SessionSeq (es ! j) = te_SessionSeq e + of_nat (Suc j)"
      "te_TurnSeq (es ! j) = te_TurnSeq e + of_nat (Suc j)" "te_SessionSeq (es ! j) \<noteq> 0"
      using Cons.IH[of e j] Cons.prems Suc by auto
    then show ?thesis using head Suc by (simp only: nth_Cons_Suc) simp
  qed
qed simp

end
