(* ===== verification/Coordinator.thy ===== *)
theory Coordinator
  imports Events "HOL-Library.List_Lexorder" "HOL-Library.Char_ord"
begin

text \<open>
  The Turn coordinator of \<^verbatim>\<open>node/internal/turn/coordinator.go\<close>: the state machine that owns the
  active Turn, its Step, the Step's tool batch with the execution record of every tool call, the
  pending human interaction and the model attempts. Every method is a definition of the same
  name. A handler returns the coordinator it leaves behind together with its error, because the
  code mutates before it finds an invalid edge; \<open>dispatchLocked\<close> takes the checkpoint and
  restores it, as the code does. \<open>now\<close> is \<^verbatim>\<open>time.Now()\<close>. The mutex makes each method one
  atomic step. The receiver is never nil here.

  Iteration over the executions map follows the association list; the map has one record per
  tool call (proved in \<^verbatim>\<open>Coordinator_Inv\<close>), so the lookups by call id do not depend on it.
\<close>

section \<open>State\<close>

record turn_command =
  cmd_Type :: command_type
  cmd_CommandID :: string
  cmd_SessionID :: string
  cmd_TurnID :: string
  cmd_StepID :: string
  cmd_Generation :: u64
  cmd_Source :: turn_source
  cmd_At :: gotime
  cmd_Reason :: string
  cmd_HasTools :: bool
  cmd_ToolBatchID :: string
  cmd_FinalSummary :: bool
  cmd_ToolCallID :: string
  cmd_ToolExecutionID :: string
  cmd_ExternalFactID :: string
  cmd_ExternalFactKind :: string
  cmd_ToolName :: string
  cmd_Arguments :: json_raw
  cmd_InteractionID :: string
  cmd_InteractionKind :: string
  cmd_InteractionRevision :: int
  cmd_RequestDigest :: string
  cmd_AssistantMessageID :: string
  cmd_AssistantMessage :: "llm_message option"
  cmd_RuntimeRevision :: int
  cmd_RuntimeDigest :: string
  cmd_PromptDigest :: string
  cmd_ToolDigest :: string
  cmd_ContextSnapshot :: "model_context_snapshot option"
  cmd_ContextBeforeDigest :: string
  cmd_ContextAfterDigest :: string
  cmd_CompactedMessageFrom :: int
  cmd_CompactedMessageTo :: int
  cmd_Budget :: turn_budget
  cmd_ErrorKind :: string
  cmd_MaxAttempts :: int
  cmd_RetryAfterMS :: int
  cmd_Retryable :: bool
  cmd_Payload :: json_raw
  cmd_PayloadRef :: string
  cmd_ResultContent :: string
  cmd_ExecutionStatus :: tool_execution_status
  cmd_Usage :: step_usage

definition zero_command :: "command_type \<Rightarrow> turn_command" where
  "zero_command ct = \<lparr>cmd_Type = ct, cmd_CommandID = '''', cmd_SessionID = '''', cmd_TurnID = '''',
     cmd_StepID = '''', cmd_Generation = 0, cmd_Source = '''', cmd_At = 0, cmd_Reason = '''',
     cmd_HasTools = False, cmd_ToolBatchID = '''', cmd_FinalSummary = False, cmd_ToolCallID = '''',
     cmd_ToolExecutionID = '''', cmd_ExternalFactID = '''', cmd_ExternalFactKind = '''',
     cmd_ToolName = '''', cmd_Arguments = '''', cmd_InteractionID = '''', cmd_InteractionKind = '''',
     cmd_InteractionRevision = 0, cmd_RequestDigest = '''', cmd_AssistantMessageID = '''',
     cmd_AssistantMessage = None, cmd_RuntimeRevision = 0, cmd_RuntimeDigest = '''',
     cmd_PromptDigest = '''', cmd_ToolDigest = '''', cmd_ContextSnapshot = None,
     cmd_ContextBeforeDigest = '''', cmd_ContextAfterDigest = '''', cmd_CompactedMessageFrom = 0,
     cmd_CompactedMessageTo = 0, cmd_Budget = zero_budget, cmd_ErrorKind = '''',
     cmd_MaxAttempts = 0, cmd_RetryAfterMS = 0, cmd_Retryable = False, cmd_Payload = '''',
     cmd_PayloadRef = '''', cmd_ResultContent = '''',
     cmd_ExecutionStatus = ToolExecutionStatus_Other '''', cmd_Usage = zero_step_usage\<rparr>"

text \<open>
  The \<^verbatim>\<open>map[string]bool\<close> fields only ever store \<open>true\<close>: each is the list of its keys.
  \<^verbatim>\<open>toolResults\<close> and \<^verbatim>\<open>appliedCommands\<close> start as nil maps.
\<close>

record coordinator =
  co_sessionID :: string
  co_agentID :: string
  co_generation :: u64
  co_turn :: "turn option"
  co_step :: "step option"
  co_batch :: "tool_batch option"
  co_executions :: "(string, tool_execution) gomap"
  co_toolResults :: "string list option"
  co_externalFacts :: "string list"
  co_appliedCommands :: "string list option"
  co_interaction :: "pending_interaction option"
  co_attempts :: "model_attempt list"
  co_recoveryRequired :: bool

type_synonym outcome = "coordinator \<times> turn_error option"

definition NewTurnCoordinator :: "string \<Rightarrow> string \<Rightarrow> coordinator" where
  "NewTurnCoordinator sessionID agentID =
     \<lparr>co_sessionID = trim_space sessionID, co_agentID = trim_space agentID, co_generation = 0,
      co_turn = None, co_step = None, co_batch = None, co_executions = [], co_toolResults = None,
      co_externalFacts = [], co_appliedCommands = None, co_interaction = None, co_attempts = [],
      co_recoveryRequired = False\<rparr>"

section \<open>Helpers\<close>

text \<open>Reading a possibly nil \<^verbatim>\<open>map[string]bool\<close>.\<close>

definition flag_set :: "string list option \<Rightarrow> string \<Rightarrow> bool" where
  "flag_set m k = (case m of None \<Rightarrow> False | Some ks \<Rightarrow> k \<in> set ks)"

definition add_key :: "string \<Rightarrow> string list \<Rightarrow> string list" where
  "add_key k ks = (if k \<in> set ks then ks else ks @ [k])"

definition update_last :: "('a \<Rightarrow> 'a) \<Rightarrow> 'a list \<Rightarrow> 'a list" where
  "update_last f xs = (if xs = [] then [] else butlast xs @ [f (last xs)])"

definition andThen :: "outcome \<Rightarrow> (coordinator \<Rightarrow> outcome) \<Rightarrow> outcome" where
  "andThen r f = (case r of (c, None) \<Rightarrow> f c | (c, Some e) \<Rightarrow> (c, Some e))"

definition advanceTurn :: "coordinator \<Rightarrow> event_type \<Rightarrow> gotime \<Rightarrow> string \<Rightarrow> outcome" where
  "advanceTurn c event tm reason =
     (case turn_Advance (co_turn c) event tm reason of
        Inl e \<Rightarrow> (c, Some e) | Inr t \<Rightarrow> (c\<lparr>co_turn := Some t\<rparr>, None))"

definition advanceStep :: "coordinator \<Rightarrow> event_type \<Rightarrow> gotime \<Rightarrow> string \<Rightarrow> outcome" where
  "advanceStep c event tm reason =
     (case step_Advance (co_step c) event tm reason of
        Inl e \<Rightarrow> (c, Some e) | Inr st \<Rightarrow> (c\<lparr>co_step := Some st\<rparr>, None))"

text \<open>Writes through a pointer that may be nil.\<close>

definition modTurn :: "(turn \<Rightarrow> turn) \<Rightarrow> coordinator \<Rightarrow> coordinator" where
  "modTurn f c = c\<lparr>co_turn := map_option f (co_turn c)\<rparr>"

definition modStep :: "(step \<Rightarrow> step) \<Rightarrow> coordinator \<Rightarrow> coordinator" where
  "modStep f c = c\<lparr>co_step := map_option f (co_step c)\<rparr>"

definition modUsage :: "(turn_usage \<Rightarrow> turn_usage) \<Rightarrow> coordinator \<Rightarrow> coordinator" where
  "modUsage f c = modTurn (\<lambda>t. t\<lparr>turn_Usage := f (turn_Usage t)\<rparr>) c"

definition default_id :: "string \<Rightarrow> string \<Rightarrow> string" where
  "default_id given fallback = (if trim_space given = [] then fallback else trim_space given)"

definition exec_for_call :: "coordinator \<Rightarrow> string \<Rightarrow> tool_execution option" where
  "exec_for_call c callID = find (\<lambda>e. ex_ToolCallID e = callID) (map snd (co_executions c))"

section \<open>Turn and Step commands\<close>

definition startTurnLocked :: "coordinator \<Rightarrow> turn_command \<Rightarrow> outcome" where
  "startTurnLocked c cmd =
     (case (case co_turn c of Some t \<Rightarrow> if turn_terminal (turn_Status t) then None else Some t
                            | None \<Rightarrow> None) of
        Some t \<Rightarrow> (c, Some (EHandler (ErrActiveTurnExists (turn_ID t))))
      | None \<Rightarrow>
         if trim_space (cmd_TurnID cmd) = [] then (c, Some (EHandler ErrStartTurnRequiresID))
         else (case NewTurn (cmd_TurnID cmd) (co_sessionID c) (co_agentID c) (cmd_Source cmd) of
            Inl e \<Rightarrow> (c, Some e)
          | Inr t \<Rightarrow>
              advanceTurn
                (c\<lparr>co_turn := Some (t\<lparr>turn_Budget := cmd_Budget cmd\<rparr>),
                   co_recoveryRequired := False, co_externalFacts := [], co_step := None,
                   co_generation := (if cmd_Generation cmd \<noteq> 0 then cmd_Generation cmd
                                     else if co_generation c + 1 = 0 then 1
                                     else co_generation c + 1)\<rparr>)
                EventTurnStarted (cmd_At cmd) (cmd_Reason cmd)))"

definition startStepLocked :: "coordinator \<Rightarrow> turn_command \<Rightarrow> outcome" where
  "startStepLocked c cmd =
     (if (case co_turn c of None \<Rightarrow> True | Some t \<Rightarrow> turn_Status t \<noteq> TurnStatusRunning)
      then (c, Some (EHandler ErrNoRunningTurn))
      else case (case co_step c of Some st \<Rightarrow> if step_terminal (step_Status st) then None else Some st
                                 | None \<Rightarrow> None) of
        Some st \<Rightarrow> (c, Some (EHandler (ErrActiveStepExists (step_ID st))))
      | None \<Rightarrow>
         if trim_space (cmd_StepID cmd) = [] then (c, Some (EHandler ErrStartStepRequiresID))
         else (case StartStep (co_turn c) (cmd_StepID cmd) (cmd_At cmd) of
            Inl e \<Rightarrow> (c, Some e)
          | Inr (t, st) \<Rightarrow>
              let u = turn_Usage t;
                  u1 = u\<lparr>tu_Steps := tu_Steps u + 1\<rparr>;
                  u2 = (if cmd_FinalSummary cmd then u1\<lparr>tu_SummarySteps := tu_SummarySteps u1 + 1\<rparr> else u1);
                  t1 = t\<lparr>turn_Usage := u2\<rparr>;
                  t2 = (if turn_ModelUsagePending t1 then t1\<lparr>turn_ModelUsageMissing := True\<rparr> else t1)
              in advanceStep
                   (c\<lparr>co_turn := Some t2,
                      co_step := Some (st\<lparr>step_FinalSummary := cmd_FinalSummary cmd\<rparr>),
                      co_batch := None, co_executions := [], co_toolResults := Some [],
                      co_interaction := None, co_attempts := []\<rparr>)
                   EventStepStarted (cmd_At cmd) (cmd_Reason cmd)))"

definition fill_snapshot_fields :: "turn_command \<Rightarrow> turn_command" where
  "fill_snapshot_fields cmd =
     (case cmd_ContextSnapshot cmd of None \<Rightarrow> cmd
      | Some s \<Rightarrow>
          let c1 = (if cmd_RuntimeRevision cmd = 0 then cmd\<lparr>cmd_RuntimeRevision := mcs_RuntimeRevision s\<rparr> else cmd);
              c2 = (if cmd_RuntimeDigest c1 = [] then c1\<lparr>cmd_RuntimeDigest := mcs_RuntimeDigest s\<rparr> else c1);
              c3 = (if cmd_PromptDigest c2 = [] then c2\<lparr>cmd_PromptDigest := mcs_PromptDigest s\<rparr> else c2)
          in (if cmd_ToolDigest c3 = [] then c3\<lparr>cmd_ToolDigest := mcs_ToolDigest s\<rparr> else c3))"

definition snapshotCreatedLocked :: "coordinator \<Rightarrow> turn_command \<Rightarrow> outcome" where
  "snapshotCreatedLocked c cmd0 =
     (case co_turn c of None \<Rightarrow> (c, Some (EHandler ErrSnapshotRequiresTurn))
      | Some t \<Rightarrow>
         let cmd = fill_snapshot_fields cmd0 in
         (case turn_ContextSnapshot t of
            Some frozen \<Rightarrow>
              let injection = (case cmd_ContextSnapshot cmd of None \<Rightarrow> ''''
                               | Some s \<Rightarrow> mcs_ContextInjectionDigest s)
              in if mcs_RuntimeDigest frozen \<noteq> cmd_RuntimeDigest cmd \<or>
                    mcs_PromptDigest frozen \<noteq> cmd_PromptDigest cmd \<or>
                    mcs_ToolDigest frozen \<noteq> cmd_ToolDigest cmd \<or>
                    mcs_ContextInjectionDigest frozen \<noteq> injection
                 then (c, Some (EHandler ErrSnapshotFrozen)) else (c, None)
          | None \<Rightarrow>
              let t1 = t\<lparr>turn_RuntimeRevision := cmd_RuntimeRevision cmd\<rparr>;
                  t2 = (case cmd_ContextSnapshot cmd of
                          Some s \<Rightarrow>
                            let t' = t1\<lparr>turn_ContextSnapshot := Some s\<rparr>
                            in (if cmd_RuntimeRevision cmd = 0
                                then t'\<lparr>turn_RuntimeRevision := mcs_RuntimeRevision s\<rparr> else t')
                        | None \<Rightarrow> t1\<lparr>turn_ContextSnapshot := Some (zero_context_snapshot
                            \<lparr>mcs_RuntimeRevision := cmd_RuntimeRevision cmd,
                             mcs_RuntimeDigest := cmd_RuntimeDigest cmd,
                             mcs_PromptDigest := cmd_PromptDigest cmd,
                             mcs_ToolDigest := cmd_ToolDigest cmd\<rparr>)\<rparr>)
              in advanceTurn (c\<lparr>co_turn := Some t2\<rparr>) EventTurnSnapshotCreated (cmd_At cmd) (cmd_Reason cmd)))"

definition contextChangedLocked :: "coordinator \<Rightarrow> turn_command \<Rightarrow> outcome" where
  "contextChangedLocked c cmd =
     (case (co_turn c, co_step c) of
        (Some t, Some st) \<Rightarrow>
          (case cmd_ContextSnapshot cmd of
             None \<Rightarrow> (c, Some (EHandler ErrContextChangeRequiresSnapshot))
           | Some s \<Rightarrow>
               if trim_space (mcs_PromptDigest s) = [] \<or> trim_space (mcs_ToolDigest s) = []
               then (c, Some (EHandler ErrContextChangeRequiresDigests))
               else
                 let t1 = t\<lparr>turn_ContextSnapshot := Some s, turn_RuntimeRevision := mcs_RuntimeRevision s,
                            turn_ContextEpoch := turn_ContextEpoch t + 1\<rparr>
                 in andThen
                      (advanceTurn (c\<lparr>co_turn := Some t1,
                                      co_step := Some (st\<lparr>step_ContextEpoch := turn_ContextEpoch t1\<rparr>)\<rparr>)
                         EventModelContextChanged (cmd_At cmd) '''')
                      (\<lambda>c'. advanceStep c' EventModelContextChanged (cmd_At cmd) ''''))
      | _ \<Rightarrow> (c, Some (EHandler ErrContextChangeRequiresStep)))"

definition recordAssistantLocked :: "coordinator \<Rightarrow> turn_command \<Rightarrow> outcome" where
  "recordAssistantLocked c cmd =
     (case co_step c of None \<Rightarrow> (c, Some (EHandler ErrAssistantRequiresStep))
      | Some st \<Rightarrow>
         let batchID = default_id (cmd_ToolBatchID cmd) (step_ID st @ ''-batch'') in
         (case (if cmd_HasTools cmd then co_batch c else None) of
            Some b \<Rightarrow>
              if batch_ID b \<noteq> batchID then (c, Some (EHandler (ErrBatchExists (step_ID st)))) else (c, None)
          | None \<Rightarrow>
              andThen (advanceStep c EventAssistantMessageRecorded (cmd_At cmd) (cmd_Reason cmd))
                (\<lambda>c1.
                  let c2 = (if trim_space (cmd_AssistantMessageID cmd) \<noteq> []
                            then modStep (\<lambda>s. s\<lparr>step_AssistantMsgID := trim_space (cmd_AssistantMessageID cmd)\<rparr>) c1
                            else c1)
                  in if \<not> cmd_HasTools cmd then (c2, None)
                     else if co_turn c2 = None then (c2, Some PanicNilDeref)
                     else
                       let c3 = modUsage (\<lambda>u. u\<lparr>tu_ToolRounds := tu_ToolRounds u + 1\<rparr>) c2;
                           c4 = modStep (\<lambda>s. s\<lparr>step_ToolBatchID := batchID\<rparr>)
                                  (c3\<lparr>co_batch := Some \<lparr>batch_ID = batchID, batch_StepID = step_ID st,
                                        batch_ParallelAllowed = False, batch_Status = ''created'',
                                        batch_ToolCallIDs = []\<rparr>\<rparr>)
                       in advanceStep c4 EventToolBatchCreated (cmd_At cmd) (cmd_Reason cmd))))"

section \<open>Model attempts\<close>

definition startModelAttemptLocked :: "coordinator \<Rightarrow> turn_command \<Rightarrow> outcome" where
  "startModelAttemptLocked c cmd =
     (case co_step c of None \<Rightarrow> (c, Some (EHandler ErrModelRequestRequiresStep))
      | Some st \<Rightarrow>
         if co_attempts c \<noteq> [] \<and> ma_Status (last (co_attempts c)) = ModelAttemptStatusRunning
         then (c, None)
         else (case co_turn c of None \<Rightarrow> (c, Some PanicNilDeref)
          | Some t \<Rightarrow>
             let attemptNumber = int (length (co_attempts c)) + 1;
                 attemptBase = default_id (cmd_RequestDigest cmd) (step_ID st);
                 attemptID = attemptBase @ ''-attempt-'' @ show_nat (nat attemptNumber);
                 attempt = \<lparr>ma_ID = attemptID, ma_StepID = step_ID st, ma_TurnID = turn_ID t,
                   ma_Attempt = attemptNumber, ma_RequestDigest = cmd_RequestDigest cmd,
                   ma_Status = ModelAttemptStatusRunning, ma_ErrorKind = '''',
                   ma_MaxAttempts = cmd_MaxAttempts cmd, ma_RetryAfterMS = 0, ma_Retrying = False,
                   ma_Retryable = False, ma_Usage = zero_step_usage, ma_UsageRecorded = False,
                   ma_StartedAt = cmd_At cmd, ma_FinishedAt = None\<rparr>;
                 t1 = (if turn_ModelUsagePending t then t\<lparr>turn_ModelUsageMissing := True\<rparr> else t);
                 t2 = t1\<lparr>turn_ModelUsagePending := True\<rparr>
             in advanceStep
                  (c\<lparr>co_attempts := co_attempts c @ [attempt], co_turn := Some t2,
                     co_step := Some (st\<lparr>step_RequestAttempt := attemptNumber,
                                        step_ModelRequestID := attemptID\<rparr>)\<rparr>)
                  EventModelRequestStarted (cmd_At cmd) (cmd_Reason cmd)))"

definition completeModelAttemptLocked :: "coordinator \<Rightarrow> turn_command \<Rightarrow> outcome" where
  "completeModelAttemptLocked c cmd =
     (c\<lparr>co_attempts := update_last
          (\<lambda>a. if ma_Status a = ModelAttemptStatusRunning
               then a\<lparr>ma_Status := ModelAttemptStatusCompleted, ma_FinishedAt := Some (cmd_At cmd)\<rparr>
               else a) (co_attempts c)\<rparr>, None)"

definition usageDelta :: "step_usage \<Rightarrow> step_usage \<Rightarrow> step_usage" where
  "usageDelta current previous =
     (let d = (\<lambda>x y. if x - y < 0 then x else x - y) :: int \<Rightarrow> int \<Rightarrow> int;
          cost = f64_sub (su_Cost current) (su_Cost previous)
      in \<lparr>su_InputTokens = d (su_InputTokens current) (su_InputTokens previous),
          su_OutputTokens = d (su_OutputTokens current) (su_OutputTokens previous),
          su_TotalTokens = d (su_TotalTokens current) (su_TotalTokens previous),
          su_PromptCacheHitTokens = d (su_PromptCacheHitTokens current) (su_PromptCacheHitTokens previous),
          su_PromptCacheMissTokens = d (su_PromptCacheMissTokens current) (su_PromptCacheMissTokens previous),
          su_PromptCacheMetricsObserved =
            (su_PromptCacheMetricsObserved current \<or> su_PromptCacheMetricsObserved previous),
          su_ReasoningTokens = d (su_ReasoningTokens current) (su_ReasoningTokens previous),
          su_Cost = (if cost < 0 then su_Cost current else cost)\<rparr>)"

definition addStepUsage :: "step_usage \<Rightarrow> step_usage \<Rightarrow> step_usage" where
  "addStepUsage u d =
     \<lparr>su_InputTokens = su_InputTokens u + su_InputTokens d,
      su_OutputTokens = su_OutputTokens u + su_OutputTokens d,
      su_TotalTokens = su_TotalTokens u + su_TotalTokens d,
      su_PromptCacheHitTokens = su_PromptCacheHitTokens u + su_PromptCacheHitTokens d,
      su_PromptCacheMissTokens = su_PromptCacheMissTokens u + su_PromptCacheMissTokens d,
      su_PromptCacheMetricsObserved =
        (su_PromptCacheMetricsObserved u \<or> su_PromptCacheMetricsObserved d),
      su_ReasoningTokens = su_ReasoningTokens u + su_ReasoningTokens d,
      su_Cost = f64_add (su_Cost u) (su_Cost d)\<rparr>"

definition addTurnUsage :: "turn_usage \<Rightarrow> step_usage \<Rightarrow> turn_usage" where
  "addTurnUsage u d =
     u\<lparr>tu_InputTokens := tu_InputTokens u + su_InputTokens d,
       tu_OutputTokens := tu_OutputTokens u + su_OutputTokens d,
       tu_TotalTokens := tu_TotalTokens u + su_TotalTokens d,
       tu_PromptCacheHitTokens := tu_PromptCacheHitTokens u + su_PromptCacheHitTokens d,
       tu_PromptCacheMissTokens := tu_PromptCacheMissTokens u + su_PromptCacheMissTokens d,
       tu_PromptCacheMetricsObserved :=
         (tu_PromptCacheMetricsObserved u \<or> su_PromptCacheMetricsObserved d),
       tu_ReasoningTokens := tu_ReasoningTokens u + su_ReasoningTokens d,
       tu_Cost := f64_add (tu_Cost u) (su_Cost d)\<rparr>"

definition recordModelUsageLocked :: "coordinator \<Rightarrow> turn_command \<Rightarrow> outcome" where
  "recordModelUsageLocked c cmd =
     (case (co_turn c, co_step c) of
        (Some t, Some st) \<Rightarrow>
          if co_attempts c = [] then (c, Some (EHandler ErrUsageRequiresAttempt))
          else
            let delta = usageDelta (cmd_Usage cmd) (ma_Usage (last (co_attempts c)))
            in (c\<lparr>co_attempts := update_last
                     (\<lambda>a. a\<lparr>ma_UsageRecorded := True, ma_Usage := cmd_Usage cmd\<rparr>) (co_attempts c),
                   co_turn := Some (t\<lparr>turn_ModelUsagePending := False,
                                      turn_Usage := addTurnUsage (turn_Usage t) delta\<rparr>),
                   co_step := Some (st\<lparr>step_Usage := addStepUsage (step_Usage st) delta\<rparr>)\<rparr>, None)
      | _ \<Rightarrow> (c, Some (EHandler ErrUsageRequiresStep)))"

definition finishModelAttemptLocked ::
  "event_type \<Rightarrow> model_attempt_status \<Rightarrow> coordinator \<Rightarrow> turn_command \<Rightarrow> outcome" where
  "finishModelAttemptLocked event status c cmd =
     advanceStep
       (c\<lparr>co_attempts := update_last
            (\<lambda>a. a\<lparr>ma_Status := status, ma_ErrorKind := cmd_ErrorKind cmd, ma_Retrying := False,
                   ma_Retryable := cmd_Retryable cmd, ma_FinishedAt := Some (cmd_At cmd)\<rparr>)
            (co_attempts c)\<rparr>)
       event (cmd_At cmd) (cmd_Reason cmd)"

definition retryModelAttemptLocked :: "coordinator \<Rightarrow> turn_command \<Rightarrow> outcome" where
  "retryModelAttemptLocked c cmd =
     advanceStep
       (c\<lparr>co_attempts := update_last
            (\<lambda>a. a\<lparr>ma_Status := ModelAttemptStatusFailed, ma_ErrorKind := cmd_ErrorKind cmd,
                   ma_Retrying := True, ma_Retryable := cmd_Retryable cmd,
                   ma_RetryAfterMS := cmd_RetryAfterMS cmd, ma_FinishedAt := Some (cmd_At cmd)\<rparr>)
            (co_attempts c)\<rparr>)
       EventModelRequestRetrying (cmd_At cmd) (cmd_Reason cmd)"

definition finishInterruptedModelAttemptLocked :: "gotime \<Rightarrow> gotime \<Rightarrow> coordinator \<Rightarrow> coordinator" where
  "finishInterruptedModelAttemptLocked now tm c =
     c\<lparr>co_attempts := update_last
         (\<lambda>a. if ma_Status a \<noteq> ModelAttemptStatusRunning \<and> \<not> ma_Retrying a then a
              else a\<lparr>ma_Status := ModelAttemptStatusInterrupted, ma_Retrying := False,
                     ma_RetryAfterMS := 0, ma_FinishedAt := Some (if tm = 0 then now else tm)\<rparr>)
         (co_attempts c)\<rparr>"

definition clearModelAttemptRetryingLocked :: "coordinator \<Rightarrow> coordinator" where
  "clearModelAttemptRetryingLocked c =
     c\<lparr>co_attempts := update_last (\<lambda>a. a\<lparr>ma_Retrying := False, ma_RetryAfterMS := 0\<rparr>) (co_attempts c)\<rparr>"

section \<open>Tool calls and executions\<close>

definition recordToolCallLocked :: "coordinator \<Rightarrow> turn_command \<Rightarrow> outcome" where
  "recordToolCallLocked c cmd =
     (case (co_step c, co_batch c) of
        (Some st, Some b) \<Rightarrow>
          let callID = trim_space (cmd_ToolCallID cmd) in
          if callID = [] then (c, Some (EExecution ErrToolCallIDRequired))
          else if callID \<in> set (batch_ToolCallIDs b) then
            (case exec_for_call c callID of
               Some e \<Rightarrow>
                 if ex_ToolName e \<noteq> cmd_ToolName cmd \<or> ex_Arguments e \<noteq> cmd_Arguments cmd
                 then (c, Some (EExecution (ErrDuplicateToolCall callID))) else (c, None)
             | None \<Rightarrow> (c, None))
          else if co_turn c = None then
            (c\<lparr>co_batch := Some (b\<lparr>batch_ToolCallIDs := batch_ToolCallIDs b @ [callID]\<rparr>)\<rparr>, Some PanicNilDeref)
          else
            let executionID = default_id (cmd_ToolExecutionID cmd) (callID @ ''-execution'');
                execution = \<lparr>ex_ID = executionID, ex_ToolBatchID = batch_ID b, ex_ToolCallID = callID,
                  ex_ToolName = cmd_ToolName cmd, ex_Arguments = cmd_Arguments cmd,
                  ex_Status = ToolExecutionStatusProposed, ex_Attempt = 0, ex_PolicyDecision = '''',
                  ex_ApprovalID = '''', ex_ResultRef = '''', ex_ErrorKind = '''', ex_StartedAt = 0,
                  ex_FinishedAt = None\<rparr>;
                c1 = modUsage (\<lambda>u. u\<lparr>tu_ToolCalls := tu_ToolCalls u + 1\<rparr>)
                       (c\<lparr>co_batch := Some (b\<lparr>batch_ToolCallIDs := batch_ToolCallIDs b @ [callID]\<rparr>)\<rparr>)
            in (c1\<lparr>co_executions := AList.update executionID execution (co_executions c1)\<rparr>, None)
      | _ \<Rightarrow> (c, Some (EExecution ErrToolCallRequiresBatch)))"

definition hasUnknownExecutionLocked :: "coordinator \<Rightarrow> bool" where
  "hasUnknownExecutionLocked c \<longleftrightarrow>
     list_ex (\<lambda>(k, e). ex_Status e = ToolExecutionStatusUnknown) (co_executions c)"

definition advanceToolExecutionLocked :: "coordinator \<Rightarrow> turn_command \<Rightarrow> outcome" where
  "advanceToolExecutionLocked c cmd =
     (if co_step c = None \<or> co_batch c = None then (c, Some (EExecution ErrExecutionRequiresBatch))
      else
        let executionID = trim_space (cmd_ToolExecutionID cmd);
            setExec = (\<lambda>e. c\<lparr>co_executions := AList.update executionID e (co_executions c)\<rparr>)
        in
        if executionID = [] then (c, Some (EExecution ErrExecutionIDRequired))
        else (case map_of (co_executions c) executionID of
          None \<Rightarrow> (c, Some (EExecution (ErrUnknownExecution executionID)))
        | Some e \<Rightarrow>
          (case cmd_Type cmd of
            CommandToolExecutionStarted \<Rightarrow>
              if ex_Status e = ToolExecutionStatusRunning then (c, None)
              else if ex_Status e \<noteq> ToolExecutionStatusProposed
                   then (c, Some (EExecution (ErrCannotStart (ex_ID e) (ex_Status e))))
              else (setExec (e\<lparr>ex_Attempt := (if ex_Attempt e + 1 = 0 then 1 else ex_Attempt e + 1),
                              ex_Status := ToolExecutionStatusRunning, ex_StartedAt := cmd_At cmd\<rparr>), None)
          | CommandToolExecutionRetrying \<Rightarrow>
              if ex_Status e \<noteq> ToolExecutionStatusRunning \<and> ex_Status e \<noteq> ToolExecutionStatusFailed
              then (c, Some (EExecution (ErrCannotRetry (ex_ID e) (ex_Status e))))
              else if co_turn c = None then (c, Some PanicNilDeref)
              else (modUsage (\<lambda>u. u\<lparr>tu_ToolRetries := tu_ToolRetries u + 1\<rparr>)
                      (setExec (e\<lparr>ex_Attempt := ex_Attempt e + 1, ex_Status := ToolExecutionStatusRunning,
                                 ex_ErrorKind := cmd_ErrorKind cmd, ex_StartedAt := cmd_At cmd\<rparr>)), None)
          | CommandToolExecutionCompleted \<Rightarrow>
              if ex_Status e = ToolExecutionStatusSucceeded then (c, None)
              else if ex_Status e \<noteq> ToolExecutionStatusRunning
                   then (c, Some (EExecution (ErrCannotComplete (ex_ID e) (ex_Status e))))
              else (setExec (e\<lparr>ex_Status := ToolExecutionStatusSucceeded,
                              ex_ResultRef := cmd_PayloadRef cmd, ex_FinishedAt := Some (cmd_At cmd)\<rparr>), None)
          | CommandToolExecutionFailed \<Rightarrow>
              let status = (if execution_terminal (cmd_ExecutionStatus cmd) then cmd_ExecutionStatus cmd
                            else ToolExecutionStatusFailed);
                  write = (c\<lparr>co_executions := AList.update executionID
                               (e\<lparr>ex_Status := status, ex_ErrorKind := cmd_ErrorKind cmd,
                                  ex_FinishedAt := Some (cmd_At cmd)\<rparr>) (co_executions c),
                             co_recoveryRequired :=
                               (if status = ToolExecutionStatusUnknown then True else co_recoveryRequired c)\<rparr>, None)
              in if status = ToolExecutionStatusUnknown then
                   (if ex_Status e = ToolExecutionStatusUnknown then (c, None)
                    else if execution_terminal (ex_Status e)
                         then (c, Some (EExecution (ErrCannotBecomeUnknown (ex_ID e) (ex_Status e))))
                    else write)
                 else if ex_Status e \<noteq> ToolExecutionStatusRunning \<and> ex_Status e \<noteq> ToolExecutionStatusProposed then
                   (if ex_Status e = status then (c, None)
                    else (c, Some (EExecution (ErrCannotFail (ex_ID e) (ex_Status e)))))
                 else write
          | CommandToolExecutionReconciled \<Rightarrow>
              if ex_Status e \<noteq> ToolExecutionStatusUnknown
              then (c, Some (EExecution (ErrNotUnknown (ex_ID e))))
              else if \<not> execution_terminal (cmd_ExecutionStatus cmd) \<or>
                      cmd_ExecutionStatus cmd = ToolExecutionStatusUnknown
                   then (c, Some (EExecution (ErrReconcileRequiresKnown (ex_ID e))))
              else
                let c1 = setExec (e\<lparr>ex_Status := cmd_ExecutionStatus cmd, ex_ErrorKind := cmd_ErrorKind cmd,
                                   ex_ResultRef := cmd_PayloadRef cmd, ex_FinishedAt := Some (cmd_At cmd)\<rparr>)
                in (c1\<lparr>co_recoveryRequired := hasUnknownExecutionLocked c1\<rparr>, None)
          | _ \<Rightarrow> (c, None))))"

definition recordExternalFactLocked :: "coordinator \<Rightarrow> turn_command \<Rightarrow> outcome" where
  "recordExternalFactLocked c cmd =
     (if co_turn c = None \<or> co_step c = None then (c, Some (EExecution ErrFactRequiresStep))
      else
        let factID = trim_space (cmd_ExternalFactID cmd) in
        if factID = [] then (c, Some (EExecution ErrFactIDRequired))
        else if factID \<in> set (co_externalFacts c) then (c, None)
        else (c\<lparr>co_externalFacts := add_key factID (co_externalFacts c)\<rparr>, None))"

section \<open>Interactions\<close>

definition interactionRequestedLocked :: "coordinator \<Rightarrow> turn_command \<Rightarrow> outcome" where
  "interactionRequestedLocked c cmd =
     (case (co_turn c, co_step c) of
        (Some t, Some st) \<Rightarrow>
          (case (if step_Status st = StepStatusWaitingInteraction then co_interaction c else None) of
             Some i \<Rightarrow>
               if cmd_InteractionID cmd \<noteq> [] \<and> cmd_InteractionID cmd \<noteq> pi_ID i
               then (c, Some (EHandler (ErrInteractionMismatch (cmd_InteractionID cmd) (pi_ID i))))
               else
                 let i1 = (if cmd_InteractionKind cmd \<noteq> [] then i\<lparr>pi_Kind := cmd_InteractionKind cmd\<rparr> else i);
                     i2 = (if cmd_Payload cmd \<noteq> [] then i1\<lparr>pi_Payload := cmd_Payload cmd\<rparr> else i1);
                     i3 = (if cmd_ToolExecutionID cmd \<noteq> []
                           then i2\<lparr>pi_ToolExecutionID := cmd_ToolExecutionID cmd\<rparr> else i2)
                 in (c\<lparr>co_interaction := Some i3\<rparr>, None)
           | None \<Rightarrow>
               andThen (advanceTurn c EventInteractionRequested (cmd_At cmd) (cmd_Reason cmd))
                 (\<lambda>c1. advanceStep
                    (c1\<lparr>co_interaction := Some
                       \<lparr>pi_ID = default_id (cmd_InteractionID cmd) (step_ID st @ ''-interaction''),
                        pi_TurnID = turn_ID t, pi_StepID = step_ID st,
                        pi_ToolExecutionID = cmd_ToolExecutionID cmd, pi_Kind = cmd_InteractionKind cmd,
                        pi_Status = InteractionStatusPending, pi_Payload = cmd_Payload cmd,
                        pi_Resolution = '''', pi_Revision = 1, pi_ExpiresAt = None\<rparr>\<rparr>)
                    EventInteractionRequested (cmd_At cmd) (cmd_Reason cmd)))
      | _ \<Rightarrow> (c, Some (EHandler ErrInteractionRequestRequiresStep)))"

definition interactionResolvedLocked :: "coordinator \<Rightarrow> turn_command \<Rightarrow> outcome" where
  "interactionResolvedLocked c cmd =
     (if co_turn c = None \<or> co_step c = None then (c, Some (EHandler ErrInteractionResolutionRequiresStep))
      else andThen (advanceTurn c EventInteractionResolved (cmd_At cmd) (cmd_Reason cmd))
        (\<lambda>c1. andThen
           (case co_interaction c1 of None \<Rightarrow> (c1, None)
            | Some i \<Rightarrow>
                if cmd_InteractionID cmd \<noteq> [] \<and> cmd_InteractionID cmd \<noteq> pi_ID i
                then (c1, Some (EHandler (ErrInteractionMismatch (cmd_InteractionID cmd) (pi_ID i))))
                else if cmd_InteractionRevision cmd \<noteq> 0 \<and> cmd_InteractionRevision cmd \<noteq> pi_Revision i
                then (c1, Some (EHandler
                        (ErrInteractionRevisionMismatch (cmd_InteractionRevision cmd) (pi_Revision i))))
                else (c1\<lparr>co_interaction := Some (i\<lparr>pi_Status := InteractionStatusResolved,
                            pi_Resolution := cmd_Payload cmd, pi_Revision := pi_Revision i + 1\<rparr>)\<rparr>, None))
           (\<lambda>c2. advanceStep c2 EventInteractionResolved (cmd_At cmd) (cmd_Reason cmd))))"

section \<open>Generic Step and Turn commands\<close>

definition advanceStepLocked :: "gotime \<Rightarrow> event_type \<Rightarrow> coordinator \<Rightarrow> turn_command \<Rightarrow> outcome" where
  "advanceStepLocked now event c cmd =
     (case co_step c of None \<Rightarrow> (c, Some (EHandler ErrStepCommandRequiresStep))
      | Some st \<Rightarrow>
        if event = EventToolBatchCreated \<and> co_batch c \<noteq> None then (c, None)
        else
          let batchID = default_id (cmd_ToolBatchID cmd) (step_ID st @ ''-batch'');
              c1 = (if event = EventToolBatchCreated
                    then c\<lparr>co_batch := Some \<lparr>batch_ID = batchID, batch_StepID = step_ID st,
                              batch_ParallelAllowed = False, batch_Status = ''created'',
                              batch_ToolCallIDs = []\<rparr>,
                           co_step := Some (st\<lparr>step_ToolBatchID := batchID\<rparr>)\<rparr>
                    else c);
              unsettled = find (\<lambda>e. \<not> execution_terminal (ex_Status e) \<or>
                                    ex_Status e = ToolExecutionStatusUnknown)
                            (map snd (co_executions c1))
          in case (if event = EventToolBatchSettled \<and> co_batch c1 \<noteq> None then unsettled else None) of
               Some e \<Rightarrow>
                 (c1, Some (EExecution (if \<not> execution_terminal (ex_Status e) then ErrBatchUnfinished (ex_ID e)
                                        else ErrBatchUnreconciled (ex_ID e))))
             | None \<Rightarrow>
               let c2 = (if event = EventToolBatchSettled
                         then c1\<lparr>co_batch := map_option (\<lambda>b. b\<lparr>batch_Status := ''settled''\<rparr>) (co_batch c1)\<rparr>
                         else c1)
               in if event = EventStepCompleted \<and>
                     (case co_batch c2 of None \<Rightarrow> False | Some b \<Rightarrow> batch_Status b \<noteq> ''settled'')
                  then (c2, Some (EExecution ErrStepBeforeBatchSettled))
                  else
                    let c3 = (if event \<in> {EventStepInterrupted, EventStepCancelled}
                              then finishInterruptedModelAttemptLocked now (cmd_At cmd) c2
                              else if event = EventStepFailed then clearModelAttemptRetryingLocked c2
                              else c2)
                    in advanceStep c3 event (cmd_At cmd) (cmd_Reason cmd))"

definition advanceTurnLocked :: "gotime \<Rightarrow> event_type \<Rightarrow> coordinator \<Rightarrow> turn_command \<Rightarrow> outcome" where
  "advanceTurnLocked now event c cmd =
     (if co_turn c = None then (c, Some (EHandler ErrTurnCommandRequiresTurn))
      else
        let c1 = (if event \<in> {EventTurnInterrupted, EventTurnCancelled}
                  then finishInterruptedModelAttemptLocked now (cmd_At cmd) c
                  else if event \<in> {EventTurnBudgetExhausted, EventTurnFailed}
                  then clearModelAttemptRetryingLocked c else c)
        in advanceTurn c1 event (cmd_At cmd) (cmd_Reason cmd))"

definition contextCompactedLocked :: "coordinator \<Rightarrow> turn_command \<Rightarrow> outcome" where
  "contextCompactedLocked c cmd =
     (if co_turn c = None \<or> co_step c = None then (c, Some (EHandler ErrCompactionRequiresStep))
      else advanceStep c EventContextCompacted (cmd_At cmd) '''')"

definition cancelActiveWorkLocked :: "gotime \<Rightarrow> coordinator \<Rightarrow> turn_command \<Rightarrow> coordinator" where
  "cancelActiveWorkLocked now c cmd =
     (let finished = (if cmd_At cmd = 0 then now else cmd_At cmd);
          c1 = finishInterruptedModelAttemptLocked now finished c;
          c2 = (case co_step c1 of None \<Rightarrow> c1
                | Some st \<Rightarrow>
                    if \<not> step_terminal (step_Status st) \<and>
                       NextStepStatus (step_Status st) EventStepCancelled = (StepStatusCancelled, True)
                    then fst (advanceStep c1 EventStepCancelled finished ''cancelled_by_user'') else c1);
          c3 = c2\<lparr>co_executions := map_values
                 (\<lambda>e. if execution_terminal (ex_Status e) then e
                      else e\<lparr>ex_Status := ToolExecutionStatusCancelled,
                             ex_ErrorKind := ''cancelled_by_turn'', ex_FinishedAt := Some finished\<rparr>)
                 (co_executions c2)\<rparr>;
          c4 = c3\<lparr>co_batch := map_option
                 (\<lambda>b. if batch_Status b \<noteq> ''settled'' then b\<lparr>batch_Status := ''cancelled''\<rparr> else b)
                 (co_batch c3)\<rparr>
      in c4\<lparr>co_interaction := map_option
              (\<lambda>i. if pi_Status i = InteractionStatusPending
                   then i\<lparr>pi_Status := InteractionStatusCancelled, pi_Revision := pi_Revision i + 1\<rparr>
                   else i) (co_interaction c4)\<rparr>)"

definition toolResultRecordedLocked :: "gotime \<Rightarrow> coordinator \<Rightarrow> turn_command \<Rightarrow> outcome" where
  "toolResultRecordedLocked now c cmd =
     (let callID = trim_space (cmd_ToolCallID cmd);
          executionID = trim_space (cmd_ToolExecutionID cmd)
      in if callID \<noteq> [] \<and> flag_set (co_toolResults c) callID then (c, None)
         else if executionID = [] then (c, Some (EExecution ErrResultRequiresExecution))
         else (case map_of (co_executions c) executionID of
             None \<Rightarrow> (c, Some (EExecution (ErrUnknownExecution executionID)))
           | Some e \<Rightarrow>
               if \<not> execution_terminal (ex_Status e) \<or> ex_Status e = ToolExecutionStatusUnknown
               then (c, Some (EExecution (ErrResultRequiresTerminal executionID)))
               else andThen (advanceStepLocked now EventToolResultRecorded c cmd)
                 (\<lambda>c1. if callID = [] then (c1, None)
                       else (case co_toolResults c1 of
                            None \<Rightarrow> (c1, Some PanicNilMapWrite)
                          | Some ks \<Rightarrow> (c1\<lparr>co_toolResults := Some (add_key callID ks)\<rparr>, None)))))"

section \<open>Applying a command\<close>

definition applyCommandLocked :: "gotime \<Rightarrow> coordinator \<Rightarrow> turn_command \<Rightarrow> outcome" where
  "applyCommandLocked now c cmd =
     (case cmd_Type cmd of
        CommandStartTurn \<Rightarrow> startTurnLocked c cmd
      | CommandStartStep \<Rightarrow> startStepLocked c cmd
      | CommandTurnSnapshotCreated \<Rightarrow> snapshotCreatedLocked c cmd
      | CommandModelContextChanged \<Rightarrow> contextChangedLocked c cmd
      | CommandModelRequestStarted \<Rightarrow> startModelAttemptLocked c cmd
      | CommandModelResponseCompleted \<Rightarrow> completeModelAttemptLocked c cmd
      | CommandAssistantReceived \<Rightarrow> recordAssistantLocked c cmd
      | CommandModelRequestFailed \<Rightarrow>
          finishModelAttemptLocked EventModelRequestFailed ModelAttemptStatusFailed c cmd
      | CommandModelRequestRetrying \<Rightarrow> retryModelAttemptLocked c cmd
      | CommandModelUsageRecorded \<Rightarrow> recordModelUsageLocked c cmd
      | CommandToolBatchCreated \<Rightarrow> advanceStepLocked now EventToolBatchCreated c cmd
      | CommandToolBatchSettled \<Rightarrow> advanceStepLocked now EventToolBatchSettled c cmd
      | CommandToolCallRecorded \<Rightarrow> recordToolCallLocked c cmd
      | CommandToolExecutionStarted \<Rightarrow> advanceToolExecutionLocked c cmd
      | CommandToolExecutionRetrying \<Rightarrow> advanceToolExecutionLocked c cmd
      | CommandToolExecutionCompleted \<Rightarrow> advanceToolExecutionLocked c cmd
      | CommandToolExecutionFailed \<Rightarrow> advanceToolExecutionLocked c cmd
      | CommandToolExecutionReconciled \<Rightarrow> advanceToolExecutionLocked c cmd
      | CommandExternalFactRecorded \<Rightarrow> recordExternalFactLocked c cmd
      | CommandToolResultRecorded \<Rightarrow> toolResultRecordedLocked now c cmd
      | CommandInteractionRequested \<Rightarrow> interactionRequestedLocked c cmd
      | CommandInteractionResolved \<Rightarrow> interactionResolvedLocked c cmd
      | CommandCompleteStep \<Rightarrow> advanceStepLocked now EventStepCompleted c cmd
      | CommandFailStep \<Rightarrow> advanceStepLocked now EventStepFailed c cmd
      | CommandInterruptStep \<Rightarrow> advanceStepLocked now EventStepInterrupted c cmd
      | CommandCancelStep \<Rightarrow> advanceStepLocked now EventStepCancelled c cmd
      | CommandCompleteTurn \<Rightarrow> advanceTurnLocked now EventTurnCompleted c cmd
      | CommandFailTurn \<Rightarrow> advanceTurnLocked now EventTurnFailed c cmd
      | CommandInterruptTurn \<Rightarrow> advanceTurnLocked now EventTurnInterrupted c cmd
      | CommandCancelTurn \<Rightarrow> advanceTurnLocked now EventTurnCancelled (cancelActiveWorkLocked now c cmd) cmd
      | CommandBudgetExhausted \<Rightarrow> advanceTurnLocked now EventTurnBudgetExhausted c cmd
      | CommandContextCompacted \<Rightarrow> contextCompactedLocked c cmd
      | Command_Other s \<Rightarrow> (c, Some (ECommand (ErrUnknownCommand (Command_Other s)))))"

definition commandRequiresStep :: "command_type \<Rightarrow> bool" where
  "commandRequiresStep ct =
     (if ct \<in> {CommandStartStep, CommandTurnSnapshotCreated, CommandCompleteTurn, CommandFailTurn,
               CommandInterruptTurn, CommandCancelTurn, CommandBudgetExhausted} then False
      else ct \<noteq> CommandStartTurn)"

definition validateCommandLocked :: "coordinator \<Rightarrow> turn_command \<Rightarrow> command_error option" where
  "validateCommandLocked c cmd =
     (if trim_space (co_sessionID c) = [] then Some ErrCoordinatorSessionRequired
      else if trim_space (cmd_SessionID cmd) = [] then Some ErrCommandSessionRequired
      else if cmd_SessionID cmd \<noteq> co_sessionID c
           then Some (ErrCommandSessionMismatch (cmd_SessionID cmd) (co_sessionID c))
      else case (case (if cmd_Type cmd = CommandStartTurn then None else co_turn c) of
             Some t \<Rightarrow>
               if trim_space (cmd_TurnID cmd) = [] then Some ErrCommandTurnIDRequired
               else if cmd_TurnID cmd \<noteq> turn_ID t
                    then Some (ErrCommandTurnMismatch (cmd_TurnID cmd) (turn_ID t))
               else if cmd_Generation cmd \<noteq> 0 \<and> cmd_Generation cmd \<noteq> co_generation c
                    then Some (ErrCommandGenerationMismatch (cmd_Generation cmd) (co_generation c))
               else None
           | None \<Rightarrow> None) of
        Some e \<Rightarrow> Some e
      | None \<Rightarrow>
          if cmd_Type cmd \<noteq> CommandStartTurn \<and> co_turn c = None
          then Some (ErrRequiresActiveTurn (cmd_Type cmd))
          else if commandRequiresStep (cmd_Type cmd) then
            (case co_step c of None \<Rightarrow> Some (ErrRequiresActiveStep (cmd_Type cmd))
             | Some st \<Rightarrow>
                 if trim_space (cmd_StepID cmd) = [] then Some ErrCommandStepIDRequired
                 else if cmd_StepID cmd \<noteq> step_ID st
                      then Some (ErrCommandStepMismatch (cmd_StepID cmd) (step_ID st))
                 else None)
          else None)"

section \<open>Snapshots\<close>

record tool_execution_view =
  tev_ID :: string
  tev_ToolCallID :: string
  tev_ToolName :: string
  tev_Status :: tool_execution_status
  tev_Attempt :: int

record tool_call_projection =
  tcp_ID :: string
  tcp_ToolName :: string
  tcp_Arguments :: json_raw

text \<open>The empty status strings of a snapshot without Turn, Step or attempt are \<open>None\<close>.\<close>

record coordinator_snapshot =
  snap_SessionID :: string
  snap_Source :: turn_source
  snap_TurnID :: string
  snap_StepID :: string
  snap_Generation :: u64
  snap_TurnStatus :: "turn_status option"
  snap_TurnFinishedAt :: "gotime option"
  snap_TurnEndReason :: string
  snap_StepStatus :: "step_status option"
  snap_StepEndReason :: string
  snap_StepIndex :: int
  snap_ContextEpoch :: int
  snap_ToolBatchID :: string
  snap_FinalSummary :: bool
  snap_InteractionID :: string
  snap_InteractionKind :: string
  snap_InteractionPayload :: json_raw
  snap_ModelAttempt :: int
  snap_ModelAttemptStatus :: "model_attempt_status option"
  snap_ModelMaxAttempts :: int
  snap_ModelRetryAfterMS :: int
  snap_ModelErrorKind :: string
  snap_ModelRetryable :: bool
  snap_ModelUsageKnown :: bool
  snap_RuntimeRevision :: int
  snap_RuntimeDigest :: string
  snap_PromptDigest :: string
  snap_ToolDigest :: string
  snap_AssistantMsgID :: string
  snap_ContextSnapshot :: "model_context_snapshot option"
  snap_RecoveryRequired :: bool
  snap_ExternalFacts :: int
  snap_ToolExecutions :: "tool_execution_view list"
  snap_ActiveToolCalls :: "tool_call_projection list"
  snap_Budget :: turn_budget
  snap_Usage :: turn_usage
  snap_HasActiveTurn :: bool

definition execution_view :: "tool_execution \<Rightarrow> tool_execution_view" where
  "execution_view e = \<lparr>tev_ID = ex_ID e, tev_ToolCallID = ex_ToolCallID e, tev_ToolName = ex_ToolName e,
     tev_Status = ex_Status e, tev_Attempt = ex_Attempt e\<rparr>"

definition call_projection :: "tool_execution \<Rightarrow> tool_call_projection" where
  "call_projection e = \<lparr>tcp_ID = ex_ToolCallID e, tcp_ToolName = ex_ToolName e, tcp_Arguments = ex_Arguments e\<rparr>"

definition project_calls :: "coordinator \<Rightarrow> tool_batch \<Rightarrow> tool_call_projection list" where
  "project_calls c b =
     List.map_filter (\<lambda>callID. map_option call_projection (exec_for_call c callID)) (batch_ToolCallIDs b)"

definition snapshotLocked :: "coordinator \<Rightarrow> coordinator_snapshot" where
  "snapshotLocked c =
     (let turnActive = (case co_turn c of None \<Rightarrow> False | Some t \<Rightarrow> \<not> turn_terminal (turn_Status t));
          
          ctx = Option.bind (co_turn c) turn_ContextSnapshot;
          batchVisible = (case (co_turn c, co_batch c) of
              (Some t, Some b) \<Rightarrow> batch_ToolCallIDs b \<noteq> [] \<and>
                 (turn_terminal (turn_Status t) \<or>
                  (case co_step c of None \<Rightarrow> False | Some st \<Rightarrow> \<not> step_terminal (step_Status st)))
            | _ \<Rightarrow> False);
          executing = (case co_step c of None \<Rightarrow> False | Some st \<Rightarrow> step_Status st = StepStatusExecutingTools)
      in \<lparr>snap_SessionID = co_sessionID c,
          snap_Source = (case co_turn c of None \<Rightarrow> '''' | Some t \<Rightarrow> turn_Source t),
          snap_TurnID = (case co_turn c of None \<Rightarrow> '''' | Some t \<Rightarrow> turn_ID t),
          snap_StepID = (case co_step c of None \<Rightarrow> '''' | Some st \<Rightarrow> step_ID st),
          snap_Generation = co_generation c,
          snap_TurnStatus = map_option turn_Status (co_turn c),
          snap_TurnFinishedAt = Option.bind (co_turn c) turn_FinishedAt,
          snap_TurnEndReason = (case co_turn c of None \<Rightarrow> '''' | Some t \<Rightarrow> turn_EndReason t),
          snap_StepStatus = map_option step_Status (co_step c),
          snap_StepEndReason = (case co_step c of None \<Rightarrow> '''' | Some st \<Rightarrow> step_EndReason st),
          snap_StepIndex = (case co_turn c of None \<Rightarrow> 0 | Some t \<Rightarrow> turn_StepIndex t),
          snap_ContextEpoch = (case co_turn c of None \<Rightarrow> 0 | Some t \<Rightarrow> turn_ContextEpoch t),
          snap_ToolBatchID = (case co_step c of None \<Rightarrow> '''' | Some st \<Rightarrow> step_ToolBatchID st),
          snap_FinalSummary = (case co_step c of None \<Rightarrow> False | Some st \<Rightarrow> step_FinalSummary st),
          snap_InteractionID = (case co_interaction c of None \<Rightarrow> '''' | Some i \<Rightarrow> pi_ID i),
          snap_InteractionKind = (case co_interaction c of None \<Rightarrow> '''' | Some i \<Rightarrow> pi_Kind i),
          snap_InteractionPayload = (case co_interaction c of None \<Rightarrow> '''' | Some i \<Rightarrow> pi_Payload i),
          snap_ModelAttempt = (if co_attempts c = [] then 0 else ma_Attempt (last (co_attempts c))),
          snap_ModelAttemptStatus =
            (if co_attempts c = [] then None
             else if ma_Retrying (last (co_attempts c)) then Some ModelAttemptStatusRetrying
             else Some (ma_Status (last (co_attempts c)))),
          snap_ModelMaxAttempts = (if co_attempts c = [] then 0 else ma_MaxAttempts (last (co_attempts c))),
          snap_ModelRetryAfterMS = (if co_attempts c = [] then 0 else ma_RetryAfterMS (last (co_attempts c))),
          snap_ModelErrorKind = (if co_attempts c = [] then '''' else ma_ErrorKind (last (co_attempts c))),
          snap_ModelRetryable = (if co_attempts c = [] then False else ma_Retryable (last (co_attempts c))),
          snap_ModelUsageKnown =
            (if co_attempts c = [] then False
             else case co_turn c of None \<Rightarrow> False
                  | Some t \<Rightarrow> \<not> turn_ModelUsageMissing t \<and> \<not> turn_ModelUsagePending t),
          snap_RuntimeRevision = (case co_turn c of None \<Rightarrow> 0 | Some t \<Rightarrow> turn_RuntimeRevision t),
          snap_RuntimeDigest = (case ctx of None \<Rightarrow> '''' | Some s \<Rightarrow> mcs_RuntimeDigest s),
          snap_PromptDigest = (case ctx of None \<Rightarrow> '''' | Some s \<Rightarrow> mcs_PromptDigest s),
          snap_ToolDigest = (case ctx of None \<Rightarrow> '''' | Some s \<Rightarrow> mcs_ToolDigest s),
          snap_AssistantMsgID = (case co_step c of None \<Rightarrow> '''' | Some st \<Rightarrow> step_AssistantMsgID st),
          snap_ContextSnapshot = ctx,
          snap_RecoveryRequired =
            ((co_turn c \<noteq> None \<and> co_recoveryRequired c) \<or>
             (executing \<and> (co_recoveryRequired c \<or>
                list_ex (\<lambda>(k, e). \<not> execution_terminal (ex_Status e)) (co_executions c)))),
          snap_ExternalFacts =
            (if co_turn c = None then 0
             else int (length (filter (\<lambda>f. trim_space f \<noteq> []) (co_externalFacts c)))),
          snap_ToolExecutions = sort_key tev_ID (map (execution_view \<circ> snd) (co_executions c)),
          snap_ActiveToolCalls =
            (if batchVisible then (case co_batch c of None \<Rightarrow> [] | Some b \<Rightarrow> project_calls c b) else []),
          snap_Budget = (case co_turn c of None \<Rightarrow> zero_budget | Some t \<Rightarrow> turn_Budget t),
          snap_Usage = (case co_turn c of None \<Rightarrow> zero_turn_usage | Some t \<Rightarrow> turn_Usage t),
          snap_HasActiveTurn = turnActive\<rparr>)"

text \<open>
  \<open>snapshotLocked\<close> reads the Turn through the pointer whenever there is an attempt; it panics
  exactly when this predicate fails.
\<close>

definition snapshot_defined :: "coordinator \<Rightarrow> bool" where
  "snapshot_defined c \<longleftrightarrow> co_attempts c = [] \<or> co_turn c \<noteq> None"

section \<open>Checkpoints and dispatch\<close>

record coordinator_checkpoint =
  cp_generation :: u64
  cp_turn :: "turn option"
  cp_step :: "step option"
  cp_batch :: "tool_batch option"
  cp_executions :: "(string, tool_execution) gomap"
  cp_toolResults :: "string list"
  cp_externalFacts :: "string list"
  cp_appliedCommands :: "string list"
  cp_interaction :: "pending_interaction option"
  cp_attempts :: "model_attempt list"
  cp_recoveryRequired :: bool

text \<open>\<^verbatim>\<open>cloneStringSet\<close> turns a nil map into an empty one.\<close>

definition cloneStringSet :: "string list option \<Rightarrow> string list" where
  "cloneStringSet m = (case m of None \<Rightarrow> [] | Some ks \<Rightarrow> ks)"

definition checkpointLocked :: "coordinator \<Rightarrow> coordinator_checkpoint" where
  "checkpointLocked c =
     \<lparr>cp_generation = co_generation c, cp_turn = co_turn c, cp_step = co_step c,
      cp_batch = co_batch c, cp_executions = co_executions c,
      cp_toolResults = cloneStringSet (co_toolResults c), cp_externalFacts = co_externalFacts c,
      cp_appliedCommands = cloneStringSet (co_appliedCommands c), cp_interaction = co_interaction c,
      cp_attempts = co_attempts c, cp_recoveryRequired = co_recoveryRequired c\<rparr>"

definition restoreCheckpointLocked :: "coordinator \<Rightarrow> coordinator_checkpoint \<Rightarrow> coordinator" where
  "restoreCheckpointLocked c k =
     c\<lparr>co_generation := cp_generation k, co_turn := cp_turn k, co_step := cp_step k,
       co_batch := cp_batch k, co_executions := cp_executions k,
       co_toolResults := Some (cp_toolResults k), co_externalFacts := cp_externalFacts k,
       co_appliedCommands := Some (cp_appliedCommands k), co_interaction := cp_interaction k,
       co_attempts := cp_attempts k, co_recoveryRequired := cp_recoveryRequired k\<rparr>"

definition dispatchLocked ::
  "gotime \<Rightarrow> coordinator \<Rightarrow> turn_command \<Rightarrow> coordinator \<times> coordinator_snapshot \<times> turn_error option" where
  "dispatchLocked now c cmd =
     (if trim_space (cmd_CommandID cmd) \<noteq> [] \<and>
         flag_set (co_appliedCommands c) (trim_space (cmd_CommandID cmd))
      then (c, snapshotLocked c, None)
      else case validateCommandLocked c cmd of
        Some e \<Rightarrow> (c, snapshotLocked c, Some (ECommand e))
      | None \<Rightarrow>
         (let cmd1 = (if cmd_At cmd = 0 then cmd\<lparr>cmd_At := now\<rparr> else cmd)
          in case applyCommandLocked now c cmd1 of
               (c1, Some e) \<Rightarrow>
                 (let c2 = restoreCheckpointLocked c1 (checkpointLocked c)
                  in (c2, snapshotLocked c2, Some e))
             | (c1, None) \<Rightarrow>
                 (let c2 = (if trim_space (cmd_CommandID cmd) \<noteq> []
                            then c1\<lparr>co_appliedCommands := Some
                                   (add_key (cmd_CommandID cmd) (cloneStringSet (co_appliedCommands c1)))\<rparr>
                            else c1)
                  in (c2, snapshotLocked c2, None))))"

datatype 'e durable_error = DispatchError turn_error | PersistError 'e

text \<open>
  The callback \<^verbatim>\<open>persist\<close> reads and writes the store: it is a function of the store's state.
\<close>

definition DispatchDurable ::
  "gotime \<Rightarrow> coordinator \<Rightarrow> turn_command \<Rightarrow>
   (turn_command \<Rightarrow> coordinator_snapshot \<Rightarrow> 'w \<Rightarrow> 'e option \<times> 'w) option \<Rightarrow> 'w \<Rightarrow>
   coordinator \<times> coordinator_snapshot \<times> 'e durable_error option \<times> 'w" where
  "DispatchDurable now c cmd persist w =
     (let k = checkpointLocked c
      in case dispatchLocked now c cmd of
           (c1, snap, Some e) \<Rightarrow> (c1, snap, Some (DispatchError e), w)
         | (c1, snap, None) \<Rightarrow>
            (case persist of None \<Rightarrow> (c1, snap, None, w)
             | Some p \<Rightarrow>
                (case p cmd snap w of
                   (Some e, w') \<Rightarrow>
                     (let c2 = restoreCheckpointLocked c1 k
                      in (c2, snapshotLocked c2, Some (PersistError e), w'))
                 | (None, w') \<Rightarrow> (c1, snap, None, w'))))"

section \<open>Replay\<close>

definition replay_type :: "event_type \<Rightarrow> command_type option" where
  "replay_type e =
     (case e of
        EventTurnStarted \<Rightarrow> Some CommandStartTurn
      | EventStepStarted \<Rightarrow> Some CommandStartStep
      | EventTurnSnapshotCreated \<Rightarrow> Some CommandTurnSnapshotCreated
      | EventModelContextChanged \<Rightarrow> Some CommandModelContextChanged
      | EventModelRequestStarted \<Rightarrow> Some CommandModelRequestStarted
      | EventModelRequestCompleted \<Rightarrow> Some CommandModelResponseCompleted
      | EventModelRequestFailed \<Rightarrow> Some CommandModelRequestFailed
      | EventModelRequestRetrying \<Rightarrow> Some CommandModelRequestRetrying
      | EventModelUsageRecorded \<Rightarrow> Some CommandModelUsageRecorded
      | EventAssistantMessageRecorded \<Rightarrow> Some CommandAssistantReceived
      | EventToolBatchCreated \<Rightarrow> Some CommandToolBatchCreated
      | EventToolBatchSettled \<Rightarrow> Some CommandToolBatchSettled
      | EventToolCallRecorded \<Rightarrow> Some CommandToolCallRecorded
      | EventToolExecutionStarted \<Rightarrow> Some CommandToolExecutionStarted
      | EventToolExecutionRetrying \<Rightarrow> Some CommandToolExecutionRetrying
      | EventToolExecutionCompleted \<Rightarrow> Some CommandToolExecutionCompleted
      | EventToolExecutionFailed \<Rightarrow> Some CommandToolExecutionFailed
      | EventToolExecutionReconciled \<Rightarrow> Some CommandToolExecutionReconciled
      | EventToolResultRecorded \<Rightarrow> Some CommandToolResultRecorded
      | EventExternalFactRecorded \<Rightarrow> Some CommandExternalFactRecorded
      | EventInteractionRequested \<Rightarrow> Some CommandInteractionRequested
      | EventInteractionResolved \<Rightarrow> Some CommandInteractionResolved
      | EventContextCompacted \<Rightarrow> Some CommandContextCompacted
      | EventStepCompleted \<Rightarrow> Some CommandCompleteStep
      | EventStepFailed \<Rightarrow> Some CommandFailStep
      | EventStepInterrupted \<Rightarrow> Some CommandInterruptStep
      | EventStepCancelled \<Rightarrow> Some CommandCancelStep
      | EventTurnCompleted \<Rightarrow> Some CommandCompleteTurn
      | EventTurnFailed \<Rightarrow> Some CommandFailTurn
      | EventTurnInterrupted \<Rightarrow> Some CommandInterruptTurn
      | EventTurnCancelled \<Rightarrow> Some CommandCancelTurn
      | EventTurnBudgetExhausted \<Rightarrow> Some CommandBudgetExhausted
      | _ \<Rightarrow> None)"

text \<open>
  \<open>json_valid\<close> is \<^verbatim>\<open>json.Valid\<close> on the stored arguments text. \<open>Inr None\<close> is an event
  with no command, which replay skips.
\<close>

definition replayCommand ::
  "(string \<Rightarrow> bool) \<Rightarrow> turn_event \<Rightarrow> turn_error + turn_command option" where
  "replayCommand json_valid event =
     (case (case te_Payload event of NoPayload \<Rightarrow> Some zero_payload
            | Decoded m \<Rightarrow> Some m | _ \<Rightarrow> None) of
        None \<Rightarrow> Inl (EEnvelope ErrPayloadDecode)
      | Some m \<Rightarrow>
         (case replay_type (te_EventType event) of None \<Rightarrow> Inr None
          | Some ct \<Rightarrow> Inr (Some
             \<lparr>cmd_Type = ct, cmd_CommandID = te_CommandID event, cmd_SessionID = te_SessionID event,
              cmd_TurnID = te_TurnID event, cmd_StepID = te_StepID event,
              cmd_Generation = pl_generation m, cmd_Source = te_Source event,
              cmd_At = te_CreatedAt event, cmd_Reason = pl_reason m,
              cmd_HasTools = (te_EventType event = EventAssistantMessageRecorded \<and> pl_has_tools m),
              cmd_ToolBatchID = pl_tool_batch_id m, cmd_FinalSummary = pl_final_summary m,
              cmd_ToolCallID = te_ToolCallID event, cmd_ToolExecutionID = te_ToolExecutionID event,
              cmd_ExternalFactID = pl_external_fact_id m, cmd_ExternalFactKind = pl_external_fact_kind m,
              cmd_ToolName = pl_tool_name m,
              cmd_Arguments = (if json_valid (pl_arguments_json m) then pl_arguments_json m else ''''),
              cmd_InteractionID = te_InteractionID event, cmd_InteractionKind = pl_interaction_kind m,
              cmd_InteractionRevision = pl_interaction_revision m,
              cmd_RequestDigest = pl_request_digest m, cmd_AssistantMessageID = pl_assistant_message_id m,
              cmd_AssistantMessage = None, cmd_RuntimeRevision = pl_runtime_revision m,
              cmd_RuntimeDigest = pl_runtime_digest m, cmd_PromptDigest = pl_prompt_digest m,
              cmd_ToolDigest = pl_tool_digest m, cmd_ContextSnapshot = pl_context_snapshot m,
              cmd_ContextBeforeDigest = pl_context_before_digest m,
              cmd_ContextAfterDigest = pl_context_after_digest m,
              cmd_CompactedMessageFrom = pl_compacted_message_from m,
              cmd_CompactedMessageTo = pl_compacted_message_to m, cmd_Budget = pl_budget m,
              cmd_ErrorKind = pl_error_kind m, cmd_MaxAttempts = pl_max_attempts m,
              cmd_RetryAfterMS = pl_retry_after_ms m, cmd_Retryable = pl_retryable m,
              cmd_Payload = pl_interaction_payload m, cmd_PayloadRef = te_PayloadRef event,
              cmd_ResultContent = pl_result_content m, cmd_ExecutionStatus = pl_execution_status m,
              cmd_Usage = pl_usage m\<rparr>)))"

text \<open>The state from which the log is replayed, and the replay loop.\<close>

definition resetForRestore :: "coordinator \<Rightarrow> coordinator" where
  "resetForRestore c =
     c\<lparr>co_turn := None, co_step := None, co_batch := None, co_interaction := None, co_attempts := [],
       co_generation := 0, co_recoveryRequired := False, co_executions := [],
       co_toolResults := Some [], co_externalFacts := [], co_appliedCommands := Some []\<rparr>"

fun replayEvents ::
  "gotime \<Rightarrow> (string \<Rightarrow> bool) \<Rightarrow> u64 \<Rightarrow> coordinator \<Rightarrow> turn_event list \<Rightarrow> outcome" where
  "replayEvents now json_valid prev c [] = (c, None)"
| "replayEvents now json_valid prev c (event # events) =
     (if te_SessionID event \<noteq> co_sessionID c
      then (c, Some (EEnvelope (ErrEventSessionMismatch (te_SessionID event) (co_sessionID c))))
      else if prev \<noteq> 0 \<and> te_SessionSeq event \<noteq> prev + 1
      then (c, Some (EEnvelope (ErrRestoreSeqGap prev (te_SessionSeq event))))
      else case replayCommand json_valid event of
        Inl e \<Rightarrow> (c, Some e)
      | Inr None \<Rightarrow> replayEvents now json_valid (te_SessionSeq event) c events
      | Inr (Some cmd) \<Rightarrow>
         (case validateCommandLocked c cmd of
            Some e \<Rightarrow> (c, Some (EReplay (te_EventType event) (ECommand e)))
          | None \<Rightarrow>
             (case applyCommandLocked now c cmd of
                (c1, Some e) \<Rightarrow> (c1, Some (EReplay (te_EventType event) e))
              | (c1, None) \<Rightarrow>
                  replayEvents now json_valid (te_SessionSeq event)
                    (if te_CommandID event \<noteq> []
                     then c1\<lparr>co_appliedCommands := Some
                            (add_key (te_CommandID event) (cloneStringSet (co_appliedCommands c1)))\<rparr>
                     else c1) events)))"

definition Restore ::
  "gotime \<Rightarrow> (string \<Rightarrow> bool) \<Rightarrow> coordinator \<Rightarrow> turn_event list \<Rightarrow> outcome" where
  "Restore now json_valid c events =
     (case replayEvents now json_valid 0 (resetForRestore c) events of
        (c1, None) \<Rightarrow> (c1, None)
      | (c1, Some e) \<Rightarrow> (restoreCheckpointLocked c1 (checkpointLocked c), Some e))"

section \<open>Budget preflight\<close>

record budget_decision =
  bd_Allowed :: bool
  bd_Reason :: string
  bd_Usage :: turn_usage
  bd_Budget :: turn_budget

definition budget_refusal :: "gotime \<Rightarrow> turn \<Rightarrow> turn_command \<Rightarrow> string option" where
  "budget_refusal now t cmd =
     (let b = turn_Budget t; u = turn_Usage t in
      if MaxWallTime b > 0 \<and> turn_StartedAt t \<noteq> 0 \<and> now - turn_StartedAt t \<ge> MaxWallTime b
      then Some ''max_wall_time''
      else if MaxInputTokens b > 0 \<and> tu_InputTokens u \<ge> MaxInputTokens b then Some ''max_input_tokens''
      else if MaxOutputTokens b > 0 \<and> tu_OutputTokens u \<ge> MaxOutputTokens b then Some ''max_output_tokens''
      else if MaxTotalTokens b > 0 \<and> tu_TotalTokens u \<ge> MaxTotalTokens b then Some ''max_total_tokens''
      else if MaxCost b > 0 \<and> tu_Cost u \<ge> MaxCost b then Some ''max_cost''
      else (case cmd_Type cmd of
          CommandStartStep \<Rightarrow>
            if cmd_FinalSummary cmd then
              (if \<not> ReserveFinalSummary b \<or> tu_SummarySteps u \<ge> 1 then Some ''max_summary_steps'' else None)
            else if MaxSteps b > 0 \<and> tu_Steps u \<ge> MaxSteps b then Some ''max_steps''
            else if MaxToolCalls b > 0 \<and> tu_ToolCalls u \<ge> MaxToolCalls b then Some ''max_tool_calls''
            else if MaxToolRounds b > 0 \<and> tu_ToolRounds u \<ge> MaxToolRounds b \<and> \<not> cmd_FinalSummary cmd
                 then Some ''max_tool_rounds''
            else None
        | CommandToolCallRecorded \<Rightarrow>
            if MaxToolRounds b > 0 \<and> tu_ToolRounds u > MaxToolRounds b then Some ''max_tool_rounds''
            else if MaxToolCalls b > 0 \<and> tu_ToolCalls u > MaxToolCalls b then Some ''max_tool_calls''
            else None
        | CommandToolExecutionRetrying \<Rightarrow>
            if MaxToolRetries b > 0 \<and> tu_ToolRetries u \<ge> MaxToolRetries b then Some ''max_tool_retries''
            else None
        | _ \<Rightarrow> None))"

definition BudgetDecisionForCommand :: "gotime \<Rightarrow> coordinator \<Rightarrow> turn_command \<Rightarrow> budget_decision" where
  "BudgetDecisionForCommand now c cmd =
     (case co_turn c of
        None \<Rightarrow> \<lparr>bd_Allowed = True, bd_Reason = '''', bd_Usage = zero_turn_usage, bd_Budget = zero_budget\<rparr>
      | Some t \<Rightarrow>
          (case budget_refusal now t cmd of
             None \<Rightarrow> \<lparr>bd_Allowed = True, bd_Reason = '''', bd_Usage = turn_Usage t, bd_Budget = turn_Budget t\<rparr>
           | Some r \<Rightarrow> \<lparr>bd_Allowed = False, bd_Reason = r, bd_Usage = turn_Usage t, bd_Budget = turn_Budget t\<rparr>))"

section \<open>Queries\<close>

definition HasToolCall :: "coordinator \<Rightarrow> string \<Rightarrow> bool" where
  "HasToolCall c callID = (case co_batch c of None \<Rightarrow> False | Some b \<Rightarrow> callID \<in> set (batch_ToolCallIDs b))"

definition ToolExecutionID :: "coordinator \<Rightarrow> string \<Rightarrow> string" where
  "ToolExecutionID c callID =
     (case find (\<lambda>(k, e). ex_ToolCallID e = callID) (co_executions c) of None \<Rightarrow> '''' | Some (k, e) \<Rightarrow> k)"

definition ToolExecutionStatusForCall :: "coordinator \<Rightarrow> string \<Rightarrow> tool_execution_status option" where
  "ToolExecutionStatusForCall c callID = map_option ex_Status (exec_for_call c callID)"

definition ToolExecutionInfo :: "coordinator \<Rightarrow> string \<Rightarrow> (string \<times> string) option" where
  "ToolExecutionInfo c executionID =
     map_option (\<lambda>e. (ex_ToolCallID e, ex_ToolName e)) (map_of (co_executions c) executionID)"

definition ActiveToolCalls :: "coordinator \<Rightarrow> tool_call_projection list" where
  "ActiveToolCalls c = (case co_batch c of None \<Rightarrow> [] | Some b \<Rightarrow> project_calls c b)"

definition HasToolResult :: "coordinator \<Rightarrow> string \<Rightarrow> bool" where
  "HasToolResult c callID = flag_set (co_toolResults c) (trim_space callID)"

definition InFlightToolExecutionIDs :: "coordinator \<Rightarrow> string list" where
  "InFlightToolExecutionIDs c =
     (case co_batch c of None \<Rightarrow> []
      | Some b \<Rightarrow>
         let live = (\<lambda>(k, e). \<not> execution_terminal (ex_Status e));
             result = List.map_filter
               (\<lambda>callID. case find (\<lambda>(k, e). ex_ToolCallID e = callID) (co_executions c) of
                            None \<Rightarrow> None
                          | Some (k, e) \<Rightarrow> if live (k, e) then Some k else None) (batch_ToolCallIDs b)
         in if result = [] then []
            else result @ filter (\<lambda>k. k \<notin> set result) (map fst (filter live (co_executions c))))"

end
