(* ===== verification/Coordinator_Inv.thy ===== *)
theory Coordinator_Inv
  imports Coordinator
begin

text \<open>
  What every reachable coordinator satisfies, and what follows for its operations. The invariant
  has four parts, each a predicate of the fields it constrains, so that a handler that leaves
  those fields alone keeps it by simplification:
  \<^item> \<open>inv_ptr\<close>: which pointers and maps are never nil together with a Step or an attempt;
  \<^item> \<open>inv_exec\<close>: one execution record per tool call of the batch, filed under its own id;
  \<^item> \<open>inv_turn\<close>: how Turn, Step and interaction agree, and the exact step accounting;
  \<^item> \<open>inv_attempts\<close>: attempts are numbered 1, 2, ... and only the last can be running.
\<close>

section \<open>Outcomes\<close>

lemma advanceTurn_None:
  "advanceTurn c e tm r = (c', None) \<longleftrightarrow>
   (\<exists>t'. turn_Advance (co_turn c) e tm r = Inr t' \<and> c' = c\<lparr>co_turn := Some t'\<rparr>)"
  by (auto simp: advanceTurn_def split: sum.splits)

lemma advanceStep_None:
  "advanceStep c e tm r = (c', None) \<longleftrightarrow>
   (\<exists>st'. step_Advance (co_step c) e tm r = Inr st' \<and> c' = c\<lparr>co_step := Some st'\<rparr>)"
  by (auto simp: advanceStep_def split: sum.splits)

lemma andThen_None:
  "andThen r f = (c', None) \<longleftrightarrow> (\<exists>c1. r = (c1, None) \<and> f c1 = (c', None))"
  by (auto simp: andThen_def split: prod.splits option.splits)

lemmas outcome_simps = advanceTurn_None advanceStep_None andThen_None

lemmas mod_defs = modTurn_def modStep_def modUsage_def
  finishInterruptedModelAttemptLocked_def clearModelAttemptRetryingLocked_def

lemma update_last_Nil [simp]: "update_last f xs = [] \<longleftrightarrow> xs = []" "update_last f [] = []"
  by (simp_all add: update_last_def)

lemma turn_Advance_from_None [simp]: "turn_Advance None e tm r = Inr t' \<longleftrightarrow> False"
  by (simp add: turn_Advance_def)

lemma step_Advance_from_None [simp]: "step_Advance None e tm r = Inr st' \<longleftrightarrow> False"
  by (simp add: step_Advance_def)

section \<open>The invariant\<close>

definition inv_ptr :: "turn option \<Rightarrow> step option \<Rightarrow> string list option \<Rightarrow> model_attempt list \<Rightarrow> bool" where
  "inv_ptr t st results attempts \<longleftrightarrow>
     (attempts \<noteq> [] \<longrightarrow> t \<noteq> None) \<and> (st \<noteq> None \<longrightarrow> t \<noteq> None \<and> results \<noteq> None)"

definition inv_exec :: "(string, tool_execution) gomap \<Rightarrow> tool_batch option \<Rightarrow> bool" where
  "inv_exec execs batch \<longleftrightarrow>
     distinct (map fst execs) \<and> distinct (map (ex_ToolCallID \<circ> snd) execs) \<and>
     (case batch of None \<Rightarrow> execs = []
      | Some b \<Rightarrow> distinct (batch_ToolCallIDs b) \<and> [] \<notin> set (batch_ToolCallIDs b) \<and>
          (\<forall>(k, e) \<in> set execs. ex_ID e = k \<and> k \<noteq> [] \<and> ex_ToolCallID e \<in> set (batch_ToolCallIDs b)))"

definition step_agrees :: "turn \<Rightarrow> pending_interaction option \<Rightarrow> step \<Rightarrow> bool" where
  "step_agrees t i st \<longleftrightarrow>
     step_TurnID st = turn_ID t \<and> step_Index st = turn_StepIndex t \<and>
     step_ID st \<noteq> [] \<and> trim_space (step_ID st) = step_ID st \<and> step_Status st \<noteq> StepStatusCreated \<and>
     (step_Status st = StepStatusWaitingInteraction \<longrightarrow>
        (\<exists>p. i = Some p \<and> pi_Status p = InteractionStatusPending) \<and>
        (turn_Status t = TurnStatusWaiting \<or> turn_terminal (turn_Status t)))"

definition turn_ok :: "turn \<Rightarrow> bool" where
  "turn_ok t \<longleftrightarrow>
     turn_Status t \<noteq> TurnStatusCreated \<and> turn_ID t \<noteq> [] \<and> trim_space (turn_ID t) = turn_ID t \<and>
     tu_Steps (turn_Usage t) = turn_StepIndex t \<and> 0 \<le> turn_StepIndex t \<and> 0 \<le> turn_ContextEpoch t \<and>
     0 \<le> tu_SummarySteps (turn_Usage t) \<and> tu_SummarySteps (turn_Usage t) \<le> tu_Steps (turn_Usage t)"

definition inv_turn :: "turn option \<Rightarrow> step option \<Rightarrow> pending_interaction option \<Rightarrow> bool" where
  "inv_turn t0 st0 i \<longleftrightarrow>
     (case t0 of None \<Rightarrow> st0 = None
      | Some t \<Rightarrow> turn_ok t \<and> (case st0 of None \<Rightarrow> True | Some st \<Rightarrow> step_agrees t i st))"

definition inv_attempts :: "model_attempt list \<Rightarrow> bool" where
  "inv_attempts as \<longleftrightarrow>
     map ma_Attempt as = map int [1..<Suc (length as)] \<and>
     (\<forall>a \<in> set (butlast as). ma_Status a \<noteq> ModelAttemptStatusRunning)"

definition coord_inv :: "coordinator \<Rightarrow> bool" where
  "coord_inv c \<longleftrightarrow>
     inv_ptr (co_turn c) (co_step c) (co_toolResults c) (co_attempts c) \<and>
     inv_exec (co_executions c) (co_batch c) \<and>
     inv_turn (co_turn c) (co_step c) (co_interaction c) \<and>
     inv_attempts (co_attempts c)"

subsection \<open>Status facts\<close>

lemma step_to_waiting:
  "NextStepStatus s e = (StepStatusWaitingInteraction, True) \<Longrightarrow>
   e = EventInteractionRequested \<or> e = EventContextCompacted \<and> s = StepStatusWaitingInteraction"
  by (auto simp: NextStepStatus_def split: step_status.splits if_splits)

lemma step_to_created:
  "NextStepStatus s e = (StepStatusCreated, True) \<Longrightarrow> s = StepStatusCreated"
  by (auto simp: NextStepStatus_def split: step_status.splits if_splits)

lemma turn_not_created: "NextTurnStatus s e = (s', True) \<Longrightarrow> s' \<noteq> TurnStatusCreated"
  by (auto simp: NextTurnStatus_def split: turn_status.splits if_splits)

lemma turn_Advance_ok: "turn_Advance (Some t) e tm r = Inr t' \<Longrightarrow> turn_ok t \<Longrightarrow> turn_ok t'"
  using turn_Advance_Inr[of "Some t" e tm r t'] by (auto simp: turn_ok_def dest: turn_not_created)

text \<open>A Step that does not wait afterwards agrees with any interaction.\<close>

lemma step_Advance_agrees:
  assumes "step_Advance (Some st) e tm r = Inr st'" and "step_agrees t i st"
    and "e \<noteq> EventInteractionRequested"
    and "turn_ID t' = turn_ID t" "turn_StepIndex t' = turn_StepIndex t"
    and "e = EventContextCompacted \<Longrightarrow> turn_Status t' = turn_Status t \<and> i' = i"
  shows "step_agrees t' i' st'"
proof -
  have nx: "NextStepStatus (step_Status st) e = (step_Status st', True)"
    using step_Advance_Inr[OF assms(1)] by simp
  have nc: "step_Status st' \<noteq> StepStatusCreated"
    using nx assms(2) step_to_created by (auto simp: step_agrees_def)
  show ?thesis
  proof (cases "step_Status st' = StepStatusWaitingInteraction")
    case True
    then have "e = EventContextCompacted" "step_Status st = StepStatusWaitingInteraction"
      using nx assms(3) step_to_waiting by auto
    then show ?thesis using assms nc by (auto simp: step_agrees_def)
  next
    case False
    then show ?thesis using assms nc by (auto simp: step_agrees_def)
  qed
qed

lemma update_last_map:
  "(\<And>a. g (f a) = g a) \<Longrightarrow> map g (update_last f xs) = map g xs"
  by (cases xs rule: rev_cases) (auto simp: update_last_def)

lemma butlast_update_last [simp]: "butlast (update_last f xs) = butlast xs"
  by (auto simp: update_last_def)

lemma length_update_last [simp]: "length (update_last f xs) = length xs"
  by (auto simp: update_last_def)

lemma inv_attempts_update_last:
  "inv_attempts as \<Longrightarrow> (\<And>a. ma_Attempt (f a) = ma_Attempt a) \<Longrightarrow> inv_attempts (update_last f as)"
  by (auto simp: inv_attempts_def update_last_map)

lemma inv_attempts_Nil [simp]: "inv_attempts []"
  by (simp add: inv_attempts_def)

lemma inv_attempts_snoc:
  assumes "inv_attempts as" "ma_Attempt a = int (length as) + 1"
    and "as = [] \<or> ma_Status (last as) \<noteq> ModelAttemptStatusRunning"
  shows "inv_attempts (as @ [a])"
proof -
  have "ma_Status x \<noteq> ModelAttemptStatusRunning" if "x \<in> set as" for x
    using assms that by (cases as rule: rev_cases) (auto simp: inv_attempts_def)
  with assms show ?thesis by (auto simp: inv_attempts_def)
qed

section \<open>Every handler keeps the invariant\<close>

lemmas inv_defs = coord_inv_def inv_ptr_def inv_turn_def

lemma coord_inv_step:
  assumes "coord_inv c" and "advanceStep c e tm r = (c', None)" and "e \<noteq> EventInteractionRequested"
  shows "coord_inv c'"
  using assms
  by (auto simp: inv_defs advanceStep_None split: option.splits intro: step_Advance_agrees)

lemma coord_inv_turn:
  assumes "coord_inv c" and "advanceTurn c e tm r = (c', None)"
    and "case co_step c of None \<Rightarrow> True | Some st \<Rightarrow> step_Status st = StepStatusWaitingInteraction \<longrightarrow>
           (\<forall>s s'. NextTurnStatus s e = (s', True) \<longrightarrow> s' = TurnStatusWaiting \<or> turn_terminal s')"
  shows "coord_inv c'"
proof -
  obtain t t' where t: "co_turn c = Some t" "turn_Advance (Some t) e tm r = Inr t'"
    "c' = c\<lparr>co_turn := Some t'\<rparr>"
    using assms(2) by (cases "co_turn c") (auto simp: advanceTurn_None)
  have nx: "NextTurnStatus (turn_Status t) e = (turn_Status t', True)"
    using turn_Advance_Inr[OF t(2)] by simp
  have "step_agrees t' (co_interaction c) st" if "co_step c = Some st" for st
    using that assms(1,3) t nx by (auto simp: inv_defs step_agrees_def)
  then show ?thesis
    using assms(1) t turn_Advance_ok[OF t(2)] by (auto simp: inv_defs split: option.splits)
qed

lemma coord_inv_attempts:
  "coord_inv c \<Longrightarrow> (\<And>a. ma_Attempt (f a) = ma_Attempt a) \<Longrightarrow>
   coord_inv (c\<lparr>co_attempts := update_last f (co_attempts c)\<rparr>)"
  by (auto simp: inv_defs inv_attempts_update_last)

lemma coord_inv_finish: "coord_inv c \<Longrightarrow> coord_inv (finishInterruptedModelAttemptLocked now tm c)"
  by (auto simp: finishInterruptedModelAttemptLocked_def intro: coord_inv_attempts)

lemma coord_inv_clear: "coord_inv c \<Longrightarrow> coord_inv (clearModelAttemptRetryingLocked c)"
  by (auto simp: clearModelAttemptRetryingLocked_def intro: coord_inv_attempts)

lemma inv_startTurn:
  assumes "startTurnLocked c cmd = (c', None)" and "coord_inv c"
  shows "coord_inv c'"
proof -
  obtain t g where t: "NewTurn (cmd_TurnID cmd) (co_sessionID c) (co_agentID c) (cmd_Source cmd) = Inr t"
    and adv: "advanceTurn (c\<lparr>co_turn := Some (t\<lparr>turn_Budget := cmd_Budget cmd\<rparr>), co_recoveryRequired := False,
       co_externalFacts := [], co_step := None, co_generation := g\<rparr>) EventTurnStarted (cmd_At cmd) (cmd_Reason cmd) = (c', None)"
    using assms(1) by (auto simp: startTurnLocked_def split: option.splits if_splits sum.splits)
  obtain t' where t': "turn_Advance (Some (t\<lparr>turn_Budget := cmd_Budget cmd\<rparr>)) EventTurnStarted (cmd_At cmd) (cmd_Reason cmd) = Inr t'"
    and c': "c' = c\<lparr>co_turn := Some t', co_recoveryRequired := False, co_externalFacts := [], co_step := None, co_generation := g\<rparr>"
    using adv by (auto simp: advanceTurn_None)
  have "turn_Status t' \<noteq> TurnStatusCreated" using turn_Advance_Inr[OF t'] by (auto dest: turn_not_created)
  moreover have "turn_ID t = trim_space (cmd_TurnID cmd)" "trim_space (cmd_TurnID cmd) \<noteq> []"
    "turn_StepIndex t = 0" "turn_ContextEpoch t = 0" "turn_Usage t = zero_turn_usage"
    using t by (auto simp: NewTurn_def split: if_splits)
  ultimately have "turn_ok t'" using t' by (auto simp: turn_ok_def zero_turn_usage_def)
  then show ?thesis using assms(2) c' by (auto simp: inv_defs)
qed

lemma inv_startStep:
  assumes "startStepLocked c cmd = (c', None)" and "coord_inv c"
  shows "coord_inv c'"
proof -
  obtain t t1 st where ss: "StartStep (Some t) (cmd_StepID cmd) (cmd_At cmd) = Inr (t1, st)" "co_turn c = Some t"
    using assms(1) by (auto simp: startStepLocked_def Let_def split: option.splits if_splits sum.splits)
  obtain t2 st' where c': "co_turn c' = Some t2" "co_step c' = Some st'" "co_batch c' = None" "co_executions c' = []"
    "co_toolResults c' = Some []" "co_interaction c' = None" "co_attempts c' = []"
    and t2: "turn_ID t2 = turn_ID t1" "turn_Status t2 = turn_Status t1" "turn_StepIndex t2 = turn_StepIndex t1"
      "turn_ContextEpoch t2 = turn_ContextEpoch t1" "tu_Steps (turn_Usage t2) = tu_Steps (turn_Usage t1) + 1"
      "tu_SummarySteps (turn_Usage t2) \<in> {tu_SummarySteps (turn_Usage t1), tu_SummarySteps (turn_Usage t1) + 1}"
    and st': "step_Advance (Some (st\<lparr>step_FinalSummary := cmd_FinalSummary cmd\<rparr>)) EventStepStarted (cmd_At cmd) (cmd_Reason cmd) = Inr st'"
    using assms(1) ss by (auto simp: startStepLocked_def Let_def outcome_simps split: option.splits if_splits sum.splits)
  have st: "step_ID st = trim_space (cmd_StepID cmd)" "step_ID st \<noteq> []" "step_TurnID st = trim_space (turn_ID t)"
    "step_Index st = turn_StepIndex t + 1" "turn_StepIndex t1 = step_Index st" "turn_ID t1 = turn_ID t"
    "turn_Status t1 = turn_Status t" "turn_ContextEpoch t1 = turn_ContextEpoch t" "turn_Usage t1 = turn_Usage t"
    using ss by (auto simp: StartStep_def NewStep_def Let_def split: sum.splits if_splits)
  have "NextStepStatus (step_Status st) EventStepStarted = (step_Status st', True)"
    using step_Advance_Inr[OF st'] by simp
  then have "step_Status st' = StepStatusRequesting" by (auto simp: NextStepStatus_def split: step_status.splits)
  moreover have "turn_ok t" using assms(2) ss by (auto simp: inv_defs split: option.splits)
  ultimately show ?thesis using c' t2 st st' assms(2)
    by (auto simp: inv_defs turn_ok_def step_agrees_def inv_exec_def)
qed

text \<open>Writes that leave the constrained fields alone.\<close>

definition turn_same :: "turn \<Rightarrow> turn \<Rightarrow> bool" where
  "turn_same t t' \<longleftrightarrow> turn_ID t' = turn_ID t \<and> turn_Status t' = turn_Status t \<and>
     turn_StepIndex t' = turn_StepIndex t \<and> (turn_ok t \<longrightarrow> turn_ok t')"

definition step_same :: "step \<Rightarrow> step \<Rightarrow> bool" where
  "step_same s s' \<longleftrightarrow> step_ID s' = step_ID s \<and> step_Status s' = step_Status s \<and>
     step_TurnID s' = step_TurnID s \<and> step_Index s' = step_Index s"

lemma step_agrees_same:
  "step_agrees t i s \<Longrightarrow> turn_same t t' \<Longrightarrow> step_same s s' \<Longrightarrow> step_agrees t' i s'"
  by (auto simp: step_agrees_def turn_same_def step_same_def)

lemma same_refl [simp]: "turn_same t t" "step_same s s"
  by (auto simp: turn_same_def step_same_def)

lemma coord_inv_same:
  assumes "coord_inv c" "co_turn c = Some t" "turn_same t t'"
    and "co_step c = Some st" "step_same st st'"
  shows "coord_inv (c\<lparr>co_turn := Some t', co_step := Some st'\<rparr>)"
  using assms step_agrees_same[of t _ st t' st'] by (auto simp: inv_defs turn_same_def)

lemma coord_inv_same_turn:
  assumes "coord_inv c" "co_turn c = Some t" "turn_same t t'"
  shows "coord_inv (c\<lparr>co_turn := Some t'\<rparr>)"
  using assms step_agrees_same[of t _ _ t'] by (auto simp: inv_defs turn_same_def split: option.splits)

lemma coord_inv_modStep:
  "coord_inv c \<Longrightarrow> (\<And>s. step_same s (f s)) \<Longrightarrow> coord_inv (modStep f c)"
  using step_agrees_same[OF _ same_refl(1)] by (auto simp: inv_defs modStep_def split: option.splits)

lemma coord_inv_modTurn:
  "coord_inv c \<Longrightarrow> (\<And>t. turn_same t (f t)) \<Longrightarrow> coord_inv (modTurn f c)"
  using step_agrees_same[OF _ _ same_refl(2)]
  by (fastforce simp: inv_defs modTurn_def turn_same_def split: option.splits)

lemma coord_inv_modUsage:
  assumes "coord_inv c"
    and "\<And>u. tu_Steps (f u) = tu_Steps u" "\<And>u. tu_SummarySteps (f u) = tu_SummarySteps u"
  shows "coord_inv (modUsage f c)"
  unfolding modUsage_def
  by (rule coord_inv_modTurn) (use assms in \<open>auto simp: turn_same_def turn_ok_def\<close>)

lemma inv_snapshotCreated:
  assumes "snapshotCreatedLocked c cmd0 = (c', None)" and inv: "coord_inv c"
  shows "coord_inv c'"
proof (cases "c' = c")
  case False
  then obtain t where t: "co_turn c = Some t" "turn_ContextSnapshot t = None"
    using assms(1) by (auto simp: snapshotCreatedLocked_def Let_def split: option.splits if_splits)
  define cmd where "cmd = fill_snapshot_fields cmd0"
  have comm: "t\<lparr>turn_ContextSnapshot := s, turn_RuntimeRevision := r\<rparr> =
    t\<lparr>turn_RuntimeRevision := r, turn_ContextSnapshot := s\<rparr>" for s r
    by (cases t) simp
  obtain rr s where
    a: "advanceTurn (c\<lparr>co_turn := Some (t\<lparr>turn_RuntimeRevision := rr, turn_ContextSnapshot := s\<rparr>)\<rparr>)
       EventTurnSnapshotCreated (cmd_At cmd) (cmd_Reason cmd) = (c', None)"
    using assms(1) t
    by (cases "cmd_ContextSnapshot cmd"; cases "cmd_RuntimeRevision cmd = 0")
      (auto simp: snapshotCreatedLocked_def Let_def comm cmd_def[symmetric])
  obtain t1 where same: "turn_same t t1" and
    adv: "advanceTurn (c\<lparr>co_turn := Some t1\<rparr>) EventTurnSnapshotCreated (cmd_At cmd) (cmd_Reason cmd) = (c', None)"
    by (rule that[rotated, OF a]) (simp add: turn_same_def turn_ok_def)
  have "step_Status st \<noteq> StepStatusWaitingInteraction" if "co_step c = Some st" for st
  proof -
    have "turn_Status t = TurnStatusRunning"
      using adv same by (auto simp: turn_same_def advanceTurn_None NextTurnStatus_def dest!: turn_Advance_Inr
        split: turn_status.splits if_splits)
    with inv t that show ?thesis by (auto simp: inv_defs step_agrees_def turn_terminal_def)
  qed
  then show ?thesis
    using coord_inv_turn[OF coord_inv_same_turn[OF inv t(1) same] adv] by (auto split: option.splits)
qed (use assms in simp)

lemma not_waiting_when_running:
  assumes "coord_inv c" "co_turn c = Some t" "co_step c = Some st" "turn_Status t = TurnStatusRunning"
  shows "step_Status st \<noteq> StepStatusWaitingInteraction"
  using assms by (auto simp: inv_defs step_agrees_def turn_terminal_def)

lemma inv_contextChanged:
  assumes "contextChangedLocked c cmd = (c', None)" and inv: "coord_inv c"
  shows "coord_inv c'"
proof -
  obtain t st where t: "co_turn c = Some t" "co_step c = Some st"
    using assms(1) by (auto simp: contextChangedLocked_def split: option.splits)
  obtain t0 st0 c1 where same: "turn_same t t0" "step_same st st0"
    and c1: "advanceTurn (c\<lparr>co_turn := Some t0, co_step := Some st0\<rparr>) EventModelContextChanged (cmd_At cmd) '''' = (c1, None)"
      "advanceStep c1 EventModelContextChanged (cmd_At cmd) '''' = (c', None)"
    using assms(1) t
    by (auto simp: contextChangedLocked_def Let_def andThen_None turn_same_def step_same_def turn_ok_def
        split: option.splits if_splits intro!: that[rotated 2])
  note c0 = coord_inv_same[OF inv t(1) same(1) t(2) same(2)]
  have "turn_Status t = TurnStatusRunning"
    using c1(1) same(1) by (auto simp: advanceTurn_None NextTurnStatus_def turn_same_def dest!: turn_Advance_Inr
        split: turn_status.splits if_splits)
  then have "step_Status st0 \<noteq> StepStatusWaitingInteraction"
    using not_waiting_when_running[OF inv t] same by (simp add: step_same_def)
  then have "coord_inv c1" using coord_inv_turn[OF c0 c1(1)] by simp
  then show ?thesis using coord_inv_step[OF _ c1(2)] by simp
qed

lemma coord_inv_newBatch:
  "coord_inv c \<Longrightarrow> co_batch c = None \<Longrightarrow> batch_ToolCallIDs b = [] \<Longrightarrow> coord_inv (c\<lparr>co_batch := Some b\<rparr>)"
  by (auto simp: inv_defs inv_exec_def)

lemma inv_recordAssistant:
  assumes run: "recordAssistantLocked c cmd = (c', None)" and inv: "coord_inv c"
  shows "coord_inv c'"
proof (cases "cmd_HasTools cmd \<and> co_batch c \<noteq> None")
  case True
  then have "c' = c" using run by (auto simp: recordAssistantLocked_def Let_def split: option.splits if_splits)
  with inv show ?thesis by simp
next
  case False
  then have nb: "(if cmd_HasTools cmd then co_batch c else None) = None" by auto
  obtain st where st: "co_step c = Some st" using run by (auto simp: recordAssistantLocked_def split: option.splits)
  obtain c1 where c1: "advanceStep c EventAssistantMessageRecorded (cmd_At cmd) (cmd_Reason cmd) = (c1, None)"
    using run nb st by (auto simp: recordAssistantLocked_def Let_def andThen_None)
  define c2 where "c2 = (if trim_space (cmd_AssistantMessageID cmd) \<noteq> []
    then modStep (\<lambda>s. s\<lparr>step_AssistantMsgID := trim_space (cmd_AssistantMessageID cmd)\<rparr>) c1 else c1)"
  have c2: "coord_inv c2"
    using coord_inv_step[OF inv c1] by (auto intro!: coord_inv_modStep simp: c2_def step_same_def)
  have cb: "co_batch c2 = co_batch c" using c1 by (auto simp: c2_def advanceStep_None modStep_def)
  note run' = run[unfolded recordAssistantLocked_def Let_def, folded c2_def]
  show ?thesis
  proof (cases "cmd_HasTools cmd")
    case False
    then have "c' = c2" using run' st nb c1 by (simp add: andThen_def c2_def)
    with c2 show ?thesis by simp
  next
    case tools: True
    obtain b bid where b: "batch_ToolCallIDs b = []"
      and adv: "advanceStep (modStep (\<lambda>s. s\<lparr>step_ToolBatchID := bid\<rparr>)
            ((modUsage (\<lambda>u. u\<lparr>tu_ToolRounds := tu_ToolRounds u + 1\<rparr>) c2)\<lparr>co_batch := Some b\<rparr>))
           EventToolBatchCreated (cmd_At cmd) (cmd_Reason cmd) = (c', None)"
      using run' st nb c1 tools
      by (auto simp: andThen_def c2_def[symmetric] split: if_splits intro!: that[rotated])
    have "co_batch c2 = None" using cb nb tools by simp
    then show ?thesis
      using coord_inv_step[OF coord_inv_modStep[OF coord_inv_newBatch[OF coord_inv_modUsage[OF c2] _ b]] adv]
      by (simp add: step_same_def mod_defs)
  qed
qed

lemma inv_startModelAttempt:
  assumes run: "startModelAttemptLocked c cmd = (c', None)" and inv: "coord_inv c"
  shows "coord_inv c'"
proof (cases "co_attempts c \<noteq> [] \<and> ma_Status (last (co_attempts c)) = ModelAttemptStatusRunning")
  case True
  then show ?thesis using run inv by (auto simp: startModelAttemptLocked_def split: option.splits)
next
  case False
  obtain t st where t: "co_turn c = Some t" "co_step c = Some st"
    using run False by (auto simp: startModelAttemptLocked_def split: option.splits)
  obtain t' st' a where same: "turn_same t t'" "step_same st st'"
    and a: "ma_Attempt a = int (length (co_attempts c)) + 1"
    and adv: "advanceStep (c\<lparr>co_attempts := co_attempts c @ [a], co_turn := Some t', co_step := Some st'\<rparr>)
        EventModelRequestStarted (cmd_At cmd) (cmd_Reason cmd) = (c', None)"
    using run False t unfolding startModelAttemptLocked_def Let_def
    by (auto simp: turn_same_def step_same_def turn_ok_def intro!: that[rotated 3])
  have "inv_attempts (co_attempts c @ [a])"
    using inv a False by (intro inv_attempts_snoc) (auto simp: inv_defs)
  then have "coord_inv (c\<lparr>co_attempts := co_attempts c @ [a], co_turn := Some t', co_step := Some st'\<rparr>)"
    using coord_inv_same[OF inv t(1) same(1) t(2) same(2)] by (auto simp: inv_defs)
  then show ?thesis using coord_inv_step[OF _ adv] by simp
qed

lemma inv_completeModelAttempt:
  "completeModelAttemptLocked c cmd = (c', None) \<Longrightarrow> coord_inv c \<Longrightarrow> coord_inv c'"
  by (auto simp: completeModelAttemptLocked_def intro!: coord_inv_attempts)

lemma inv_finishModelAttempt:
  "finishModelAttemptLocked EventModelRequestFailed status c cmd = (c', None) \<Longrightarrow> coord_inv c \<Longrightarrow> coord_inv c'"
  unfolding finishModelAttemptLocked_def by (erule coord_inv_step[rotated]) (auto intro!: coord_inv_attempts)

lemma inv_retryModelAttempt:
  "retryModelAttemptLocked c cmd = (c', None) \<Longrightarrow> coord_inv c \<Longrightarrow> coord_inv c'"
  unfolding retryModelAttemptLocked_def by (erule coord_inv_step[rotated]) (auto intro!: coord_inv_attempts)

lemma addTurnUsage_counts [simp]:
  "tu_Steps (addTurnUsage u d) = tu_Steps u" "tu_SummarySteps (addTurnUsage u d) = tu_SummarySteps u"
  by (simp_all add: addTurnUsage_def)

lemma inv_recordModelUsage:
  assumes run: "recordModelUsageLocked c cmd = (c', None)" and inv: "coord_inv c"
  shows "coord_inv c'"
proof -
  obtain t st where t: "co_turn c = Some t" "co_step c = Some st"
    using run by (auto simp: recordModelUsageLocked_def split: option.splits)
  define d where "d = usageDelta (cmd_Usage cmd) (ma_Usage (last (co_attempts c)))"
  define t' where "t' = t\<lparr>turn_ModelUsagePending := False, turn_Usage := addTurnUsage (turn_Usage t) d\<rparr>"
  define st' where "st' = st\<lparr>step_Usage := addStepUsage (step_Usage st) d\<rparr>"
  define as where "as = update_last (\<lambda>a. a\<lparr>ma_UsageRecorded := True, ma_Usage := cmd_Usage cmd\<rparr>) (co_attempts c)"
  have "turn_same t t'" "step_same st st'"
    by (auto simp: turn_same_def step_same_def turn_ok_def t'_def st'_def)
  moreover have "inv_attempts as" "as \<noteq> [] \<longleftrightarrow> co_attempts c \<noteq> []"
    using inv by (auto simp: as_def inv_defs intro!: inv_attempts_update_last)
  moreover have "c' = c\<lparr>co_attempts := as, co_turn := Some t', co_step := Some st'\<rparr>"
    using run t by (auto simp: recordModelUsageLocked_def Let_def d_def t'_def st'_def as_def split: if_splits)
  ultimately show ?thesis
    using coord_inv_same[OF inv t(1) _ t(2)] by (fastforce simp: inv_defs)
qed

subsection \<open>Tool executions\<close>

lemma distinct_update_values:
  assumes "distinct (map fst m)" "distinct (map (g \<circ> snd) m)"
    and "\<And>k' w. (k', w) \<in> set m \<Longrightarrow> k' \<noteq> k \<Longrightarrow> g w \<noteq> g v"
  shows "distinct (map (g \<circ> snd) (AList.update k v m))"
  using assms
proof (induction m)
  case (Cons a m)
  obtain k0 v0 where a: "a = (k0, v0)" by (cases a)
  show ?case
  proof (cases "k0 = k")
    case True
    then show ?thesis using Cons.prems a by (auto simp: image_iff) (metis fst_conv image_eqI)
  next
    case False
    have "distinct (map (g \<circ> snd) (AList.update k v m))"
      by (rule Cons.IH) (use Cons.prems in auto)
    moreover have "g v0 \<noteq> g v" using Cons.prems(3)[of k0 v0] a False by simp
    moreover have "g v0 \<notin> g ` snd ` {(k', w) \<in> set m. k' \<noteq> k}" using Cons.prems(2) a by (force simp: image_iff)
    ultimately show ?thesis
      using False a Cons.prems(1) by (simp add: set_update_distinct image_comp comp_def)
  qed
qed simp

lemma inv_exec_new:
  assumes "inv_exec m (Some b)" "callID \<notin> set (batch_ToolCallIDs b)" "callID \<noteq> []"
    and "ex_ID e = k" "k \<noteq> []" "ex_ToolCallID e = callID"
  shows "inv_exec (AList.update k e m) (Some (b\<lparr>batch_ToolCallIDs := batch_ToolCallIDs b @ [callID]\<rparr>))"
proof -
  have m: "distinct (map fst m)" "distinct (map (ex_ToolCallID \<circ> snd) m)"
    "\<And>k' w. (k', w) \<in> set m \<Longrightarrow> ex_ID w = k' \<and> k' \<noteq> [] \<and> ex_ToolCallID w \<in> set (batch_ToolCallIDs b)"
    using assms(1) by (auto simp: inv_exec_def)
  have "ex_ToolCallID w \<noteq> ex_ToolCallID e" if "(k', w) \<in> set m" for k' w
    using m(3)[OF that] assms(2,6) by metis
  then have "distinct (map (ex_ToolCallID \<circ> snd) (AList.update k e m))"
    using distinct_update_values[OF m(1,2)] by blast
  then show ?thesis
    using assms m by (auto simp: inv_exec_def distinct_update set_update_distinct)
qed

lemma inv_exec_write:
  assumes "inv_exec m (Some b)" "map_of m k = Some e0" "ex_ID e = ex_ID e0" "ex_ToolCallID e = ex_ToolCallID e0"
  shows "inv_exec (AList.update k e m) (Some b)"
proof -
  have m: "distinct (map fst m)" "distinct (map (ex_ToolCallID \<circ> snd) m)"
    "\<And>k' w. (k', w) \<in> set m \<Longrightarrow> ex_ID w = k' \<and> k' \<noteq> [] \<and> ex_ToolCallID w \<in> set (batch_ToolCallIDs b)"
    using assms(1) by (auto simp: inv_exec_def)
  have k: "(k, e0) \<in> set m" using assms(2) by (rule map_of_SomeD)
  have "ex_ToolCallID w \<noteq> ex_ToolCallID e" if w: "(k', w) \<in> set m" "k' \<noteq> k" for k' w
  proof
    assume "ex_ToolCallID w = ex_ToolCallID e"
    then have "(k', w) = (k, e0)"
      using inj_onD[of "ex_ToolCallID \<circ> snd" "set m" "(k', w)" "(k, e0)"] m(2) w k assms(4)
      by (simp add: distinct_map)
    with w show False by simp
  qed
  then have "distinct (map (ex_ToolCallID \<circ> snd) (AList.update k e m))"
    using distinct_update_values[OF m(1,2)] by blast
  then show ?thesis
    using assms(1,3,4) m k by (auto simp: inv_exec_def distinct_update set_update_distinct)
qed

lemma inv_recordToolCall:
  assumes run: "recordToolCallLocked c cmd = (c', None)" and inv: "coord_inv c"
  shows "coord_inv c'"
proof (cases "c' = c")
  case False
  define callID where "callID = trim_space (cmd_ToolCallID cmd)"
  obtain b where b: "co_batch c = Some b" "callID \<notin> set (batch_ToolCallIDs b)" "callID \<noteq> []"
    using run False
    by (auto simp: recordToolCallLocked_def Let_def callID_def[symmetric] split: option.splits if_splits)
  define k where "k = default_id (cmd_ToolExecutionID cmd) (callID @ ''-execution'')"
  have k: "k \<noteq> []" by (auto simp: k_def default_id_def)
  define c1 where "c1 = modUsage (\<lambda>u. u\<lparr>tu_ToolCalls := tu_ToolCalls u + 1\<rparr>) c"
  obtain e where e: "ex_ID e = k" "ex_ToolCallID e = callID"
    and c': "co_batch c' = Some (b\<lparr>batch_ToolCallIDs := batch_ToolCallIDs b @ [callID]\<rparr>)"
      "co_executions c' = AList.update k e (co_executions c)" "co_turn c' = co_turn c1" "co_step c' = co_step c1"
      "co_toolResults c' = co_toolResults c1" "co_attempts c' = co_attempts c1" "co_interaction c' = co_interaction c1"
    using run b unfolding recordToolCallLocked_def Let_def callID_def[symmetric] k_def[symmetric]
    by (auto simp: c1_def mod_defs split: option.splits if_splits intro!: that[rotated 3])
  have "coord_inv c1" using coord_inv_modUsage[OF inv] by (simp add: c1_def)
  moreover have "inv_exec (AList.update k e (co_executions c)) (Some (b\<lparr>batch_ToolCallIDs := batch_ToolCallIDs b @ [callID]\<rparr>))"
    using inv b e k by (intro inv_exec_new) (auto simp: coord_inv_def)
  ultimately show ?thesis by (auto simp: c' inv_defs)
qed (use inv in simp)

lemma inv_execWrite:
  assumes "coord_inv c" "co_batch c = Some b" "map_of (co_executions c) k = Some e0"
    and "ex_ID e = ex_ID e0" "ex_ToolCallID e = ex_ToolCallID e0"
  shows "coord_inv (c\<lparr>co_executions := AList.update k e (co_executions c)\<rparr>)"
  using assms inv_exec_write[of "co_executions c" b k e0 e] by (auto simp: inv_defs)

lemma coord_inv_recovery [simp]:
  "coord_inv (c\<lparr>co_recoveryRequired := r\<rparr>) = coord_inv c" "coord_inv (c\<lparr>co_externalFacts := f\<rparr>) = coord_inv c"
  "coord_inv (c\<lparr>co_appliedCommands := x\<rparr>) = coord_inv c" "coord_inv (c\<lparr>co_generation := g\<rparr>) = coord_inv c"
  by (simp_all add: inv_defs)


lemma inv_advanceToolExecution:
  assumes run: "advanceToolExecutionLocked c cmd = (c', None)" and inv: "coord_inv c"
  shows "coord_inv c'"
proof -
  define k where "k = trim_space (cmd_ToolExecutionID cmd)"
  obtain b e where b: "co_batch c = Some b" and e: "map_of (co_executions c) k = Some e"
    using run by (auto simp: advanceToolExecutionLocked_def Let_def k_def split: option.splits if_splits)
  have w: "coord_inv (c\<lparr>co_executions := AList.update k e' (co_executions c)\<rparr>)"
    if "ex_ID e' = ex_ID e" "ex_ToolCallID e' = ex_ToolCallID e" for e'
    using inv_execWrite[OF inv b e that] .
  show ?thesis
    using run inv b e w unfolding advanceToolExecutionLocked_def Let_def k_def[symmetric]
    by (auto split: command_type.splits if_splits intro!: coord_inv_modUsage)
qed

lemma inv_recordExternalFact:
  "recordExternalFactLocked c cmd = (c', None) \<Longrightarrow> coord_inv c \<Longrightarrow> coord_inv c'"
  by (auto simp: recordExternalFactLocked_def Let_def split: if_splits)

subsection \<open>Interactions\<close>

lemma inv_interactionRequested:
  assumes run: "interactionRequestedLocked c cmd = (c', None)" and inv: "coord_inv c"
  shows "coord_inv c'"
proof -
  obtain t st where t: "co_turn c = Some t" "co_step c = Some st"
    using run by (auto simp: interactionRequestedLocked_def split: option.splits)
  show ?thesis
  proof (cases "if step_Status st = StepStatusWaitingInteraction then co_interaction c else None")
    case (Some i)
    then obtain i' where "c' = c\<lparr>co_interaction := Some i'\<rparr>" "pi_Status i' = pi_Status i" "co_interaction c = Some i"
      using run t by (auto simp: interactionRequestedLocked_def Let_def split: if_splits)
    then show ?thesis using inv t by (auto simp: inv_defs step_agrees_def)
  next
    case None
    then have nw: "step_Status st \<noteq> StepStatusWaitingInteraction"
      using inv t by (auto simp: inv_defs step_agrees_def split: if_splits)
    obtain i t' st' where i: "pi_Status i = InteractionStatusPending"
      and adv: "turn_Advance (Some t) EventInteractionRequested (cmd_At cmd) (cmd_Reason cmd) = Inr t'"
        "step_Advance (Some st) EventInteractionRequested (cmd_At cmd) (cmd_Reason cmd) = Inr st'"
      and c': "c' = c\<lparr>co_turn := Some t', co_interaction := Some i, co_step := Some st'\<rparr>"
      using run t None by (auto simp: interactionRequestedLocked_def outcome_simps intro!: that[rotated 3])
    have "turn_Status t' = TurnStatusWaiting"
      using turn_Advance_Inr[OF adv(1)] by (auto simp: NextTurnStatus_def split: turn_status.splits if_splits)
    moreover have "step_Status st' \<noteq> StepStatusCreated"
      using step_Advance_Inr[OF adv(2)] by (auto simp: NextStepStatus_def split: step_status.splits if_splits)
    ultimately show ?thesis
      using inv t i adv turn_Advance_ok[OF adv(1)] by (auto simp: c' inv_defs step_agrees_def)
  qed
qed

lemma inv_interactionResolved:
  assumes run: "interactionResolvedLocked c cmd = (c', None)" and inv: "coord_inv c"
  shows "coord_inv c'"
proof -
  obtain t st where t: "co_turn c = Some t" "co_step c = Some st"
    using run by (auto simp: interactionResolvedLocked_def split: if_splits)
  obtain i t' st' where
      adv: "turn_Advance (Some t) EventInteractionResolved (cmd_At cmd) (cmd_Reason cmd) = Inr t'"
        "step_Advance (Some st) EventInteractionResolved (cmd_At cmd) (cmd_Reason cmd) = Inr st'"
      and c': "co_turn c' = Some t'" "co_interaction c' = i" "co_step c' = Some st'" "co_batch c' = co_batch c"
        "co_executions c' = co_executions c" "co_toolResults c' = co_toolResults c" "co_attempts c' = co_attempts c"
    using run t by (auto simp: interactionResolvedLocked_def outcome_simps split: option.splits if_splits)
  have "step_agrees t (co_interaction c) st" using inv t by (auto simp: inv_defs)
  then have "step_agrees t' i st'"
    using adv by (intro step_Advance_agrees[OF adv(2)]) auto
  then show ?thesis using inv t turn_Advance_ok[OF adv(1)] c' by (auto simp: inv_defs)
qed

subsection \<open>Generic Step and Turn commands\<close>

lemma coord_inv_batchStatus:
  "coord_inv c \<Longrightarrow> (\<And>b. batch_ToolCallIDs (f b) = batch_ToolCallIDs b) \<Longrightarrow>
   coord_inv (c\<lparr>co_batch := map_option f (co_batch c)\<rparr>)"
  by (auto simp: inv_defs inv_exec_def split: option.splits)

lemma inv_advanceStepLocked:
  assumes run: "advanceStepLocked now event c cmd = (c', None)" and inv: "coord_inv c"
    and e: "event \<noteq> EventInteractionRequested"
  shows "coord_inv c'"
proof (cases "c' = c")
  case False
  obtain st where st: "co_step c = Some st"
    using run by (auto simp: advanceStepLocked_def split: option.splits)
  have nb: "event = EventToolBatchCreated \<Longrightarrow> co_batch c = None"
    using run False by (auto simp: advanceStepLocked_def split: option.splits if_splits)
  define batchID where "batchID = default_id (cmd_ToolBatchID cmd) (step_ID st @ ''-batch'')"
  define c1 where "c1 = (if event = EventToolBatchCreated
     then c\<lparr>co_batch := Some \<lparr>batch_ID = batchID, batch_StepID = step_ID st, batch_ParallelAllowed = False,
              batch_Status = ''created'', batch_ToolCallIDs = []\<rparr>,
            co_step := Some (st\<lparr>step_ToolBatchID := batchID\<rparr>)\<rparr> else c)"
  define c2 where "c2 = (if event = EventToolBatchSettled
     then c1\<lparr>co_batch := map_option (\<lambda>b. b\<lparr>batch_Status := ''settled''\<rparr>) (co_batch c1)\<rparr> else c1)"
  define c3 where "c3 = (if event \<in> {EventStepInterrupted, EventStepCancelled}
     then finishInterruptedModelAttemptLocked now (cmd_At cmd) c2
     else if event = EventStepFailed then clearModelAttemptRetryingLocked c2 else c2)"
  have "coord_inv c1"
    using inv coord_inv_modStep[OF coord_inv_newBatch[OF inv], of _ "\<lambda>s. s\<lparr>step_ToolBatchID := batchID\<rparr>"] nb st
    by (auto simp: c1_def step_same_def modStep_def)
  then have "coord_inv c2" by (auto simp: c2_def intro!: coord_inv_batchStatus)
  then have "coord_inv c3" by (auto simp: c3_def intro!: coord_inv_finish coord_inv_clear)
  moreover have "advanceStep c3 event (cmd_At cmd) (cmd_Reason cmd) = (c', None)"
    using run st nb
    by (auto simp: advanceStepLocked_def Let_def c3_def c2_def c1_def batchID_def split: option.splits if_splits)
  ultimately show ?thesis using coord_inv_step e by blast
qed (use inv in simp)

lemma inv_advanceTurnLocked:
  assumes run: "advanceTurnLocked now event c cmd = (c', None)" and inv: "coord_inv c"
    and fin: "\<And>s s'. NextTurnStatus s event = (s', True) \<Longrightarrow> turn_terminal s'"
  shows "coord_inv c'"
proof -
  define c1 where "c1 = (if event \<in> {EventTurnInterrupted, EventTurnCancelled}
     then finishInterruptedModelAttemptLocked now (cmd_At cmd) c
     else if event \<in> {EventTurnBudgetExhausted, EventTurnFailed} then clearModelAttemptRetryingLocked c else c)"
  have adv: "advanceTurn c1 event (cmd_At cmd) (cmd_Reason cmd) = (c', None)"
    using run by (auto simp: advanceTurnLocked_def Let_def c1_def split: if_splits)
  have "coord_inv c1" using inv by (auto simp: c1_def intro!: coord_inv_finish coord_inv_clear)
  from this adv show ?thesis by (rule coord_inv_turn) (use fin in \<open>auto split: option.splits\<close>)
qed

lemma inv_contextCompacted:
  "contextCompactedLocked c cmd = (c', None) \<Longrightarrow> coord_inv c \<Longrightarrow> coord_inv c'"
  by (auto simp: contextCompactedLocked_def split: if_splits intro: coord_inv_step)

lemma step_cancel_ok: "\<not> step_terminal s \<Longrightarrow> NextStepStatus s EventStepCancelled = (StepStatusCancelled, True)"
  by (cases s) (auto simp: NextStepStatus_def step_terminal_def)

lemma execution_terminal_cancelled [simp]: "execution_terminal ToolExecutionStatusCancelled"
  by (simp add: execution_terminal_def)

lemma inv_exec_map_values:
  "inv_exec m b \<Longrightarrow> (\<And>e. ex_ID (f e) = ex_ID e \<and> ex_ToolCallID (f e) = ex_ToolCallID e) \<Longrightarrow> inv_exec (map_values f m) b"
  by (auto simp: inv_exec_def map_values_def comp_def case_prod_beta split: option.splits)

text \<open>After the cancellation walk no work is left: Step, executions, batch and interaction.\<close>

lemma cancelActiveWork_fields:
  assumes cc_def: "cc = cancelActiveWorkLocked now c cmd"
  shows "co_turn cc = co_turn c" "co_toolResults cc = co_toolResults c"
    "\<exists>f. (\<forall>a. ma_Attempt (f a) = ma_Attempt a) \<and> co_attempts cc = update_last f (co_attempts c)"
    "\<exists>f. (\<forall>e. ex_ID (f e) = ex_ID e \<and> ex_ToolCallID (f e) = ex_ToolCallID e \<and> execution_terminal (ex_Status (f e)) \<and>
        (execution_terminal (ex_Status e) \<longrightarrow> f e = e)) \<and>
        co_executions cc = map_values f (co_executions c)"
    "\<exists>f. (\<forall>b. batch_ToolCallIDs (f b) = batch_ToolCallIDs b) \<and> co_batch cc = map_option f (co_batch c)"
    "case co_step c of None \<Rightarrow> co_step cc = None
       | Some st \<Rightarrow> \<exists>st'. co_step cc = Some st' \<and> step_terminal (step_Status st') \<and> step_ID st' = step_ID st \<and>
           step_TurnID st' = step_TurnID st \<and> step_Index st' = step_Index st"
proof -
  define fin where "fin = (if cmd_At cmd = 0 then now else cmd_At cmd)"
  define c1 where "c1 = finishInterruptedModelAttemptLocked now fin c"
  define c2 where "c2 = (case co_step c1 of None \<Rightarrow> c1
                | Some st \<Rightarrow>
                    if \<not> step_terminal (step_Status st) \<and>
                       NextStepStatus (step_Status st) EventStepCancelled = (StepStatusCancelled, True)
                    then fst (advanceStep c1 EventStepCancelled fin ''cancelled_by_user'') else c1)"
  have c1: "co_turn c1 = co_turn c" "co_toolResults c1 = co_toolResults c" "co_step c1 = co_step c" "co_batch c1 = co_batch c"
    "co_executions c1 = co_executions c"
    by (simp_all add: c1_def mod_defs)
  have c2: "co_turn c2 = co_turn c" "co_toolResults c2 = co_toolResults c" "co_attempts c2 = co_attempts c1" "co_batch c2 = co_batch c"
    "co_executions c2 = co_executions c"
    using c1 by (auto simp: c2_def advanceStep_def split: option.splits sum.splits)
  have cc: "cc = (let c3 = c2\<lparr>co_executions := map_values
                 (\<lambda>e. if execution_terminal (ex_Status e) then e
                      else e\<lparr>ex_Status := ToolExecutionStatusCancelled,
                             ex_ErrorKind := ''cancelled_by_turn'', ex_FinishedAt := Some fin\<rparr>)
                 (co_executions c2)\<rparr>;
          c4 = c3\<lparr>co_batch := map_option
                 (\<lambda>b. if batch_Status b \<noteq> ''settled'' then b\<lparr>batch_Status := ''cancelled''\<rparr> else b)
                 (co_batch c3)\<rparr>
      in c4\<lparr>co_interaction := map_option
              (\<lambda>i. if pi_Status i = InteractionStatusPending
                   then i\<lparr>pi_Status := InteractionStatusCancelled, pi_Revision := pi_Revision i + 1\<rparr>
                   else i) (co_interaction c4)\<rparr>)"
    unfolding cc_def cancelActiveWorkLocked_def c2_def c1_def fin_def Let_def by simp
  show "co_turn cc = co_turn c" "co_toolResults cc = co_toolResults c" using c2 by (simp_all add: cc Let_def)
  show "\<exists>f. (\<forall>a. ma_Attempt (f a) = ma_Attempt a) \<and> co_attempts cc = update_last f (co_attempts c)"
    unfolding cc Let_def
    by (simp add: c2, unfold c1_def finishInterruptedModelAttemptLocked_def, rule exI, rule conjI[rotated]) auto
  show "\<exists>f. (\<forall>e. ex_ID (f e) = ex_ID e \<and> ex_ToolCallID (f e) = ex_ToolCallID e \<and> execution_terminal (ex_Status (f e)) \<and>
        (execution_terminal (ex_Status e) \<longrightarrow> f e = e)) \<and>
        co_executions cc = map_values f (co_executions c)"
    unfolding cc Let_def by (rule exI, rule conjI[rotated]) (auto simp: c2)
  show "\<exists>f. (\<forall>b. batch_ToolCallIDs (f b) = batch_ToolCallIDs b) \<and> co_batch cc = map_option f (co_batch c)"
    unfolding cc Let_def by (rule exI, rule conjI[rotated]) (auto simp: c2)
  have st: "co_step cc = co_step c2" by (simp add: cc Let_def)
  show "case co_step c of None \<Rightarrow> co_step cc = None
       | Some st \<Rightarrow> \<exists>st'. co_step cc = Some st' \<and> step_terminal (step_Status st') \<and> step_ID st' = step_ID st \<and>
           step_TurnID st' = step_TurnID st \<and> step_Index st' = step_Index st"
    unfolding st using step_cancel_ok
    by (auto simp: c2_def c1 advanceStep_def step_Advance_def Let_def step_terminal_def split: option.splits)
qed

lemma inv_cancelActiveWork:
  assumes inv: "coord_inv c"
  shows "coord_inv (cancelActiveWorkLocked now c cmd)"
proof -
  define cc where "cc = cancelActiveWorkLocked now c cmd"
  note F = cancelActiveWork_fields[OF cc_def]
  obtain f where "co_executions cc = map_values f (co_executions c)"
    "\<And>e. ex_ID (f e) = ex_ID e \<and> ex_ToolCallID (f e) = ex_ToolCallID e" using F(4) by auto
  moreover obtain g where "co_batch cc = map_option g (co_batch c)" "\<And>b. batch_ToolCallIDs (g b) = batch_ToolCallIDs b"
    using F(5) by auto
  ultimately have "inv_exec (co_executions cc) (co_batch cc)"
    using inv_exec_map_values[of "co_executions c" "co_batch cc" f] inv
    by (auto simp: inv_exec_def coord_inv_def split: option.splits)
  moreover obtain h where "co_attempts cc = update_last h (co_attempts c)" "\<And>a. ma_Attempt (h a) = ma_Attempt a"
    using F(3) by auto
  then have "inv_attempts (co_attempts cc)" "co_attempts cc = [] \<longleftrightarrow> co_attempts c = []"
    using inv by (auto simp: coord_inv_def intro!: inv_attempts_update_last)
  moreover have "inv_turn (co_turn cc) (co_step cc) (co_interaction cc)"
    using F(1,6) inv by (auto simp: inv_defs step_agrees_def step_terminal_def split: option.splits)
  moreover have "co_step cc \<noteq> None \<longleftrightarrow> co_step c \<noteq> None" using F(6) by (auto split: option.splits)
  ultimately show ?thesis using F(1,2) inv unfolding cc_def[symmetric] by (auto simp: coord_inv_def inv_ptr_def)
qed

lemma turn_event_terminal:
  "NextTurnStatus s e = (s', True) \<Longrightarrow>
   e \<in> {EventTurnCompleted, EventTurnFailed, EventTurnInterrupted, EventTurnCancelled, EventTurnBudgetExhausted} \<Longrightarrow>
   turn_terminal s'"
  by (auto simp: NextTurnStatus_def turn_terminal_def split: turn_status.splits if_splits)

lemma advanceStepLocked_toolResults:
  "advanceStepLocked now event c cmd = (c', r) \<Longrightarrow> co_toolResults c' = co_toolResults c"
  by (auto simp: advanceStepLocked_def advanceStep_def Let_def mod_defs
      split: option.splits if_splits sum.splits)

lemma inv_toolResultRecorded:
  assumes run: "toolResultRecordedLocked now c cmd = (c', None)" and inv: "coord_inv c"
  shows "coord_inv c'"
proof (cases "c' = c")
  case False
  then obtain c1 where c1: "advanceStepLocked now EventToolResultRecorded c cmd = (c1, None)"
    "c' = c1 \<or> (\<exists>ks. co_toolResults c1 \<noteq> None \<and> c' = c1\<lparr>co_toolResults := Some ks\<rparr>)"
    using run by (auto simp: toolResultRecordedLocked_def Let_def andThen_None split: if_splits option.splits)
  have "coord_inv c1" using inv_advanceStepLocked[OF c1(1) inv] by simp
  then show ?thesis using c1(2) by (auto simp: coord_inv_def inv_ptr_def)
qed (use inv in simp)

lemma coord_inv_apply:
  assumes run: "applyCommandLocked now c cmd = (c', None)" and inv: "coord_inv c"
  shows "coord_inv c'"
proof -
  have turn: "coord_inv c'" if "advanceTurnLocked now event c0 cmd = (c', None)" "coord_inv c0"
    "event \<in> {EventTurnCompleted, EventTurnFailed, EventTurnInterrupted, EventTurnCancelled, EventTurnBudgetExhausted}"
    for event c0
    using inv_advanceTurnLocked[OF that(1,2)] turn_event_terminal[OF _ that(3)] by blast
  show ?thesis
    using run inv
    by (cases "cmd_Type cmd")
      (auto simp: applyCommandLocked_def dest: inv_startTurn inv_startStep inv_snapshotCreated inv_contextChanged
        inv_startModelAttempt inv_completeModelAttempt inv_recordAssistant inv_finishModelAttempt
        inv_retryModelAttempt inv_recordModelUsage inv_recordToolCall inv_advanceToolExecution
        inv_recordExternalFact inv_toolResultRecorded inv_interactionRequested inv_interactionResolved
        inv_advanceStepLocked inv_contextCompacted turn turn[OF _ inv_cancelActiveWork[OF inv]])
qed

section \<open>Dispatch and reachability\<close>

lemma coord_inv_restoreCheckpoint:
  "coord_inv c \<Longrightarrow> coord_inv (restoreCheckpointLocked c1 (checkpointLocked c))"
  by (auto simp: inv_defs restoreCheckpointLocked_def checkpointLocked_def)

lemma coord_inv_dispatch:
  assumes "dispatchLocked now c cmd = (c', s, r)" and inv: "coord_inv c"
  shows "coord_inv c'"
  using assms coord_inv_apply[OF _ inv] coord_inv_restoreCheckpoint[OF inv]
  by (auto simp: dispatchLocked_def Let_def split: if_splits option.splits prod.splits)

lemma coord_inv_new: "coord_inv (NewTurnCoordinator sid aid)"
  by (simp add: NewTurnCoordinator_def inv_defs inv_exec_def)

lemma coord_inv_reset: "coord_inv (resetForRestore c)"
  by (simp add: resetForRestore_def inv_defs inv_exec_def)

text \<open>What every accepted command keeps, a successful replay keeps.\<close>

lemma replay_preserves:
  assumes accepted: "\<And>c cmd c1. validateCommandLocked c cmd = None \<Longrightarrow>
      applyCommandLocked now c cmd = (c1, None) \<Longrightarrow> P c \<Longrightarrow> P c1"
    and applied: "\<And>c x. P c \<Longrightarrow> P (c\<lparr>co_appliedCommands := x\<rparr>)"
  shows "replayEvents now json_valid prev c events = (c', None) \<Longrightarrow> P c \<Longrightarrow> P c'"
proof (induction events arbitrary: prev c)
  case (Cons event events)
  from Cons.prems(1) consider "replayEvents now json_valid (te_SessionSeq event) c events = (c', None)"
    | cmd c1 where "validateCommandLocked c cmd = None" "applyCommandLocked now c cmd = (c1, None)"
        "replayEvents now json_valid (te_SessionSeq event)
           (if te_CommandID event \<noteq> [] then c1\<lparr>co_appliedCommands := Some
              (add_key (te_CommandID event) (cloneStringSet (co_appliedCommands c1)))\<rparr> else c1) events = (c', None)"
    by (auto split: if_splits sum.splits option.splits prod.splits)
  then show ?case
  proof cases
    case 2
    have "P c1" using accepted[OF 2(1,2) Cons.prems(2)] .
    then show ?thesis using Cons.IH[OF 2(3)] applied by auto
  qed (use Cons in auto)
qed simp

lemma coord_inv_replay:
  "replayEvents now json_valid prev c events = (c', None) \<Longrightarrow> coord_inv c \<Longrightarrow> coord_inv c'"
  by (rule replay_preserves[where P = coord_inv]) (auto dest: coord_inv_apply)

lemma coord_inv_Restore:
  assumes "Restore now json_valid c events = (c', r)" and "coord_inv c"
  shows "coord_inv c'"
  using assms coord_inv_replay[OF _ coord_inv_reset] coord_inv_restoreCheckpoint
  by (auto simp: Restore_def split: prod.splits option.splits)

end
