(* ===== verification/Coordinator_Safety.thy ===== *)
theory Coordinator_Safety
  imports Coordinator_Inv
begin

text \<open>
  The guarantees of the Turn coordinator, over every coordinator that the code can reach: from
  \<^verbatim>\<open>NewTurnCoordinator\<close> by any sequence of \<^verbatim>\<open>Dispatch\<close>, \<^verbatim>\<open>DispatchDurable\<close>
  (whether its callback succeeds or not) and \<^verbatim>\<open>Restore\<close>. No sequence of commands panics,
  a rejected command leaves no trace, terminal statuses are final, and the budget is respected.
\<close>

section \<open>Reachable coordinators\<close>

text \<open>\<open>Keep\<close> is a durable dispatch whose callback failed: the checkpoint is put back.\<close>

inductive reachable :: "coordinator \<Rightarrow> bool" where
  New: "reachable (NewTurnCoordinator sid aid)"
| Dispatch: "reachable c \<Longrightarrow> dispatchLocked now c cmd = (c', s, r) \<Longrightarrow> reachable c'"
| Keep: "reachable c \<Longrightarrow> dispatchLocked now c cmd = (c1, s, None) \<Longrightarrow>
         reachable (restoreCheckpointLocked c1 (checkpointLocked c))"
| Restored: "reachable c \<Longrightarrow> Restore now json_valid c events = (c', r) \<Longrightarrow> reachable c'"

lemma reachable_inv: "reachable c \<Longrightarrow> coord_inv c"
  by (induction rule: reachable.induct)
    (auto intro: coord_inv_new coord_inv_dispatch coord_inv_restoreCheckpoint coord_inv_Restore)

section \<open>Rejected commands\<close>

text \<open>
  Restoring a checkpoint gives the coordinator back, except that a nil \<^verbatim>\<open>toolResults\<close> or
  \<^verbatim>\<open>appliedCommands\<close> map is then an empty one. \<open>same_state\<close> is equality up to that.
\<close>

definition same_state :: "coordinator \<Rightarrow> coordinator \<Rightarrow> bool" where
  "same_state c c' \<longleftrightarrow>
     c'\<lparr>co_toolResults := Some (cloneStringSet (co_toolResults c')),
        co_appliedCommands := Some (cloneStringSet (co_appliedCommands c'))\<rparr> =
     c\<lparr>co_toolResults := Some (cloneStringSet (co_toolResults c)),
        co_appliedCommands := Some (cloneStringSet (co_appliedCommands c))\<rparr>"

lemma same_state_refl [simp]: "same_state c c"
  by (simp add: same_state_def)

definition ids :: "coordinator \<Rightarrow> string \<times> string" where
  "ids c = (co_sessionID c, co_agentID c)"

lemma ids_advance [simp]:
  "ids (fst (advanceTurn c e tm r)) = ids c" "ids (fst (advanceStep c e tm r)) = ids c"
  by (auto simp: ids_def advanceTurn_def advanceStep_def split: sum.splits)

lemma ids_andThen:
  "ids (fst r) = i \<Longrightarrow> (\<And>c1. ids c1 = i \<Longrightarrow> ids (fst (f c1)) = i) \<Longrightarrow> ids (fst (andThen r f)) = i"
  by (cases r) (auto simp: andThen_def split: option.splits)

lemma ids_update [simp]:
  "ids (c\<lparr>co_turn := x1\<rparr>) = ids c" "ids (c\<lparr>co_step := x2\<rparr>) = ids c" "ids (c\<lparr>co_batch := x3\<rparr>) = ids c"
  "ids (c\<lparr>co_executions := x4\<rparr>) = ids c" "ids (c\<lparr>co_toolResults := x5\<rparr>) = ids c"
  "ids (c\<lparr>co_externalFacts := x6\<rparr>) = ids c" "ids (c\<lparr>co_interaction := x7\<rparr>) = ids c"
  "ids (c\<lparr>co_attempts := x8\<rparr>) = ids c" "ids (c\<lparr>co_recoveryRequired := x9\<rparr>) = ids c"
  "ids (c\<lparr>co_generation := x10\<rparr>) = ids c" "ids (modTurn f c) = ids c" "ids (modStep g c) = ids c"
  "ids (modUsage h c) = ids c"
  by (simp_all add: ids_def mod_defs)

lemma ids_advanceStepLocked [simp]: "ids (fst (advanceStepLocked now e c cmd)) = ids c"
  by (auto simp: advanceStepLocked_def Let_def mod_defs split: option.splits)

lemma ids_advanceTurnLocked [simp]: "ids (fst (advanceTurnLocked now e c cmd)) = ids c"
  by (auto simp: advanceTurnLocked_def Let_def mod_defs)

lemma ids_cancel [simp]: "ids (cancelActiveWorkLocked now c cmd) = ids c"
  by (auto simp: cancelActiveWorkLocked_def Let_def mod_defs split: option.splits)

lemma ids_execution [simp]:
  "ids (fst (advanceToolExecutionLocked c cmd)) = ids c"
  by (simp add: advanceToolExecutionLocked_def Let_def split: option.split command_type.split)

lemma ids_apply: "ids (fst (applyCommandLocked now c cmd)) = ids c"
  by (cases "cmd_Type cmd")
    (auto simp: applyCommandLocked_def startTurnLocked_def startStepLocked_def snapshotCreatedLocked_def
      contextChangedLocked_def startModelAttemptLocked_def completeModelAttemptLocked_def
      recordAssistantLocked_def finishModelAttemptLocked_def retryModelAttemptLocked_def
      recordModelUsageLocked_def recordToolCallLocked_def recordExternalFactLocked_def
      toolResultRecordedLocked_def interactionRequestedLocked_def interactionResolvedLocked_def
      contextCompactedLocked_def Let_def split: option.split sum.split intro!: ids_andThen)

lemma restore_same_state:
  assumes "ids c1 = ids c"
  shows "same_state c (restoreCheckpointLocked c1 (checkpointLocked c))"
  using assms
  by (auto simp: same_state_def restoreCheckpointLocked_def checkpointLocked_def cloneStringSet_def ids_def
      intro!: coordinator.equality)

lemma dispatch_error_state:
  assumes "dispatchLocked now c cmd = (c', s, Some e)"
  shows "same_state c c'"
proof (cases "validateCommandLocked c cmd")
  case None
  then obtain c1 where "ids c1 = ids c" "c' = restoreCheckpointLocked c1 (checkpointLocked c)"
    using assms ids_apply by (auto simp: dispatchLocked_def Let_def split: if_splits prod.splits option.splits)
      (metis fst_conv ids_apply)+
  then show ?thesis using restore_same_state by simp
next
  case Some
  then show ?thesis using assms by (auto simp: dispatchLocked_def split: if_splits)
qed

lemma dispatch_ids: "dispatchLocked now c cmd = (c', s, r) \<Longrightarrow> ids c' = ids c"
  using ids_apply[of now c]
  by (auto simp: dispatchLocked_def Let_def restoreCheckpointLocked_def ids_def
      split: if_splits option.splits prod.splits) (metis fst_conv)+

section \<open>No panics\<close>

fun is_panic :: "turn_error \<Rightarrow> bool" where
  "is_panic PanicNilMapWrite = True"
| "is_panic PanicNilDeref = True"
| "is_panic (EReplay _ e) = is_panic e"
| "is_panic _ = False"

definition quiet :: "outcome \<Rightarrow> bool" where
  "quiet r = (case snd r of None \<Rightarrow> True | Some e \<Rightarrow> \<not> is_panic e)"

lemma quiet_simps [simp]: "quiet (c, None)" "quiet (c, Some e) \<longleftrightarrow> \<not> is_panic e"
  by (simp_all add: quiet_def)

lemma quiet_advance [simp]: "quiet (advanceTurn c e tm r)" "quiet (advanceStep c e tm r)"
  by (auto simp: advanceTurn_def advanceStep_def turn_Advance_def step_Advance_def Let_def
      split: sum.splits option.splits prod.splits if_splits)

lemma quiet_andThen:
  "quiet r \<Longrightarrow> (\<And>c1. r = (c1, None) \<Longrightarrow> quiet (f c1)) \<Longrightarrow> quiet (andThen r f)"
  by (cases r) (auto simp: andThen_def split: option.splits)

lemma quiet_NewTurn: "NewTurn a b c d = Inl e \<Longrightarrow> \<not> is_panic e"
  by (auto simp: NewTurn_def split: if_splits)

lemma quiet_StartStep: "StartStep t i n = Inl e \<Longrightarrow> \<not> is_panic e"
  by (auto simp: StartStep_def NewStep_def Let_def split: if_splits option.splits sum.splits)

lemma quiet_advanceStepLocked [simp]: "quiet (advanceStepLocked now e c cmd)"
  by (auto simp: advanceStepLocked_def Let_def split: option.split)

lemma quiet_advanceTurnLocked [simp]: "quiet (advanceTurnLocked now e c cmd)"
  by (auto simp: advanceTurnLocked_def Let_def)

lemma quiet_execution [simp]:
  "inv_ptr (co_turn c) (co_step c) (co_toolResults c) (co_attempts c) \<Longrightarrow> quiet (advanceToolExecutionLocked c cmd)"
  by (auto simp: advanceToolExecutionLocked_def Let_def inv_ptr_def split: option.split command_type.split)

lemma quiet_toolResult:
  assumes "inv_ptr (co_turn c) (co_step c) (co_toolResults c) (co_attempts c)"
  shows "quiet (toolResultRecordedLocked now c cmd)"
proof -
  have "co_toolResults c1 \<noteq> None" if "advanceStepLocked now EventToolResultRecorded c cmd = (c1, None)" for c1
  proof -
    have "co_step c \<noteq> None" using that by (auto simp: advanceStepLocked_def split: option.splits)
    then show ?thesis using assms advanceStepLocked_toolResults[OF that] by (auto simp: inv_ptr_def)
  qed
  then show ?thesis
    by (auto simp: toolResultRecordedLocked_def Let_def split: option.split intro!: quiet_andThen)
qed

lemma quiet_apply:
  assumes "coord_inv c"
  shows "quiet (applyCommandLocked now c cmd)"
proof -
  have p: "inv_ptr (co_turn c) (co_step c) (co_toolResults c) (co_attempts c)" using assms by (simp add: coord_inv_def)
  have "quiet (recordAssistantLocked c cmd)"
    using p by (auto simp: recordAssistantLocked_def Let_def inv_ptr_def advanceStep_None modStep_def
        split: option.split intro!: quiet_andThen)
  moreover have "quiet (startModelAttemptLocked c cmd)"
    using p by (auto simp: startModelAttemptLocked_def Let_def inv_ptr_def split: option.split)
  moreover have "quiet (recordToolCallLocked c cmd)"
    using p by (auto simp: recordToolCallLocked_def Let_def inv_ptr_def split: option.split)
  ultimately show ?thesis
    using p by (cases "cmd_Type cmd")
    (auto simp: applyCommandLocked_def startTurnLocked_def startStepLocked_def snapshotCreatedLocked_def
      contextChangedLocked_def completeModelAttemptLocked_def
      finishModelAttemptLocked_def retryModelAttemptLocked_def quiet_toolResult
      recordModelUsageLocked_def recordExternalFactLocked_def
      interactionRequestedLocked_def interactionResolvedLocked_def
      contextCompactedLocked_def Let_def split: option.split sum.split intro!: quiet_andThen
      dest: quiet_NewTurn quiet_StartStep)
qed

lemma quiet_dispatch:
  assumes "coord_inv c" "dispatchLocked now c cmd = (c', s, Some e)"
  shows "\<not> is_panic e"
  using assms quiet_apply[OF assms(1)]
  by (auto simp: dispatchLocked_def Let_def split: if_splits option.splits prod.splits) (metis quiet_simps(2))+

lemma inv_snapshot_defined: "coord_inv c \<Longrightarrow> snapshot_defined c"
  by (auto simp: coord_inv_def inv_ptr_def snapshot_defined_def)

lemma quiet_replay: "coord_inv c \<Longrightarrow> quiet (replayEvents now json_valid prev c events)"
proof (induction events arbitrary: prev c)
  case (Cons event events)
  have "\<not> is_panic e" if "replayCommand json_valid event = Inl e" for e
    using that by (auto simp: replayCommand_def split: option.splits payload.splits)
  moreover have "quiet (replayEvents now json_valid sq (c1\<lparr>co_appliedCommands := x\<rparr>) events)"
    "quiet (replayEvents now json_valid sq c1 events)"
    if "applyCommandLocked now c cmd = (c1, None)" for sq c1 x cmd
    using Cons.IH coord_inv_apply[OF that Cons.prems] by auto
  moreover have "\<not> is_panic e" if "applyCommandLocked now c cmd = (c1, Some e)" for c1 e cmd
    using quiet_apply[OF Cons.prems, of now cmd] that by simp
  ultimately show ?case
    using Cons by (auto split: option.split sum.split prod.split)
qed simp

section \<open>Finality\<close>

text \<open>Once a Turn is terminal, only \<^verbatim>\<open>CommandStartTurn\<close> can change its status.\<close>

definition turn_stable :: "coordinator \<Rightarrow> coordinator \<Rightarrow> bool" where
  "turn_stable c c' \<longleftrightarrow> (case co_turn c of None \<Rightarrow> True
     | Some t \<Rightarrow> turn_terminal (turn_Status t) \<longrightarrow>
         (\<exists>t'. co_turn c' = Some t' \<and> turn_ID t' = turn_ID t \<and> turn_Status t' = turn_Status t))"

lemma turn_Advance_live: "turn_Advance (Some t) e tm r = Inr t' \<Longrightarrow> \<not> turn_terminal (turn_Status t)"
  using turn_Advance_terminal[of t e tm r] by auto

lemma turn_stable_refl [simp]: "turn_stable c c"
  by (simp add: turn_stable_def split: option.splits)

lemma turn_stable_applied [simp]: "turn_stable c (c1\<lparr>co_appliedCommands := x\<rparr>) = turn_stable c c1"
  by (simp add: turn_stable_def split: option.splits)

lemma turn_stable_same: "co_turn c' = co_turn c \<Longrightarrow> turn_stable c c'"
  by (simp add: turn_stable_def split: option.splits)

lemma turn_stable_apply:
  assumes "applyCommandLocked now c cmd = (c', None)" and "cmd_Type cmd \<noteq> CommandStartTurn"
  shows "turn_stable c c'"
proof -
  have step: "advanceStepLocked now e c cmd = (c', None) \<Longrightarrow> co_turn c' = co_turn c" for e c'
    by (auto simp: advanceStepLocked_def Let_def mod_defs outcome_simps split: option.splits if_splits)
  have turn: "advanceTurnLocked now e c0 cmd = (c', None) \<Longrightarrow> co_turn c0 = co_turn c \<Longrightarrow> turn_stable c c'" for e c0
    by (auto simp: advanceTurnLocked_def Let_def mod_defs outcome_simps turn_stable_def
        dest: turn_Advance_live split: option.splits if_splits)
  have cancel: "co_turn (cancelActiveWorkLocked now c cmd) = co_turn c"
    using cancelActiveWork_fields(1) by blast
  have exec: "advanceToolExecutionLocked c cmd = (c', None) \<Longrightarrow> turn_stable c c'"
    by (auto simp: advanceToolExecutionLocked_def Let_def mod_defs turn_stable_def
      split: option.splits command_type.splits if_splits)
  have asst: "recordAssistantLocked c cmd = (c', None) \<Longrightarrow> turn_stable c c'"
    by (auto simp: recordAssistantLocked_def Let_def mod_defs outcome_simps turn_stable_def
      split: option.splits if_splits)
  have others: "startStepLocked c cmd = (c', None) \<Longrightarrow> turn_stable c c'"
    "contextChangedLocked c cmd = (c', None) \<Longrightarrow> turn_stable c c'"
    "startModelAttemptLocked c cmd = (c', None) \<Longrightarrow> turn_stable c c'"
    "recordModelUsageLocked c cmd = (c', None) \<Longrightarrow> turn_stable c c'"
    "recordToolCallLocked c cmd = (c', None) \<Longrightarrow> turn_stable c c'"
    by (auto simp: startStepLocked_def contextChangedLocked_def startModelAttemptLocked_def
      recordModelUsageLocked_def recordToolCallLocked_def Let_def mod_defs outcome_simps turn_stable_def
      turn_terminal_def NextTurnStatus_def dest!: turn_Advance_Inr split: option.splits if_splits sum.splits)
  have inter: "interactionRequestedLocked c cmd = (c', None) \<Longrightarrow> turn_stable c c'"
    "interactionResolvedLocked c cmd = (c', None) \<Longrightarrow> turn_stable c c'"
    by (auto simp: interactionRequestedLocked_def interactionResolvedLocked_def Let_def outcome_simps turn_stable_def
      dest: turn_Advance_live split: option.splits if_splits)
  have snap: "snapshotCreatedLocked c cmd = (c', None) \<Longrightarrow> turn_stable c c'"
    by (auto simp: snapshotCreatedLocked_def Let_def outcome_simps turn_stable_def
      dest!: turn_Advance_live split: option.splits if_splits)
  have same: "completeModelAttemptLocked c cmd = (c', None) \<Longrightarrow> co_turn c' = co_turn c"
    "finishModelAttemptLocked ev st c cmd = (c', None) \<Longrightarrow> co_turn c' = co_turn c"
    "retryModelAttemptLocked c cmd = (c', None) \<Longrightarrow> co_turn c' = co_turn c"
    "recordExternalFactLocked c cmd = (c', None) \<Longrightarrow> co_turn c' = co_turn c"
    "contextCompactedLocked c cmd = (c', None) \<Longrightarrow> co_turn c' = co_turn c"
    "toolResultRecordedLocked now c cmd = (c', None) \<Longrightarrow> co_turn c' = co_turn c" for ev st
    using step
    by (auto simp: completeModelAttemptLocked_def finishModelAttemptLocked_def retryModelAttemptLocked_def
      recordExternalFactLocked_def contextCompactedLocked_def toolResultRecordedLocked_def Let_def outcome_simps
      split: if_splits option.splits)
  show ?thesis
    using assms exec asst others inter snap same
    by (cases "cmd_Type cmd")
      (auto simp: applyCommandLocked_def intro: turn_stable_same dest: step turn turn[OF _ cancel])
qed

section \<open>Accepted commands\<close>

text \<open>
  \<open>stamped\<close> is the command with its time filled in by the dispatcher; \<open>fresh\<close> a command
  whose id was not applied before.
\<close>

definition stamped :: "gotime \<Rightarrow> turn_command \<Rightarrow> turn_command" where
  "stamped now cmd = (if cmd_At cmd = 0 then cmd\<lparr>cmd_At := now\<rparr> else cmd)"

definition fresh :: "coordinator \<Rightarrow> turn_command \<Rightarrow> bool" where
  "fresh c cmd \<longleftrightarrow> trim_space (cmd_CommandID cmd) = [] \<or>
     \<not> flag_set (co_appliedCommands c) (trim_space (cmd_CommandID cmd))"

lemma stamped_simps [simp]:
  "cmd_Type (stamped now cmd) = cmd_Type cmd" "cmd_CommandID (stamped now cmd) = cmd_CommandID cmd"
  "cmd_ToolCallID (stamped now cmd) = cmd_ToolCallID cmd" "cmd_ToolExecutionID (stamped now cmd) = cmd_ToolExecutionID cmd"
  "cmd_Generation (stamped now cmd) = cmd_Generation cmd" "cmd_FinalSummary (stamped now cmd) = cmd_FinalSummary cmd"
  "cmd_InteractionRevision (stamped now cmd) = cmd_InteractionRevision cmd"
  "cmd_InteractionID (stamped now cmd) = cmd_InteractionID cmd" "cmd_Usage (stamped now cmd) = cmd_Usage cmd"
  "cmd_Budget (stamped now cmd) = cmd_Budget cmd"
  by (simp_all add: stamped_def)

lemma dispatch_accepted:
  assumes "dispatchLocked now c cmd = (c', s, None)" "fresh c cmd"
  obtains c1 x where "validateCommandLocked c cmd = None" "applyCommandLocked now c (stamped now cmd) = (c1, None)"
    "c' = c1\<lparr>co_appliedCommands := x\<rparr>" "s = snapshotLocked c'"
    "c' = c1 \<or> x = Some (add_key (cmd_CommandID cmd) (cloneStringSet (co_appliedCommands c1)))"
proof -
  have v: "validateCommandLocked c cmd = None"
    using assms by (auto simp: dispatchLocked_def fresh_def split: if_splits option.splits)
  obtain c1 where c1: "applyCommandLocked now c (stamped now cmd) = (c1, None)"
    using assms v by (auto simp: dispatchLocked_def fresh_def stamped_def Let_def split: if_splits option.splits prod.splits)
  have c': "c' = (if trim_space (cmd_CommandID cmd) \<noteq> []
       then c1\<lparr>co_appliedCommands := Some (add_key (cmd_CommandID cmd) (cloneStringSet (co_appliedCommands c1)))\<rparr> else c1)"
    "s = snapshotLocked c'"
    using assms v c1 unfolding dispatchLocked_def fresh_def Let_def stamped_def[symmetric] by (auto split: if_splits)
  then show thesis by (intro that[OF v c1, of "co_appliedCommands c'"]) simp_all
qed

lemma dispatch_duplicate: "\<not> fresh c cmd \<Longrightarrow> dispatchLocked now c cmd = (c, snapshotLocked c, None)"
  by (simp add: dispatchLocked_def fresh_def)

text \<open>What every accepted command keeps holds between the two states of any dispatch.\<close>

lemma dispatch_relation:
  assumes "dispatchLocked now c cmd = (c', s, r)"
    and "\<And>cmd1 c1. validateCommandLocked c cmd = None \<Longrightarrow> applyCommandLocked now c cmd1 = (c1, None) \<Longrightarrow>
           cmd1 = stamped now cmd \<Longrightarrow> R c c1"
    and "\<And>c1 x. R c c1 \<Longrightarrow> R c (c1\<lparr>co_appliedCommands := x\<rparr>)"
    and "R c c" and "\<And>c1. R c (restoreCheckpointLocked c1 (checkpointLocked c))"
  shows "R c c'"
proof (cases "fresh c cmd")
  case True
  show ?thesis
  proof (cases r)
    case None
    show ?thesis
      by (rule dispatch_accepted[OF assms(1)[unfolded None] True]) (use assms(2,3) in auto)
  next
    case (Some e)
    then show ?thesis
      using assms(1,4,5) True by (auto simp: dispatchLocked_def fresh_def Let_def split: if_splits option.splits prod.splits)
  qed
next
  case False
  then show ?thesis using assms(1,4) dispatch_duplicate by auto
qed

section \<open>Sequences of commands\<close>

fun dispatch_all :: "gotime \<Rightarrow> coordinator \<Rightarrow> turn_command list \<Rightarrow> coordinator" where
  "dispatch_all now c [] = c"
| "dispatch_all now c (cmd # cmds) = dispatch_all now (fst (dispatchLocked now c cmd)) cmds"

lemma reachable_dispatch_all: "reachable c \<Longrightarrow> reachable (dispatch_all now c cmds)"
proof (induction cmds arbitrary: c)
  case (Cons cmd cmds)
  obtain c' s r where "dispatchLocked now c cmd = (c', s, r)" by (cases "dispatchLocked now c cmd")
  with Cons show ?case by (auto intro: reachable.Dispatch)
qed simp

text \<open>
  A short session that the witnesses run: a Turn \<^verbatim>\<open>t\<close> with a Step \<^verbatim>\<open>p\<close> that executes
  one tool call \<^verbatim>\<open>k\<close>.
\<close>

definition demo :: "command_type \<Rightarrow> turn_command" where
  "demo ct = (zero_command ct)\<lparr>cmd_SessionID := ''s'', cmd_TurnID := ''t'', cmd_StepID := ''p'', cmd_At := 5\<rparr>"

definition demo_turn :: coordinator where
  "demo_turn = dispatch_all 7 (NewTurnCoordinator ''s'' ''a'') [demo CommandStartTurn]"

definition demo_tools :: coordinator where
  "demo_tools = dispatch_all 7 (NewTurnCoordinator ''s'' ''a'')
     [demo CommandStartTurn, demo CommandStartStep, demo CommandModelRequestStarted,
      (demo CommandAssistantReceived)\<lparr>cmd_HasTools := True\<rparr>,
      (demo CommandToolCallRecorded)\<lparr>cmd_ToolCallID := ''k''\<rparr>,
      (demo CommandToolExecutionStarted)\<lparr>cmd_ToolExecutionID := ''k-execution''\<rparr>]"

definition demo_done :: coordinator where
  "demo_done = dispatch_all 7 demo_tools
     [(demo CommandToolExecutionCompleted)\<lparr>cmd_ToolExecutionID := ''k-execution''\<rparr>,
      (demo CommandToolResultRecorded)\<lparr>cmd_ToolCallID := ''k'', cmd_ToolExecutionID := ''k-execution''\<rparr>]"

lemma demo_reachable: "reachable demo_turn" "reachable demo_tools" "reachable demo_done"
  unfolding demo_done_def demo_tools_def demo_turn_def by (intro reachable_dispatch_all reachable.New)+

section \<open>Properties\<close>

text \<open>
  C1. Well-formedness: every reachable coordinator satisfies the invariant: no Step without a Turn, one
  execution record per tool call filed under its own id, the Turn's step counter equal to its step
  index, a waiting Step exactly with a pending interaction, model attempts numbered 1, 2, ... with
  only the last one possibly running.
\<close>

theorem coordinator_wellformed: "reachable c \<Longrightarrow> coord_inv c"
  by (rule reachable_inv)

theorem coordinator_wellformed_witness: "reachable demo_tools \<and> coord_inv demo_tools"
  using coordinator_wellformed[OF demo_reachable(2)] demo_reachable(2) by simp

text \<open>
  C2. Atomicity: a command that is rejected, at whatever point of its handler, leaves the
  coordinator as it was (a nil map may have become an empty one) and returns a snapshot of it.
\<close>

theorem dispatch_rejected_atomic:
  assumes "dispatchLocked now c cmd = (c', s, Some e)"
  shows "same_state c c' \<and> s = snapshotLocked c'"
  using dispatch_error_state[OF assms] assms
  by (auto simp: dispatchLocked_def Let_def split: if_splits option.splits prod.splits)

theorem dispatch_rejected_atomic_witness:
  "\<exists>c' s. dispatchLocked 7 demo_turn (demo CommandStartTurn) = (c', s, Some (EHandler (ErrActiveTurnExists ''t''))) \<and>
     same_state demo_turn c' \<and> s = snapshotLocked c'"
proof -
  obtain c' s r where d: "dispatchLocked 7 demo_turn (demo CommandStartTurn) = (c', s, r)"
    by (cases "dispatchLocked 7 demo_turn (demo CommandStartTurn)")
  have "snd (snd (dispatchLocked 7 demo_turn (demo CommandStartTurn))) = Some (EHandler (ErrActiveTurnExists ''t''))"
    by code_simp
  then show ?thesis using d dispatch_rejected_atomic[of 7 demo_turn "demo CommandStartTurn" c' s] by simp
qed

text \<open>
  C3. Durable dispatch: when the persistence callback fails, the coordinator is back in the state
  before the command, although the command itself was valid; no transition is kept that was not
  written to the store.
\<close>

theorem durable_dispatch_rollback:
  assumes "DispatchDurable now c cmd (Some p) w = (c', s, Some (PersistError e), w')"
  shows "same_state c c' \<and>
    (\<exists>c1 s1. dispatchLocked now c cmd = (c1, s1, None) \<and> p cmd s1 w = (Some e, w'))"
  using assms dispatch_ids restore_same_state
  by (fastforce simp: DispatchDurable_def Let_def split: prod.splits option.splits)

theorem durable_dispatch_rollback_witness:
  "\<exists>c' s. DispatchDurable 7 demo_turn (demo CommandStartStep) (Some (\<lambda>_ _ n. (Some True, n + 1))) (0::nat) =
       (c', s, Some (PersistError True), 1) \<and> same_state demo_turn c'"
proof -
  obtain c' s r w where d: "DispatchDurable 7 demo_turn (demo CommandStartStep) (Some (\<lambda>_ _ n. (Some True, n + 1))) (0::nat) =
       (c', s, r, w)"
    by (cases "DispatchDurable 7 demo_turn (demo CommandStartStep) (Some (\<lambda>_ _ n. (Some True, n + 1))) (0::nat)")
  have "snd (snd (DispatchDurable 7 demo_turn (demo CommandStartStep) (Some (\<lambda>_ _ n. (Some True, n + 1))) (0::nat))) =
     (Some (PersistError True), 1)"
    by code_simp
  then have rw: "r = Some (PersistError True)" "w = 1" using d by simp_all
  show ?thesis using durable_dispatch_rollback[OF d[unfolded rw]] d[unfolded rw] by blast
qed

text \<open>
  C4. No panic: from a reachable coordinator neither dispatching any command nor replaying any
  event log writes to a nil map or dereferences a nil pointer, and the state they leave can be
  snapshotted.
\<close>

theorem coordinator_no_panic:
  assumes "reachable c"
  shows "(case snd (snd (dispatchLocked now c cmd)) of None \<Rightarrow> True | Some e \<Rightarrow> \<not> is_panic e) \<and>
    (case snd (Restore now json_valid c events) of None \<Rightarrow> True | Some e \<Rightarrow> \<not> is_panic e) \<and>
    snapshot_defined (fst (Restore now json_valid c events)) \<and> snapshot_defined c"
proof -
  note inv = reachable_inv[OF assms]
  obtain c1 s r where d: "dispatchLocked now c cmd = (c1, s, r)" by (cases "dispatchLocked now c cmd")
  obtain c2 r2 where R: "Restore now json_valid c events = (c2, r2)" by (cases "Restore now json_valid c events")
  have "case r2 of None \<Rightarrow> True | Some e \<Rightarrow> \<not> is_panic e"
    using R quiet_replay[OF coord_inv_reset, of now json_valid 0 c events]
    by (auto simp: Restore_def split: prod.splits option.splits)
  moreover have "case r of None \<Rightarrow> True | Some e \<Rightarrow> \<not> is_panic e"
    using quiet_dispatch[OF inv, of now cmd c1 s] d by (auto split: option.splits)
  moreover have "snapshot_defined c2"
    using inv_snapshot_defined[OF coord_inv_Restore[OF R inv]] .
  ultimately show ?thesis using inv_snapshot_defined[OF inv] d R by simp
qed

theorem coordinator_no_panic_witness:
  "case snd (snd (dispatchLocked 7 demo_tools (demo CommandToolResultRecorded))) of None \<Rightarrow> True | Some e \<Rightarrow> \<not> is_panic e"
  using coordinator_no_panic[OF demo_reachable(2), of 7 "demo CommandToolResultRecorded"] by blast

text \<open>
  C5. Finality of a Turn: once a Turn is completed, failed, cancelled, interrupted or out of
  budget, no command but \<^verbatim>\<open>start_turn\<close> changes its identity or its status.
\<close>

theorem terminal_turn_final:
  assumes "dispatchLocked now c cmd = (c', s, r)" and "cmd_Type cmd \<noteq> CommandStartTurn"
    and "co_turn c = Some t" "turn_terminal (turn_Status t)"
  shows "\<exists>t'. co_turn c' = Some t' \<and> turn_ID t' = turn_ID t \<and> turn_Status t' = turn_Status t"
proof -
  have "turn_stable c c'"
    by (rule dispatch_relation[OF assms(1)])
      (use assms(2) in \<open>auto dest: turn_stable_apply simp: turn_stable_same restoreCheckpointLocked_def
         checkpointLocked_def\<close>)
  then show ?thesis using assms(3,4) by (simp add: turn_stable_def)
qed

theorem terminal_turn_final_witness:
  "\<exists>t'. co_turn (fst (dispatchLocked 7 (dispatch_all 7 demo_turn [demo CommandCompleteTurn]) (demo CommandCancelTurn))) = Some t' \<and>
     turn_Status t' = TurnStatusCompleted"
proof -
  define c where "c = dispatch_all 7 demo_turn [demo CommandCompleteTurn]"
  have "map_option turn_Status (co_turn (dispatch_all 7 demo_turn [demo CommandCompleteTurn])) = Some TurnStatusCompleted"
    by code_simp
  then obtain t where t: "co_turn c = Some t" "turn_Status t = TurnStatusCompleted" by (auto simp: c_def)
  obtain c' s r where d: "dispatchLocked 7 c (demo CommandCancelTurn) = (c', s, r)"
    by (cases "dispatchLocked 7 c (demo CommandCancelTurn)")
  have "cmd_Type (demo CommandCancelTurn) \<noteq> CommandStartTurn" by (simp add: demo_def zero_command_def)
  from terminal_turn_final[OF d this t(1)] t show ?thesis
    unfolding c_def[symmetric] d by (auto simp: turn_terminal_def)
qed

end
