(* ===== verification/Coordinator_Exec.thy ===== *)
theory Coordinator_Exec
  imports Coordinator_Safety
begin

text \<open>
  Tool executions: what a command may do to the records of a Step's tool batch. \<open>exec_edge\<close>
  is the state machine of one execution, which the code has only as guards spread over
  \<^verbatim>\<open>advanceToolExecutionLocked\<close> and \<^verbatim>\<open>cancelActiveWorkLocked\<close>; every accepted
  command moves every record along it. From it: results that are known are final, a batch settles
  only when every execution has a known outcome, a tool result is recorded once.
\<close>

section \<open>The execution state machine\<close>

definition known_terminal :: "tool_execution_status \<Rightarrow> bool" where
  "known_terminal s \<longleftrightarrow> execution_terminal s \<and> s \<noteq> ToolExecutionStatusUnknown"

lemma execution_terminal_simps [simp]:
  "execution_terminal ToolExecutionStatusSucceeded" "execution_terminal ToolExecutionStatusFailed"
  "execution_terminal ToolExecutionStatusUnknown" "\<not> execution_terminal ToolExecutionStatusProposed"
  "\<not> execution_terminal ToolExecutionStatusRunning"
  by (simp_all add: execution_terminal_def)

definition exec_edge :: "tool_execution_status \<Rightarrow> tool_execution_status \<Rightarrow> bool" where
  "exec_edge s s' \<longleftrightarrow>
     s' = s \<or>
     s = ToolExecutionStatusProposed \<and> (s' = ToolExecutionStatusRunning \<or> execution_terminal s') \<or>
     s = ToolExecutionStatusRunning \<and> execution_terminal s' \<or>
     s = ToolExecutionStatusFailed \<and> s' = ToolExecutionStatusRunning \<or>
     s = ToolExecutionStatusUnknown \<and> known_terminal s' \<or>
     \<not> execution_terminal s \<and> s' \<in> {ToolExecutionStatusCancelled, ToolExecutionStatusUnknown}"

definition exec_moves :: "coordinator \<Rightarrow> coordinator \<Rightarrow> bool" where
  "exec_moves c c' \<longleftrightarrow>
     (\<forall>k e. map_of (co_executions c) k = Some e \<longrightarrow>
        (\<exists>e'. map_of (co_executions c') k = Some e' \<and> ex_ID e' = ex_ID e \<and>
              ex_ToolCallID e' = ex_ToolCallID e \<and> ex_ToolName e' = ex_ToolName e \<and>
              ex_Arguments e' = ex_Arguments e \<and> exec_edge (ex_Status e) (ex_Status e') \<and>
              (ex_Status e \<in> {ToolExecutionStatusSucceeded, ToolExecutionStatusDenied,
                 ToolExecutionStatusCancelled, ToolExecutionStatusTimedOut} \<longrightarrow> e' = e)))"

lemma exec_moves_same: "co_executions c' = co_executions c \<Longrightarrow> exec_moves c c'"
  by (auto simp: exec_moves_def exec_edge_def)

lemma exec_moves_write:
  assumes "map_of (co_executions c) k = Some e" "co_executions c' = AList.update k e' (co_executions c)"
    and "ex_ID e' = ex_ID e" "ex_ToolCallID e' = ex_ToolCallID e" "ex_ToolName e' = ex_ToolName e"
      "ex_Arguments e' = ex_Arguments e" "exec_edge (ex_Status e) (ex_Status e')"
      "ex_Status e \<notin> {ToolExecutionStatusSucceeded, ToolExecutionStatusDenied,
         ToolExecutionStatusCancelled, ToolExecutionStatusTimedOut}"
  shows "exec_moves c c'"
  using assms by (auto simp: exec_moves_def update_conv' exec_edge_def)

text \<open>The record an effective execution command writes, per command.\<close>

lemma execution_write:
  assumes run: "advanceToolExecutionLocked c cmd = (c', None)" and ch: "c' \<noteq> c"
    and e: "map_of (co_executions c) (trim_space (cmd_ToolExecutionID cmd)) = Some e"
  shows
    "cmd_Type cmd = CommandToolExecutionStarted \<Longrightarrow> ex_Status e = ToolExecutionStatusProposed \<and>
       co_executions c' = AList.update (trim_space (cmd_ToolExecutionID cmd))
         (e\<lparr>ex_Attempt := (if ex_Attempt e + 1 = 0 then 1 else ex_Attempt e + 1),
            ex_Status := ToolExecutionStatusRunning, ex_StartedAt := cmd_At cmd\<rparr>) (co_executions c)"
    "cmd_Type cmd = CommandToolExecutionRetrying \<Longrightarrow>
       ex_Status e \<in> {ToolExecutionStatusRunning, ToolExecutionStatusFailed} \<and>
       co_executions c' = AList.update (trim_space (cmd_ToolExecutionID cmd))
         (e\<lparr>ex_Attempt := ex_Attempt e + 1, ex_Status := ToolExecutionStatusRunning,
            ex_ErrorKind := cmd_ErrorKind cmd, ex_StartedAt := cmd_At cmd\<rparr>) (co_executions c)"
    "cmd_Type cmd = CommandToolExecutionCompleted \<Longrightarrow> ex_Status e = ToolExecutionStatusRunning \<and>
       co_executions c' = AList.update (trim_space (cmd_ToolExecutionID cmd))
         (e\<lparr>ex_Status := ToolExecutionStatusSucceeded, ex_ResultRef := cmd_PayloadRef cmd,
            ex_FinishedAt := Some (cmd_At cmd)\<rparr>) (co_executions c)"
    "cmd_Type cmd = CommandToolExecutionFailed \<Longrightarrow>
       (let status = (if execution_terminal (cmd_ExecutionStatus cmd) then cmd_ExecutionStatus cmd
                      else ToolExecutionStatusFailed)
        in \<not> execution_terminal (ex_Status e) \<and>
           (status \<noteq> ToolExecutionStatusUnknown \<longrightarrow>
              ex_Status e \<in> {ToolExecutionStatusRunning, ToolExecutionStatusProposed}) \<and>
           co_executions c' = AList.update (trim_space (cmd_ToolExecutionID cmd))
             (e\<lparr>ex_Status := status, ex_ErrorKind := cmd_ErrorKind cmd,
                ex_FinishedAt := Some (cmd_At cmd)\<rparr>) (co_executions c))"
    "cmd_Type cmd = CommandToolExecutionReconciled \<Longrightarrow> ex_Status e = ToolExecutionStatusUnknown \<and>
       known_terminal (cmd_ExecutionStatus cmd) \<and>
       co_executions c' = AList.update (trim_space (cmd_ToolExecutionID cmd))
         (e\<lparr>ex_Status := cmd_ExecutionStatus cmd, ex_ErrorKind := cmd_ErrorKind cmd,
            ex_ResultRef := cmd_PayloadRef cmd, ex_FinishedAt := Some (cmd_At cmd)\<rparr>) (co_executions c)"
    "cmd_Type cmd \<in> {CommandToolExecutionStarted, CommandToolExecutionRetrying, CommandToolExecutionCompleted,
       CommandToolExecutionFailed, CommandToolExecutionReconciled}"
  using run ch e unfolding advanceToolExecutionLocked_def Let_def
  by (auto simp: known_terminal_def mod_defs split: command_type.splits if_splits)

lemma exec_moves_execution:
  assumes run: "advanceToolExecutionLocked c cmd = (c', None)"
  shows "exec_moves c c'"
proof (cases "c' = c")
  case False
  obtain e where e: "map_of (co_executions c) (trim_space (cmd_ToolExecutionID cmd)) = Some e"
    using run by (auto simp: advanceToolExecutionLocked_def Let_def split: option.splits if_splits)
  note w = execution_write[OF run False e]
  from w(6) consider "cmd_Type cmd = CommandToolExecutionStarted" | "cmd_Type cmd = CommandToolExecutionRetrying"
    | "cmd_Type cmd = CommandToolExecutionCompleted" | "cmd_Type cmd = CommandToolExecutionFailed"
    | "cmd_Type cmd = CommandToolExecutionReconciled" by blast
  then show ?thesis
  proof cases
    case 1
    show ?thesis
      by (rule exec_moves_write[OF e conjunct2[OF w(1)[OF 1]]]) (use w(1)[OF 1] in \<open>auto simp: exec_edge_def\<close>)
  next
    case 2
    show ?thesis
      by (rule exec_moves_write[OF e conjunct2[OF w(2)[OF 2]]]) (use w(2)[OF 2] in \<open>auto simp: exec_edge_def\<close>)
  next
    case 3
    show ?thesis
      by (rule exec_moves_write[OF e conjunct2[OF w(3)[OF 3]]]) (use w(3)[OF 3] in \<open>auto simp: exec_edge_def\<close>)
  next
    case 4
    note w4 = w(4)[OF 4, unfolded Let_def]
    show ?thesis
      by (rule exec_moves_write[OF e conjunct2[OF conjunct2[OF w4]]])
        (use w4 in \<open>auto simp: exec_edge_def execution_terminal_def split: if_splits\<close>)
  next
    case 5
    note w5 = w(5)[OF 5]
    show ?thesis
      by (rule exec_moves_write[OF e conjunct2[OF conjunct2[OF w5]]]) (use w5 in \<open>auto simp: exec_edge_def\<close>)
  qed
qed (simp add: exec_moves_same)

lemma exec_moves_cancel:
  "co_executions c' = co_executions (cancelActiveWorkLocked now c cmd) \<Longrightarrow> exec_moves c c'"
proof -
  assume c': "co_executions c' = co_executions (cancelActiveWorkLocked now c cmd)"
  have "co_executions (cancelActiveWorkLocked now c cmd) = map_values
     (\<lambda>e. if execution_terminal (ex_Status e) then e
          else e\<lparr>ex_Status := ToolExecutionStatusCancelled, ex_ErrorKind := ''cancelled_by_turn'',
                 ex_FinishedAt := Some (if cmd_At cmd = 0 then now else cmd_At cmd)\<rparr>) (co_executions c)"
    by (auto simp: cancelActiveWorkLocked_def Let_def mod_defs advanceStep_def split: option.splits sum.splits)
  then show ?thesis unfolding exec_moves_def c' by (auto simp: exec_edge_def execution_terminal_def)
qed

lemma advanceStepLocked_execs: "advanceStepLocked now e c cmd = (c', r) \<Longrightarrow> co_executions c' = co_executions c"
  by (auto simp: advanceStepLocked_def Let_def mod_defs advanceStep_def split: option.splits if_splits sum.splits)

lemma advanceTurnLocked_execs: "advanceTurnLocked now e c cmd = (c', r) \<Longrightarrow> co_executions c' = co_executions c"
  by (auto simp: advanceTurnLocked_def Let_def mod_defs advanceTurn_def split: option.splits if_splits sum.splits)

lemma exec_moves_apply:
  assumes "applyCommandLocked now c cmd = (c', None)"
    and "cmd_Type cmd \<notin> {CommandStartStep, CommandToolCallRecorded}"
  shows "exec_moves c c'"
proof -
  have same: "startTurnLocked c cmd = (c', None) \<Longrightarrow> co_executions c' = co_executions c"
    "snapshotCreatedLocked c cmd = (c', None) \<Longrightarrow> co_executions c' = co_executions c"
    "contextChangedLocked c cmd = (c', None) \<Longrightarrow> co_executions c' = co_executions c"
    "startModelAttemptLocked c cmd = (c', None) \<Longrightarrow> co_executions c' = co_executions c"
    "recordModelUsageLocked c cmd = (c', None) \<Longrightarrow> co_executions c' = co_executions c"
    "completeModelAttemptLocked c cmd = (c', None) \<Longrightarrow> co_executions c' = co_executions c"
    "finishModelAttemptLocked ev st c cmd = (c', None) \<Longrightarrow> co_executions c' = co_executions c"
    "retryModelAttemptLocked c cmd = (c', None) \<Longrightarrow> co_executions c' = co_executions c"
    "recordExternalFactLocked c cmd = (c', None) \<Longrightarrow> co_executions c' = co_executions c"
    "contextCompactedLocked c cmd = (c', None) \<Longrightarrow> co_executions c' = co_executions c" for ev st
    by (auto simp: startTurnLocked_def snapshotCreatedLocked_def contextChangedLocked_def
      startModelAttemptLocked_def recordModelUsageLocked_def completeModelAttemptLocked_def
      finishModelAttemptLocked_def retryModelAttemptLocked_def recordExternalFactLocked_def
      contextCompactedLocked_def Let_def outcome_simps split: if_splits option.splits sum.splits)
  have asst: "recordAssistantLocked c cmd = (c', None) \<Longrightarrow> co_executions c' = co_executions c"
    by (auto simp: recordAssistantLocked_def Let_def mod_defs outcome_simps split: option.splits if_splits)
  have inter: "interactionRequestedLocked c cmd = (c', None) \<Longrightarrow> co_executions c' = co_executions c"
    "interactionResolvedLocked c cmd = (c', None) \<Longrightarrow> co_executions c' = co_executions c"
    by (auto simp: interactionRequestedLocked_def interactionResolvedLocked_def Let_def outcome_simps
      split: option.splits if_splits)
  have res: "toolResultRecordedLocked now c cmd = (c', None) \<Longrightarrow> co_executions c' = co_executions c"
    by (auto simp: toolResultRecordedLocked_def Let_def outcome_simps dest!: advanceStepLocked_execs
      split: option.splits if_splits)
  have "co_executions c' = co_executions c \<or> advanceToolExecutionLocked c cmd = (c', None) \<or>
      co_executions c' = co_executions (cancelActiveWorkLocked now c cmd)"
    using assms same asst inter res
    by (cases "cmd_Type cmd")
      (auto simp: applyCommandLocked_def dest: advanceStepLocked_execs advanceTurnLocked_execs)
  then show ?thesis using exec_moves_same exec_moves_execution exec_moves_cancel by blast
qed

section \<open>Batches, results and cancellation\<close>

lemma batch_settled:
  assumes "advanceStepLocked now EventToolBatchSettled c cmd = (c', None)" "co_batch c = Some b"
  shows "co_batch c' = Some (b\<lparr>batch_Status := ''settled''\<rparr>) \<and> co_executions c' = co_executions c \<and>
    (\<forall>(k, e) \<in> set (co_executions c'). known_terminal (ex_Status e)) \<and>
    (\<exists>st. co_step c' = Some st \<and> step_Status st = StepStatusReadyForNext)"
proof -
  have none: "find (\<lambda>e. \<not> execution_terminal (ex_Status e) \<or> ex_Status e = ToolExecutionStatusUnknown)
                            (map snd (co_executions c)) = None"
    using assms by (auto simp: advanceStepLocked_def Let_def split: option.splits)
  then have "\<forall>(k, e) \<in> set (co_executions c). known_terminal (ex_Status e)"
    by (auto simp: find_None_iff known_terminal_def)
  moreover obtain st where "advanceStep (c\<lparr>co_batch := Some (b\<lparr>batch_Status := ''settled''\<rparr>)\<rparr>) EventToolBatchSettled
      (cmd_At cmd) (cmd_Reason cmd) = (c', None)"
    using assms none by (auto simp: advanceStepLocked_def Let_def split: option.splits)
  ultimately show ?thesis
    by (auto simp: advanceStep_None NextStepStatus_def dest!: step_Advance_Inr split: step_status.splits)
qed

lemma step_completed:
  assumes "advanceStepLocked now EventStepCompleted c cmd = (c', None)"
  shows "(case co_batch c' of None \<Rightarrow> True | Some b \<Rightarrow> batch_Status b = ''settled'') \<and>
    (\<exists>st. co_step c' = Some st \<and> step_Status st = StepStatusCompleted)"
  using assms
  by (auto simp: advanceStepLocked_def Let_def advanceStep_None NextStepStatus_def dest!: step_Advance_Inr
      split: option.splits step_status.splits if_splits)

text \<open>Nothing of the Turn is left at work.\<close>

definition stopped :: "coordinator \<Rightarrow> bool" where
  "stopped c \<longleftrightarrow>
     (case co_step c of None \<Rightarrow> True | Some st \<Rightarrow> step_terminal (step_Status st)) \<and>
     (\<forall>(k, e) \<in> set (co_executions c). execution_terminal (ex_Status e)) \<and>
     (case co_batch c of None \<Rightarrow> True | Some b \<Rightarrow> batch_Status b \<in> {''settled'', ''cancelled''}) \<and>
     (case co_interaction c of None \<Rightarrow> True | Some i \<Rightarrow> pi_Status i \<noteq> InteractionStatusPending) \<and>
     (\<forall>a \<in> set (co_attempts c). ma_Status a \<noteq> ModelAttemptStatusRunning)"

lemma finish_not_running:
  assumes "inv_attempts (co_attempts c)"
  shows "\<forall>a \<in> set (co_attempts (finishInterruptedModelAttemptLocked now tm c)). ma_Status a \<noteq> ModelAttemptStatusRunning"
  using assms
  by (cases "co_attempts c" rule: rev_cases)
    (auto simp: finishInterruptedModelAttemptLocked_def update_last_def inv_attempts_def)

lemma cancelActiveWork_stopped:
  assumes "coord_inv c"
  shows "stopped (cancelActiveWorkLocked now c cmd)"
proof -
  define cc where "cc = cancelActiveWorkLocked now c cmd"
  note F = cancelActiveWork_fields[OF cc_def]
  define fin where "fin = (if cmd_At cmd = 0 then now else cmd_At cmd)"
  have att: "co_attempts cc = co_attempts (finishInterruptedModelAttemptLocked now fin c)"
    by (auto simp: cc_def fin_def cancelActiveWorkLocked_def Let_def advanceStep_def split: option.splits sum.splits)
  have "\<forall>a \<in> set (co_attempts cc). ma_Status a \<noteq> ModelAttemptStatusRunning"
    unfolding att by (rule finish_not_running) (use assms in \<open>simp add: coord_inv_def\<close>)
  moreover have "\<forall>(k, e) \<in> set (co_executions cc). execution_terminal (ex_Status e)"
    using F(4) by (auto simp: set_map_values)
  moreover have "case co_step cc of None \<Rightarrow> True | Some st \<Rightarrow> step_terminal (step_Status st)"
    using F(6) by (auto split: option.splits)
  moreover have "case co_batch cc of None \<Rightarrow> True | Some b \<Rightarrow> batch_Status b \<in> {''settled'', ''cancelled''}"
    by (auto simp: cc_def cancelActiveWorkLocked_def Let_def split: option.splits)
  moreover have "case co_interaction cc of None \<Rightarrow> True | Some i \<Rightarrow> pi_Status i \<noteq> InteractionStatusPending"
    by (auto simp: cc_def cancelActiveWorkLocked_def Let_def split: option.splits)
  ultimately show ?thesis unfolding cc_def[symmetric] stopped_def by simp
qed

lemma stopped_finish: "stopped c \<Longrightarrow> stopped (c\<lparr>co_turn := t\<rparr>)" "stopped c \<Longrightarrow> stopped (c\<lparr>co_appliedCommands := x\<rparr>)"
  "stopped c \<Longrightarrow> stopped (finishInterruptedModelAttemptLocked now tm c)"
  by (auto simp: stopped_def finishInterruptedModelAttemptLocked_def update_last_def dest: in_set_butlastD)

lemma cancel_apply:
  assumes inv: "coord_inv c" and t: "co_turn c = Some t" and live: "\<not> turn_terminal (turn_Status t)"
  obtains c' t' where "advanceTurnLocked now EventTurnCancelled (cancelActiveWorkLocked now c cmd) cmd = (c', None)"
    "stopped c'" "co_turn c' = Some t'" "turn_Status t' = TurnStatusCancelled" "turn_ID t' = turn_ID t"
proof -
  define c1 where "c1 = finishInterruptedModelAttemptLocked now (cmd_At cmd) (cancelActiveWorkLocked now c cmd)"
  have c1: "co_turn c1 = Some t" "stopped c1"
    using cancelActiveWork_fields(1)[OF refl, of now c cmd] t stopped_finish(3)[OF cancelActiveWork_stopped[OF inv]]
    by (simp_all add: c1_def mod_defs)
  have "NextTurnStatus (turn_Status t) EventTurnCancelled = (TurnStatusCancelled, True)"
    using live by (cases "turn_Status t") (auto simp: NextTurnStatus_def turn_terminal_def)
  then obtain t' where t': "turn_Advance (Some t) EventTurnCancelled (cmd_At cmd) (cmd_Reason cmd) = Inr t'"
    by (auto simp: turn_Advance_def Let_def)
  have st: "turn_Status t' = TurnStatusCancelled"
    using turn_Advance_Inr[OF t'] live by (auto simp: NextTurnStatus_def turn_terminal_def split: turn_status.splits)
  have "advanceTurnLocked now EventTurnCancelled (cancelActiveWorkLocked now c cmd) cmd = (c1\<lparr>co_turn := Some t'\<rparr>, None)"
    using t t' c1 cancelActiveWork_fields(1)[OF refl, of now c cmd]
    by (simp add: advanceTurnLocked_def c1_def[symmetric] advanceTurn_def)
  from that[OF this] show thesis using c1 st t' stopped_finish(1) by simp
qed

text \<open>Tool results: a new one needs a named execution with a known outcome.\<close>

definition results_grow :: "turn_command \<Rightarrow> coordinator \<Rightarrow> coordinator \<Rightarrow> bool" where
  "results_grow cmd c c' \<longleftrightarrow>
     (\<forall>x. flag_set (co_toolResults c) x \<longrightarrow> flag_set (co_toolResults c') x) \<and>
     (\<forall>x. flag_set (co_toolResults c') x \<and> \<not> flag_set (co_toolResults c) x \<longrightarrow>
        cmd_Type cmd = CommandToolResultRecorded \<and> x = trim_space (cmd_ToolCallID cmd) \<and>
        (\<exists>e. map_of (co_executions c) (trim_space (cmd_ToolExecutionID cmd)) = Some e \<and> known_terminal (ex_Status e)))"

lemma results_grow_same: "co_toolResults c' = co_toolResults c \<Longrightarrow> results_grow cmd c c'"
  by (simp add: results_grow_def)

lemma flag_set_add: "flag_set (Some (add_key k ks)) x \<longleftrightarrow> x = k \<or> flag_set (Some ks) x"
  by (auto simp: flag_set_def add_key_def)

lemma results_grow_result:
  assumes "toolResultRecordedLocked now c cmd = (c', None)" and "cmd_Type cmd = CommandToolResultRecorded"
  shows "results_grow cmd c c'"
proof (cases "c' = c")
  case False
  then obtain e c1 where e: "map_of (co_executions c) (trim_space (cmd_ToolExecutionID cmd)) = Some e" "known_terminal (ex_Status e)"
    and c1: "advanceStepLocked now EventToolResultRecorded c cmd = (c1, None)"
    and c': "c' = c1 \<or> (\<exists>ks. co_toolResults c1 = Some ks \<and>
        c' = c1\<lparr>co_toolResults := Some (add_key (trim_space (cmd_ToolCallID cmd)) ks)\<rparr>)"
    using assms by (auto simp: toolResultRecordedLocked_def Let_def andThen_None known_terminal_def
      split: if_splits option.splits)
  then show ?thesis
    using advanceStepLocked_toolResults[OF c1] assms(2) e by (auto simp: results_grow_def flag_set_add)
qed (simp add: results_grow_same)

lemma toolResults_apply:
  assumes "applyCommandLocked now c cmd = (c', None)" and "cmd_Type cmd \<noteq> CommandStartStep"
  shows "co_toolResults c' = co_toolResults c \<or>
    toolResultRecordedLocked now c cmd = (c', None) \<and> cmd_Type cmd = CommandToolResultRecorded"
proof -
  have same: "startTurnLocked c cmd = (c', None) \<Longrightarrow> co_toolResults c' = co_toolResults c"
    "snapshotCreatedLocked c cmd = (c', None) \<Longrightarrow> co_toolResults c' = co_toolResults c"
    "contextChangedLocked c cmd = (c', None) \<Longrightarrow> co_toolResults c' = co_toolResults c"
    "startModelAttemptLocked c cmd = (c', None) \<Longrightarrow> co_toolResults c' = co_toolResults c"
    "recordModelUsageLocked c cmd = (c', None) \<Longrightarrow> co_toolResults c' = co_toolResults c"
    "completeModelAttemptLocked c cmd = (c', None) \<Longrightarrow> co_toolResults c' = co_toolResults c"
    "finishModelAttemptLocked ev st c cmd = (c', None) \<Longrightarrow> co_toolResults c' = co_toolResults c"
    "retryModelAttemptLocked c cmd = (c', None) \<Longrightarrow> co_toolResults c' = co_toolResults c"
    "recordExternalFactLocked c cmd = (c', None) \<Longrightarrow> co_toolResults c' = co_toolResults c"
    "contextCompactedLocked c cmd = (c', None) \<Longrightarrow> co_toolResults c' = co_toolResults c" for ev st
    by (auto simp: startTurnLocked_def snapshotCreatedLocked_def contextChangedLocked_def
      startModelAttemptLocked_def recordModelUsageLocked_def completeModelAttemptLocked_def
      finishModelAttemptLocked_def retryModelAttemptLocked_def recordExternalFactLocked_def
      contextCompactedLocked_def Let_def outcome_simps split: if_splits option.splits sum.splits)
  have asst: "recordAssistantLocked c cmd = (c', None) \<Longrightarrow> co_toolResults c' = co_toolResults c"
    "recordToolCallLocked c cmd = (c', None) \<Longrightarrow> co_toolResults c' = co_toolResults c"
    by (auto simp: recordAssistantLocked_def recordToolCallLocked_def Let_def mod_defs outcome_simps
      split: option.splits if_splits)
  have inter: "interactionRequestedLocked c cmd = (c', None) \<Longrightarrow> co_toolResults c' = co_toolResults c"
    "interactionResolvedLocked c cmd = (c', None) \<Longrightarrow> co_toolResults c' = co_toolResults c"
    by (auto simp: interactionRequestedLocked_def interactionResolvedLocked_def Let_def outcome_simps
      split: option.splits if_splits)
  have exec: "advanceToolExecutionLocked c cmd = (c', None) \<Longrightarrow> co_toolResults c' = co_toolResults c"
    by (auto simp: advanceToolExecutionLocked_def Let_def mod_defs split: option.splits command_type.splits if_splits)
  have turn: "advanceTurnLocked now e c0 cmd = (c', None) \<Longrightarrow> co_toolResults c' = co_toolResults c0" for e c0
    by (auto simp: advanceTurnLocked_def Let_def mod_defs outcome_simps split: if_splits)
  have cancel: "co_toolResults (cancelActiveWorkLocked now c cmd) = co_toolResults c"
    using cancelActiveWork_fields(2) by blast
  show ?thesis
    using assms same asst inter exec cancel
    by (cases "cmd_Type cmd") (auto simp: applyCommandLocked_def dest: advanceStepLocked_toolResults turn)
qed

lemma results_grow_apply:
  assumes "applyCommandLocked now c cmd = (c', None)" and "cmd_Type cmd \<noteq> CommandStartStep"
  shows "results_grow cmd c c'"
  using toolResults_apply[OF assms] results_grow_same results_grow_result by blast

lemma results_kept_Some:
  assumes "applyCommandLocked now c cmd = (c', None)" and "co_toolResults c \<noteq> None"
  shows "co_toolResults c' \<noteq> None"
proof (cases "cmd_Type cmd = CommandStartStep")
  case True
  then show ?thesis using assms(1)
    by (auto simp: applyCommandLocked_def startStepLocked_def Let_def outcome_simps split: option.splits if_splits sum.splits)
next
  case False
  have "toolResultRecordedLocked now c cmd = (c', None) \<Longrightarrow> co_toolResults c' = co_toolResults c \<or> co_toolResults c' \<noteq> None"
    by (auto simp: toolResultRecordedLocked_def Let_def andThen_None dest!: advanceStepLocked_toolResults
      split: if_splits option.splits)
  then show ?thesis using toolResults_apply[OF assms(1) False] assms(2) by auto
qed

section \<open>Properties\<close>

lemma exec_moves_applied [simp]: "exec_moves c (c1\<lparr>co_appliedCommands := x\<rparr>) = exec_moves c c1"
  by (simp add: exec_moves_def)

lemma exec_moves_restore [simp]: "exec_moves c (restoreCheckpointLocked c1 (checkpointLocked c))"
  by (rule exec_moves_same) (simp add: restoreCheckpointLocked_def checkpointLocked_def)

lemma results_grow_applied [simp]: "results_grow cmd c (c1\<lparr>co_appliedCommands := x\<rparr>) = results_grow cmd c c1"
  by (simp add: results_grow_def)

lemma results_grow_restore [simp]: "results_grow cmd c (restoreCheckpointLocked c1 (checkpointLocked c))"
  by (auto simp: results_grow_def restoreCheckpointLocked_def checkpointLocked_def flag_set_def cloneStringSet_def
      split: option.splits)

lemma results_grow_stamped: "results_grow (stamped now cmd) c c' = results_grow cmd c c'"
  by (simp add: results_grow_def)





text \<open>
  A Step that had a tool batch completes only after the batch was settled.
\<close>

lemma step_completes_after_batch:
  assumes "dispatchLocked now c cmd = (c', s, None)" and "fresh c cmd" and "cmd_Type cmd = CommandCompleteStep"
  shows "(case co_batch c' of None \<Rightarrow> True | Some b \<Rightarrow> batch_Status b = ''settled'') \<and>
    (\<exists>st. co_step c' = Some st \<and> step_Status st = StepStatusCompleted)"
proof (rule dispatch_accepted[OF assms(1,2)])
  fix c1 x
  assume a: "applyCommandLocked now c (stamped now cmd) = (c1, None)" "c' = c1\<lparr>co_appliedCommands := x\<rparr>"
  have "advanceStepLocked now EventStepCompleted c (stamped now cmd) = (c1, None)"
    using a(1) assms(3) by (simp add: applyCommandLocked_def)
  from step_completed[OF this] show ?thesis using a(2) by simp
qed

lemma step_completes_after_batch_witness:
  "\<exists>c' s. dispatchLocked 7 (dispatch_all 7 demo_done [demo CommandToolBatchSettled]) (demo CommandCompleteStep) = (c', s, None) \<and>
     (\<exists>st. co_step c' = Some st \<and> step_Status st = StepStatusCompleted)"
proof -
  define c where "c = dispatch_all 7 demo_done [demo CommandToolBatchSettled]"
  obtain c' s r where d: "dispatchLocked 7 c (demo CommandCompleteStep) = (c', s, r)"
    by (cases "dispatchLocked 7 c (demo CommandCompleteStep)")
  have "snd (snd (dispatchLocked 7 (dispatch_all 7 demo_done [demo CommandToolBatchSettled]) (demo CommandCompleteStep))) = None"
    by code_simp
  then have r: "r = None" using d by (simp add: c_def)
  have "fresh c (demo CommandCompleteStep)" by (simp add: fresh_def demo_def zero_command_def)
  moreover have "cmd_Type (demo CommandCompleteStep) = CommandCompleteStep" by (simp add: demo_def zero_command_def)
  ultimately show ?thesis
    using step_completes_after_batch[OF d[unfolded r]] d[unfolded r] by (auto simp: c_def)
qed

text \<open>
  C8. Cancellation always works: in every reachable coordinator with a live Turn, a cancel command
  addressed to it is accepted, whatever the Step is doing, and afterwards the Turn is cancelled and
  nothing is left at work: the Step and every execution are terminal, the batch is closed, no
  interaction is pending and no model attempt runs.
\<close>

theorem cancel_turn_stops_everything:
  assumes "reachable c" and "co_turn c = Some t" "\<not> turn_terminal (turn_Status t)"
    and "cmd_Type cmd = CommandCancelTurn" "cmd_SessionID cmd = co_sessionID c" "trim_space (co_sessionID c) \<noteq> []"
    and "cmd_TurnID cmd = turn_ID t" "cmd_Generation cmd \<in> {0, co_generation c}" "fresh c cmd"
  shows "\<exists>c' s t'. dispatchLocked now c cmd = (c', s, None) \<and> stopped c' \<and> co_turn c' = Some t' \<and>
    turn_ID t' = turn_ID t \<and> turn_Status t' = TurnStatusCancelled"
proof -
  note inv = reachable_inv[OF assms(1)]
  obtain c1 t' where c1: "advanceTurnLocked now EventTurnCancelled
      (cancelActiveWorkLocked now c (stamped now cmd)) (stamped now cmd) = (c1, None)"
    "stopped c1" "co_turn c1 = Some t'" "turn_Status t' = TurnStatusCancelled" "turn_ID t' = turn_ID t"
    by (rule cancel_apply[OF inv assms(2,3)])
  have "turn_ok t" using inv assms(2) by (auto simp: inv_defs)
  then have "validateCommandLocked c cmd = None"
    using assms by (auto simp: validateCommandLocked_def commandRequiresStep_def turn_ok_def)
  moreover have "applyCommandLocked now c (stamped now cmd) = (c1, None)"
    using c1(1) assms(4) by (simp add: applyCommandLocked_def)
  ultimately show ?thesis
    using assms(9) c1 stopped_finish(2)
    by (auto simp: dispatchLocked_def fresh_def stamped_def Let_def split: if_splits)
qed

theorem cancel_turn_stops_everything_witness:
  "\<exists>c' s t'. dispatchLocked 7 demo_tools (demo CommandCancelTurn) = (c', s, None) \<and> stopped c' \<and>
     co_turn c' = Some t' \<and> turn_Status t' = TurnStatusCancelled"
proof -
  have "map_option (\<lambda>t. (turn_Status t, turn_ID t)) (co_turn demo_tools) = Some (TurnStatusRunning, ''t'')" by code_simp
  then obtain t where t: "co_turn demo_tools = Some t" "turn_Status t = TurnStatusRunning" "turn_ID t = ''t''" by auto
  have "co_sessionID demo_tools = ''s''" by code_simp
  moreover have "trim_space ''s'' \<noteq> []" by code_simp
  ultimately show ?thesis
    using cancel_turn_stops_everything[OF demo_reachable(2) t(1), of "demo CommandCancelTurn" 7] t
    by (auto simp: demo_def zero_command_def fresh_def turn_terminal_def)
qed

text \<open>
  Tool results are recorded once and only for settled work: no command but the start of a new
  Step forgets a result, and a result that is new after a command was recorded by
  \<^verbatim>\<open>tool_result_recorded\<close> for the call it names, with an execution whose outcome is known.
\<close>

lemma tool_results_only_grow:
  assumes "dispatchLocked now c cmd = (c', s, r)" and "cmd_Type cmd \<noteq> CommandStartStep"
  shows "results_grow cmd c c'"
proof (rule dispatch_relation[OF assms(1), where R = "results_grow cmd"])
  fix cmd1 c1 assume "applyCommandLocked now c cmd1 = (c1, None)" "cmd1 = stamped now cmd"
  then show "results_grow cmd c c1" using results_grow_apply[of now c cmd1 c1] assms(2) by (simp add: results_grow_stamped)
qed (simp_all add: results_grow_same)

lemma tool_results_only_grow_witness:
  "\<exists>c'. fst (dispatchLocked 7 demo_done (demo CommandToolBatchSettled)) = c' \<and> flag_set (co_toolResults c') ''k''"
proof -
  obtain c' s r where d: "dispatchLocked 7 demo_done (demo CommandToolBatchSettled) = (c', s, r)"
    by (cases "dispatchLocked 7 demo_done (demo CommandToolBatchSettled)")
  have "flag_set (co_toolResults demo_done) ''k''" by code_simp
  moreover have "results_grow (demo CommandToolBatchSettled) demo_done c'"
    using tool_results_only_grow[OF d] by (simp add: demo_def zero_command_def)
  ultimately show ?thesis by (simp add: results_grow_def d)
qed

end
