(* ===== verification/Coordinator_Budget.thy ===== *)
theory Coordinator_Budget
  imports Coordinator_Exec
begin

text \<open>
  Accounting and fencing in the coordinator: the budget preflight bounds the number of Steps, model
  usage reports are counted exactly once, the generation fence refuses commands of an older Turn,
  and an interaction is resolved at most once per revision.
\<close>

section \<open>The Turn's accounts\<close>

text \<open>Outside \<^verbatim>\<open>start_turn\<close> and \<^verbatim>\<open>start_step\<close> no command changes these accounts.\<close>

definition accounts :: "turn \<Rightarrow> string \<times> turn_budget \<times> int \<times> int \<times> int" where
  "accounts t = (turn_ID t, turn_Budget t, turn_StepIndex t, tu_Steps (turn_Usage t), tu_SummarySteps (turn_Usage t))"

definition accounts_kept :: "coordinator \<Rightarrow> coordinator \<Rightarrow> bool" where
  "accounts_kept c c' \<longleftrightarrow> map_option accounts (co_turn c') = map_option accounts (co_turn c)"

lemma accounts_Advance [simp]: "turn_Advance (Some t) e tm r = Inr t' \<Longrightarrow> accounts t' = accounts t"
  by (simp add: accounts_def)

lemma accounts_kept_same: "co_turn c' = co_turn c \<Longrightarrow> accounts_kept c c'"
  by (simp add: accounts_kept_def)

lemma accounts_advanceTurn: "advanceTurn c e tm r = (c', None) \<Longrightarrow> accounts_kept c c'"
  by (cases "co_turn c") (auto simp: advanceTurn_None accounts_kept_def)

lemma accounts_apply:
  assumes "applyCommandLocked now c cmd = (c', None)" and "cmd_Type cmd \<notin> {CommandStartTurn, CommandStartStep}"
  shows "accounts_kept c c'"
proof -
  have step: "advanceStepLocked now e c cmd = (c', None) \<Longrightarrow> co_turn c' = co_turn c" for e c'
    by (auto simp: advanceStepLocked_def Let_def mod_defs outcome_simps split: option.splits if_splits)
  have turn: "advanceTurnLocked now e c0 cmd = (c', None) \<Longrightarrow> co_turn c0 = co_turn c \<Longrightarrow> accounts_kept c c'" for e c0
    by (cases "co_turn c") (auto simp: advanceTurnLocked_def Let_def mod_defs outcome_simps accounts_kept_def split: if_splits)
  have cancel: "co_turn (cancelActiveWorkLocked now c cmd) = co_turn c"
    using cancelActiveWork_fields(1) by blast
  have exec: "advanceToolExecutionLocked c cmd = (c', None) \<Longrightarrow> accounts_kept c c'"
    by (auto simp: advanceToolExecutionLocked_def Let_def mod_defs accounts_kept_def accounts_def
      split: option.splits command_type.splits if_splits)
  have asst: "recordAssistantLocked c cmd = (c', None) \<Longrightarrow> accounts_kept c c'"
    by (auto simp: recordAssistantLocked_def Let_def mod_defs outcome_simps accounts_kept_def accounts_def
      split: option.splits if_splits)
  have others: "contextChangedLocked c cmd = (c', None) \<Longrightarrow> accounts_kept c c'"
    "startModelAttemptLocked c cmd = (c', None) \<Longrightarrow> accounts_kept c c'"
    "recordModelUsageLocked c cmd = (c', None) \<Longrightarrow> accounts_kept c c'"
    "recordToolCallLocked c cmd = (c', None) \<Longrightarrow> accounts_kept c c'"
    by (auto simp: contextChangedLocked_def startModelAttemptLocked_def
      recordModelUsageLocked_def recordToolCallLocked_def Let_def mod_defs outcome_simps accounts_kept_def
      accounts_def split: option.splits if_splits)
  have inter: "interactionRequestedLocked c cmd = (c', None) \<Longrightarrow> accounts_kept c c'"
    "interactionResolvedLocked c cmd = (c', None) \<Longrightarrow> accounts_kept c c'"
    by (auto simp: interactionRequestedLocked_def interactionResolvedLocked_def Let_def outcome_simps accounts_kept_def
      split: option.splits if_splits)
  have snap: "snapshotCreatedLocked c cmd = (c', None) \<Longrightarrow> accounts_kept c c'"
    by (auto simp: snapshotCreatedLocked_def Let_def outcome_simps accounts_kept_def accounts_def
      split: option.splits if_splits)
  have same: "completeModelAttemptLocked c cmd = (c', None) \<Longrightarrow> co_turn c' = co_turn c"
    "finishModelAttemptLocked ev st c cmd = (c', None) \<Longrightarrow> co_turn c' = co_turn c"
    "retryModelAttemptLocked c cmd = (c', None) \<Longrightarrow> co_turn c' = co_turn c"
    "recordExternalFactLocked c cmd = (c', None) \<Longrightarrow> co_turn c' = co_turn c"
    "contextCompactedLocked c cmd = (c', None) \<Longrightarrow> co_turn c' = co_turn c"
    "toolResultRecordedLocked now c cmd = (c', None) \<Longrightarrow> co_turn c' = co_turn c" for ev st
    using step
    by (auto simp: completeModelAttemptLocked_def finishModelAttemptLocked_def retryModelAttemptLocked_def
      recordExternalFactLocked_def contextCompactedLocked_def toolResultRecordedLocked_def Let_def outcome_simps
      split: if_splits option.splits)
  show ?thesis
    using assms exec asst others inter snap same
    by (cases "cmd_Type cmd")
      (auto simp: applyCommandLocked_def intro: accounts_kept_same dest: step turn turn[OF _ cancel])
qed

section \<open>Steps against the budget\<close>

text \<open>
  A dispatcher that asks \<^verbatim>\<open>BudgetDecisionForCommand\<close> before each \<^verbatim>\<open>start_step\<close> but
  the first one of a Turn, as the session runtime does (\<^verbatim>\<open>session/runtime_lifecycle.go\<close>),
  keeps the number of Steps within the budget: at most \<^verbatim>\<open>MaxSteps\<close> ordinary Steps, and one
  more only for the reserved final summary.
\<close>

definition first_step :: "coordinator \<Rightarrow> turn_command \<Rightarrow> bool" where
  "first_step c cmd \<longleftrightarrow> \<not> cmd_FinalSummary cmd \<and> (case co_turn c of None \<Rightarrow> True | Some t \<Rightarrow> turn_StepIndex t = 0)"

definition step_permitted :: "gotime \<Rightarrow> coordinator \<Rightarrow> turn_command \<Rightarrow> bool" where
  "step_permitted now c cmd \<longleftrightarrow> cmd_Type cmd \<noteq> CommandStartStep \<or> first_step c cmd \<or>
     bd_Allowed (BudgetDecisionForCommand now c cmd)"

definition within_steps :: "coordinator \<Rightarrow> bool" where
  "within_steps c \<longleftrightarrow> (case co_turn c of None \<Rightarrow> True
     | Some t \<Rightarrow> 0 \<le> tu_SummarySteps (turn_Usage t) \<and> tu_SummarySteps (turn_Usage t) \<le> 1 \<and>
         (MaxSteps (turn_Budget t) > 0 \<longrightarrow>
            tu_Steps (turn_Usage t) \<le> MaxSteps (turn_Budget t) + tu_SummarySteps (turn_Usage t)))"

inductive budgeted :: "coordinator \<Rightarrow> bool" where
  Start: "budgeted (NewTurnCoordinator sid aid)"
| Step: "budgeted c \<Longrightarrow> dispatchLocked now c cmd = (c', s, r) \<Longrightarrow> step_permitted now c cmd \<Longrightarrow> budgeted c'"

lemma within_steps_accounts: "accounts_kept c c' \<Longrightarrow> within_steps c \<Longrightarrow> within_steps c'"
  by (auto simp: accounts_kept_def accounts_def within_steps_def split: option.splits)

lemma within_steps_startTurn: "startTurnLocked c cmd = (c', None) \<Longrightarrow> within_steps c'"
  by (auto simp: startTurnLocked_def outcome_simps within_steps_def NewTurn_def zero_turn_usage_def
      split: option.splits if_splits sum.splits)

lemma within_steps_startStep:
  assumes run: "startStepLocked c cmd = (c', None)" and "within_steps c" and inv: "coord_inv c"
    and ok: "step_permitted now c cmd0" "cmd_Type cmd0 = CommandStartStep"
      "cmd_FinalSummary cmd0 = cmd_FinalSummary cmd"
  shows "within_steps c'"
proof -
  obtain t where t: "co_turn c = Some t" using run by (auto simp: startStepLocked_def split: option.splits)
  have n: "budget_refusal now t cmd0 = None \<or> first_step c cmd0"
    using ok(1,2) t by (auto simp: BudgetDecisionForCommand_def step_permitted_def split: option.splits)
  have z: "tu_Steps (turn_Usage t) = turn_StepIndex t" using inv t by (auto simp: inv_defs turn_ok_def)
  obtain t' where t': "co_turn c' = Some t'" "turn_Budget t' = turn_Budget t"
    "tu_Steps (turn_Usage t') = tu_Steps (turn_Usage t) + 1"
    "tu_SummarySteps (turn_Usage t') = tu_SummarySteps (turn_Usage t) + (if cmd_FinalSummary cmd then 1 else 0)"
    using run t by (auto simp: startStepLocked_def StartStep_def Let_def outcome_simps
        split: option.splits if_splits sum.splits)
  have lt: "tu_Steps (turn_Usage t) < MaxSteps (turn_Budget t)" if "\<not> cmd_FinalSummary cmd" "MaxSteps (turn_Budget t) > 0"
    using n
  proof
    assume "budget_refusal now t cmd0 = None"
    then show ?thesis using that ok(2,3) by (simp add: budget_refusal_def Let_def split: if_splits)
  next
    assume "first_step c cmd0"
    then show ?thesis using that t z by (simp add: first_step_def)
  qed
  have sm: "tu_SummarySteps (turn_Usage t) < 1" if "cmd_FinalSummary cmd"
    using n
  proof
    assume "budget_refusal now t cmd0 = None"
    then show ?thesis using that ok(2,3) by (simp add: budget_refusal_def Let_def split: if_splits)
  next
    assume "first_step c cmd0"
    then show ?thesis using that ok(3) by (simp add: first_step_def)
  qed
  show ?thesis
    using assms(2) t t' lt sm by (cases "cmd_FinalSummary cmd") (auto simp: within_steps_def)
qed

lemma within_steps_apply:
  assumes "applyCommandLocked now c (stamped now cmd) = (c', None)" "within_steps c" "coord_inv c"
    and "step_permitted now c cmd"
  shows "within_steps c'"
proof (cases "cmd_Type cmd \<in> {CommandStartTurn, CommandStartStep}")
  case True
  then show ?thesis
    using assms within_steps_startTurn within_steps_startStep[of c "stamped now cmd" c' now cmd]
    by (auto simp: applyCommandLocked_def)
next
  case False
  then show ?thesis using accounts_apply[OF assms(1)] within_steps_accounts assms(2) by auto
qed

lemma within_steps_other [simp]:
  "within_steps (c\<lparr>co_appliedCommands := x\<rparr>) = within_steps c"
  "within_steps (restoreCheckpointLocked c1 (checkpointLocked c)) = within_steps c"
  by (simp_all add: within_steps_def restoreCheckpointLocked_def checkpointLocked_def)

section \<open>Usage reports\<close>

text \<open>Reports for the running attempt, applied in order; providers report cumulative usage.\<close>

fun report_all :: "turn_command \<Rightarrow> coordinator \<Rightarrow> step_usage list \<Rightarrow> outcome" where
  "report_all cmd c [] = (c, None)"
| "report_all cmd c (u # us) = andThen (recordModelUsageLocked c (cmd\<lparr>cmd_Usage := u\<rparr>)) (\<lambda>c1. report_all cmd c1 us)"

definition usage_le :: "step_usage \<Rightarrow> step_usage \<Rightarrow> bool" where
  "usage_le a b \<longleftrightarrow> su_InputTokens a \<le> su_InputTokens b \<and> su_OutputTokens a \<le> su_OutputTokens b \<and>
     su_TotalTokens a \<le> su_TotalTokens b"

definition tokens :: "turn_usage \<Rightarrow> int \<times> int \<times> int" where
  "tokens u = (tu_InputTokens u, tu_OutputTokens u, tu_TotalTokens u)"

lemma last_update_last [simp]: "xs \<noteq> [] \<Longrightarrow> last (update_last f xs) = f (last xs)"
  by (simp add: update_last_def)

lemma report_one:
  assumes "co_turn c = Some t" "co_step c = Some st" "co_attempts c \<noteq> []"
    and "usage_le (ma_Usage (last (co_attempts c))) u"
  obtains c' t' st' where "recordModelUsageLocked c (cmd\<lparr>cmd_Usage := u\<rparr>) = (c', None)"
    "co_turn c' = Some t'" "co_step c' = Some st'" "co_attempts c' \<noteq> []" "ma_Usage (last (co_attempts c')) = u"
    "tu_InputTokens (turn_Usage t') = tu_InputTokens (turn_Usage t) + su_InputTokens u - su_InputTokens (ma_Usage (last (co_attempts c)))"
    "tu_OutputTokens (turn_Usage t') = tu_OutputTokens (turn_Usage t) + su_OutputTokens u - su_OutputTokens (ma_Usage (last (co_attempts c)))"
    "tu_TotalTokens (turn_Usage t') = tu_TotalTokens (turn_Usage t) + su_TotalTokens u - su_TotalTokens (ma_Usage (last (co_attempts c)))"
proof -
  obtain c' where c': "recordModelUsageLocked c (cmd\<lparr>cmd_Usage := u\<rparr>) = (c', None)"
    using assms(1-3) by (auto simp: recordModelUsageLocked_def Let_def)
  show thesis
    by (rule that[OF c'])
      (use c' assms in \<open>auto simp: recordModelUsageLocked_def Let_def addTurnUsage_def usageDelta_def usage_le_def\<close>)
qed

lemma report_all_tokens:
  assumes "co_turn c = Some t" "co_step c = Some st" "co_attempts c \<noteq> []"
    and "sorted_wrt usage_le (ma_Usage (last (co_attempts c)) # us)"
  shows "\<exists>c' t'. report_all cmd c us = (c', None) \<and> co_turn c' = Some t' \<and>
    tu_InputTokens (turn_Usage t') = tu_InputTokens (turn_Usage t) +
      su_InputTokens (last (ma_Usage (last (co_attempts c)) # us)) - su_InputTokens (ma_Usage (last (co_attempts c))) \<and>
    tu_OutputTokens (turn_Usage t') = tu_OutputTokens (turn_Usage t) +
      su_OutputTokens (last (ma_Usage (last (co_attempts c)) # us)) - su_OutputTokens (ma_Usage (last (co_attempts c))) \<and>
    tu_TotalTokens (turn_Usage t') = tu_TotalTokens (turn_Usage t) +
      su_TotalTokens (last (ma_Usage (last (co_attempts c)) # us)) - su_TotalTokens (ma_Usage (last (co_attempts c)))"
  using assms
proof (induction us arbitrary: c t st)
  case (Cons u us)
  obtain c1 t1 st1 where c1: "recordModelUsageLocked c (cmd\<lparr>cmd_Usage := u\<rparr>) = (c1, None)"
    "co_turn c1 = Some t1" "co_step c1 = Some st1" "co_attempts c1 \<noteq> []" "ma_Usage (last (co_attempts c1)) = u"
    and tok: "tu_InputTokens (turn_Usage t1) = tu_InputTokens (turn_Usage t) + su_InputTokens u - su_InputTokens (ma_Usage (last (co_attempts c)))"
    "tu_OutputTokens (turn_Usage t1) = tu_OutputTokens (turn_Usage t) + su_OutputTokens u - su_OutputTokens (ma_Usage (last (co_attempts c)))"
    "tu_TotalTokens (turn_Usage t1) = tu_TotalTokens (turn_Usage t) + su_TotalTokens u - su_TotalTokens (ma_Usage (last (co_attempts c)))"
    by (rule report_one[OF Cons.prems(1-3), of u cmd]) (use Cons.prems(4) in auto)
  have "sorted_wrt usage_le (ma_Usage (last (co_attempts c1)) # us)" using Cons.prems(4) c1(5) by simp
  from Cons.IH[OF c1(2-4) this] show ?case using c1 tok by (auto simp: andThen_def)
qed simp

section \<open>Generations\<close>

lemma gen_advance [simp]:
  "co_generation (fst (advanceTurn c e tm r)) = co_generation c" "co_generation (fst (advanceStep c e tm r)) = co_generation c"
  by (auto simp: advanceTurn_def advanceStep_def split: sum.splits)

lemma gen_andThen:
  "co_generation (fst r) = g \<Longrightarrow> (\<And>c1. co_generation c1 = g \<Longrightarrow> co_generation (fst (f c1)) = g) \<Longrightarrow>
   co_generation (fst (andThen r f)) = g"
  by (cases r) (auto simp: andThen_def split: option.splits)

lemma gen_mod [simp]:
  "co_generation (modTurn f c) = co_generation c" "co_generation (modStep g c) = co_generation c"
  "co_generation (modUsage h c) = co_generation c"
  by (simp_all add: mod_defs)

lemma gen_locked [simp]:
  "co_generation (fst (advanceStepLocked now e c cmd)) = co_generation c"
  "co_generation (fst (advanceTurnLocked now e c cmd)) = co_generation c"
  "co_generation (cancelActiveWorkLocked now c cmd) = co_generation c"
  "co_generation (fst (advanceToolExecutionLocked c cmd)) = co_generation c"
  by (auto simp: advanceStepLocked_def advanceTurnLocked_def cancelActiveWorkLocked_def Let_def mod_defs split: option.split)
    (simp add: advanceToolExecutionLocked_def Let_def split: option.split command_type.split)

lemma gen_apply: "cmd_Type cmd \<noteq> CommandStartTurn \<Longrightarrow> co_generation (fst (applyCommandLocked now c cmd)) = co_generation c"
  by (cases "cmd_Type cmd")
    (auto simp: applyCommandLocked_def startStepLocked_def snapshotCreatedLocked_def
      contextChangedLocked_def startModelAttemptLocked_def completeModelAttemptLocked_def
      recordAssistantLocked_def finishModelAttemptLocked_def retryModelAttemptLocked_def
      recordModelUsageLocked_def recordToolCallLocked_def recordExternalFactLocked_def
      toolResultRecordedLocked_def interactionRequestedLocked_def interactionResolvedLocked_def
      contextCompactedLocked_def Let_def split: option.split sum.split intro!: gen_andThen)

lemma startTurn_generation:
  assumes "startTurnLocked c cmd = (c', None)"
  shows "co_generation c' \<noteq> 0 \<and> (cmd_Generation cmd = 0 \<longrightarrow> co_generation c' \<noteq> co_generation c) \<and> co_turn c' \<noteq> None"
  using assms
  by (auto simp: startTurnLocked_def outcome_simps split: option.splits if_splits sum.splits)

definition gen_ok :: "coordinator \<Rightarrow> bool" where
  "gen_ok c \<longleftrightarrow> co_turn c = None \<or> co_generation c \<noteq> 0"

lemma gen_ok_other [simp]:
  "gen_ok (c\<lparr>co_appliedCommands := x\<rparr>) = gen_ok c"
  "gen_ok (restoreCheckpointLocked c1 (checkpointLocked c)) = gen_ok c"
  by (simp_all add: gen_ok_def restoreCheckpointLocked_def checkpointLocked_def)

lemma gen_ok_apply:
  assumes "validateCommandLocked c cmd0 = None" "cmd_Type cmd0 = cmd_Type cmd"
    and "applyCommandLocked now c cmd = (c', None)" "gen_ok c"
  shows "gen_ok c'"
proof (cases "cmd_Type cmd = CommandStartTurn")
  case True
  then show ?thesis using assms(3) startTurn_generation by (auto simp: applyCommandLocked_def gen_ok_def)
next
  case False
  then have "co_turn c \<noteq> None" using assms(1,2) by (auto simp: validateCommandLocked_def split: if_splits option.splits)
  moreover have "co_generation c' = co_generation c" using gen_apply[OF False, of now c] assms(3) by simp
  ultimately show ?thesis using assms(4) by (auto simp: gen_ok_def)
qed

lemma budgeted_reachable: "budgeted c \<Longrightarrow> reachable c"
  by (induction rule: budgeted.induct) (auto intro: reachable.New reachable.Dispatch)

lemma reachable_gen_ok: "reachable c \<Longrightarrow> gen_ok c"
proof (induction rule: reachable.induct)
  case (New sid aid)
  show ?case by (simp add: gen_ok_def NewTurnCoordinator_def)
next
  case (Dispatch c now cmd c' s r)
  show ?case
    by (rule dispatch_relation[OF Dispatch.hyps(2), where R = "\<lambda>_. gen_ok"])
      (use Dispatch.IH gen_ok_apply[OF _ stamped_simps(1)[symmetric]] in auto)
next
  case (Keep c now cmd c1 s)
  then show ?case by simp
next
  case (Restored c now json_valid events c' r)
  show ?case
  proof (cases r)
    case None
    then have "replayEvents now json_valid 0 (resetForRestore c) events = (c', None)"
      using Restored.hyps(2) by (auto simp: Restore_def split: prod.splits option.splits)
    moreover have "gen_ok (resetForRestore c)" by (simp add: gen_ok_def resetForRestore_def)
    ultimately show ?thesis
      by (rule replay_preserves[where P = gen_ok, rotated 2]) (auto intro: gen_ok_apply[OF _ refl])
  next
    case (Some e)
    then show ?thesis
      using Restored by (auto simp: Restore_def split: prod.splits option.splits)
  qed
qed

section \<open>Interactions\<close>

lemma interaction_resolved:
  assumes "interactionResolvedLocked c cmd = (c', None)" and "co_interaction c = Some i"
    and "cmd_InteractionRevision cmd \<noteq> 0"
  shows "pi_Revision i = cmd_InteractionRevision cmd \<and>
    (\<exists>i'. co_interaction c' = Some i' \<and> pi_Revision i' = pi_Revision i + 1 \<and> pi_Status i' = InteractionStatusResolved)"
proof -
  obtain c1 where c1: "advanceTurn c EventInteractionResolved (cmd_At cmd) (cmd_Reason cmd) = (c1, None)"
    using assms(1) by (auto simp: interactionResolvedLocked_def andThen_None split: if_splits)
  then have i: "co_interaction c1 = Some i" using assms(2) by (auto simp: advanceTurn_None)
  show ?thesis
  proof (cases "cmd_InteractionID cmd \<noteq> [] \<and> cmd_InteractionID cmd \<noteq> pi_ID i \<or> cmd_InteractionRevision cmd \<noteq> pi_Revision i")
    case True
    then show ?thesis
      using assms c1 i by (auto simp: interactionResolvedLocked_def andThen_def split: if_split_asm)
  next
    case False
    then have "advanceStep (c1\<lparr>co_interaction := Some (i\<lparr>pi_Status := InteractionStatusResolved,
        pi_Resolution := cmd_Payload cmd, pi_Revision := pi_Revision i + 1\<rparr>)\<rparr>)
        EventInteractionResolved (cmd_At cmd) (cmd_Reason cmd) = (c', None)"
      using assms(1) c1 i by (auto simp: interactionResolvedLocked_def andThen_def split: if_split_asm)
    then show ?thesis using False by (auto simp: advanceStep_None)
  qed
qed

section \<open>Properties\<close>

text \<open>
  C9. Budget: if every \<^verbatim>\<open>start_step\<close> but the first of a Turn was allowed by the preflight, a
  Turn with a step limit never has more Steps than the limit, plus the one reserved summary Step.
\<close>

theorem budget_bounds_steps:
  assumes "budgeted c" and "co_turn c = Some t" "MaxSteps (turn_Budget t) > 0"
  shows "tu_Steps (turn_Usage t) \<le> MaxSteps (turn_Budget t) + tu_SummarySteps (turn_Usage t) \<and>
    tu_SummarySteps (turn_Usage t) \<le> 1"
proof -
  have "within_steps c" using assms(1)
  proof (induction rule: budgeted.induct)
    case (Start sid aid)
    show ?case by (simp add: within_steps_def NewTurnCoordinator_def)
  next
    case (Step c now cmd c' s r)
    have inv: "coord_inv c" using reachable_inv[OF budgeted_reachable[OF Step.hyps(1)]] .
    show ?case
      by (rule dispatch_relation[OF Step.hyps(2), where R = "\<lambda>_. within_steps"])
        (use Step.IH Step.hyps(3) inv within_steps_apply in auto)
  qed
  with assms(2,3) show ?thesis by (simp add: within_steps_def)
qed

theorem budget_bounds_steps_witness:
  "\<exists>c t. budgeted c \<and> co_turn c = Some t \<and> tu_Steps (turn_Usage t) \<le> 1 + tu_SummarySteps (turn_Usage t) \<and>
     tu_Steps (turn_Usage t) = 1"
proof -
  define st where "st = (demo CommandStartTurn)\<lparr>cmd_Budget := zero_budget\<lparr>MaxSteps := 1\<rparr>\<rparr>"
  define c0 where "c0 = fst (dispatchLocked 7 (NewTurnCoordinator ''s'' ''a'') st)"
  define c1 where "c1 = fst (dispatchLocked 7 c0 (demo CommandStartStep))"
  have "step_permitted 7 c st" for c by (simp add: step_permitted_def st_def demo_def zero_command_def)
  then have b0: "budgeted c0"
    unfolding c0_def using budgeted.Step[OF budgeted.Start] by (metis prod.collapse)
  have "step_permitted 7 (fst (dispatchLocked 7 (NewTurnCoordinator ''s'' ''a'')
     ((demo CommandStartTurn)\<lparr>cmd_Budget := zero_budget\<lparr>MaxSteps := 1\<rparr>\<rparr>))) (demo CommandStartStep)"
    by code_simp
  then have "step_permitted 7 c0 (demo CommandStartStep)" by (simp add: c0_def st_def)
  then have b1: "budgeted c1" unfolding c1_def using budgeted.Step[OF b0] by (metis prod.collapse)
  have "map_option (\<lambda>t. (tu_Steps (turn_Usage t), MaxSteps (turn_Budget t)))
      (co_turn (fst (dispatchLocked 7 (fst (dispatchLocked 7 (NewTurnCoordinator ''s'' ''a'')
         ((demo CommandStartTurn)\<lparr>cmd_Budget := zero_budget\<lparr>MaxSteps := 1\<rparr>\<rparr>))) (demo CommandStartStep)))) = Some (1, 1)"
    by code_simp
  then obtain t where t: "co_turn c1 = Some t" "tu_Steps (turn_Usage t) = 1" "MaxSteps (turn_Budget t) = 1"
    by (auto simp: c1_def c0_def st_def)
  with budget_bounds_steps[OF b1 t(1)] b1 show ?thesis by auto
qed

text \<open>
  Usage is counted once: reports of cumulative, non-decreasing usage for one model attempt add
  to the Turn's token counts exactly the last report less what the attempt had reported before,
  however many intermediate or repeated reports there are.
\<close>

lemma usage_counted_once:
  assumes "co_turn c = Some t" "co_step c = Some st" "co_attempts c \<noteq> []"
    and "sorted_wrt usage_le (ma_Usage (last (co_attempts c)) # us @ [u])"
  shows "\<exists>c' t'. report_all cmd c (us @ [u]) = (c', None) \<and> co_turn c' = Some t' \<and>
    tu_InputTokens (turn_Usage t') - tu_InputTokens (turn_Usage t) =
      su_InputTokens u - su_InputTokens (ma_Usage (last (co_attempts c))) \<and>
    tu_OutputTokens (turn_Usage t') - tu_OutputTokens (turn_Usage t) =
      su_OutputTokens u - su_OutputTokens (ma_Usage (last (co_attempts c))) \<and>
    tu_TotalTokens (turn_Usage t') - tu_TotalTokens (turn_Usage t) =
      su_TotalTokens u - su_TotalTokens (ma_Usage (last (co_attempts c)))"
  using report_all_tokens[OF assms, of cmd] by auto

lemma usage_counted_once_witness:
  "\<exists>c' t'. report_all (demo CommandModelUsageRecorded) demo_tools
       ([zero_step_usage\<lparr>su_InputTokens := 10\<rparr>, zero_step_usage\<lparr>su_InputTokens := 10\<rparr>] @ [zero_step_usage\<lparr>su_InputTokens := 25\<rparr>]) = (c', None) \<and>
     co_turn c' = Some t' \<and> tu_InputTokens (turn_Usage t') = 25"
proof -
  have e: "(map_option (\<lambda>t. tu_InputTokens (turn_Usage t)) (co_turn demo_tools), co_step demo_tools \<noteq> None,
      map ma_Usage (co_attempts demo_tools)) = (Some 0, True, [zero_step_usage])"
    by code_simp
  then obtain t st where t: "co_turn demo_tools = Some t" "tu_InputTokens (turn_Usage t) = 0" "co_step demo_tools = Some st" by auto
  have a: "co_attempts demo_tools \<noteq> []" "ma_Usage (last (co_attempts demo_tools)) = zero_step_usage" using e by auto
  show ?thesis
    using usage_counted_once[OF t(1,3) a(1), of "[zero_step_usage\<lparr>su_InputTokens := 10\<rparr>, zero_step_usage\<lparr>su_InputTokens := 10\<rparr>]"
      "zero_step_usage\<lparr>su_InputTokens := 25\<rparr>" "demo CommandModelUsageRecorded"] t a
    by (auto simp: usage_le_def zero_step_usage_def)
qed

text \<open>
  Generation fence: starting a Turn without an explicit generation moves to a new, non-zero
  generation, and from then on every new command that carries the generation of the previous
  Turn is refused and changes nothing.
\<close>

lemma stale_generation_refused:
  assumes "reachable c" "co_turn c \<noteq> None"
    and "dispatchLocked now c start = (c', s, None)" "fresh c start"
      "cmd_Type start = CommandStartTurn" "cmd_Generation start = 0"
    and "cmd_Type cmd \<noteq> CommandStartTurn" "cmd_Generation cmd = co_generation c" "fresh c' cmd"
  shows "co_generation c' \<noteq> 0 \<and> (\<exists>e. dispatchLocked now' c' cmd = (c', snapshotLocked c', Some (ECommand e)))"
proof (rule dispatch_accepted[OF assms(3,4)])
  fix c1 x
  assume a: "applyCommandLocked now c (stamped now start) = (c1, None)" "c' = c1\<lparr>co_appliedCommands := x\<rparr>"
  have "startTurnLocked c (stamped now start) = (c1, None)" using a(1) assms(5) by (simp add: applyCommandLocked_def)
  from startTurn_generation[OF this] have g: "co_generation c' \<noteq> 0" "co_generation c' \<noteq> co_generation c" "co_turn c' \<noteq> None"
    using assms(6) a(2) by auto
  have "co_generation c \<noteq> 0" using reachable_gen_ok[OF assms(1)] assms(2) by (simp add: gen_ok_def)
  then have "validateCommandLocked c' cmd \<noteq> None"
    using g assms(7,8) by (auto simp: validateCommandLocked_def split: option.splits)
  then show ?thesis using g assms(9) by (auto simp: dispatchLocked_def fresh_def)
qed

lemma stale_generation_refused_witness:
  "\<exists>c' s e. dispatchLocked 7 (dispatch_all 7 demo_turn [demo CommandCompleteTurn]) (demo CommandStartTurn) = (c', s, None) \<and>
     dispatchLocked 7 c' ((demo CommandCompleteTurn)\<lparr>cmd_Generation := 1\<rparr>) = (c', snapshotLocked c', Some (ECommand e))"
proof -
  define c where "c = dispatch_all 7 demo_turn [demo CommandCompleteTurn]"
  obtain c' s r where d: "dispatchLocked 7 c (demo CommandStartTurn) = (c', s, r)"
    by (cases "dispatchLocked 7 c (demo CommandStartTurn)")
  have "snd (snd (dispatchLocked 7 (dispatch_all 7 demo_turn [demo CommandCompleteTurn]) (demo CommandStartTurn))) = None"
    by code_simp
  then have r: "r = None" using d by (simp add: c_def)
  have "co_turn (dispatch_all 7 demo_turn [demo CommandCompleteTurn]) \<noteq> None" by code_simp
  moreover have "co_generation (dispatch_all 7 demo_turn [demo CommandCompleteTurn]) = 1" by code_simp
  moreover have "reachable c" unfolding c_def by (rule reachable_dispatch_all[OF demo_reachable(1)])
  ultimately show ?thesis
    using stale_generation_refused[OF _ _ d[unfolded r], of "(demo CommandCompleteTurn)\<lparr>cmd_Generation := 1\<rparr>" 7] d[unfolded r]
    by (auto simp: c_def fresh_def demo_def zero_command_def)
qed

text \<open>
  Interactions are resolved once per revision: an accepted resolution that names a revision
  found exactly that revision and advances it, so a second resolution with the same revision is
  refused.
\<close>

lemma interaction_resolved_once:
  assumes "dispatchLocked now c cmd = (c', s, None)" "fresh c cmd" "cmd_Type cmd = CommandInteractionResolved"
    and "cmd_InteractionRevision cmd \<noteq> 0" "co_interaction c = Some i"
    and "fresh c' cmd2" "cmd_Type cmd2 = CommandInteractionResolved"
      "cmd_InteractionRevision cmd2 = cmd_InteractionRevision cmd"
  shows "pi_Revision i = cmd_InteractionRevision cmd \<and>
    (\<exists>i'. co_interaction c' = Some i' \<and> pi_Revision i' = pi_Revision i + 1 \<and> pi_Status i' = InteractionStatusResolved) \<and>
    snd (snd (dispatchLocked now2 c' cmd2)) \<noteq> None"
proof (rule dispatch_accepted[OF assms(1,2)])
  fix c1 x
  assume a: "applyCommandLocked now c (stamped now cmd) = (c1, None)" "c' = c1\<lparr>co_appliedCommands := x\<rparr>"
  have "interactionResolvedLocked c (stamped now cmd) = (c1, None)" using a(1) assms(3) by (simp add: applyCommandLocked_def)
  from interaction_resolved[OF this assms(5)] assms(4) a(2)
  obtain i' where i: "pi_Revision i = cmd_InteractionRevision cmd" "co_interaction c' = Some i'"
    "pi_Revision i' = pi_Revision i + 1" "pi_Status i' = InteractionStatusResolved" by auto
  have "snd (snd (dispatchLocked now2 c' cmd2)) \<noteq> None"
  proof
    assume "snd (snd (dispatchLocked now2 c' cmd2)) = None"
    then obtain c2 s2 where "dispatchLocked now2 c' cmd2 = (c2, s2, None)" by (metis prod.collapse)
    then show False
    proof (rule dispatch_accepted[OF _ assms(6)])
      fix c3 y
      assume "applyCommandLocked now2 c' (stamped now2 cmd2) = (c3, None)"
      then have "interactionResolvedLocked c' (stamped now2 cmd2) = (c3, None)"
        using assms(7) by (simp add: applyCommandLocked_def)
      from interaction_resolved[OF this i(2)] show False using assms(4,8) i by simp
    qed
  qed
  with i show ?thesis by simp
qed

definition demo_waiting :: coordinator where
  "demo_waiting = dispatch_all 7 demo_tools [demo CommandInteractionRequested]"

lemma interaction_resolved_once_witness:
  "\<exists>c' s. dispatchLocked 7 demo_waiting ((demo CommandInteractionResolved)\<lparr>cmd_InteractionRevision := 1\<rparr>) = (c', s, None) \<and>
     snd (snd (dispatchLocked 8 c' ((demo CommandInteractionResolved)\<lparr>cmd_InteractionRevision := 1\<rparr>))) \<noteq> None"
proof -
  define cmd where "cmd = (demo CommandInteractionResolved)\<lparr>cmd_InteractionRevision := 1\<rparr>"
  obtain c' s r where d: "dispatchLocked 7 demo_waiting cmd = (c', s, r)" by (cases "dispatchLocked 7 demo_waiting cmd")
  have "snd (snd (dispatchLocked 7 demo_waiting ((demo CommandInteractionResolved)\<lparr>cmd_InteractionRevision := 1\<rparr>))) = None"
    by code_simp
  then have r: "r = None" using d by (simp add: cmd_def)
  have "co_interaction demo_waiting \<noteq> None" by code_simp
  then obtain i where i: "co_interaction demo_waiting = Some i" by auto
  have f: "fresh c cmd" "cmd_Type cmd = CommandInteractionResolved" "cmd_InteractionRevision cmd \<noteq> 0" for c
    by (simp_all add: cmd_def fresh_def demo_def zero_command_def)
  show ?thesis
    using interaction_resolved_once[OF d[unfolded r] f(1,2,3) i f(1,2) refl, of 8] d[unfolded r] unfolding cmd_def by blast
qed

end
