(* ===== verification/Event_Store.thy ===== *)
theory Event_Store
  imports Events
begin

text \<open>
  The durable event log of \<^verbatim>\<open>node/internal/store/turn_events.go\<close>: the table
  \<^verbatim>\<open>turn_events\<close> as the list of its rows in insertion order, the AUTOINCREMENT counter and
  the table \<^verbatim>\<open>completed_turn_snapshots\<close>. Each SQL statement is written out as the list
  operation it denotes; an append is one transaction, so it is one function. A stored row has the
  payload the transaction wrote (\<^verbatim>\<open>{}\<close> for no payload). The store handle is never nil here and
  the database itself does not fail.

  The locale \<open>event_log\<close> is what the journal relies on: an append adds at most one event, at
  the end of its own session.
\<close>

section \<open>State\<close>

datatype store_error =
    ErrStoreSessionRequired | ErrStoreTurnRequired | ErrStoreUnknownType event_type
  | ErrStoreInvalidJSON | ErrCommandReused string | ErrStoreSessionGap u64 u64
  | ErrStoreTurnGap u64 u64 | ErrUniqueCommand string string | ErrBoundedLimits
  | ErrBoundedCount | ErrBoundedBytes | ErrTranscriptPayload int | ErrTranscriptIncomplete
  | ErrListSessionRequired

record completed_turn_snapshot =
  cts_EventID :: int
  cts_AgentID :: string
  cts_SessionID :: string
  cts_TurnID :: string
  cts_Messages :: "llm_message list"
  cts_Status :: string

record event_store =
  es_rows :: "turn_event list"
  es_lastID :: int
  es_snapshots :: "completed_turn_snapshot list"

definition empty_store :: event_store where
  "empty_store = \<lparr>es_rows = [], es_lastID = 0, es_snapshots = []\<rparr>"

section \<open>Appending\<close>

definition validateTurnEvent :: "gotime \<Rightarrow> turn_event \<Rightarrow> store_error + turn_event" where
  "validateTurnEvent now event =
     (if trim_space (te_SessionID event) = [] then Inl ErrStoreSessionRequired
      else if trim_space (te_TurnID event) = [] then Inl ErrStoreTurnRequired
      else if \<not> event_valid (te_EventType event) then Inl (ErrStoreUnknownType (te_EventType event))
      else
        let e1 = (if te_EventVersion event = 0 then event\<lparr>te_EventVersion := 1\<rparr> else event);
            e2 = (if te_CreatedAt e1 = 0 then e1\<lparr>te_CreatedAt := now\<rparr> else e1);
            e3 = (if te_Payload e2 = NoPayload then e2\<lparr>te_Payload := Decoded zero_payload\<rparr> else e2)
        in if \<not> json_valid_payload (te_Payload e3) then Inl ErrStoreInvalidJSON else Inr e3)"

text \<open>\<^verbatim>\<open>SELECT COALESCE(MAX(...), 0)\<close>.\<close>

definition max_seq :: "u64 list \<Rightarrow> u64" where
  "max_seq xs = foldr max xs 0"

definition session_rows :: "event_store \<Rightarrow> string \<Rightarrow> turn_event list" where
  "session_rows db sid = filter (\<lambda>r. te_SessionID r = sid) (es_rows db)"

definition turn_rows :: "event_store \<Rightarrow> string \<Rightarrow> string \<Rightarrow> turn_event list" where
  "turn_rows db sid tid = filter (\<lambda>r. te_SessionID r = sid \<and> te_TurnID r = tid) (es_rows db)"

definition same_fact :: "turn_event \<Rightarrow> turn_event \<Rightarrow> bool" where
  "same_fact existing event \<longleftrightarrow>
     te_AgentID existing = te_AgentID event \<and> te_TurnID existing = te_TurnID event \<and>
     te_StepID existing = te_StepID event \<and> te_EventType existing = te_EventType event \<and>
     te_ToolBatchID existing = te_ToolBatchID event \<and> te_ToolCallID existing = te_ToolCallID event \<and>
     te_ToolExecutionID existing = te_ToolExecutionID event \<and>
     te_InteractionID existing = te_InteractionID event \<and>
     te_PayloadRef existing = te_PayloadRef event \<and> te_Payload existing = te_Payload event"

definition appendTurnEventTx ::
  "event_store \<Rightarrow> turn_event \<Rightarrow> (store_error + turn_event \<times> bool) \<times> event_store" where
  "appendTurnEventTx db event =
     (let sid = te_SessionID event;
          hit = find (\<lambda>r. te_SessionID r = sid \<and> te_CommandID r = te_CommandID event) (es_rows db)
      in case (if trim_space (te_CommandID event) \<noteq> [] then hit else None) of
        Some existing \<Rightarrow>
          if \<not> same_fact existing event then (Inl (ErrCommandReused (te_CommandID event)), db)
          else (Inr (existing, False), db)
      | None \<Rightarrow>
          let maxSession = max_seq (map te_SessionSeq (session_rows db sid));
              maxTurn = max_seq (map te_TurnSeq (turn_rows db sid (te_TurnID event)));
              e1 = (if te_SessionSeq event = 0 then event\<lparr>te_SessionSeq := maxSession + 1\<rparr> else event);
              e2 = (if te_TurnSeq e1 = 0 then e1\<lparr>te_TurnSeq := maxTurn + 1\<rparr> else e1)
          in if te_SessionSeq e2 \<noteq> maxSession + 1
             then (Inl (ErrStoreSessionGap (te_SessionSeq e2) (maxSession + 1)), db)
             else if te_TurnSeq e2 \<noteq> maxTurn + 1
             then (Inl (ErrStoreTurnGap (te_TurnSeq e2) (maxTurn + 1)), db)
             else if te_CommandID event \<noteq> [] \<and> hit \<noteq> None
             then (Inl (ErrUniqueCommand sid (te_CommandID event)), db)
             else
               let e3 = e2\<lparr>te_ID := es_lastID db + 1\<rparr>
               in (Inr (e3, True), db\<lparr>es_rows := es_rows db @ [e3], es_lastID := es_lastID db + 1\<rparr>))"

definition AppendTurnEvent ::
  "gotime \<Rightarrow> event_store \<Rightarrow> turn_event \<Rightarrow> (store_error + turn_event) \<times> event_store" where
  "AppendTurnEvent now db event0 =
     (case validateTurnEvent now event0 of Inl err \<Rightarrow> (Inl err, db)
      | Inr event \<Rightarrow>
         (case appendTurnEventTx db event of
            (Inl err, _) \<Rightarrow> (Inl err, db)
          | (Inr (stored, _), db') \<Rightarrow> (Inr stored, db')))"

definition AppendTurnEventWithSnapshot ::
  "gotime \<Rightarrow> event_store \<Rightarrow> turn_event \<Rightarrow> llm_message list \<Rightarrow> (store_error + turn_event) \<times> event_store" where
  "AppendTurnEventWithSnapshot now db event0 messages =
     (if te_EventType event0 \<noteq> EventTurnCompleted then AppendTurnEvent now db event0
      else case validateTurnEvent now event0 of Inl err \<Rightarrow> (Inl err, db)
      | Inr event \<Rightarrow>
         (case appendTurnEventTx db event of
            (Inl err, _) \<Rightarrow> (Inl err, db)
          | (Inr (stored, inserted), db') \<Rightarrow>
              if \<not> inserted then (Inr stored, db')
              else (Inr stored, db'\<lparr>es_snapshots := es_snapshots db' @
                     [\<lparr>cts_EventID = te_ID stored, cts_AgentID = te_AgentID stored,
                       cts_SessionID = te_SessionID stored, cts_TurnID = te_TurnID stored,
                       cts_Messages = messages,
                       cts_Status = (if messages = [] then ''unreadable'' else ''readable'')\<rparr>]\<rparr>)))"

section \<open>Reading\<close>

definition ListCompletedTurnSnapshots ::
  "event_store \<Rightarrow> string \<Rightarrow> int \<Rightarrow> int \<Rightarrow> completed_turn_snapshot list" where
  "ListCompletedTurnSnapshots db agentID afterEventID limit0 =
     (let limit = (if limit0 \<le> 0 \<or> limit0 > 200 then 200 else limit0)
      in take (nat limit) (sort_key cts_EventID
           (filter (\<lambda>s. cts_AgentID s = trim_space agentID \<and> cts_EventID s > afterEventID)
              (map (\<lambda>s. if cts_Status s \<noteq> ''readable'' then s\<lparr>cts_Messages := []\<rparr> else s) (es_snapshots db)))))"

definition ListTurnEventsForTurn :: "event_store \<Rightarrow> string \<Rightarrow> string \<Rightarrow> turn_event list" where
  "ListTurnEventsForTurn db sid tid = sort_key te_ID (turn_rows db sid tid)"

text \<open>
  \<open>payload_bytes\<close> is the length of the stored JSON text. The loop stops at the first row that
  breaks a limit.
\<close>

fun bounded_scan ::
  "(payload \<Rightarrow> int) \<Rightarrow> int \<Rightarrow> int \<Rightarrow> turn_event list \<Rightarrow> int \<Rightarrow> turn_event list \<Rightarrow> store_error + turn_event list" where
  "bounded_scan payload_bytes maxEvents maxBytes out totalBytes [] = Inr out"
| "bounded_scan payload_bytes maxEvents maxBytes out totalBytes (e # es) =
     (if int (length out) \<ge> maxEvents then Inl ErrBoundedCount
      else let n = payload_bytes (te_Payload e)
           in if n < 0 \<or> n > maxBytes \<or> totalBytes > maxBytes - n then Inl ErrBoundedBytes
              else bounded_scan payload_bytes maxEvents maxBytes (out @ [e]) (totalBytes + n) es)"

definition ListTurnEventsForTurnBounded ::
  "(payload \<Rightarrow> int) \<Rightarrow> event_store \<Rightarrow> string \<Rightarrow> string \<Rightarrow> int \<Rightarrow> int \<Rightarrow> store_error + turn_event list" where
  "ListTurnEventsForTurnBounded payload_bytes db sid tid maxEvents maxBytes =
     (if maxEvents \<le> 0 \<or> maxEvents > 100000 \<or> maxBytes \<le> 0 \<or> maxBytes > 64 * 1024 * 1024
      then Inl ErrBoundedLimits
      else bounded_scan payload_bytes maxEvents maxBytes [] 0
             (take (nat (maxEvents + 1)) (ListTurnEventsForTurn db sid tid)))"

definition ListTurnEvents :: "event_store \<Rightarrow> string \<Rightarrow> u64 \<Rightarrow> int \<Rightarrow> store_error + turn_event list" where
  "ListTurnEvents db sessionID afterSeq limit0 =
     (if trim_space sessionID = [] then Inl ErrListSessionRequired
      else
        let limit = (if limit0 \<le> 0 \<or> limit0 > 1000 then 1000 else limit0)
        in Inr (take (nat limit) (sort_key te_SessionSeq
             (filter (\<lambda>r. te_SessionSeq r > afterSeq) (session_rows db (trim_space sessionID))))))"

definition TurnEventLogVersion :: "event_store \<Rightarrow> string \<Rightarrow> store_error + int \<times> int" where
  "TurnEventLogVersion db sessionID =
     (if trim_space sessionID = [] then Inl ErrListSessionRequired
      else let rows = session_rows db (trim_space sessionID)
           in Inr (foldr max (map te_ID rows) 0, int (length rows)))"

definition append_tool_message :: "string \<Rightarrow> string \<Rightarrow> string \<Rightarrow> llm_message list \<Rightarrow> llm_message list" where
  "append_tool_message callID toolName content out =
     (if list_ex (\<lambda>m. msg_Role m = ''tool'' \<and> msg_ToolCallID m = callID \<and> msg_Content m = content) out then out
      else out @ [zero_message\<lparr>msg_Role := ''tool'', msg_Content := content, msg_ToolCallID := callID,
                               msg_Name := toolName\<rparr>])"

text \<open>
  The transcript loop. The payload that the runtime writes has no key \<^verbatim>\<open>tool_call_id\<close>, so
  the fallback \<^verbatim>\<open>p.ToolCallID\<close> is the empty string.
\<close>

fun rebuild_loop ::
  "turn_event list \<Rightarrow> llm_message list \<Rightarrow> bool \<Rightarrow> bool \<Rightarrow> store_error + (llm_message list \<times> bool \<times> bool)" where
  "rebuild_loop [] out hasInput hasAssistant = Inr (out, hasInput, hasAssistant)"
| "rebuild_loop (event # events) out hasInput hasAssistant =
     (case te_Payload event of
        Decoded p \<Rightarrow>
          if te_EventType event = EventTurnStarted then
            (case pl_input_message p of
               None \<Rightarrow> rebuild_loop events out hasInput hasAssistant
             | Some msg \<Rightarrow> rebuild_loop events (out @ [msg]) True hasAssistant)
          else if te_EventType event = EventAssistantMessageRecorded then
            (case pl_assistant_message p of
               Some msg \<Rightarrow> rebuild_loop events (out @ [msg]) hasInput True
             | None \<Rightarrow>
                 if pl_result_content p \<noteq> []
                 then rebuild_loop events (out @ [zero_message\<lparr>msg_Role := ''assistant'',
                        msg_Content := pl_result_content p\<rparr>]) hasInput hasAssistant
                 else rebuild_loop events out hasInput hasAssistant)
          else if te_EventType event \<in> {EventToolResultRecorded, EventToolExecutionCompleted} \<and>
                  pl_result_content p \<noteq> [] then
            rebuild_loop events (append_tool_message (te_ToolCallID event) (pl_tool_name p)
              (pl_result_content p) out) hasInput hasAssistant
          else rebuild_loop events out hasInput hasAssistant
      | _ \<Rightarrow> Inl (ErrTranscriptPayload (te_ID event)))"

definition RebuildTurnMessages :: "event_store \<Rightarrow> string \<Rightarrow> string \<Rightarrow> store_error + llm_message list" where
  "RebuildTurnMessages db sid tid =
     (case rebuild_loop (ListTurnEventsForTurn db sid tid) [] False False of
        Inl e \<Rightarrow> Inl e
      | Inr (out, hasInput, hasAssistant) \<Rightarrow>
          if \<not> hasInput \<or> \<not> hasAssistant then Inl ErrTranscriptIncomplete else Inr out)"

section \<open>The log invariant\<close>

text \<open>Sequence numbers \<open>1, 2, ..., n\<close> as stored.\<close>

definition seq_upto :: "nat \<Rightarrow> u64 list" where
  "seq_upto n = map of_nat [1..<Suc n]"

definition log_ok :: "event_store \<Rightarrow> bool" where
  "log_ok db \<longleftrightarrow>
     (\<forall>sid. map te_SessionSeq (session_rows db sid) = seq_upto (length (session_rows db sid))) \<and>
     (\<forall>sid tid. map te_TurnSeq (turn_rows db sid tid) = seq_upto (length (turn_rows db sid tid))) \<and>
     sorted_wrt (<) (map te_ID (es_rows db)) \<and> (\<forall>r \<in> set (es_rows db). te_ID r \<le> es_lastID db) \<and>
     distinct (map (\<lambda>r. (te_SessionID r, te_CommandID r)) (filter (\<lambda>r. te_CommandID r \<noteq> []) (es_rows db)))"

lemma seq_upto_Suc: "seq_upto (Suc n) = seq_upto n @ [of_nat (Suc n)]"
  by (simp add: seq_upto_def)

lemma length_seq_upto [simp]: "length (seq_upto n) = n"
  by (simp add: seq_upto_def)

lemma foldr_max_snoc: "foldr max (xs @ [x]) (a :: u64) = max x (foldr max xs a)"
  by (induction xs) (auto simp: max.left_commute max.assoc)

lemma max_seq_upto: "n < 2 ^ 64 \<Longrightarrow> max_seq (seq_upto n) = of_nat n"
proof (induction n)
  case (Suc n)
  have "(of_nat n :: u64) \<le> of_nat (Suc n)"
    using Suc.prems by (simp only: word_le_nat_alt unat_of_nat) simp
  moreover have "max_seq (seq_upto (Suc n)) = max (of_nat (Suc n)) (max_seq (seq_upto n))"
    by (simp only: max_seq_def seq_upto_Suc foldr_max_snoc)
  ultimately show ?case using Suc by (simp add: max_def)
qed (simp add: max_seq_def seq_upto_def)

lemma filter_snoc_rows:
  "session_rows (db\<lparr>es_rows := es_rows db @ [e], es_lastID := k\<rparr>) sid =
   session_rows db sid @ (if te_SessionID e = sid then [e] else [])"
  "turn_rows (db\<lparr>es_rows := es_rows db @ [e], es_lastID := k\<rparr>) sid tid =
   turn_rows db sid tid @ (if te_SessionID e = sid \<and> te_TurnID e = tid then [e] else [])"
  by (simp_all add: session_rows_def turn_rows_def)

lemma rows_le: "length (session_rows db sid) \<le> length (es_rows db)" "length (turn_rows db sid tid) \<le> length (es_rows db)"
  by (simp_all add: session_rows_def turn_rows_def)

text \<open>What an accepted append does: nothing (the command was stored before), or one new row.\<close>

lemma appendTx_cases:
  assumes "appendTurnEventTx db event = (Inr (stored, inserted), db')"
  obtains (old) "\<not> inserted" "db' = db" "stored \<in> set (es_rows db)" "te_SessionID stored = te_SessionID event"
      "te_CommandID stored = te_CommandID event" "same_fact stored event"
  | (new) "inserted" "db' = db\<lparr>es_rows := es_rows db @ [stored], es_lastID := es_lastID db + 1\<rparr>"
      "te_SessionID stored = te_SessionID event" "te_TurnID stored = te_TurnID event"
      "te_CommandID stored = te_CommandID event"
      "te_SessionSeq stored = max_seq (map te_SessionSeq (session_rows db (te_SessionID event))) + 1"
      "te_TurnSeq stored = max_seq (map te_TurnSeq (turn_rows db (te_SessionID event) (te_TurnID event))) + 1"
      "te_ID stored = es_lastID db + 1"
      "te_CommandID event \<noteq> [] \<Longrightarrow>
         \<forall>r \<in> set (es_rows db). (te_SessionID r, te_CommandID r) \<noteq> (te_SessionID event, te_CommandID event)"
      "stored = event\<lparr>te_SessionSeq := te_SessionSeq stored, te_TurnSeq := te_TurnSeq stored, te_ID := te_ID stored\<rparr>"
proof -
  define hit where "hit = find (\<lambda>r. te_SessionID r = te_SessionID event \<and> te_CommandID r = te_CommandID event) (es_rows db)"
  show thesis
  proof (cases "if trim_space (te_CommandID event) \<noteq> [] then hit else None")
    case (Some r)
    have r: "r \<in> set (es_rows db)" "te_SessionID r = te_SessionID event" "te_CommandID r = te_CommandID event"
      using Some by (auto simp: hit_def find_Some_iff split: if_splits)
    have "\<not> inserted \<and> db' = db \<and> stored = r \<and> same_fact r event"
      using assms Some by (auto simp: appendTurnEventTx_def Let_def hit_def[symmetric] split: if_splits)
    then show thesis using old r by auto
  next
    case None
    have h: "te_CommandID event \<noteq> [] \<Longrightarrow> hit = None"
      using assms None by (auto simp: appendTurnEventTx_def Let_def hit_def[symmetric] split: if_splits)
    then have u: "te_CommandID event \<noteq> [] \<Longrightarrow>
        \<forall>r \<in> set (es_rows db). (te_SessionID r, te_CommandID r) \<noteq> (te_SessionID event, te_CommandID event)"
      by (auto simp: hit_def find_None_iff)
    show thesis
      by (rule new[OF _ _ _ _ _ _ _ _ u])
        (use assms None in \<open>auto simp: appendTurnEventTx_def Let_def hit_def[symmetric] split: if_splits\<close>)
  qed
qed

lemma log_ok_append:
  assumes "appendTurnEventTx db event = (Inr (stored, inserted), db')" "log_ok db"
    and len: "length (es_rows db) < 2 ^ 64 - 1"
  shows "log_ok db'"
  using assms(1)
proof (cases rule: appendTx_cases)
  case new
  have ls: "length (session_rows db sid) < 2 ^ 64" "length (turn_rows db sid tid) < 2 ^ 64" for sid tid
    using rows_le(1)[of db sid] rows_le(2)[of db sid tid] len by simp_all
  have s: "te_SessionSeq stored = of_nat (Suc (length (session_rows db (te_SessionID event))))"
    using new(6) assms(2) max_seq_upto[OF ls(1)] by (simp add: log_ok_def)
  have t: "te_TurnSeq stored = of_nat (Suc (length (turn_rows db (te_SessionID event) (te_TurnID event))))"
    using new(7) assms(2) max_seq_upto[OF ls(2)] by (simp add: log_ok_def)
  show ?thesis
    using assms(2) s t new(2,3,4,5,8,9)
    by (auto simp: log_ok_def filter_snoc_rows seq_upto_Suc sorted_wrt_append)
qed (use assms in simp)

lemma log_ok_empty: "log_ok empty_store"
  by (simp add: log_ok_def empty_store_def session_rows_def turn_rows_def seq_upto_def)

section \<open>The contract of the log\<close>

locale event_log =
  fixes append :: "'ev \<Rightarrow> 'db \<Rightarrow> ('err + 'ev) \<times> 'db"
    and log :: "string \<Rightarrow> 'db \<Rightarrow> 'ev list"
    and session :: "'ev \<Rightarrow> string"
  assumes refused: "append e db = (Inl x, db') \<Longrightarrow> log s db' = log s db"
    and appended: "append e db = (Inr e', db') \<Longrightarrow>
      session e' = session e \<and> e' \<in> set (log (session e) db') \<and>
      (log s db' = log s db \<or> s = session e \<and> log s db' = log s db @ [e'])"
begin

fun append_all :: "'ev list \<Rightarrow> 'db \<Rightarrow> 'db" where
  "append_all [] db = db"
| "append_all (e # es) db = append_all es (snd (append e db))"

lemma append_grows: "\<exists>new. log s (snd (append e db)) = log s db @ new \<and> length new \<le> 1"
proof (cases "append e db")
  case (Pair r db')
  then show ?thesis using refused[of e db _ db' s] appended[of e db _ db' s] by (cases r) auto
qed

lemma append_all_grows: "\<exists>new. log s (append_all es db) = log s db @ new"
proof (induction es arbitrary: db)
  case (Cons e es)
  obtain new1 where "log s (snd (append e db)) = log s db @ new1" using append_grows by blast
  moreover obtain new2 where "log s (append_all es (snd (append e db))) = log s (snd (append e db)) @ new2"
    using Cons.IH by blast
  ultimately show ?case by simp
qed simp

lemma other_session_untouched:
  assumes "append e db = (r, db')" "s \<noteq> session e"
  shows "log s db' = log s db"
proof (cases r)
  case (Inl x)
  then show ?thesis using assms(1) refused[of e db x db' s] by simp
next
  case (Inr e')
  then show ?thesis using assms appended[of e db e' db' s] by simp
qed

end

definition append_log :: "gotime \<Rightarrow> turn_event \<Rightarrow> event_store \<Rightarrow> (store_error + turn_event) \<times> event_store" where
  "append_log now event db = AppendTurnEvent now db event"

lemma validate_keeps:
  assumes "validateTurnEvent now e = Inr e'"
  shows "te_SessionID e' = te_SessionID e" "te_TurnID e' = te_TurnID e" "te_CommandID e' = te_CommandID e"
    "te_SessionSeq e' = te_SessionSeq e" "te_TurnSeq e' = te_TurnSeq e" "te_EventType e' = te_EventType e"
    "te_StepID e' = te_StepID e" "te_ToolCallID e' = te_ToolCallID e" "te_ToolExecutionID e' = te_ToolExecutionID e"
    "te_InteractionID e' = te_InteractionID e" "te_PayloadRef e' = te_PayloadRef e" "te_Source e' = te_Source e"
    "te_AgentID e' = te_AgentID e" "te_ToolBatchID e' = te_ToolBatchID e"
    "te_CreatedAt e' = (if te_CreatedAt e = 0 then now else te_CreatedAt e)"
    "te_Payload e' = (if te_Payload e = NoPayload then Decoded zero_payload else te_Payload e)"
  using assms by (auto simp: validateTurnEvent_def Let_def split: if_splits)

lemma validate_any_time: "validateTurnEvent now e = Inr e' \<Longrightarrow> \<exists>e2. validateTurnEvent now2 e = Inr e2"
  unfolding validateTurnEvent_def Let_def
  by (cases "te_CreatedAt e = 0"; cases "te_EventVersion e = 0"; cases "te_Payload e = NoPayload") (simp_all split: if_split_asm)

lemma append_result:
  assumes "AppendTurnEvent now db event = (Inr stored, db')"
  obtains e inserted where "validateTurnEvent now event = Inr e" "appendTurnEventTx db e = (Inr (stored, inserted), db')"
  using assms by (auto simp: AppendTurnEvent_def split: sum.splits prod.splits)

lemma append_error: "AppendTurnEvent now db event = (Inl x, db') \<Longrightarrow> db' = db"
  by (auto simp: AppendTurnEvent_def split: sum.splits prod.splits)

interpretation turn_log: event_log "append_log now" "\<lambda>s db. session_rows db s" te_SessionID for now
proof (unfold_locales, goal_cases)
  case (1 e db x db' s)
  then have "db' = db" unfolding append_log_def by (rule append_error)
  then show ?case by simp
next
  case (2 e db e' db' s)
  then obtain v inserted where v: "validateTurnEvent now e = Inr v" "appendTurnEventTx db v = (Inr (e', inserted), db')"
    using append_result by (metis append_log_def)
  from v(2) show ?case
  proof (cases rule: appendTx_cases)
    case old
    then show ?thesis using validate_keeps(1)[OF v(1)] by (auto simp: session_rows_def)
  next
    case new
    then show ?thesis using validate_keeps(1)[OF v(1)] by (auto simp: filter_snoc_rows session_rows_def)
  qed
qed

section \<open>Reading back\<close>

lemma in_seq_upto: "x \<in> set (seq_upto n) \<longleftrightarrow> (\<exists>k. 1 \<le> k \<and> k \<le> n \<and> x = of_nat k)"
  unfolding seq_upto_def set_map set_upt image_iff Bex_def by (auto simp: less_Suc_eq_le)

lemma seq_upto_strict: "n < 2 ^ 64 \<Longrightarrow> sorted_wrt (<) (seq_upto n)"
proof (induction n)
  case (Suc n)
  have "x < of_nat (Suc n)" if "x \<in> set (seq_upto n)" for x :: u64
  proof -
    have "\<exists>k. k \<le> n \<and> x = of_nat k" using that in_seq_upto by blast
    then show ?thesis using Suc.prems by (auto simp only: word_less_nat_alt unat_of_nat) simp
  qed
  then show ?case using Suc by (simp add: seq_upto_Suc sorted_wrt_append)
qed (simp add: seq_upto_def)

lemma sorted_wrt_less_sorted: "sorted_wrt (<) (map f xs) \<Longrightarrow> sorted (map f (xs :: 'a list) :: 'b :: linorder list)"
  using sorted_wrt_mono_rel[of "map f xs" "(<)" "(\<le>)"] by auto

lemma sort_key_sorted: "sorted (map f xs) \<Longrightarrow> sort_key f xs = xs"
  by (induction xs) (auto simp: insort_is_Cons)

lemma session_rows_sorted:
  assumes "log_ok db" "length (es_rows db) < 2 ^ 64"
  shows "sorted_wrt (<) (map te_SessionSeq (session_rows db sid))"
  using assms seq_upto_strict[of "length (session_rows db sid)"] rows_le(1)[of db sid] by (simp add: log_ok_def)

lemma listed_rows:
  assumes "ListTurnEvents db sid afterSeq 1000 = Inr page" "e \<in> set page"
  shows "e \<in> set (session_rows db (trim_space sid))" "te_SessionSeq e > afterSeq"
  using assms by (auto simp: ListTurnEvents_def Let_def split: if_splits dest!: in_set_takeD)

text \<open>
  \<^verbatim>\<open>restoreLifecycleEventsFrom\<close> and the session restore read the whole log in pages of 1000. Each
  full page moves the cursor forward, so the loop ends.
\<close>

function loadTurnEvents :: "event_store \<Rightarrow> string \<Rightarrow> u64 \<Rightarrow> store_error + turn_event list" where
  "loadTurnEvents db sid afterSeq =
     (case ListTurnEvents db sid afterSeq 1000 of
        Inl e \<Rightarrow> Inl e
      | Inr page \<Rightarrow>
          if length page < 1000 then Inr page
          else (case loadTurnEvents db sid (te_SessionSeq (last page)) of
                  Inl e \<Rightarrow> Inl e | Inr rest \<Rightarrow> Inr (page @ rest)))"
  by pat_completeness auto

termination
proof (relation "measure (\<lambda>(db, sid, a). length (filter (\<lambda>r. te_SessionSeq r > a) (session_rows db (trim_space sid))))", goal_cases)
  case (2 db sid a page)
  then have ne: "page \<noteq> []" by auto
  note l = listed_rows[OF 2(1) last_in_set[OF ne]]
  have "filter (\<lambda>r. te_SessionSeq r > te_SessionSeq (last page)) (session_rows db (trim_space sid)) =
        filter (\<lambda>r. te_SessionSeq r > te_SessionSeq (last page)) (filter (\<lambda>r. te_SessionSeq r > a) (session_rows db (trim_space sid)))"
    using l(2) by (auto intro!: filter_cong)
  moreover have "length (filter (\<lambda>r. te_SessionSeq r > te_SessionSeq (last page)) (filter (\<lambda>r. te_SessionSeq r > a) (session_rows db (trim_space sid))))
     < length (filter (\<lambda>r. te_SessionSeq r > a) (session_rows db (trim_space sid)))"
    by (rule length_filter_less[of "last page"]) (use l in auto)
  ultimately show ?case by simp
qed simp

lemma filter_gt_take:
  assumes "sorted_wrt (<) (map f (xs :: 'a list))" "0 < n" "n \<le> length xs"
  shows "filter (\<lambda>x. f x > (f (xs ! (n - 1)) :: 'b :: linorder)) xs = drop n xs"
proof -
  have lt: "f (xs ! i) < f (xs ! j)" if "i < j" "j < length xs" for i j
    using assms(1) that by (simp add: sorted_wrt_iff_nth_less)
  have "filter (\<lambda>x. f x > f (xs ! (n - 1))) (take n xs) = []"
  proof (rule filter_False, rule ballI)
    fix x assume "x \<in> set (take n xs)"
    then obtain i where i: "i < n" "x = xs ! i" using assms(3) by (auto simp: in_set_conv_nth)
    have "i = n - 1 \<or> f (xs ! i) < f (xs ! (n - 1))"
      using lt[of i "n - 1"] i(1) assms(2,3) by linarith
    then show "\<not> f x > f (xs ! (n - 1))" using i(2) by auto
  qed
  moreover have "filter (\<lambda>x. f x > f (xs ! (n - 1))) (drop n xs) = drop n xs"
  proof (rule filter_True, rule ballI)
    fix x assume "x \<in> set (drop n xs)"
    then obtain i where "i < length xs - n" "x = xs ! (n + i)" by (auto simp: in_set_conv_nth)
    then have i: "n + i < length xs" "x = xs ! (n + i)" by simp_all
    show "f x > f (xs ! (n - 1))" using lt[of "n - 1" "n + i"] i assms(2) by simp
  qed
  ultimately show ?thesis by (metis append_Nil append_take_drop_id filter_append)
qed

lemma load_from:
  assumes "log_ok db" "length (es_rows db) < 2 ^ 64" "trim_space sid \<noteq> []"
    and "rows = session_rows db (trim_space sid)"
  shows "loadTurnEvents db sid a = Inr (filter (\<lambda>r. te_SessionSeq r > a) rows)"
proof (induction "length (filter (\<lambda>r. te_SessionSeq r > a) rows)" arbitrary: a rule: less_induct)
  case less
  define xs where "xs = filter (\<lambda>r. te_SessionSeq r > a) rows"
  have s: "sorted_wrt (<) (map te_SessionSeq xs)"
    using session_rows_sorted[OF assms(1,2)] assms(4) unfolding xs_def by (simp add: sorted_wrt_map sorted_wrt_filter)
  have page: "ListTurnEvents db sid a 1000 = Inr (take 1000 xs)"
    using assms(3,4) sort_key_sorted[OF sorted_wrt_less_sorted[OF s]] by (simp add: ListTurnEvents_def xs_def)
  show ?case
  proof (cases "length xs < 1000")
    case True
    then show ?thesis using page by (subst loadTurnEvents.simps) (simp add: xs_def[symmetric])
  next
    case False
    have last: "te_SessionSeq (last (take 1000 xs)) = te_SessionSeq (xs ! 999)"
      using False by (subst last_conv_nth) (auto simp: min_def)
    have mem: "xs ! 999 \<in> set xs" using False by simp
    have ge: "te_SessionSeq (xs ! 999) > a" using mem by (simp add: xs_def)
    have d: "filter (\<lambda>r. te_SessionSeq r > te_SessionSeq (xs ! 999)) rows = drop 1000 xs"
    proof -
      have "filter (\<lambda>r. te_SessionSeq r > te_SessionSeq (xs ! 999)) rows = filter (\<lambda>r. te_SessionSeq r > te_SessionSeq (xs ! 999)) xs"
        using ge by (auto simp: xs_def intro!: filter_cong)
      then show ?thesis using filter_gt_take[OF s, of 1000] False by simp
    qed
    have "loadTurnEvents db sid (te_SessionSeq (xs ! 999)) = Inr (drop 1000 xs)"
      using less[of "te_SessionSeq (xs ! 999)"] False d by (simp add: xs_def[symmetric])
    then show ?thesis
      using page False last by (subst loadTurnEvents.simps) (simp add: xs_def[symmetric])
  qed
qed

lemma seq_positive: "n < 2 ^ 64 \<Longrightarrow> x \<in> set (seq_upto n) \<Longrightarrow> x > 0"
proof -
  assume "n < 2 ^ 64" "x \<in> set (seq_upto n)"
  then have "\<exists>k. 1 \<le> k \<and> k \<le> n \<and> x = of_nat k" using in_seq_upto by blast
  then show "x > 0" using \<open>n < 2 ^ 64\<close> by (auto simp only: word_less_nat_alt unat_of_nat) simp
qed

lemma load_all:
  assumes "log_ok db" "length (es_rows db) < 2 ^ 64" "trim_space sid \<noteq> []"
  shows "loadTurnEvents db sid 0 = Inr (session_rows db (trim_space sid))"
proof -
  have "te_SessionSeq r > 0" if "r \<in> set (session_rows db (trim_space sid))" for r
  proof -
    have eq: "map te_SessionSeq (session_rows db (trim_space sid)) = seq_upto (length (session_rows db (trim_space sid)))"
      using assms(1) unfolding log_ok_def by blast
    have "te_SessionSeq r \<in> set (map te_SessionSeq (session_rows db (trim_space sid)))" using that by simp
    then have "te_SessionSeq r \<in> set (seq_upto (length (session_rows db (trim_space sid))))" unfolding eq .
    moreover have "length (session_rows db (trim_space sid)) < 2 ^ 64"
      using rows_le(1)[of db "trim_space sid"] assms(2) by linarith
    ultimately show ?thesis using seq_positive by blast
  qed
  then have "filter (\<lambda>r. te_SessionSeq r > 0) (session_rows db (trim_space sid)) = session_rows db (trim_space sid)"
    by (intro filter_True) blast
  then show ?thesis using load_from[OF assms refl, of 0] by simp
qed

section \<open>Bounded reads\<close>

lemma bounded_scan_ok:
  assumes "\<And>p. 0 \<le> payload_bytes p" and "0 \<le> totalBytes"
  shows "bounded_scan payload_bytes maxEvents maxBytes out totalBytes es = Inr res \<longleftrightarrow>
    res = out @ es \<and> (es = [] \<or> int (length out + length es) \<le> maxEvents) \<and>
    (es = [] \<or> totalBytes + sum_list (map (payload_bytes \<circ> te_Payload) es) \<le> maxBytes)"
  using assms(2)
proof (induction es arbitrary: out totalBytes)
  case (Cons e es)
  define n where "n = payload_bytes (te_Payload e)"
  have n: "0 \<le> n" using assms(1) by (simp add: n_def)
  have rest: "0 \<le> sum_list (map (payload_bytes \<circ> te_Payload) es)" using assms(1) by (intro sum_list_nonneg) auto
  show ?case
  proof (cases "int (length out) \<ge> maxEvents \<or> n < 0 \<or> n > maxBytes \<or> totalBytes > maxBytes - n")
    case True
    then show ?thesis using n rest Cons.prems by (auto simp: n_def[symmetric] Let_def comp_def)
  next
    case False
    then show ?thesis
      using Cons.IH[of "totalBytes + n" "out @ [e]"] n Cons.prems
      by (cases "es = []") (auto simp: n_def[symmetric] Let_def comp_def algebra_simps)
  qed
qed auto

section \<open>Properties\<close>

text \<open>The stores that sequences of appends build from the empty database.\<close>

inductive stored_log :: "event_store \<Rightarrow> bool" where
  Empty: "stored_log empty_store"
| Append: "stored_log db \<Longrightarrow> AppendTurnEvent now db event = (r, db') \<Longrightarrow> stored_log db'"
| AppendSnapshot: "stored_log db \<Longrightarrow> AppendTurnEventWithSnapshot now db event msgs = (r, db') \<Longrightarrow> stored_log db'"

lemma log_ok_snapshots [simp]: "log_ok (db\<lparr>es_snapshots := x\<rparr>) = log_ok db"
  by (simp add: log_ok_def session_rows_def turn_rows_def)

lemma append_snapshot_rows:
  assumes "AppendTurnEventWithSnapshot now db event msgs = (r, db')"
  obtains db1 r1 x where "AppendTurnEvent now db event = (r1, db1)" "db' = db1\<lparr>es_snapshots := x\<rparr>" "r = r1"
proof -
  obtain r1 db1 where a: "AppendTurnEvent now db event = (r1, db1)" by (cases "AppendTurnEvent now db event")
  have "r = r1 \<and> db' = db1\<lparr>es_snapshots := es_snapshots db'\<rparr>"
    using assms a by (auto simp: AppendTurnEventWithSnapshot_def AppendTurnEvent_def split: if_splits sum.splits prod.splits)
  with that a show thesis by blast
qed

lemma append_length: "AppendTurnEvent now db event = (r, db') \<Longrightarrow> length (es_rows db) \<le> length (es_rows db')"
proof (cases r)
  case (Inr s)
  assume a: "AppendTurnEvent now db event = (r, db')"
  then obtain e i where "appendTurnEventTx db e = (Inr (s, i), db')" using append_result Inr by blast
  then show ?thesis by (cases rule: appendTx_cases) auto
qed (auto dest: append_error)

lemma log_ok_AppendTurnEvent:
  assumes "AppendTurnEvent now db event = (r, db')" "log_ok db" "length (es_rows db') < 2 ^ 64"
  shows "log_ok db'"
proof (cases r)
  case (Inl x)
  then have "db' = db" using assms(1) by (auto dest: append_error)
  then show ?thesis using assms(2) by simp
next
  case (Inr s)
  then obtain e i where a: "appendTurnEventTx db e = (Inr (s, i), db')" using append_result assms(1) by blast
  from a show ?thesis
  proof (cases rule: appendTx_cases)
    case old
    then show ?thesis using assms(2) by simp
  next
    case new
    then have "length (es_rows db) < 2 ^ 64 - 1" using assms(3) by simp
    then show ?thesis using log_ok_append[OF a assms(2)] by simp
  qed
qed

lemma stored_log_ok:
  assumes "stored_log db" "length (es_rows db) < 2 ^ 64"
  shows "log_ok db"
  using assms
proof (induction rule: stored_log.induct)
  case Empty
  show ?case by (rule log_ok_empty)
next
  case (Append db now event r db')
  then show ?case using log_ok_AppendTurnEvent[OF Append.hyps(2)] append_length[OF Append.hyps(2)] by simp
next
  case (AppendSnapshot db now event msgs r db')
  obtain db1 r1 x where a: "AppendTurnEvent now db event = (r1, db1)" "db' = db1\<lparr>es_snapshots := x\<rparr>"
    using append_snapshot_rows[OF AppendSnapshot.hyps(2)] by blast
  then show ?case using log_ok_AppendTurnEvent[OF a(1)] append_length[OF a(1)] AppendSnapshot by simp
qed

text \<open>
  C10. The event log is gapless: in every store built by appends (with and without a snapshot,
  accepted or refused), the events of each session carry the session sequence numbers 1, 2, ...
  in insertion order, the events of each Turn likewise, row ids increase, and no two events of a
  session share a command id.
\<close>

theorem event_log_contiguous:
  assumes "stored_log db" "length (es_rows db) < 2 ^ 64"
  shows "log_ok db"
  by (rule stored_log_ok[OF assms])

definition demo_event :: "string \<Rightarrow> turn_event" where
  "demo_event cid = (NewTurnEventEnvelope ''s'' EventTurnStarted 5)\<lparr>te_TurnID := ''t'', te_CommandID := cid\<rparr>"

definition demo_store :: event_store where
  "demo_store = snd (AppendTurnEvent 9 (snd (AppendTurnEvent 9 empty_store (demo_event ''a''))) (demo_event ''b''))"

lemma demo_store_log: "stored_log demo_store"
  unfolding demo_store_def by (metis prod.collapse stored_log.Append stored_log.Empty)

theorem event_log_contiguous_witness: "log_ok demo_store \<and> map te_SessionSeq (es_rows demo_store) = [1, 2]"
proof -
  have e: "map te_SessionSeq (es_rows demo_store) = [1, 2]" by code_simp
  have "length (map te_SessionSeq (es_rows demo_store)) = 2" unfolding e by simp
  then have "length (es_rows demo_store) < 2 ^ 64" by simp
  then show ?thesis using event_log_contiguous[OF demo_store_log] e by simp
qed

text \<open>
  Appending is idempotent per command id: after an event with a non-blank command id was
  accepted, appending it again returns the stored event and changes nothing, even after another
  append in between and whatever the clock says.
\<close>

lemma append_idempotent:
  assumes "log_ok db" "length (es_rows db') < 2 ^ 64" "length (es_rows db2) < 2 ^ 64" "trim_space (te_CommandID event) \<noteq> []"
    and "AppendTurnEvent now db event = (Inr stored, db')"
    and "AppendTurnEvent now2 db' other = (r, db2)"
  shows "AppendTurnEvent now3 db2 event = (Inr stored, db2)"
proof -
  obtain e i where e: "validateTurnEvent now event = Inr e" "appendTurnEventTx db e = (Inr (stored, i), db')"
    using append_result[OF assms(5)] .
  note k = validate_keeps[OF e(1)]
  have ok2: "log_ok db2" using log_ok_AppendTurnEvent assms by blast
  have s: "stored \<in> set (es_rows db')" "te_SessionID stored = te_SessionID event" "te_CommandID stored = te_CommandID event"
    "same_fact stored e"
    using e(2) k by (cases rule: appendTx_cases; auto simp: same_fact_def)+
  have "stored \<in> set (session_rows db' (te_SessionID event))" using s by (simp add: session_rows_def)
  moreover have "\<exists>new. session_rows db2 (te_SessionID event) = session_rows db' (te_SessionID event) @ new"
    using turn_log.append_grows[of now2 other db' "te_SessionID event"] assms(6) by (auto simp: append_log_def)
  ultimately have "stored \<in> set (session_rows db2 (te_SessionID event))" by auto
  then have s2: "stored \<in> set (es_rows db2)" by (simp add: session_rows_def)
  have ne: "te_CommandID event \<noteq> []" using assms(4) by auto
  obtain e3 where e3: "validateTurnEvent now3 event = Inr e3" using validate_any_time[OF e(1)] ..
  note k3 = validate_keeps[OF e3]
  have uniq: "r = stored" if "r \<in> set (es_rows db2)" "te_SessionID r = te_SessionID event" "te_CommandID r = te_CommandID event" for r
  proof -
    have "inj_on (\<lambda>r. (te_SessionID r, te_CommandID r)) (set (filter (\<lambda>r. te_CommandID r \<noteq> []) (es_rows db2)))"
      using ok2 by (auto simp: log_ok_def distinct_map)
    from inj_onD[OF this, of r stored] show ?thesis using that s s2 ne by simp
  qed
  have hit: "find (\<lambda>r. te_SessionID r = te_SessionID e3 \<and> te_CommandID r = te_CommandID e3) (es_rows db2) = Some stored"
  proof (cases "find (\<lambda>r. te_SessionID r = te_SessionID e3 \<and> te_CommandID r = te_CommandID e3) (es_rows db2)")
    case None
    then show ?thesis using s2 s k3 by (auto simp: find_None_iff)
  next
    case (Some r)
    then show ?thesis using uniq[of r] k3 by (auto simp: find_Some_iff)
  qed
  have "same_fact stored e3" using s(4) k k3 by (simp add: same_fact_def)
  then have "appendTurnEventTx db2 e3 = (Inr (stored, False), db2)"
    using hit assms(4) k3 by (simp add: appendTurnEventTx_def Let_def)
  then show ?thesis using e3 by (simp add: AppendTurnEvent_def)
qed

lemma append_idempotent_witness:
  "\<exists>stored. AppendTurnEvent 11 demo_store (demo_event ''a'') = (Inr stored, demo_store)"
proof -
  define db1 where "db1 = snd (AppendTurnEvent 9 empty_store (demo_event ''a''))"
  have "(case fst (AppendTurnEvent 9 empty_store (demo_event ''a'')) of Inl _ \<Rightarrow> False | Inr _ \<Rightarrow> True)" by code_simp
  then obtain st where a: "AppendTurnEvent 9 empty_store (demo_event ''a'') = (Inr st, db1)"
    by (cases "AppendTurnEvent 9 empty_store (demo_event ''a'')") (auto simp: db1_def split: sum.splits)
  obtain r where b: "AppendTurnEvent 9 db1 (demo_event ''b'') = (r, demo_store)"
    by (cases "AppendTurnEvent 9 db1 (demo_event ''b'')") (auto simp: db1_def demo_store_def)
  have "length (es_rows demo_store) = 2" by code_simp
  then have l2: "length (es_rows demo_store) < 2 ^ 64" by simp
  have l1: "length (es_rows db1) < 2 ^ 64" using append_length[OF b] l2 by simp
  have "trim_space (te_CommandID (demo_event ''a'')) \<noteq> []" by code_simp
  from append_idempotent[OF log_ok_empty l1 l2 this a b] show ?thesis by blast
qed

text \<open>
  C11. Restoring reads the whole log: the paging loop ends and returns exactly the events of the
  session, each once, in the order they were appended, however many pages there are.
\<close>

theorem load_reads_whole_session:
  assumes "stored_log db" "length (es_rows db) < 2 ^ 64" "trim_space sid \<noteq> []"
  shows "loadTurnEvents db sid 0 = Inr (filter (\<lambda>r. te_SessionID r = trim_space sid) (es_rows db))"
  using load_all[OF stored_log_ok[OF assms(1,2)] assms(2,3)] by (simp add: session_rows_def)

theorem load_reads_whole_session_witness:
  "\<exists>es. loadTurnEvents demo_store ''s'' 0 = Inr es \<and> map te_CommandID es = [''a'', ''b'']"
proof -
  have "length (es_rows demo_store) = 2" by code_simp
  then have l: "length (es_rows demo_store) < 2 ^ 64" by simp
  have t: "trim_space ''s'' \<noteq> []" by code_simp
  have "map te_CommandID (filter (\<lambda>r. te_SessionID r = trim_space ''s'') (es_rows demo_store)) = [''a'', ''b'']" by code_simp
  then show ?thesis using load_reads_whole_session[OF demo_store_log l t] by simp
qed

text \<open>
  Bounded reads are all or nothing: a bounded transcript read succeeds exactly when the Turn has
  at most the allowed number of events and payload bytes, and then it returns the complete
  transcript.
\<close>

lemma bounded_read_complete:
  assumes "\<And>p. 0 \<le> payload_bytes p" "0 < maxEvents" "maxEvents \<le> 100000" "0 < maxBytes" "maxBytes \<le> 64 * 1024 * 1024"
  shows "ListTurnEventsForTurnBounded payload_bytes db sid tid maxEvents maxBytes = Inr es \<longleftrightarrow>
    es = ListTurnEventsForTurn db sid tid \<and> int (length es) \<le> maxEvents \<and>
    sum_list (map (payload_bytes \<circ> te_Payload) es) \<le> maxBytes"
proof -
  define rows where "rows = ListTurnEventsForTurn db sid tid"
  define tk where "tk = take (nat (maxEvents + 1)) rows"
  have b: "ListTurnEventsForTurnBounded payload_bytes db sid tid maxEvents maxBytes =
      bounded_scan payload_bytes maxEvents maxBytes [] 0 tk"
    using assms by (simp add: ListTurnEventsForTurnBounded_def rows_def tk_def)
  have iff: "ListTurnEventsForTurnBounded payload_bytes db sid tid maxEvents maxBytes = Inr es \<longleftrightarrow>
      es = tk \<and> (tk = [] \<or> int (length es) \<le> maxEvents) \<and>
      (tk = [] \<or> sum_list (map (payload_bytes \<circ> te_Payload) es) \<le> maxBytes)"
    unfolding b by (subst bounded_scan_ok[OF assms(1)]) auto
  have short: "int (length tk) \<le> maxEvents \<longleftrightarrow> int (length rows) \<le> maxEvents"
    using assms(2) by (auto simp: tk_def min_def split: if_splits)
  have full: "tk = rows" if "int (length rows) \<le> maxEvents"
    using that by (simp add: tk_def)
  have nil: "tk = [] \<longleftrightarrow> rows = []" using assms(2) by (auto simp: tk_def)
  show ?thesis unfolding iff rows_def[symmetric] using short full nil assms(2,4) by (cases "rows = []") auto
qed

lemma bounded_read_complete_witness:
  "\<exists>es. ListTurnEventsForTurnBounded (\<lambda>_. 2) demo_store ''s'' ''t'' 5 100 = Inr es \<and> length es = 2"
proof -
  have e: "(case ListTurnEventsForTurnBounded (\<lambda>_. 2) demo_store ''s'' ''t'' 5 100 of Inl _ \<Rightarrow> None | Inr es \<Rightarrow> Some (length es)) = Some 2"
    by code_simp
  then obtain es where es: "ListTurnEventsForTurnBounded (\<lambda>_. 2) demo_store ''s'' ''t'' 5 100 = Inr es" "length es = 2"
    by (auto split: sum.splits)
  have "es = ListTurnEventsForTurn demo_store ''s'' ''t''"
    using bounded_read_complete[of "\<lambda>_. 2" 5 100 demo_store "''s''" "''t''" es] es by simp
  then show ?thesis using es by blast
qed

end
