(* ===== verification/Journal.thy ===== *)
theory Journal
  imports Coordinator_Budget Event_Store
begin

text \<open>
  The write-ahead journal of \<^verbatim>\<open>node/internal/session/runtime_lifecycle.go\<close>: how the session
  runtime stamps a lifecycle command, dispatches it durably (the coordinator applies it, the store
  appends the event, and the coordinator rolls back when the store refuses), and rebuilds the
  coordinator after a restart by replaying the log. The main result is that the replayed
  coordinator is the one the process had when it stopped.

  \<open>json_valid\<close> is \<^verbatim>\<open>json.Valid\<close> and \<open>json_compact\<close> what \<^verbatim>\<open>json.Marshal\<close>
  makes of an embedded \<^verbatim>\<open>json.RawMessage\<close>; \<open>now\<close> is the clock of the dispatcher,
  \<open>now_store\<close> the clock the store reads. The runtime is not nil.
\<close>

section \<open>Identifiers\<close>

lemma strip_first_append_plain:
  assumes "list_all (\<lambda>p. p \<noteq> [] \<and> list_all (\<lambda>c. \<not> plain_char c) p) ps"
    and "strip_first ps x = None" "plain_char c"
  shows "strip_first ps (x @ c # s) = None"
  using assms
proof (induction ps)
  case (Cons p ps)
  have "take (length p) (x @ c # s) \<noteq> p"
  proof (cases "length p \<le> length x")
    case True
    then show ?thesis using Cons.prems by (auto split: if_splits)
  next
    case False
    then have "c \<in> set (take (length p) (x @ c # s))" by (simp add: take_Cons')
    moreover have "c \<notin> set p" using Cons.prems(1,3) by (auto simp: list_all_iff)
    ultimately show ?thesis by metis
  qed
  then show ?case using Cons by (auto split: if_splits)
qed simp

lemma spaces_never_plain:
  "list_all (\<lambda>p. p \<noteq> [] \<and> list_all (\<lambda>c. \<not> plain_char c) p) unicode_spaces"
  by (simp add: unicode_spaces_def plain_char_def of_char_def)

lemma trimmed_no_prefix:
  assumes "trim_space x = x"
  shows "strip_first unicode_spaces x = None"
proof (rule ccontr)
  assume "strip_first unicode_spaces x \<noteq> None"
  then obtain r where r: "strip_first unicode_spaces x = Some r" by auto
  have le: "length (trim_with ps y) \<le> length y" for ps y
    using trim_with_suffix[of y ps] by (metis le_add2 length_append)
  have "length (trim_space x) \<le> length (trim_with unicode_spaces x)"
    using le[of "map rev unicode_spaces" "rev (trim_with unicode_spaces x)"] by (simp add: trim_space_def)
  also have "\<dots> = length (trim_with unicode_spaces r)" using r by (simp add: trim_with.simps[of _ x])
  also have "\<dots> \<le> length r" by (rule le)
  also have "\<dots> < length x" using strip_first_shorter[OF r] .
  finally show False using assms by simp
qed

lemma trim_space_append_plain:
  assumes "trim_space x = x" "plain_char c" "plain_char (last (c # s))"
  shows "trim_space (x @ c # s) = x @ c # s"
proof -
  have "trim_with unicode_spaces (x @ c # s) = x @ c # s"
    using strip_first_append_plain[OF spaces_never_plain trimmed_no_prefix[OF assms(1)] assms(2)] by (rule trim_with_None)
  moreover have "trim_with (map rev unicode_spaces) (rev (x @ c # s)) = rev (x @ c # s)"
    by (rule trim_with_None, rule strip_first_plain[OF spaces_not_plain(2)])
      (use assms(3) in \<open>simp add: hd_append hd_rev split: if_splits\<close>)
  ultimately show ?thesis by (simp add: trim_space_def)
qed

definition lifecycleNextCommandID :: "string \<Rightarrow> u64 \<Rightarrow> string \<times> u64" where
  "lifecycleNextCommandID sid seq = (sid @ ''-lifecycle-'' @ show_nat (unat (seq + 1)), seq + 1)"

text \<open>\<^verbatim>\<open>strings.LastIndexByte\<close> and the text after it.\<close>

definition after_last_dash :: "string \<Rightarrow> string option" where
  "after_last_dash s = (if CHR ''-'' \<in> set s then Some (rev (takeWhile (\<lambda>c. c \<noteq> CHR ''-'') (rev s))) else None)"

definition lifecycleCommandSequence :: "string \<Rightarrow> u64" where
  "lifecycleCommandSequence commandID =
     (case after_last_dash (trim_space commandID) of
        None \<Rightarrow> 0
      | Some digits \<Rightarrow> if digits = [] then 0
                       else (case parse_uint digits of None \<Rightarrow> 0 | Some n \<Rightarrow> n))"

definition lifecycleStepID :: "string \<Rightarrow> nat \<Rightarrow> string" where
  "lifecycleStepID turnID index = turnID @ ''-step-'' @ show_nat index"

section \<open>Events of commands\<close>

definition lifecycleEventType :: "command_type \<Rightarrow> event_type option" where
  "lifecycleEventType ct =
     (case ct of
        CommandStartTurn \<Rightarrow> Some EventTurnStarted
      | CommandStartStep \<Rightarrow> Some EventStepStarted
      | CommandTurnSnapshotCreated \<Rightarrow> Some EventTurnSnapshotCreated
      | CommandModelContextChanged \<Rightarrow> Some EventModelContextChanged
      | CommandModelRequestStarted \<Rightarrow> Some EventModelRequestStarted
      | CommandModelResponseCompleted \<Rightarrow> Some EventModelRequestCompleted
      | CommandModelRequestFailed \<Rightarrow> Some EventModelRequestFailed
      | CommandModelRequestRetrying \<Rightarrow> Some EventModelRequestRetrying
      | CommandModelUsageRecorded \<Rightarrow> Some EventModelUsageRecorded
      | CommandAssistantReceived \<Rightarrow> Some EventAssistantMessageRecorded
      | CommandToolBatchCreated \<Rightarrow> Some EventToolBatchCreated
      | CommandToolBatchSettled \<Rightarrow> Some EventToolBatchSettled
      | CommandToolCallRecorded \<Rightarrow> Some EventToolCallRecorded
      | CommandToolExecutionStarted \<Rightarrow> Some EventToolExecutionStarted
      | CommandToolExecutionRetrying \<Rightarrow> Some EventToolExecutionRetrying
      | CommandToolExecutionCompleted \<Rightarrow> Some EventToolExecutionCompleted
      | CommandToolExecutionFailed \<Rightarrow> Some EventToolExecutionFailed
      | CommandToolExecutionReconciled \<Rightarrow> Some EventToolExecutionReconciled
      | CommandToolResultRecorded \<Rightarrow> Some EventToolResultRecorded
      | CommandInteractionRequested \<Rightarrow> Some EventInteractionRequested
      | CommandInteractionResolved \<Rightarrow> Some EventInteractionResolved
      | CommandCompleteStep \<Rightarrow> Some EventStepCompleted
      | CommandFailStep \<Rightarrow> Some EventStepFailed
      | CommandInterruptStep \<Rightarrow> Some EventStepInterrupted
      | CommandCancelStep \<Rightarrow> Some EventStepCancelled
      | CommandCompleteTurn \<Rightarrow> Some EventTurnCompleted
      | CommandFailTurn \<Rightarrow> Some EventTurnFailed
      | CommandInterruptTurn \<Rightarrow> Some EventTurnInterrupted
      | CommandCancelTurn \<Rightarrow> Some EventTurnCancelled
      | CommandBudgetExhausted \<Rightarrow> Some EventTurnBudgetExhausted
      | CommandContextCompacted \<Rightarrow> Some EventContextCompacted
      | CommandExternalFactRecorded \<Rightarrow> Some EventExternalFactRecorded
      | Command_Other s \<Rightarrow> None)"

definition lifecycleArgumentsJSON :: "(string \<Rightarrow> bool) \<Rightarrow> json_raw \<Rightarrow> string" where
  "lifecycleArgumentsJSON json_valid arguments =
     (if arguments = [] \<or> length arguments > 64 * 1024 \<or> \<not> json_valid arguments then '''' else arguments)"

text \<open>
  An embedded \<^verbatim>\<open>json.RawMessage\<close> that is nil is written as \<^verbatim>\<open>null\<close>, and reading
  \<^verbatim>\<open>null\<close> into a \<^verbatim>\<open>json.RawMessage\<close> gives the four bytes.
\<close>

definition raw_message :: "(string \<Rightarrow> string) \<Rightarrow> json_raw \<Rightarrow> json_raw" where
  "raw_message json_compact p = (if p = [] then ''null'' else json_compact p)"

definition lifecycleInputMessage :: "llm_message option \<Rightarrow> event_type \<Rightarrow> llm_message option" where
  "lifecycleInputMessage pendingInput e = (if e = EventTurnStarted then pendingInput else None)"

definition lifecyclePayload ::
  "(string \<Rightarrow> bool) \<Rightarrow> (string \<Rightarrow> string) \<Rightarrow> llm_message option \<Rightarrow> turn_command \<Rightarrow>
   coordinator_snapshot \<Rightarrow> event_type \<Rightarrow> lifecycle_payload" where
  "lifecyclePayload json_valid json_compact pendingInput cmd snap e =
     \<lparr>pl_generation = cmd_Generation cmd, pl_reason = cmd_Reason cmd, pl_has_tools = cmd_HasTools cmd,
      pl_final_summary = cmd_FinalSummary cmd, pl_tool_batch_id = cmd_ToolBatchID cmd,
      pl_external_fact_id = cmd_ExternalFactID cmd, pl_external_fact_kind = cmd_ExternalFactKind cmd,
      pl_tool_name = cmd_ToolName cmd, pl_interaction_id = cmd_InteractionID cmd,
      pl_interaction_kind = cmd_InteractionKind cmd, pl_interaction_revision = cmd_InteractionRevision cmd,
      pl_request_digest = cmd_RequestDigest cmd, pl_assistant_message_id = cmd_AssistantMessageID cmd,
      pl_assistant_message = cmd_AssistantMessage cmd,
      pl_arguments_json = lifecycleArgumentsJSON json_valid (cmd_Arguments cmd),
      pl_runtime_revision = cmd_RuntimeRevision cmd, pl_runtime_digest = cmd_RuntimeDigest cmd,
      pl_prompt_digest = cmd_PromptDigest cmd, pl_tool_digest = cmd_ToolDigest cmd,
      pl_budget = cmd_Budget cmd, pl_context_snapshot = cmd_ContextSnapshot cmd,
      pl_interaction_payload = raw_message json_compact (cmd_Payload cmd),
      pl_result_content = cmd_ResultContent cmd, pl_context_before_digest = cmd_ContextBeforeDigest cmd,
      pl_context_after_digest = cmd_ContextAfterDigest cmd,
      pl_compacted_message_from = cmd_CompactedMessageFrom cmd,
      pl_compacted_message_to = cmd_CompactedMessageTo cmd, pl_error_kind = cmd_ErrorKind cmd,
      pl_retryable = cmd_Retryable cmd, pl_max_attempts = cmd_MaxAttempts cmd,
      pl_retry_after_ms = cmd_RetryAfterMS cmd, pl_execution_status = cmd_ExecutionStatus cmd,
      pl_usage = cmd_Usage cmd, pl_turn_status = snap_TurnStatus snap,
      pl_turn_end_reason = snap_TurnEndReason snap, pl_step_status = snap_StepStatus snap,
      pl_step_end_reason = snap_StepEndReason snap, pl_step_index = snap_StepIndex snap,
      pl_context_epoch = snap_ContextEpoch snap, pl_recovery_required = snap_RecoveryRequired snap,
      pl_input_message = lifecycleInputMessage pendingInput e\<rparr>"

section \<open>The runtime\<close>

datatype journal_error = ErrMarshalPayload | ErrStore store_error

record journal_runtime =
  jr_sessionID :: string
  jr_agentID :: string
  jr_coordinator :: coordinator
  jr_store :: "event_store option"
  jr_commandSeq :: u64
  jr_eventSeq :: u64
  jr_pendingInput :: "llm_message option"

definition lifecycleEvent ::
  "(string \<Rightarrow> bool) \<Rightarrow> (string \<Rightarrow> string) \<Rightarrow> journal_runtime \<Rightarrow> event_type \<Rightarrow> turn_command \<Rightarrow>
   coordinator_snapshot \<Rightarrow> turn_event" where
  "lifecycleEvent json_valid json_compact rt eventType cmd snap =
     (NewTurnEventEnvelope (jr_sessionID rt) eventType (cmd_At cmd))
       \<lparr>te_AgentID := jr_agentID rt, te_TurnID := snap_TurnID snap, te_StepID := snap_StepID snap,
        te_ToolBatchID := (if snap_ToolBatchID snap = [] then cmd_ToolBatchID cmd else snap_ToolBatchID snap),
        te_ToolCallID := cmd_ToolCallID cmd, te_ToolExecutionID := cmd_ToolExecutionID cmd,
        te_InteractionID := (if cmd_InteractionID cmd = [] then snap_InteractionID snap else cmd_InteractionID cmd),
        te_Source := (if cmd_Source cmd = [] then snap_Source snap else cmd_Source cmd),
        te_CommandID := cmd_CommandID cmd,
        te_Payload := Decoded (lifecyclePayload json_valid json_compact (jr_pendingInput rt) cmd snap eventType),
        te_PayloadRef := cmd_PayloadRef cmd\<rparr>"

definition setLifecycleEventSequence :: "u64 \<Rightarrow> u64 \<Rightarrow> u64" where
  "setLifecycleEventSequence current sequence = (if sequence \<le> current then current else sequence)"

definition lifecyclePersistEvent ::
  "(string \<Rightarrow> bool) \<Rightarrow> (string \<Rightarrow> string) \<Rightarrow> gotime \<Rightarrow> journal_runtime \<Rightarrow> turn_command \<Rightarrow>
   coordinator_snapshot \<Rightarrow> event_store \<times> u64 \<Rightarrow> journal_error option \<times> event_store \<times> u64" where
  "lifecyclePersistEvent json_valid json_compact now_store rt cmd snap w =
     (case w of (db, seq) \<Rightarrow>
        (case lifecycleEventType (cmd_Type cmd) of
           None \<Rightarrow> (None, db, seq)
         | Some eventType \<Rightarrow>
             if snap_TurnID snap = [] then (None, db, seq)
             else if cmd_Payload cmd \<noteq> [] \<and> \<not> json_valid (cmd_Payload cmd) then (Some ErrMarshalPayload, db, seq)
             else
               let event = lifecycleEvent json_valid json_compact rt eventType cmd snap;
                   messages = (case RebuildTurnMessages db (te_SessionID event) (te_TurnID event) of
                                 Inl _ \<Rightarrow> [] | Inr ms \<Rightarrow> ms)
               in case (if eventType = EventTurnCompleted
                        then AppendTurnEventWithSnapshot now_store db event messages
                        else AppendTurnEvent now_store db event) of
                    (Inl e, db') \<Rightarrow> (Some (ErrStore e), db', seq)
                  | (Inr stored, db') \<Rightarrow> (None, db', setLifecycleEventSequence seq (te_SessionSeq stored))))"

datatype 'o dispatch_failure = DurableFailure "journal_error durable_error" | ObserverFailure 'o

text \<open>
  \<open>observe\<close> is the callback \<^verbatim>\<open>onLifecycle\<close>: its error, or \<open>None\<close>. The marker
  event of a tool batch is written after the dispatch; its failure is only logged.
\<close>

definition lifecycleDispatchLockedErr ::
  "(string \<Rightarrow> bool) \<Rightarrow> (string \<Rightarrow> string) \<Rightarrow> gotime \<Rightarrow> gotime \<Rightarrow> (coordinator_snapshot \<Rightarrow> 'o option) \<Rightarrow>
   journal_runtime \<Rightarrow> turn_command \<Rightarrow> journal_runtime \<times> coordinator_snapshot \<times> 'o dispatch_failure option" where
  "lifecycleDispatchLockedErr json_valid json_compact now now_store observe rt0 cmd0 =
     (let (cmd, rt) = (if cmd_CommandID cmd0 = []
                       then (case lifecycleNextCommandID (jr_sessionID rt0) (jr_commandSeq rt0) of
                               (cid, n) \<Rightarrow> (cmd0\<lparr>cmd_CommandID := cid\<rparr>, rt0\<lparr>jr_commandSeq := n\<rparr>))
                       else (cmd0, rt0));
          persist = (\<lambda>db. Some (lifecyclePersistEvent json_valid json_compact now_store rt));
          (c, snap, err, w) =
            (case jr_store rt of
               None \<Rightarrow> (case DispatchDurable now (jr_coordinator rt) cmd None () of
                          (c, snap, err, _) \<Rightarrow> (c, snap, err, None))
             | Some db \<Rightarrow> (case DispatchDurable now (jr_coordinator rt) cmd (persist db) (db, jr_eventSeq rt) of
                          (c, snap, err, w) \<Rightarrow> (c, snap, err, Some w)));
          rt1 = rt\<lparr>jr_coordinator := c, jr_store := map_option fst w,
                   jr_eventSeq := (case w of None \<Rightarrow> jr_eventSeq rt | Some (_, sq) \<Rightarrow> sq)\<rparr>
      in case err of
           Some e \<Rightarrow> (rt1, snap, Some (DurableFailure e))
         | None \<Rightarrow>
             (case observe snap of
                Some e \<Rightarrow> (rt1, snap, Some (ObserverFailure e))
              | None \<Rightarrow>
                  let rt2 = (case jr_store rt1 of None \<Rightarrow> rt1
                    | Some db \<Rightarrow>
                       if cmd_Type cmd = CommandAssistantReceived \<and> cmd_HasTools cmd \<and> snap_ToolBatchID snap \<noteq> []
                       then (case lifecyclePersistEvent json_valid json_compact now_store rt1
                                    (cmd\<lparr>cmd_Type := CommandToolBatchCreated,
                                         cmd_ToolBatchID := snap_ToolBatchID snap,
                                         cmd_CommandID := cmd_CommandID cmd @ ''-batch''\<rparr>) snap (db, jr_eventSeq rt1) of
                               (_, db', sq) \<Rightarrow> rt1\<lparr>jr_store := Some db', jr_eventSeq := sq\<rparr>)
                       else rt1)
                  in (rt2, snap, None)))"

text \<open>
  The first part of \<^verbatim>\<open>restoreLifecycleEventsFrom\<close>: load the log, replay it, and advance the
  command counter past every id in it. (The reconciliation of in-flight executions that follows is
  made of further dispatches.)
\<close>

definition restoreLifecycleProjection :: "(string \<Rightarrow> bool) \<Rightarrow> gotime \<Rightarrow> journal_runtime \<Rightarrow> journal_runtime" where
  "restoreLifecycleProjection json_valid now rt =
     (case jr_store rt of None \<Rightarrow> rt
      | Some db \<Rightarrow>
         (case loadTurnEvents db (jr_sessionID rt) 0 of
            Inl _ \<Rightarrow> rt
          | Inr [] \<Rightarrow> rt
          | Inr (e # es) \<Rightarrow>
              let rt1 = rt\<lparr>jr_eventSeq := setLifecycleEventSequence (jr_eventSeq rt) (te_SessionSeq (last (e # es)))\<rparr>
              in case Restore now json_valid (jr_coordinator rt) (e # es) of
                   (c, Some _) \<Rightarrow> rt1\<lparr>jr_coordinator := c\<rparr>
                 | (c, None) \<Rightarrow> rt1\<lparr>jr_coordinator := c,
                      jr_commandSeq := foldl (\<lambda>n ev. max n (lifecycleCommandSequence (te_CommandID ev)))
                                         (jr_commandSeq rt1) (e # es)\<rparr>))"

section \<open>Applied commands are not read by the handlers\<close>

definition with_applied :: "string list option \<Rightarrow> coordinator \<Rightarrow> coordinator" where
  "with_applied x c = c\<lparr>co_appliedCommands := x\<rparr>"

definition lift_applied :: "string list option \<Rightarrow> outcome \<Rightarrow> outcome" where
  "lift_applied x r = (with_applied x (fst r), snd r)"

lemma with_applied_fields [simp]:
  "co_sessionID (with_applied x c) = co_sessionID c" "co_agentID (with_applied x c) = co_agentID c"
  "co_generation (with_applied x c) = co_generation c" "co_turn (with_applied x c) = co_turn c"
  "co_step (with_applied x c) = co_step c" "co_batch (with_applied x c) = co_batch c"
  "co_executions (with_applied x c) = co_executions c" "co_toolResults (with_applied x c) = co_toolResults c"
  "co_externalFacts (with_applied x c) = co_externalFacts c" "co_interaction (with_applied x c) = co_interaction c"
  "co_attempts (with_applied x c) = co_attempts c" "co_recoveryRequired (with_applied x c) = co_recoveryRequired c"
  by (simp_all add: with_applied_def)

lemma with_applied_upd [simp]:
  "(with_applied x c)\<lparr>co_generation := a1\<rparr> = with_applied x (c\<lparr>co_generation := a1\<rparr>)"
  "(with_applied x c)\<lparr>co_turn := a2\<rparr> = with_applied x (c\<lparr>co_turn := a2\<rparr>)"
  "(with_applied x c)\<lparr>co_step := a3\<rparr> = with_applied x (c\<lparr>co_step := a3\<rparr>)"
  "(with_applied x c)\<lparr>co_batch := a4\<rparr> = with_applied x (c\<lparr>co_batch := a4\<rparr>)"
  "(with_applied x c)\<lparr>co_executions := a5\<rparr> = with_applied x (c\<lparr>co_executions := a5\<rparr>)"
  "(with_applied x c)\<lparr>co_toolResults := a6\<rparr> = with_applied x (c\<lparr>co_toolResults := a6\<rparr>)"
  "(with_applied x c)\<lparr>co_externalFacts := a7\<rparr> = with_applied x (c\<lparr>co_externalFacts := a7\<rparr>)"
  "(with_applied x c)\<lparr>co_interaction := a8\<rparr> = with_applied x (c\<lparr>co_interaction := a8\<rparr>)"
  "(with_applied x c)\<lparr>co_attempts := a9\<rparr> = with_applied x (c\<lparr>co_attempts := a9\<rparr>)"
  "(with_applied x c)\<lparr>co_recoveryRequired := a10\<rparr> = with_applied x (c\<lparr>co_recoveryRequired := a10\<rparr>)"
  by (simp_all add: with_applied_def)

lemma lift_applied_simps [simp]:
  "lift_applied x (c, e) = (with_applied x c, e)"
  "advanceTurn (with_applied x c) ev tm r = lift_applied x (advanceTurn c ev tm r)"
  "advanceStep (with_applied x c) ev tm r = lift_applied x (advanceStep c ev tm r)"
  by (auto simp: lift_applied_def advanceTurn_def advanceStep_def split: sum.splits)

lemma andThen_simps [simp]: "andThen (c, None) f = f c" "andThen (c, Some e) f = (c, Some e)"
  by (simp_all add: andThen_def)

lemma andThen_applied:
  "(\<And>c. f (with_applied x c) = lift_applied x (f c)) \<Longrightarrow> andThen (lift_applied x r) f = lift_applied x (andThen r f)"
  by (cases r) (auto simp: andThen_def split: option.splits)

lemma with_applied_mods [simp]:
  "modTurn f (with_applied x c) = with_applied x (modTurn f c)"
  "modStep g (with_applied x c) = with_applied x (modStep g c)"
  "modUsage h (with_applied x c) = with_applied x (modUsage h c)"
  "finishInterruptedModelAttemptLocked now tm (with_applied x c) = with_applied x (finishInterruptedModelAttemptLocked now tm c)"
  "clearModelAttemptRetryingLocked (with_applied x c) = with_applied x (clearModelAttemptRetryingLocked c)"
  by (simp_all add: mod_defs)

lemma if_with_applied: "(if b then (with_applied x c, e) else lift_applied x r) = lift_applied x (if b then (c, e) else r)"
  by simp

lemma applied_advanceStepLocked [simp]:
  "advanceStepLocked now ev (with_applied x c) cmd = lift_applied x (advanceStepLocked now ev c cmd)"
  by (simp add: advanceStepLocked_def Let_def if_distrib[of "lift_applied x"] split: option.split)

lemma applied_advanceTurnLocked [simp]:
  "advanceTurnLocked now ev (with_applied x c) cmd = lift_applied x (advanceTurnLocked now ev c cmd)"
  by (simp add: advanceTurnLocked_def Let_def)

lemma applied_cancel [simp]:
  "cancelActiveWorkLocked now (with_applied x c) cmd = with_applied x (cancelActiveWorkLocked now c cmd)"
  by (simp add: cancelActiveWorkLocked_def Let_def lift_applied_def split: option.split)

lemma applied_unknown [simp]: "hasUnknownExecutionLocked (with_applied x c) = hasUnknownExecutionLocked c"
  by (simp add: hasUnknownExecutionLocked_def)

lemma applied_exec_for [simp]: "exec_for_call (with_applied x c) k = exec_for_call c k"
  by (simp add: exec_for_call_def)

lemma applied_execution [simp]:
  "advanceToolExecutionLocked (with_applied x c) cmd = lift_applied x (advanceToolExecutionLocked c cmd)"
  by (cases "cmd_Type cmd") (auto simp: advanceToolExecutionLocked_def Let_def hasUnknownExecutionLocked_def split: option.split)

lemma applied_apply:
  "applyCommandLocked now (with_applied x c) cmd = lift_applied x (applyCommandLocked now c cmd)"
  by (cases "cmd_Type cmd")
    (auto simp: applyCommandLocked_def startTurnLocked_def startStepLocked_def snapshotCreatedLocked_def
      contextChangedLocked_def startModelAttemptLocked_def completeModelAttemptLocked_def
      recordAssistantLocked_def finishModelAttemptLocked_def retryModelAttemptLocked_def
      recordModelUsageLocked_def recordToolCallLocked_def recordExternalFactLocked_def
      toolResultRecordedLocked_def interactionRequestedLocked_def interactionResolvedLocked_def
      contextCompactedLocked_def Let_def split: option.split sum.split intro!: andThen_applied)

section \<open>The command that replay sees\<close>

text \<open>Which Turn and which Step are active.\<close>

definition idents :: "coordinator \<Rightarrow> string option \<times> string option" where
  "idents c = (map_option turn_ID (co_turn c), map_option step_ID (co_step c))"

lemma idents_advance [simp]:
  "idents (fst (advanceTurn c e tm r)) = idents c" "idents (fst (advanceStep c e tm r)) = idents c"
  by (cases "co_turn c"; cases "co_step c"; auto simp: idents_def advanceTurn_def advanceStep_def split: sum.splits)+

lemma idents_andThen:
  "idents (fst r) = i \<Longrightarrow> (\<And>c1. idents c1 = i \<Longrightarrow> idents (fst (f c1)) = i) \<Longrightarrow> idents (fst (andThen r f)) = i"
  by (cases r) (auto simp: andThen_def split: option.splits)

lemma idents_update [simp]:
  "idents (c\<lparr>co_batch := x3\<rparr>) = idents c"
  "idents (c\<lparr>co_executions := x4\<rparr>) = idents c" "idents (c\<lparr>co_toolResults := x5\<rparr>) = idents c"
  "idents (c\<lparr>co_externalFacts := x6\<rparr>) = idents c" "idents (c\<lparr>co_interaction := x7\<rparr>) = idents c"
  "idents (c\<lparr>co_attempts := x8\<rparr>) = idents c" "idents (c\<lparr>co_recoveryRequired := x9\<rparr>) = idents c"
  "idents (with_applied x c) = idents c" "idents (modUsage h c) = idents c"
  "idents (modStep (\<lambda>s. s\<lparr>step_AssistantMsgID := a\<rparr>) c) = idents c"
  "idents (modStep (\<lambda>s. s\<lparr>step_ToolBatchID := a\<rparr>) c) = idents c"
  by (simp_all add: idents_def mod_defs option.map_comp comp_def)

lemma idents_turn [simp]: "co_turn c = Some t \<Longrightarrow> turn_ID t' = turn_ID t \<Longrightarrow> idents (c\<lparr>co_turn := Some t'\<rparr>) = idents c"
  by (simp add: idents_def)

lemma idents_step [simp]: "co_step c = Some s \<Longrightarrow> step_ID s' = step_ID s \<Longrightarrow> idents (c\<lparr>co_step := Some s'\<rparr>) = idents c"
  by (simp add: idents_def)

lemma idents_locked [simp]:
  "idents (fst (advanceStepLocked now e c cmd)) = idents c"
  "idents (fst (advanceTurnLocked now e c cmd)) = idents c"
  "idents (fst (advanceToolExecutionLocked c cmd)) = idents c"
  by (auto simp: advanceStepLocked_def advanceTurnLocked_def Let_def mod_defs split: option.split)
    (simp add: advanceToolExecutionLocked_def Let_def split: option.split command_type.split)

lemma idents_cancel [simp]: "idents (cancelActiveWorkLocked now c cmd) = idents c"
  using cancelActiveWork_fields(1,6)[OF refl, of now c cmd] by (auto simp: idents_def split: option.splits)

lemma idents_apply:
  "cmd_Type cmd \<notin> {CommandStartTurn, CommandStartStep} \<Longrightarrow> idents (fst (applyCommandLocked now c cmd)) = idents c"
  by (cases "cmd_Type cmd")
    (auto simp: applyCommandLocked_def snapshotCreatedLocked_def
      contextChangedLocked_def startModelAttemptLocked_def completeModelAttemptLocked_def
      recordAssistantLocked_def finishModelAttemptLocked_def retryModelAttemptLocked_def
      recordModelUsageLocked_def recordToolCallLocked_def recordExternalFactLocked_def
      toolResultRecordedLocked_def interactionRequestedLocked_def interactionResolvedLocked_def
      contextCompactedLocked_def Let_def split: option.split sum.split intro!: idents_andThen)

lemma startTurn_idents:
  assumes "startTurnLocked c cmd = (c', None)"
  shows "\<exists>t. co_turn c' = Some t \<and> turn_ID t = trim_space (cmd_TurnID cmd) \<and> turn_Source t = cmd_Source cmd"
  using assms by (auto simp: startTurnLocked_def outcome_simps NewTurn_def split: option.splits if_splits sum.splits)

lemma startStep_idents:
  assumes "startStepLocked c cmd = (c', None)"
  shows "\<exists>t t' s. co_turn c = Some t \<and> co_turn c' = Some t' \<and> turn_ID t' = turn_ID t \<and>
    co_step c' = Some s \<and> step_ID s = trim_space (cmd_StepID cmd)"
  using assms by (auto simp: startStepLocked_def StartStep_def NewStep_def Let_def outcome_simps
    split: option.splits if_splits sum.splits)

definition replayed ::
  "(string \<Rightarrow> bool) \<Rightarrow> (string \<Rightarrow> string) \<Rightarrow> string \<Rightarrow> turn_command \<Rightarrow> coordinator_snapshot \<Rightarrow> turn_command" where
  "replayed json_valid json_compact sid cmd snap =
     cmd\<lparr>cmd_SessionID := sid, cmd_TurnID := snap_TurnID snap, cmd_StepID := snap_StepID snap,
         cmd_Source := (if cmd_Source cmd = [] then snap_Source snap else cmd_Source cmd),
         cmd_HasTools := (cmd_Type cmd = CommandAssistantReceived \<and> cmd_HasTools cmd),
         cmd_Arguments := (let a = lifecycleArgumentsJSON json_valid (cmd_Arguments cmd)
                           in if json_valid a then a else ''''),
         cmd_InteractionID := (if cmd_InteractionID cmd = [] then snap_InteractionID snap else cmd_InteractionID cmd),
         cmd_AssistantMessage := None,
         cmd_Payload := raw_message json_compact (cmd_Payload cmd)\<rparr>"

lemma eventType_roundtrip: "lifecycleEventType ct = Some e \<Longrightarrow> replay_type e = Some ct"
  by (cases ct) (auto simp: lifecycleEventType_def replay_type_def)

lemma eventType_assistant: "lifecycleEventType ct = Some e \<Longrightarrow> e = EventAssistantMessageRecorded \<longleftrightarrow> ct = CommandAssistantReceived"
  by (cases ct) (auto simp: lifecycleEventType_def)

lemma eventType_valid: "lifecycleEventType ct = Some e \<Longrightarrow> event_valid e"
  by (cases ct) (auto simp: lifecycleEventType_def event_valid_def)

lemma replayCommand_event:
  assumes "lifecycleEventType (cmd_Type cmd) = Some et"
    and ev: "ev = (lifecycleEvent json_valid json_compact rt et cmd snap)\<lparr>te_SessionSeq := a, te_TurnSeq := b, te_ID := i\<rparr>"
  shows "replayCommand json_valid ev = Inr (Some (replayed json_valid json_compact (trim_space (jr_sessionID rt)) cmd snap))"
  using eventType_roundtrip[OF assms(1)] eventType_assistant[OF assms(1)]
  by (auto simp: ev replayCommand_def lifecycleEvent_def NewTurnEventEnvelope_def lifecyclePayload_def replayed_def Let_def
      intro!: turn_command.equality)

text \<open>
  What the journal keeps exactly: a command with a time, whose interaction payload is present and
  compact JSON and whose tool arguments are absent or JSON of at most 64 KiB.
\<close>

definition journal_exact :: "(string \<Rightarrow> bool) \<Rightarrow> (string \<Rightarrow> string) \<Rightarrow> turn_command \<Rightarrow> bool" where
  "journal_exact json_valid json_compact cmd \<longleftrightarrow>
     cmd_At cmd \<noteq> 0 \<and>
     (cmd_Type cmd \<in> {CommandInteractionRequested, CommandInteractionResolved} \<longrightarrow>
        cmd_Payload cmd \<noteq> [] \<and> json_compact (cmd_Payload cmd) = cmd_Payload cmd) \<and>
     (cmd_Type cmd = CommandToolCallRecorded \<longrightarrow>
        cmd_Arguments cmd = [] \<or> json_valid (cmd_Arguments cmd) \<and> length (cmd_Arguments cmd) \<le> 64 * 1024)"

lemma interaction_id_trimmed:
  assumes "trim_space x = x" "x \<noteq> []"
  shows "trim_space (x @ ''-interaction'') = x @ ''-interaction''"
  using trim_space_append_plain[OF assms(1), of "CHR ''-''" "''interaction''"] by (simp add: plain_char_Char)

lemma interactionRequested_replayed:
  assumes run: "interactionRequestedLocked c cmd = (c1, None)" and inv: "coord_inv c"
    and cmd': "cmd' = cmd\<lparr>cmd_InteractionID := (if cmd_InteractionID cmd = [] then snap_InteractionID (snapshotLocked c1)
       else cmd_InteractionID cmd)\<rparr>"
  shows "interactionRequestedLocked c cmd' = (c1, None)"
proof (cases "cmd_InteractionID cmd = []")
  case True
  obtain t st where t: "co_turn c = Some t" "co_step c = Some st"
    using run by (auto simp: interactionRequestedLocked_def split: option.splits)
  have st: "trim_space (step_ID st) = step_ID st" "step_ID st \<noteq> []" using inv t by (auto simp: inv_defs step_agrees_def)
  show ?thesis
  proof (cases "if step_Status st = StepStatusWaitingInteraction then co_interaction c else None")
    case (Some i)
    then obtain i' where "c1 = c\<lparr>co_interaction := Some i'\<rparr>" "pi_ID i' = pi_ID i"
      using run t by (auto simp: interactionRequestedLocked_def Let_def split: if_splits)
    then have sn: "snap_InteractionID (snapshotLocked c1) = pi_ID i" by (simp add: snapshotLocked_def Let_def)
    have w: "step_Status st = StepStatusWaitingInteraction" "co_interaction c = Some i" using Some by (auto split: if_splits)
    define k where "k = snap_InteractionID (snapshotLocked c1)"
    show ?thesis
      using run t w True sn unfolding cmd' k_def[symmetric] by (auto simp: interactionRequestedLocked_def Let_def)
  next
    case None
    obtain i where i: "co_interaction c1 = Some i" "pi_ID i = step_ID st @ ''-interaction''"
      using run t None True by (auto simp: interactionRequestedLocked_def outcome_simps default_id_def)
    then have "snap_InteractionID (snapshotLocked c1) = step_ID st @ ''-interaction''" by (simp add: snapshotLocked_def Let_def)
    then show ?thesis
      using run t None True interaction_id_trimmed[OF st] unfolding cmd'
      by (simp add: interactionRequestedLocked_def default_id_def)
  qed
qed (use run cmd' in simp)

lemma interactionResolved_replayed:
  assumes run: "interactionResolvedLocked c cmd = (c1, None)"
    and cmd': "cmd' = cmd\<lparr>cmd_InteractionID := (if cmd_InteractionID cmd = [] then snap_InteractionID (snapshotLocked c1)
       else cmd_InteractionID cmd)\<rparr>"
  shows "interactionResolvedLocked c cmd' = (c1, None)"
proof (cases "cmd_InteractionID cmd = []")
  case True
  obtain t st where t: "co_turn c = Some t" "co_step c = Some st"
    using run by (auto simp: interactionResolvedLocked_def split: if_splits)
  obtain c2 where c2: "advanceTurn c EventInteractionResolved (cmd_At cmd) (cmd_Reason cmd) = (c2, None)"
    using run t by (auto simp: interactionResolvedLocked_def andThen_None)
  then have i2: "co_interaction c2 = co_interaction c" by (auto simp: advanceTurn_None)
  have "(case co_interaction c1 of None \<Rightarrow> [] | Some i \<Rightarrow> pi_ID i) = (case co_interaction c of None \<Rightarrow> [] | Some i \<Rightarrow> pi_ID i)"
    using run t True c2 i2
    by (cases "co_interaction c") (auto simp: interactionResolvedLocked_def advanceStep_None split: if_split_asm)
  then have id: "snap_InteractionID (snapshotLocked c1) = (case co_interaction c of None \<Rightarrow> [] | Some i \<Rightarrow> pi_ID i)"
    by (simp add: snapshotLocked_def Let_def)
  show ?thesis
    using run t True c2 i2 id unfolding cmd'
    by (cases "co_interaction c") (auto simp: interactionResolvedLocked_def split: if_split_asm)
qed (use run cmd' in simp)

lemma raw_exact: "p \<noteq> [] \<Longrightarrow> json_compact p = p \<Longrightarrow> raw_message json_compact p = p"
  by (simp add: raw_message_def)

lemma arguments_exact:
  "a = [] \<or> json_valid a \<and> length a \<le> 64 * 1024 \<Longrightarrow>
   (let x = lifecycleArgumentsJSON json_valid a in if json_valid x then x else []) = a"
  by (auto simp: lifecycleArgumentsJSON_def Let_def)

text \<open>The handlers read the clock only for a command without a time.\<close>

lemma apply_any_time:
  assumes at: "cmd_At cmd \<noteq> 0"
  shows "applyCommandLocked now c cmd = applyCommandLocked now' c cmd"
proof -
  have fin: "finishInterruptedModelAttemptLocked now (cmd_At cmd) c0 = finishInterruptedModelAttemptLocked now' (cmd_At cmd) c0" for c0
    using at by (simp add: finishInterruptedModelAttemptLocked_def)
  have tm: "(if cmd_At cmd = 0 then n else cmd_At cmd) = cmd_At cmd" for n using at by simp
  have st: "advanceStepLocked now e c cmd = advanceStepLocked now' e c cmd" for e
    unfolding advanceStepLocked_def by (simp only: fin)
  have tu: "advanceTurnLocked now e c0 cmd = advanceTurnLocked now' e c0 cmd" for e c0
    unfolding advanceTurnLocked_def by (simp only: fin)
  have ca: "cancelActiveWorkLocked now c cmd = cancelActiveWorkLocked now' c cmd"
    unfolding cancelActiveWorkLocked_def Let_def tm by (simp only: fin)
  show ?thesis unfolding applyCommandLocked_def toolResultRecordedLocked_def by (simp only: st tu ca)
qed

lemma snap_ids:
  "snap_TurnID (snapshotLocked c) = (case co_turn c of None \<Rightarrow> [] | Some t \<Rightarrow> turn_ID t)"
  "snap_StepID (snapshotLocked c) = (case co_step c of None \<Rightarrow> [] | Some s \<Rightarrow> step_ID s)"
  "snap_Source (snapshotLocked c) = (case co_turn c of None \<Rightarrow> [] | Some t \<Rightarrow> turn_Source t)"
  by (simp_all add: snapshotLocked_def Let_def)

text \<open>Applying the replayed command gives the state that applying the original gave.\<close>

lemma apply_replayed:
  assumes run: "applyCommandLocked now c cmd = (c1, None)" and inv: "coord_inv c"
    and ex: "journal_exact json_valid json_compact cmd"
  shows "applyCommandLocked now c (replayed json_valid json_compact sid cmd (snapshotLocked c1)) = (c1, None)"
proof -
  define cmd' where "cmd' = replayed json_valid json_compact sid cmd (snapshotLocked c1)"
  have ty: "cmd_Type cmd' = cmd_Type cmd"
    and F: "cmd_At cmd' = cmd_At cmd" "cmd_Reason cmd' = cmd_Reason cmd" "cmd_ToolBatchID cmd' = cmd_ToolBatchID cmd"
    "cmd_FinalSummary cmd' = cmd_FinalSummary cmd" "cmd_ToolCallID cmd' = cmd_ToolCallID cmd"
    "cmd_ToolExecutionID cmd' = cmd_ToolExecutionID cmd" "cmd_ExternalFactID cmd' = cmd_ExternalFactID cmd"
    "cmd_ToolName cmd' = cmd_ToolName cmd" "cmd_InteractionKind cmd' = cmd_InteractionKind cmd"
    "cmd_InteractionRevision cmd' = cmd_InteractionRevision cmd" "cmd_RequestDigest cmd' = cmd_RequestDigest cmd"
    "cmd_AssistantMessageID cmd' = cmd_AssistantMessageID cmd" "cmd_RuntimeRevision cmd' = cmd_RuntimeRevision cmd"
    "cmd_RuntimeDigest cmd' = cmd_RuntimeDigest cmd" "cmd_PromptDigest cmd' = cmd_PromptDigest cmd"
    "cmd_ToolDigest cmd' = cmd_ToolDigest cmd" "cmd_ContextSnapshot cmd' = cmd_ContextSnapshot cmd"
    "cmd_Budget cmd' = cmd_Budget cmd" "cmd_ErrorKind cmd' = cmd_ErrorKind cmd" "cmd_MaxAttempts cmd' = cmd_MaxAttempts cmd"
    "cmd_RetryAfterMS cmd' = cmd_RetryAfterMS cmd" "cmd_Retryable cmd' = cmd_Retryable cmd"
    "cmd_PayloadRef cmd' = cmd_PayloadRef cmd" "cmd_ExecutionStatus cmd' = cmd_ExecutionStatus cmd"
    "cmd_Usage cmd' = cmd_Usage cmd" "cmd_Generation cmd' = cmd_Generation cmd"
    by (simp_all add: cmd'_def replayed_def)
  have iid: "cmd_InteractionID cmd' = (if cmd_InteractionID cmd = [] then snap_InteractionID (snapshotLocked c1) else cmd_InteractionID cmd)"
    by (simp add: cmd'_def replayed_def)
  have G: "cmd_At (cmd\<lparr>cmd_InteractionID := z\<rparr>) = cmd_At cmd" "cmd_Reason (cmd\<lparr>cmd_InteractionID := z\<rparr>) = cmd_Reason cmd"
    "cmd_InteractionKind (cmd\<lparr>cmd_InteractionID := z\<rparr>) = cmd_InteractionKind cmd" "cmd_Payload (cmd\<lparr>cmd_InteractionID := z\<rparr>) = cmd_Payload cmd"
    "cmd_ToolExecutionID (cmd\<lparr>cmd_InteractionID := z\<rparr>) = cmd_ToolExecutionID cmd"
    "cmd_InteractionRevision (cmd\<lparr>cmd_InteractionID := z\<rparr>) = cmd_InteractionRevision cmd"
    "cmd_InteractionID (cmd\<lparr>cmd_InteractionID := z\<rparr>) = z" for z
    by simp_all
  consider "cmd_Type cmd = CommandStartTurn" | "cmd_Type cmd = CommandStartStep"
    | "cmd_Type cmd = CommandInteractionRequested" | "cmd_Type cmd = CommandInteractionResolved"
    | "cmd_Type cmd = CommandToolCallRecorded"
    | "cmd_Type cmd \<notin> {CommandStartTurn, CommandStartStep, CommandInteractionRequested, CommandInteractionResolved,
        CommandToolCallRecorded}" by blast
  then have "applyCommandLocked now c cmd' = (c1, None)"
  proof cases
    case 1
    then have r: "startTurnLocked c cmd = (c1, None)" using run by (simp add: applyCommandLocked_def)
    obtain t where t: "co_turn c1 = Some t" "turn_ID t = trim_space (cmd_TurnID cmd)" "turn_Source t = cmd_Source cmd"
      using startTurn_idents[OF r] by auto
    have "NewTurn (trim_space x) a b d = NewTurn x a b d" for x a b d by (simp add: NewTurn_def)
    moreover have "cmd_TurnID cmd' = trim_space (cmd_TurnID cmd)" "cmd_Source cmd' = cmd_Source cmd"
      using t by (simp_all add: cmd'_def replayed_def snap_ids)
    ultimately have "startTurnLocked c cmd' = startTurnLocked c cmd"
      unfolding startTurnLocked_def by (simp only: trim_space_idem F)
    then show ?thesis using r 1 ty by (simp add: applyCommandLocked_def)
  next
    case 2
    then have r: "startStepLocked c cmd = (c1, None)" using run by (simp add: applyCommandLocked_def)
    obtain s where s: "co_step c1 = Some s" "step_ID s = trim_space (cmd_StepID cmd)"
      using startStep_idents[OF r] by auto
    have "NewStep (trim_space x) a b d = NewStep x a b d" for x a b d by (simp add: NewStep_def)
    moreover have "cmd_StepID cmd' = trim_space (cmd_StepID cmd)"
      using s by (simp_all add: cmd'_def replayed_def snap_ids)
    ultimately have "startStepLocked c cmd' = startStepLocked c cmd"
      unfolding startStepLocked_def StartStep_def by (simp only: trim_space_idem F)
    then show ?thesis using r 2 ty by (simp add: applyCommandLocked_def)
  next
    case 3
    then have r: "interactionRequestedLocked c cmd = (c1, None)" using run by (simp add: applyCommandLocked_def)
    have p: "cmd_Payload cmd' = cmd_Payload cmd"
      using ex 3 by (simp add: cmd'_def replayed_def journal_exact_def raw_exact)
    have "interactionRequestedLocked c cmd' = interactionRequestedLocked c (cmd\<lparr>cmd_InteractionID := cmd_InteractionID cmd'\<rparr>)"
      unfolding interactionRequestedLocked_def by (simp only: F G p)
    then show ?thesis using interactionRequested_replayed[OF r inv, of "cmd\<lparr>cmd_InteractionID := cmd_InteractionID cmd'\<rparr>"] iid 3 ty
      by (simp add: applyCommandLocked_def)
  next
    case 4
    then have r: "interactionResolvedLocked c cmd = (c1, None)" using run by (simp add: applyCommandLocked_def)
    have p: "cmd_Payload cmd' = cmd_Payload cmd"
      using ex 4 by (simp add: cmd'_def replayed_def journal_exact_def raw_exact)
    have "interactionResolvedLocked c cmd' = interactionResolvedLocked c (cmd\<lparr>cmd_InteractionID := cmd_InteractionID cmd'\<rparr>)"
      unfolding interactionResolvedLocked_def by (simp only: F G p)
    then show ?thesis using interactionResolved_replayed[OF r, of "cmd\<lparr>cmd_InteractionID := cmd_InteractionID cmd'\<rparr>"] iid 4 ty
      by (simp add: applyCommandLocked_def)
  next
    case 5
    have "cmd_Arguments cmd' = cmd_Arguments cmd"
      using arguments_exact[of "cmd_Arguments cmd" json_valid] ex 5 by (simp add: cmd'_def replayed_def journal_exact_def Let_def)
    then have "recordToolCallLocked c cmd' = recordToolCallLocked c cmd"
      unfolding recordToolCallLocked_def by (simp only: F)
    then show ?thesis using run 5 ty by (simp add: applyCommandLocked_def)
  next
    case 6
    have fill: "cmd_RuntimeRevision (fill_snapshot_fields cmd') = cmd_RuntimeRevision (fill_snapshot_fields cmd)"
      "cmd_RuntimeDigest (fill_snapshot_fields cmd') = cmd_RuntimeDigest (fill_snapshot_fields cmd)"
      "cmd_PromptDigest (fill_snapshot_fields cmd') = cmd_PromptDigest (fill_snapshot_fields cmd)"
      "cmd_ToolDigest (fill_snapshot_fields cmd') = cmd_ToolDigest (fill_snapshot_fields cmd)"
      "cmd_ContextSnapshot (fill_snapshot_fields cmd') = cmd_ContextSnapshot (fill_snapshot_fields cmd)"
      "cmd_At (fill_snapshot_fields cmd') = cmd_At (fill_snapshot_fields cmd)"
      "cmd_Reason (fill_snapshot_fields cmd') = cmd_Reason (fill_snapshot_fields cmd)"
      by (cases "cmd_ContextSnapshot cmd"; simp add: fill_snapshot_fields_def Let_def F)+
    have step: "advanceStepLocked now e c cmd' = advanceStepLocked now e c cmd" for e
      unfolding advanceStepLocked_def by (simp only: F)
    have turn: "advanceTurnLocked now e c0 cmd' = advanceTurnLocked now e c0 cmd" for e c0
      unfolding advanceTurnLocked_def by (simp only: F)
    have cancel: "cancelActiveWorkLocked now c cmd' = cancelActiveWorkLocked now c cmd"
      unfolding cancelActiveWorkLocked_def by (simp only: F)
    have snap: "snapshotCreatedLocked c cmd' = snapshotCreatedLocked c cmd"
      unfolding snapshotCreatedLocked_def Let_def by (simp only: fill)
    have exec: "advanceToolExecutionLocked c cmd' = advanceToolExecutionLocked c cmd"
      unfolding advanceToolExecutionLocked_def by (simp only: F ty)
    have asst: "cmd_Type cmd = CommandAssistantReceived \<Longrightarrow> recordAssistantLocked c cmd' = recordAssistantLocked c cmd"
    proof -
      assume "cmd_Type cmd = CommandAssistantReceived"
      then have "cmd_HasTools cmd' = cmd_HasTools cmd" by (simp add: cmd'_def replayed_def)
      then show ?thesis unfolding recordAssistantLocked_def by (simp only: F)
    qed
    have rest: "contextChangedLocked c cmd' = contextChangedLocked c cmd"
      "startModelAttemptLocked c cmd' = startModelAttemptLocked c cmd"
      "completeModelAttemptLocked c cmd' = completeModelAttemptLocked c cmd"
      "finishModelAttemptLocked ev st c cmd' = finishModelAttemptLocked ev st c cmd"
      "retryModelAttemptLocked c cmd' = retryModelAttemptLocked c cmd"
      "recordModelUsageLocked c cmd' = recordModelUsageLocked c cmd"
      "recordExternalFactLocked c cmd' = recordExternalFactLocked c cmd"
      "contextCompactedLocked c cmd' = contextCompactedLocked c cmd"
      "toolResultRecordedLocked now c cmd' = toolResultRecordedLocked now c cmd" for ev st
      unfolding contextChangedLocked_def startModelAttemptLocked_def completeModelAttemptLocked_def
        finishModelAttemptLocked_def retryModelAttemptLocked_def recordModelUsageLocked_def
        recordExternalFactLocked_def contextCompactedLocked_def toolResultRecordedLocked_def
      by (simp_all only: F step)
    have "applyCommandLocked now c cmd' = applyCommandLocked now c cmd"
      using 6 asst ty unfolding applyCommandLocked_def
      by (cases "cmd_Type cmd") (simp_all add: step turn cancel snap exec rest)
    then show ?thesis using run by simp
  qed
  then show ?thesis by (simp add: cmd'_def)
qed

lemma validate_replayed:
  assumes run: "applyCommandLocked now c cmd = (c1, None)" and inv: "coord_inv c"
    and v: "validateCommandLocked c cmd = None" and sid: "sid = co_sessionID c"
  shows "validateCommandLocked c (replayed json_valid json_compact sid cmd (snapshotLocked c1)) = None"
proof (cases "cmd_Type cmd = CommandStartTurn")
  case True
  then show ?thesis using v sid by (auto simp: validateCommandLocked_def commandRequiresStep_def replayed_def split: if_splits)
next
  case nt: False
  obtain t where t: "co_turn c = Some t" "cmd_TurnID cmd = turn_ID t" "trim_space (cmd_TurnID cmd) \<noteq> []"
    using v nt by (auto simp: validateCommandLocked_def split: if_splits option.splits)
  have id1: "snap_TurnID (snapshotLocked c1) = turn_ID t"
  proof (cases "cmd_Type cmd = CommandStartStep")
    case True
    then show ?thesis using startStep_idents[of c cmd c1] run t by (auto simp: applyCommandLocked_def snap_ids)
  next
    case False
    then show ?thesis using idents_apply[of cmd now c] run t nt by (auto simp: idents_def snap_ids split: option.splits)
  qed
  show ?thesis
  proof (cases "commandRequiresStep (cmd_Type cmd)")
    case True
    then obtain st where st: "co_step c = Some st" "cmd_StepID cmd = step_ID st" "trim_space (cmd_StepID cmd) \<noteq> []"
      using v t nt by (auto simp: validateCommandLocked_def split: if_splits option.splits)
    have "cmd_Type cmd \<noteq> CommandStartStep" using True by (auto simp: commandRequiresStep_def)
    then have "snap_StepID (snapshotLocked c1) = step_ID st"
      using idents_apply[of cmd now c] run st nt by (auto simp: idents_def snap_ids split: option.splits)
    then show ?thesis using v sid t st id1 True
      by (auto simp: validateCommandLocked_def replayed_def split: if_splits)
  next
    case False
    then show ?thesis using v sid t id1 by (auto simp: validateCommandLocked_def replayed_def split: if_splits)
  qed
qed

end
