(* ===== verification/Journal_Replay.thy ===== *)
theory Journal_Replay
  imports Journal
begin

text \<open>
  Crash recovery of \<^verbatim>\<open>node/internal/session/runtime_lifecycle.go\<close>: a run of durable dispatches
  followed by a restart. Everything here is proof: a simulation between the live coordinator and the
  one that replaying the log builds, carried by \<open>journal_inv\<close> through accepted, refused and
  rolled back commands, batch markers and observer failures, and the freshness of command ids.
\<close>

section \<open>Equality up to what replay rebuilds differently\<close>

text \<open>
  The set of applied command ids also gets the ids of the batch markers on replay, and a nil
  \<^verbatim>\<open>toolResults\<close> map comes back as an empty one. Everything else must agree.
\<close>

definition norm_coord :: "coordinator \<Rightarrow> coordinator" where
  "norm_coord c = c\<lparr>co_appliedCommands := None, co_toolResults := Some (cloneStringSet (co_toolResults c))\<rparr>"

definition with_results :: "string list option \<Rightarrow> coordinator \<Rightarrow> coordinator" where
  "with_results y c = c\<lparr>co_toolResults := y\<rparr>"

definition lift_results :: "string list option \<Rightarrow> outcome \<Rightarrow> outcome" where
  "lift_results y r = (with_results y (fst r), snd r)"

lemma with_results_fields [simp]:
  "co_sessionID (with_results x c) = co_sessionID c" "co_agentID (with_results x c) = co_agentID c"
  "co_generation (with_results x c) = co_generation c" "co_turn (with_results x c) = co_turn c"
  "co_step (with_results x c) = co_step c" "co_batch (with_results x c) = co_batch c"
  "co_executions (with_results x c) = co_executions c" "co_toolResults (with_results x c) = x"
  "co_externalFacts (with_results x c) = co_externalFacts c" "co_interaction (with_results x c) = co_interaction c"
  "co_attempts (with_results x c) = co_attempts c" "co_recoveryRequired (with_results x c) = co_recoveryRequired c"
  by (simp_all add: with_results_def)

lemma with_results_upd [simp]:
  "(with_results x c)\<lparr>co_generation := a1\<rparr> = with_results x (c\<lparr>co_generation := a1\<rparr>)"
  "(with_results x c)\<lparr>co_turn := a2\<rparr> = with_results x (c\<lparr>co_turn := a2\<rparr>)"
  "(with_results x c)\<lparr>co_step := a3\<rparr> = with_results x (c\<lparr>co_step := a3\<rparr>)"
  "(with_results x c)\<lparr>co_batch := a4\<rparr> = with_results x (c\<lparr>co_batch := a4\<rparr>)"
  "(with_results x c)\<lparr>co_executions := a5\<rparr> = with_results x (c\<lparr>co_executions := a5\<rparr>)"
  "(with_results x c)\<lparr>co_toolResults := a6\<rparr> = c\<lparr>co_toolResults := a6\<rparr>"
  "(with_results x c)\<lparr>co_externalFacts := a7\<rparr> = with_results x (c\<lparr>co_externalFacts := a7\<rparr>)"
  "(with_results x c)\<lparr>co_interaction := a8\<rparr> = with_results x (c\<lparr>co_interaction := a8\<rparr>)"
  "(with_results x c)\<lparr>co_attempts := a9\<rparr> = with_results x (c\<lparr>co_attempts := a9\<rparr>)"
  "(with_results x c)\<lparr>co_recoveryRequired := a10\<rparr> = with_results x (c\<lparr>co_recoveryRequired := a10\<rparr>)"
  by (simp_all add: with_results_def)

lemma lift_results_simps [simp]:
  "lift_results x (c, e) = (with_results x c, e)"
  "advanceTurn (with_results x c) ev tm r = lift_results x (advanceTurn c ev tm r)"
  by (auto simp: lift_results_def advanceTurn_def split: sum.splits)

lemma results_mods [simp]:
  "finishInterruptedModelAttemptLocked now tm (with_results x c) = with_results x (finishInterruptedModelAttemptLocked now tm c)"
  "clearModelAttemptRetryingLocked (with_results x c) = with_results x (clearModelAttemptRetryingLocked c)"
  by (simp_all add: mod_defs)

lemma results_turn [simp]:
  "advanceTurnLocked now ev (with_results x c) cmd = lift_results x (advanceTurnLocked now ev c cmd)"
  by (simp add: advanceTurnLocked_def Let_def)

lemma results_cancel:
  "co_step c = None \<Longrightarrow> cancelActiveWorkLocked now (with_results x c) cmd = with_results x (cancelActiveWorkLocked now c cmd)"
  by (simp add: cancelActiveWorkLocked_def Let_def mod_defs)

lemma apply_results:
  assumes "co_step c = None" "validateCommandLocked c cmd = None" "applyCommandLocked now c cmd = (c1, None)"
  shows "applyCommandLocked now (with_results (Some []) c) cmd = (with_results (Some []) c1, None) \<and>
    co_toolResults c1 \<in> {co_toolResults c, Some []}"
proof -
  have v: "\<not> commandRequiresStep (cmd_Type cmd)"
    using assms(1,2) by (auto simp: validateCommandLocked_def split: if_splits option.splits)
  then consider "cmd_Type cmd = CommandStartTurn" | "cmd_Type cmd = CommandStartStep" | "cmd_Type cmd = CommandTurnSnapshotCreated"
    | "cmd_Type cmd \<in> {CommandCompleteTurn, CommandFailTurn, CommandInterruptTurn, CommandCancelTurn, CommandBudgetExhausted}"
    by (auto simp: commandRequiresStep_def split: if_splits)
  then show ?thesis
  proof cases
    case 1
    have "startTurnLocked (with_results (Some []) c) cmd = lift_results (Some []) (startTurnLocked c cmd)"
      by (auto simp: startTurnLocked_def split: option.split sum.split)
    then show ?thesis using 1 assms(3)
      by (auto simp: applyCommandLocked_def startTurnLocked_def outcome_simps split: option.splits if_splits sum.splits)
  next
    case 2
    have "startStepLocked (with_results (Some []) c) cmd = startStepLocked c cmd \<or> snd (startStepLocked c cmd) \<noteq> None"
      by (auto simp: startStepLocked_def Let_def split: option.split sum.split)
    moreover have "co_toolResults c1 = Some []"
      using 2 assms(3) by (auto simp: applyCommandLocked_def startStepLocked_def Let_def outcome_simps split: option.splits if_splits sum.splits)
    moreover have "with_results (Some []) c1 = c1" using calculation(2) by (simp add: with_results_def)
    ultimately show ?thesis using 2 assms(3) by (auto simp: applyCommandLocked_def)
  next
    case 3
    have "snapshotCreatedLocked (with_results (Some []) c) cmd = lift_results (Some []) (snapshotCreatedLocked c cmd)"
      by (auto simp: snapshotCreatedLocked_def Let_def split: option.split)
    then show ?thesis using 3 assms(3)
      by (auto simp: applyCommandLocked_def snapshotCreatedLocked_def Let_def outcome_simps split: option.splits if_splits)
  next
    case 4
    have "advanceTurnLocked now e c0 cmd = (c1, None) \<Longrightarrow> co_toolResults c1 = co_toolResults c0" for e c0
      by (auto simp: advanceTurnLocked_def Let_def mod_defs outcome_simps split: if_splits)
    moreover have "co_toolResults (cancelActiveWorkLocked now c cmd) = co_toolResults c"
      using cancelActiveWork_fields(2) by blast
    ultimately show ?thesis using 4 assms(1,3) results_cancel[OF assms(1)] by (auto simp: applyCommandLocked_def)
  qed
qed

lemma norm_fields [simp]:
  "co_sessionID (norm_coord c) = co_sessionID c" "co_turn (norm_coord c) = co_turn c" "co_step (norm_coord c) = co_step c"
  "co_generation (norm_coord c) = co_generation c" "co_batch (norm_coord c) = co_batch c"
  by (simp_all add: norm_coord_def)

lemma norm_eq_cases:
  assumes "norm_coord c' = norm_coord c" "co_toolResults c' \<noteq> None"
  shows "c' = with_applied (co_appliedCommands c') c \<or>
    co_toolResults c = None \<and> c' = with_applied (co_appliedCommands c') (with_results (Some []) c)"
proof -
  have f: "co_sessionID c' = co_sessionID c" "co_agentID c' = co_agentID c" "co_generation c' = co_generation c"
    "co_turn c' = co_turn c" "co_step c' = co_step c" "co_batch c' = co_batch c" "co_executions c' = co_executions c"
    "co_externalFacts c' = co_externalFacts c" "co_interaction c' = co_interaction c" "co_attempts c' = co_attempts c"
    "co_recoveryRequired c' = co_recoveryRequired c" "cloneStringSet (co_toolResults c') = cloneStringSet (co_toolResults c)"
    using assms(1) by (cases c; cases c'; simp add: norm_coord_def)+
  show ?thesis
  proof (cases "co_toolResults c")
    case None
    then have "co_toolResults c' = Some []" using f(12) assms(2) by (auto simp: cloneStringSet_def)
    then show ?thesis using None f by (auto simp: with_applied_def with_results_def intro!: coordinator.equality)
  next
    case (Some a)
    then have "co_toolResults c' = Some a" using f(12) assms(2) by (auto simp: cloneStringSet_def)
    then show ?thesis using Some f by (auto simp: with_applied_def intro!: coordinator.equality)
  qed
qed

lemma norm_with [simp]: "norm_coord (with_applied x c) = norm_coord c" "norm_coord (c\<lparr>co_appliedCommands := x\<rparr>) = norm_coord c"
  by (simp_all add: norm_coord_def with_applied_def)

lemma norm_results: "co_toolResults c \<in> {None, Some []} \<Longrightarrow> norm_coord (with_results (Some []) c) = norm_coord c"
  by (auto simp: norm_coord_def with_results_def cloneStringSet_def)

lemma norm_apply:
  assumes eq: "norm_coord c' = norm_coord c" "co_toolResults c' \<noteq> None" and inv: "coord_inv c"
    and v: "validateCommandLocked c cmd = None" and run: "applyCommandLocked now c cmd = (c1, None)"
  shows "\<exists>c1'. applyCommandLocked now c' cmd = (c1', None) \<and> norm_coord c1' = norm_coord c1 \<and> co_toolResults c1' \<noteq> None"
  using norm_eq_cases[OF eq]
proof
  assume c': "c' = with_applied (co_appliedCommands c') c"
  define x where "x = co_appliedCommands c'"
  have "applyCommandLocked now c' cmd = (with_applied x c1, None)"
    using applied_apply[of now x c cmd] run c' by (simp add: x_def)
  moreover have "co_toolResults c \<noteq> None" using eq(2) c' by (metis with_applied_fields(8))
  then have "co_toolResults c1 \<noteq> None" using results_kept_Some[OF run] by simp
  ultimately show ?thesis by simp
next
  assume a: "co_toolResults c = None \<and> c' = with_applied (co_appliedCommands c') (with_results (Some []) c)"
  define x where "x = co_appliedCommands c'"
  have st: "co_step c = None" using inv a by (auto simp: coord_inv_def inv_ptr_def)
  note r = apply_results[OF st v run]
  have "applyCommandLocked now c' cmd = (with_applied x (with_results (Some []) c1), None)"
    using applied_apply[of now x "with_results (Some []) c" cmd] r a by (simp add: x_def)
  moreover have "norm_coord (with_results (Some []) c1) = norm_coord c1" using r a by (intro norm_results) auto
  ultimately show ?thesis by simp
qed
section \<open>Command ids\<close>

lemma digit_not_dash: "d < 10 \<Longrightarrow> digit_char d \<noteq> CHR ''-''"
proof
  assume "d < 10" "digit_char d = CHR ''-''"
  then have "48 + d = (of_char (CHR ''-'') :: nat)" using of_char_digit[of d] by metis
  then show False by simp
qed

lemma show_nat_no_dash: "CHR ''-'' \<notin> set (show_nat n)"
proof
  assume "CHR ''-'' \<in> set (show_nat n)"
  then obtain d where "d < 10" "CHR ''-'' = digit_char d" using show_nat_digits by blast
  then show False using digit_not_dash by metis
qed

lemma show_nat_last_plain: "plain_char (last (show_nat n))"
  using show_nat_digits[OF last_in_set[OF show_nat_nonempty]] digit_char_plain by metis

lemma after_last_dash_append:
  "CHR ''-'' \<notin> set d \<Longrightarrow> after_last_dash (x @ CHR ''-'' # d) = Some d"
proof -
  assume "CHR ''-'' \<notin> set d"
  then have "takeWhile (\<lambda>c. c \<noteq> CHR ''-'') (rev d @ CHR ''-'' # rev x) = rev d"
    by (subst takeWhile_append2) auto
  then show ?thesis by (simp add: after_last_dash_def)
qed

lemma next_id_trimmed:
  assumes "trim_space sid = sid"
  shows "trim_space (sid @ ''-lifecycle-'' @ show_nat n) = sid @ ''-lifecycle-'' @ show_nat n"
  using trim_space_append_plain[OF assms, of "CHR ''-''" "''lifecycle-'' @ show_nat n"] show_nat_last_plain
  by (simp add: plain_char_Char)

lemma next_id_sequence:
  assumes "trim_space sid = sid"
  shows "lifecycleCommandSequence (sid @ ''-lifecycle-'' @ show_nat (unat (n :: u64))) = n"
proof -
  have "unat n < 2 ^ 64" using unsigned_less[of n] by simp
  then have "parse_uint (show_nat (unat n)) = Some n" using parse_uint_show_nat by simp
  moreover have "after_last_dash (sid @ ''-lifecycle-'' @ show_nat (unat n)) = Some (show_nat (unat n))"
    using after_last_dash_append[OF show_nat_no_dash, of "sid @ ''-lifecycle''" "unat n"] by simp
  ultimately show ?thesis
    unfolding lifecycleCommandSequence_def next_id_trimmed[OF assms] by (simp only: option.case show_nat_nonempty if_False)
qed

lemma marker_id_sequence:
  assumes "trim_space x = x"
  shows "lifecycleCommandSequence (x @ ''-batch'') = 0"
proof -
  have t: "trim_space (x @ ''-batch'') = x @ ''-batch''"
    using trim_space_append_plain[OF assms, of "CHR ''-''" "''batch''"] by (simp add: plain_char_Char)
  have "after_last_dash (x @ ''-batch'') = Some ''batch''"
    using after_last_dash_append[of "''batch''" x] by simp
  moreover have "parse_uint ''batch'' = None" by code_simp
  ultimately show ?thesis by (simp add: lifecycleCommandSequence_def t)
qed

section \<open>Replaying one more event\<close>

definition last_seq :: "u64 \<Rightarrow> turn_event list \<Rightarrow> u64" where
  "last_seq prev es = (if es = [] then prev else te_SessionSeq (last es))"

lemma replay_Cons:
  "replayEvents now jv prev c (e # es) =
     (case replayEvents now jv prev c [e] of
        (c1, None) \<Rightarrow> replayEvents now jv (te_SessionSeq e) c1 es
      | (c1, Some x) \<Rightarrow> (c1, Some x))"
  by (simp split: sum.split option.split prod.split)

lemma replay_snoc:
  "replayEvents now jv prev c es = (c1, None) \<Longrightarrow>
   replayEvents now jv prev c (es @ [e]) = replayEvents now jv (last_seq prev es) c1 [e]"
proof (induction es arbitrary: prev c)
  case (Cons a es)
  obtain c2 where c2: "replayEvents now jv prev c [a] = (c2, None)"
    and r: "replayEvents now jv (te_SessionSeq a) c2 es = (c1, None)"
    using Cons.prems unfolding replay_Cons[of _ _ _ _ a es] by (auto split: prod.splits option.splits)
  have "last_seq prev (a # es) = last_seq (te_SessionSeq a) es" by (simp add: last_seq_def)
  then show ?case using Cons.IH[OF r] c2 unfolding append_Cons replay_Cons[of _ _ _ _ a "es @ [e]"] by simp
qed (simp add: last_seq_def)

lemma validate_norm:
  assumes "norm_coord c' = norm_coord c"
  shows "validateCommandLocked c' cmd = validateCommandLocked c cmd"
proof -
  have "co_sessionID c' = co_sessionID c" "co_turn c' = co_turn c" "co_step c' = co_step c" "co_generation c' = co_generation c"
    using assms by (metis norm_fields)+
  then show ?thesis unfolding validateCommandLocked_def by (simp only:)
qed

lemma replay_next:
  assumes eq: "norm_coord c' = norm_coord c" "co_toolResults c' \<noteq> None" and inv: "coord_inv c"
    and v: "validateCommandLocked c cmd = None" and run: "applyCommandLocked now c cmd = (c1, None)"
    and ev: "replayCommand jv e = Inr (Some cmd)" "te_SessionID e = co_sessionID c" "\<not> (prev \<noteq> 0 \<and> te_SessionSeq e \<noteq> prev + 1)"
  shows "\<exists>c1'. replayEvents now jv prev c' [e] = (c1', None) \<and> norm_coord c1' = norm_coord c1 \<and> co_toolResults c1' \<noteq> None"
proof -
  obtain c2 where c2: "applyCommandLocked now c' cmd = (c2, None)" "norm_coord c2 = norm_coord c1" "co_toolResults c2 \<noteq> None"
    using norm_apply[OF eq inv v run] by blast
  have "te_SessionID e = co_sessionID c'" using ev(2) eq(1) by (metis norm_fields(1))
  then show ?thesis using c2 ev v validate_norm[OF eq(1)] by (auto split: if_splits)
qed

lemma snapshot_with_applied: "snapshotLocked (with_applied x c) = snapshotLocked c"
proof -
  have "project_calls (with_applied x c) = project_calls c"
    by (rule ext) (simp add: project_calls_def)
  then show ?thesis unfolding snapshotLocked_def by (simp only: with_applied_fields)
qed

lemma snapshot_applied [simp]: "snapshotLocked (c\<lparr>co_appliedCommands := x\<rparr>) = snapshotLocked c"
  using snapshot_with_applied[of x c] by (simp add: with_applied_def)

lemma log_last_seq:
  assumes "log_ok db" "length (es_rows db) < 2 ^ 64"
  shows "last_seq 0 (session_rows db sid) = max_seq (map te_SessionSeq (session_rows db sid))"
proof -
  define n where "n = length (session_rows db sid)"
  have m: "map te_SessionSeq (session_rows db sid) = seq_upto n" using assms(1) by (simp add: log_ok_def n_def)
  have n: "n < 2 ^ 64" using rows_le(1)[of db sid] assms(2) by (simp add: n_def)
  show ?thesis
  proof (cases "session_rows db sid = []")
    case True
    then show ?thesis by (simp add: last_seq_def max_seq_def)
  next
    case False
    then obtain k where k: "n = Suc k" by (cases n) (auto simp: n_def)
    have "te_SessionSeq (last (session_rows db sid)) = last (seq_upto n)"
      using m False by (metis last_map)
    then show ?thesis unfolding m using False max_seq_upto[OF n] k by (simp add: last_seq_def seq_upto_Suc)
  qed
qed


section \<open>Appending the event of a command\<close>

lemma lifecycleEvent_fields [simp]:
  "te_SessionID (lifecycleEvent jv jc rt et cmd snap) = trim_space (jr_sessionID rt)"
  "te_TurnID (lifecycleEvent jv jc rt et cmd snap) = snap_TurnID snap"
  "te_CommandID (lifecycleEvent jv jc rt et cmd snap) = cmd_CommandID cmd"
  by (simp_all add: lifecycleEvent_def NewTurnEventEnvelope_def)

lemma lifecycleEvent_validated:
  assumes "cmd_At cmd \<noteq> 0" "validateTurnEvent now (lifecycleEvent jv jc rt et cmd snap) = Inr e"
  shows "e = lifecycleEvent jv jc rt et cmd snap"
  using assms by (auto simp: validateTurnEvent_def lifecycleEvent_def NewTurnEventEnvelope_def Let_def split: if_splits)

lemma append_snapshot_error: "AppendTurnEventWithSnapshot now db ev ms = (Inl x, db') \<Longrightarrow> db' = db"
  by (auto simp: AppendTurnEventWithSnapshot_def AppendTurnEvent_def split: sum.splits prod.splits if_splits)

lemma persist_error:
  "lifecyclePersistEvent jv jc ns rt cmd snap (db, seq) = (Some e, db', seq') \<Longrightarrow> db' = db"
  by (auto simp: lifecyclePersistEvent_def Let_def dest: append_snapshot_error append_error
      split: option.splits if_splits prod.splits sum.splits)

lemma persist_row:
  assumes p: "lifecyclePersistEvent jv jc ns rt cmd snap (db, seq) = (None, db', seq')"
    and et: "lifecycleEventType (cmd_Type cmd) = Some et" "snap_TurnID snap \<noteq> []" "cmd_At cmd \<noteq> 0"
    and sid: "trim_space (jr_sessionID rt) = jr_sessionID rt"
    and new: "\<forall>r \<in> set (session_rows db (jr_sessionID rt)). te_CommandID r \<noteq> cmd_CommandID cmd"
    and log: "log_ok db" "length (es_rows db) < 2 ^ 64 - 1"
  obtains a b i e where "e = (lifecycleEvent jv jc rt et cmd snap)\<lparr>te_SessionSeq := a, te_TurnSeq := b, te_ID := i\<rparr>"
    "a = max_seq (map te_SessionSeq (session_rows db (jr_sessionID rt))) + 1"
    "session_rows db' (jr_sessionID rt) = session_rows db (jr_sessionID rt) @ [e]"
    "log_ok db'" "length (es_rows db') = Suc (length (es_rows db))"
proof -
  let ?e = "lifecycleEvent jv jc rt et cmd snap"
  obtain db1 stored x where a: "AppendTurnEvent ns db ?e = (Inr stored, db1)" "db' = db1\<lparr>es_snapshots := x\<rparr>"
  proof (cases "et = EventTurnCompleted")
    case True
    then obtain stored ms where "AppendTurnEventWithSnapshot ns db ?e ms = (Inr stored, db')"
      using p et by (auto simp: lifecyclePersistEvent_def Let_def split: if_splits prod.splits sum.splits)
    then show thesis using that by (metis append_snapshot_rows)
  next
    case False
    then obtain stored where "AppendTurnEvent ns db ?e = (Inr stored, db')"
      using p et by (auto simp: lifecyclePersistEvent_def Let_def split: if_splits prod.splits sum.splits)
    moreover have "db' = db'\<lparr>es_snapshots := es_snapshots db'\<rparr>" by simp
    ultimately show thesis using that by blast
  qed
  obtain e0 ins where "validateTurnEvent ns ?e = Inr e0" and tx0: "appendTurnEventTx db e0 = (Inr (stored, ins), db1)"
    using append_result[OF a(1)] .
  then have tx: "appendTurnEventTx db ?e = (Inr (stored, ins), db1)" using lifecycleEvent_validated[OF et(3)] by blast
  have ok: "log_ok db'" using log_ok_append[OF tx log] a(2) by simp
  from tx show thesis
  proof (cases rule: appendTx_cases)
    case old
    then show ?thesis using new sid by (auto simp: session_rows_def)
  next
    case n: new
    have "session_rows db' (jr_sessionID rt) = session_rows db (jr_sessionID rt) @ [stored]"
      using n(2,3) a(2) sid by (simp add: session_rows_def)
    moreover have "length (es_rows db') = Suc (length (es_rows db))" using n(2) a(2) by simp
    ultimately show ?thesis using that[OF n(10) _ _ ok] n(6) sid by simp
  qed
qed

text \<open>The log \<open>db\<close> replays to the coordinator \<open>c\<close>.\<close>

definition replays_to :: "gotime \<Rightarrow> (string \<Rightarrow> bool) \<Rightarrow> string \<Rightarrow> string \<Rightarrow> event_store \<Rightarrow> coordinator \<Rightarrow> bool" where
  "replays_to now jv sid aid db c \<longleftrightarrow>
     (\<exists>c'. replayEvents now jv 0 (resetForRestore (NewTurnCoordinator sid aid)) (session_rows db sid) = (c', None) \<and>
           norm_coord c' = norm_coord c \<and> co_toolResults c' \<noteq> None)"

lemma replays_to_append:
  assumes r: "replays_to now0 jv sid aid db c" and inv: "coord_inv c" "co_sessionID c = sid"
    and rt: "jr_sessionID rt = sid" "trim_space sid = sid"
    and v: "validateCommandLocked c cmd = None" and run: "applyCommandLocked now c cmd = (c1, None)"
    and ex: "journal_exact jv jc cmd"
    and p: "lifecyclePersistEvent jv jc ns rt cmd (snapshotLocked c1) (db, seq) = (None, db', seq')"
    and et: "lifecycleEventType (cmd_Type cmd) = Some et" "snap_TurnID (snapshotLocked c1) \<noteq> []"
    and new: "\<forall>r \<in> set (session_rows db sid). te_CommandID r \<noteq> cmd_CommandID cmd"
    and log: "log_ok db" "length (es_rows db) < 2 ^ 64 - 1"
  shows "replays_to now0 jv sid aid db' c1 \<and> log_ok db' \<and> length (es_rows db') = Suc (length (es_rows db)) \<and>
    (\<exists>e. session_rows db' sid = session_rows db sid @ [e] \<and> te_CommandID e = cmd_CommandID cmd)"
proof -
  let ?cmd = "replayed jv jc sid cmd (snapshotLocked c1)"
  have at: "cmd_At cmd \<noteq> 0" using ex by (simp add: journal_exact_def)
  obtain a b i e where e: "e = (lifecycleEvent jv jc rt et cmd (snapshotLocked c1))\<lparr>te_SessionSeq := a, te_TurnSeq := b, te_ID := i\<rparr>"
    and a: "a = max_seq (map te_SessionSeq (session_rows db sid)) + 1"
    and rows: "session_rows db' sid = session_rows db sid @ [e]" and ok: "log_ok db'" "length (es_rows db') = Suc (length (es_rows db))"
    using persist_row[OF p et at _ _ log] rt new by metis
  have rc: "replayCommand jv e = Inr (Some ?cmd)" using replayCommand_event[OF et(1) e] rt by simp
  have v': "validateCommandLocked c ?cmd = None" using validate_replayed[OF run inv(1) v] inv(2) by simp
  have at': "cmd_At ?cmd \<noteq> 0" using at by (simp add: replayed_def)
  have run': "applyCommandLocked now0 c ?cmd = (c1, None)"
    using apply_any_time[OF at', of now0 c now] apply_replayed[OF run inv(1) ex, of sid] by simp
  have seq: "te_SessionSeq e = last_seq 0 (session_rows db sid) + 1"
    using a log_last_seq[OF log(1), of sid] log(2) e by simp
  have ses: "te_SessionID e = co_sessionID c" "te_CommandID e = cmd_CommandID cmd" using e rt inv(2) by simp_all
  obtain c' where c': "replayEvents now0 jv 0 (resetForRestore (NewTurnCoordinator sid aid)) (session_rows db sid) = (c', None)"
    "norm_coord c' = norm_coord c" "co_toolResults c' \<noteq> None" using r by (auto simp: replays_to_def)
  have "\<not> (last_seq 0 (session_rows db sid) \<noteq> 0 \<and> te_SessionSeq e \<noteq> last_seq 0 (session_rows db sid) + 1)" using seq by simp
  then obtain c1' where "replayEvents now0 jv (last_seq 0 (session_rows db sid)) c' [e] = (c1', None)"
    "norm_coord c1' = norm_coord c1" "co_toolResults c1' \<noteq> None"
    using replay_next[OF c'(2,3) inv(1) v' run' rc ses(1)] by blast
  then have "replays_to now0 jv sid aid db' c1"
    unfolding replays_to_def rows replay_snoc[OF c'(1)] by blast
  then show ?thesis using rows ok ses(2) by blast
qed


section \<open>One durable dispatch\<close>

lemma accepted_has_event:
  assumes "applyCommandLocked now c cmd = (c1, None)"
  obtains et where "lifecycleEventType (cmd_Type cmd) = Some et"
proof -
  have "\<not> (\<exists>s. cmd_Type cmd = Command_Other s)" using assms by (auto simp: applyCommandLocked_def)
  then show thesis using that by (cases "cmd_Type cmd") (auto simp: lifecycleEventType_def)
qed

lemma accepted_turn:
  assumes "applyCommandLocked now c cmd = (c1, None)" "validateCommandLocked c cmd = None" "coord_inv c"
  shows "snap_TurnID (snapshotLocked c1) \<noteq> []"
proof -
  have inv1: "coord_inv c1" using coord_inv_apply assms(1,3) by blast
  have "co_turn c1 \<noteq> None"
  proof (cases "cmd_Type cmd = CommandStartTurn")
    case True
    then show ?thesis using startTurn_idents[of c cmd c1] assms(1) by (auto simp: applyCommandLocked_def)
  next
    case nt: False
    then obtain t where t: "co_turn c = Some t"
      using assms(2) by (auto simp: validateCommandLocked_def split: if_splits option.splits)
    show ?thesis
    proof (cases "cmd_Type cmd = CommandStartStep")
      case True
      then show ?thesis using startStep_idents[of c cmd c1] assms(1) by (auto simp: applyCommandLocked_def)
    next
      case False
      then show ?thesis using idents_apply[of cmd now c] assms(1) nt t by (auto simp: idents_def)
    qed
  qed
  then show ?thesis using inv1 by (auto simp: inv_defs turn_ok_def snap_ids split: option.splits)
qed

text \<open>The batch marker repeats what the assistant message already did.\<close>

definition batch_marker :: "turn_command \<Rightarrow> coordinator_snapshot \<Rightarrow> turn_command" where
  "batch_marker cmd snap = cmd\<lparr>cmd_Type := CommandToolBatchCreated, cmd_ToolBatchID := snap_ToolBatchID snap,
     cmd_CommandID := cmd_CommandID cmd @ ''-batch''\<rparr>"

lemma batch_marker_noop:
  assumes run: "applyCommandLocked now c cmd = (c1, None)" and v: "validateCommandLocked c cmd = None"
    and ty: "cmd_Type cmd = CommandAssistantReceived" and b: "cmd_HasTools cmd"
  shows "applyCommandLocked now c1 (batch_marker cmd s) = (c1, None) \<and> validateCommandLocked c1 (batch_marker cmd s) = None"
proof -
  have g: "co_generation c1 = co_generation c" using gen_apply[of cmd now c] run ty by simp
  have i: "idents c1 = idents c" using idents_apply[of cmd now c] run ty by simp
  have s: "co_sessionID c1 = co_sessionID c" using ids_apply[of now c cmd] run by (simp add: ids_def)
  obtain st where st: "co_step c = Some st" "cmd_StepID cmd = step_ID st"
    using v ty by (auto simp: validateCommandLocked_def commandRequiresStep_def split: if_splits option.splits)
  obtain st1 where st1: "co_step c1 = Some st1" "step_ID st1 = step_ID st"
    using i st by (auto simp: idents_def)
  obtain t where t: "co_turn c = Some t" "cmd_TurnID cmd = turn_ID t"
    using v ty by (auto simp: validateCommandLocked_def split: if_splits option.splits)
  obtain t1 where t1: "co_turn c1 = Some t1" "turn_ID t1 = turn_ID t"
    using i t by (auto simp: idents_def)
  have "co_batch c1 \<noteq> None"
    using run ty b st by (auto simp: applyCommandLocked_def recordAssistantLocked_def outcome_simps mod_defs Let_def split: option.splits if_splits)
  then have "applyCommandLocked now c1 (batch_marker cmd s) = (c1, None)"
    using st1 by (simp add: applyCommandLocked_def batch_marker_def advanceStepLocked_def)
  moreover have "validateCommandLocked c1 (batch_marker cmd s) = None"
    using v ty t t1 st st1 g s
    by (auto simp: validateCommandLocked_def commandRequiresStep_def batch_marker_def split: if_splits)
  ultimately show ?thesis by simp
qed


text \<open>The ids the runtime gave out so far: the first \<open>n\<close> command ids and their batch markers.\<close>

definition command_id :: "string \<Rightarrow> nat \<Rightarrow> string" where
  "command_id sid n = sid @ ''-lifecycle-'' @ show_nat n"

definition issued :: "string \<Rightarrow> nat \<Rightarrow> string \<Rightarrow> bool" where
  "issued sid n k \<longleftrightarrow> (\<exists>m. m \<le> n \<and> (k = command_id sid m \<or> k = command_id sid m @ ''-batch''))"

lemma marker_not_command: "command_id sid m \<noteq> command_id sid k @ ''-batch''"
proof
  assume "command_id sid m = command_id sid k @ ''-batch''"
  then have "last (show_nat m) = last ''batch''" by (simp add: command_id_def)
  moreover obtain d where "d < 10" "last (show_nat m) = digit_char d"
    using show_nat_digits[OF last_in_set[OF show_nat_nonempty]] by blast
  ultimately have "(of_char (digit_char d) :: nat) = of_char (CHR ''h'')" by simp
  then show False using of_char_digit[OF \<open>d < 10\<close>] \<open>d < 10\<close> by simp
qed

lemma command_id_inj [simp]: "command_id sid m = command_id sid k \<longleftrightarrow> m = k"
  by (simp add: command_id_def)

lemma next_not_issued:
  "\<not> issued sid n (command_id sid (Suc n))" "\<not> issued sid n (command_id sid (Suc n) @ ''-batch'')"
  using marker_not_command[of sid] marker_not_command[of sid, symmetric] by (auto simp: issued_def)

lemma issued_mono: "issued sid n k \<Longrightarrow> issued sid (Suc n) k"
  by (auto simp: issued_def intro: le_SucI)

lemma issued_next: "issued sid (Suc n) (command_id sid (Suc n))" "issued sid (Suc n) (command_id sid (Suc n) @ ''-batch'')"
  by (auto simp: issued_def)

definition journal_inv :: "gotime \<Rightarrow> (string \<Rightarrow> bool) \<Rightarrow> string \<Rightarrow> string \<Rightarrow> nat \<Rightarrow> event_store \<Rightarrow> coordinator \<Rightarrow> bool" where
  "journal_inv now0 jv sid aid n db c \<longleftrightarrow>
     coord_inv c \<and> co_sessionID c = sid \<and> log_ok db \<and> replays_to now0 jv sid aid db c \<and>
     (\<forall>r \<in> set (session_rows db sid). issued sid n (te_CommandID r)) \<and>
     (\<forall>k. flag_set (co_appliedCommands c) k \<longrightarrow> issued sid n k)"

lemma flag_set_clone: "flag_set m k \<longleftrightarrow> k \<in> set (cloneStringSet m)"
  by (auto simp: flag_set_def cloneStringSet_def split: option.splits)

lemma same_state_norm:
  assumes "same_state c c'"
  shows "norm_coord c' = norm_coord c" "cloneStringSet (co_appliedCommands c') = cloneStringSet (co_appliedCommands c)"
    "co_sessionID c' = co_sessionID c"
  using assms unfolding same_state_def norm_coord_def by (cases c; cases c'; simp)+

lemma journal_inv_Suc: "journal_inv now0 jv sid aid n db c \<Longrightarrow> journal_inv now0 jv sid aid (Suc n) db c"
  unfolding journal_inv_def by (blast intro: issued_mono)

lemma journal_inv_same:
  assumes "journal_inv now0 jv sid aid n db c" "same_state c c'" "coord_inv c'"
  shows "journal_inv now0 jv sid aid n db c'"
  using assms same_state_norm[OF assms(2)] by (simp add: journal_inv_def replays_to_def flag_set_clone)

lemma journal_accept:
  assumes J: "journal_inv now0 jv sid aid n db c" and rt: "jr_sessionID rt = sid" "trim_space sid = sid"
    and id: "cmd_CommandID cmd = command_id sid (Suc n)" and ex: "journal_exact jv jc cmd"
    and d: "dispatchLocked now c cmd = (c1, snap, None)"
    and p: "lifecyclePersistEvent jv jc ns rt cmd snap (db, seq) = (None, db', seq')"
    and len: "length (es_rows db) < 2 ^ 64 - 1"
  shows "journal_inv now0 jv sid aid (Suc n) db' c1 \<and> length (es_rows db') = Suc (length (es_rows db)) \<and>
    (\<forall>r \<in> set (session_rows db' sid). te_CommandID r \<noteq> command_id sid (Suc n) @ ''-batch'') \<and>
    (\<exists>c0 x. c1 = c0\<lparr>co_appliedCommands := x\<rparr> \<and> snap = snapshotLocked c0 \<and>
       validateCommandLocked c cmd = None \<and> applyCommandLocked now c cmd = (c0, None))"
proof -
  have inv: "coord_inv c" "co_sessionID c = sid" "log_ok db" "replays_to now0 jv sid aid db c"
    using J by (simp_all add: journal_inv_def)
  have fr: "fresh c cmd"
    using J id next_id_trimmed[OF rt(2)] next_not_issued(1) by (auto simp: fresh_def journal_inv_def command_id_def)
  have st: "stamped now cmd = cmd" using ex by (simp add: stamped_def journal_exact_def)
  obtain c0 x where a: "validateCommandLocked c cmd = None" "applyCommandLocked now c cmd = (c0, None)"
    "c1 = c0\<lparr>co_appliedCommands := x\<rparr>" "snap = snapshotLocked c1"
    "c1 = c0 \<or> x = Some (add_key (cmd_CommandID cmd) (cloneStringSet (co_appliedCommands c0)))"
    using dispatch_accepted[OF d fr] st by metis
  have snap: "snap = snapshotLocked c0" using a(3,4) by simp
  obtain et where et: "lifecycleEventType (cmd_Type cmd) = Some et" using accepted_has_event[OF a(2)] .
  have new: "\<forall>r \<in> set (session_rows db sid). te_CommandID r \<noteq> cmd_CommandID cmd"
    using J id next_not_issued(1) by (metis journal_inv_def)
  note R = replays_to_append[OF inv(4,1,2) rt a(1,2) ex p[unfolded snap] et accepted_turn[OF a(2,1) inv(1)] new inv(3) len]
  obtain e where e: "session_rows db' sid = session_rows db sid @ [e]" "te_CommandID e = command_id sid (Suc n)"
    using R id by auto
  have ap: "co_appliedCommands c0 = co_appliedCommands c"
  proof -
    have "with_applied (co_appliedCommands c) c = c" by (simp add: with_applied_def)
    then have "c0 = with_applied (co_appliedCommands c) c0" using applied_apply[of now "co_appliedCommands c" c cmd] a(2) by simp
    then show ?thesis by (metis coordinator.select_convs(10) coordinator.surjective coordinator.update_convs(10) with_applied_def)
  qed
  have "issued sid (Suc n) k" if "flag_set (co_appliedCommands c1) k" for k
  proof -
    have "co_appliedCommands c1 \<in> {co_appliedCommands c, Some (add_key (cmd_CommandID cmd) (cloneStringSet (co_appliedCommands c)))}"
      using a(3,5) ap by (cases "c1 = c0") simp_all
    then have "k = cmd_CommandID cmd \<or> flag_set (co_appliedCommands c) k"
      using that by (auto simp: flag_set_clone add_key_def cloneStringSet_def split: if_splits)
    then show ?thesis using J id issued_mono issued_next(1) by (auto simp: journal_inv_def)
  qed
  moreover have "issued sid (Suc n) (te_CommandID r)" if "r \<in> set (session_rows db' sid)" for r
    using that e J issued_mono issued_next(1) by (auto simp: journal_inv_def)
  moreover have "replays_to now0 jv sid aid db' c1" using R a(3) by (simp add: replays_to_def)
  moreover have "coord_inv c1" "co_sessionID c1 = sid"
    using coord_inv_dispatch[OF d inv(1)] dispatch_ids[OF d] inv(2) by (simp_all add: ids_def)
  moreover have "te_CommandID r \<noteq> command_id sid (Suc n) @ ''-batch''" if "r \<in> set (session_rows db' sid)" for r
    using that e J next_not_issued(2) marker_not_command by (auto simp: journal_inv_def)
  ultimately show ?thesis using R snap a(1,2,3) unfolding journal_inv_def by blast
qed

lemma journal_marker:
  assumes J: "journal_inv now0 jv sid aid (Suc n) db c1" and rt: "jr_sessionID rt = sid" "trim_space sid = sid"
    and id: "cmd_CommandID cmd = command_id sid (Suc n)" and ex: "journal_exact jv jc cmd"
    and a: "validateCommandLocked c cmd = None" "applyCommandLocked now c cmd = (c0, None)"
      "c1 = c0\<lparr>co_appliedCommands := x\<rparr>" "coord_inv c"
    and ty: "cmd_Type cmd = CommandAssistantReceived" "cmd_HasTools cmd"
    and new: "\<forall>r \<in> set (session_rows db sid). te_CommandID r \<noteq> command_id sid (Suc n) @ ''-batch''"
    and p: "lifecyclePersistEvent jv jc ns rt (batch_marker cmd (snapshotLocked c0)) (snapshotLocked c0) (db, seq) = (r, db', seq')"
    and len: "length (es_rows db) < 2 ^ 64 - 1"
  shows "journal_inv now0 jv sid aid (Suc n) db' c1 \<and> length (es_rows db') \<le> Suc (length (es_rows db))"
proof (cases r)
  case (Some e)
  then show ?thesis using persist_error[of jv jc ns rt] p J by (metis le_Suc_eq order_refl)
next
  case None
  let ?m = "batch_marker cmd (snapshotLocked c0)"
  note M = batch_marker_noop[OF a(2,1) ty, of "snapshotLocked c0"]
  have i0: "coord_inv c0" using coord_inv_apply[OF a(2,4)] .
  have s0: "co_sessionID c0 = sid" and l: "log_ok db" using J a(3) by (simp_all add: journal_inv_def)
  have r0: "replays_to now0 jv sid aid db c0" using J a(3) by (simp add: journal_inv_def replays_to_def)
  have mid: "cmd_CommandID ?m = command_id sid (Suc n) @ ''-batch''" using id by (simp add: batch_marker_def)
  have mex: "journal_exact jv jc ?m" using ex by (simp add: journal_exact_def batch_marker_def)
  have et: "lifecycleEventType (cmd_Type ?m) = Some EventToolBatchCreated" by (simp add: batch_marker_def lifecycleEventType_def)
  note R = replays_to_append[OF r0 i0 s0 rt conjunct2[OF M] conjunct1[OF M] mex p[unfolded None] et accepted_turn[OF a(2,1,4)]
      new[folded mid] l len]
  have "replays_to now0 jv sid aid db' c1" using R a(3) by (simp add: replays_to_def)
  moreover have "issued sid (Suc n) (te_CommandID r)" if "r \<in> set (session_rows db' sid)" for r
    using that R J mid issued_next(2) by (auto simp: journal_inv_def)
  ultimately show ?thesis using R J unfolding journal_inv_def by (metis order_refl)
qed


text \<open>The runtime is in step with its log.\<close>

definition journaled :: "gotime \<Rightarrow> (string \<Rightarrow> bool) \<Rightarrow> journal_runtime \<Rightarrow> bool" where
  "journaled now0 jv rt \<longleftrightarrow>
     trim_space (jr_sessionID rt) = jr_sessionID rt \<and> jr_sessionID rt \<noteq> [] \<and>
     (case jr_store rt of None \<Rightarrow> False
      | Some db \<Rightarrow> journal_inv now0 jv (jr_sessionID rt) (jr_agentID rt) (unat (jr_commandSeq rt)) db (jr_coordinator rt))"

definition log_length :: "journal_runtime \<Rightarrow> nat" where
  "log_length rt = (case jr_store rt of None \<Rightarrow> 0 | Some db \<Rightarrow> length (es_rows db))"

lemma nextCommandID_eq:
  assumes "unat n < 2 ^ 64 - 1"
  shows "lifecycleNextCommandID sid n = (command_id sid (Suc (unat n)), n + 1)" "unat (n + 1) = Suc (unat n)"
proof -
  show u: "unat (n + 1) = Suc (unat n)" using assms by (simp add: unat_word_ariths)
  then show "lifecycleNextCommandID sid n = (command_id sid (Suc (unat n)), n + 1)"
    by (simp add: lifecycleNextCommandID_def command_id_def)
qed

lemma dispatch_journaled:
  assumes J: "journaled now0 jv rt" and cmd: "cmd_CommandID cmd = []" "journal_exact jv jc cmd"
    and b: "unat (jr_commandSeq rt) < 2 ^ 64 - 1" "log_length rt + 2 < 2 ^ 64"
    and d: "lifecycleDispatchLockedErr jv jc now ns observe rt cmd = (rt', snap', err)"
  shows "journaled now0 jv rt' \<and> jr_commandSeq rt' = jr_commandSeq rt + 1 \<and> log_length rt' \<le> log_length rt + 2 \<and>
    jr_sessionID rt' = jr_sessionID rt \<and> jr_agentID rt' = jr_agentID rt"
proof -
  define sid n c where "sid = jr_sessionID rt" and "n = unat (jr_commandSeq rt)" and "c = jr_coordinator rt"
  obtain db where db: "jr_store rt = Some db" and I: "journal_inv now0 jv sid (jr_agentID rt) n db c"
    and sid: "trim_space sid = sid" "sid \<noteq> []"
    using J by (auto simp: journaled_def sid_def n_def c_def split: option.splits)
  have len: "length (es_rows db) < 2 ^ 64 - 1" "length (es_rows db) + 2 < 2 ^ 64"
    and ll: "log_length rt = length (es_rows db)" using b(2) db by (simp_all add: log_length_def)
  have sq: "unat (jr_commandSeq rt + 1) = Suc n" using nextCommandID_eq(2)[OF b(1)] by (simp add: n_def)
  define cm r1 where "cm = cmd\<lparr>cmd_CommandID := command_id sid (Suc n)\<rparr>" and "r1 = rt\<lparr>jr_commandSeq := jr_commandSeq rt + 1\<rparr>"
  have nx: "lifecycleNextCommandID (jr_sessionID rt) (jr_commandSeq rt) = (command_id sid (Suc n), jr_commandSeq rt + 1)"
    using nextCommandID_eq(1)[OF b(1), of sid] by (simp add: sid_def n_def)
  have id: "cmd_CommandID cm = command_id sid (Suc n)" by (simp add: cm_def)
  have ex: "journal_exact jv jc cm" using cmd(2) by (simp add: cm_def journal_exact_def)
  have r1: "jr_store r1 = Some db" "jr_coordinator r1 = c" "jr_sessionID r1 = sid" "jr_agentID r1 = jr_agentID rt"
    by (simp_all add: r1_def db c_def sid_def)
  have D: "(let (c', snap, err, w) = (case DispatchDurable now c cm (Some (lifecyclePersistEvent jv jc ns r1)) (db, jr_eventSeq r1) of
                          (c, snap, err, w) \<Rightarrow> (c, snap, err, Some w));
          rt1 = r1\<lparr>jr_coordinator := c', jr_store := map_option fst w,
                   jr_eventSeq := (case w of None \<Rightarrow> jr_eventSeq r1 | Some (_, sq) \<Rightarrow> sq)\<rparr>
      in case err of
           Some e \<Rightarrow> (rt1, snap, Some (DurableFailure e))
         | None \<Rightarrow>
             (case observe snap of
                Some e \<Rightarrow> (rt1, snap, Some (ObserverFailure e))
              | None \<Rightarrow>
                  let rt2 = (case jr_store rt1 of None \<Rightarrow> rt1
                    | Some db \<Rightarrow>
                       if cmd_Type cm = CommandAssistantReceived \<and> cmd_HasTools cm \<and> snap_ToolBatchID snap \<noteq> []
                       then (case lifecyclePersistEvent jv jc ns rt1 (batch_marker cm snap) snap (db, jr_eventSeq rt1) of
                               (_, db', sq) \<Rightarrow> rt1\<lparr>jr_store := Some db', jr_eventSeq := sq\<rparr>)
                       else rt1)
                  in (rt2, snap, None))) = (rt', snap', err)"
    using d unfolding lifecycleDispatchLockedErr_def Let_def nx cmd(1) prod.case if_P[OF refl]
    by (simp only: r1(1,2) option.case prod.case batch_marker_def[symmetric] cm_def[symmetric] r1_def[symmetric])
  have fin: ?thesis if "rt' = r1\<lparr>jr_coordinator := c', jr_store := Some db', jr_eventSeq := z\<rparr>"
    "journal_inv now0 jv sid (jr_agentID rt) (Suc n) db' c'" "length (es_rows db') \<le> length (es_rows db) + 2" for c' db' z
    using that sid sq ll by (simp add: journaled_def log_length_def r1_def sid_def)
  obtain c1 snap res where dl: "dispatchLocked now c cm = (c1, snap, res)" by (cases "dispatchLocked now c cm")
  have ci: "coord_inv c" using I by (simp add: journal_inv_def)
  show ?thesis
  proof (cases res)
    case (Some e)
    have q: "rt' = r1\<lparr>jr_coordinator := c1, jr_store := Some db, jr_eventSeq := jr_eventSeq r1\<rparr>"
      using D dl Some by (auto simp: DispatchDurable_def Let_def intro!: journal_runtime.equality)
    have "journal_inv now0 jv sid (jr_agentID rt) n db c1"
      using journal_inv_same[OF I] dispatch_error_state dl Some coord_inv_dispatch[OF dl ci] by blast
    from fin[OF q journal_inv_Suc[OF this]] show ?thesis by simp
  next
    case acc: None
    obtain pr db1 s1 where p: "lifecyclePersistEvent jv jc ns r1 cm snap (db, jr_eventSeq r1) = (pr, db1, s1)"
      by (cases "lifecyclePersistEvent jv jc ns r1 cm snap (db, jr_eventSeq r1)")
    show ?thesis
    proof (cases pr)
      case (Some e)
      then have dd: "db1 = db" using p persist_error by blast
      define c2 where "c2 = restoreCheckpointLocked c1 (checkpointLocked c)"
      have q: "rt' = r1\<lparr>jr_coordinator := c2, jr_store := Some db, jr_eventSeq := s1\<rparr>"
        using D dl acc p Some dd by (simp add: DispatchDurable_def Let_def c2_def)
      have "same_state c c2" using restore_same_state[OF dispatch_ids[OF dl]] by (simp add: c2_def)
      then have "journal_inv now0 jv sid (jr_agentID rt) n db c2"
        using journal_inv_same[OF I] coord_inv_restoreCheckpoint[OF ci] by (simp add: c2_def)
      from fin[OF q journal_inv_Suc[OF this]] show ?thesis by simp
    next
      case None
      note A = journal_accept[OF I r1(3) sid(1) id ex dl[unfolded acc] p[unfolded None] len(1)]
      then have J1: "journal_inv now0 jv sid (jr_agentID rt) (Suc n) db1 c1"
        and l1: "length (es_rows db1) = Suc (length (es_rows db))"
        and nm: "\<forall>r \<in> set (session_rows db1 sid). te_CommandID r \<noteq> command_id sid (Suc n) @ ''-batch''" by blast+
      obtain c0 x where a: "c1 = c0\<lparr>co_appliedCommands := x\<rparr>" "snap = snapshotLocked c0"
        "validateCommandLocked c cm = None" "applyCommandLocked now c cm = (c0, None)" using A by blast
      have dd: "DispatchDurable now c cm (Some (lifecyclePersistEvent jv jc ns r1)) (db, jr_eventSeq r1) = (c1, snap, None, (db1, s1))"
        using dl acc p None by (simp add: DispatchDurable_def Let_def)
      define rt1 where "rt1 = r1\<lparr>jr_coordinator := c1, jr_store := Some db1, jr_eventSeq := s1\<rparr>"
      have rt1: "jr_sessionID rt1 = sid" "jr_eventSeq rt1 = s1" "jr_store rt1 = Some db1" using r1(3) by (simp_all add: rt1_def)
      obtain r2 db2 s2 where p2: "lifecyclePersistEvent jv jc ns rt1 (batch_marker cm snap) snap (db1, s1) = (r2, db2, s2)"
        by (cases "lifecyclePersistEvent jv jc ns rt1 (batch_marker cm snap) snap (db1, s1)")
      have len1: "length (es_rows db1) < 2 ^ 64 - 1" using l1 len(2) by simp
      have "rt' = rt1 \<or> cmd_Type cm = CommandAssistantReceived \<and> cmd_HasTools cm \<and> rt' = rt1\<lparr>jr_store := Some db2, jr_eventSeq := s2\<rparr>"
        using D unfolding dd Let_def prod.case option.case option.map fst_conv rt1_def[symmetric] rt1 p2
        by (auto split: option.splits if_splits)
      then show ?thesis
      proof
        assume "rt' = rt1"
        from fin[OF this[unfolded rt1_def] J1] show ?thesis using l1 by simp
      next
        assume m: "cmd_Type cm = CommandAssistantReceived \<and> cmd_HasTools cm \<and> rt' = rt1\<lparr>jr_store := Some db2, jr_eventSeq := s2\<rparr>"
        have k: "journal_inv now0 jv sid (jr_agentID rt) (Suc n) db2 c1 \<and> length (es_rows db2) \<le> Suc (length (es_rows db1))"
          using journal_marker[OF J1 rt1(1) sid(1) id ex a(3,4,1) ci _ _ nm p2[unfolded a(2)] len1] m by blast
        have "rt' = r1\<lparr>jr_coordinator := c1, jr_store := Some db2, jr_eventSeq := s2\<rparr>" using m by (simp add: rt1_def)
        from fin[OF this conjunct1[OF k]] show ?thesis using l1 k by simp
      qed
    qed
  qed
qed


section \<open>Runs and restarts\<close>

definition new_runtime :: "string \<Rightarrow> string \<Rightarrow> event_store \<Rightarrow> journal_runtime" where
  "new_runtime sid aid db =
     \<lparr>jr_sessionID = sid, jr_agentID = aid, jr_coordinator = NewTurnCoordinator sid aid, jr_store = Some db,
      jr_commandSeq = 0, jr_eventSeq = 0, jr_pendingInput = None\<rparr>"

text \<open>A run: commands with the two clocks and the observer of each dispatch; failures do not stop it.\<close>

fun journal_run ::
  "(string \<Rightarrow> bool) \<Rightarrow> (string \<Rightarrow> string) \<Rightarrow> journal_runtime \<Rightarrow>
   (gotime \<times> gotime \<times> (coordinator_snapshot \<Rightarrow> 'o option) \<times> turn_command) list \<Rightarrow> journal_runtime" where
  "journal_run jv jc rt [] = rt"
| "journal_run jv jc rt ((now, now_store, observe, cmd) # xs) =
     journal_run jv jc (fst (lifecycleDispatchLockedErr jv jc now now_store observe rt cmd)) xs"

definition runtime_command ::
  "(string \<Rightarrow> bool) \<Rightarrow> (string \<Rightarrow> string) \<Rightarrow> gotime \<times> gotime \<times> (coordinator_snapshot \<Rightarrow> 'o option) \<times> turn_command \<Rightarrow> bool" where
  "runtime_command jv jc = (\<lambda>(_, _, _, cmd). cmd_CommandID cmd = [] \<and> journal_exact jv jc cmd)"

lemma run_journaled:
  assumes "journaled now0 jv rt" "list_all (runtime_command jv jc) xs"
    and "unat (jr_commandSeq rt) + length xs < 2 ^ 64" "log_length rt + 2 * length xs < 2 ^ 64"
  shows "journaled now0 jv (journal_run jv jc rt xs) \<and> jr_sessionID (journal_run jv jc rt xs) = jr_sessionID rt \<and>
    jr_agentID (journal_run jv jc rt xs) = jr_agentID rt \<and> log_length (journal_run jv jc rt xs) < 2 ^ 64 \<and>
    unat (jr_commandSeq (journal_run jv jc rt xs)) = unat (jr_commandSeq rt) + length xs"
  using assms
proof (induction xs arbitrary: rt)
  case (Cons y xs)
  obtain now ns observe cmd where y: "y = (now, ns, observe, cmd)" by (cases y)
  obtain rt' snap' err where d: "lifecycleDispatchLockedErr jv jc now ns observe rt cmd = (rt', snap', err)"
    by (cases "lifecycleDispatchLockedErr jv jc now ns observe rt cmd")
  have b: "unat (jr_commandSeq rt) < 2 ^ 64 - 1" "log_length rt + 2 < 2 ^ 64 \<or> xs = []" using Cons.prems(3,4) by auto
  have b2: "log_length rt + 2 < 2 ^ 64" using Cons.prems(4) by simp
  have c: "cmd_CommandID cmd = []" "journal_exact jv jc cmd" using Cons.prems(2) y by (simp_all add: runtime_command_def)
  note D = dispatch_journaled[OF Cons.prems(1) c b(1) b2 d]
  have u: "unat (jr_commandSeq rt') = Suc (unat (jr_commandSeq rt))" using D nextCommandID_eq(2)[OF b(1)] by simp
  have l: "log_length rt' + 2 * length xs < 2 ^ 64" using D Cons.prems(4) by simp
  have "unat (jr_commandSeq rt') + length xs < 2 ^ 64" using u Cons.prems(3) by simp
  then show ?case using Cons.IH[of rt'] D Cons.prems(2) u l y d by simp
qed simp

lemma norm_reset_new: "norm_coord (resetForRestore (NewTurnCoordinator sid aid)) = norm_coord (NewTurnCoordinator sid aid)"
  by (simp add: norm_coord_def resetForRestore_def NewTurnCoordinator_def cloneStringSet_def)

lemma journaled_new:
  assumes "trim_space sid = sid" "sid \<noteq> []"
  shows "journaled now0 jv (new_runtime sid aid empty_store)"
proof -
  have "session_rows empty_store sid = []" by (simp add: session_rows_def empty_store_def)
  moreover have "co_toolResults (resetForRestore (NewTurnCoordinator sid aid)) \<noteq> None" by (simp add: resetForRestore_def)
  ultimately show ?thesis
    using assms log_ok_empty coord_inv_new[of sid aid]
    by (simp add: journaled_def new_runtime_def journal_inv_def replays_to_def norm_reset_new)
      (simp add: NewTurnCoordinator_def flag_set_def)
qed

lemma restored_coordinator:
  assumes J: "journaled now jv rt" and st: "jr_store rt = Some db" "log_length rt < 2 ^ 64" and sid: "jr_sessionID rt = sid" "jr_agentID rt = aid"
  shows "norm_coord (jr_coordinator (restoreLifecycleProjection jv now (new_runtime sid aid db))) = norm_coord (jr_coordinator rt)"
proof -
  have I: "journal_inv now jv sid aid (unat (jr_commandSeq rt)) db (jr_coordinator rt)" and t: "trim_space sid = sid" "sid \<noteq> []"
    using J st sid by (auto simp: journaled_def)
  have ld: "loadTurnEvents db sid 0 = Inr (session_rows db sid)"
    using load_all[of db sid] I st t by (simp add: journal_inv_def log_length_def)
  obtain c' where c': "replayEvents now jv 0 (resetForRestore (NewTurnCoordinator sid aid)) (session_rows db sid) = (c', None)"
    "norm_coord c' = norm_coord (jr_coordinator rt)" using I by (auto simp: journal_inv_def replays_to_def)
  show ?thesis
  proof (cases "session_rows db sid")
    case Nil
    then show ?thesis using c' ld norm_reset_new[of sid aid] by (simp add: restoreLifecycleProjection_def new_runtime_def)
  next
    case (Cons e es)
    have "Restore now jv (NewTurnCoordinator sid aid) (e # es) = (c', None)" using c'(1) Cons by (simp only: Restore_def prod.case option.case)
    then show ?thesis using c'(2) ld Cons by (simp add: restoreLifecycleProjection_def new_runtime_def Let_def)
  qed
qed


lemma foldl_max:
  fixes f :: "'a \<Rightarrow> u64"
  shows "a \<le> foldl (\<lambda>n e. max n (f e)) a es \<and> (\<forall>e \<in> set es. f e \<le> foldl (\<lambda>n e. max n (f e)) a es) \<and>
    (foldl (\<lambda>n e. max n (f e)) a es = a \<or> (\<exists>e \<in> set es. foldl (\<lambda>n e. max n (f e)) a es = f e))"
proof (induction es arbitrary: a)
  case (Cons e es)
  note I = Cons.IH[of "max a (f e)"]
  then have "max a (f e) \<le> foldl (\<lambda>n e. max n (f e)) a (e # es)" by simp
  then show ?case using I by (auto simp: max_def split: if_splits)
qed simp

lemma issued_sequence:
  assumes "issued sid n k" "trim_space sid = sid" "n < 2 ^ 64"
  shows "unat (lifecycleCommandSequence k) \<le> n"
proof -
  obtain m where m: "m \<le> n" "k = command_id sid m \<or> k = command_id sid m @ ''-batch''" using assms(1) by (auto simp: issued_def)
  have "unat (of_nat m :: u64) = m" using m(1) assms(3) by (simp add: unat_of_nat)
  then have "lifecycleCommandSequence (command_id sid m) = of_nat m"
    using next_id_sequence[OF assms(2), of "of_nat m"] by (simp add: command_id_def)
  moreover have "lifecycleCommandSequence (command_id sid m @ ''-batch'') = 0"
    by (rule marker_id_sequence) (use next_id_trimmed[OF assms(2)] in \<open>simp add: command_id_def\<close>)
  ultimately show ?thesis using m \<open>unat (of_nat m :: u64) = m\<close> by auto
qed

lemma restored_sequence:
  assumes J: "journaled now jv rt" and st: "jr_store rt = Some db" "log_length rt < 2 ^ 64" and sid: "jr_sessionID rt = sid" "jr_agentID rt = aid"
  shows "(\<forall>r \<in> set (session_rows db sid). lifecycleCommandSequence (te_CommandID r) \<le>
      jr_commandSeq (restoreLifecycleProjection jv now (new_runtime sid aid db))) \<and>
    unat (jr_commandSeq (restoreLifecycleProjection jv now (new_runtime sid aid db))) \<le> unat (jr_commandSeq rt)"
proof -
  define live where "live = unat (jr_commandSeq rt)"
  have I: "journal_inv now jv sid aid live db (jr_coordinator rt)" and t: "trim_space sid = sid" "sid \<noteq> []"
    using J st sid by (auto simp: journaled_def live_def)
  have live: "live < 2 ^ 64" unfolding live_def using unsigned_less[of "jr_commandSeq rt"] by simp
  have ld: "loadTurnEvents db sid 0 = Inr (session_rows db sid)"
    using load_all[of db sid] I st t by (simp add: journal_inv_def log_length_def)
  obtain c' where c': "replayEvents now jv 0 (resetForRestore (NewTurnCoordinator sid aid)) (session_rows db sid) = (c', None)"
    using I by (auto simp: journal_inv_def replays_to_def)
  show ?thesis
  proof (cases "session_rows db sid")
    case Nil
    then show ?thesis using ld by (simp add: restoreLifecycleProjection_def new_runtime_def)
  next
    case (Cons e es)
    let ?f = "\<lambda>ev. lifecycleCommandSequence (te_CommandID ev)"
    have "Restore now jv (NewTurnCoordinator sid aid) (e # es) = (c', None)" using c' Cons by (simp only: Restore_def prod.case option.case)
    then have r: "jr_commandSeq (restoreLifecycleProjection jv now (new_runtime sid aid db)) = foldl (\<lambda>n ev. max n (?f ev)) 0 (e # es)"
      using ld Cons by (simp add: restoreLifecycleProjection_def new_runtime_def Let_def)
    have "unat (?f ev) \<le> live" if "ev \<in> set (e # es)" for ev
      using that I Cons issued_sequence[OF _ t(1) live] by (auto simp: journal_inv_def)
    then show ?thesis unfolding r Cons live_def[symmetric] using foldl_max[of 0 ?f "e # es"] by (metis le0 unat_0)
  qed
qed

section \<open>Properties\<close>


definition demo_command :: "command_type \<Rightarrow> turn_command" where
  "demo_command ty = (demo ty)\<lparr>cmd_CommandID := [], cmd_At := 5\<rparr>"

definition demo_run :: "(gotime \<times> gotime \<times> (coordinator_snapshot \<Rightarrow> unit option) \<times> turn_command) list" where
  "demo_run = map (\<lambda>c. (7, 8, \<lambda>_. None, c))
     [demo_command CommandStartTurn, demo_command CommandStartTurn, demo_command CommandStartStep,
      demo_command CommandModelRequestStarted, demo_command CommandModelResponseCompleted,
      (demo_command CommandAssistantReceived)\<lparr>cmd_HasTools := True\<rparr>]"

definition demo_rt :: journal_runtime where
  "demo_rt = journal_run (\<lambda>_. True) (\<lambda>x. x) (new_runtime ''s'' ''a'' empty_store) demo_run"

definition demo_log :: event_store where
  "demo_log = (case jr_store demo_rt of Some db \<Rightarrow> db | None \<Rightarrow> empty_store)"

lemma demo_rt_store: "jr_store demo_rt = Some demo_log"
proof -
  have "jr_store demo_rt \<noteq> None" by code_simp
  then show ?thesis by (auto simp: demo_log_def)
qed

lemma demo_run_ok: "list_all (runtime_command (\<lambda>_. True) (\<lambda>x. x)) demo_run"
  by code_simp

lemma demo_sid: "trim_space ''s'' = ''s''"
  by code_simp


text \<open>
  After a restart the runtime never reuses a command id: the first id it generates after
  replaying the log is not the id of any event in it (so the store cannot mistake a new command for
  an old one).
\<close>

lemma restart_ids_fresh:
  assumes "trim_space sid = sid" "sid \<noteq> []" "list_all (runtime_command jv jc) xs" "2 * length xs < 2 ^ 64"
    and "rt = journal_run jv jc (new_runtime sid aid empty_store) xs" "jr_store rt = Some db"
  shows "fst (lifecycleNextCommandID sid (jr_commandSeq (restoreLifecycleProjection jv now (new_runtime sid aid db))))
    \<notin> te_CommandID ` set (session_rows db sid)"
proof
  let ?n = "jr_commandSeq (restoreLifecycleProjection jv now (new_runtime sid aid db))"
  have run: "journaled now jv rt \<and> jr_sessionID rt = sid \<and> jr_agentID rt = aid \<and> log_length rt < 2 ^ 64 \<and>
      unat (jr_commandSeq rt) = length xs"
    using run_journaled[OF journaled_new[OF assms(1,2)] assms(3), of aid now] assms(4,5)
    by (simp add: new_runtime_def log_length_def empty_store_def)
  have seq: "\<forall>r \<in> set (session_rows db sid). lifecycleCommandSequence (te_CommandID r) \<le> ?n" "unat ?n \<le> length xs"
    using restored_sequence[of now jv rt db sid aid] run assms(6) by auto
  have "length xs < 2 ^ 64 - 1" using assms(4) by simp
  then have u: "unat (?n + 1) = Suc (unat ?n)" using nextCommandID_eq(2)[OF le_less_trans[OF seq(2)]] by simp
  assume "fst (lifecycleNextCommandID sid ?n) \<in> te_CommandID ` set (session_rows db sid)"
  then obtain r where "r \<in> set (session_rows db sid)" "te_CommandID r = sid @ ''-lifecycle-'' @ show_nat (unat (?n + 1))"
    unfolding lifecycleNextCommandID_def by auto
  then have "?n + 1 \<le> ?n" using seq(1) next_id_sequence[OF assms(1), of "?n + 1"] by metis
  then show False using u by (simp add: word_le_nat_alt)
qed

lemma restart_ids_fresh_witness:
  "fst (lifecycleNextCommandID ''s'' (jr_commandSeq (restoreLifecycleProjection (\<lambda>_. True) 99 (new_runtime ''s'' ''a'' demo_log))))
    \<notin> te_CommandID ` set (session_rows demo_log ''s'')"
  by (rule restart_ids_fresh[OF demo_sid _ demo_run_ok _ demo_rt_def demo_rt_store]) (simp_all add: demo_run_def)

end
