(* ===== verification/Msg_Queue.thy ===== *)
theory Msg_Queue
  imports Prelude "HOL-Library.Product_Lexorder" "HOL-Library.Multiset"
begin

text \<open>
  The per-session control queue of \<^verbatim>\<open>node/internal/queue\<close>. A queue is its counter, its items
  in queue order, the token of the one-slot channel \<^verbatim>\<open>notify\<close> and the closed bit; the mutex
  makes every operation one atomic step. \<^verbatim>\<open>Dequeue\<close> waits on a channel: the list of
  \<open>select_choice\<close> says which branch of the \<^verbatim>\<open>select\<close> fires each time it waits and what
  the other goroutines have made of the queue by then; when the list ends the call is still blocked.

  The locale \<open>priority_fifo\<close> is the contract: a queue of arrivals from which the earliest
  arrival of the most urgent class is taken. It is interpreted on the queue's own operations.
\<close>

section \<open>Values decoded from JSON\<close>

text \<open>What \<^verbatim>\<open>encoding/json\<close> stores in an \<^verbatim>\<open>any\<close>.\<close>

datatype go_any =
    AnyNil | AnyBool bool | AnyNumber rat | AnyString string | AnyList "go_any list"
  | AnyMap "(string \<times> go_any) list"

text \<open>\<^verbatim>\<open>fmt.Sprint\<close> of such a value; \<open>sprint\<close> prints numbers, lists and maps.\<close>

definition sprint_any :: "(go_any \<Rightarrow> string) \<Rightarrow> go_any \<Rightarrow> string" where
  "sprint_any sprint v =
     (case v of AnyNil \<Rightarrow> ''<nil>'' | AnyString s \<Rightarrow> s | AnyBool b \<Rightarrow> (if b then ''true'' else ''false'') | _ \<Rightarrow> sprint v)"

section \<open>Envelopes\<close>

datatype priority =
    PriorityContinuation | PriorityHuman | PriorityResume | PriorityAsyncCompletion | Priority_Other string

record async_tool_result_payload =
  atr_JobID :: string
  atr_ToolName :: string
  atr_ToolCallID :: string
  atr_Status :: string
  atr_ResultText :: string
  atr_ErrorText :: string
  atr_OutputCompressSavedPct :: int
  atr_OutputCompressRawRunes :: int
  atr_OutputCompressOutRunes :: int

text \<open>Content parts and file references are only carried along: they are kept as JSON text.\<close>

record envelope =
  env_RequestType :: string
  env_SessionEpoch :: u64
  env_TurnID :: string
  env_Generation :: u64
  env_Content :: string
  env_ContentParts :: "json_raw list"
  env_FileReferences :: "json_raw list"
  env_UserName :: string
  env_ResumeValue :: "(string \<times> go_any) list"
  env_TriggerID :: string
  env_DeliveryID :: string
  env_AsyncToolResult :: "async_tool_result_payload option"
  env_SideEffectContinueSource :: string

definition zero_envelope :: envelope where
  "zero_envelope = \<lparr>env_RequestType = [], env_SessionEpoch = 0, env_TurnID = [], env_Generation = 0, env_Content = [],
     env_ContentParts = [], env_FileReferences = [], env_UserName = [], env_ResumeValue = [], env_TriggerID = [],
     env_DeliveryID = [], env_AsyncToolResult = None, env_SideEffectContinueSource = []\<rparr>"

record queued_item =
  qi_priority :: int
  qi_seq :: u64
  qi_env :: envelope

record message_queue =
  mq_seq :: u64
  mq_items :: "queued_item list"
  mq_notify :: bool
  mq_closed :: bool

datatype queue_error = ErrQueueClosed | ErrContextDone | ErrInvalidRequestType

section \<open>Operations\<close>

definition NewMessageQueue :: message_queue where
  "NewMessageQueue = \<lparr>mq_seq = 0, mq_items = [], mq_notify = False, mq_closed = False\<rparr>"

definition priorityValue :: "priority \<Rightarrow> int" where
  "priorityValue p =
     (case p of
        PriorityContinuation \<Rightarrow> -1
      | PriorityHuman \<Rightarrow> 0
      | PriorityResume \<Rightarrow> 1
      | PriorityAsyncCompletion \<Rightarrow> 2
      | Priority_Other _ \<Rightarrow> 10)"

definition PriorityForRequestType :: "string \<Rightarrow> queue_error + priority" where
  "PriorityForRequestType requestType =
     (if requestType = ''message'' then Inr PriorityHuman
      else if requestType = ''resume'' then Inr PriorityResume
      else Inl ErrInvalidRequestType)"

text \<open>\<^verbatim>\<open>sort.SliceStable\<close> with the comparison of \<^verbatim>\<open>Enqueue\<close>: by priority, then by sequence number.\<close>

definition queue_key :: "queued_item \<Rightarrow> int \<times> u64" where
  "queue_key it = (qi_priority it, qi_seq it)"

definition Enqueue :: "envelope \<Rightarrow> priority \<Rightarrow> message_queue \<Rightarrow> queue_error option \<times> message_queue" where
  "Enqueue env p q =
     (if mq_closed q then (Some ErrQueueClosed, q)
      else
        let seq = mq_seq q + 1;
            item = \<lparr>qi_priority = priorityValue p, qi_seq = seq, qi_env = env\<rparr>
        in (None, q\<lparr>mq_seq := seq, mq_items := sort_key queue_key (mq_items q @ [item]), mq_notify := True\<rparr>))"

datatype select_choice = CtxDone | Notified message_queue

datatype dequeue_result = Dequeued envelope | DequeueFailed queue_error | DequeueBlocked

fun Dequeue :: "message_queue \<Rightarrow> select_choice list \<Rightarrow> dequeue_result \<times> message_queue" where
  "Dequeue q choices =
     (case mq_items q of
        item # rest \<Rightarrow> (Dequeued (qi_env item), q\<lparr>mq_items := rest\<rparr>)
      | [] \<Rightarrow>
          if mq_closed q then (DequeueFailed ErrQueueClosed, q)
          else (case choices of
                  [] \<Rightarrow> (DequeueBlocked, q)
                | CtxDone # _ \<Rightarrow> (DequeueFailed ErrContextDone, q)
                | Notified q' # later \<Rightarrow> Dequeue (q'\<lparr>mq_notify := False\<rparr>) later))"

declare Dequeue.simps [simp del]

definition queue_Closed :: "message_queue option \<Rightarrow> bool" where
  "queue_Closed q = (case q of None \<Rightarrow> True | Some q \<Rightarrow> mq_closed q)"

definition queue_Close :: "message_queue \<Rightarrow> message_queue" where
  "queue_Close q = q\<lparr>mq_closed := True, mq_notify := True\<rparr>"

definition CountByRequestType :: "message_queue \<Rightarrow> string \<Rightarrow> nat" where
  "CountByRequestType q requestType = foldl (\<lambda>n it. if env_RequestType (qi_env it) = requestType then n + 1 else n) 0 (mq_items q)"

definition queue_Len :: "message_queue \<Rightarrow> nat" where
  "queue_Len q = length (mq_items q)"

definition TotalEnqueued :: "message_queue \<Rightarrow> u64" where
  "TotalEnqueued q = mq_seq q"

section \<open>Invariant\<close>

text \<open>
  The items are in strictly ascending key order, each was numbered by the counter, and a queue that
  holds an item has a notification pending or was left non-empty by a consumer.
\<close>

definition queue_inv :: "message_queue \<Rightarrow> bool" where
  "queue_inv q \<longleftrightarrow>
     sorted (map queue_key (mq_items q)) \<and> distinct (map qi_seq (mq_items q)) \<and>
     (\<forall>it \<in> set (mq_items q). 0 < qi_seq it \<and> qi_seq it \<le> mq_seq q)"

lemma u64_Suc: "unat (s :: u64) < 2 ^ 64 - 1 \<Longrightarrow> unat (s + 1) = Suc (unat s)"
  by (simp add: unat_word_ariths)

lemma Enqueue_seq:
  assumes "queue_inv q" "unat (mq_seq q) < 2 ^ 64 - 1"
  shows "\<forall>it \<in> set (mq_items q). qi_seq it < mq_seq q + 1" "0 < mq_seq q + 1" "mq_seq q \<le> mq_seq q + 1"
  using assms u64_Suc[OF assms(2)] by (auto simp: queue_inv_def word_less_nat_alt word_le_nat_alt)

text \<open>Enqueuing inserts the item behind the items that are as urgent and before the less urgent ones.\<close>

lemma sort_key_snoc:
  assumes "sorted (map f xs)"
  shows "sort_key f (xs @ [x]) = takeWhile (\<lambda>y. f y \<le> f x) xs @ x # dropWhile (\<lambda>y. f y \<le> f x) xs"
  using assms
proof (induction xs)
  case (Cons y ys)
  have s: "sort_key f (ys @ [x]) = takeWhile (\<lambda>y. f y \<le> f x) ys @ x # dropWhile (\<lambda>y. f y \<le> f x) ys"
    using Cons by simp
  show ?case
  proof (cases "f y \<le> f x")
    case True
    have "insort_key f y (sort_key f (ys @ [x])) = y # sort_key f (ys @ [x])"
      using Cons.prems True by (intro insort_is_Cons) auto
    then show ?thesis using True s by simp
  next
    case False
    have gt: "\<forall>z \<in> set ys. f x < f z" using Cons.prems False by auto
    then have tw: "takeWhile (\<lambda>y. f y \<le> f x) ys = []" "dropWhile (\<lambda>y. f y \<le> f x) ys = ys"
      by (cases ys; auto simp: not_le)+
    have "insort_key f y ys = y # ys" using Cons.prems by (intro insort_is_Cons) auto
    then show ?thesis using False s tw by simp
  qed
qed simp

lemma queue_inv_new: "queue_inv NewMessageQueue"
  by (simp add: queue_inv_def NewMessageQueue_def)

lemma queue_inv_Enqueue:
  assumes "queue_inv q" "unat (mq_seq q) < 2 ^ 64 - 1" "Enqueue env p q = (r, q')"
  shows "queue_inv q'"
proof (cases "mq_closed q")
  case False
  let ?it = "\<lparr>qi_priority = priorityValue p, qi_seq = mq_seq q + 1, qi_env = env\<rparr>"
  have q': "q' = q\<lparr>mq_seq := mq_seq q + 1, mq_items := sort_key queue_key (mq_items q @ [?it]), mq_notify := True\<rparr>"
    using assms(3) False by (simp add: Enqueue_def Let_def)
  note b = Enqueue_seq[OF assms(1,2)]
  have "mset (map qi_seq (mq_items q')) = mset (map qi_seq (mq_items q @ [?it]))" using q' by simp
  then have "distinct (map qi_seq (mq_items q')) = distinct (map qi_seq (mq_items q @ [?it]))" by (rule mset_eq_imp_distinct_iff)
  moreover have "distinct (map qi_seq (mq_items q @ [?it]))" using b(1) assms(1) by (auto simp: queue_inv_def)
  moreover have "\<forall>it \<in> set (mq_items q'). 0 < qi_seq it \<and> qi_seq it \<le> mq_seq q'"
    using q' b assms(1) by (auto simp: queue_inv_def intro: order_trans)
  moreover have "sorted (map queue_key (mq_items q'))" using q' by simp
  ultimately show ?thesis by (simp add: queue_inv_def)
qed (use assms in \<open>simp add: Enqueue_def\<close>)

lemma Dequeue_Cons: "mq_items q = it # rest \<Longrightarrow> Dequeue q ws = (Dequeued (qi_env it), q\<lparr>mq_items := rest\<rparr>)"
  by (simp add: Dequeue.simps)

lemma queue_inv_tail: "queue_inv q \<Longrightarrow> mq_items q = it # rest \<Longrightarrow> queue_inv (q\<lparr>mq_items := rest\<rparr>)"
  by (auto simp: queue_inv_def)

section \<open>The contract of a priority queue\<close>

locale priority_fifo =
  fixes enq :: "'p \<Rightarrow> 'e \<Rightarrow> 'q \<Rightarrow> 'q"
    and deq :: "'q \<Rightarrow> ('e \<times> 'q) option"
    and arrivals :: "'q \<Rightarrow> ('r :: linorder \<times> 'e) list"
    and rank :: "'p \<Rightarrow> 'r"
    and ready :: "nat \<Rightarrow> 'q \<Rightarrow> bool"
  assumes arrives: "ready (Suc n) q \<Longrightarrow> arrivals (enq p e q) = arrivals q @ [(rank p, e)] \<and> ready n (enq p e q)"
    and empties: "ready n q \<Longrightarrow> deq q = None \<longleftrightarrow> arrivals q = []"
    and takes: "ready n q \<Longrightarrow> deq q = Some (e, q') \<Longrightarrow> ready n q' \<and>
      (\<exists>xs r ys. arrivals q = xs @ (r, e) # ys \<and> arrivals q' = xs @ ys \<and>
        (\<forall>x \<in> set xs. r < fst x) \<and> (\<forall>y \<in> set ys. r \<le> fst y))"
begin

fun enq_all :: "('p \<times> 'e) list \<Rightarrow> 'q \<Rightarrow> 'q" where
  "enq_all [] q = q"
| "enq_all ((p, e) # xs) q = enq_all xs (enq p e q)"

lemma enq_all_arrivals:
  "ready (n + length xs) q \<Longrightarrow>
   arrivals (enq_all xs q) = arrivals q @ map (\<lambda>(p, e). (rank p, e)) xs \<and> ready n (enq_all xs q)"
proof (induction xs arbitrary: q)
  case (Cons x xs)
  obtain p e where x: "x = (p, e)" by (cases x)
  have "ready (Suc (n + length xs)) q" using Cons.prems by simp
  from arrives[OF this, of p e] show ?case using Cons.IH[of "enq p e q"] x by simp
qed simp

text \<open>Taking \<open>k\<close> elements.\<close>

fun deqs :: "nat \<Rightarrow> 'q \<Rightarrow> 'e list" where
  "deqs 0 q = []"
| "deqs (Suc k) q = (case deq q of None \<Rightarrow> [] | Some (e, q') \<Rightarrow> e # deqs k q')"

lemma sort_key_take_first:
  assumes "\<forall>x \<in> set xs. f z < f x" "\<forall>y \<in> set ys. f z \<le> f y"
  shows "sort_key f (xs @ z # ys) = z # sort_key f (xs @ ys)"
  using assms
proof (induction xs)
  case Nil
  then show ?case by (auto intro!: insort_is_Cons)
next
  case (Cons x xs)
  then have "\<not> f x \<le> f z" by (simp add: not_le)
  then show ?case using Cons by simp
qed

lemma deqs_sorted:
  "ready n q \<Longrightarrow> length (arrivals q) \<le> k \<Longrightarrow> deqs k q = map snd (sort_key fst (arrivals q))"
proof (induction k arbitrary: q)
  case (Suc k)
  show ?case
  proof (cases "deq q")
    case None
    then show ?thesis using empties[OF Suc.prems(1)] by simp
  next
    case (Some x)
    obtain e q' where x: "x = (e, q')" by (cases x)
    obtain xs r ys where t: "ready n q'" "arrivals q = xs @ (r, e) # ys" "arrivals q' = xs @ ys"
      "\<forall>x \<in> set xs. r < fst x" "\<forall>y \<in> set ys. r \<le> fst y"
      using takes[OF Suc.prems(1), of e q'] Some x by blast
    have "deqs k q' = map snd (sort_key fst (arrivals q'))" using Suc.IH[OF t(1)] t(2,3) Suc.prems(2) by simp
    then show ?thesis using Some x t sort_key_take_first[of xs fst "(r, e)" ys] by simp
  qed
qed simp

end

section \<open>The queue keeps the contract\<close>

definition enqueue_env :: "priority \<Rightarrow> envelope \<Rightarrow> message_queue \<Rightarrow> message_queue" where
  "enqueue_env p e q = snd (Enqueue e p q)"

definition try_dequeue :: "message_queue \<Rightarrow> (envelope \<times> message_queue) option" where
  "try_dequeue q = (case Dequeue q [] of (Dequeued e, q') \<Rightarrow> Some (e, q') | _ \<Rightarrow> None)"

text \<open>The content of the queue in the order of arrival.\<close>

definition queue_arrivals :: "message_queue \<Rightarrow> (int \<times> envelope) list" where
  "queue_arrivals q = map (\<lambda>it. (qi_priority it, qi_env it)) (sort_key qi_seq (mq_items q))"

definition queue_ready :: "nat \<Rightarrow> message_queue \<Rightarrow> bool" where
  "queue_ready n q \<longleftrightarrow> queue_inv q \<and> \<not> mq_closed q \<and> unat (mq_seq q) + n < 2 ^ 64"

lemma inv_inj: "queue_inv q \<Longrightarrow> inj_on qi_seq (set (mq_items q))"
  by (simp add: queue_inv_def distinct_map)

lemma try_dequeue_simps:
  "mq_items q = [] \<Longrightarrow> try_dequeue q = None"
  "mq_items q = it # rest \<Longrightarrow> try_dequeue q = Some (qi_env it, q\<lparr>mq_items := rest\<rparr>)"
  by (simp_all add: try_dequeue_def Dequeue.simps)

lemma enqueue_arrivals:
  assumes "queue_ready (Suc n) q"
  shows "queue_arrivals (enqueue_env p e q) = queue_arrivals q @ [(priorityValue p, e)] \<and> queue_ready n (enqueue_env p e q)"
proof -
  have r: "queue_inv q" "\<not> mq_closed q" "unat (mq_seq q) < 2 ^ 64 - 1" using assms by (auto simp: queue_ready_def)
  let ?it = "\<lparr>qi_priority = priorityValue p, qi_seq = mq_seq q + 1, qi_env = e\<rparr>"
  have q': "enqueue_env p e q = q\<lparr>mq_seq := mq_seq q + 1, mq_items := sort_key queue_key (mq_items q @ [?it]), mq_notify := True\<rparr>"
    using r(2) by (simp add: enqueue_env_def Enqueue_def Let_def)
  have inv': "queue_inv (enqueue_env p e q)"
    using queue_inv_Enqueue[OF r(1,3)] by (metis enqueue_env_def prod.collapse)
  have "sort_key qi_seq (mq_items (enqueue_env p e q)) = sort_key qi_seq (mq_items q) @ [?it]"
  proof (rule sort_key_inj_key_eq[OF _ inv_inj[OF inv']])
    show "sorted (map qi_seq (sort_key qi_seq (mq_items q) @ [?it]))"
      using Enqueue_seq(1)[OF r(1,3)] by (auto simp: sorted_append less_imp_le)
  qed (simp add: q')
  then have "queue_arrivals (enqueue_env p e q) = queue_arrivals q @ [(priorityValue p, e)]" by (simp add: queue_arrivals_def)
  moreover have "queue_ready n (enqueue_env p e q)" using inv' assms r q' u64_Suc[OF r(3)] by (simp add: queue_ready_def)
  ultimately show ?thesis by simp
qed

lemma dequeue_takes:
  assumes "queue_ready n q" "try_dequeue q = Some (e, q')"
  shows "queue_ready n q' \<and> (\<exists>xs r ys. queue_arrivals q = xs @ (r, e) # ys \<and> queue_arrivals q' = xs @ ys \<and>
    (\<forall>x \<in> set xs. r < fst x) \<and> (\<forall>y \<in> set ys. r \<le> fst y))"
proof -
  have inv: "queue_inv q" using assms(1) by (simp add: queue_ready_def)
  obtain it rest where it: "mq_items q = it # rest" using assms(2) by (cases "mq_items q") (auto simp: try_dequeue_simps)
  then have e: "e = qi_env it" "q' = q\<lparr>mq_items := rest\<rparr>" using assms(2) try_dequeue_simps(2)[OF it] by auto
  let ?S = "sort_key qi_seq (mq_items q)"
  have "it \<in> set ?S" using it by (metis list.set_intros(1) set_sort)
  then obtain xs ys where S: "?S = xs @ it # ys" by (meson split_list)
  have srt: "sorted (map qi_seq (xs @ it # ys))" by (metis S sorted_sort_key)
  have d: "distinct (map qi_seq (xs @ it # ys))"
  proof -
    have "mset (map qi_seq (xs @ it # ys)) = mset (map qi_seq (mq_items q))" by (metis S mset_map mset_sort)
    then show ?thesis using inv mset_eq_imp_distinct_iff by (metis queue_inv_def)
  qed
  have ms: "mset rest = mset (xs @ ys)" using S it by (metis add_mset_remove_trivial mset.simps(2) mset_append mset_sort union_mset_add_mset_right)
  have key: "\<forall>x \<in> set rest. queue_key it \<le> queue_key x" using inv it by (auto simp: queue_inv_def)
  have set: "set rest = set xs \<union> set ys" using ms by (metis mset_eq_setD set_append)
  have "sort_key qi_seq rest = xs @ ys"
  proof (rule sort_key_inj_key_eq[OF ms])
    show "inj_on qi_seq (set rest)" using inv_inj[OF inv] it by simp
    show "sorted (map qi_seq (xs @ ys))" using srt by (auto simp: sorted_append)
  qed
  then have a: "queue_arrivals q' = map (\<lambda>it. (qi_priority it, qi_env it)) xs @ map (\<lambda>it. (qi_priority it, qi_env it)) ys"
    "queue_arrivals q = map (\<lambda>it. (qi_priority it, qi_env it)) xs @ (qi_priority it, e) # map (\<lambda>it. (qi_priority it, qi_env it)) ys"
    using S e by (simp_all add: queue_arrivals_def)
  have lo: "qi_priority it < qi_priority x" if "x \<in> set xs" for x
  proof -
    have "qi_seq x \<le> qi_seq it" "qi_seq x \<noteq> qi_seq it"
      using srt d that by (auto simp: sorted_append) (metis image_eqI)
    then have "qi_seq x < qi_seq it" by (simp add: less_le)
    then show ?thesis using key set that by (auto simp: queue_key_def less_eq_prod_def)
  qed
  have hi: "qi_priority it \<le> qi_priority y" if "y \<in> set ys" for y
  proof -
    have "queue_key it \<le> queue_key y" using key set that by blast
    then show ?thesis by (auto simp: queue_key_def less_eq_prod_def)
  qed
  have "queue_ready n q'" using assms(1) queue_inv_tail[OF inv it] e by (simp add: queue_ready_def)
  moreover have "\<forall>x \<in> set (map (\<lambda>it. (qi_priority it, qi_env it)) xs). qi_priority it < fst x" using lo by auto
  moreover have "\<forall>y \<in> set (map (\<lambda>it. (qi_priority it, qi_env it)) ys). qi_priority it \<le> fst y" using hi by auto
  ultimately show ?thesis using a by blast
qed

interpretation mq: priority_fifo enqueue_env try_dequeue queue_arrivals priorityValue queue_ready
proof (unfold_locales, goal_cases)
  case (1 n q p e)
  then show ?case by (rule enqueue_arrivals)
next
  case (2 n q)
  show ?case by (cases "mq_items q") (auto simp: try_dequeue_simps queue_arrivals_def dest: arg_cong[of _ _ length])
next
  case (3 n q e q')
  then show ?case by (rule dequeue_takes)
qed

section \<open>Properties\<close>

fun enqueue_all :: "message_queue \<Rightarrow> (priority \<times> envelope) list \<Rightarrow> message_queue" where
  "enqueue_all q [] = q"
| "enqueue_all q ((p, e) # xs) = enqueue_all (snd (Enqueue e p q)) xs"

text \<open>Dequeues until the call blocks, at most \<open>k\<close> times.\<close>

fun drain :: "nat \<Rightarrow> message_queue \<Rightarrow> envelope list" where
  "drain 0 q = []"
| "drain (Suc k) q = (case Dequeue q [] of (Dequeued e, q') \<Rightarrow> e # drain k q' | (_, _) \<Rightarrow> [])"

lemma enqueue_all_mq: "enqueue_all q xs = mq.enq_all xs q"
  by (induction q xs rule: enqueue_all.induct) (simp_all add: enqueue_env_def[symmetric])

lemma drain_mq: "drain k q = mq.deqs k q"
proof (induction k arbitrary: q)
  case (Suc k)
  show ?case
  proof (cases "mq_items q")
    case Nil
    have "drain (Suc k) q = []" using Nil by (simp add: Dequeue.simps)
    then show ?thesis using try_dequeue_simps(1)[OF Nil] by simp
  next
    case (Cons it rest)
    then show ?thesis by (simp add: Suc try_dequeue_simps(2) Dequeue_Cons)
  qed
qed simp

lemma insort_key_map: "insort_key f (g x) (map g xs) = map g (insort_key (\<lambda>x. f (g x)) x xs)"
  by (induction xs) auto

lemma sort_key_map: "sort_key f (map g xs) = map g (sort_key (\<lambda>x. f (g x)) xs)"
  by (induction xs) (auto simp: insort_key_map)

text \<open>
  C13. The control queue refines a stable priority queue: after any sequence of enqueues into an empty
  open queue, draining it returns exactly those envelopes, the most urgent class first and within a
  class in the order of arrival.
\<close>

theorem queue_drains_by_priority:
  assumes "length xs < 2 ^ 64"
  shows "drain (length xs) (enqueue_all NewMessageQueue xs) = map snd (sort_key (\<lambda>x. priorityValue (fst x)) xs)"
proof -
  have r: "queue_ready (0 + length xs) NewMessageQueue"
    using assms queue_inv_new by (simp add: queue_ready_def NewMessageQueue_def)
  have a: "queue_arrivals (enqueue_all NewMessageQueue xs) = map (\<lambda>x. (priorityValue (fst x), snd x)) xs"
    "queue_ready 0 (enqueue_all NewMessageQueue xs)"
    using mq.enq_all_arrivals[OF r] by (simp_all add: enqueue_all_mq queue_arrivals_def NewMessageQueue_def case_prod_beta)
  show ?thesis
    using mq.deqs_sorted[OF a(2), of "length xs"] unfolding a(1) drain_mq by (simp add: sort_key_map comp_def)
qed

definition demo_envelope :: "string \<Rightarrow> envelope" where
  "demo_envelope s = zero_envelope\<lparr>env_Content := s\<rparr>"

definition demo_arrivals :: "(priority \<times> envelope) list" where
  "demo_arrivals = [(PriorityResume, demo_envelope ''r''), (PriorityHuman, demo_envelope ''h1''),
      (PriorityContinuation, demo_envelope ''c''), (PriorityHuman, demo_envelope ''h2'')]"

theorem queue_drains_by_priority_witness:
  "map env_Content (drain 4 (enqueue_all NewMessageQueue demo_arrivals)) = [''c'', ''h1'', ''h2'', ''r'']"
proof -
  have l: "length demo_arrivals = 4" by (simp add: demo_arrivals_def)
  have "map env_Content (map snd (sort_key (\<lambda>x. priorityValue (fst x)) demo_arrivals)) = [''c'', ''h1'', ''h2'', ''r'']"
    by code_simp
  then show ?thesis using queue_drains_by_priority[of demo_arrivals] l by simp
qed

text \<open>
  A call of \<^verbatim>\<open>Dequeue\<close>, whatever the other goroutines do while it waits, removes nothing but the
  first item of a queue it saw, fails only on a closed empty queue or a cancelled context, and waits
  only on an empty open queue.
\<close>

lemma Dequeue_outcome:
  assumes "Dequeue q ws = (r, q')"
  shows "\<exists>q0. (q0 = q \<or> (\<exists>p. Notified p \<in> set ws \<and> q0 = p\<lparr>mq_notify := False\<rparr>)) \<and>
    (case r of
       Dequeued e \<Rightarrow> \<exists>it rest. mq_items q0 = it # rest \<and> e = qi_env it \<and> q' = q0\<lparr>mq_items := rest\<rparr>
     | DequeueFailed err \<Rightarrow> q' = q0 \<and> mq_items q0 = [] \<and>
         (err = ErrQueueClosed \<and> mq_closed q0 \<or> err = ErrContextDone \<and> \<not> mq_closed q0)
     | DequeueBlocked \<Rightarrow> q' = q0 \<and> mq_items q0 = [] \<and> \<not> mq_closed q0)"
  using assms
proof (induction ws arbitrary: q)
  case Nil
  then show ?case by (cases "mq_items q") (auto simp: Dequeue.simps split: if_splits)
next
  case (Cons w ws)
  show ?case
  proof (cases "mq_items q = [] \<and> \<not> mq_closed q \<and> w \<noteq> CtxDone")
    case True
    then obtain p where w: "w = Notified p" by (cases w) auto
    then have "Dequeue (p\<lparr>mq_notify := False\<rparr>) ws = (r, q')" using Cons.prems True by (subst (asm) Dequeue.simps) simp
    from Cons.IH[OF this] obtain q0 where q0: "q0 = p\<lparr>mq_notify := False\<rparr> \<or> (\<exists>p. Notified p \<in> set ws \<and> q0 = p\<lparr>mq_notify := False\<rparr>)"
      and out: "case r of
         Dequeued e \<Rightarrow> \<exists>it rest. mq_items q0 = it # rest \<and> e = qi_env it \<and> q' = q0\<lparr>mq_items := rest\<rparr>
       | DequeueFailed err \<Rightarrow> q' = q0 \<and> mq_items q0 = [] \<and>
           (err = ErrQueueClosed \<and> mq_closed q0 \<or> err = ErrContextDone \<and> \<not> mq_closed q0)
       | DequeueBlocked \<Rightarrow> q' = q0 \<and> mq_items q0 = [] \<and> \<not> mq_closed q0" by blast
    have "\<exists>p. Notified p \<in> set (w # ws) \<and> q0 = p\<lparr>mq_notify := False\<rparr>" using q0 w by auto
    with out show ?thesis by blast
  next
    case False
    then show ?thesis using Cons.prems by (cases "mq_items q"; cases w) (auto simp: Dequeue.simps[of q] split: if_splits)
  qed
qed

end
