(* ===== verification/Input_Box.thy ===== *)
theory Input_Box
  imports Msg_Queue
begin

text \<open>
  The mailbox of external inputs of a session, \<^verbatim>\<open>node/internal/session/input_box.go\<close>. The box is
  not nil. \<open>wake\<close> is the token of the one-slot channel. The persisted form is JSON: a
  \<open>box_json\<close> is what the text decodes to, and \<^verbatim>\<open>RecoveredLegacy\<close>, which is not
  encoded, is lost in it. \<open>record_bytes\<close> is the length of \<^verbatim>\<open>json.Marshal\<close> of a record,
  or \<open>None\<close> when encoding fails.
\<close>

section \<open>Records\<close>

datatype input_kind =
    InputKindUser | InputKindTrigger | InputKindSystemAuto | InputKindChildAgent | InputKind_Other string

record input_record =
  ir_Seq :: u64
  ir_Kind :: input_kind
  ir_Env :: envelope
  ir_Completed :: bool
  ir_RecoveredLegacy :: bool

record input_box_state =
  bs_Seq :: u64
  bs_Items :: "input_record list"
  bs_InFlight :: "input_record option"

datatype box_json = NoJSON | BadJSON | StateJSON input_box_state

record input_box =
  ib_seq :: u64
  ib_items :: "input_record list"
  ib_inFlight :: "input_record option"
  ib_wake :: bool
  ib_closed :: bool

datatype box_error =
    ErrBoxClosed | ErrInputBoxFull | ErrInputSequenceFull | ErrInvalidInputKind input_kind
  | ErrSystemAutoIdentity | ErrEncodeInput | ErrInputRecordTooBig | ErrDecodeState
  | ErrTooManyItems | ErrZeroSequence | ErrDuplicateSequence u64 | ErrInvalidItem u64 box_error

definition InputBoxMaxItems :: nat where
  "InputBoxMaxItems = 256"

definition InputBoxMaxRecordBytes :: nat where
  "InputBoxMaxRecordBytes = 2 ^ 20"

definition validateInputRecord :: "(input_record \<Rightarrow> nat option) \<Rightarrow> input_record \<Rightarrow> box_error option" where
  "validateInputRecord record_bytes r =
     (if ir_Kind r \<noteq> InputKindUser \<and> ir_Kind r \<noteq> InputKindTrigger \<and> ir_Kind r \<noteq> InputKindSystemAuto \<and>
         ir_Kind r \<noteq> InputKindChildAgent then Some (ErrInvalidInputKind (ir_Kind r))
      else if ir_Kind r = InputKindSystemAuto \<and> (env_TriggerID (ir_Env r) = [] \<or> env_DeliveryID (ir_Env r) = [])
      then Some ErrSystemAutoIdentity
      else case record_bytes r of
             None \<Rightarrow> Some ErrEncodeInput
           | Some n \<Rightarrow> if n > InputBoxMaxRecordBytes then Some ErrInputRecordTooBig else None)"

definition inputBoxPendingCount :: "box_json \<Rightarrow> nat" where
  "inputBoxPendingCount raw = (case raw of StateJSON st \<Rightarrow> length (bs_Items st) | _ \<Rightarrow> 0)"

section \<open>Operations\<close>

definition NewInputBox :: input_box where
  "NewInputBox = \<lparr>ib_seq = 0, ib_items = [], ib_inFlight = None, ib_wake = False, ib_closed = False\<rparr>"

definition box_Append ::
  "(input_record \<Rightarrow> nat option) \<Rightarrow> input_kind \<Rightarrow> envelope \<Rightarrow> input_box \<Rightarrow> (box_error + u64) \<times> input_box" where
  "box_Append record_bytes kind env b =
     (if ib_closed b then (Inl ErrBoxClosed, b)
      else if length (ib_items b) \<ge> InputBoxMaxItems then (Inl ErrInputBoxFull, b)
      else
        let r = \<lparr>ir_Seq = ib_seq b + 1, ir_Kind = kind, ir_Env = env, ir_Completed = False, ir_RecoveredLegacy = False\<rparr>
        in if ir_Seq r = 0 then (Inl ErrInputSequenceFull, b)
           else case validateInputRecord record_bytes r of
                  Some e \<Rightarrow> (Inl e, b)
                | None \<Rightarrow> (Inr (ir_Seq r), b\<lparr>ib_seq := ir_Seq r, ib_items := ib_items b @ [r], ib_wake := True\<rparr>))"

definition Peek :: "input_box \<Rightarrow> input_record option" where
  "Peek b = (case ib_items b of [] \<Rightarrow> None | r # _ \<Rightarrow> Some r)"

definition Pop :: "input_box \<Rightarrow> input_record option \<times> input_box" where
  "Pop b =
     (case ib_items b of
        [] \<Rightarrow> (None, b)
      | r # rest \<Rightarrow> if ib_inFlight b \<noteq> None then (None, b)
                    else (Some r, b\<lparr>ib_items := rest, ib_inFlight := Some r\<rparr>))"

text \<open>The loop of \<^verbatim>\<open>PopForIdle\<close> from index \<open>i\<close>; 0 when no user record is found.\<close>

fun idle_index :: "nat \<Rightarrow> input_record list \<Rightarrow> nat" where
  "idle_index i [] = 0"
| "idle_index i (r # rs) =
     (if ir_Kind r = InputKindUser then i
      else if ir_Kind r \<noteq> InputKindSystemAuto then 0
      else idle_index (i + 1) rs)"

definition PopForIdle :: "input_box \<Rightarrow> input_record option \<times> input_box" where
  "PopForIdle b =
     (case ib_items b of
        [] \<Rightarrow> (None, b)
      | r # rest \<Rightarrow>
          if ib_inFlight b \<noteq> None then (None, b)
          else
            let index = (if ir_Kind r = InputKindSystemAuto then idle_index 1 rest else 0);
                record = ib_items b ! index
            in (Some record, b\<lparr>ib_items := take index (ib_items b) @ drop (index + 1) (ib_items b),
                               ib_inFlight := Some record\<rparr>))"

definition MarkCompleted :: "u64 \<Rightarrow> input_box \<Rightarrow> bool \<times> input_box" where
  "MarkCompleted seq b =
     (case ib_inFlight b of
        None \<Rightarrow> (False, b)
      | Some r \<Rightarrow> if ir_Seq r \<noteq> seq then (False, b)
                  else (True, b\<lparr>ib_inFlight := Some (r\<lparr>ir_Completed := True\<rparr>)\<rparr>))"

definition Ack :: "u64 \<Rightarrow> input_box \<Rightarrow> bool \<times> input_box" where
  "Ack seq b =
     (case ib_inFlight b of
        None \<Rightarrow> (False, b)
      | Some r \<Rightarrow> if ir_Seq r \<noteq> seq then (False, b) else (True, b\<lparr>ib_inFlight := None\<rparr>))"

definition RestoreCompletedInFlight :: "input_record \<Rightarrow> input_box \<Rightarrow> bool \<times> input_box" where
  "RestoreCompletedInFlight r b =
     (if ib_inFlight b \<noteq> None then (False, b)
      else (True, b\<lparr>ib_inFlight := Some (r\<lparr>ir_Completed := True\<rparr>)\<rparr>))"

definition RequeueInFlight :: "input_box \<Rightarrow> bool \<times> input_box" where
  "RequeueInFlight b =
     (case ib_inFlight b of
        None \<Rightarrow> (False, b)
      | Some r \<Rightarrow> (True, b\<lparr>ib_items := r\<lparr>ir_Completed := False\<rparr> # ib_items b, ib_inFlight := None, ib_wake := True\<rparr>))"

definition box_Len :: "input_box \<Rightarrow> nat" where
  "box_Len b = length (ib_items b)"

definition HasInFlight :: "input_box \<Rightarrow> bool" where
  "HasInFlight b \<longleftrightarrow> ib_inFlight b \<noteq> None"

text \<open>Encoding and decoding one record: the field tagged \<^verbatim>\<open>json:"-"\<close> comes back as false.\<close>

definition persisted :: "input_record \<Rightarrow> input_record" where
  "persisted r = r\<lparr>ir_RecoveredLegacy := False\<rparr>"

definition box_Snapshot :: "input_box \<Rightarrow> box_json" where
  "box_Snapshot b =
     StateJSON \<lparr>bs_Seq = ib_seq b, bs_Items = map persisted (ib_items b), bs_InFlight = map_option persisted (ib_inFlight b)\<rparr>"

definition mark_legacy :: "input_record \<Rightarrow> input_record" where
  "mark_legacy r = (if ir_Kind r = InputKindTrigger \<and> env_DeliveryID (ir_Env r) = []
                    then r\<lparr>ir_RecoveredLegacy := True\<rparr> else r)"

fun restore_items ::
  "(input_record \<Rightarrow> nat option) \<Rightarrow> u64 \<Rightarrow> u64 list \<Rightarrow> input_record list \<Rightarrow> box_error + u64 \<times> u64 list" where
  "restore_items record_bytes maxSeq seen [] = Inr (maxSeq, seen)"
| "restore_items record_bytes maxSeq seen (item # items) =
     (if ir_Seq item = 0 then Inl ErrZeroSequence
      else if ir_Seq item \<in> set seen then Inl (ErrDuplicateSequence (ir_Seq item))
      else case validateInputRecord record_bytes item of
             Some e \<Rightarrow> Inl (ErrInvalidItem (ir_Seq item) e)
           | None \<Rightarrow> restore_items record_bytes (max maxSeq (ir_Seq item)) (ir_Seq item # seen) items)"

definition Signal :: "input_box \<Rightarrow> input_box" where
  "Signal b = (if ib_closed b then b else b\<lparr>ib_wake := True\<rparr>)"

definition box_Restore :: "(input_record \<Rightarrow> nat option) \<Rightarrow> box_json \<Rightarrow> input_box \<Rightarrow> box_error option \<times> input_box" where
  "box_Restore record_bytes raw b =
     (case raw of
        NoJSON \<Rightarrow> (None, b)
      | BadJSON \<Rightarrow> (Some ErrDecodeState, b)
      | StateJSON st \<Rightarrow>
          let items = map mark_legacy (bs_Items st); inFlight = map_option mark_legacy (bs_InFlight st)
          in if length items > InputBoxMaxItems then (Some ErrTooManyItems, b)
             else case restore_items record_bytes (bs_Seq st) [] items of
               Inl e \<Rightarrow> (Some e, b)
             | Inr (maxSeq, seen) \<Rightarrow>
                 (case (case inFlight of
                          None \<Rightarrow> Inr maxSeq
                        | Some r \<Rightarrow>
                            if ir_Seq r = 0 then Inl ErrZeroSequence
                            else if ir_Seq r \<in> set seen then Inl (ErrDuplicateSequence (ir_Seq r))
                            else case validateInputRecord record_bytes r of
                                   Some e \<Rightarrow> Inl (ErrInvalidItem (ir_Seq r) e)
                                 | None \<Rightarrow> Inr (max maxSeq (ir_Seq r))) of
                    Inl e \<Rightarrow> (Some e, b)
                  | Inr highest \<Rightarrow>
                      if ib_closed b then (Some ErrBoxClosed, b)
                      else
                        let b1 = b\<lparr>ib_seq := highest, ib_items := items, ib_inFlight := inFlight\<rparr>
                        in (None, if items \<noteq> [] then Signal b1 else b1)))"

definition stale_input :: "u64 \<Rightarrow> input_record \<Rightarrow> bool" where
  "stale_input epoch r \<longleftrightarrow> env_SessionEpoch (ir_Env r) \<noteq> 0 \<and> env_SessionEpoch (ir_Env r) \<noteq> epoch"

definition DropStale :: "u64 \<Rightarrow> input_box \<Rightarrow> nat \<times> input_box" where
  "DropStale epoch b =
     (let kept = filter (\<lambda>r. \<not> stale_input epoch r) (ib_items b);
          dropped = length (filter (stale_input epoch) (ib_items b));
          b1 = b\<lparr>ib_items := kept\<rparr>
      in case ib_inFlight b of
           Some r \<Rightarrow> if stale_input epoch r then (dropped + 1, b1\<lparr>ib_inFlight := None\<rparr>) else (dropped, b1)
         | None \<Rightarrow> (dropped, b1))"

definition box_Close :: "input_box \<Rightarrow> input_box" where
  "box_Close b = (if ib_closed b then b else b\<lparr>ib_closed := True, ib_wake := True\<rparr>)"


section \<open>Invariant\<close>

text \<open>The records the box is responsible for: the one in flight and the queued ones.\<close>

definition owned :: "input_box \<Rightarrow> input_record list" where
  "owned b = (case ib_inFlight b of None \<Rightarrow> [] | Some r \<Rightarrow> [r]) @ ib_items b"

definition accepted :: "(input_record \<Rightarrow> nat option) \<Rightarrow> input_record \<Rightarrow> bool" where
  "accepted record_bytes r \<longleftrightarrow> validateInputRecord record_bytes (r\<lparr>ir_Completed := False, ir_RecoveredLegacy := False\<rparr>) = None"

definition box_inv :: "(input_record \<Rightarrow> nat option) \<Rightarrow> input_box \<Rightarrow> bool" where
  "box_inv record_bytes b \<longleftrightarrow>
     distinct (map ir_Seq (owned b)) \<and>
     (\<forall>r \<in> set (owned b). 0 < ir_Seq r \<and> ir_Seq r \<le> ib_seq b \<and> accepted record_bytes r) \<and>
     (\<forall>r \<in> set (ib_items b). \<not> ir_Completed r)"

lemma owned_simps [simp]:
  "ib_inFlight b = None \<Longrightarrow> owned b = ib_items b"
  "ib_inFlight b = Some r \<Longrightarrow> owned b = r # ib_items b"
  by (simp_all add: owned_def)

lemma accepted_flags [simp]:
  "accepted record_bytes (r\<lparr>ir_Completed := x\<rparr>) = accepted record_bytes r"
  "accepted record_bytes (r\<lparr>ir_RecoveredLegacy := x\<rparr>) = accepted record_bytes r"
  by (simp_all add: accepted_def)

lemma new_sequence: "unat (s :: u64) < 2 ^ 64 - 1 \<or> s + 1 = 0"
proof (cases "unat s < 2 ^ 64 - 1")
  case False
  moreover have "unat s < 2 ^ 64" using unsigned_less[of s] by simp
  ultimately have "unat s = 2 ^ 64 - 1" by simp
  then have "unat (s + 1) = 0" by (simp add: unat_word_ariths)
  then show ?thesis by (simp add: unat_eq_0)
qed simp

lemma Append_cases:
  assumes "box_Append record_bytes kind env b = (r, b')"
  obtains (refused) e where "r = Inl e" "b' = b"
  | (stored) rec where "r = Inr (ib_seq b + 1)" "b' = b\<lparr>ib_seq := ib_seq b + 1, ib_items := ib_items b @ [rec], ib_wake := True\<rparr>"
      "rec = \<lparr>ir_Seq = ib_seq b + 1, ir_Kind = kind, ir_Env = env, ir_Completed = False, ir_RecoveredLegacy = False\<rparr>"
      "length (ib_items b) < InputBoxMaxItems" "unat (ib_seq b + 1) = Suc (unat (ib_seq b))" "accepted record_bytes rec"
proof -
  let ?r = "\<lparr>ir_Seq = ib_seq b + 1, ir_Kind = kind, ir_Env = env, ir_Completed = False, ir_RecoveredLegacy = False\<rparr>"
  show thesis
  proof (cases "ib_closed b \<or> length (ib_items b) \<ge> InputBoxMaxItems \<or> ib_seq b + 1 = 0 \<or> validateInputRecord record_bytes ?r \<noteq> None")
    case True
    then have "\<exists>e. r = Inl e \<and> b' = b" using assms by (auto simp: box_Append_def Let_def split: if_splits option.splits)
    then show thesis using refused by blast
  next
    case False
    then have "unat (ib_seq b) < 2 ^ 64 - 1" using new_sequence[of "ib_seq b"] by simp
    from stored[OF _ _ refl _ u64_Suc[OF this]] show thesis using False assms by (auto simp: box_Append_def accepted_def Let_def)
  qed
qed

lemma box_inv_Append:
  assumes inv: "box_inv record_bytes b" and a: "box_Append record_bytes kind env b = (r, b')"
  shows "box_inv record_bytes b' \<and> ib_seq b \<le> ib_seq b'"
  using a
proof (cases rule: Append_cases)
  case (stored rec)
  have lt: "ir_Seq x < ib_seq b + 1" if "x \<in> set (owned b)" for x
    using that inv stored(5) by (auto simp: box_inv_def word_less_nat_alt word_le_nat_alt)
  have o: "owned b' = owned b @ [rec]" using stored(2) by (simp add: owned_def)
  have "0 < ib_seq b + 1" "ib_seq b \<le> ib_seq b + 1" using stored(5) by (auto simp: word_less_nat_alt word_le_nat_alt)
  then show ?thesis using inv lt stored(2,3,6) unfolding box_inv_def o by (fastforce dest: less_imp_le)
qed (use inv in simp)

text \<open>Handing one queued record to the consumer.\<close>

lemma box_inv_take:
  assumes "box_inv record_bytes b" "ib_inFlight b = None" "ib_items b = xs @ r # ys"
  shows "box_inv record_bytes (b\<lparr>ib_items := xs @ ys, ib_inFlight := Some r\<rparr>)"
  using assms by (auto simp: box_inv_def owned_def)

lemma Pop_cases:
  assumes "Pop b = (res, b')"
  obtains (idle) "res = None" "b' = b"
  | (taken) r rest where "res = Some r" "ib_inFlight b = None" "ib_items b = r # rest"
      "b' = b\<lparr>ib_items := rest, ib_inFlight := Some r\<rparr>"
  using assms by (auto simp: Pop_def split: list.splits if_splits)

lemma idle_index_spec:
  "idle_index i rs = 0 \<or>
   (\<exists>xs r ys. rs = xs @ r # ys \<and> ir_Kind r = InputKindUser \<and> (\<forall>x \<in> set xs. ir_Kind x = InputKindSystemAuto) \<and>
     idle_index i rs = i + length xs)"
proof (induction i rs rule: idle_index.induct)
  case (2 i r rs)
  consider "ir_Kind r = InputKindUser" | "ir_Kind r \<noteq> InputKindUser" "ir_Kind r \<noteq> InputKindSystemAuto"
    | "ir_Kind r = InputKindSystemAuto" by blast
  then show ?case
  proof cases
    case 1
    then have "r # rs = [] @ r # rs \<and> ir_Kind r = InputKindUser \<and> (\<forall>x \<in> set []. ir_Kind x = InputKindSystemAuto) \<and>
      idle_index i (r # rs) = i + length []" by simp
    then show ?thesis by blast
  next
    case 3
    then have e: "idle_index i (r # rs) = idle_index (i + 1) rs" by simp
    from 2[OF _ _] 3 consider "idle_index (i + 1) rs = 0"
      | xs u ys where "rs = xs @ u # ys" "ir_Kind u = InputKindUser" "\<forall>x \<in> set xs. ir_Kind x = InputKindSystemAuto"
        "idle_index (i + 1) rs = i + 1 + length xs" by auto
    then show ?thesis
    proof cases
      case (2 xs u ys)
      then have "r # rs = (r # xs) @ u # ys \<and> ir_Kind u = InputKindUser \<and> (\<forall>x \<in> set (r # xs). ir_Kind x = InputKindSystemAuto) \<and>
        idle_index i (r # rs) = i + length (r # xs)" using 3 e by simp
      then show ?thesis by blast
    qed (use e in simp)
  qed simp
qed simp

lemma PopForIdle_cases:
  assumes "PopForIdle b = (res, b')"
  obtains (idle) "res = None" "b' = b" "ib_items b = [] \<or> ib_inFlight b \<noteq> None"
  | (first) r rest where "res = Some r" "ib_inFlight b = None" "ib_items b = r # rest"
      "b' = b\<lparr>ib_items := rest, ib_inFlight := Some r\<rparr>"
      "ir_Kind r \<noteq> InputKindSystemAuto \<or> idle_index 1 rest = 0"
  | (overtaking) xs r ys where "res = Some r" "ib_inFlight b = None" "ib_items b = xs @ r # ys" "xs \<noteq> []"
      "\<forall>x \<in> set xs. ir_Kind x = InputKindSystemAuto" "ir_Kind r = InputKindUser"
      "b' = b\<lparr>ib_items := xs @ ys, ib_inFlight := Some r\<rparr>"
proof (cases "ib_items b = [] \<or> ib_inFlight b \<noteq> None")
  case True
  then have "res = None \<and> b' = b" using assms by (auto simp: PopForIdle_def split: list.splits)
  then show thesis using idle True by blast
next
  case False
  then obtain r rest where it: "ib_items b = r # rest" "ib_inFlight b = None" by (cases "ib_items b") auto
  show thesis
  proof (cases "ir_Kind r = InputKindSystemAuto \<and> idle_index 1 rest \<noteq> 0")
    case False
    then show thesis using assms it by (intro first[of r rest]) (auto simp: PopForIdle_def Let_def split: if_splits)
  next
    case True
    then obtain xs u ys where u: "rest = xs @ u # ys" "ir_Kind u = InputKindUser" "\<forall>x \<in> set xs. ir_Kind x = InputKindSystemAuto"
      "idle_index 1 rest = 1 + length xs" using idle_index_spec[of 1 rest] by auto
    show thesis by (rule overtaking[of u "r # xs" ys]) (use assms it u True in \<open>auto simp: PopForIdle_def Let_def\<close>)
  qed
qed


section \<open>Runs\<close>

text \<open>
  One operation on the box. The completed record that \<^verbatim>\<open>RestoreCompletedInFlight\<close> puts back is
  the one that was acknowledged just before: no record of the box has its number. A restart is
  \<open>Restart\<close>: a new box restored from what the old one persisted.
\<close>

inductive box_step :: "(input_record \<Rightarrow> nat option) \<Rightarrow> input_box \<Rightarrow> input_box \<Rightarrow> bool" for record_bytes where
  Append: "box_Append record_bytes kind env b = (r, b') \<Longrightarrow> box_step record_bytes b b'"
| Pop: "Pop b = (res, b') \<Longrightarrow> box_step record_bytes b b'"
| PopIdle: "PopForIdle b = (res, b') \<Longrightarrow> box_step record_bytes b b'"
| Mark: "MarkCompleted seq b = (ok, b') \<Longrightarrow> box_step record_bytes b b'"
| Ack: "Ack seq b = (ok, b') \<Longrightarrow> box_step record_bytes b b'"
| Reinstate: "RestoreCompletedInFlight r b = (ok, b') \<Longrightarrow> accepted record_bytes r \<Longrightarrow> 0 < ir_Seq r \<Longrightarrow>
    ir_Seq r \<le> ib_seq b \<Longrightarrow> ir_Seq r \<notin> ir_Seq ` set (owned b) \<Longrightarrow> box_step record_bytes b b'"
| Requeue: "RequeueInFlight b = (ok, b') \<Longrightarrow> box_step record_bytes b b'"
| Drop: "DropStale epoch b = (n, b') \<Longrightarrow> box_step record_bytes b b'"
| Signal: "box_step record_bytes b (Signal b)"
| Close: "box_step record_bytes b (box_Close b)"
| Restart: "box_Restore record_bytes (box_Snapshot b) NewInputBox = (None, b') \<Longrightarrow> box_step record_bytes b b'"

inductive box_reachable :: "(input_record \<Rightarrow> nat option) \<Rightarrow> input_box \<Rightarrow> bool" for record_bytes where
  New: "box_reachable record_bytes NewInputBox"
| Step: "box_reachable record_bytes b \<Longrightarrow> box_step record_bytes b b' \<Longrightarrow> box_reachable record_bytes b'"

lemma restore_items_ok:
  assumes "restore_items record_bytes m seen items = Inr (top_seq, seen')"
  shows "top_seq = foldl max m (map ir_Seq items) \<and> set seen' = set seen \<union> ir_Seq ` set items \<and>
    distinct (map ir_Seq items) \<and> ir_Seq ` set items \<inter> set seen = {} \<and>
    (\<forall>r \<in> set items. ir_Seq r \<noteq> 0 \<and> validateInputRecord record_bytes r = None)"
  using assms by (induction record_bytes m seen items rule: restore_items.induct) (auto split: if_splits option.splits)

lemma restore_items_succeeds:
  assumes "distinct (map ir_Seq items)" "ir_Seq ` set items \<inter> set seen = {}"
    "\<forall>r \<in> set items. ir_Seq r \<noteq> 0 \<and> validateInputRecord record_bytes r = None"
  shows "\<exists>seen'. restore_items record_bytes m seen items = Inr (foldl max m (map ir_Seq items), seen') \<and>
    set seen' = set seen \<union> ir_Seq ` set items"
  using assms
proof (induction items arbitrary: m seen)
  case (Cons a items)
  then have d: "distinct (map ir_Seq items)" "ir_Seq ` set items \<inter> set (ir_Seq a # seen) = {}"
    "\<forall>r \<in> set items. ir_Seq r \<noteq> 0 \<and> validateInputRecord record_bytes r = None" by auto
  obtain seen' where
    "restore_items record_bytes (max m (ir_Seq a)) (ir_Seq a # seen) items = Inr (foldl max (max m (ir_Seq a)) (map ir_Seq items), seen')"
    "set seen' = set (ir_Seq a # seen) \<union> ir_Seq ` set items" using Cons.IH[OF d] by blast
  then show ?case using Cons.prems by auto
qed simp

lemma foldl_max_le: "\<forall>x \<in> set xs. x \<le> m \<Longrightarrow> foldl max m xs = (m :: 'a :: linorder)"
  by (induction xs) (auto simp: max_def)

lemma mark_legacy_fields [simp]:
  "ir_Seq (mark_legacy r) = ir_Seq r" "ir_Kind (mark_legacy r) = ir_Kind r" "ir_Env (mark_legacy r) = ir_Env r"
  "ir_Completed (mark_legacy r) = ir_Completed r" "accepted record_bytes (mark_legacy r) = accepted record_bytes r"
  "ir_Seq (persisted r) = ir_Seq r" "ir_Completed (persisted r) = ir_Completed r"
  "accepted record_bytes (persisted r) = accepted record_bytes r"
  by (simp_all add: mark_legacy_def persisted_def)

lemma Restore_Snapshot:
  assumes "box_inv record_bytes b" "box_Restore record_bytes (box_Snapshot b) b0 = (None, b')"
  shows "ib_seq b' = ib_seq b \<and> ib_items b' = map (\<lambda>r. mark_legacy (persisted r)) (ib_items b) \<and>
    ib_inFlight b' = map_option (\<lambda>r. mark_legacy (persisted r)) (ib_inFlight b)"
proof -
  let ?it = "map (\<lambda>r. mark_legacy (persisted r)) (ib_items b)"
  obtain m seen where r: "restore_items record_bytes (ib_seq b) [] ?it = Inr (m, seen)"
    using assms(2) by (auto simp: box_Restore_def box_Snapshot_def Let_def comp_def split: if_splits sum.splits)
  have "m = foldl max (ib_seq b) (map ir_Seq ?it)" using restore_items_ok[OF r] by simp
  also have "\<dots> = ib_seq b" by (rule foldl_max_le) (use assms(1) in \<open>auto simp: box_inv_def owned_def\<close>)
  finally have m: "m = ib_seq b" .
  have fl: "ir_Seq r \<le> ib_seq b" if "ib_inFlight b = Some r" for r using that assms(1) by (auto simp: box_inv_def)
  show ?thesis using assms(2) r m fl
    by (cases "ib_inFlight b")
      (auto simp: box_Restore_def box_Snapshot_def Let_def comp_def Signal_def max_def option.map_comp split: if_splits sum.splits option.splits)
qed

lemma box_inv_restart:
  assumes inv: "box_inv record_bytes b"
    and "ib_seq b' = ib_seq b" "ib_items b' = map (\<lambda>r. mark_legacy (persisted r)) (ib_items b)"
    "ib_inFlight b' = map_option (\<lambda>r. mark_legacy (persisted r)) (ib_inFlight b)"
  shows "box_inv record_bytes b'"
proof -
  have "owned b' = map (\<lambda>r. mark_legacy (persisted r)) (owned b)"
    using assms(3,4) by (cases "ib_inFlight b") (simp_all add: owned_def)
  then show ?thesis using inv assms(2,3) by (auto simp: box_inv_def comp_def)
qed

lemma box_inv_step:
  assumes "box_step record_bytes b b'" "box_inv record_bytes b"
  shows "box_inv record_bytes b' \<and> ib_seq b \<le> ib_seq b'"
  using assms
proof (cases rule: box_step.cases)
  case (Append kind env r)
  then show ?thesis using box_inv_Append assms(2) by blast
next
  case (Pop res)
  from Pop show ?thesis
  proof (cases rule: Pop_cases)
    case (taken r rest)
    then show ?thesis using box_inv_take[OF assms(2), of "[]" r rest] by simp
  qed (use assms in simp)
next
  case (PopIdle res)
  from PopIdle show ?thesis
  proof (cases rule: PopForIdle_cases)
    case (first r rest)
    then show ?thesis using box_inv_take[OF assms(2), of "[]" r rest] by simp
  next
    case (overtaking xs r ys)
    then show ?thesis using box_inv_take[OF assms(2), of xs r ys] by simp
  qed (use assms in simp)
next
  case (Mark seq ok)
  then show ?thesis using assms(2) by (auto simp: MarkCompleted_def box_inv_def split: option.splits if_splits)
next
  case (Ack seq ok)
  then show ?thesis using assms(2) by (auto simp: Ack_def box_inv_def split: option.splits if_splits)
next
  case (Reinstate r ok)
  then show ?thesis using assms(2) by (auto simp: RestoreCompletedInFlight_def box_inv_def split: if_splits)
next
  case (Requeue ok)
  then show ?thesis using assms(2) by (auto simp: RequeueInFlight_def box_inv_def split: option.splits)
next
  case (Drop epoch n)
  then show ?thesis using assms(2)
    by (auto simp: DropStale_def Let_def box_inv_def owned_def distinct_map_filter image_iff split: option.splits if_splits)
next
  case Signal
  then show ?thesis using assms(2) by (auto simp: Signal_def box_inv_def owned_def)
next
  case Close
  then show ?thesis using assms(2) by (auto simp: box_Close_def box_inv_def owned_def)
next
  case Restart
  have "ib_seq b' = ib_seq b" "ib_items b' = map (\<lambda>r. mark_legacy (persisted r)) (ib_items b)"
    "ib_inFlight b' = map_option (\<lambda>r. mark_legacy (persisted r)) (ib_inFlight b)"
    using Restore_Snapshot[OF assms(2) Restart] by simp_all
  then show ?thesis using box_inv_restart[OF assms(2)] by simp
qed

lemma box_reachable_inv: "box_reachable record_bytes b \<Longrightarrow> box_inv record_bytes b"
proof (induction rule: box_reachable.induct)
  case New
  show ?case by (simp add: box_inv_def NewInputBox_def owned_def)
next
  case (Step b b')
  then show ?case using box_inv_step by blast
qed


section \<open>Properties\<close>

lemma steps_seq:
  "(box_step record_bytes)\<^sup>*\<^sup>* b b' \<Longrightarrow> box_inv record_bytes b \<Longrightarrow> box_inv record_bytes b' \<and> ib_seq b \<le> ib_seq b'"
proof (induction rule: rtranclp_induct)
  case (step y z)
  then show ?case using box_inv_step order_trans by blast
qed simp


definition append_demo :: "input_kind \<Rightarrow> string \<Rightarrow> input_box \<Rightarrow> input_box" where
  "append_demo kind s b = snd (box_Append (\<lambda>_. Some 100) kind (demo_envelope s) b)"

lemma reachable_demo: "box_reachable (\<lambda>_. Some 100) b \<Longrightarrow> box_reachable (\<lambda>_. Some 100) (append_demo k s b)"
  unfolding append_demo_def by (rule box_reachable.Step, assumption, rule box_step.Append[OF prod.collapse[symmetric]])

lemmas demo_box_defs = append_demo_def box_Append_def NewInputBox_def validateInputRecord_def InputBoxMaxItems_def
  InputBoxMaxRecordBytes_def Let_def


lemma idle_index_zero:
  "idle_index i rs = 0 \<Longrightarrow> 0 < i \<Longrightarrow> rs = xs @ u # ys \<Longrightarrow> ir_Kind u = InputKindUser \<Longrightarrow>
   \<exists>x \<in> set xs. ir_Kind x \<noteq> InputKindSystemAuto \<and> ir_Kind x \<noteq> InputKindUser"
proof (induction i rs arbitrary: xs rule: idle_index.induct)
  case (2 i r rs)
  show ?case
  proof (cases xs)
    case Nil
    then show ?thesis using 2 by simp
  next
    case (Cons a as)
    then have e: "a = r" "rs = as @ u # ys" using 2(4) by simp_all
    consider "ir_Kind r = InputKindUser" | "ir_Kind r \<noteq> InputKindUser" "ir_Kind r \<noteq> InputKindSystemAuto"
      | "ir_Kind r = InputKindSystemAuto" by blast
    then show ?thesis
    proof cases
      case 3
      then have "\<exists>x \<in> set as. ir_Kind x \<noteq> InputKindSystemAuto \<and> ir_Kind x \<noteq> InputKindUser"
        using 2(1)[of as] 2(2,5) e(2) by simp
      then show ?thesis using Cons by auto
    qed (use 2(2,3) Cons e(1) in auto)
  qed
qed simp

text \<open>
  \<^verbatim>\<open>PopForIdle\<close> takes exactly one record and keeps the order of the others. A record that
  is not the first overtakes only system Auto wake-ups and is a user message; and a system Auto
  wake-up is taken only when every user message is behind an input of another kind. Nothing is taken
  while an input is in flight.
\<close>

lemma idle_pop_order:
  assumes "PopForIdle b = (Some r, b')"
  shows "\<exists>xs ys. ib_inFlight b = None \<and> ib_inFlight b' = Some r \<and> ib_items b = xs @ r # ys \<and> ib_items b' = xs @ ys \<and>
    (\<forall>x \<in> set xs. ir_Kind x = InputKindSystemAuto) \<and> (xs \<noteq> [] \<longrightarrow> ir_Kind r = InputKindUser) \<and>
    (ir_Kind r = InputKindSystemAuto \<longrightarrow> (\<forall>as u bs. ys = as @ u # bs \<and> ir_Kind u = InputKindUser \<longrightarrow>
       (\<exists>x \<in> set as. ir_Kind x \<noteq> InputKindSystemAuto \<and> ir_Kind x \<noteq> InputKindUser)))"
  using assms
proof (cases rule: PopForIdle_cases)
  case (first r0 rest)
  have "ib_items b = [] @ r # rest" "ib_items b' = [] @ rest" "ib_inFlight b' = Some r" using first by auto
  moreover have "ir_Kind r = InputKindSystemAuto \<longrightarrow> (\<forall>as u bs. rest = as @ u # bs \<and> ir_Kind u = InputKindUser \<longrightarrow>
       (\<exists>x \<in> set as. ir_Kind x \<noteq> InputKindSystemAuto \<and> ir_Kind x \<noteq> InputKindUser))"
    using first(1,5) idle_index_zero[of 1 rest] by auto
  ultimately show ?thesis using first(2) by (metis empty_iff empty_set)
next
  case (overtaking xs r0 ys)
  then have "ib_items b = xs @ r # ys \<and> ib_items b' = xs @ ys \<and> ib_inFlight b' = Some r \<and> ir_Kind r = InputKindUser" by simp
  then show ?thesis using overtaking(2,5) by force
qed simp

definition demo_box :: input_box where
  "demo_box = NewInputBox\<lparr>ib_seq := 2, ib_items :=
     [\<lparr>ir_Seq = 1, ir_Kind = InputKindSystemAuto, ir_Env = demo_envelope ''auto'', ir_Completed = False, ir_RecoveredLegacy = False\<rparr>,
      \<lparr>ir_Seq = 2, ir_Kind = InputKindUser, ir_Env = demo_envelope ''hello'', ir_Completed = False, ir_RecoveredLegacy = False\<rparr>]\<rparr>"

lemma idle_pop_order_witness:
  "\<exists>r b'. PopForIdle demo_box = (Some r, b') \<and> ir_Seq r = 2 \<and> ib_inFlight b' = Some r \<and> length (ib_items b') = 1"
proof -
  obtain r b' where p: "PopForIdle demo_box = (Some r, b')" and r: "ir_Seq r = 2"
  proof -
    have "map_option ir_Seq (fst (PopForIdle demo_box)) = Some 2" by code_simp
    then show thesis using that by (cases "PopForIdle demo_box") auto
  qed
  obtain xs ys where x: "ib_inFlight b' = Some r" "ib_items demo_box = xs @ r # ys" "ib_items b' = xs @ ys"
    using idle_pop_order[OF p] by blast
  have "length (ib_items demo_box) = 2" by (simp add: demo_box_def)
  then have "length (ib_items b') = 1" using x(2,3) by simp
  then show ?thesis using p r x(1) by blast
qed


text \<open>
  Persisting and restoring a box is a round trip: a reachable box with at most
  \<^verbatim>\<open>InputBoxMaxItems\<close> queued records, whose record in flight still encodes within the size
  limit, restores from its own snapshot to a box with the same number counter, the same queued
  records in the same order and the same record in flight, except that the process-local mark
  \<^verbatim>\<open>RecoveredLegacy\<close> is recomputed. (The mark is not encoded, so it does not change the
  length of a record.)
\<close>

lemma input_box_roundtrip:
  assumes "box_reachable record_bytes b" "box_Len b \<le> InputBoxMaxItems"
    and fits: "case ib_inFlight b of None \<Rightarrow> True | Some r \<Rightarrow> validateInputRecord record_bytes r = None"
    and legacy: "\<And>r x. record_bytes (r\<lparr>ir_RecoveredLegacy := x\<rparr>) = record_bytes r"
  shows "\<exists>b'. box_Restore record_bytes (box_Snapshot b) NewInputBox = (None, b') \<and> ib_seq b' = ib_seq b \<and>
    map persisted (ib_items b') = map persisted (ib_items b) \<and>
    map_option persisted (ib_inFlight b') = map_option persisted (ib_inFlight b)"
proof -
  have inv: "box_inv record_bytes b" using box_reachable_inv assms(1) .
  let ?g = "\<lambda>r. mark_legacy (persisted r)"
  have val: "validateInputRecord record_bytes (?g r) = validateInputRecord record_bytes r" for r
    using legacy by (simp add: validateInputRecord_def mark_legacy_def persisted_def)
  have leg: "validateInputRecord record_bytes (r\<lparr>ir_RecoveredLegacy := x\<rparr>) = validateInputRecord record_bytes r" for r x
    using legacy by (simp add: validateInputRecord_def)
  have same: "persisted (?g r) = persisted r" for r by (simp add: mark_legacy_def persisted_def)
  have ok: "validateInputRecord record_bytes r = None" if "r \<in> set (ib_items b)" for r
  proof -
    have a: "accepted record_bytes r" "\<not> ir_Completed r" using inv that by (auto simp: box_inv_def owned_def)
    then have "r\<lparr>ir_Completed := False\<rparr> = r" by simp
    then have "accepted record_bytes r \<longleftrightarrow> validateInputRecord record_bytes (r\<lparr>ir_RecoveredLegacy := False\<rparr>) = None"
      by (simp add: accepted_def)
    then show ?thesis using a(1) by (simp add: leg)
  qed
  have nz: "ir_Seq r \<noteq> 0" if "r \<in> set (ib_items b)" for r
  proof -
    have "0 < ir_Seq r" using inv that by (simp add: box_inv_def owned_def)
    then show ?thesis by simp
  qed
  have d: "distinct (map ir_Seq (map ?g (ib_items b)))" "\<forall>r \<in> set (map ?g (ib_items b)). ir_Seq r \<noteq> 0 \<and> validateInputRecord record_bytes r = None"
    using inv ok val nz by (auto simp: box_inv_def owned_def comp_def)
  obtain seen where seen: "restore_items record_bytes (ib_seq b) [] (map ?g (ib_items b)) =
      Inr (foldl max (ib_seq b) (map ir_Seq (map ?g (ib_items b))), seen)" "set seen = ir_Seq ` set (ib_items b)"
    using restore_items_succeeds[OF d(1) _ d(2), of "[]" "ib_seq b"] by (auto simp: image_image)
  have m: "foldl max (ib_seq b) (map ir_Seq (map ?g (ib_items b))) = ib_seq b"
    by (rule foldl_max_le) (use inv in \<open>auto simp: box_inv_def owned_def\<close>)
  have fl: "ir_Seq r \<noteq> 0" "ir_Seq r \<notin> set seen" "validateInputRecord record_bytes (?g r) = None" "max (ib_seq b) (ir_Seq r) = ib_seq b"
    if "ib_inFlight b = Some r" for r
    using inv that seen(2) fits val by (auto simp: box_inv_def max_def)
  define b1 where "b1 = NewInputBox\<lparr>ib_seq := ib_seq b, ib_items := map ?g (ib_items b), ib_inFlight := map_option ?g (ib_inFlight b)\<rparr>"
  have "box_Restore record_bytes (box_Snapshot b) NewInputBox = (None, if ib_items b \<noteq> [] then Signal b1 else b1)"
    using assms(2) seen(1)[unfolded m] fl
    by (cases "ib_inFlight b")
      (simp_all add: box_Restore_def box_Snapshot_def Let_def comp_def box_Len_def b1_def option.map_comp NewInputBox_def)
  moreover have "ib_items (Signal b1) = ib_items b1" "ib_seq (Signal b1) = ib_seq b1" "ib_inFlight (Signal b1) = ib_inFlight b1"
    by (simp_all add: Signal_def)
  moreover have "ib_seq b1 = ib_seq b" "map persisted (ib_items b1) = map persisted (ib_items b)"
    "map_option persisted (ib_inFlight b1) = map_option persisted (ib_inFlight b)"
    using same by (simp_all add: b1_def comp_def option.map_comp)
  ultimately show ?thesis by (cases "ib_items b = []") auto
qed

lemma input_box_roundtrip_witness:
  "\<exists>b'. box_Restore (\<lambda>_. Some 100) (box_Snapshot (append_demo InputKindUser ''a'' NewInputBox)) NewInputBox = (None, b') \<and>
     ib_seq b' = 1 \<and> map persisted (ib_items b') = map persisted (ib_items (append_demo InputKindUser ''a'' NewInputBox))"
proof -
  let ?b = "append_demo InputKindUser ''a'' NewInputBox"
  have "box_Len ?b \<le> InputBoxMaxItems" "ib_seq ?b = 1" "ib_inFlight ?b = None" by (simp_all add: demo_box_defs box_Len_def)
  then show ?thesis
    using input_box_roundtrip[OF reachable_demo[OF box_reachable.New], of InputKindUser "''a''"] by auto
qed

text \<open>
  The bound is not kept by \<^verbatim>\<open>RequeueInFlight\<close>: a full box whose input in flight is
  requeued holds one record more than \<^verbatim>\<open>Restore\<close> accepts, so the snapshot of that reachable
  box cannot be restored and every queued input is lost at the next start.
\<close>

lemma requeued_box_not_restorable:
  assumes "box_reachable record_bytes b" "HasInFlight b" "box_Len b = InputBoxMaxItems"
  shows "box_reachable record_bytes (snd (RequeueInFlight b)) \<and>
    box_Restore record_bytes (box_Snapshot (snd (RequeueInFlight b))) NewInputBox = (Some ErrTooManyItems, NewInputBox)"
proof -
  have "box_step record_bytes b (snd (RequeueInFlight b))" using box_step.Requeue by (metis prod.collapse)
  then show ?thesis using assms
    by (auto simp: RequeueInFlight_def HasInFlight_def box_Restore_def box_Snapshot_def box_Len_def Let_def
        intro: box_reachable.Step)
qed

fun append_n :: "nat \<Rightarrow> input_box \<Rightarrow> input_box" where
  "append_n 0 b = b"
| "append_n (Suc n) b = append_n n (append_demo InputKindUser ''a'' b)"

lemma append_n_spec:
  assumes "box_reachable (\<lambda>_. Some 100) b" "\<not> ib_closed b" "box_Len b + n \<le> InputBoxMaxItems" "unat (ib_seq b) + n < 2 ^ 64"
  shows "box_reachable (\<lambda>_. Some 100) (append_n n b) \<and> box_Len (append_n n b) = box_Len b + n \<and>
    ib_inFlight (append_n n b) = ib_inFlight b"
  using assms
proof (induction n arbitrary: b)
  case (Suc n)
  have u: "unat (ib_seq b + 1) = Suc (unat (ib_seq b))" using Suc.prems(4) by (intro u64_Suc) simp
  then have "ib_seq b + 1 \<noteq> 0" by (metis nat.distinct(1) unat_0)
  then have a: "append_demo InputKindUser ''a'' b = b\<lparr>ib_seq := ib_seq b + 1, ib_items := ib_items b @
      [\<lparr>ir_Seq = ib_seq b + 1, ir_Kind = InputKindUser, ir_Env = demo_envelope ''a'', ir_Completed = False, ir_RecoveredLegacy = False\<rparr>], ib_wake := True\<rparr>"
    using Suc.prems by (simp add: demo_box_defs box_Len_def)
  define c where "c = append_demo InputKindUser ''a'' b"
  have c: "\<not> ib_closed c" "box_Len c = box_Len b + 1" "unat (ib_seq c) = Suc (unat (ib_seq b))" "ib_inFlight c = ib_inFlight b"
    using Suc.prems(2) u unfolding c_def a by (simp_all add: box_Len_def)
  have "box_reachable (\<lambda>_. Some 100) c" unfolding c_def by (rule reachable_demo[OF Suc.prems(1)])
  then show ?case using Suc.IH[of c] Suc.prems(3,4) c by (simp add: c_def[symmetric])
qed simp

lemma requeued_box_not_restorable_witness:
  "\<exists>b. box_reachable (\<lambda>_. Some 100) b \<and> box_Len b = 257 \<and>
     box_Restore (\<lambda>_. Some 100) (box_Snapshot b) NewInputBox = (Some ErrTooManyItems, NewInputBox)"
proof -
  define b1 where "b1 = snd (Pop (append_demo InputKindUser ''a'' NewInputBox))"
  have r1: "box_reachable (\<lambda>_. Some 100) b1"
    unfolding b1_def by (rule box_reachable.Step[OF reachable_demo[OF box_reachable.New]], rule box_step.Pop[OF prod.collapse[symmetric]])
  have p1: "\<not> ib_closed b1" "box_Len b1 = 0" "ib_seq b1 = 1" "ib_inFlight b1 \<noteq> None"
    by (simp_all add: b1_def demo_box_defs Pop_def box_Len_def)
  have b: "box_reachable (\<lambda>_. Some 100) (append_n 256 b1)" "box_Len (append_n 256 b1) = InputBoxMaxItems" "HasInFlight (append_n 256 b1)"
    using append_n_spec[OF r1 p1(1), of 256] p1 by (simp_all add: InputBoxMaxItems_def HasInFlight_def)
  have "box_Len (snd (RequeueInFlight (append_n 256 b1))) = 257"
    using b(2,3) by (auto simp: RequeueInFlight_def HasInFlight_def box_Len_def InputBoxMaxItems_def)
  then show ?thesis using requeued_box_not_restorable[OF b(1,3,2)] by blast
qed

end
