(* ===== verification/Gate.thy ===== *)
theory Gate
  imports Input_Box
begin

text \<open>
  The execution gate of an agent, \<^verbatim>\<open>node/internal/session/maintenance_gate.go\<close>: it arbitrates
  between maintenance (context compression, dreaming) and the dispatching of queued work of the
  agent's sessions. \<open>gate\<close> is the struct with the mutex held; runtimes are named by numbers
  and their queues, boxes and turn states live in a heap that other goroutines change between gate
  operations. A lease token is the number of its allocation; the closed channel \<^verbatim>\<open>wake\<close> is
  the number of the current channel. A lease context is cancelled when its number is in
  \<open>gw_cancelled\<close>; \<open>gw_released\<close> has the leases whose \<^verbatim>\<open>sync.Once\<close> has fired.

  The locale \<open>work_source\<close> is what the gate needs of the control queue and of the input box.
\<close>

section \<open>Sources of work\<close>

locale work_source =
  fixes pending :: "'s \<Rightarrow> nat" and take_work :: "'s \<Rightarrow> ('a \<times> 's) option"
  assumes nothing_pending: "pending s = 0 \<Longrightarrow> take_work s = None"
    and takes_one: "take_work s = Some (a, s') \<Longrightarrow> pending s = Suc (pending s')"
begin

fun take_many :: "nat \<Rightarrow> 's \<Rightarrow> 'a list \<times> 's" where
  "take_many 0 s = ([], s)"
| "take_many (Suc n) s =
     (case take_work s of
        None \<Rightarrow> ([], s)
      | Some (a, s') \<Rightarrow> (case take_many n s' of (as, s2) \<Rightarrow> (a # as, s2)))"

lemma take_many_count: "take_many n s = (as, s') \<Longrightarrow> pending s = length as + pending s' \<and> length as \<le> n"
proof (induction n arbitrary: s as s')
  case (Suc n)
  show ?case
  proof (cases "take_work s")
    case None
    then show ?thesis using Suc.prems by simp
  next
    case (Some x)
    obtain a s1 where x: "x = (a, s1)" by (cases x)
    obtain as1 s2 where t: "take_many n s1 = (as1, s2)" by (cases "take_many n s1")
    have "as = a # as1" "s' = s2" using Suc.prems Some x t by simp_all
    then show ?thesis using Suc.IH[OF t] takes_one[of s a s1] Some x by simp
  qed
qed simp

lemma take_stops: "pending s \<le> n \<Longrightarrow> take_many n s = (as, s') \<Longrightarrow> take_work s' = None"
proof (induction n arbitrary: s as s')
  case 0
  then show ?case using nothing_pending by simp
next
  case (Suc n)
  show ?case
  proof (cases "take_work s")
    case (Some x)
    obtain a s1 where x: "x = (a, s1)" by (cases x)
    obtain as1 s2 where t: "take_many n s1 = (as1, s2)" by (cases "take_many n s1")
    have "pending s1 \<le> n" using takes_one[of s a s1] Some x Suc.prems(1) by simp
    then show ?thesis using Suc.IH[OF _ t] Suc.prems(2) Some x t by simp
  qed (use Suc.prems in simp)
qed

end

interpretation control_queue: work_source queue_Len try_dequeue
proof (unfold_locales, goal_cases)
  case (1 s)
  then show ?case using try_dequeue_simps(1) by (simp add: queue_Len_def)
next
  case (2 s a s')
  then show ?case by (cases "mq_items s") (auto simp: queue_Len_def try_dequeue_simps)
qed

definition pop_input :: "input_box \<Rightarrow> (input_record \<times> input_box) option" where
  "pop_input b = (case PopForIdle b of (Some r, b') \<Rightarrow> Some (r, b') | (None, _) \<Rightarrow> None)"

interpretation input_source: work_source box_Len pop_input
proof (unfold_locales, goal_cases)
  case (1 s)
  then show ?case by (simp add: box_Len_def pop_input_def PopForIdle_def)
next
  case (2 s a s')
  then have "PopForIdle s = (Some a, s')" by (auto simp: pop_input_def split: prod.splits option.splits)
  then show ?case by (cases rule: PopForIdle_cases) (auto simp: box_Len_def)
qed

section \<open>State\<close>

record session_runtime =
  sr_queue :: message_queue
  sr_inputBox :: input_box
  sr_turnState :: string

record agent_gate =
  ag_maintenance :: bool
  ag_dispatches :: int
  ag_runtimes :: "nat list"
  ag_wake :: nat
  ag_maintenanceCancel :: "nat option"
  ag_maintenanceLease :: "nat option"

record gate_world =
  gw_gate :: agent_gate
  gw_heap :: "nat \<Rightarrow> session_runtime"
  gw_nextLease :: nat
  gw_cancelled :: "nat list"
  gw_released :: "nat list"

definition newAgentExecutionGate :: agent_gate where
  "newAgentExecutionGate = \<lparr>ag_maintenance = False, ag_dispatches = 0, ag_runtimes = [], ag_wake = 0,
     ag_maintenanceCancel = None, ag_maintenanceLease = None\<rparr>"

section \<open>Operations\<close>

definition gate_notify :: "agent_gate \<Rightarrow> agent_gate" where
  "gate_notify g = g\<lparr>ag_wake := ag_wake g + 1\<rparr>"

definition gate_register :: "nat \<Rightarrow> agent_gate \<Rightarrow> agent_gate" where
  "gate_register r g = g\<lparr>ag_runtimes := List.insert r (ag_runtimes g)\<rparr>"

definition gate_unregister :: "nat \<Rightarrow> agent_gate \<Rightarrow> agent_gate" where
  "gate_unregister r g = gate_notify (g\<lparr>ag_runtimes := removeAll r (ag_runtimes g)\<rparr>)"

definition runtime_busy :: "session_runtime \<Rightarrow> bool" where
  "runtime_busy r \<longleftrightarrow> queue_Len (sr_queue r) > 0 \<or> box_Len (sr_inputBox r) > 0 \<or> HasInFlight (sr_inputBox r) \<or>
     sr_turnState r \<noteq> ''idle''"

definition idleLocked :: "(nat \<Rightarrow> session_runtime) \<Rightarrow> agent_gate \<Rightarrow> bool" where
  "idleLocked heap g \<longleftrightarrow>
     \<not> (ag_maintenance g \<or> ag_dispatches g \<noteq> 0) \<and> list_all (\<lambda>r. \<not> runtime_busy (heap r)) (ag_runtimes g)"

text \<open>
  \<open>ctx_done\<close>: the caller's context is already cancelled. The result is \<open>None\<close>, or the lease
  whose context and release function the caller gets.
\<close>

definition acquireMaintenanceContext :: "bool \<Rightarrow> gate_world \<Rightarrow> nat option \<times> gate_world" where
  "acquireMaintenanceContext ctx_done w =
     (if ctx_done then (None, w)
      else if \<not> idleLocked (gw_heap w) (gw_gate w) then (None, w)
      else
        let lease = gw_nextLease w
        in (Some lease, w\<lparr>gw_gate := (gw_gate w)\<lparr>ag_maintenance := True, ag_maintenanceCancel := Some lease,
                              ag_maintenanceLease := Some lease\<rparr>,
                          gw_nextLease := lease + 1\<rparr>))"

definition signal_all :: "nat list \<Rightarrow> (nat \<Rightarrow> session_runtime) \<Rightarrow> nat \<Rightarrow> session_runtime" where
  "signal_all rs heap = foldl (\<lambda>h r. h(r := (h r)\<lparr>sr_inputBox := Signal (sr_inputBox (h r))\<rparr>)) heap rs"

definition releaseMaintenance :: "nat \<Rightarrow> gate_world \<Rightarrow> gate_world" where
  "releaseMaintenance lease w =
     (if lease \<in> set (gw_released w) then w
      else
        w\<lparr>gw_gate := gate_notify ((gw_gate w)\<lparr>ag_maintenance := False, ag_maintenanceCancel := None,
                                        ag_maintenanceLease := None\<rparr>),
          gw_cancelled := lease # gw_cancelled w, gw_released := lease # gw_released w,
          gw_heap := signal_all (ag_runtimes (gw_gate w)) (gw_heap w)\<rparr>)"

definition notifyInput :: "gate_world \<Rightarrow> gate_world" where
  "notifyInput w =
     (case ag_maintenanceCancel (gw_gate w) of
        None \<Rightarrow> w
      | Some lease \<Rightarrow> w\<lparr>gw_cancelled := lease # gw_cancelled w\<rparr>)"

definition waitSnapshot :: "agent_gate \<Rightarrow> bool \<times> nat" where
  "waitSnapshot g = (ag_maintenance g, ag_wake g)"

definition claimControl :: "nat \<Rightarrow> gate_world \<Rightarrow> envelope option \<times> gate_world" where
  "claimControl r w =
     (if ag_maintenance (gw_gate w) \<or> queue_Len (sr_queue (gw_heap w r)) = 0 then (None, w)
      else case Dequeue (sr_queue (gw_heap w r)) [] of
             (Dequeued env, q) \<Rightarrow>
               (Some env, w\<lparr>gw_gate := (gw_gate w)\<lparr>ag_dispatches := ag_dispatches (gw_gate w) + 1\<rparr>,
                            gw_heap := (gw_heap w)(r := (gw_heap w r)\<lparr>sr_queue := q\<rparr>)\<rparr>)
           | (_, _) \<Rightarrow> (None, w))"

definition claimInput :: "nat \<Rightarrow> gate_world \<Rightarrow> input_record option \<times> gate_world" where
  "claimInput r w =
     (if ag_maintenance (gw_gate w) \<or> sr_turnState (gw_heap w r) \<noteq> ''idle'' \<or> queue_Len (sr_queue (gw_heap w r)) > 0
      then (None, w)
      else case PopForIdle (sr_inputBox (gw_heap w r)) of
             (None, _) \<Rightarrow> (None, w)
           | (Some rec, b) \<Rightarrow>
               (Some rec, w\<lparr>gw_gate := (gw_gate w)\<lparr>ag_dispatches := ag_dispatches (gw_gate w) + 1\<rparr>,
                            gw_heap := (gw_heap w)(r := (gw_heap w r)\<lparr>sr_inputBox := b\<rparr>)\<rparr>))"

definition finishDispatch :: "agent_gate \<Rightarrow> agent_gate" where
  "finishDispatch g =
     gate_notify (if ag_dispatches g > 0 then g\<lparr>ag_dispatches := ag_dispatches g - 1\<rparr> else g)"

text \<open>A context as \<^verbatim>\<open>owns\<close> sees it: the lease token it carries, if any, and whether a parent is done.\<close>

definition owns :: "nat option \<Rightarrow> bool \<Rightarrow> gate_world \<Rightarrow> bool" where
  "owns token parent_done w =
     (case token of
        None \<Rightarrow> False
      | Some v \<Rightarrow> ag_maintenance (gw_gate w) \<and> ag_maintenanceLease (gw_gate w) = Some v \<and>
                  \<not> parent_done \<and> v \<notin> set (gw_cancelled w))"


section \<open>Interleavings\<close>

text \<open>
  One atomic operation of some goroutine. The second component lists the dispatches in progress: a
  consumer calls \<^verbatim>\<open>finishDispatch\<close> once for every claim that succeeded (the \<^verbatim>\<open>consumeLoop\<close>
  of \<^verbatim>\<open>runtime.go\<close>). A release function exists for every lease that was handed out and may
  be called at any time and more than once. Between gate operations the sessions change their
  queues, boxes and turn states freely.
\<close>

inductive gate_step :: "gate_world \<times> nat list \<Rightarrow> gate_world \<times> nat list \<Rightarrow> bool" where
  Register: "gate_step (w, cs) (w\<lparr>gw_gate := gate_register r (gw_gate w)\<rparr>, cs)"
| Unregister: "gate_step (w, cs) (w\<lparr>gw_gate := gate_unregister r (gw_gate w)\<rparr>, cs)"
| Acquire: "acquireMaintenanceContext d w = (l, w') \<Longrightarrow> gate_step (w, cs) (w', cs)"
| Release: "l < gw_nextLease w \<Longrightarrow> gate_step (w, cs) (releaseMaintenance l w, cs)"
| Notify: "gate_step (w, cs) (notifyInput w, cs)"
| Control: "claimControl r w = (Some env, w') \<Longrightarrow> gate_step (w, cs) (w', r # cs)"
| Input: "claimInput r w = (Some rec, w') \<Longrightarrow> gate_step (w, cs) (w', r # cs)"
| Finish: "r \<in> set cs \<Longrightarrow> gate_step (w, cs) (w\<lparr>gw_gate := finishDispatch (gw_gate w)\<rparr>, remove1 r cs)"
| Session: "gate_step (w, cs) (w\<lparr>gw_heap := h\<rparr>, cs)"

inductive_cases gate_stepE: "gate_step (w, cs) (w', cs')"

lemmas gate_step_cases = gate_stepE [consumes 1, case_names Register Unregister Acquire Release Notify Control Input Finish Session]

definition gate_start :: "(nat \<Rightarrow> session_runtime) \<Rightarrow> gate_world" where
  "gate_start h = \<lparr>gw_gate = newAgentExecutionGate, gw_heap = h, gw_nextLease = 0, gw_cancelled = [], gw_released = []\<rparr>"

definition gate_reachable :: "gate_world \<Rightarrow> nat list \<Rightarrow> bool" where
  "gate_reachable w cs \<longleftrightarrow> (\<exists>h. gate_step\<^sup>*\<^sup>* (gate_start h, []) (w, cs))"

definition gate_inv :: "gate_world \<Rightarrow> nat list \<Rightarrow> bool" where
  "gate_inv w cs \<longleftrightarrow>
     ag_dispatches (gw_gate w) = int (length cs) \<and>
     (ag_maintenance (gw_gate w) \<longleftrightarrow> ag_maintenanceLease (gw_gate w) \<noteq> None) \<and>
     ag_maintenanceCancel (gw_gate w) = ag_maintenanceLease (gw_gate w) \<and>
     (ag_maintenance (gw_gate w) \<longrightarrow> cs = []) \<and>
     (\<forall>l. ag_maintenanceLease (gw_gate w) = Some l \<longrightarrow> l < gw_nextLease w \<and> l \<notin> set (gw_released w)) \<and>
     (\<forall>l < gw_nextLease w. l \<in> set (gw_released w) \<or> ag_maintenanceLease (gw_gate w) = Some l) \<and>
     (\<forall>l \<in> set (gw_released w). l < gw_nextLease w)"

lemma gate_other [simp]:
  "ag_dispatches (gate_notify g) = ag_dispatches g" "ag_maintenance (gate_notify g) = ag_maintenance g"
  "ag_maintenanceLease (gate_notify g) = ag_maintenanceLease g" "ag_maintenanceCancel (gate_notify g) = ag_maintenanceCancel g"
  "ag_wake (gate_notify g) = ag_wake g + 1"
  by (simp_all add: gate_notify_def)

lemma claim_effect:
  assumes "claimControl r w = (Some env, w') \<or> claimInput r w = (Some rec, w')"
  shows "\<not> ag_maintenance (gw_gate w)"
    "\<exists>h. w' = w\<lparr>gw_gate := (gw_gate w)\<lparr>ag_dispatches := ag_dispatches (gw_gate w) + 1\<rparr>, gw_heap := h\<rparr>"
  using assms by (auto simp: claimControl_def claimInput_def split: if_splits prod.splits dequeue_result.splits option.splits)

lemma gate_inv_step:
  assumes "gate_step (w, cs) (w', cs')" "gate_inv w cs"
  shows "gate_inv w' cs' \<and> set (gw_released w) \<subseteq> set (gw_released w') \<and> ag_wake (gw_gate w) \<le> ag_wake (gw_gate w') \<and>
    (ag_maintenance (gw_gate w) \<and> \<not> ag_maintenance (gw_gate w') \<longrightarrow> ag_wake (gw_gate w) < ag_wake (gw_gate w'))"
  using assms(1)
proof (cases rule: gate_step_cases)
  case (Acquire d l)
  have "w' = w \<or> \<not> ag_maintenance (gw_gate w) \<and> ag_dispatches (gw_gate w) = 0 \<and>
      w' = w\<lparr>gw_gate := (gw_gate w)\<lparr>ag_maintenance := True, ag_maintenanceCancel := Some (gw_nextLease w),
              ag_maintenanceLease := Some (gw_nextLease w)\<rparr>, gw_nextLease := gw_nextLease w + 1\<rparr>"
    using Acquire by (auto simp: acquireMaintenanceContext_def Let_def idleLocked_def split: if_splits)
  then show ?thesis using assms(2) Acquire(1) by (auto simp: gate_inv_def less_Suc_eq)
next
  case (Release l)
  show ?thesis
  proof (cases "l \<in> set (gw_released w)")
    case True
    then show ?thesis using assms(2) Release by (simp add: releaseMaintenance_def)
  next
    case False
    then have "ag_maintenanceLease (gw_gate w) = Some l" "ag_maintenance (gw_gate w)" using assms(2) Release by (auto simp: gate_inv_def)
    moreover have "\<forall>k < gw_nextLease w. k \<in> set (l # gw_released w)"
      using assms(2) calculation(1) unfolding gate_inv_def by (metis list.set_intros option.inject)
    ultimately show ?thesis using assms(2) Release False by (clarsimp simp: gate_inv_def releaseMaintenance_def)
  qed
next
  case Notify
  then show ?thesis using assms(2) by (auto simp: gate_inv_def notifyInput_def split: option.splits)
next
  case (Control r env)
  then obtain h where "w' = w\<lparr>gw_gate := (gw_gate w)\<lparr>ag_dispatches := ag_dispatches (gw_gate w) + 1\<rparr>, gw_heap := h\<rparr>"
    "\<not> ag_maintenance (gw_gate w)" using claim_effect by blast
  then show ?thesis using assms(2) Control(1) by (auto simp: gate_inv_def)
next
  case (Input r rec)
  then obtain h where "w' = w\<lparr>gw_gate := (gw_gate w)\<lparr>ag_dispatches := ag_dispatches (gw_gate w) + 1\<rparr>, gw_heap := h\<rparr>"
    "\<not> ag_maintenance (gw_gate w)" using claim_effect by blast
  then show ?thesis using assms(2) Input(1) by (auto simp: gate_inv_def)
next
  case (Finish r)
  then have "length cs = Suc (length (remove1 r cs))" by (simp add: length_remove1) (metis Suc_pred length_pos_if_in_set)
  moreover have "cs \<noteq> []" using Finish by auto
  ultimately show ?thesis using assms(2) Finish by (auto simp: gate_inv_def finishDispatch_def)
qed (use assms(2) in \<open>auto simp: gate_inv_def gate_register_def gate_unregister_def\<close>)

lemma gate_inv_steps:
  assumes "gate_step\<^sup>*\<^sup>* (w, cs) (w', cs')" "gate_inv w cs"
  shows "gate_inv w' cs' \<and> set (gw_released w) \<subseteq> set (gw_released w') \<and> ag_wake (gw_gate w) \<le> ag_wake (gw_gate w') \<and>
    (ag_maintenance (gw_gate w) \<and> \<not> ag_maintenance (gw_gate w') \<longrightarrow> ag_wake (gw_gate w) < ag_wake (gw_gate w'))"
  using assms
proof (induction "(w', cs')" arbitrary: w' cs' rule: rtranclp_induct)
  case (step y)
  obtain v ds where y: "y = (v, ds)" by (cases y)
  note I = step.hyps(3)[OF y step.prems]
  have "gate_inv v ds" using I by simp
  from gate_inv_step[OF step.hyps(2)[unfolded y] this] I show ?case by (cases "ag_maintenance (gw_gate v)") auto
qed simp

lemma gate_reachable_inv: "gate_reachable w cs \<Longrightarrow> gate_inv w cs"
proof -
  have "gate_inv (gate_start h) []" for h by (simp add: gate_inv_def gate_start_def newAgentExecutionGate_def)
  then show "gate_reachable w cs \<Longrightarrow> gate_inv w cs" using gate_inv_steps by (auto simp: gate_reachable_def)
qed


section \<open>Properties\<close>

text \<open>
  C15. Maintenance and dispatching exclude each other: whenever a context owns the maintenance lease,
  no dispatch is in progress, no session can claim a control message or an input, no second
  maintenance can start, and no other lease owns the gate.
\<close>

theorem maintenance_excludes_dispatch:
  assumes "gate_reachable w cs" "owns (Some l) d w"
  shows "cs = [] \<and> ag_dispatches (gw_gate w) = 0 \<and> claimControl r w = (None, w) \<and> claimInput r w = (None, w) \<and>
    acquireMaintenanceContext d2 w = (None, w) \<and> (owns token d3 w \<longrightarrow> token = Some l)"
  using gate_reachable_inv[OF assms(1)] assms(2)
  by (auto simp: gate_inv_def owns_def claimControl_def claimInput_def acquireMaintenanceContext_def idleLocked_def split: option.splits)

definition demo_runtime :: session_runtime where
  "demo_runtime = \<lparr>sr_queue = enqueue_all NewMessageQueue [(PriorityHuman, demo_envelope ''h'')],
     sr_inputBox = NewInputBox, sr_turnState = ''idle''\<rparr>"

text \<open>A session registers on an idle agent, maintenance starts, and then a message arrives.\<close>

definition demo_gate :: gate_world where
  "demo_gate = (snd (acquireMaintenanceContext False
      ((gate_start (\<lambda>_. demo_runtime\<lparr>sr_queue := NewMessageQueue\<rparr>))\<lparr>gw_gate := gate_register 7 newAgentExecutionGate\<rparr>)))\<lparr>gw_heap := \<lambda>_. demo_runtime\<rparr>"

lemma demo_gate_reachable: "gate_reachable demo_gate []"
proof -
  define h where "h = (\<lambda>_ :: nat. demo_runtime\<lparr>sr_queue := NewMessageQueue\<rparr>)"
  define w1 where "w1 = (gate_start h)\<lparr>gw_gate := gate_register 7 newAgentExecutionGate\<rparr>"
  have "gate_step (gate_start h, []) (w1, [])"
    using gate_step.Register[of "gate_start h" "[]" 7] by (simp add: w1_def gate_start_def)
  moreover have "gate_step (w1, []) (snd (acquireMaintenanceContext False w1), [])"
    by (rule gate_step.Acquire[OF prod.collapse[symmetric]])
  moreover have "gate_step (snd (acquireMaintenanceContext False w1), []) (demo_gate, [])"
    unfolding demo_gate_def w1_def h_def by (rule gate_step.Session)
  ultimately show ?thesis unfolding gate_reachable_def by (meson rtranclp.rtrancl_into_rtrancl rtranclp.rtrancl_refl)
qed

theorem maintenance_excludes_dispatch_witness:
  "owns (Some 0) False demo_gate \<and> queue_Len (sr_queue (gw_heap demo_gate 7)) = 1 \<and> claimControl 7 demo_gate = (None, demo_gate)"
proof -
  have "owns (Some 0) False demo_gate" by code_simp
  moreover have "queue_Len (sr_queue (gw_heap demo_gate 7)) = 1" by code_simp
  ultimately show ?thesis using maintenance_excludes_dispatch[OF demo_gate_reachable, of 0 False 7] by blast
qed

text \<open>
  A released lease is dead: once its release function has run, the lease never owns the gate
  again, whatever happens later, and calling the release function again changes nothing, so it
  cannot end a lease that somebody else acquired in the meantime.
\<close>

lemma released_lease_is_dead:
  assumes "gate_reachable w cs" "l < gw_nextLease w" "gate_step\<^sup>*\<^sup>* (releaseMaintenance l w, cs) (w', cs')"
  shows "\<not> owns (Some l) d w' \<and> releaseMaintenance l w' = w'"
proof -
  let ?w1 = "releaseMaintenance l w"
  have i: "gate_inv ?w1 cs" using gate_inv_step[OF gate_step.Release[OF assms(2)]] gate_reachable_inv[OF assms(1)] by blast
  have "l \<in> set (gw_released ?w1)" by (simp add: releaseMaintenance_def)
  then have r: "gate_inv w' cs'" "l \<in> set (gw_released w')" using gate_inv_steps[OF assms(3) i] by auto
  then show ?thesis by (auto simp: owns_def gate_inv_def releaseMaintenance_def)
qed

lemma released_lease_is_dead_witness:
  "\<not> owns (Some 0) False (releaseMaintenance 0 demo_gate) \<and> owns (Some 0) False demo_gate"
proof -
  have "gw_nextLease demo_gate = 1" by code_simp
  moreover have "owns (Some 0) False demo_gate" by code_simp
  ultimately show ?thesis using released_lease_is_dead[OF demo_gate_reachable _ rtranclp.rtrancl_refl, of 0 False] by simp
qed

text \<open>
  No lost wake-up: a consumer that finds the gate closed for maintenance and waits on the channel
  \<^verbatim>\<open>waitSnapshot\<close> gave it is woken when maintenance ends, because in every later state
  without maintenance that channel has been closed.
\<close>

lemma gate_wakes_waiters:
  assumes "gate_reachable w cs" "waitSnapshot (gw_gate w) = (True, channel)"
    and "gate_step\<^sup>*\<^sup>* (w, cs) (w', cs')" "\<not> ag_maintenance (gw_gate w')"
  shows "channel < ag_wake (gw_gate w')"
  using gate_inv_steps[OF assms(3) gate_reachable_inv[OF assms(1)]] assms(2,4) by (simp add: waitSnapshot_def)

lemma gate_wakes_waiters_witness:
  "waitSnapshot (gw_gate demo_gate) = (True, 0) \<and> 0 < ag_wake (gw_gate (releaseMaintenance 0 demo_gate))"
proof -
  have w: "waitSnapshot (gw_gate demo_gate) = (True, 0)" by code_simp
  have n: "gw_nextLease demo_gate = 1" by code_simp
  have m: "\<not> ag_maintenance (gw_gate (releaseMaintenance 0 demo_gate))" by code_simp
  have "gate_step (demo_gate, []) (releaseMaintenance 0 demo_gate, [])" by (rule gate_step.Release) (simp add: n)
  then show ?thesis using gate_wakes_waiters[OF demo_gate_reachable w r_into_rtranclp m] w by blast
qed

end
