(* ===== verification/Tool_Protocol.thy ===== *)
theory Tool_Protocol
  imports Prelude "HOL-Library.Multiset"
begin

text \<open>
  The messages of a conversation and the check that a history can be sent to a model:
  \<^verbatim>\<open>llm/types.go\<close>, \<^verbatim>\<open>llm/message_source.go\<close>, \<^verbatim>\<open>llm/message_names.go\<close>,
  \<^verbatim>\<open>llm/history_validation.go\<close> and the constructors of tool results in
  \<^verbatim>\<open>llm/tool_result_visibility.go\<close>.

  Content parts are records; file references are kept as JSON text. What \<^verbatim>\<open>encoding/json\<close> says of the
  arguments of a tool call is the parameter \<open>json\<close>: not JSON, JSON but not an object, or an object.

  \<open>well_paired\<close> is the grammar of acceptable histories: user and system messages, and assistant
  messages each followed by the results of its tool calls, every call answered exactly once.
  \<open>protocol_accepts_grammar\<close> shows that the one-pass check with its two maps accepts exactly it.
\<close>

section \<open>Messages\<close>

record content_part =
  cp_Type :: string
  cp_Text :: string
  cp_ImageURL :: "(string \<times> string) option"

record tool_call =
  tc_ID :: string
  tc_Type :: string
  tc_Name :: string
  tc_Arguments :: string

record tool_result_error =
  tre_Code :: string
  tre_Message :: string
  tre_Retryable :: bool

record tool_result_metadata =
  trm_Status :: string
  trm_Error :: "tool_result_error option"

record message_source =
  src_Kind :: string
  src_Form :: string

record message_provenance =
  prov_Producer :: string
  prov_Operation :: string
  prov_Reference :: string

record message =
  msg_Role :: string
  msg_Content :: string
  msg_ContentParts :: "content_part list"
  msg_FileReferences :: "json_raw list"
  msg_ReasoningContent :: string
  msg_ToolCalls :: "tool_call list"
  msg_ToolCallID :: string
  msg_Name :: string
  msg_Source :: "message_source option"
  msg_Provenance :: "message_provenance option"
  msg_ToolResultMetadata :: "tool_result_metadata option"

definition zero_message :: message where
  "zero_message = \<lparr>msg_Role = [], msg_Content = [], msg_ContentParts = [], msg_FileReferences = [],
     msg_ReasoningContent = [], msg_ToolCalls = [], msg_ToolCallID = [], msg_Name = [], msg_Source = None,
     msg_Provenance = None, msg_ToolResultMetadata = None\<rparr>"

definition equal_fold :: "string \<Rightarrow> string \<Rightarrow> bool" where
  "equal_fold a b \<longleftrightarrow> to_lower a = to_lower b"

subsection \<open>Sources\<close>

definition UserMessageWithSource :: "string \<Rightarrow> string \<Rightarrow> message_source \<Rightarrow> message_provenance option \<Rightarrow> message" where
  "UserMessageWithSource content name source provenance =
     zero_message\<lparr>msg_Role := ''user'', msg_Content := content, msg_Source := Some source,
       msg_Name := (let n = trim_space name in if n \<noteq> [] then n else []), msg_Provenance := provenance\<rparr>"

definition MessageSourceForUserName :: "string \<Rightarrow> message_source \<times> message_provenance" where
  "MessageSourceForUserName name =
     (let n = trim_space name;
          mk = (\<lambda>kind form producer operation.
            (\<lparr>src_Kind = kind, src_Form = form\<rparr>,
             \<lparr>prov_Producer = producer, prov_Operation = operation, prov_Reference = []\<rparr>))
      in if n = [] \<or> n = ''human'' then mk ''user'' ''request'' ''human'' []
         else if n = ''trigger'' then mk ''trigger'' ''request'' ''trigger'' []
         else if n = ''child_task'' then mk ''child_agent'' ''relay'' ''child_task'' []
         else if n = ''context'' then mk ''runtime'' ''snapshot'' ''runtime_context'' []
         else if n = ''memory_context'' then mk ''memory'' ''snapshot'' ''memory'' []
         else if n = ''skill'' then mk ''plugin'' ''instructions'' ''skills'' []
         else if n = ''date'' then mk ''runtime'' ''notice'' ''date'' []
         else if n = ''conversation_boundary'' then mk ''runtime'' ''notice'' ''idle_context'' ''continue-from-archive''
         else if n = ''async_tool'' then mk ''async_tool'' ''relay'' ''async_tool'' []
         else if n = ''compression'' then mk ''compression'' ''summary'' ''compression'' []
         else if n = ''compression_sidecar'' then mk ''compression'' ''sidecar'' ''compression_sidecar'' []
         else if n = ''tool_vision'' then mk ''tool'' ''notice'' ''tool_vision'' []
         else mk ''user'' ''request'' n [])"

definition UserMessage :: "string \<Rightarrow> string \<Rightarrow> message" where
  "UserMessage content name =
     (case MessageSourceForUserName name of
        (source, provenance) \<Rightarrow>
          let m = UserMessageWithSource content name source (Some provenance)
          in if trim_space name = [] then m\<lparr>msg_Name := []\<rparr> else m)"

definition EffectiveMessageSource :: "message \<Rightarrow> message_source" where
  "EffectiveMessageSource m =
     (case msg_Source m of
        Some s \<Rightarrow> if trim_space (src_Kind s) \<noteq> [] then s
                  else if trim_space (msg_Role m) = ''tool'' then \<lparr>src_Kind = ''tool'', src_Form = ''tool_result''\<rparr>
                  else if trim_space (msg_Role m) = ''assistant'' then \<lparr>src_Kind = ''model'', src_Form = ''request''\<rparr>
                  else \<lparr>src_Kind = [], src_Form = []\<rparr>
      | None \<Rightarrow> if trim_space (msg_Role m) = ''tool'' then \<lparr>src_Kind = ''tool'', src_Form = ''tool_result''\<rparr>
                else if trim_space (msg_Role m) = ''assistant'' then \<lparr>src_Kind = ''model'', src_Form = ''request''\<rparr>
                else \<lparr>src_Kind = [], src_Form = []\<rparr>)"

definition EffectiveMessageProvenance :: "message \<Rightarrow> message_provenance" where
  "EffectiveMessageProvenance m =
     (case msg_Provenance m of
        Some p \<Rightarrow> p
      | None \<Rightarrow>
          if trim_space (msg_Role m) = ''tool''
          then \<lparr>prov_Producer = trim_space (msg_Name m), prov_Operation = [], prov_Reference = trim_space (msg_ToolCallID m)\<rparr>
          else if trim_space (msg_Role m) = ''assistant''
          then \<lparr>prov_Producer = ''model'', prov_Operation = [], prov_Reference = []\<rparr>
          else \<lparr>prov_Producer = [], prov_Operation = [], prov_Reference = []\<rparr>)"

definition IsMessageSource :: "message \<Rightarrow> string \<Rightarrow> string \<Rightarrow> string \<Rightarrow> bool" where
  "IsMessageSource m kind form producer =
     (if trim_space (msg_Role m) \<noteq> ''user'' \<and> kind \<noteq> ''tool'' then False
      else let source = EffectiveMessageSource m
           in if src_Kind source \<noteq> kind then False
              else if form \<noteq> [] \<and> src_Form source \<noteq> form then False
              else if trim_space producer = [] then True
              else equal_fold (trim_space (prov_Producer (EffectiveMessageProvenance m))) (trim_space producer))"

definition IsPartialAssistantMessage :: "message \<Rightarrow> bool" where
  "IsPartialAssistantMessage m \<longleftrightarrow>
     equal_fold (trim_space (msg_Role m)) ''assistant'' \<and>
     (case msg_Provenance m of None \<Rightarrow> False
      | Some p \<Rightarrow> equal_fold (trim_space (prov_Operation p)) ''partial_response'')"

definition IsHiddenInjectedUserMessage :: "message \<Rightarrow> bool" where
  "IsHiddenInjectedUserMessage m =
     (if trim_space (msg_Role m) \<noteq> ''user'' then False
      else let source = EffectiveMessageSource m; producer = prov_Producer (EffectiveMessageProvenance m);
               kind = src_Kind source
           in if kind = ''plugin'' then src_Form source = ''instructions''
              else if kind = ''runtime''
              then equal_fold producer ''date'' \<or> src_Form source = ''notice'' \<and> equal_fold producer ''idle_context''
              else if kind = ''memory'' then True
              else if kind = ''async_tool'' \<or> kind = ''compression'' then True
              else if kind = ''tool'' then equal_fold producer ''tool_vision''
              else False)"

subsection \<open>Tool results\<close>

text \<open>The status and error of a \<^verbatim>\<open>tools.ResultMetadata\<close>.\<close>

definition toolResultMetadataFromResult :: "string \<Rightarrow> tool_result_error option \<Rightarrow> tool_result_metadata" where
  "toolResultMetadataFromResult st err =
     (let s = trim_space st in \<lparr>trm_Status = (if s = [] then ''unknown'' else s), trm_Error = err\<rparr>)"

definition ToolResultMessageWithMetadata :: "string \<Rightarrow> string \<Rightarrow> string \<Rightarrow> string \<times> tool_result_error option \<Rightarrow> message" where
  "ToolResultMessageWithMetadata toolCallID name content metadata =
     zero_message\<lparr>msg_Role := ''tool'', msg_ToolCallID := trim_space toolCallID, msg_Name := trim_space name,
       msg_Content := content, msg_Source := Some \<lparr>src_Kind = ''tool'', src_Form = ''tool_result''\<rparr>,
       msg_Provenance := Some \<lparr>prov_Producer = trim_space name, prov_Operation = [], prov_Reference = trim_space toolCallID\<rparr>,
       msg_ToolResultMetadata := Some (toolResultMetadataFromResult (fst metadata) (snd metadata))\<rparr>"

definition recoveryPlaceholderErrorCode :: string where
  "recoveryPlaceholderErrorCode = ''node_restart_unknown''"

text \<open>The body is a fixed sentence for the reader; it is the parameter \<open>body\<close>.\<close>

definition RecoveryPlaceholderToolResult :: "string \<Rightarrow> tool_call \<Rightarrow> message" where
  "RecoveryPlaceholderToolResult body call =
     ToolResultMessageWithMetadata (tc_ID call) (tc_Name call) body
       (''unknown'', Some \<lparr>tre_Code = recoveryPlaceholderErrorCode,
          tre_Message = ''tool execution state is unknown after node restart'', tre_Retryable = False\<rparr>)"

definition IsRecoveryPlaceholderToolResult :: "message \<Rightarrow> bool" where
  "IsRecoveryPlaceholderToolResult m =
     (if msg_Role m \<noteq> ''tool'' then False
      else case msg_ToolResultMetadata m of
        None \<Rightarrow> False
      | Some md \<Rightarrow> trim_space (trm_Status md) = ''unknown'' \<and>
          (case trm_Error md of None \<Rightarrow> False | Some e \<Rightarrow> trim_space (tre_Code e) = recoveryPlaceholderErrorCode))"

section \<open>Validation\<close>

datatype json_class = JsonInvalid | JsonNotObject | JsonObject

record history_violation =
  hv_Code :: string
  hv_MessageIndex :: nat
  hv_ToolIndex :: nat
  hv_ToolCallID :: string
  hv_Detail :: string

definition zero_violation :: history_violation where
  "zero_violation = \<lparr>hv_Code = [], hv_MessageIndex = 0, hv_ToolIndex = 0, hv_ToolCallID = [], hv_Detail = []\<rparr>"

definition invalidHistoryError :: "history_violation list \<Rightarrow> history_violation list option" where
  "invalidHistoryError vs = (if vs = [] then None else Some vs)"

definition call_violations ::
  "(string \<Rightarrow> json_class) \<Rightarrow> nat \<Rightarrow> string list \<Rightarrow> tool_call \<Rightarrow> history_violation list" where
  "call_violations json index seen call =
     (let id = trim_space (tc_ID call); v = zero_violation\<lparr>hv_ToolIndex := index\<rparr>;
          arguments = trim_space (tc_Arguments call)
      in (if id = [] then [v\<lparr>hv_Code := ''assistant_tool_call_missing_id''\<rparr>]
          else if id \<in> set seen then [v\<lparr>hv_Code := ''assistant_tool_call_duplicate_id'', hv_ToolCallID := id\<rparr>]
          else [])
         @ (if trim_space (tc_Name call) = []
            then [v\<lparr>hv_Code := ''assistant_tool_call_missing_name'', hv_ToolCallID := id\<rparr>] else [])
         @ (if arguments = [] \<or> json arguments = JsonInvalid
            then [v\<lparr>hv_Code := ''assistant_tool_call_invalid_arguments_json'', hv_ToolCallID := id\<rparr>]
            else if json arguments = JsonNotObject
            then [v\<lparr>hv_Code := ''assistant_tool_call_arguments_not_object'', hv_ToolCallID := id\<rparr>]
            else []))"

fun calls_loop ::
  "(string \<Rightarrow> json_class) \<Rightarrow> nat \<Rightarrow> string list \<Rightarrow> tool_call list \<Rightarrow> history_violation list" where
  "calls_loop json index seen [] = []"
| "calls_loop json index seen (call # calls) =
     call_violations json index seen call @
     calls_loop json (Suc index) (if trim_space (tc_ID call) = [] then seen else trim_space (tc_ID call) # seen) calls"

definition ValidateAssistantMessage :: "(string \<Rightarrow> json_class) \<Rightarrow> message \<Rightarrow> history_violation list option" where
  "ValidateAssistantMessage json m =
     (if trim_space (msg_Role m) \<noteq> ''assistant'' \<or> msg_ToolCalls m = [] then None
      else invalidHistoryError (calls_loop json 0 [] (msg_ToolCalls m)))"

text \<open>The state of the loop: the open calls, the results seen since the last batch, the violations.\<close>

record protocol_state =
  ps_open :: "(string, nat) gomap"
  ps_seen :: "(string, nat) gomap"
  ps_violations :: "history_violation list"

definition flushOpen :: "nat \<Rightarrow> string \<Rightarrow> protocol_state \<Rightarrow> protocol_state" where
  "flushOpen messageIndex code st =
     st\<lparr>ps_violations := ps_violations st @
          map (\<lambda>(id, toolIndex). \<lparr>hv_Code = code, hv_MessageIndex = messageIndex, hv_ToolIndex = toolIndex,
                                  hv_ToolCallID = id, hv_Detail = []\<rparr>) (ps_open st),
        ps_open := []\<rparr>"

definition complete_call :: "(string \<Rightarrow> json_class) \<Rightarrow> tool_call \<Rightarrow> bool" where
  "complete_call json call \<longleftrightarrow>
     trim_space (tc_ID call) \<noteq> [] \<and> trim_space (tc_Name call) \<noteq> [] \<and>
     trim_space (tc_Arguments call) \<noteq> [] \<and> json (trim_space (tc_Arguments call)) = JsonObject"

fun open_calls :: "(string \<Rightarrow> json_class) \<Rightarrow> nat \<Rightarrow> tool_call list \<Rightarrow> (string, nat) gomap \<Rightarrow> (string, nat) gomap" where
  "open_calls json toolIndex [] op = op"
| "open_calls json toolIndex (call # calls) op =
     open_calls json (Suc toolIndex) calls
       (if complete_call json call \<and> map_of op (trim_space (tc_ID call)) = None
        then AList.update (trim_space (tc_ID call)) toolIndex op else op)"

definition add_violation :: "protocol_state \<Rightarrow> history_violation \<Rightarrow> protocol_state" where
  "add_violation st v = st\<lparr>ps_violations := ps_violations st @ [v]\<rparr>"

definition flush_if_open :: "nat \<Rightarrow> protocol_state \<Rightarrow> protocol_state" where
  "flush_if_open i st = (if ps_open st \<noteq> [] then flushOpen i ''tool_batch_unclosed_before_next_message'' st else st)"

definition protocol_step :: "(string \<Rightarrow> json_class) \<Rightarrow> nat \<Rightarrow> message \<Rightarrow> protocol_state \<Rightarrow> protocol_state" where
  "protocol_step json i m st =
     (let role = trim_space (msg_Role m); v = zero_violation\<lparr>hv_MessageIndex := i\<rparr> in
      if role = ''assistant'' then
        (let st1 = (flush_if_open i st)\<lparr>ps_seen := []\<rparr>;
             st2 = (case ValidateAssistantMessage json m of
                      None \<Rightarrow> st1
                    | Some vs \<Rightarrow> st1\<lparr>ps_violations := ps_violations st1 @ map (\<lambda>w. w\<lparr>hv_MessageIndex := i\<rparr>) vs\<rparr>)
         in st2\<lparr>ps_open := open_calls json 0 (msg_ToolCalls m) (ps_open st2)\<rparr>)
      else if role = ''tool'' then
        (let id = trim_space (msg_ToolCallID m)
         in if id = [] then add_violation st (v\<lparr>hv_Code := ''tool_result_missing_call_id''\<rparr>)
            else if map_of (ps_seen st) id \<noteq> None
            then add_violation st (v\<lparr>hv_Code := ''tool_result_duplicate'', hv_ToolCallID := id\<rparr>)
            else if map_of (ps_open st) id = None
            then add_violation st (v\<lparr>hv_Code := ''tool_result_orphan'', hv_ToolCallID := id\<rparr>)
            else st\<lparr>ps_seen := AList.update id i (ps_seen st), ps_open := AList.delete id (ps_open st)\<rparr>)
      else if role = ''user'' \<or> role = ''system'' then (flush_if_open i st)\<lparr>ps_seen := []\<rparr>
      else if role = [] then add_violation st (v\<lparr>hv_Code := ''message_role_missing''\<rparr>)
      else add_violation st (v\<lparr>hv_Code := ''message_role_unsupported'', hv_Detail := role\<rparr>))"

fun protocol_loop :: "(string \<Rightarrow> json_class) \<Rightarrow> nat \<Rightarrow> message list \<Rightarrow> protocol_state \<Rightarrow> protocol_state" where
  "protocol_loop json i [] st = (if ps_open st \<noteq> [] then flushOpen i ''tool_batch_unclosed_at_history_end'' st else st)"
| "protocol_loop json i (m # ms) st = protocol_loop json (Suc i) ms (protocol_step json i m st)"

definition ValidateToolProtocol :: "(string \<Rightarrow> json_class) \<Rightarrow> message list \<Rightarrow> history_violation list option" where
  "ValidateToolProtocol json messages =
     invalidHistoryError (ps_violations (protocol_loop json 0 messages \<lparr>ps_open = [], ps_seen = [], ps_violations = []\<rparr>))"

section \<open>The grammar of acceptable histories\<close>

definition result_id :: "message \<Rightarrow> string" where
  "result_id m = trim_space (msg_ToolCallID m)"

definition call_ids :: "message \<Rightarrow> string list" where
  "call_ids m = map (\<lambda>c. trim_space (tc_ID c)) (msg_ToolCalls m)"

definition is_tool :: "message \<Rightarrow> bool" where
  "is_tool m \<longleftrightarrow> trim_space (msg_Role m) = ''tool''"

definition is_plain :: "message \<Rightarrow> bool" where
  "is_plain m \<longleftrightarrow> trim_space (msg_Role m) = ''user'' \<or> trim_space (msg_Role m) = ''system''"

definition is_batch :: "(string \<Rightarrow> json_class) \<Rightarrow> message \<Rightarrow> bool" where
  "is_batch json m \<longleftrightarrow> trim_space (msg_Role m) = ''assistant'' \<and>
     list_all (complete_call json) (msg_ToolCalls m) \<and> distinct (call_ids m)"

inductive well_paired :: "(string \<Rightarrow> json_class) \<Rightarrow> message list \<Rightarrow> bool" for json where
  wp_Nil: "well_paired json []"
| wp_plain: "\<lbrakk>is_plain m; well_paired json ms\<rbrakk> \<Longrightarrow> well_paired json (m # ms)"
| wp_batch: "\<lbrakk>is_batch json m; list_all is_tool results; mset (map result_id results) = mset (call_ids m);
      well_paired json ms\<rbrakk> \<Longrightarrow> well_paired json (m # results @ ms)"

inductive_cases well_paired_ConsE: "well_paired json (m # ms)"

lemmas role_defs = is_tool_def is_plain_def is_batch_def

text \<open>The check without its diagnostics: the open calls \<open>O\<close> and the answered calls \<open>S\<close> as sets.\<close>

fun clean :: "(string \<Rightarrow> json_class) \<Rightarrow> string set \<Rightarrow> string set \<Rightarrow> message list \<Rightarrow> bool" where
  "clean json op seen [] \<longleftrightarrow> op = {}"
| "clean json op seen (m # ms) \<longleftrightarrow>
     (if is_tool m then result_id m \<in> op - seen \<and> clean json (op - {result_id m}) (insert (result_id m) seen) ms
      else op = {} \<and>
        (if is_plain m then clean json {} {} ms
         else is_batch json m \<and> clean json (set (call_ids m)) {} ms))"

subsection \<open>One message\<close>

lemma keys_update: "fst ` set (AList.update k v m) = insert k (fst ` set m)"
  using dom_map_of_conv_image_fst[of "AList.update k v m"] by (simp add: update_conv' dom_map_of_conv_image_fst)

lemma keys_delete: "fst ` set (AList.delete k m) = fst ` set m - {k}"
  using arg_cong[where f=set, OF delete_keys[of k m]] by simp

lemma calls_loop_Nil:
  "calls_loop json i seen calls = [] \<longleftrightarrow>
     list_all (complete_call json) calls \<and> distinct (map (\<lambda>c. trim_space (tc_ID c)) calls) \<and>
     set (map (\<lambda>c. trim_space (tc_ID c)) calls) \<inter> set seen = {}"
proof (induction calls arbitrary: i seen)
  case (Cons c cs)
  have "call_violations json i seen c = [] \<longleftrightarrow> complete_call json c \<and> trim_space (tc_ID c) \<notin> set seen"
    by (cases "json (trim_space (tc_Arguments c))") (auto simp: call_violations_def complete_call_def Let_def)
  then show ?case using Cons.IH by (auto simp: complete_call_def)
qed simp

lemma open_calls_complete:
  assumes "list_all (complete_call json) calls" "distinct (map (\<lambda>c. trim_space (tc_ID c)) calls)"
    and "set (map (\<lambda>c. trim_space (tc_ID c)) calls) \<inter> fst ` set op = {}"
  shows "fst ` set (open_calls json i calls op) = fst ` set op \<union> set (map (\<lambda>c. trim_space (tc_ID c)) calls)"
  using assms
proof (induction calls arbitrary: i op)
  case (Cons c cs)
  let ?id = "trim_space (tc_ID c)"
  have "map_of op ?id = None" using Cons.prems(3) by (simp add: map_of_eq_None_iff)
  then show ?case using Cons by (auto simp: keys_update)
qed simp

lemma ValidateAssistantMessage_None:
  "trim_space (msg_Role m) = ''assistant'' \<Longrightarrow> ValidateAssistantMessage json m = None \<longleftrightarrow> is_batch json m"
  using calls_loop_Nil[of json 0 "[]" "msg_ToolCalls m"]
  by (auto simp: ValidateAssistantMessage_def invalidHistoryError_def is_batch_def call_ids_def)

lemma ValidateAssistantMessage_Some_ne: "ValidateAssistantMessage json m = Some vs \<Longrightarrow> vs \<noteq> []"
  by (auto simp: ValidateAssistantMessage_def invalidHistoryError_def split: if_splits)

lemma step_keeps_violations: "ps_violations st \<noteq> [] \<Longrightarrow> ps_violations (protocol_step json i m st) \<noteq> []"
  by (auto simp: protocol_step_def Let_def add_violation_def flush_if_open_def flushOpen_def split: option.splits)

lemma loop_keeps_violations: "ps_violations st \<noteq> [] \<Longrightarrow> ps_violations (protocol_loop json i ms st) \<noteq> []"
  by (induction json i ms st rule: protocol_loop.induct) (auto simp: flushOpen_def step_keeps_violations)

abbreviation open_set :: "protocol_state \<Rightarrow> string set" where "open_set st \<equiv> fst ` set (ps_open st)"
abbreviation seen_set :: "protocol_state \<Rightarrow> string set" where "seen_set st \<equiv> fst ` set (ps_seen st)"

lemma step_tool:
  assumes "is_tool m" "ps_violations st = []"
  shows "ps_violations (protocol_step json i m st) = [] \<longleftrightarrow>
           result_id m \<noteq> [] \<and> result_id m \<in> open_set st - seen_set st"
    and "ps_violations (protocol_step json i m st) = [] \<Longrightarrow>
           open_set (protocol_step json i m st) = open_set st - {result_id m} \<and>
           seen_set (protocol_step json i m st) = insert (result_id m) (seen_set st)"
  using assms
  by (auto simp: protocol_step_def is_tool_def result_id_def Let_def add_violation_def map_of_eq_None_iff
      keys_update keys_delete split: if_splits)

lemma step_plain:
  assumes "is_plain m" "ps_violations st = []"
  shows "ps_violations (protocol_step json i m st) = [] \<longleftrightarrow> open_set st = {}"
    and "ps_violations (protocol_step json i m st) = [] \<Longrightarrow>
           open_set (protocol_step json i m st) = {} \<and> seen_set (protocol_step json i m st) = {}"
  using assms
  by (auto simp: protocol_step_def is_plain_def Let_def flush_if_open_def flushOpen_def split: if_splits)

lemma step_assistant:
  assumes "trim_space (msg_Role m) = ''assistant''" "ps_violations st = []"
  shows "ps_violations (protocol_step json i m st) = [] \<longleftrightarrow> open_set st = {} \<and> is_batch json m"
    and "ps_violations (protocol_step json i m st) = [] \<Longrightarrow>
           open_set (protocol_step json i m st) = set (call_ids m) \<and> seen_set (protocol_step json i m st) = {}"
proof -
  let ?v = "ValidateAssistantMessage json m"
  have v: "?v = None \<longleftrightarrow> is_batch json m" by (rule ValidateAssistantMessage_None[OF assms(1)])
  show iff: "ps_violations (protocol_step json i m st) = [] \<longleftrightarrow> open_set st = {} \<and> is_batch json m"
    using assms v ValidateAssistantMessage_Some_ne[of json m]
    by (cases ?v) (auto simp: protocol_step_def Let_def flush_if_open_def flushOpen_def)
  assume "ps_violations (protocol_step json i m st) = []"
  then have "ps_open st = []" "is_batch json m" using iff by auto
  moreover from this have "fst ` set (open_calls json 0 (msg_ToolCalls m) []) = set (call_ids m)"
    using open_calls_complete[of json "msg_ToolCalls m" "[]" 0] by (simp add: is_batch_def call_ids_def)
  ultimately show "open_set (protocol_step json i m st) = set (call_ids m) \<and> seen_set (protocol_step json i m st) = {}"
    using assms v by (simp add: protocol_step_def flush_if_open_def)
qed

lemma step_other:
  assumes "\<not> is_tool m" "\<not> is_plain m" "trim_space (msg_Role m) \<noteq> ''assistant''"
  shows "ps_violations (protocol_step json i m st) \<noteq> []"
  using assms by (auto simp: protocol_step_def Let_def add_violation_def role_defs)

subsection \<open>The whole history\<close>

lemma not_both [simp]: "is_tool m \<Longrightarrow> \<not> is_plain m" "is_tool m \<Longrightarrow> \<not> is_batch json m" "is_plain m \<Longrightarrow> \<not> is_batch json m"
  by (auto simp: role_defs)

lemma batch_ids_nonempty: "is_batch json m \<Longrightarrow> [] \<notin> set (call_ids m)"
  by (auto simp: is_batch_def call_ids_def list_all_iff complete_call_def)

lemma loop_clean:
  assumes "ps_violations st = []" "[] \<notin> open_set st"
  shows "ps_violations (protocol_loop json i ms st) = [] \<longleftrightarrow> clean json (open_set st) (seen_set st) ms"
  using assms
proof (induction ms arbitrary: i st)
  case Nil
  then show ?case by (simp add: flushOpen_def)
next
  case (Cons m ms)
  let ?st = "protocol_step json i m st"
  show ?case
  proof (cases "ps_violations ?st = []")
    case False
    have "\<not> clean json (open_set st) (seen_set st) (m # ms)"
      using False Cons.prems step_tool(1)[of m st json i] step_plain(1)[of m st json i] step_assistant(1)[of m st json i]
      by (cases "is_tool m"; cases "is_plain m") (force simp: is_batch_def)+
    then show ?thesis using False loop_keeps_violations by simp
  next
    case True
    consider "is_tool m" | "\<not> is_tool m" "is_plain m" | "\<not> is_tool m" "\<not> is_plain m" "trim_space (msg_Role m) = ''assistant''"
      using True step_other by blast
    then show ?thesis
    proof cases
      case 1
      with True Cons.prems Cons.IH[of ?st] show ?thesis
        using step_tool[OF 1 Cons.prems(1), of json i] by auto
    next
      case 2
      with True Cons.prems Cons.IH[of ?st] show ?thesis
        using step_plain[OF 2(2) Cons.prems(1), of json i] by auto
    next
      case 3
      with True Cons.prems Cons.IH[of ?st] show ?thesis
        using step_assistant[OF 3(3) Cons.prems(1), of json i] batch_ids_nonempty[of json m] by auto
    qed
  qed
qed

lemma accepted_clean: "ValidateToolProtocol json ms = None \<longleftrightarrow> clean json {} {} ms"
  using loop_clean[of "\<lparr>ps_open = [], ps_seen = [], ps_violations = []\<rparr>" json 0 ms]
  by (simp add: ValidateToolProtocol_def invalidHistoryError_def)

lemma clean_split:
  assumes "op \<inter> seen = {}" "finite op"
  shows "clean json op seen ms \<longleftrightarrow>
     (\<exists>results rest. ms = results @ rest \<and> list_all is_tool results \<and>
        mset (map result_id results) = mset_set op \<and> clean json {} {} rest)"
  using assms
proof (induction ms arbitrary: op seen)
  case Nil
  then show ?case by (auto simp: mset_set_empty_iff)
next
  case (Cons m ms)
  show ?case
  proof (cases "is_tool m")
    case False
    have "(\<exists>results rest. m # ms = results @ rest \<and> list_all is_tool results \<and>
        mset (map result_id results) = mset_set op \<and> clean json {} {} rest) \<longleftrightarrow> op = {} \<and> clean json {} {} (m # ms)"
      (is "?L \<longleftrightarrow> _")
    proof
      assume ?L
      then obtain results rest where r: "m # ms = results @ rest" "list_all is_tool results"
        "mset (map result_id results) = mset_set op" "clean json {} {} rest" by blast
      have "results = []" using r(1,2) False by (cases results) auto
      then show "op = {} \<and> clean json {} {} (m # ms)" using r Cons.prems(2) by (simp add: mset_set_empty_iff)
    qed auto
    then show ?thesis using False by simp
  next
    case True
    let ?id = "result_id m"
    have "clean json op seen (m # ms) \<longleftrightarrow> ?id \<in> op \<and> clean json (op - {?id}) (insert ?id seen) ms"
      using True Cons.prems(1) by auto
    also have "\<dots> \<longleftrightarrow> ?id \<in> op \<and> (\<exists>results rest. ms = results @ rest \<and> list_all is_tool results \<and>
        mset (map result_id results) = mset_set (op - {?id}) \<and> clean json {} {} rest)"
      using Cons.IH[of "op - {?id}" "insert ?id seen"] Cons.prems by auto
    also have "\<dots> \<longleftrightarrow> (\<exists>results rest. m # ms = results @ rest \<and> list_all is_tool results \<and>
        mset (map result_id results) = mset_set op \<and> clean json {} {} rest)" (is "?A \<longleftrightarrow> ?B")
    proof
      assume ?A
      then obtain results rest where r: "?id \<in> op" "ms = results @ rest" "list_all is_tool results"
        "mset (map result_id results) = mset_set (op - {?id})" "clean json {} {} rest" by blast
      have "m # ms = (m # results) @ rest" "list_all is_tool (m # results)"
        "mset (map result_id (m # results)) = mset_set op"
        using r True Cons.prems(2) by (simp_all add: mset_set.remove[of op])
      then show ?B using r(5) by blast
    next
      assume ?B
      then obtain results rest where r: "m # ms = results @ rest" "list_all is_tool results"
        "mset (map result_id results) = mset_set op" "clean json {} {} rest" by blast
      have "results \<noteq> []" using r(1,4) True by (cases results) auto
      then obtain rs where rs: "results = m # rs" using r(1) by (cases results) auto
      have "?id \<in># mset_set op" using r(3) rs by (metis list.set_intros(1) list.simps(9) set_mset_mset)
      then have "?id \<in> op" using Cons.prems(2) by simp
      moreover from this have "mset (map result_id rs) = mset_set (op - {?id})"
        using r(3) rs Cons.prems(2) by (simp add: mset_set.remove[of op])
      ultimately show ?A using r rs by auto
    qed
    finally show ?thesis .
  qed
qed

lemma clean_well_paired: "clean json {} {} ms \<longleftrightarrow> well_paired json ms"
proof (induction "length ms" arbitrary: ms rule: less_induct)
  case less
  show ?case
  proof (cases ms)
    case Nil
    then show ?thesis by (simp add: well_paired.intros)
  next
    case (Cons m ns)
    consider "is_tool m" | "is_plain m" | "\<not> is_tool m" "\<not> is_plain m" by blast
    then show ?thesis
    proof cases
      case 1
      then show ?thesis unfolding Cons by (auto elim: well_paired_ConsE)
    next
      case 2
      then have "\<not> is_tool m" by auto
      with 2 have "clean json {} {} ms \<longleftrightarrow> well_paired json ns" using less Cons by simp
      also have "\<dots> \<longleftrightarrow> well_paired json ms" unfolding Cons using 2 by (auto elim: well_paired_ConsE intro: wp_plain)
      finally show ?thesis .
    next
      case 3
      have eq: "clean json {} {} ms \<longleftrightarrow> is_batch json m \<and> clean json (set (call_ids m)) {} ns"
        using 3 Cons by simp
      show ?thesis
      proof (cases "is_batch json m")
        case False
        then show ?thesis using eq 3 unfolding Cons by (auto elim: well_paired_ConsE)
      next
        case True
        then have ids: "mset_set (set (call_ids m)) = mset (call_ids m)" by (simp add: is_batch_def mset_set_set)
        have IH: "clean json {} {} rest \<longleftrightarrow> well_paired json rest" if "ns = results @ rest" for results rest
          using less[of rest] Cons that by simp
        have "clean json {} {} ms \<longleftrightarrow> clean json (set (call_ids m)) {} ns" using eq True by (simp only: simp_thms)
        also have "\<dots> \<longleftrightarrow> (\<exists>results rest. ns = results @ rest \<and> list_all is_tool results \<and>
            mset (map result_id results) = mset (call_ids m) \<and> clean json {} {} rest)"
          using clean_split[of "set (call_ids m)" "{}" json ns] by (simp only: ids finite_set Int_empty_right simp_thms)
        also have "\<dots> \<longleftrightarrow> (\<exists>results rest. ns = results @ rest \<and> list_all is_tool results \<and>
            mset (map result_id results) = mset (call_ids m) \<and> well_paired json rest)"
          using IH by blast
        also have "\<dots> \<longleftrightarrow> well_paired json ms"
          unfolding Cons using 3 True by (auto elim!: well_paired_ConsE intro: wp_batch)
        finally show ?thesis .
      qed
    qed
  qed
qed

text \<open>
  C18. The one-pass check of a message history accepts exactly the grammar: user and system messages, and
  assistant messages whose tool calls are complete and pairwise different, each directly followed by exactly one
  result per call, in any order.
\<close>

theorem protocol_accepts_grammar:
  "ValidateToolProtocol json messages = None \<longleftrightarrow> well_paired json messages"
  by (simp add: accepted_clean clean_well_paired)

end
