(* ===== verification/History.thy ===== *)
theory History
  imports Tool_Protocol
begin

text \<open>
  Writing to the message history: \<^verbatim>\<open>turn/history_write.go\<close>, \<^verbatim>\<open>turn/cancel_partial.go\<close>,
  \<^verbatim>\<open>turn/task_complete.go\<close>, the tail classification of \<^verbatim>\<open>turn/tool_result_messages.go\<close>,
  \<^verbatim>\<open>CancelPendingToolCalls\<close> of \<^verbatim>\<open>turn/orchestrator.go\<close>.

  A \<open>turn_log\<close> holds what these functions change: the history, the audit journal (\<open>None\<close> when there is none) and
  the tool results published to clients. Normalising a message for storage copies it in every adapter
  of \<^verbatim>\<open>llm\<close>, so it is the identity here. The classification of a result body
  (\<^verbatim>\<open>tools.ClassifyResult\<close>) is the parameter \<open>classify\<close>; it only fills the metadata of the message.

  A write to a nil map panics in Go: the functions that may do so return \<open>None\<close> then.

  \<open>cancel_closes_batch\<close> and \<open>interrupted_batch_closed\<close> show that the two ways in which an interrupted tool batch is
  closed leave a history that the model accepts.
\<close>

section \<open>The log\<close>

type_synonym classifier = "string \<Rightarrow> string \<Rightarrow> bool \<Rightarrow> string \<times> tool_result_error option"

record published_result =
  pub_ToolCall :: tool_call
  pub_Content :: string
  pub_FailureHint :: bool

record turn_log =
  tl_history :: "message list"
  tl_journal :: "message list option"
  tl_published :: "published_result list"

definition ToolResultMessage :: "classifier \<Rightarrow> string \<Rightarrow> string \<Rightarrow> string \<Rightarrow> message" where
  "ToolResultMessage classify toolCallID name content =
     ToolResultMessageWithMetadata toolCallID name content (classify name content False)"

definition publishToolResult :: "tool_call \<Rightarrow> string \<Rightarrow> bool \<Rightarrow> turn_log \<Rightarrow> turn_log" where
  "publishToolResult tc content failureHint l =
     l\<lparr>tl_published := tl_published l @ [\<lparr>pub_ToolCall = tc, pub_Content = content, pub_FailureHint = failureHint\<rparr>]\<rparr>"

definition journal_record :: "message \<Rightarrow> turn_log \<Rightarrow> turn_log" where
  "journal_record m l = l\<lparr>tl_journal := map_option (\<lambda>j. j @ [m]) (tl_journal l)\<rparr>"

fun replace_placeholder :: "message \<Rightarrow> message list \<Rightarrow> message list option" where
  "replace_placeholder m [] = None"
| "replace_placeholder m (x # xs) =
     (if msg_Role x = ''tool'' \<and> msg_ToolCallID x = msg_ToolCallID m \<and> IsRecoveryPlaceholderToolResult x
      then Some (m # xs) else map_option (Cons x) (replace_placeholder m xs))"

definition replaceRecoveryPlaceholder :: "message list \<Rightarrow> message \<Rightarrow> message list option" where
  "replaceRecoveryPlaceholder history m =
     (if msg_Role m \<noteq> ''tool'' \<or> trim_space (msg_ToolCallID m) = [] then None else replace_placeholder m history)"

definition appendHistory :: "message \<Rightarrow> turn_log \<Rightarrow> turn_log" where
  "appendHistory m l =
     (case replaceRecoveryPlaceholder (tl_history l) m of
        Some h \<Rightarrow> journal_record m (l\<lparr>tl_history := h\<rparr>)
      | None \<Rightarrow> journal_record m (l\<lparr>tl_history := tl_history l @ [m]\<rparr>))"

definition insert_at :: "int \<Rightarrow> 'a \<Rightarrow> 'a list \<Rightarrow> 'a list" where
  "insert_at index x xs =
     (let i = (if index < 0 then 0 else if index > int (length xs) then length xs else nat index)
      in take i xs @ [x] @ drop i xs)"

definition insertHistory :: "int \<Rightarrow> message \<Rightarrow> turn_log \<Rightarrow> turn_log" where
  "insertHistory index m l =
     (case replaceRecoveryPlaceholder (tl_history l) m of
        Some h \<Rightarrow> journal_record m (l\<lparr>tl_history := h\<rparr>)
      | None \<Rightarrow> journal_record m (l\<lparr>tl_history := insert_at index m (tl_history l)\<rparr>))"

section \<open>Unanswered tool calls\<close>

definition lastAssistantIndex :: "message list \<Rightarrow> nat option" where
  "lastAssistantIndex ms = find (\<lambda>i. msg_Role (ms ! i) = ''assistant'') (rev [0..<length ms])"

text \<open>The answered call ids as a map that is nil without an assistant message.\<close>

definition toolResponsesAfterLastAssistant :: "message list \<Rightarrow> string list option" where
  "toolResponsesAfterLastAssistant ms =
     (case lastAssistantIndex ms of
        None \<Rightarrow> None
      | Some i \<Rightarrow> Some (map msg_ToolCallID
          (filter (\<lambda>m. msg_Role m = ''tool'' \<and> trim_space (msg_ToolCallID m) \<noteq> [] \<and> \<not> IsRecoveryPlaceholderToolResult m)
             (drop (Suc i) ms))))"

definition answered_in :: "string list option \<Rightarrow> string \<Rightarrow> bool" where
  "answered_in answered callID = (case answered of None \<Rightarrow> False | Some ids \<Rightarrow> callID \<in> set ids)"

definition unrespondedToolCallsAfterLastAssistant :: "message list \<Rightarrow> tool_call list" where
  "unrespondedToolCallsAfterLastAssistant ms =
     (case lastAssistantIndex ms of
        None \<Rightarrow> []
      | Some i \<Rightarrow> filter (\<lambda>tc. \<not> answered_in (toolResponsesAfterLastAssistant ms) (tc_ID tc)) (msg_ToolCalls (ms ! i)))"

definition isCompleteToolCall :: "(string \<Rightarrow> json_class) \<Rightarrow> tool_call \<Rightarrow> bool" where
  "isCompleteToolCall json call \<longleftrightarrow>
     ValidateAssistantMessage json (zero_message\<lparr>msg_Role := ''assistant'', msg_ToolCalls := [call]\<rparr>) = None"

fun insert_missing ::
  "(string \<Rightarrow> json_class) \<Rightarrow> classifier \<Rightarrow> string \<Rightarrow> tool_call list \<Rightarrow> string list \<Rightarrow> int \<Rightarrow> bool \<Rightarrow> turn_log \<Rightarrow> bool \<times> turn_log"
where
  "insert_missing json classify content [] answered insertAt added l = (added, l)"
| "insert_missing json classify content (tc # calls) answered insertAt added l =
     (if \<not> isCompleteToolCall json tc \<or> tc_ID tc \<in> set answered
      then insert_missing json classify content calls answered insertAt added l
      else insert_missing json classify content calls (tc_ID tc # answered) (insertAt + 1) True
             (insertHistory insertAt (ToolResultMessage classify (tc_ID tc) (tc_Name tc) content)
                (publishToolResult tc content False l)))"

definition insertMissingToolResponsesAfterAssistant ::
  "(string \<Rightarrow> json_class) \<Rightarrow> classifier \<Rightarrow> tool_call list \<Rightarrow> string \<Rightarrow> turn_log \<Rightarrow> bool \<times> turn_log" where
  "insertMissingToolResponsesAfterAssistant json classify calls content l =
     (case (lastAssistantIndex (tl_history l), toolResponsesAfterLastAssistant (tl_history l)) of
        (Some i, Some answered) \<Rightarrow>
          if calls = [] then (False, l)
          else insert_missing json classify content calls answered (int i + 1) False l
      | _ \<Rightarrow> (False, l))"

fun append_missing ::
  "(string \<Rightarrow> json_class) \<Rightarrow> classifier \<Rightarrow> string \<Rightarrow> tool_call list \<Rightarrow> string list option \<Rightarrow> turn_log \<Rightarrow> turn_log option"
where
  "append_missing json classify content [] answered l = Some l"
| "append_missing json classify content (tc # calls) answered l =
     (if \<not> isCompleteToolCall json tc \<or> answered_in answered (tc_ID tc)
      then append_missing json classify content calls answered l
      else case answered of
             None \<Rightarrow> None
           | Some ids \<Rightarrow>
               append_missing json classify content calls (Some (tc_ID tc # ids))
                 (appendHistory (ToolResultMessage classify (tc_ID tc) (tc_Name tc) content)
                    (publishToolResult tc content False l)))"

definition appendMissingToolResponses ::
  "(string \<Rightarrow> json_class) \<Rightarrow> classifier \<Rightarrow> tool_call list \<Rightarrow> string \<Rightarrow> turn_log \<Rightarrow> turn_log option" where
  "appendMissingToolResponses json classify calls content l =
     append_missing json classify content calls (toolResponsesAfterLastAssistant (tl_history l)) l"

section \<open>Phases\<close>

datatype tail_kind = TailTool | TailAssistantWithToolCalls | TailAssistantWithoutToolCalls | TailOther

definition classifyToolResultTail :: "message list \<Rightarrow> tail_kind" where
  "classifyToolResultTail ms =
     (if ms = [] then TailOther
      else if msg_Role (last ms) = ''tool'' then TailTool
      else if msg_Role (last ms) = ''assistant''
      then (if msg_ToolCalls (last ms) \<noteq> [] then TailAssistantWithToolCalls else TailAssistantWithoutToolCalls)
      else TailOther)"

datatype task_phase = TaskPhaseComplete | TaskPhaseAwaitingHITL | TaskPhaseToolLoop | TaskPhaseOpenBatch | TaskPhaseOther

text \<open>The pending interaction only matters by its presence.\<close>

definition TaskPhaseOf :: "message list \<Rightarrow> bool \<Rightarrow> task_phase" where
  "TaskPhaseOf ms pending =
     (if pending then TaskPhaseAwaitingHITL
      else if unrespondedToolCallsAfterLastAssistant ms \<noteq> [] then TaskPhaseOpenBatch
      else case classifyToolResultTail ms of
             TailAssistantWithoutToolCalls \<Rightarrow> TaskPhaseComplete
           | TailTool \<Rightarrow> TaskPhaseToolLoop
           | TailAssistantWithToolCalls \<Rightarrow> TaskPhaseOpenBatch
           | TailOther \<Rightarrow> TaskPhaseOther)"

definition TaskComplete :: "message list \<Rightarrow> bool \<Rightarrow> bool" where
  "TaskComplete ms pending \<longleftrightarrow> TaskPhaseOf ms pending = TaskPhaseComplete"

text \<open>The default text is a fixed sentence for the reader, the parameter \<open>interrupted\<close>.\<close>

definition CancelPendingToolCalls ::
  "(string \<Rightarrow> json_class) \<Rightarrow> classifier \<Rightarrow> string \<Rightarrow> tool_call list option \<Rightarrow> string \<Rightarrow> turn_log \<Rightarrow> turn_log" where
  "CancelPendingToolCalls json classify interrupted pending text l =
     (case pending of
        None \<Rightarrow> l
      | Some calls \<Rightarrow>
          let m = trim_space text
          in snd (insertMissingToolResponsesAfterAssistant json classify calls (if m = [] then interrupted else m) l))"

section \<open>An interrupted batch\<close>

text \<open>
  A history whose last batch \<open>a\<close> is still open: \<open>rs\<close> are the results it has so far, \<open>post\<close> holds only user
  and system messages. Recovery placeholders may only stand for calls of this batch, and the tool call
  ids carry no surrounding blanks (the code compares them untrimmed).
\<close>

definition trimmed :: "string \<Rightarrow> bool" where
  "trimmed s \<longleftrightarrow> trim_space s = s"

definition results_ok :: "message \<Rightarrow> message list \<Rightarrow> bool" where
  "results_ok a rs \<longleftrightarrow> (\<forall>r\<in>set rs. msg_Role r = ''tool'' \<and> trimmed (msg_ToolCallID r)) \<and>
     distinct (map msg_ToolCallID rs) \<and> set (map msg_ToolCallID rs) \<subseteq> set (call_ids a)"

definition open_batch :: "(string \<Rightarrow> json_class) \<Rightarrow> message list \<Rightarrow> message \<Rightarrow> message list \<Rightarrow> message list \<Rightarrow> bool" where
  "open_batch json pre a rs post \<longleftrightarrow>
     well_paired json pre \<and> (\<forall>m\<in>set pre. \<not> IsRecoveryPlaceholderToolResult m) \<and>
     is_batch json a \<and> msg_Role a = ''assistant'' \<and> (\<forall>c\<in>set (msg_ToolCalls a). trimmed (tc_ID c)) \<and>
     results_ok a rs \<and> (\<forall>m\<in>set post. is_plain m \<and> msg_Role m \<noteq> ''assistant'' \<and> msg_Role m \<noteq> ''tool'')"

subsection \<open>Finding the batch\<close>

lemma find_rev_upt:
  assumes "P i" "i < n" "\<And>j. i < j \<Longrightarrow> j < n \<Longrightarrow> \<not> P j"
  shows "find P (rev [0..<n]) = Some i"
  using assms
proof (induction n)
  case (Suc n)
  show ?case
  proof (cases "i = n")
    case False
    then have "i < n" "\<not> P n" using Suc.prems by auto
    moreover have "find P (rev [0..<n]) = Some i" by (rule Suc.IH) (use Suc.prems \<open>i < n\<close> in auto)
    ultimately show ?thesis by simp
  qed (use Suc.prems in simp)
qed simp

lemma lastAssistantIndex_app:
  assumes "msg_Role a = ''assistant''" "\<forall>m\<in>set ms. msg_Role m \<noteq> ''assistant''"
  shows "lastAssistantIndex (pre @ a # ms) = Some (length pre)"
  unfolding lastAssistantIndex_def
proof (rule find_rev_upt)
  fix j assume "length pre < j" "j < length (pre @ a # ms)"
  then have "(pre @ a # ms) ! j = ms ! (j - length pre - 1)" "j - length pre - 1 < length ms"
    by (auto simp: nth_append)
  then show "msg_Role ((pre @ a # ms) ! j) \<noteq> ''assistant''" using assms(2) by auto
qed (use assms in auto)

lemma complete_call_complete: "isCompleteToolCall json call \<longleftrightarrow> complete_call json call"
proof -
  let ?m = "zero_message\<lparr>msg_Role := ''assistant'', msg_ToolCalls := [call]\<rparr>"
  have "trim_space (msg_Role ?m) = ''assistant''" by (simp add: go_eval)
  from ValidateAssistantMessage_None[OF this] show ?thesis
    by (simp add: isCompleteToolCall_def is_batch_def call_ids_def go_eval)
qed

subsection \<open>Writing one result\<close>

lemma replace_placeholder_None:
  "replace_placeholder m h = None \<longleftrightarrow>
     \<not> (\<exists>x\<in>set h. msg_Role x = ''tool'' \<and> msg_ToolCallID x = msg_ToolCallID m \<and> IsRecoveryPlaceholderToolResult x)"
  by (induction h) auto

lemma replace_placeholder_app:
  "\<forall>x\<in>set pre. \<not> IsRecoveryPlaceholderToolResult x \<Longrightarrow>
     replace_placeholder m (pre @ h) = map_option (\<lambda>h'. pre @ h') (replace_placeholder m h)"
  by (induction pre; cases "replace_placeholder m h") auto

lemma replace_placeholder_Some:
  assumes "replace_placeholder m h = Some h'"
  obtains xs x ys where "h = xs @ x # ys" "h' = xs @ m # ys" "msg_Role x = ''tool''"
    "msg_ToolCallID x = msg_ToolCallID m" "IsRecoveryPlaceholderToolResult x"
  using assms
proof (induction h arbitrary: h' thesis)
  case (Cons z h)
  show ?case
  proof (cases "msg_Role z = ''tool'' \<and> msg_ToolCallID z = msg_ToolCallID m \<and> IsRecoveryPlaceholderToolResult z")
    case True
    then show ?thesis using Cons.prems(1)[of "[]" z h] Cons.prems(2) by auto
  next
    case False
    then obtain h'' where "replace_placeholder m h = Some h''" "h' = z # h''" using Cons.prems(2) by auto
    then show ?thesis using Cons.IH[of h''] Cons.prems(1) by (metis append_Cons)
  qed
qed simp

lemma replace_placeholder_snoc:
  assumes "\<forall>x\<in>set post. msg_Role x \<noteq> ''tool''"
  shows "replace_placeholder m (h @ post) = map_option (\<lambda>h'. h' @ post) (replace_placeholder m h)"
proof (induction h)
  case Nil
  then show ?case using assms by (simp add: replace_placeholder_None)
qed (auto simp: option.map_comp o_def)

lemma result_message:
  assumes "trimmed i"
  shows "msg_Role (ToolResultMessage classify i n c) = ''tool''"
    and "msg_ToolCallID (ToolResultMessage classify i n c) = i"
  using assms by (simp_all add: ToolResultMessage_def ToolResultMessageWithMetadata_def trimmed_def)

text \<open>
  While the missing results are written, \<open>answered\<close> holds only ids that have a result, and every other result is
  a placeholder waiting to be replaced.
\<close>

definition block_inv :: "message \<Rightarrow> message list \<Rightarrow> string list \<Rightarrow> bool" where
  "block_inv a rs answered \<longleftrightarrow> results_ok a rs \<and> set answered \<subseteq> set (map msg_ToolCallID rs) \<and>
     (\<forall>r\<in>set rs. msg_ToolCallID r \<notin> set answered \<longrightarrow> IsRecoveryPlaceholderToolResult r)"

lemma open_batchD:
  assumes "open_batch json pre a rs post"
  shows "\<forall>m\<in>set pre. \<not> IsRecoveryPlaceholderToolResult m" "msg_Role a = ''assistant''"
    "\<forall>m\<in>set post. msg_Role m \<noteq> ''tool''" "is_batch json a" "well_paired json pre" "\<forall>m\<in>set post. is_plain m"
    "\<forall>m\<in>set (rs @ post). msg_Role m \<noteq> ''assistant''"
  using assms by (auto simp: open_batch_def results_ok_def)

lemma replace_in_block:
  assumes "open_batch json pre a rs0 post"
  shows "replace_placeholder m (pre @ a # rs @ post) =
     map_option (\<lambda>rs'. pre @ a # rs' @ post) (replace_placeholder m rs)"
proof -
  have "replace_placeholder m (pre @ (a # rs) @ post) =
      map_option (\<lambda>h. pre @ h) (map_option (\<lambda>h. h @ post) (replace_placeholder m (a # rs)))"
    by (simp only: replace_placeholder_app[OF open_batchD(1)[OF assms]] replace_placeholder_snoc[OF open_batchD(3)[OF assms]])
  then show ?thesis using open_batchD(2)[OF assms] by (simp add: option.map_comp o_def)
qed

lemma write_replaced:
  assumes inv: "block_inv a rs answered" and m: "msg_Role m = ''tool''" "trimmed (msg_ToolCallID m)"
    and new: "replace_placeholder m rs = Some rs'"
  shows "block_inv a rs' (msg_ToolCallID m # answered)" "length rs' = length rs"
proof -
  obtain xs x ys where x: "rs = xs @ x # ys" "rs' = xs @ m # ys" "msg_ToolCallID x = msg_ToolCallID m"
    using replace_placeholder_Some[OF new] by metis
  then show "length rs' = length rs" by simp
  have ids: "map msg_ToolCallID rs' = map msg_ToolCallID rs" using x by simp
  show "block_inv a rs' (msg_ToolCallID m # answered)"
    using inv m x unfolding block_inv_def results_ok_def ids by auto
qed

lemma write_new:
  assumes inv: "block_inv a (us @ vs) answered" and m: "msg_Role m = ''tool''" "trimmed (msg_ToolCallID m)"
    and call: "msg_ToolCallID m \<in> set (call_ids a)" "msg_ToolCallID m \<notin> set answered"
    and new: "replace_placeholder m (us @ vs) = None"
  shows "block_inv a (us @ m # vs) (msg_ToolCallID m # answered)"
proof -
  have "msg_ToolCallID m \<notin> set (map msg_ToolCallID (us @ vs))"
    using inv new call(2) unfolding replace_placeholder_None block_inv_def results_ok_def by auto
  then show ?thesis using inv m call(1) unfolding block_inv_def results_ok_def by auto
qed

lemma block_complete:
  assumes inv: "block_inv a rs answered" "set (call_ids a) \<subseteq> set answered" and ob: "open_batch json pre a rs0 post"
  shows "well_paired json (pre @ a # rs @ post)"
proof -
  have "set (map msg_ToolCallID rs) = set (call_ids a)" "distinct (map msg_ToolCallID rs)" "distinct (call_ids a)"
    using inv open_batchD(4)[OF ob] by (auto simp: block_inv_def results_ok_def is_batch_def)
  then have "mset (map msg_ToolCallID rs) = mset (call_ids a)" by (metis set_eq_iff_mset_eq_distinct)
  moreover have ids: "map result_id rs = map msg_ToolCallID rs" and tools: "list_all is_tool rs"
    using inv(1) by (auto simp: block_inv_def results_ok_def trimmed_def result_id_def is_tool_def list_all_iff go_eval)
  moreover have "well_paired json post" using open_batchD(6)[OF ob] by (induction post) (auto intro: well_paired.intros)
  ultimately have *: "well_paired json (a # rs @ post)"
    by (intro wp_batch[OF open_batchD(4)[OF ob] tools]) (simp_all only: ids)
  from open_batchD(5)[OF ob] show ?thesis
  proof (induction pre rule: well_paired.induct)
    case wp_Nil
    then show ?case using * by simp
  next
    case (wp_plain m ms)
    then show ?case by (simp add: well_paired.wp_plain)
  next
    case (wp_batch m results ms)
    then show ?case using well_paired.wp_batch[of json m results "ms @ a # rs @ post"] by simp
  qed
qed

subsection \<open>The loops\<close>

lemma history_journal [simp]:
  "tl_history (journal_record m l) = tl_history l" "tl_published (journal_record m l) = tl_published l"
  "tl_history (publishToolResult tc c f l) = tl_history l"
  by (simp_all add: journal_record_def publishToolResult_def)

lemma published_write [simp]:
  "tl_published (appendHistory m l) = tl_published l" "tl_published (insertHistory i m l) = tl_published l"
  by (simp_all add: appendHistory_def insertHistory_def journal_record_def split: option.split)

lemma answered_le: "block_inv a rs answered \<Longrightarrow> card (set answered) \<le> length rs"
  by (metis block_inv_def card_mono finite_set length_map distinct_card results_ok_def)

lemma insert_at_nat: "n \<le> length xs \<Longrightarrow> insert_at (int n) x xs = take n xs @ [x] @ drop n xs"
  by (simp add: insert_at_def)

text \<open>Writing the result of an unanswered call of the batch, at any place of the block.\<close>

lemma insert_one:
  assumes ob: "open_batch json pre a rs0 post" and inv: "block_inv a rs answered"
    and call: "trimmed i" "i \<noteq> []" "i \<in> set (call_ids a)" "i \<notin> set answered"
    and h: "tl_history l = pre @ a # rs @ post" and k: "k \<le> length rs"
    and m: "m = ToolResultMessage classify i n c"
  obtains rs' where "tl_history (insertHistory (int (length pre + 1 + k)) m l) = pre @ a # rs' @ post"
    "block_inv a rs' (i # answered)"
proof -
  have mi: "msg_Role m = ''tool''" "msg_ToolCallID m = i" using call(1) m by (simp_all add: result_message)
  have rep: "replaceRecoveryPlaceholder (tl_history l) m = map_option (\<lambda>rs'. pre @ a # rs' @ post) (replace_placeholder m rs)"
    using mi call h replace_in_block[OF ob] by (simp add: replaceRecoveryPlaceholder_def trimmed_def)
  show thesis
  proof (cases "replace_placeholder m rs")
    case (Some rs')
    then show thesis using rep write_replaced(1)[OF inv mi(1) _ Some] mi call that by (simp add: insertHistory_def)
  next
    case None
    let ?rs' = "take k rs @ m # drop k rs"
    have "insert_at (int (length pre + 1 + k)) m (pre @ a # rs @ post) = pre @ a # ?rs' @ post"
      using k by (subst insert_at_nat) simp_all
    moreover have "block_inv a ?rs' (i # answered)"
      using write_new[of a "take k rs" "drop k rs" answered m] inv mi call None by simp
    ultimately show thesis using rep None h that by (simp add: insertHistory_def)
  qed
qed

lemma append_is_insert:
  "appendHistory m l = insertHistory (int (length (tl_history l))) m l"
  by (simp add: appendHistory_def insertHistory_def insert_at_nat split: option.split)

definition to_answer :: "(string \<Rightarrow> json_class) \<Rightarrow> string list \<Rightarrow> tool_call list \<Rightarrow> tool_call list" where
  "to_answer json answered calls = filter (\<lambda>c. complete_call json c \<and> tc_ID c \<notin> set answered) calls"

definition result_event :: "string \<Rightarrow> tool_call \<Rightarrow> published_result" where
  "result_event content c = \<lparr>pub_ToolCall = c, pub_Content = content, pub_FailureHint = False\<rparr>"

text \<open>Both loops, with the place of the next result as a function of the number written and of the log.\<close>

fun fill ::
  "(string \<Rightarrow> json_class) \<Rightarrow> classifier \<Rightarrow> string \<Rightarrow> (nat \<Rightarrow> turn_log \<Rightarrow> int) \<Rightarrow> nat \<Rightarrow> tool_call list \<Rightarrow> string list \<Rightarrow> turn_log \<Rightarrow> turn_log"
where
  "fill json classify content pos n [] answered l = l"
| "fill json classify content pos n (tc # calls) answered l =
     (if \<not> complete_call json tc \<or> tc_ID tc \<in> set answered then fill json classify content pos n calls answered l
      else fill json classify content pos (Suc n) calls (tc_ID tc # answered)
             (insertHistory (pos n l) (ToolResultMessage classify (tc_ID tc) (tc_Name tc) content)
                (publishToolResult tc content False l)))"

lemma insert_missing_fill:
  "snd (insert_missing json classify content calls answered (base + int n) b l) =
     fill json classify content (\<lambda>n l. base + int n) n calls answered l"
proof (induction calls arbitrary: answered n b l)
  case (Cons tc calls)
  then show ?case using Cons.IH[of "tc_ID tc # answered" "Suc n" True] Cons.IH[of answered n b]
    by (simp add: complete_call_complete add.assoc add.commute[of 1])
qed simp

lemma append_missing_fill:
  "append_missing json classify content calls (Some answered) l =
     Some (fill json classify content (\<lambda>n l. int (length (tl_history l))) n calls answered l)"
  by (induction calls arbitrary: answered n l)
    (simp_all add: complete_call_complete append_is_insert answered_in_def)

lemma fill_closes:
  assumes ob: "open_batch json pre a rs0 post" and "block_inv a rs answered"
    and "\<forall>c\<in>set calls. trimmed (tc_ID c) \<and> tc_ID c \<in> set (call_ids a)" "distinct (map tc_ID calls)"
    and "tl_history l = pre @ a # rs @ post" "n \<le> card (set answered)"
    and pos: "\<And>n l rs. tl_history l = pre @ a # rs @ post \<Longrightarrow> n \<le> length rs \<Longrightarrow>
       \<exists>k\<le>length rs. pos n l = int (length pre + 1 + k)"
  shows "\<exists>rs' answered'.
     tl_history (fill json classify content pos n calls answered l) = pre @ a # rs' @ post \<and>
     tl_published (fill json classify content pos n calls answered l) =
       tl_published l @ map (result_event content) (to_answer json answered calls) \<and>
     block_inv a rs' answered' \<and> set answered' = set answered \<union> tc_ID ` {c \<in> set calls. complete_call json c}"
  using assms(2-6)
proof (induction calls arbitrary: rs answered l n)
  case Nil
  then show ?case by (auto simp: to_answer_def)
next
  case (Cons tc calls)
  show ?case
  proof (cases "complete_call json tc \<and> tc_ID tc \<notin> set answered")
    case False
    have ext: "set answered \<union> tc_ID ` {c \<in> set (tc # calls). complete_call json c} =
      set answered \<union> tc_ID ` {c \<in> set calls. complete_call json c}"
      "to_answer json answered (tc # calls) = to_answer json answered calls"
      "fill json classify content pos n (tc # calls) answered l = fill json classify content pos n calls answered l"
      using False by (auto simp: to_answer_def)
    show ?thesis unfolding ext by (rule Cons.IH[OF Cons.prems(1) _ _ Cons.prems(4,5)]) (use Cons.prems in auto)
  next
    case True
    let ?l1 = "insertHistory (pos n l) (ToolResultMessage classify (tc_ID tc) (tc_Name tc) content) (publishToolResult tc content False l)"
    have call: "trimmed (tc_ID tc)" "tc_ID tc \<noteq> []" "tc_ID tc \<in> set (call_ids a)" "tc_ID tc \<notin> set answered"
      using Cons.prems True by (auto simp: trimmed_def complete_call_def)
    have "n \<le> length rs" using answered_le[OF Cons.prems(1)] Cons.prems(5) by simp
    then obtain k where k: "k \<le> length rs" "pos n l = int (length pre + 1 + k)" using pos[OF Cons.prems(4)] by blast
    have h: "tl_history (publishToolResult tc content False l) = pre @ a # rs @ post" using Cons.prems(4) by simp
    obtain rs1 where rs1: "tl_history ?l1 = pre @ a # rs1 @ post" "block_inv a rs1 (tc_ID tc # answered)"
      unfolding k(2) using insert_one[OF ob Cons.prems(1) call h k(1) refl] by metis
    have n1: "Suc n \<le> card (set (tc_ID tc # answered))" using call Cons.prems(5) by simp
    have ext: "set answered \<union> tc_ID ` {c \<in> set (tc # calls). complete_call json c} =
      set (tc_ID tc # answered) \<union> tc_ID ` {c \<in> set calls. complete_call json c}" using True by auto
    have fresh: "to_answer json (tc_ID tc # answered) calls = to_answer json answered calls"
      using Cons.prems(3) by (auto simp: to_answer_def image_iff intro!: filter_cong)
    have pub: "tl_published l @ map (result_event content) (to_answer json answered (tc # calls)) =
      tl_published ?l1 @ map (result_event content) (to_answer json (tc_ID tc # answered) calls)"
      unfolding fresh using True by (simp add: to_answer_def publishToolResult_def result_event_def)
    have eq: "fill json classify content pos n (tc # calls) answered l =
      fill json classify content pos (Suc n) calls (tc_ID tc # answered) ?l1" using True by simp
    show ?thesis unfolding eq ext pub by (rule Cons.IH[OF rs1(2) _ _ rs1(1) n1]) (use Cons.prems in auto)
  qed
qed

subsection \<open>Closing the batch\<close>

definition answered_ids :: "message list \<Rightarrow> string list" where
  "answered_ids rs = map msg_ToolCallID
     (filter (\<lambda>m. msg_Role m = ''tool'' \<and> trim_space (msg_ToolCallID m) \<noteq> [] \<and> \<not> IsRecoveryPlaceholderToolResult m) rs)"

lemma open_batch_lookup:
  assumes "open_batch json pre a rs post"
  shows "lastAssistantIndex (pre @ a # rs @ post) = Some (length pre)"
    and "toolResponsesAfterLastAssistant (pre @ a # rs @ post) = Some (answered_ids rs)"
    and "unrespondedToolCallsAfterLastAssistant (pre @ a # rs @ post) =
           filter (\<lambda>c. tc_ID c \<notin> set (answered_ids rs)) (msg_ToolCalls a)"
proof -
  show i: "lastAssistantIndex (pre @ a # rs @ post) = Some (length pre)"
    by (rule lastAssistantIndex_app[OF open_batchD(2,7)[OF assms]])
  have "answered_ids post = []" using open_batchD(3)[OF assms] by (auto simp: answered_ids_def filter_empty_conv)
  then show r: "toolResponsesAfterLastAssistant (pre @ a # rs @ post) = Some (answered_ids rs)"
    using i by (simp add: toolResponsesAfterLastAssistant_def answered_ids_def)
  show "unrespondedToolCallsAfterLastAssistant (pre @ a # rs @ post) =
      filter (\<lambda>c. tc_ID c \<notin> set (answered_ids rs)) (msg_ToolCalls a)"
    unfolding unrespondedToolCallsAfterLastAssistant_def r i by (simp add: answered_in_def)
qed

lemma open_batch_inv:
  assumes "open_batch json pre a rs post"
  shows "block_inv a rs (answered_ids rs)"
proof -
  have ok: "results_ok a rs" using assms by (simp add: open_batch_def)
  have "trim_space (msg_ToolCallID r) \<noteq> []" if "r \<in> set rs" for r
    using that ok batch_ids_nonempty[OF open_batchD(4)[OF assms]] by (auto simp: results_ok_def trimmed_def)
  then show ?thesis using ok by (auto simp: block_inv_def answered_ids_def results_ok_def)
qed

lemma open_batch_calls:
  assumes "open_batch json pre a rs post"
  shows "\<forall>c\<in>set (msg_ToolCalls a). trimmed (tc_ID c) \<and> tc_ID c \<in> set (call_ids a) \<and> complete_call json c"
    and "distinct (map tc_ID (msg_ToolCalls a))" "call_ids a = map tc_ID (msg_ToolCalls a)"
proof -
  have t: "\<forall>c\<in>set (msg_ToolCalls a). trim_space (tc_ID c) = tc_ID c" and b: "is_batch json a"
    using assms by (auto simp: open_batch_def trimmed_def)
  show ids: "call_ids a = map tc_ID (msg_ToolCalls a)" using t by (simp add: call_ids_def)
  show "distinct (map tc_ID (msg_ToolCalls a))" using b ids by (simp add: is_batch_def)
  show "\<forall>c\<in>set (msg_ToolCalls a). trimmed (tc_ID c) \<and> tc_ID c \<in> set (call_ids a) \<and> complete_call json c"
    using t b ids by (simp add: is_batch_def list_all_iff trimmed_def)
qed

lemma fill_accepted:
  assumes ob: "open_batch json pre a rs post" and h: "tl_history l = pre @ a # rs @ post"
    and calls: "set calls \<subseteq> set (msg_ToolCalls a)" "distinct (map tc_ID calls)"
      "set (unrespondedToolCallsAfterLastAssistant (tl_history l)) \<subseteq> set calls"
    and pos: "\<And>n l rs. tl_history l = pre @ a # rs @ post \<Longrightarrow> n \<le> length rs \<Longrightarrow>
       \<exists>k\<le>length rs. pos n l = int (length pre + 1 + k)"
    and l': "l' = fill json classify content pos 0 calls (answered_ids rs) l"
  shows "ValidateToolProtocol json (tl_history l') = None"
    and "\<exists>rs'. tl_history l' = pre @ a # rs' @ post"
    and "tl_published l' = tl_published l @
           map (result_event content) (filter (\<lambda>c. tc_ID c \<notin> set (answered_ids rs)) calls)"
proof -
  have cs: "\<forall>c\<in>set calls. trimmed (tc_ID c) \<and> tc_ID c \<in> set (call_ids a)" "\<forall>c\<in>set calls. complete_call json c"
    using calls(1) open_batch_calls(1)[OF ob] by auto
  obtain rs' answered' where r: "tl_history l' = pre @ a # rs' @ post"
    "tl_published l' = tl_published l @ map (result_event content) (to_answer json (answered_ids rs) calls)"
    "block_inv a rs' answered'" "set answered' = set (answered_ids rs) \<union> tc_ID ` {c \<in> set calls. complete_call json c}"
    using fill_closes[where pos=pos and classify=classify and content=content,
        OF ob open_batch_inv[OF ob] cs(1) calls(2) h zero_le pos] unfolding l'[symmetric] by blast
  have "set (call_ids a) \<subseteq> set answered'"
    using calls(3) cs(2) r(4) unfolding h open_batch_lookup(3)[OF ob] open_batch_calls(3)[OF ob] by auto
  then show "ValidateToolProtocol json (tl_history l') = None"
    using block_complete[OF r(3) _ ob] r(1) by (simp add: accepted_clean clean_well_paired)
  show "\<exists>rs'. tl_history l' = pre @ a # rs' @ post" using r(1) by blast
  have "to_answer json (answered_ids rs) calls = filter (\<lambda>c. tc_ID c \<notin> set (answered_ids rs)) calls"
    using cs(2) by (auto simp: to_answer_def intro!: filter_cong)
  then show "tl_published l' = tl_published l @
      map (result_event content) (filter (\<lambda>c. tc_ID c \<notin> set (answered_ids rs)) calls)" using r(2) by simp
qed

text \<open>
  C19. When the stream or the tool batch of the last assistant message is interrupted, \<^verbatim>\<open>appendMissingToolResponses\<close> does
  not panic, publishes one result for each unanswered call in call order and nothing else, and leaves a history that the protocol check
  accepts. The last batch may have any of its results, recovery placeholders included; placeholders of older batches are excluded.
\<close>

theorem interrupted_batch_closed:
  assumes "open_batch json pre a rs []" and "tl_history l = pre @ a # rs"
  shows "\<exists>l'. appendMissingToolResponses json classify (msg_ToolCalls a) content l = Some l' \<and>
           ValidateToolProtocol json (tl_history l') = None \<and>
           tl_published l' = tl_published l @
             map (result_event content) (unrespondedToolCallsAfterLastAssistant (tl_history l))"
proof -
  let ?pos = "\<lambda>n l. int (length (tl_history l))"
  let ?l' = "fill json classify content ?pos 0 (msg_ToolCalls a) (answered_ids rs) l"
  have h: "tl_history l = pre @ a # rs @ []" using assms(2) by simp
  have un: "unrespondedToolCallsAfterLastAssistant (tl_history l) =
      filter (\<lambda>c. tc_ID c \<notin> set (answered_ids rs)) (msg_ToolCalls a)"
    unfolding h by (rule open_batch_lookup(3)[OF assms(1)])
  have "appendMissingToolResponses json classify (msg_ToolCalls a) content l = Some ?l'"
    unfolding appendMissingToolResponses_def h open_batch_lookup(2)[OF assms(1)] by (rule append_missing_fill)
  moreover have sub: "set (unrespondedToolCallsAfterLastAssistant (tl_history l)) \<subseteq> set (msg_ToolCalls a)"
    unfolding un by auto
  have pos: "\<exists>k\<le>length rs. ?pos n l = int (length pre + 1 + k)" if "tl_history l = pre @ a # rs @ []" for n :: nat and l rs
    by (rule exI[of _ "length rs"]) (simp add: that)
  note closed = fill_accepted[where pos="?pos" and classify=classify and content=content,
      OF assms(1) h order_refl open_batch_calls(2)[OF assms(1)] sub pos refl]
  ultimately show ?thesis unfolding un using closed(1,3) by blast
qed

text \<open>
  Cancelling a Turn that waits for the user closes its tool batch: when the pending calls are calls of the last assistant message
  and include the unanswered ones, the history after \<^verbatim>\<open>CancelPendingToolCalls\<close> is accepted by the protocol check, only the results of
  that batch changed, and exactly the unanswered calls were published.
\<close>

lemma cancel_closes_batch:
  assumes "open_batch json pre a rs post" and "tl_history l = pre @ a # rs @ post"
    and "set calls \<subseteq> set (msg_ToolCalls a)" "distinct (map tc_ID calls)"
    and "set (unrespondedToolCallsAfterLastAssistant (tl_history l)) \<subseteq> set calls"
    and "l' = CancelPendingToolCalls json classify interrupted (Some calls) text l"
  shows "ValidateToolProtocol json (tl_history l') = None \<and>
         (\<exists>rs'. tl_history l' = pre @ a # rs' @ post) \<and>
         map pub_ToolCall (tl_published l') = map pub_ToolCall (tl_published l) @
           filter (\<lambda>c. c \<in> set (unrespondedToolCallsAfterLastAssistant (tl_history l))) calls"
proof -
  define content where "content = (if trim_space text = [] then interrupted else trim_space text)"
  let ?pos = "\<lambda>n (l :: turn_log). int (length pre) + 1 + int n"
  let ?l' = "fill json classify content ?pos 0 calls (answered_ids rs) l"
  have pos: "\<exists>k\<le>length rs. ?pos n l = int (length pre + 1 + k)" if "n \<le> length rs" for n l rs
    using that by (intro exI[of _ n]) simp
  have "snd (insertMissingToolResponsesAfterAssistant json classify calls content l) = ?l'"
    using insert_missing_fill[of json classify content calls "answered_ids rs" "int (length pre) + 1" 0 False l]
    by (cases calls) (simp_all add: insertMissingToolResponsesAfterAssistant_def assms(2) open_batch_lookup(1,2)[OF assms(1)])
  then have l': "l' = ?l'" using assms(6) by (simp add: CancelPendingToolCalls_def content_def Let_def)
  have "filter (\<lambda>c. tc_ID c \<notin> set (answered_ids rs)) calls =
      filter (\<lambda>c. c \<in> set (unrespondedToolCallsAfterLastAssistant (tl_history l))) calls"
    using assms(3) unfolding assms(2) open_batch_lookup(3)[OF assms(1)] by (auto intro!: filter_cong)
  then show ?thesis
    using fill_accepted[OF assms(1-5) pos l'] by (simp add: o_def result_event_def)
qed

section \<open>Concrete histories\<close>

definition demo_json :: "string \<Rightarrow> json_class" where
  "demo_json s = (if s = ''{}'' then JsonObject else JsonInvalid)"

definition demo_classify :: classifier where
  "demo_classify n c f = (''succeeded'', None)"

definition demo_tool_call :: "string \<Rightarrow> tool_call" where
  "demo_tool_call i = \<lparr>tc_ID = i, tc_Type = ''function'', tc_Name = ''read_file'', tc_Arguments = ''{}''\<rparr>"

definition demo_assistant :: "string list \<Rightarrow> message" where
  "demo_assistant is = zero_message\<lparr>msg_Role := ''assistant'', msg_ToolCalls := map demo_tool_call is\<rparr>"

definition demo_log :: "message list \<Rightarrow> turn_log" where
  "demo_log h = \<lparr>tl_history = h, tl_journal = None, tl_published = []\<rparr>"

lemmas demo_history_defs = demo_json_def demo_tool_call_def demo_assistant_def demo_log_def zero_message_def

definition demo_question :: message where
  "demo_question = UserMessage ''what is in a.txt'' []"

lemma demo_open_batch:
  "open_batch demo_json [demo_question] (demo_assistant [''a'', ''b''])
     [ToolResultMessage demo_classify ''a'' ''read_file'' ''text''] []"
proof -
  have "is_plain demo_question" "msg_Role demo_question = ''user''"
    by (simp_all add: demo_question_def is_plain_def UserMessage_def MessageSourceForUserName_def UserMessageWithSource_def
        zero_message_def Let_def go_eval)
  then have "well_paired demo_json [demo_question]" "\<not> IsRecoveryPlaceholderToolResult demo_question"
    by (auto intro: well_paired.intros simp: IsRecoveryPlaceholderToolResult_def)
  then show ?thesis
    by (simp add: open_batch_def is_batch_def complete_call_def call_ids_def results_ok_def trimmed_def demo_history_defs
        ToolResultMessage_def ToolResultMessageWithMetadata_def go_eval)
qed

theorem interrupted_batch_closed_witness:
  "\<exists>l'. appendMissingToolResponses demo_json demo_classify (map demo_tool_call [''a'', ''b'']) ''interrupted''
       (demo_log [demo_question, demo_assistant [''a'', ''b''], ToolResultMessage demo_classify ''a'' ''read_file'' ''text'']) = Some l' \<and>
     ValidateToolProtocol demo_json (tl_history l') = None"
  using interrupted_batch_closed[OF demo_open_batch, of "demo_log [demo_question, demo_assistant [''a'', ''b''],
      ToolResultMessage demo_classify ''a'' ''read_file'' ''text'']" demo_classify "''interrupted''"]
  by (auto simp: demo_log_def demo_assistant_def)

lemma cancel_closes_batch_witness:
  "ValidateToolProtocol demo_json (tl_history (CancelPendingToolCalls demo_json demo_classify ''interrupted'' (Some [demo_tool_call ''b'']) []
     (demo_log [demo_question, demo_assistant [''a'', ''b''], ToolResultMessage demo_classify ''a'' ''read_file'' ''text'']))) = None"
proof -
  let ?l = "demo_log [demo_question, demo_assistant [''a'', ''b''], ToolResultMessage demo_classify ''a'' ''read_file'' ''text'']"
  let ?l' = "CancelPendingToolCalls demo_json demo_classify ''interrupted'' (Some [demo_tool_call ''b'']) [] ?l"
  have h: "tl_history ?l = [demo_question] @ demo_assistant [''a'', ''b''] #
      [ToolResultMessage demo_classify ''a'' ''read_file'' ''text''] @ []" by (simp add: demo_log_def)
  have un: "unrespondedToolCallsAfterLastAssistant (tl_history ?l) = [demo_tool_call ''b'']"
    unfolding h open_batch_lookup(3)[OF demo_open_batch]
    by (simp add: answered_ids_def demo_history_defs ToolResultMessage_def ToolResultMessageWithMetadata_def demo_classify_def
        toolResultMetadataFromResult_def IsRecoveryPlaceholderToolResult_def go_eval)
  have sub: "set [demo_tool_call ''b''] \<subseteq> set (msg_ToolCalls (demo_assistant [''a'', ''b'']))" "distinct (map tc_ID [demo_tool_call ''b''])"
    by (simp_all add: demo_assistant_def)
  have "set (unrespondedToolCallsAfterLastAssistant (tl_history ?l)) \<subseteq> set [demo_tool_call ''b'']" unfolding un by simp
  from cancel_closes_batch[OF demo_open_batch h sub this refl, of demo_classify "''interrupted''" "[]"] show ?thesis by blast
qed

text \<open>
  The exclusion of placeholders of older batches is needed. The protocol check lets a call id be used again in a later batch, but a result
  for it then replaces the placeholder of the older batch, and the new call stays unanswered.
\<close>

lemma reused_id_stays_open:
  "let h = [demo_assistant [''a''], RecoveryPlaceholderToolResult ''unknown'' (demo_tool_call ''a''), demo_assistant [''a'']];
       l' = appendMissingToolResponses demo_json demo_classify [demo_tool_call ''a''] ''interrupted'' (demo_log h)
   in ValidateToolProtocol demo_json (take 2 h) = None \<and>
      (case l' of None \<Rightarrow> False | Some l \<Rightarrow> length (tl_history l) = 3 \<and> ValidateToolProtocol demo_json (tl_history l) \<noteq> None)"
  by code_simp

end
