(* ===== verification/Compression.thy ===== *)
theory Compression
  imports History
begin

text \<open>
  Compressing a history: \<^verbatim>\<open>compression/plan.go\<close>, \<^verbatim>\<open>compression/apply.go\<close>, the request
  assembly of \<^verbatim>\<open>compression/sidecar.go\<close> and the text helpers of \<^verbatim>\<open>llm/content.go\<close> it uses.

  A plan picks the last message of the range to summarise; a side request asks the model for the summary, and the
  summary replaces the range. The token estimate, the fingerprint (a JSON encoding) and the fixed prompt texts are parameters.
  \<^verbatim>\<open>lastAssistantIndex\<close> of this package is the one of \<^verbatim>\<open>turn\<close>, line by line.

  \<open>compression_keeps_protocol\<close>: on a history that the protocol check accepts, both the side request and the compressed
  history are accepted, and the compressed history is the old one with one range replaced by one message.
\<close>

section \<open>Plans\<close>

record compress_decision =
  cd_Should :: bool
  cd_TriggerLevel :: string
  cd_TotalTokens :: int

datatype compress_apply_mode = KeepFollowingAssistant | MergeNextUser
datatype sidecar_append_mode = AppendAssistantAndUser | AppendUserOnly

record compression_plan =
  cpl_End :: nat
  cpl_ApplyMode :: compress_apply_mode
  cpl_SidecarAppend :: sidecar_append_mode

definition leadingSystemSkip :: "message list \<Rightarrow> nat" where
  "leadingSystemSkip ms =
     (let n = length (takeWhile (\<lambda>m. msg_Role m = ''system'') ms)
      in if n < length ms \<and> IsMessageSource (ms ! n) ''runtime'' ''notice'' ''idle_context'' then n + 1 else n)"

definition compressionSlice :: "message list \<Rightarrow> compression_plan \<Rightarrow> message list" where
  "compressionSlice ms plan =
     (let start = leadingSystemSkip ms
      in if cpl_End plan < start \<or> cpl_End plan \<ge> length ms then []
         else drop start (take (cpl_End plan + 1) ms))"

text \<open>The pending call ids after a message, \<open>None\<close> when the sequence is not well formed.\<close>

fun add_pending :: "string list \<Rightarrow> tool_call list \<Rightarrow> string list option" where
  "add_pending pending [] = Some pending"
| "add_pending pending (tc # calls) =
     (if tc_ID tc = [] then None else add_pending (List.insert (tc_ID tc) pending) calls)"

definition applyMessageToPending :: "string list \<Rightarrow> message \<Rightarrow> string list option" where
  "applyMessageToPending pending m =
     (if msg_Role m = ''assistant'' then
        (if msg_ToolCalls m \<noteq> [] then (if pending \<noteq> [] then None else add_pending pending (msg_ToolCalls m))
         else if pending = [] then Some pending else None)
      else if msg_Role m = ''tool'' then
        (if msg_ToolCallID m = [] then None
         else if msg_ToolCallID m \<notin> set pending then None
         else Some (removeAll (msg_ToolCallID m) pending))
      else if pending = [] then Some pending else None)"

fun closure_loop :: "string list option \<Rightarrow> message list \<Rightarrow> bool list" where
  "closure_loop st [] = []"
| "closure_loop st (m # ms) =
     (let st' = (case st of None \<Rightarrow> None | Some p \<Rightarrow> applyMessageToPending p m)
      in (st' = Some []) # closure_loop st' ms)"

definition computePrefixClosure :: "message list \<Rightarrow> bool list" where
  "computePrefixClosure ms = closure_loop (Some []) ms"

definition isSelectableCompressEnd :: "bool list \<Rightarrow> message list \<Rightarrow> nat \<Rightarrow> string \<Rightarrow> bool" where
  "isSelectableCompressEnd closedAt ms end' requireFollowingRole =
     (if end' \<ge> length ms \<or> \<not> closedAt ! end' then False
      else let m = ms ! end';
               selectable = (msg_Role m = ''tool'' \<or> msg_Role m = ''assistant'' \<and> msg_ToolCalls m = [] \<or>
                 msg_Role m = ''user'' \<and> end' + 1 < length ms \<and> msg_Role (ms ! (end' + 1)) = ''assistant'')
           in if \<not> selectable then False
              else if requireFollowingRole = [] then True
              else end' + 1 < length ms \<and> msg_Role (ms ! (end' + 1)) = requireFollowingRole)"

definition buildCompressionPlan :: "message list \<Rightarrow> compression_plan option" where
  "buildCompressionPlan ms =
     (case lastAssistantIndex ms of
        None \<Rightarrow> None
      | Some lastA \<Rightarrow>
          if lastA = 0 then None
          else let closedAt = computePrefixClosure ms
               in if msg_ToolCalls (ms ! lastA) = [] \<and> lastA + 1 < length ms \<and> msg_Role (ms ! (lastA + 1)) = ''user''
                  then (if isSelectableCompressEnd closedAt ms lastA ''user''
                        then Some \<lparr>cpl_End = lastA, cpl_ApplyMode = MergeNextUser, cpl_SidecarAppend = AppendUserOnly\<rparr>
                        else None)
                  else map_option (\<lambda>e. \<lparr>cpl_End = e, cpl_ApplyMode = KeepFollowingAssistant, cpl_SidecarAppend = AppendAssistantAndUser\<rparr>)
                         (find (\<lambda>e. isSelectableCompressEnd closedAt ms e ''assistant'') (rev [leadingSystemSkip ms..<lastA])))"

definition evaluateCompression ::
  "(message list \<Rightarrow> int) \<Rightarrow> message list \<Rightarrow> int \<Rightarrow> int \<Rightarrow> compress_decision \<times> compression_plan option" where
  "evaluateCompression estimate ms silentThreshold blockingThreshold =
     (let silent = max 0 silentThreshold; blocking = max 0 blockingThreshold; total = estimate ms;
          level = (if blocking > 0 \<and> total \<ge> blocking then ''blocking''
                   else if silent > 0 \<and> total \<ge> silent then ''silent'' else ''none'')
      in if level = ''none'' then (\<lparr>cd_Should = False, cd_TriggerLevel = level, cd_TotalTokens = total\<rparr>, None)
         else case buildCompressionPlan ms of
                None \<Rightarrow> (\<lparr>cd_Should = False, cd_TriggerLevel = level, cd_TotalTokens = total\<rparr>, None)
              | Some plan \<Rightarrow> (\<lparr>cd_Should = True, cd_TriggerLevel = level, cd_TotalTokens = total\<rparr>, Some plan))"

section \<open>Texts\<close>

definition MessageTextFromParts :: "content_part list \<Rightarrow> string" where
  "MessageTextFromParts parts =
     foldl (\<lambda>b part. if cp_Type part \<noteq> ''text'' then b
        else let t = trim_space (cp_Text part)
             in if t = [] then b else if b \<noteq> [] then b @ [CHR 0x0A] @ t else b @ t) [] parts"

definition MessageTextSummary :: "message \<Rightarrow> string" where
  "MessageTextSummary m = (let s = trim_space (msg_Content m) in if s \<noteq> [] then s else MessageTextFromParts (msg_ContentParts m))"

definition mergeSummaryWithUser :: "string \<Rightarrow> string \<Rightarrow> string" where
  "mergeSummaryWithUser summary userText =
     (let s = trim_space summary; u = trim_space userText
      in if s = [] then u else if u = [] then s else s @ [CHR 0x0A, CHR 0x0A] @ u)"

section \<open>The side request\<close>

text \<open>The messages of \<^verbatim>\<open>BuildSidecarChatRequest\<close>; \<open>None\<close> where the slice expression panics.\<close>

definition BuildSidecarMessages ::
  "string \<Rightarrow> string \<Rightarrow> message list \<Rightarrow> int \<Rightarrow> sidecar_append_mode \<Rightarrow> string \<Rightarrow> message list option" where
  "BuildSidecarMessages syntheticAssistant defaultPrompt ms end' appendMode userPrompt =
     (let prompt = (let p = trim_space userPrompt in if p = [] then defaultPrompt else p);
          prefixEnd = (if end' < 0 \<or> end' \<ge> int (length ms) then int (length ms) - 1 else end');
          start = leadingSystemSkip ms;
          kept = filter (\<lambda>m. \<not> IsMessageSource m ''runtime'' ''notice'' ''date'') (drop start (take (nat (prefixEnd + 1)) ms))
      in if int start > prefixEnd + 1 then None
         else Some (kept @ (case appendMode of
          AppendAssistantAndUser \<Rightarrow>
            [zero_message\<lparr>msg_Role := ''assistant'', msg_Content := syntheticAssistant\<rparr>, UserMessage prompt ''compression_sidecar'']
        | AppendUserOnly \<Rightarrow> [UserMessage prompt ''compression_sidecar''])))"

definition hasCompressibleContent :: "message list \<Rightarrow> bool" where
  "hasCompressibleContent ms =
     (\<exists>m\<in>set ms. msg_Role m \<noteq> ''system'' \<and> (trim_space (msg_Content m) \<noteq> [] \<or> msg_ToolCalls m \<noteq> []))"

section \<open>Writing the summary back\<close>

definition compressionSourceFingerprint :: "(message list \<Rightarrow> string) \<Rightarrow> message list \<Rightarrow> compression_plan \<Rightarrow> string" where
  "compressionSourceFingerprint fingerprint ms plan =
     (let start = leadingSystemSkip ms
      in case cpl_ApplyMode plan of
           MergeNextUser \<Rightarrow> if cpl_End plan + 1 \<ge> length ms then [] else fingerprint (drop start (take (cpl_End plan + 2) ms))
         | KeepFollowingAssistant \<Rightarrow> fingerprint (drop start (take (cpl_End plan + 1) ms)))"

datatype apply_status = StatusApplied | StatusInvalid | StatusStale

definition applyCompressionReplacement ::
  "(message list \<Rightarrow> string) \<Rightarrow> message list \<Rightarrow> compression_plan \<Rightarrow> string \<Rightarrow> string \<Rightarrow> message list \<times> apply_status" where
  "applyCompressionReplacement fingerprint ms plan summary sourceFingerprint =
     (let start = leadingSystemSkip ms; e = cpl_End plan
      in if e < start \<or> e \<ge> length ms \<or> trim_space summary = [] then ([], StatusInvalid)
         else case cpl_ApplyMode plan of
           MergeNextUser \<Rightarrow>
             if e + 1 \<ge> length ms \<or> msg_Role (ms ! (e + 1)) \<noteq> ''user'' then ([], StatusInvalid)
             else if sourceFingerprint \<noteq> [] \<and> sourceFingerprint \<noteq> fingerprint (drop start (take (e + 2) ms)) then ([], StatusStale)
             else (take start ms @ [UserMessage (mergeSummaryWithUser summary (MessageTextSummary (ms ! (e + 1)))) ''compression'']
                     @ drop (e + 2) ms, StatusApplied)
         | KeepFollowingAssistant \<Rightarrow>
             if e + 1 \<ge> length ms \<or> msg_Role (ms ! (e + 1)) \<noteq> ''assistant'' then ([], StatusInvalid)
             else if sourceFingerprint \<noteq> [] \<and> sourceFingerprint \<noteq> fingerprint (drop start (take (e + 1) ms)) then ([], StatusStale)
             else (take start ms @ [UserMessage (trim_space summary) ''compression''] @ drop (e + 1) ms, StatusApplied))"

section \<open>Cutting an accepted history\<close>

lemma clean_empty_seen: "clean json {} S ms \<longleftrightarrow> clean json {} {} ms"
  by (cases ms) auto

lemma clean_empty_insert: "clean json {} (insert x S) ms \<longleftrightarrow> clean json {} {} ms"
  by (rule clean_empty_seen)

lemma clean_plain: "is_plain m \<Longrightarrow> clean json op S (m # ms) \<longleftrightarrow> op = {} \<and> clean json {} {} ms"
  using not_both(1)[of m] by auto

lemma clean_suffix:
  "clean json op S (xs @ y # ys) \<Longrightarrow> \<not> is_tool y \<Longrightarrow> clean json {} {} (y # ys)"
  by (induction json op S xs rule: clean.induct) (auto split: if_splits simp: clean_empty_insert)

lemma clean_prefix:
  "clean json op S (xs @ y # ys) \<Longrightarrow> \<not> is_tool y \<Longrightarrow> clean json op S xs"
  by (induction json op S xs rule: clean.induct) (auto split: if_splits)

lemma clean_drop_plain: "clean json {} {} (xs @ ys) \<Longrightarrow> list_all is_plain xs \<Longrightarrow> clean json {} {} ys"
  by (induction xs) (auto simp: clean_plain simp del: clean.simps)

lemma clean_plain_app: "list_all is_plain xs \<Longrightarrow> clean json {} {} (xs @ ys) \<longleftrightarrow> clean json {} {} ys"
  by (induction xs) (auto simp: clean_plain simp del: clean.simps)

lemma clean_app: "clean json op S xs \<Longrightarrow> clean json {} {} ys \<Longrightarrow> clean json op S (xs @ ys)"
  by (induction json op S xs rule: clean.induct) (auto split: if_splits simp: clean_empty_insert intro: clean_empty_seen[THEN iffD2])

lemma clean_filter:
  assumes "\<And>m. m \<in> set ms \<Longrightarrow> \<not> P m \<Longrightarrow> is_plain m"
  shows "clean json op S ms \<Longrightarrow> clean json op S (filter P ms)"
  using assms
proof (induction json op S ms rule: clean.induct)
  case (2 json op S m ms)
  show ?case
  proof (cases "P m")
    case True
    then show ?thesis using 2 by (auto split: if_splits)
  next
    case False
    then have pl: "is_plain m" using "2.prems"(2) by simp
    then have "op = {}" "clean json {} {} ms" using "2.prems"(1) by (simp_all add: clean_plain del: clean.simps)
    moreover have "\<not> is_tool m" using pl by auto
    ultimately show ?thesis using "2.IH"(2) "2.prems"(2) pl False by (simp add: clean_empty_seen[of json S])
  qed
qed simp

lemma source_plain: "IsMessageSource m ''runtime'' form producer \<Longrightarrow> is_plain m"
  by (auto simp: IsMessageSource_def is_plain_def split: if_splits)

lemma leading_plain: "list_all is_plain (take (leadingSystemSkip ms) ms)"
proof -
  let ?n = "length (takeWhile (\<lambda>m. msg_Role m = ''system'') ms)"
  have t: "take ?n ms = takeWhile (\<lambda>m. msg_Role m = ''system'') ms" by (metis takeWhile_eq_take)
  have sys: "list_all is_plain (take ?n ms)" unfolding t list_all_iff
    by (auto dest!: set_takeWhileD simp: is_plain_def go_eval)
  show ?thesis
  proof (cases "?n < length ms \<and> IsMessageSource (ms ! ?n) ''runtime'' ''notice'' ''idle_context''")
    case True
    then have "take (?n + 1) ms = take ?n ms @ [ms ! ?n]" by (simp add: take_Suc_conv_app_nth)
    then show ?thesis using True sys source_plain[of "ms ! ?n" "''notice''" "''idle_context''"] by (simp add: leadingSystemSkip_def Let_def)
  next
    case False
    then show ?thesis using sys by (auto simp: leadingSystemSkip_def Let_def)
  qed
qed

lemma skip_le: "leadingSystemSkip ms \<le> length ms"
  by (auto simp: leadingSystemSkip_def Let_def length_takeWhile_le)

lemma UserMessage_plain: "is_plain (UserMessage c n)"
  by (simp add: UserMessage_def UserMessageWithSource_def is_plain_def zero_message_def Let_def go_eval split: prod.split)

lemma UserMessage_not_tool: "\<not> is_tool (UserMessage c n)"
  using UserMessage_plain[of c n] not_both(1) by blast

lemma next_not_tool: "msg_Role m = ''assistant'' \<or> msg_Role m = ''user'' \<Longrightarrow> \<not> is_tool m"
  by (auto simp: is_tool_def go_eval)

lemma split_at: "i < length ms \<Longrightarrow> ms = take i ms @ ms ! i # drop (i + 1) ms"
  by (simp add: id_take_nth_drop)

section \<open>Compression and the protocol\<close>

lemma plan_cuts:
  assumes "buildCompressionPlan ms = Some plan"
  shows "leadingSystemSkip ms \<le> cpl_End plan \<or> lastAssistantIndex ms = Some (cpl_End plan)"
    and "isSelectableCompressEnd (computePrefixClosure ms) ms (cpl_End plan)
           (case cpl_ApplyMode plan of MergeNextUser \<Rightarrow> ''user'' | KeepFollowingAssistant \<Rightarrow> ''assistant'')"
proof -
  obtain lastA where l: "lastAssistantIndex ms = Some lastA"
    using assms by (auto simp: buildCompressionPlan_def split: option.splits)
  consider (merge) "isSelectableCompressEnd (computePrefixClosure ms) ms lastA ''user''"
      "plan = \<lparr>cpl_End = lastA, cpl_ApplyMode = MergeNextUser, cpl_SidecarAppend = AppendUserOnly\<rparr>"
    | (keep) e where "find (\<lambda>e. isSelectableCompressEnd (computePrefixClosure ms) ms e ''assistant'') (rev [leadingSystemSkip ms..<lastA]) = Some e"
      "plan = \<lparr>cpl_End = e, cpl_ApplyMode = KeepFollowingAssistant, cpl_SidecarAppend = AppendAssistantAndUser\<rparr>"
    using assms l by (auto simp: buildCompressionPlan_def Let_def split: if_splits)
  then have "(leadingSystemSkip ms \<le> cpl_End plan \<or> lastAssistantIndex ms = Some (cpl_End plan)) \<and>
      isSelectableCompressEnd (computePrefixClosure ms) ms (cpl_End plan)
        (case cpl_ApplyMode plan of MergeNextUser \<Rightarrow> ''user'' | KeepFollowingAssistant \<Rightarrow> ''assistant'')"
  proof cases
    case merge
    then show ?thesis using l by simp
  next
    case keep
    then have "e \<in> set (rev [leadingSystemSkip ms..<lastA])"
      "isSelectableCompressEnd (computePrefixClosure ms) ms e ''assistant''"
      by (auto simp only: find_Some_iff nth_mem)
    then show ?thesis using keep(2) by simp
  qed
  then show "leadingSystemSkip ms \<le> cpl_End plan \<or> lastAssistantIndex ms = Some (cpl_End plan)"
    "isSelectableCompressEnd (computePrefixClosure ms) ms (cpl_End plan)
       (case cpl_ApplyMode plan of MergeNextUser \<Rightarrow> ''user'' | KeepFollowingAssistant \<Rightarrow> ''assistant'')" by simp_all
qed

lemma plan_next:
  assumes "buildCompressionPlan ms = Some plan"
  shows "cpl_End plan + 1 < length ms" "\<not> is_tool (ms ! (cpl_End plan + 1))"
proof -
  have "cpl_End plan + 1 < length ms \<and> (msg_Role (ms ! (cpl_End plan + 1)) = ''assistant'' \<or> msg_Role (ms ! (cpl_End plan + 1)) = ''user'')"
    using plan_cuts(2)[OF assms]
    by (cases "cpl_ApplyMode plan") (auto simp: isSelectableCompressEnd_def Let_def split: if_splits)
  then show "cpl_End plan + 1 < length ms" "\<not> is_tool (ms ! (cpl_End plan + 1))" using next_not_tool by auto
qed

lemma skip_le_assistant:
  assumes "lastAssistantIndex ms = Some i"
  shows "leadingSystemSkip ms \<le> i"
proof (rule ccontr)
  assume "\<not> leadingSystemSkip ms \<le> i"
  then have lt: "i < leadingSystemSkip ms" by simp
  have "i < length ms" "msg_Role (ms ! i) = ''assistant''"
    using assms by (auto simp: lastAssistantIndex_def find_Some_iff rev_nth)
  moreover have "is_plain (ms ! i)"
    using leading_plain[of ms] lt skip_le[of ms] by (auto simp: list_all_length)
  ultimately show False by (simp add: is_plain_def go_eval)
qed

lemma plan_start: "buildCompressionPlan ms = Some plan \<Longrightarrow> leadingSystemSkip ms \<le> cpl_End plan"
  using plan_cuts(1)[of ms plan] skip_le_assistant[of ms] by blast

lemma clean_middle:
  assumes ok: "clean json {} {} ms" and i: "i < length ms" "\<not> is_tool (ms ! i)"
  shows "clean json {} {} (take i ms)" "clean json {} {} (drop i ms)"
    "leadingSystemSkip ms \<le> i \<Longrightarrow> clean json {} {} (drop (leadingSystemSkip ms) (take i ms))"
proof -
  have s: "clean json {} {} (take i ms @ ms ! i # drop (i + 1) ms)" using ok by (simp only: split_at[OF i(1), symmetric])
  show t: "clean json {} {} (take i ms)" by (rule clean_prefix[OF s i(2)])
  have "clean json {} {} (ms ! i # drop (i + 1) ms)" by (rule clean_suffix[OF s i(2)])
  then show "clean json {} {} (drop i ms)" using i(1) by (simp add: Cons_nth_drop_Suc)
  assume "leadingSystemSkip ms \<le> i"
  then have "take i ms = take (leadingSystemSkip ms) ms @ drop (leadingSystemSkip ms) (take i ms)"
    by (metis append_take_drop_id min.absorb1 take_take)
  then show "clean json {} {} (drop (leadingSystemSkip ms) (take i ms))"
    using clean_drop_plain[OF _ leading_plain[of ms]] t by metis
qed

lemma sidecar_accepted:
  assumes ok: "ValidateToolProtocol json ms = None" and plan: "buildCompressionPlan ms = Some plan"
  shows "\<exists>req. BuildSidecarMessages synthetic prompt0 ms (int (cpl_End plan)) (cpl_SidecarAppend plan) prompt = Some req \<and>
           ValidateToolProtocol json req = None"
proof -
  let ?e = "cpl_End plan" and ?s = "leadingSystemSkip ms"
  let ?kept = "filter (\<lambda>m. \<not> IsMessageSource m ''runtime'' ''notice'' ''date'') (drop ?s (take (?e + 1) ms))"
  let ?tail = "case cpl_SidecarAppend plan of
      AppendAssistantAndUser \<Rightarrow> [zero_message\<lparr>msg_Role := ''assistant'', msg_Content := synthetic\<rparr>,
        UserMessage (if trim_space prompt = [] then prompt0 else trim_space prompt) ''compression_sidecar'']
    | AppendUserOnly \<Rightarrow> [UserMessage (if trim_space prompt = [] then prompt0 else trim_space prompt) ''compression_sidecar'']"
  note cut = plan_next[OF plan] and st = plan_start[OF plan]
  have "clean json {} {} (drop ?s (take (?e + 1) ms))"
    using clean_middle(3)[of json ms "?e + 1"] ok cut st by (simp add: accepted_clean)
  then have "clean json {} {} ?kept" by (rule clean_filter[rotated]) (auto dest: source_plain)
  moreover have "clean json {} {} ?tail"
  proof -
    have "is_batch json (zero_message\<lparr>msg_Role := ''assistant'', msg_Content := synthetic\<rparr>)"
      "\<not> is_tool (zero_message\<lparr>msg_Role := ''assistant'', msg_Content := synthetic\<rparr>)"
      "\<not> is_plain (zero_message\<lparr>msg_Role := ''assistant'', msg_Content := synthetic\<rparr>)"
      "call_ids (zero_message\<lparr>msg_Role := ''assistant'', msg_Content := synthetic\<rparr>) = []"
      by (simp_all add: role_defs call_ids_def zero_message_def go_eval)
    then show ?thesis by (simp add: UserMessage_plain UserMessage_not_tool split: sidecar_append_mode.split)
  qed
  ultimately have "clean json {} {} (?kept @ ?tail)" by (rule clean_app)
  moreover have "BuildSidecarMessages synthetic prompt0 ms (int ?e) (cpl_SidecarAppend plan) prompt = Some (?kept @ ?tail)"
    using cut(1) st by (simp add: BuildSidecarMessages_def Let_def nat_add_distrib)
  ultimately show ?thesis by (simp add: accepted_clean)
qed

lemma replacement_accepted:
  assumes ok: "ValidateToolProtocol json ms = None"
    and ap: "applyCompressionReplacement fingerprint ms plan summary src = (merged, StatusApplied)"
  obtains c k where "merged = take (leadingSystemSkip ms) ms @ [UserMessage c ''compression''] @ drop k ms"
    "leadingSystemSkip ms < k" "k \<le> length ms" "ValidateToolProtocol json merged = None"
proof -
  let ?e = "cpl_End plan" and ?s = "leadingSystemSkip ms"
  obtain c k where m: "merged = take ?s ms @ [UserMessage c ''compression''] @ drop k ms" and k: "?s < k" "k \<le> length ms"
    and suf: "clean json {} {} (drop k ms)"
  proof (cases "cpl_ApplyMode plan")
    case KeepFollowingAssistant
    with ap have r: "?s \<le> ?e" "?e + 1 < length ms" "msg_Role (ms ! (?e + 1)) = ''assistant''"
      "merged = take ?s ms @ [UserMessage (trim_space summary) ''compression''] @ drop (?e + 1) ms"
      by (auto simp: applyCompressionReplacement_def Let_def split: if_splits)
    have "clean json {} {} (drop (?e + 1) ms)"
      by (rule clean_middle(2)) (use ok r next_not_tool in \<open>auto simp: accepted_clean\<close>)
    then show thesis using that[OF r(4)] r(1,2) by simp
  next
    case MergeNextUser
    with ap obtain c where r: "?s \<le> ?e" "?e + 1 < length ms" "msg_Role (ms ! (?e + 1)) = ''user''"
      "merged = take ?s ms @ [UserMessage c ''compression''] @ drop (?e + 2) ms"
      by (auto simp: applyCompressionReplacement_def Let_def split: if_splits)
    have "clean json {} {} (drop (?e + 1) ms)"
      by (rule clean_middle(2)) (use ok r next_not_tool in \<open>auto simp: accepted_clean\<close>)
    moreover have "is_plain (ms ! (?e + 1))" using r(3) by (simp add: is_plain_def go_eval)
    moreover have "drop (?e + 1) ms = ms ! (?e + 1) # drop (?e + 2) ms" using r(2) by (simp add: Cons_nth_drop_Suc)
    ultimately have "clean json {} {} (drop (?e + 2) ms)" by (simp add: clean_plain del: clean.simps)
    then show thesis using that[OF r(4)] r(1,2) by simp
  qed
  have "clean json {} {} merged"
    unfolding m using suf leading_plain[of ms] UserMessage_plain[of c] by (simp add: clean_plain_app clean_plain del: clean.simps)
  then show thesis using that[OF m k] by (simp add: accepted_clean)
qed

text \<open>
  C20. For a history that the protocol check accepts and the plan chosen for it, the side request can be built without a panic and is accepted
  itself; and writing the summary back gives an accepted history: the leading system messages, one message with the summary, and an untouched
  suffix of the old history, with no more messages than before.
\<close>

theorem compression_keeps_protocol:
  assumes "ValidateToolProtocol json ms = None" and "buildCompressionPlan ms = Some plan"
    and "applyCompressionReplacement fingerprint ms plan summary src = (merged, StatusApplied)"
  shows "(\<exists>req. BuildSidecarMessages synthetic prompt0 ms (int (cpl_End plan)) (cpl_SidecarAppend plan) prompt = Some req \<and>
            ValidateToolProtocol json req = None) \<and>
         ValidateToolProtocol json merged = None \<and> length merged \<le> length ms \<and>
         (\<exists>c k. leadingSystemSkip ms < k \<and> merged = take (leadingSystemSkip ms) ms @ [UserMessage c ''compression''] @ drop k ms)"
proof -
  obtain c k where r: "merged = take (leadingSystemSkip ms) ms @ [UserMessage c ''compression''] @ drop k ms"
    "leadingSystemSkip ms < k" "k \<le> length ms" "ValidateToolProtocol json merged = None"
    by (rule replacement_accepted[OF assms(1,3)])
  moreover have "length merged \<le> length ms" using r(1-3) by simp
  ultimately show ?thesis using sidecar_accepted[OF assms(1,2)] by blast
qed

definition demo_chat :: "message list" where
  "demo_chat = [demo_question, demo_assistant [''a''], ToolResultMessage demo_classify ''a'' ''read_file'' ''text'',
     demo_assistant [], demo_question]"

theorem compression_keeps_protocol_witness:
  "case buildCompressionPlan demo_chat of
     None \<Rightarrow> False
   | Some plan \<Rightarrow>
       (case applyCompressionReplacement (\<lambda>ms. []) demo_chat plan ''a.txt was read'' [] of
          (merged, st) \<Rightarrow> st = StatusApplied \<and> ValidateToolProtocol demo_json merged = None \<and> length merged = 1)"
proof -
  have ok: "ValidateToolProtocol demo_json demo_chat = None" by code_simp
  define plan where "plan = \<lparr>cpl_End = 3, cpl_ApplyMode = MergeNextUser, cpl_SidecarAppend = AppendUserOnly\<rparr>"
  have plan: "buildCompressionPlan demo_chat = Some plan" unfolding plan_def by code_simp
  obtain merged st where r: "applyCompressionReplacement (\<lambda>ms. []) demo_chat plan ''a.txt was read'' [] = (merged, st)"
    by (cases "applyCompressionReplacement (\<lambda>ms. []) demo_chat plan ''a.txt was read'' []")
  have "snd (applyCompressionReplacement (\<lambda>ms. []) demo_chat plan ''a.txt was read'' []) = StatusApplied"
    "length (fst (applyCompressionReplacement (\<lambda>ms. []) demo_chat plan ''a.txt was read'' [])) = 1"
    unfolding plan_def by code_simp+
  then have "st = StatusApplied" "length merged = 1" using r by simp_all
  then show ?thesis using compression_keeps_protocol[OF ok plan, of "\<lambda>ms. []" "''a.txt was read''" "[]" merged] plan r by simp
qed

section \<open>The prefix scan\<close>

text \<open>
  Messages as the runtime stores them: one of the four roles, call ids without surrounding blanks, and calls that passed
  the check of a single assistant message.
\<close>

definition canonical :: "(string \<Rightarrow> json_class) \<Rightarrow> message \<Rightarrow> bool" where
  "canonical json m \<longleftrightarrow>
     (msg_Role m = ''user'' \<or> msg_Role m = ''system'' \<or>
      msg_Role m = ''tool'' \<and> trimmed (msg_ToolCallID m) \<or>
      msg_Role m = ''assistant'' \<and> ValidateAssistantMessage json m = None \<and> (\<forall>c\<in>set (msg_ToolCalls m). trimmed (tc_ID c)))"

lemma closure_None: "i < length ms \<Longrightarrow> \<not> closure_loop None ms ! i"
  by (induction ms arbitrary: i) (auto simp: nth_Cons split: nat.split)

lemma add_pending_set:
  "\<forall>c\<in>set calls. tc_ID c \<noteq> [] \<Longrightarrow> \<exists>p'. add_pending p calls = Some p' \<and> set p' = set p \<union> tc_ID ` set calls"
proof (induction calls arbitrary: p)
  case (Cons c calls)
  then show ?case using Cons.IH[of "List.insert (tc_ID c) p"] by auto
qed simp

lemma canonical_assistant:
  assumes "canonical json m" "msg_Role m = ''assistant''"
  shows "is_batch json m" "\<not> is_tool m" "\<not> is_plain m"
    "\<exists>p'. applyMessageToPending [] m = Some p' \<and> set p' = set (call_ids m)"
proof -
  have role: "trim_space (msg_Role m) = ''assistant''" using assms(2) by (simp add: go_eval)
  then show "\<not> is_tool m" "\<not> is_plain m" by (simp_all add: role_defs)
  show b: "is_batch json m" using assms ValidateAssistantMessage_None[OF role] by (simp add: canonical_def)
  have ids: "call_ids m = map tc_ID (msg_ToolCalls m)" using assms by (simp add: canonical_def call_ids_def trimmed_def)
  have "\<forall>c\<in>set (msg_ToolCalls m). tc_ID c \<noteq> []" using batch_ids_nonempty[OF b] ids by force
  from add_pending_set[OF this, of "[]"] show "\<exists>p'. applyMessageToPending [] m = Some p' \<and> set p' = set (call_ids m)"
    using assms(2) ids by (auto simp: applyMessageToPending_def)
qed

lemma closure_clean:
  assumes "list_all (canonical json) ms" "set p \<inter> S = {}" "[] \<notin> set p" "i < length ms"
  shows "closure_loop (Some p) ms ! i \<longleftrightarrow> clean json (set p) S (take (Suc i) ms)"
  using assms
proof (induction ms arbitrary: i p S)
  case (Cons m ms)
  have m: "canonical json m" and ms: "list_all (canonical json) ms" using Cons.prems(1) by simp_all
  have step: "closure_loop (Some p) (m # ms) ! i \<longleftrightarrow> clean json (set p') S' (take i ms)"
    if "applyMessageToPending p m = Some p'" "set p' \<inter> S' = {}" "[] \<notin> set p'" for p' S'
    using that Cons.IH[OF ms that(2,3)] Cons.prems(4) by (cases i) auto
  have stuck: "\<not> closure_loop (Some p) (m # ms) ! i" if "applyMessageToPending p m = None"
    using that closure_None[of "i - 1" ms] Cons.prems(4) by (cases i) auto
  consider "msg_Role m = ''tool''" "trimmed (msg_ToolCallID m)" | "msg_Role m = ''user'' \<or> msg_Role m = ''system''"
    | "msg_Role m = ''assistant''" using m by (auto simp: canonical_def)
  then show ?case
  proof cases
    case 1
    then have t: "is_tool m" "result_id m = msg_ToolCallID m" by (simp_all add: is_tool_def result_id_def trimmed_def go_eval)
    show ?thesis
    proof (cases "msg_ToolCallID m \<in> set p")
      case True
      then have "applyMessageToPending p m = Some (removeAll (msg_ToolCallID m) p)"
        using 1 Cons.prems(3) by (auto simp: applyMessageToPending_def)
      from step[OF this, of "insert (msg_ToolCallID m) S"] show ?thesis using t True Cons.prems(2,3) by auto
    next
      case False
      then show ?thesis using stuck 1 t by (simp add: applyMessageToPending_def)
    qed
  next
    case 2
    then have t: "is_plain m" "\<not> is_tool m" by (auto simp: role_defs go_eval)
    have "applyMessageToPending p m = (if p = [] then Some [] else None)" using 2 by (auto simp: applyMessageToPending_def)
    then show ?thesis using step[of "[]" "{}"] stuck t by (cases "p = []") simp_all
  next
    case 3
    show ?thesis
    proof (cases "p = []")
      case True
      obtain p' where p': "applyMessageToPending [] m = Some p'" "set p' = set (call_ids m)"
        using canonical_assistant(4)[OF m 3] by blast
      with step[of p' "{}"] show ?thesis
        using True canonical_assistant(1-3)[OF m 3] batch_ids_nonempty[of json m] by simp
    next
      case False
      then have "applyMessageToPending p m = None" using 3 by (simp add: applyMessageToPending_def)
      then show ?thesis using stuck False canonical_assistant(2)[OF m 3] by simp
    qed
  qed
qed simp

text \<open>
  C21. The one-pass scan that compression uses computes, for every prefix of a stored history at once, whether the prefix alone would be
  accepted by the protocol check.
\<close>

theorem prefix_scan_exact:
  assumes "list_all (canonical json) ms" and "i < length ms"
  shows "computePrefixClosure ms ! i \<longleftrightarrow> ValidateToolProtocol json (take (Suc i) ms) = None"
  using closure_clean[of json ms "[]" "{}" i] assms by (simp add: computePrefixClosure_def accepted_clean)

theorem prefix_scan_exact_witness:
  "computePrefixClosure demo_chat = [True, False, True, True, True] \<and>
   ValidateToolProtocol demo_json (take 2 demo_chat) \<noteq> None"
proof -
  have c: "list_all (canonical demo_json) demo_chat" and n: "1 < length demo_chat"
    by code_simp+
  have "computePrefixClosure demo_chat = [True, False, True, True, True]" by code_simp
  then show ?thesis using prefix_scan_exact[OF c n] by (simp add: numeral_2_eq_2)
qed

end
