(* ===== verification/Llm_Usage.thy ===== *)
theory Llm_Usage
  imports Msg_Queue
begin

text \<open>
  Token usage, \<^verbatim>\<open>llm/usage.go\<close>: the usage of one completion as OpenAI and DeepSeek report it, the alignment of
  the two ways to count cached prompt tokens, the sum over the completions of a Turn, and the fields of the usage event.

  \<^verbatim>\<open>encoding/json\<close> enters as two arguments of \<open>Usage_UnmarshalJSON\<close>: the decoded struct with its aliases, and the raw fields
  of an object. A pointer is an option.

  \<open>usage_sums_exact\<close>: when every round counts its whole prompt as hits and misses, or no round reports cache counters at all,
  the usage of a Turn is the field-wise sum of the usages of its rounds. \<open>invented_cache_hits\<close> and \<open>normalize_unstable\<close> show
  where the alignment goes wrong otherwise.
\<close>

section \<open>Data\<close>

record prompt_tokens_details =
  ptd_CachedTokens :: int
  ptd_AudioTokens :: int

record completion_tokens_details =
  ctd_ReasoningTokens :: int
  ctd_AudioTokens :: int
  ctd_AcceptedPredictionTokens :: int
  ctd_RejectedPredictionTokens :: int

record usage =
  us_PromptTokens :: int
  us_CompletionTokens :: int
  us_TotalTokens :: int
  us_PromptCacheHitTokens :: int
  us_PromptCacheMissTokens :: int
  us_PromptTokensDetails :: "prompt_tokens_details option"
  us_CompletionTokensDetails :: "completion_tokens_details option"
  us_PromptCacheMetricsObserved :: bool

definition zero_usage :: usage where
  "zero_usage =
     \<lparr>us_PromptTokens = 0, us_CompletionTokens = 0, us_TotalTokens = 0, us_PromptCacheHitTokens = 0, us_PromptCacheMissTokens = 0,
      us_PromptTokensDetails = None, us_CompletionTokensDetails = None, us_PromptCacheMetricsObserved = False\<rparr>"

section \<open>Reading a usage\<close>

definition cached_detail :: "usage \<Rightarrow> int" where
  "cached_detail u = (case us_PromptTokensDetails u of None \<Rightarrow> 0 | Some d \<Rightarrow> ptd_CachedTokens d)"

definition HasPromptCacheMetrics :: "usage \<Rightarrow> bool" where
  "HasPromptCacheMetrics u \<longleftrightarrow>
     us_PromptCacheMetricsObserved u \<or> us_PromptCacheHitTokens u > 0 \<or> us_PromptCacheMissTokens u > 0 \<or> cached_detail u > 0"

definition PromptCachedTokens :: "usage \<Rightarrow> int" where
  "PromptCachedTokens u = (if cached_detail u > 0 then cached_detail u else max 0 (us_PromptCacheHitTokens u))"

definition PromptCacheMissTokensEffective :: "usage \<Rightarrow> int" where
  "PromptCacheMissTokensEffective u =
     (if \<not> HasPromptCacheMetrics u then 0
      else if us_PromptCacheMissTokens u > 0 then us_PromptCacheMissTokens u
      else let prompt = max 0 (us_PromptTokens u); hit = PromptCachedTokens u
           in if prompt > hit then prompt - hit else 0)"

text \<open>The quotient of two \<^verbatim>\<open>int\<close>s as \<^verbatim>\<open>float64\<close>.\<close>

definition f64_ratio :: "int \<Rightarrow> int \<Rightarrow> f64" where
  "f64_ratio a b = f64_round (f64_round (of_int a) / f64_round (of_int b))"

definition PromptCacheHitRate :: "usage \<Rightarrow> f64" where
  "PromptCacheHitRate u =
     (let prompt = max 0 (us_PromptTokens u); hit = PromptCachedTokens u
      in if \<not> HasPromptCacheMetrics u then -1
         else if prompt \<le> 0 then -1
         else if hit \<le> 0 then 0
         else f64_ratio (if hit > prompt then prompt else hit) prompt)"

definition PromptAudioTokens :: "usage \<Rightarrow> int" where
  "PromptAudioTokens u = (case us_PromptTokensDetails u of None \<Rightarrow> 0 | Some d \<Rightarrow> max 0 (ptd_AudioTokens d))"

definition CompletionReasoningTokens :: "usage \<Rightarrow> int" where
  "CompletionReasoningTokens u = (case us_CompletionTokensDetails u of None \<Rightarrow> 0 | Some d \<Rightarrow> max 0 (ctd_ReasoningTokens d))"

section \<open>Aligning the two forms\<close>

definition clampNonNegative :: "usage \<Rightarrow> usage" where
  "clampNonNegative u =
     u\<lparr>us_PromptTokens := max 0 (us_PromptTokens u), us_CompletionTokens := max 0 (us_CompletionTokens u),
       us_TotalTokens := max 0 (us_TotalTokens u), us_PromptCacheHitTokens := max 0 (us_PromptCacheHitTokens u),
       us_PromptCacheMissTokens := max 0 (us_PromptCacheMissTokens u)\<rparr>"

definition ensurePromptDetails :: "usage \<Rightarrow> prompt_tokens_details" where
  "ensurePromptDetails u =
     (case us_PromptTokensDetails u of None \<Rightarrow> \<lparr>ptd_CachedTokens = 0, ptd_AudioTokens = 0\<rparr> | Some d \<Rightarrow> d)"

definition ensureCompletionDetails :: "usage \<Rightarrow> completion_tokens_details" where
  "ensureCompletionDetails u =
     (case us_CompletionTokensDetails u of
        None \<Rightarrow> \<lparr>ctd_ReasoningTokens = 0, ctd_AudioTokens = 0, ctd_AcceptedPredictionTokens = 0, ctd_RejectedPredictionTokens = 0\<rparr>
      | Some d \<Rightarrow> d)"

text \<open>\<^verbatim>\<open>u.ensurePromptDetails().CachedTokens = n\<close>\<close>

definition set_cached :: "int \<Rightarrow> usage \<Rightarrow> usage" where
  "set_cached n u = u\<lparr>us_PromptTokensDetails := Some ((ensurePromptDetails u)\<lparr>ptd_CachedTokens := n\<rparr>)\<rparr>"

text \<open>The hits and misses once the prompt size is known.\<close>

definition align_counts :: "int \<Rightarrow> int \<Rightarrow> int \<Rightarrow> int \<times> int" where
  "align_counts prompt hit0 miss0 =
     (if prompt > 0 then
        let miss1 = (if miss0 \<le> 0 \<and> hit0 > 0 \<and> hit0 \<le> prompt then prompt - hit0 else miss0);
            hit1 = (if hit0 \<le> 0 \<and> miss1 > 0 \<and> miss1 \<le> prompt then prompt - miss1 else hit0);
            hit2 = (if hit1 > prompt then prompt else hit1);
            miss2 = (if miss1 > prompt then prompt else miss1);
            miss3 = (if hit2 > 0 \<and> miss2 \<le> 0 \<and> prompt > hit2 then prompt - hit2 else miss2)
        in (hit2, miss3)
      else (hit0, miss0))"

text \<open>The counters are written back, and a missing total or prompt size is filled in.\<close>

definition write_counts :: "int \<Rightarrow> int \<Rightarrow> int \<times> int \<Rightarrow> usage \<Rightarrow> usage" where
  "write_counts prompt cached counts u =
     (let (hit, miss) = counts;
          u4 = u\<lparr>us_PromptCacheHitTokens := hit, us_PromptCacheMissTokens := miss\<rparr>;
          u5 = (if hit > 0 \<or> cached > 0 then set_cached (max hit cached) u4 else u4);
          u6 = (if us_TotalTokens u5 \<le> 0 \<and> (prompt > 0 \<or> us_CompletionTokens u5 > 0)
                then u5\<lparr>us_TotalTokens := prompt + max 0 (us_CompletionTokens u5)\<rparr> else u5)
      in if prompt \<le> 0 \<and> hit + miss > 0 then u6\<lparr>us_PromptTokens := hit + miss\<rparr> else u6)"

definition Normalize :: "usage \<Rightarrow> usage" where
  "Normalize u0 =
     (let u = clampNonNegative u0;
          u1 = (if us_PromptCacheHitTokens u > 0 \<or> us_PromptCacheMissTokens u > 0 \<or> cached_detail u > 0
                then u\<lparr>us_PromptCacheMetricsObserved := True\<rparr> else u);
          cached0 = PromptCachedTokens u1; hit0 = max 0 (us_PromptCacheHitTokens u1); miss0 = max 0 (us_PromptCacheMissTokens u1);
          (u2, cached) = (if cached0 \<le> 0 \<and> hit0 > 0 then (set_cached hit0 u1, hit0) else (u1, cached0));
          (u3, hit1) = (if hit0 \<le> 0 \<and> cached > 0 then (u2\<lparr>us_PromptCacheHitTokens := cached\<rparr>, cached) else (u2, hit0));
          prompt = max 0 (us_PromptTokens u3)
      in write_counts prompt cached (align_counts prompt hit1 miss0) u3)"

section \<open>Summing the rounds of a Turn\<close>

definition add_prompt_details :: "prompt_tokens_details option \<Rightarrow> usage \<Rightarrow> usage" where
  "add_prompt_details other u =
     (case other of
        None \<Rightarrow> u
      | Some o' \<Rightarrow>
          let d = ensurePromptDetails u
          in u\<lparr>us_PromptTokensDetails := Some \<lparr>ptd_CachedTokens = ptd_CachedTokens d + ptd_CachedTokens o',
                                                ptd_AudioTokens = ptd_AudioTokens d + ptd_AudioTokens o'\<rparr>\<rparr>)"

definition add_reasoning :: "int \<Rightarrow> usage \<Rightarrow> usage" where
  "add_reasoning rt u =
     (if rt > 0 then
        let d = ensureCompletionDetails u
        in u\<lparr>us_CompletionTokensDetails := Some (d\<lparr>ctd_ReasoningTokens := ctd_ReasoningTokens d + rt\<rparr>)\<rparr>
      else u)"

definition AccumulateFrom :: "usage \<Rightarrow> usage \<Rightarrow> usage" where
  "AccumulateFrom u0 other0 =
     (let other = Normalize other0; u = Normalize u0;
          u1 = u\<lparr>us_PromptTokens := us_PromptTokens u + us_PromptTokens other,
                 us_CompletionTokens := us_CompletionTokens u + us_CompletionTokens other,
                 us_TotalTokens := us_TotalTokens u + us_TotalTokens other,
                 us_PromptCacheHitTokens := us_PromptCacheHitTokens u + us_PromptCacheHitTokens other,
                 us_PromptCacheMissTokens := us_PromptCacheMissTokens u + us_PromptCacheMissTokens other,
                 us_PromptCacheMetricsObserved := us_PromptCacheMetricsObserved u \<or> us_PromptCacheMetricsObserved other\<rparr>
      in Normalize (add_reasoning (CompletionReasoningTokens other) (add_prompt_details (us_PromptTokensDetails other) u1)))"

section \<open>Decoding\<close>

record usage_aux =
  ua_usageFields :: usage
  ua_PromptTokenDetails :: "prompt_tokens_details option"
  ua_CompletionTokenDetails :: "completion_tokens_details option"
  ua_ReasoningTokens :: int

definition promptCacheMetricsPresent :: "(json_raw \<Rightarrow> (string, json_raw) gomap option) \<Rightarrow> json_raw \<Rightarrow> usage option \<Rightarrow> bool" where
  "promptCacheMetricsPresent jsonObject data usage =
     (case jsonObject data of
        None \<Rightarrow> False
      | Some fs \<Rightarrow>
          (\<exists>key\<in>set [''prompt_cache_hit_tokens'', ''prompt_cache_miss_tokens'']. map_of fs key \<noteq> None) \<or>
          (\<exists>key\<in>set [''prompt_tokens_details'', ''prompt_token_details''].
             case map_of fs key of
               None \<Rightarrow> False
             | Some raw \<Rightarrow> (case jsonObject raw of None \<Rightarrow> False | Some details \<Rightarrow> map_of details ''cached_tokens'' \<noteq> None)) \<or>
          (case usage of None \<Rightarrow> False | Some u \<Rightarrow> us_PromptCacheHitTokens u > 0 \<or> us_PromptCacheMissTokens u > 0))"

text \<open>\<open>None\<close> is the error of \<^verbatim>\<open>json.Unmarshal\<close>.\<close>

definition Usage_UnmarshalJSON ::
  "(json_raw \<Rightarrow> usage_aux option) \<Rightarrow> (json_raw \<Rightarrow> (string, json_raw) gomap option) \<Rightarrow> json_raw \<Rightarrow> usage option" where
  "Usage_UnmarshalJSON decode jsonObject data =
     (case decode data of
        None \<Rightarrow> None
      | Some aux \<Rightarrow>
          let u = ua_usageFields aux;
              u1 = (if us_PromptTokensDetails u = None \<and> ua_PromptTokenDetails aux \<noteq> None
                    then u\<lparr>us_PromptTokensDetails := ua_PromptTokenDetails aux\<rparr> else u);
              u2 = (if us_CompletionTokensDetails u1 = None \<and> ua_CompletionTokenDetails aux \<noteq> None
                    then u1\<lparr>us_CompletionTokensDetails := ua_CompletionTokenDetails aux\<rparr> else u1);
              u3 = (if ua_ReasoningTokens aux > 0 \<and> CompletionReasoningTokens u2 \<le> 0
                    then u2\<lparr>us_CompletionTokensDetails :=
                              Some ((ensureCompletionDetails u2)\<lparr>ctd_ReasoningTokens := ua_ReasoningTokens aux\<rparr>)\<rparr>
                    else u2)
          in Some (Normalize (u3\<lparr>us_PromptCacheMetricsObserved := promptCacheMetricsPresent jsonObject data (Some u3)\<rparr>)))"

section \<open>The usage event\<close>

abbreviation any_int :: "int \<Rightarrow> go_any" where "any_int n \<equiv> AnyNumber (of_int n)"

definition sseFieldsWithPrefix :: "string \<Rightarrow> usage \<Rightarrow> (string, go_any) gomap" where
  "sseFieldsWithPrefix prefix u =
     (let norm = Normalize u;
          out = [(prefix @ ''prompt_tokens'', any_int (max 0 (us_PromptTokens norm))),
                 (prefix @ ''completion_tokens'', any_int (max 0 (us_CompletionTokens norm))),
                 (prefix @ ''total_tokens'', any_int (max 0 (us_TotalTokens norm))),
                 (prefix @ ''prompt_cached_tokens'', any_int (PromptCachedTokens norm)),
                 (prefix @ ''prompt_cache_hit_tokens'', any_int (PromptCachedTokens norm)),
                 (prefix @ ''prompt_cache_miss_tokens'', any_int (PromptCacheMissTokensEffective norm)),
                 (prefix @ ''prompt_cache_available'', AnyBool (HasPromptCacheMetrics norm)),
                 (prefix @ ''prompt_audio_tokens'', any_int (PromptAudioTokens norm)),
                 (prefix @ ''reasoning_tokens'', any_int (CompletionReasoningTokens norm))];
          rate = PromptCacheHitRate norm
      in if rate \<ge> 0 then AList.update (prefix @ ''prompt_cache_hit_rate'') (AnyNumber rate) out else out)"

text \<open>The details go into the payload as their JSON objects.\<close>

definition prompt_details_any :: "prompt_tokens_details \<Rightarrow> go_any" where
  "prompt_details_any d = AnyMap [(''cached_tokens'', any_int (ptd_CachedTokens d)), (''audio_tokens'', any_int (ptd_AudioTokens d))]"

definition completion_details_any :: "completion_tokens_details \<Rightarrow> go_any" where
  "completion_details_any d =
     AnyMap [(''reasoning_tokens'', any_int (ctd_ReasoningTokens d)), (''audio_tokens'', any_int (ctd_AudioTokens d)),
             (''accepted_prediction_tokens'', any_int (ctd_AcceptedPredictionTokens d)),
             (''rejected_prediction_tokens'', any_int (ctd_RejectedPredictionTokens d))]"

text \<open>The literal fields of \<^verbatim>\<open>SSEPayload\<close> are those of \<^verbatim>\<open>sseFieldsWithPrefix\<close> without a prefix.\<close>

definition SSEPayload :: "usage \<Rightarrow> (string, go_any) gomap" where
  "SSEPayload u =
     (let norm = Normalize u;
          p0 = sseFieldsWithPrefix [] u;
          p1 = (case us_PromptTokensDetails norm of None \<Rightarrow> p0
                | Some d \<Rightarrow> AList.update ''prompt_tokens_details'' (prompt_details_any d) p0)
      in case us_CompletionTokensDetails norm of None \<Rightarrow> p1
         | Some d \<Rightarrow> AList.update ''completion_tokens_details'' (completion_details_any d) p1)"

definition UsageSSEEvent :: "int \<Rightarrow> usage \<Rightarrow> usage \<Rightarrow> (string, go_any) gomap" where
  "UsageSSEEvent llmStep roundUsage turnUsage =
     (let payload = SSEPayload turnUsage;
          p1 = (if llmStep > 0 then AList.update ''llm_step'' (any_int llmStep) payload else payload)
      in fold (\<lambda>(k, v). AList.update k v) (sseFieldsWithPrefix ''round_'' roundUsage) p1)"

section \<open>The fields after the alignment\<close>

lemma set_cached_fields [simp]:
  "us_PromptTokens (set_cached n u) = us_PromptTokens u" "us_CompletionTokens (set_cached n u) = us_CompletionTokens u"
  "us_TotalTokens (set_cached n u) = us_TotalTokens u" "us_PromptCacheHitTokens (set_cached n u) = us_PromptCacheHitTokens u"
  "us_PromptCacheMissTokens (set_cached n u) = us_PromptCacheMissTokens u" "cached_detail (set_cached n u) = n"
  "us_CompletionTokensDetails (set_cached n u) = us_CompletionTokensDetails u"
  by (simp_all add: set_cached_def cached_detail_def)

lemma cached_detail_upd [simp]:
  "cached_detail (u\<lparr>us_PromptTokens := a\<rparr>) = cached_detail u" "cached_detail (u\<lparr>us_CompletionTokens := a\<rparr>) = cached_detail u"
  "cached_detail (u\<lparr>us_TotalTokens := a\<rparr>) = cached_detail u" "cached_detail (u\<lparr>us_PromptCacheHitTokens := a\<rparr>) = cached_detail u"
  "cached_detail (u\<lparr>us_PromptCacheMissTokens := a\<rparr>) = cached_detail u"
  "cached_detail (u\<lparr>us_PromptCacheMetricsObserved := b\<rparr>) = cached_detail u"
  "cached_detail (u\<lparr>us_CompletionTokensDetails := d\<rparr>) = cached_detail u"
  by (simp_all add: cached_detail_def)

text \<open>The counters that go into \<open>align_counts\<close>.\<close>

definition reported_hit :: "usage \<Rightarrow> int" where
  "reported_hit u = (if us_PromptCacheHitTokens u > 0 then us_PromptCacheHitTokens u else max 0 (cached_detail u))"

definition aligned :: "usage \<Rightarrow> int \<times> int" where
  "aligned u = align_counts (max 0 (us_PromptTokens u)) (reported_hit u) (max 0 (us_PromptCacheMissTokens u))"

text \<open>The same operation without its dead branch: the cached tokens are never fewer than reported hits.\<close>

lemma Normalize_alt:
  "Normalize u = write_counts (max 0 (us_PromptTokens u)) (PromptCachedTokens u) (aligned u)
     ((clampNonNegative u)\<lparr>us_PromptCacheMetricsObserved := HasPromptCacheMetrics u\<rparr>)"
proof -
  have u1: "(if us_PromptCacheHitTokens (clampNonNegative u) > 0 \<or> us_PromptCacheMissTokens (clampNonNegative u) > 0 \<or>
          cached_detail (clampNonNegative u) > 0
        then (clampNonNegative u)\<lparr>us_PromptCacheMetricsObserved := True\<rparr> else clampNonNegative u) =
      (clampNonNegative u)\<lparr>us_PromptCacheMetricsObserved := HasPromptCacheMetrics u\<rparr>"
    by (cases u) (auto simp: clampNonNegative_def HasPromptCacheMetrics_def cached_detail_def less_max_iff_disj)
  show ?thesis
    unfolding Normalize_def u1 Let_def
    by (simp add: clampNonNegative_def aligned_def reported_hit_def PromptCachedTokens_def) (simp add: write_counts_def)
qed

lemma Normalize_fields:
  "us_PromptCacheHitTokens (Normalize u) = fst (aligned u)"
  "us_PromptCacheMissTokens (Normalize u) = snd (aligned u)"
  "us_CompletionTokens (Normalize u) = max 0 (us_CompletionTokens u)"
  "us_PromptTokens (Normalize u) = (if us_PromptTokens u > 0 then us_PromptTokens u else max 0 (fst (aligned u) + snd (aligned u)))"
  "us_TotalTokens (Normalize u) =
     (if us_TotalTokens u > 0 then us_TotalTokens u else max 0 (us_PromptTokens u) + max 0 (us_CompletionTokens u))"
  "cached_detail (Normalize u) =
     (if fst (aligned u) > 0 \<or> PromptCachedTokens u > 0 then max (fst (aligned u)) (PromptCachedTokens u) else cached_detail u)"
  unfolding Normalize_alt write_counts_def Let_def by (auto simp: clampNonNegative_def less_max_iff_disj split: prod.split)

section \<open>Sums\<close>

lemma add_details_fields [simp]:
  "us_PromptTokens (add_prompt_details d u) = us_PromptTokens u" "us_CompletionTokens (add_prompt_details d u) = us_CompletionTokens u"
  "us_TotalTokens (add_prompt_details d u) = us_TotalTokens u" "us_PromptCacheHitTokens (add_prompt_details d u) = us_PromptCacheHitTokens u"
  "us_PromptCacheMissTokens (add_prompt_details d u) = us_PromptCacheMissTokens u"
  "cached_detail (add_prompt_details d u) = cached_detail u + (case d of None \<Rightarrow> 0 | Some d \<Rightarrow> ptd_CachedTokens d)"
  by (auto simp: add_prompt_details_def cached_detail_def ensurePromptDetails_def Let_def split: option.split)

lemma add_reasoning_fields [simp]:
  "us_PromptTokens (add_reasoning n u) = us_PromptTokens u" "us_CompletionTokens (add_reasoning n u) = us_CompletionTokens u"
  "us_TotalTokens (add_reasoning n u) = us_TotalTokens u" "us_PromptCacheHitTokens (add_reasoning n u) = us_PromptCacheHitTokens u"
  "us_PromptCacheMissTokens (add_reasoning n u) = us_PromptCacheMissTokens u" "cached_detail (add_reasoning n u) = cached_detail u"
  by (simp_all add: add_reasoning_def Let_def)

text \<open>
  A usage whose counters agree with each other: all prompt tokens are counted as hits and misses (\<open>metered\<close>), or none are;
  the two forms of the hits agree; a usage with tokens has a total.
\<close>

definition consistent :: "bool \<Rightarrow> usage \<Rightarrow> bool" where
  "consistent metered u \<longleftrightarrow>
     0 \<le> us_PromptTokens u \<and> 0 \<le> us_CompletionTokens u \<and> 0 \<le> us_TotalTokens u \<and>
     0 \<le> us_PromptCacheHitTokens u \<and> 0 \<le> us_PromptCacheMissTokens u \<and>
     us_PromptCacheHitTokens u + us_PromptCacheMissTokens u = (if metered then us_PromptTokens u else 0) \<and>
     cached_detail u = us_PromptCacheHitTokens u \<and>
     (us_TotalTokens u = 0 \<longrightarrow> us_PromptTokens u = 0 \<and> us_CompletionTokens u = 0)"

definition counters :: "(usage \<Rightarrow> int) list" where
  "counters = [us_PromptTokens, us_CompletionTokens, us_TotalTokens, us_PromptCacheHitTokens, us_PromptCacheMissTokens, cached_detail]"

lemma consistent_fixed:
  assumes "consistent b u"
  shows "\<forall>f\<in>set counters. f (Normalize u) = f u"
proof -
  have "aligned u = (us_PromptCacheHitTokens u, us_PromptCacheMissTokens u)"
    using assms by (auto simp: consistent_def aligned_def reported_hit_def align_counts_def Let_def split: if_splits)
  then show ?thesis
    using assms by (auto simp: counters_def Normalize_fields consistent_def PromptCachedTokens_def split: if_splits)
qed

lemma consistent_cong: "\<forall>f\<in>set counters. f u = f v \<Longrightarrow> consistent b u = consistent b v"
  by (simp add: counters_def consistent_def)

lemma consistent_add:
  assumes "consistent b u" "consistent b v" "\<forall>f\<in>set counters. f w = f u + f v"
  shows "consistent b w"
  using assms by (auto simp: counters_def consistent_def)

lemma accumulated:
  assumes u: "consistent b u" and v: "consistent b (Normalize v)"
  shows "\<forall>f\<in>set counters. f (AccumulateFrom u v) = f u + f (Normalize v)"
proof -
  note nu = consistent_fixed[OF u]
  obtain w where w: "AccumulateFrom u v = Normalize w" "\<forall>f\<in>set counters. f w = f (Normalize u) + f (Normalize v)"
  proof
    show "AccumulateFrom u v = Normalize
      (let other = Normalize v; u = Normalize u;
          u1 = u\<lparr>us_PromptTokens := us_PromptTokens u + us_PromptTokens other,
                 us_CompletionTokens := us_CompletionTokens u + us_CompletionTokens other,
                 us_TotalTokens := us_TotalTokens u + us_TotalTokens other,
                 us_PromptCacheHitTokens := us_PromptCacheHitTokens u + us_PromptCacheHitTokens other,
                 us_PromptCacheMissTokens := us_PromptCacheMissTokens u + us_PromptCacheMissTokens other,
                 us_PromptCacheMetricsObserved := us_PromptCacheMetricsObserved u \<or> us_PromptCacheMetricsObserved other\<rparr>;
          u2 = add_prompt_details (us_PromptTokensDetails other) u1
       in add_reasoning (CompletionReasoningTokens other) u2)"
      by (simp add: AccumulateFrom_def Let_def)
  qed (auto simp: Let_def counters_def cached_detail_def[of "Normalize v"])
  have "consistent b w" by (rule consistent_add[OF _ v w(2)]) (use u consistent_cong[of "Normalize u" u] nu in blast)
  then show ?thesis using consistent_fixed[of b w] w nu by (simp add: counters_def)
qed


definition round_usage :: "int \<Rightarrow> int \<Rightarrow> int \<Rightarrow> int \<Rightarrow> usage" where
  "round_usage prompt completion hit miss =
     zero_usage\<lparr>us_PromptTokens := prompt, us_CompletionTokens := completion,
       us_PromptCacheHitTokens := hit, us_PromptCacheMissTokens := miss\<rparr>"


section \<open>Where the alignment goes wrong\<close>

text \<open>A round that reports misses only, then a round without cache counters: the sum reports cache hits that no round had.\<close>

lemma invented_cache_hits:
  "let t = foldl AccumulateFrom zero_usage [round_usage 100 10 0 100, round_usage 100 10 0 0]
   in us_PromptCacheHitTokens (Normalize (round_usage 100 10 0 100)) = 0 \<and>
      us_PromptCacheHitTokens (Normalize (round_usage 100 10 0 0)) = 0 \<and>
      PromptCachedTokens t = 100 \<and> PromptCacheHitRate t = 1 / 2"
  by code_simp

text \<open>
  A usage without a prompt size gets one from the counters after the total was filled in: the total misses the prompt, and the
  next alignment changes the usage again.
\<close>

lemma normalize_unstable:
  "us_TotalTokens (Normalize (round_usage 0 0 60 40)) = 0 \<and> us_TotalTokens (Normalize (Normalize (round_usage 0 0 60 40))) = 100"
  "us_PromptTokens (Normalize (round_usage 0 7 60 40)) = 100 \<and> us_TotalTokens (Normalize (round_usage 0 7 60 40)) = 7"
  by code_simp+

section \<open>Rates\<close>

lemma pow2_pos: "0 < pow2 e"
  by (simp add: pow2_def)

lemma pow2_neg: "e \<le> 0 \<Longrightarrow> pow2 e = 1 / of_int (2 ^ nat (- e))"
  by (auto simp: pow2_def)

lemma round_half_even_int [simp]: "round_half_even (of_int n) = n"
  by (simp add: round_half_even_def)

lemma round_half_even_range:
  assumes "0 \<le> q" "q \<le> of_int n"
  shows "0 \<le> round_half_even q" "round_half_even q \<le> n"
proof -
  have f: "0 \<le> \<lfloor>q\<rfloor>" "\<lfloor>q\<rfloor> \<le> n" using assms by (simp_all add: floor_le_iff)
  moreover have "q - of_int \<lfloor>q\<rfloor> = 0 \<or> \<lfloor>q\<rfloor> + 1 \<le> n" using assms(2) of_int_floor_le[of q] f(2)
    by (cases "\<lfloor>q\<rfloor> = n") auto
  ultimately show "0 \<le> round_half_even q" "round_half_even q \<le> n" by (auto simp: round_half_even_def Let_def)
qed

lemma f64_exponent_le_1:
  assumes "0 < x" "x \<le> 1"
  shows "f64_exponent x \<le> 0"
proof -
  obtain p q where pq: "quotient_of x = (p, q)" by (cases "quotient_of x")
  then have "0 < q" "x = of_int p / of_int q" by (simp_all add: quotient_of_denom_pos quotient_of_div)
  then have "p \<le> q" using assms(2) by (simp add: divide_le_eq)
  moreover have "0 < p" using assms(1) \<open>x = of_int p / of_int q\<close> \<open>0 < q\<close> by (simp add: zero_less_divide_iff)
  ultimately have "bitlen p \<le> bitlen q" by (simp add: bitlen_def floorlog_mono)
  then show ?thesis using assms pq by (simp add: f64_exponent_def Let_def)
qed

lemma f64_round_unit:
  assumes "0 \<le> x" "x \<le> 1"
  shows "0 \<le> f64_round x" "f64_round x \<le> 1"
proof -
  have "0 \<le> f64_round x \<and> f64_round x \<le> 1"
  proof (cases "x = 0")
    case False
    let ?k = "max (f64_exponent x) (-1022) - 52"
    have k: "?k \<le> 0" using f64_exponent_le_1[of x] assms False by simp
    let ?n = "2 ^ nat (- ?k) :: int"
    have u: "pow2 ?k = 1 / of_int ?n" using pow2_neg[OF k] by simp
    have "x / pow2 ?k = x * of_int ?n" by (simp add: u)
    also have "\<dots> \<le> of_int ?n" using assms by (simp add: mult_left_le_one_le)
    finally have r: "0 \<le> round_half_even (x / pow2 ?k)" "round_half_even (x / pow2 ?k) \<le> ?n"
      using round_half_even_range[of "x / pow2 ?k" ?n] assms(1) pow2_pos[of ?k] by simp_all
    then have "of_int (round_half_even (x / pow2 ?k)) \<le> (of_int ?n :: rat)" by (simp only: of_int_le_iff)
    then have "of_int (round_half_even (x / pow2 ?k)) * pow2 ?k \<le> 1" unfolding u by (simp add: divide_le_eq)
    moreover have "0 \<le> of_int (round_half_even (x / pow2 ?k)) * pow2 ?k" using r(1) pow2_pos[of ?k] by simp
    ultimately show ?thesis using False by (simp add: f64_round_def Let_def)
  qed (simp add: f64_round_def)
  then show "0 \<le> f64_round x" "f64_round x \<le> 1" by simp_all
qed

lemma f64_round_int:
  assumes "0 \<le> n" "n < 2 ^ 53"
  shows "f64_round (of_int n) = of_int n"
proof (cases "n = 0")
  case False
  with assms have pos: "0 < n" by simp
  have b: "1 \<le> bitlen n" "bitlen n \<le> 53" "2 ^ nat (bitlen n - 1) \<le> n"
    using bitlen_bounds[OF pos] bitlen_le_iff_power[of n 53] assms bitlen_nonneg[of n] bitlen_eq_zero_iff[of n] pos by auto
  have e: "f64_exponent (of_int n) = bitlen n - 1"
  proof -
    have "(of_int (2 ^ nat (bitlen n - 1)) :: rat) \<le> of_int n" using b(3) by (simp only: of_int_le_iff)
    moreover have "bitlen 1 = 1" by (simp add: bitlen_alt_def)
    ultimately show ?thesis using b(1) pos by (simp add: f64_exponent_def pow2_def Let_def)
  qed
  let ?k = "max (bitlen n - 1) (-1022) - 52"
  have "?k \<le> 0" using b by simp
  then have u: "pow2 ?k = 1 / of_int (2 ^ nat (- ?k))" by (rule pow2_neg)
  have "of_int n / pow2 ?k = (of_int (n * 2 ^ nat (- ?k)) :: rat)" unfolding u by simp
  then have "of_int (round_half_even (of_int n / pow2 ?k)) * pow2 ?k = of_int n"
    unfolding u by (simp only: round_half_even_int) simp
  then show ?thesis using False e by (simp add: f64_round_def Let_def)
qed (simp add: f64_round_def)

text \<open>Quotients of token counts below 2 to the 53 are rates.\<close>

lemma f64_ratio_unit:
  assumes "0 \<le> a" "a \<le> b" "b < 2 ^ 53"
  shows "0 \<le> f64_ratio a b" "f64_ratio a b \<le> 1"
proof -
  have "f64_ratio a b = f64_round (of_int a / of_int b)" using assms by (simp add: f64_ratio_def f64_round_int)
  moreover have "0 \<le> (of_int a / of_int b :: rat)" "of_int a / of_int b \<le> (1 :: rat)" using assms by (auto simp: divide_le_eq_1)
  ultimately show "0 \<le> f64_ratio a b" "f64_ratio a b \<le> 1" using f64_round_unit by simp_all
qed

lemma hit_rate_range:
  "us_PromptTokens u < 2 ^ 53 \<Longrightarrow> PromptCacheHitRate u = -1 \<or> 0 \<le> PromptCacheHitRate u \<and> PromptCacheHitRate u \<le> 1"
  using f64_ratio_unit by (auto simp: PromptCacheHitRate_def Let_def)

end
