(* ===== verification/Workspace.thy ===== *)
theory Workspace
  imports Prelude "HOL-Library.Sublist"
begin

text \<open>
  Write leases on workspaces: \<^verbatim>\<open>workspacecoord/coordinator.go\<close>, on a Unix system (the separator is a slash and
  case matters).

  The lexical functions of \<^verbatim>\<open>path/filepath\<close> the code calls (\<^verbatim>\<open>Clean\<close>, \<^verbatim>\<open>Join\<close>, \<^verbatim>\<open>Rel\<close> of two absolute paths) are
  defined on the components of a path; what the file system says (\<^verbatim>\<open>Lstat\<close>, \<^verbatim>\<open>EvalSymlinks\<close>) is a parameter. The wake channel is
  the number of times it was replaced. \<^verbatim>\<open>TryAcquire\<close> blocks: its rounds are given by the list of what each round finds, the coordinator
  at that moment and whether the context is done.

  \<open>leases_disjoint\<close>: two leases that are held at the same time never cover one another's directory, however the acquisitions and releases
  are interleaved, and each held lease has exactly one token that can release it.
\<close>

section \<open>Paths\<close>

fun split_slash :: "string \<Rightarrow> string \<Rightarrow> string list" where
  "split_slash acc [] = [acc]"
| "split_slash acc (ch # s) = (if ch = CHR ''/'' then acc # split_slash [] s else split_slash (acc @ [ch]) s)"

fun clean_comps :: "bool \<Rightarrow> string list \<Rightarrow> string list \<Rightarrow> string list" where
  "clean_comps rooted out [] = out"
| "clean_comps rooted out (p # ps) =
     (if p = [] \<or> p = ''.'' then clean_comps rooted out ps
      else if p = ''..'' then
        (if out \<noteq> [] \<and> last out \<noteq> ''..'' then clean_comps rooted (butlast out) ps
         else if rooted then clean_comps rooted out ps
         else clean_comps rooted (out @ [''..'']) ps)
      else clean_comps rooted (out @ [p]) ps)"

definition is_abs :: "string \<Rightarrow> bool" where
  "is_abs p \<longleftrightarrow> p \<noteq> [] \<and> hd p = CHR ''/''"

text \<open>The components of the cleaned path.\<close>

definition comps :: "string \<Rightarrow> string list" where
  "comps p = clean_comps (is_abs p) [] (split_slash [] p)"

fun join_slash :: "string list \<Rightarrow> string" where
  "join_slash [] = []"
| "join_slash [c] = c"
| "join_slash (c # d # cs) = c @ ''/'' @ join_slash (d # cs)"

definition path_clean :: "string \<Rightarrow> string" where
  "path_clean p =
     (if is_abs p then ''/'' @ join_slash (comps p)
      else if comps p = [] then ''.'' else join_slash (comps p))"

text \<open>\<^verbatim>\<open>filepath.Rel\<close> of two absolute paths: the components of the result; no components stand for the dot.\<close>

definition path_rel :: "string \<Rightarrow> string \<Rightarrow> string list" where
  "path_rel base targ =
     (let b = comps base; t = comps targ; common = longest_common_prefix b t
      in replicate (length b - length common) ''..'' @ drop (length common) t)"

section \<open>Canonical paths\<close>

datatype lstat_result = LstatOK | LstatNotExist | LstatError

record file_system =
  fs_lstat :: "string \<Rightarrow> lstat_result"
  fs_evalSymlinks :: "string \<Rightarrow> string option"

datatype path_error = ErrNotAbsolute | ErrParentTraversal | ErrResolve | ErrNoParent

fun fields_slash :: "string \<Rightarrow> string \<Rightarrow> string list" where
  "fields_slash acc [] = (if acc = [] then [] else [acc])"
| "fields_slash acc (ch # s) =
     (if ch = CHR ''/'' \<or> ch = CHR 0x5C then (if acc = [] then fields_slash [] s else acc # fields_slash [] s)
      else fields_slash (acc @ [ch]) s)"

text \<open>The walk up to the first existing parent, on the components; \<open>missing\<close> collects the missing ones, innermost first.\<close>

function existing_parent :: "file_system \<Rightarrow> string list \<Rightarrow> string list \<Rightarrow> path_error + (string list \<times> string list)" where
  "existing_parent fs cur missing =
     (case fs_lstat fs (''/'' @ join_slash cur) of
        LstatOK \<Rightarrow> Inr (cur, missing)
      | LstatError \<Rightarrow> Inl ErrResolve
      | LstatNotExist \<Rightarrow> if cur = [] then Inl ErrNoParent else existing_parent fs (butlast cur) (missing @ [last cur]))"
  by pat_completeness auto
termination
  by (relation "measure (\<lambda>(fs, cur, missing). length cur)") auto

declare existing_parent.simps [simp del]

definition Canonical :: "file_system \<Rightarrow> string \<Rightarrow> path_error + string" where
  "Canonical fs raw0 =
     (let raw = trim_space raw0
      in if raw = [] \<or> \<not> is_abs raw then Inl ErrNotAbsolute
         else if ''..'' \<in> set (fields_slash [] raw) then Inl ErrParentTraversal
         else case existing_parent fs (comps (path_clean raw)) [] of
                Inl e \<Rightarrow> Inl e
              | Inr (cur, missing) \<Rightarrow>
                 (case fs_evalSymlinks fs (''/'' @ join_slash cur) of
                    None \<Rightarrow> Inl ErrResolve
                  | Some resolved \<Rightarrow>
                      Inr (path_clean (foldl (\<lambda>p s. path_clean (p @ ''/'' @ s)) resolved (rev missing)))))"

section \<open>Conflicts\<close>

definition comparable_path :: "string \<Rightarrow> string" where
  "comparable_path p = path_clean p"

definition pathParent :: "string \<Rightarrow> string \<Rightarrow> bool" where
  "pathParent parent child \<longleftrightarrow>
     path_rel parent child \<noteq> [] \<and> hd (path_rel parent child) \<noteq> ''..''"

definition path_conflict :: "string \<Rightarrow> string \<Rightarrow> bool" where
  "path_conflict a0 b0 \<longleftrightarrow>
     (let a = comparable_path a0; b = comparable_path b0 in a = b \<or> pathParent a b \<or> pathParent b a)"

section \<open>Leases\<close>

record held_lease =
  hl_id :: u64
  hl_root :: string
  hl_owner :: string

record ws_coordinator =
  wc_wake :: nat
  wc_next :: u64
  wc_held :: "(u64, held_lease) gomap"

text \<open>A token: the id it holds and whether its \<^verbatim>\<open>sync.Once\<close> has run.\<close>

record ws_lease =
  ls_id :: u64
  ls_done :: bool

definition New :: ws_coordinator where
  "New = \<lparr>wc_wake = 0, wc_next = 0, wc_held = []\<rparr>"

datatype acquire_error = ErrPath path_error | ErrContext

datatype acquire_result = Acquired ws_lease | AcquireFailed acquire_error | AcquireBlocked

text \<open>
  One round of the loop on the coordinator it finds: \<open>None\<close> when it goes on to wait. The context is read twice, before the lock is taken
  and once more when no lease conflicts.
\<close>

definition acquire_round :: "string \<Rightarrow> string \<Rightarrow> bool \<times> bool \<Rightarrow> ws_coordinator \<Rightarrow> (acquire_error + ws_lease) option \<times> ws_coordinator" where
  "acquire_round canonical owner ctxDone c =
     (if fst ctxDone then (Some (Inl ErrContext), c)
      else if \<exists>(i, h)\<in>set (wc_held c). path_conflict (hl_root h) canonical then (None, c)
      else if snd ctxDone then (Some (Inl ErrContext), c)
      else let i = wc_next c + 1
           in (Some (Inr \<lparr>ls_id = i, ls_done = False\<rparr>),
               c\<lparr>wc_next := i, wc_held := AList.update i \<lparr>hl_id = i, hl_root = canonical, hl_owner = owner\<rparr> (wc_held c)\<rparr>))"

datatype wait_choice = WaitCtxDone | WaitWoken "bool \<times> bool" ws_coordinator

fun acquire_loop :: "string \<Rightarrow> string \<Rightarrow> bool \<times> bool \<Rightarrow> ws_coordinator \<Rightarrow> wait_choice list \<Rightarrow> acquire_result \<times> ws_coordinator" where
  "acquire_loop canonical owner ctxDone c choices =
     (case acquire_round canonical owner ctxDone c of
        (Some (Inl e), c') \<Rightarrow> (AcquireFailed e, c')
      | (Some (Inr l), c') \<Rightarrow> (Acquired l, c')
      | (None, c') \<Rightarrow>
          (case choices of
             [] \<Rightarrow> (AcquireBlocked, c')
           | WaitCtxDone # _ \<Rightarrow> (AcquireFailed ErrContext, c')
           | WaitWoken ctxDone' c'' # rest \<Rightarrow> acquire_loop canonical owner ctxDone' c'' rest))"

definition TryAcquire :: "file_system \<Rightarrow> string \<Rightarrow> string \<Rightarrow> bool \<times> bool \<Rightarrow> ws_coordinator \<Rightarrow> wait_choice list \<Rightarrow> acquire_result \<times> ws_coordinator" where
  "TryAcquire fs rootPath owner ctxDone c choices =
     (case Canonical fs rootPath of
        Inl e \<Rightarrow> (AcquireFailed (ErrPath e), c)
      | Inr canonical \<Rightarrow> acquire_loop canonical owner ctxDone c choices)"

definition Release :: "ws_lease \<Rightarrow> ws_coordinator \<Rightarrow> ws_lease \<times> ws_coordinator" where
  "Release l c =
     (if ls_done l then (l, c)
      else (l\<lparr>ls_done := True\<rparr>,
            if map_of (wc_held c) (ls_id l) \<noteq> None
            then c\<lparr>wc_held := AList.delete (ls_id l) (wc_held c), wc_wake := wc_wake c + 1\<rparr> else c))"

section \<open>Conflicts are prefixes\<close>

definition normal_comp :: "string \<Rightarrow> bool" where
  "normal_comp c \<longleftrightarrow> c \<noteq> [] \<and> c \<noteq> ''.'' \<and> c \<noteq> ''..'' \<and> CHR ''/'' \<notin> set c"

lemma split_slash_no_slash: "CHR ''/'' \<notin> set acc \<Longrightarrow> \<forall>c\<in>set (split_slash acc s). CHR ''/'' \<notin> set c"
  by (induction acc s rule: split_slash.induct) auto

lemma split_slash_app: "CHR ''/'' \<notin> set c \<Longrightarrow> split_slash acc (c @ CHR ''/'' # s) = (acc @ c) # split_slash [] s"
  by (induction c arbitrary: acc) auto

lemma split_slash_plain: "CHR ''/'' \<notin> set c \<Longrightarrow> split_slash acc c = [acc @ c]"
  by (induction c arbitrary: acc) auto

lemma split_join: "cs \<noteq> [] \<Longrightarrow> \<forall>c\<in>set cs. CHR ''/'' \<notin> set c \<Longrightarrow> split_slash [] (join_slash cs) = cs"
  by (induction cs rule: join_slash.induct) (simp_all add: split_slash_app split_slash_plain)

lemma clean_normal: "list_all normal_comp ps \<Longrightarrow> clean_comps r out ps = out @ ps"
  by (induction ps arbitrary: out) (auto simp: normal_comp_def)

lemma clean_rooted_normal:
  "list_all normal_comp out \<Longrightarrow> \<forall>p\<in>set ps. CHR ''/'' \<notin> set p \<Longrightarrow> list_all normal_comp (clean_comps True out ps)"
proof (induction ps arbitrary: out)
  case (Cons p ps)
  have b: "list_all normal_comp (butlast out)" using Cons.prems(1) by (auto simp: list_all_iff dest: in_set_butlastD)
  have IH: "list_all normal_comp out' \<Longrightarrow> list_all normal_comp (clean_comps True out' ps)" for out'
    using Cons.IH Cons.prems(2) by simp
  consider "p = [] \<or> p = ''.''" | "p = ''..''" | "normal_comp p" using Cons.prems(2) by (auto simp: normal_comp_def)
  then show ?case
  proof cases
    case 3
    then have "p \<noteq> []" "p \<noteq> ''.''" "p \<noteq> ''..''" by (auto simp: normal_comp_def)
    then show ?thesis using IH[of "out @ [p]"] Cons.prems(1) 3 by simp
  qed (use IH[of out] IH[of "butlast out"] b Cons.prems(1) in auto)
qed simp

lemma comps_normal: "is_abs p \<Longrightarrow> list_all normal_comp (comps p)"
  using clean_rooted_normal[of "[]" "split_slash [] p"] split_slash_no_slash[of "[]" p] by (simp add: comps_def)

lemma abs_path: "is_abs (''/'' @ s)"
  by (simp add: is_abs_def)

lemma comps_join:
  assumes "list_all normal_comp cs"
  shows "comps (''/'' @ join_slash cs) = cs"
proof (cases "cs = []")
  case True
  then show ?thesis by (simp add: comps_def)
next
  case False
  then have "split_slash [] (join_slash cs) = cs"
    using assms by (intro split_join) (auto simp: list_all_iff normal_comp_def)
  then show ?thesis using clean_normal[OF assms, of True "[]"] abs_path[of "join_slash cs"] by (simp add: comps_def)
qed

lemma comps_clean [simp]: "is_abs p \<Longrightarrow> comps (path_clean p) = comps p"
  using comps_join[OF comps_normal, of p] by (simp add: path_clean_def)

lemma clean_abs: "is_abs p \<Longrightarrow> is_abs (path_clean p)"
  by (simp add: path_clean_def is_abs_def)

lemma clean_eq_iff:
  assumes "is_abs a" "is_abs b"
  shows "path_clean a = path_clean b \<longleftrightarrow> comps a = comps b"
  using assms comps_clean by (metis path_clean_def)

lemma parent_iff:
  assumes "is_abs b"
  shows "pathParent a b \<longleftrightarrow> strict_prefix (comps a) (comps b)"
proof -
  let ?l = "longest_common_prefix (comps a) (comps b)"
  have pa: "prefix ?l (comps a)" and pb: "prefix ?l (comps b)" by (rule longest_common_prefix_prefix1 longest_common_prefix_prefix2)+
  show ?thesis
  proof (cases "prefix (comps a) (comps b)")
    case True
    then have "prefix (comps a) ?l" by (intro longest_common_prefix_max_prefix) auto
    then have l: "?l = comps a" using pa by (simp add: prefix_order.antisym)
    obtain rest where r: "comps b = comps a @ rest" using True by (auto simp: prefix_def)
    have "path_rel a b = rest" unfolding path_rel_def Let_def l using r by simp
    moreover have "''..'' \<notin> set rest" using comps_normal[OF assms] r by (auto simp: list_all_iff normal_comp_def)
    ultimately show ?thesis using r by (cases rest) (auto simp: pathParent_def strict_prefix_def)
  next
    case False
    then have "strict_prefix ?l (comps a)" using pa pb by (auto simp: strict_prefix_def)
    then have "length ?l < length (comps a)" by (rule prefix_length_less)
    then have "path_rel a b \<noteq> []" "hd (path_rel a b) = ''..''"
      by (auto simp: path_rel_def Let_def hd_append)
    then show ?thesis using False by (auto simp: pathParent_def strict_prefix_def)
  qed
qed

lemma conflict_iff:
  assumes "is_abs a" "is_abs b"
  shows "path_conflict a b \<longleftrightarrow> prefix (comps a) (comps b) \<or> prefix (comps b) (comps a)"
proof -
  have "pathParent (path_clean a) (path_clean b) \<longleftrightarrow> strict_prefix (comps a) (comps b)"
    "pathParent (path_clean b) (path_clean a) \<longleftrightarrow> strict_prefix (comps b) (comps a)"
    using parent_iff[OF clean_abs[OF assms(2)], of "path_clean a"] parent_iff[OF clean_abs[OF assms(1)], of "path_clean b"]
    by (simp_all only: comps_clean[OF assms(1)] comps_clean[OF assms(2)])
  moreover have "x = y \<or> strict_prefix x y \<or> strict_prefix y x \<longleftrightarrow> prefix x y \<or> prefix y x" for x y :: "string list"
    by (auto simp: strict_prefix_def)
  ultimately show ?thesis
    unfolding path_conflict_def comparable_path_def Let_def clean_eq_iff[OF assms] by (simp only:)
qed

lemma abs_app: "is_abs p \<Longrightarrow> is_abs (p @ q)"
  by (simp add: is_abs_def)

lemma canonical_abs:
  assumes "Canonical fs raw = Inr p" and "\<forall>x y. is_abs x \<longrightarrow> fs_evalSymlinks fs x = Some y \<longrightarrow> is_abs y"
  shows "is_abs p"
proof -
  have fold: "is_abs q \<Longrightarrow> is_abs (foldl (\<lambda>p s. path_clean (p @ ''/'' @ s)) q ss)" for q ss
    by (induction ss arbitrary: q) (simp_all add: clean_abs abs_app)
  obtain cur missing resolved where "fs_evalSymlinks fs (''/'' @ join_slash cur) = Some resolved"
    "p = path_clean (foldl (\<lambda>p s. path_clean (p @ ''/'' @ s)) resolved (rev missing))"
    using assms(1) by (auto simp: Canonical_def Let_def split: if_splits sum.splits option.splits)
  then show ?thesis using assms(2) abs_path fold[of resolved "rev missing"] clean_abs by metis
qed

section \<open>Interleavings\<close>

text \<open>The coordinator and all tokens handed out so far. An acquisition that succeeds is one step, and so is each call of \<^verbatim>\<open>Release\<close>.\<close>

inductive ws_step :: "file_system \<Rightarrow> ws_coordinator \<times> ws_lease list \<Rightarrow> ws_coordinator \<times> ws_lease list \<Rightarrow> bool" for fs where
  ws_acquire: "\<lbrakk>TryAcquire fs rootPath owner ctxDone c [] = (Acquired l, c')\<rbrakk> \<Longrightarrow> ws_step fs (c, ls) (c', ls @ [l])"
| ws_release: "\<lbrakk>i < length ls; Release (ls ! i) c = (l, c')\<rbrakk> \<Longrightarrow> ws_step fs (c, ls) (c', ls[i := l])"

inductive ws_reachable :: "file_system \<Rightarrow> ws_coordinator \<Rightarrow> ws_lease list \<Rightarrow> bool" for fs where
  ws_init: "ws_reachable fs New []"
| ws_next: "\<lbrakk>ws_reachable fs c ls; ws_step fs (c, ls) (c', ls')\<rbrakk> \<Longrightarrow> ws_reachable fs c' ls'"

inductive_cases ws_stepE: "ws_step fs (c, ls) (c', ls')"

definition live_ids :: "ws_lease list \<Rightarrow> u64 set" where
  "live_ids ls = ls_id ` {l \<in> set ls. \<not> ls_done l}"

definition ws_inv :: "ws_coordinator \<Rightarrow> ws_lease list \<Rightarrow> bool" where
  "ws_inv c ls \<longleftrightarrow>
     wc_next c = of_nat (length ls) \<and> (\<forall>i<length ls. ls_id (ls ! i) = of_nat (Suc i)) \<and>
     distinct (map fst (wc_held c)) \<and> fst ` set (wc_held c) = live_ids ls \<and>
     (\<forall>i h. (i, h) \<in> set (wc_held c) \<longrightarrow> is_abs (hl_root h)) \<and>
     (\<forall>i h j k. (i, h) \<in> set (wc_held c) \<longrightarrow> (j, k) \<in> set (wc_held c) \<longrightarrow> i \<noteq> j \<longrightarrow>
        \<not> path_conflict (hl_root h) (hl_root k))"

lemma acquired_round:
  assumes "TryAcquire fs rootPath owner ctxDone c [] = (Acquired l, c')"
  obtains p where "Canonical fs rootPath = Inr p" "\<forall>i h. (i, h) \<in> set (wc_held c) \<longrightarrow> \<not> path_conflict (hl_root h) p"
    "l = \<lparr>ls_id = wc_next c + 1, ls_done = False\<rparr>"
    "c' = c\<lparr>wc_next := wc_next c + 1,
       wc_held := AList.update (wc_next c + 1) \<lparr>hl_id = wc_next c + 1, hl_root = p, hl_owner = owner\<rparr> (wc_held c)\<rparr>"
proof -
  obtain p where p: "Canonical fs rootPath = Inr p" "acquire_loop p owner ctxDone c [] = (Acquired l, c')"
    using assms by (auto simp: TryAcquire_def split: sum.splits)
  obtain r where "acquire_round p owner ctxDone c = (Some (Inr l), c')"
    using p(2) by (auto split: prod.splits option.splits sum.splits)
  then have "\<forall>i h. (i, h) \<in> set (wc_held c) \<longrightarrow> \<not> path_conflict (hl_root h) p" "l = \<lparr>ls_id = wc_next c + 1, ls_done = False\<rparr>"
    "c' = c\<lparr>wc_next := wc_next c + 1,
       wc_held := AList.update (wc_next c + 1) \<lparr>hl_id = wc_next c + 1, hl_root = p, hl_owner = owner\<rparr> (wc_held c)\<rparr>"
    by (auto simp: acquire_round_def Let_def split: if_splits)
  then show thesis using that p(1) by blast
qed

lemma path_conflict_sym: "path_conflict a b = path_conflict b a"
  by (auto simp: path_conflict_def Let_def)

lemma of_nat_u64_eq: "m < 2 ^ 64 \<Longrightarrow> n < 2 ^ 64 \<Longrightarrow> (of_nat m :: u64) = of_nat n \<longleftrightarrow> m = n"
  by (simp add: word_of_nat_eq_iff take_bit_nat_eq_self)

lemma ids_distinct:
  assumes "\<forall>i<length ls. ls_id (ls ! i) = of_nat (Suc i)" "length ls < 2 ^ 64"
  shows "distinct (map ls_id ls)"
  unfolding distinct_conv_nth
proof (intro allI impI)
  fix i j assume "i < length (map ls_id ls)" "j < length (map ls_id ls)" "i \<noteq> j"
  then show "map ls_id ls ! i \<noteq> map ls_id ls ! j"
    using of_nat_u64_eq[of "Suc i" "Suc j"] assms by (simp del: of_nat_Suc)
qed

lemma live_ids_iff: "x \<in> live_ids ls \<longleftrightarrow> (\<exists>j<length ls. ls_id (ls ! j) = x \<and> \<not> ls_done (ls ! j))"
  by (auto simp: live_ids_def in_set_conv_nth image_iff)

lemma live_ids_snoc: "live_ids (ls @ [\<lparr>ls_id = i, ls_done = False\<rparr>]) = insert i (live_ids ls)"
proof -
  have "{l \<in> set (ls @ [\<lparr>ls_id = i, ls_done = False\<rparr>]). \<not> ls_done l} = insert \<lparr>ls_id = i, ls_done = False\<rparr> {l \<in> set ls. \<not> ls_done l}"
    by auto
  then show ?thesis by (simp add: live_ids_def)
qed

lemma live_ids_done:
  assumes "distinct (map ls_id ls)" "i < length ls"
  shows "live_ids (ls[i := (ls ! i)\<lparr>ls_done := True\<rparr>]) = live_ids ls - {ls_id (ls ! i)}"
proof -
  have inj: "ls_id (ls ! j) = ls_id (ls ! i) \<longleftrightarrow> j = i" if "j < length ls" for j
    using assms that by (auto simp: distinct_conv_nth)
  show ?thesis using inj assms(2) by (auto simp: live_ids_iff nth_list_update split: if_splits)
qed

lemma held_keys_update: "fst ` set (AList.update k v m) = insert k (fst ` set m)"
  using dom_map_of_conv_image_fst[of "AList.update k v m"] by (simp add: update_conv' dom_map_of_conv_image_fst)

lemma ws_inv_acquire:
  assumes inv: "ws_inv c ls" and small: "length ls + 1 < 2 ^ 64"
    and sym: "\<forall>x y. is_abs x \<longrightarrow> fs_evalSymlinks fs x = Some y \<longrightarrow> is_abs y"
    and acq: "TryAcquire fs rootPath owner ctxDone c [] = (Acquired l, c')"
  shows "ws_inv c' (ls @ [l])"
proof -
  obtain p where p: "Canonical fs rootPath = Inr p" "\<forall>i h. (i, h) \<in> set (wc_held c) \<longrightarrow> \<not> path_conflict (hl_root h) p"
    "l = \<lparr>ls_id = wc_next c + 1, ls_done = False\<rparr>"
    "c' = c\<lparr>wc_next := wc_next c + 1,
       wc_held := AList.update (wc_next c + 1) \<lparr>hl_id = wc_next c + 1, hl_root = p, hl_owner = owner\<rparr> (wc_held c)\<rparr>"
    by (rule acquired_round[OF acq])
  let ?id = "wc_next c + 1" and ?h = "\<lparr>hl_id = wc_next c + 1, hl_root = p, hl_owner = owner\<rparr>"
  have nxt: "wc_next c = of_nat (length ls)" and ids: "\<forall>i<length ls. ls_id (ls ! i) = of_nat (Suc i)"
    and keys: "distinct (map fst (wc_held c))" "fst ` set (wc_held c) = live_ids ls"
    using inv by (simp_all add: ws_inv_def)
  have sub: "set (wc_held c') \<subseteq> insert (?id, ?h) (set (wc_held c))" using p(4) set_update_subset by simp
  have "is_abs p" by (rule canonical_abs[OF p(1) sym])
  moreover have "\<forall>i h. (i, h) \<in> set (wc_held c) \<longrightarrow> is_abs (hl_root h)" using inv by (simp add: ws_inv_def)
  ultimately have abs: "\<forall>i h. (i, h) \<in> set (wc_held c') \<longrightarrow> is_abs (hl_root h)" using sub by auto
  have conf: "\<not> path_conflict (hl_root h) (hl_root k)"
    if two: "(i, h) \<in> set (wc_held c')" "(j, k) \<in> set (wc_held c')" "i \<noteq> j" for i h j k
  proof -
    consider "(i, h) \<in> set (wc_held c)" "(j, k) \<in> set (wc_held c)" | "(i, h) \<in> set (wc_held c)" "k = ?h"
      | "h = ?h" "(j, k) \<in> set (wc_held c)"
      using subsetD[OF sub two(1)] subsetD[OF sub two(2)] two(3) by auto
    then show ?thesis
    proof cases
      case 1
      then show ?thesis using inv two(3) unfolding ws_inv_def by blast
    next
      case 2
      then show ?thesis using p(2) by auto
    next
      case 3
      then show ?thesis using p(2) path_conflict_sym[of p "hl_root k"] by auto
    qed
  qed
  have "\<forall>i<length (ls @ [l]). ls_id ((ls @ [l]) ! i) = of_nat (Suc i)"
    using ids nxt p(3) by (simp add: nth_append less_Suc_eq add.commute)
  moreover have "wc_next c' = of_nat (length (ls @ [l]))" "distinct (map fst (wc_held c'))"
    using p(4) nxt keys(1) by (simp_all add: distinct_update)
  moreover have "fst ` set (wc_held c') = live_ids (ls @ [l])"
    using p(3,4) keys(2) by (simp add: held_keys_update live_ids_snoc)
  ultimately show ?thesis using abs conf unfolding ws_inv_def by blast
qed

lemma ws_inv_release:
  assumes inv: "ws_inv c ls" and small: "length ls < 2 ^ 64" and i: "i < length ls"
    and rel: "Release (ls ! i) c = (l, c')"
  shows "ws_inv c' (ls[i := l])"
proof (cases "ls_done (ls ! i)")
  case True
  then have "l = ls ! i" "c' = c" using rel by (simp_all add: Release_def)
  then show ?thesis using inv by simp
next
  case False
  let ?id = "ls_id (ls ! i)"
  have ids: "\<forall>i<length ls. ls_id (ls ! i) = of_nat (Suc i)" and keys: "fst ` set (wc_held c) = live_ids ls"
    using inv by (simp_all add: ws_inv_def)
  have d: "distinct (map ls_id ls)" by (rule ids_distinct[OF ids small])
  have "?id \<in> fst ` set (wc_held c)" using False i unfolding keys by (auto simp: live_ids_def)
  then have m: "map_of (wc_held c) ?id \<noteq> None" by (simp add: map_of_eq_None_iff)
  then have l: "l = (ls ! i)\<lparr>ls_done := True\<rparr>" and c': "c' = c\<lparr>wc_held := AList.delete ?id (wc_held c), wc_wake := wc_wake c + 1\<rparr>"
    using rel False by (auto simp: Release_def)
  have sub: "set (wc_held c') \<subseteq> set (wc_held c)" using c' by (auto simp: AList.delete_eq)
  have "fst ` set (wc_held c') = live_ids (ls[i := l])"
    using c' keys arg_cong[where f=set, OF delete_keys[of ?id "wc_held c"]] by (simp add: l live_ids_done[OF d i])
  moreover have "\<forall>j<length (ls[i := l]). ls_id (ls[i := l] ! j) = of_nat (Suc j)"
    using ids l i by (simp add: nth_list_update)
  moreover have "distinct (map fst (wc_held c'))" using inv c' by (simp add: ws_inv_def distinct_delete)
  moreover have "wc_next c' = of_nat (length (ls[i := l]))" using inv c' by (simp add: ws_inv_def)
  moreover have "\<forall>i h. (i, h) \<in> set (wc_held c') \<longrightarrow> is_abs (hl_root h)"
    using inv sub unfolding ws_inv_def by blast
  moreover have "\<forall>i h j k. (i, h) \<in> set (wc_held c') \<longrightarrow> (j, k) \<in> set (wc_held c') \<longrightarrow> i \<noteq> j \<longrightarrow>
      \<not> path_conflict (hl_root h) (hl_root k)"
    using inv sub unfolding ws_inv_def by blast
  ultimately show ?thesis unfolding ws_inv_def by blast
qed

lemma ws_reachable_inv:
  assumes "ws_reachable fs c ls" "length ls < 2 ^ 64" "\<forall>x y. is_abs x \<longrightarrow> fs_evalSymlinks fs x = Some y \<longrightarrow> is_abs y"
  shows "ws_inv c ls"
  using assms(1,2)
proof (induction rule: ws_reachable.induct)
  case ws_init
  then show ?case by (simp add: ws_inv_def New_def live_ids_def)
next
  case (ws_next c ls c' ls')
  have inv: "length ls < 2 ^ 64 \<Longrightarrow> ws_inv c ls" by (rule ws_next.IH)
  show ?case
  proof (rule ws_stepE[OF ws_next.hyps(2)])
    fix rootPath owner ctxDone l
    assume "ls' = ls @ [l]" "TryAcquire fs rootPath owner ctxDone c [] = (Acquired l, c')"
    then show ?thesis using ws_inv_acquire[OF _ _ assms(3)] inv ws_next.prems by simp
  next
    fix i l
    assume "ls' = ls[i := l]" "i < length ls" "Release (ls ! i) c = (l, c')"
    then show ?thesis using ws_inv_release[of c ls i l c'] inv ws_next.prems by simp
  qed
qed

text \<open>
  C23. However acquisitions and releases are interleaved, for fewer than 2 to the 64 acquisitions: of two leases held at the same time neither directory contains the other,
  and the held ids are exactly the ids of the tokens not yet released, which are pairwise different, so that a token can only release its own lease.
\<close>

theorem leases_disjoint:
  assumes "ws_reachable fs c ls" and "length ls < 2 ^ 64"
    and "\<forall>x y. is_abs x \<longrightarrow> fs_evalSymlinks fs x = Some y \<longrightarrow> is_abs y"
  shows "(\<forall>i h j k. (i, h) \<in> set (wc_held c) \<longrightarrow> (j, k) \<in> set (wc_held c) \<longrightarrow> i \<noteq> j \<longrightarrow>
            \<not> prefix (comps (hl_root h)) (comps (hl_root k))) \<and>
         fst ` set (wc_held c) = ls_id ` {l \<in> set ls. \<not> ls_done l} \<and> distinct (map ls_id ls)"
proof -
  have inv: "ws_inv c ls" by (rule ws_reachable_inv[OF assms])
  have "\<not> prefix (comps (hl_root h)) (comps (hl_root k))"
    if "(i, h) \<in> set (wc_held c)" "(j, k) \<in> set (wc_held c)" "i \<noteq> j" for i h j k
  proof -
    have "is_abs (hl_root h)" "is_abs (hl_root k)" "\<not> path_conflict (hl_root h) (hl_root k)"
      using inv that unfolding ws_inv_def by blast+
    then show ?thesis using conflict_iff by blast
  qed
  moreover have "distinct (map ls_id ls)" using inv assms(2) by (intro ids_distinct) (simp_all add: ws_inv_def)
  moreover have "fst ` set (wc_held c) = ls_id ` {l \<in> set ls. \<not> ls_done l}"
    using inv by (simp add: ws_inv_def live_ids_def)
  ultimately show ?thesis by blast
qed

definition demo_fs :: file_system where
  "demo_fs = \<lparr>fs_lstat = (\<lambda>p. if p = ''/w'' then LstatOK else LstatNotExist), fs_evalSymlinks = (\<lambda>p. Some (''/'' @ p))\<rparr>"

text \<open>Two workspaces are leased; a third acquisition below the first one has to wait until the first is released.\<close>

definition demo_two :: "ws_coordinator" where
  "demo_two = snd (TryAcquire demo_fs ''/w/b'' ''y'' (False, False) (snd (TryAcquire demo_fs ''/w/a'' ''x'' (False, False) New [])) [])"

lemma demo_two_reachable:
  "ws_reachable demo_fs demo_two [\<lparr>ls_id = 1, ls_done = False\<rparr>, \<lparr>ls_id = 2, ls_done = False\<rparr>]"
proof -
  define c1 where "c1 = snd (TryAcquire demo_fs ''/w/a'' ''x'' (False, False) New [])"
  have 1: "TryAcquire demo_fs ''/w/a'' ''x'' (False, False) New [] = (Acquired \<lparr>ls_id = 1, ls_done = False\<rparr>, c1)"
    unfolding c1_def by code_simp
  have 2: "TryAcquire demo_fs ''/w/b'' ''y'' (False, False) c1 [] = (Acquired \<lparr>ls_id = 2, ls_done = False\<rparr>, demo_two)"
    unfolding c1_def demo_two_def by code_simp
  have "ws_reachable demo_fs c1 [\<lparr>ls_id = 1, ls_done = False\<rparr>]"
    using ws_next[OF ws_init ws_acquire[OF 1, of "[]"]] by simp
  from ws_next[OF this ws_acquire[OF 2]] show ?thesis by simp
qed

theorem leases_disjoint_witness:
  "fst ` set (wc_held demo_two) = {1, 2} \<and>
   fst (TryAcquire demo_fs ''/w/a/sub'' ''z'' (False, False) demo_two []) = AcquireBlocked \<and>
   fst (TryAcquire demo_fs ''/w/a/sub'' ''z'' (False, False) demo_two [WaitWoken (False, False) (snd (Release \<lparr>ls_id = 1, ls_done = False\<rparr> demo_two))]) =
     Acquired \<lparr>ls_id = 3, ls_done = False\<rparr>"
proof -
  have abs: "\<forall>x y. is_abs x \<longrightarrow> fs_evalSymlinks demo_fs x = Some y \<longrightarrow> is_abs y" by (simp add: demo_fs_def is_abs_def)
  have small: "length [\<lparr>ls_id = 1, ls_done = False\<rparr>, \<lparr>ls_id = 2 :: u64, ls_done = False\<rparr>] < 2 ^ 64" by simp
  have "fst ` set (wc_held demo_two) = ls_id ` {l \<in> set [\<lparr>ls_id = 1, ls_done = False\<rparr>, \<lparr>ls_id = 2, ls_done = False\<rparr>]. \<not> ls_done l}"
    using leases_disjoint[OF demo_two_reachable small abs] by blast
  also have "{l \<in> set [\<lparr>ls_id = 1, ls_done = False\<rparr>, \<lparr>ls_id = 2, ls_done = False\<rparr>]. \<not> ls_done l} =
      {\<lparr>ls_id = 1, ls_done = False\<rparr>, \<lparr>ls_id = 2, ls_done = False\<rparr>}" by auto
  also have "ls_id ` \<dots> = {1, 2}" by simp
  finally show ?thesis by (intro conjI) (assumption, code_simp, code_simp)
qed

text \<open>A blocked acquisition goes on as soon as a round finds no conflicting lease, and a release that freed a lease replaced the channel it waits on.\<close>

lemma acquire_proceeds:
  assumes "Canonical fs rootPath = Inr p" "\<forall>i h. (i, h) \<in> set (wc_held c) \<longrightarrow> \<not> path_conflict (hl_root h) p"
  shows "fst (TryAcquire fs rootPath owner (False, False) c choices) = Acquired \<lparr>ls_id = wc_next c + 1, ls_done = False\<rparr>"
  using assms by (auto simp: TryAcquire_def acquire_round_def Let_def)

lemma release_wakes:
  assumes "Release l c = (l', c')"
  shows "wc_held c' \<noteq> wc_held c \<longrightarrow> wc_wake c' \<noteq> wc_wake c" "Release l' c' = (l', c')"
  using assms by (auto simp: Release_def split: if_splits)

end
