(* ===== verification/Compression_Flow.thy ===== *)
theory Compression_Flow
  imports Compression Llm_Usage Workspace
begin

text \<open>
  Running compressions: \<^verbatim>\<open>compression/coordinator.go\<close>, \<^verbatim>\<open>silent_cooldown.go\<close>, \<^verbatim>\<open>last_compression.go\<close>,
  \<^verbatim>\<open>metrics.go\<close>, \<^verbatim>\<open>summary_footer.go\<close>, \<^verbatim>\<open>Summarize\<close> of \<^verbatim>\<open>sidecar.go\<close> and the journal path of
  \<^verbatim>\<open>history/journal.go\<close>.

  A session runtime owns a coordinator. Its loop calls \<open>MaybeHandle\<close> before a model step and a user may call \<open>ForceBlocking\<close>, both under
  the runtime's mutex; silent compressions run in goroutines of their own, and \<open>CancelSession\<close> may come at any time. The goroutines are
  the \<open>cst_jobs\<close> of the state. What they and a cancellation do between two critical sections of a foreground call is a list of \<open>move\<close>s, an
  argument of that call; a call that waits for a goroutine and is not woken by its moves is \<open>None\<close>. Tasks are heap cells with a channel
  that is closed at most once: \<open>cst_panicked\<close> records a second close or a slice out of range.

  The provider is an argument too: \<open>cst_asked\<close> is the log of the requests it answered with a text. The token estimate, the fingerprint, the
  fixed prompt texts and the local date are the fields of \<open>comp_env\<close>; hub events and submitted extractions are lists in the state.
\<close>

section \<open>Data\<close>

record ready_compression =
  rc_End :: nat
  rc_Content :: string
  rc_SourceSliceFingerprint :: string
  rc_TriggerLevel :: string
  rc_CompressedMessageCount :: nat
  rc_ApplyMode :: compress_apply_mode
  rc_SidecarUsage :: usage

record force_result =
  fo_Status :: string
  fo_TriggerLevel :: string
  fo_CompressedMessageCount :: nat
  fo_CompressionStart :: nat
  fo_CompressionEnd :: nat
  fo_MessagesCount :: nat
  fo_MessagesTotalTokens :: int
  fo_PromptTokens :: int
  fo_CompletionTokens :: int
  fo_TotalTokens :: int
  fo_TokenReductionRate :: f64
  fo_PromptCacheHitTokens :: int
  fo_PromptCacheMissTokens :: int
  fo_PromptCacheAvailable :: bool

definition status_only :: "string \<Rightarrow> force_result" where
  "status_only status =
     \<lparr>fo_Status = status, fo_TriggerLevel = [], fo_CompressedMessageCount = 0, fo_CompressionStart = 0, fo_CompressionEnd = 0,
      fo_MessagesCount = 0, fo_MessagesTotalTokens = 0, fo_PromptTokens = 0, fo_CompletionTokens = 0, fo_TotalTokens = 0,
      fo_TokenReductionRate = 0, fo_PromptCacheHitTokens = 0, fo_PromptCacheMissTokens = 0, fo_PromptCacheAvailable = False\<rparr>"

record apply_outcome =
  ao_status :: string
  ao_count :: nat
  ao_start :: nat
  ao_end :: nat
  ao_usage :: usage

definition no_outcome :: apply_outcome where
  "no_outcome = \<lparr>ao_status = [], ao_count = 0, ao_start = 0, ao_end = 0, ao_usage = zero_usage\<rparr>"

record compression_task =
  tk_triggerLevel :: string
  tk_compressionStart :: nat
  tk_compressionEnd :: nat
  tk_compressedMessageCount :: nat

definition task_forceResult :: "compression_task option \<Rightarrow> string \<Rightarrow> force_result" where
  "task_forceResult t status =
     (case t of
        None \<Rightarrow> status_only status
      | Some t \<Rightarrow> (status_only status)\<lparr>fo_TriggerLevel := tk_triggerLevel t, fo_CompressionStart := tk_compressionStart t,
          fo_CompressionEnd := tk_compressionEnd t, fo_CompressedMessageCount := tk_compressedMessageCount t\<rparr>)"

record silent_cooldown_state =
  sc_lastAppliedAt :: gotime
  sc_lastAppliedTokens :: int

record last_compression_snapshot =
  lc_TriggerLevel :: string
  lc_Status :: string
  lc_AppliedAt :: gotime
  lc_CompressedMessageCount :: nat
  lc_CompressionStart :: nat
  lc_CompressionEnd :: nat
  lc_PromptTokens :: int
  lc_CompletionTokens :: int
  lc_TotalTokens :: int
  lc_TokenReductionRate :: f64
  lc_PromptCacheHitTokens :: int
  lc_PromptCacheMissTokens :: int
  lc_PromptCacheAvailable :: bool
  lc_PromptCacheHitRate :: f64

record sidecar_prefix =
  spx_SystemPrompt :: string
  spx_Tools :: "json_raw list"

record sidecar_input =
  si_Prefix :: sidecar_prefix
  si_Messages :: "message list"

record chat_request =
  cq_SystemPrompt :: string
  cq_Messages :: "message list"
  cq_Tools :: "json_raw list"

text \<open>What \<^verbatim>\<open>StreamChat\<close> does: the calls of the two handlers and the result, or an error.\<close>

datatype chat_reply = ChatError | ChatReply (reply_deltas: "string list") (reply_usages: "usage list") (reply_content: string)

record extraction_tool_call =
  etc_ID :: string
  etc_Name :: string
  etc_Arguments :: string

record extraction_message =
  em_Role :: string
  em_Name :: string
  em_Content :: string
  em_ToolCallID :: string
  em_ToolCalls :: "extraction_tool_call list"

record extraction_input =
  ei_AgentID :: string
  ei_SessionID :: string
  ei_Scope :: string
  ei_SourceFingerprint :: string
  ei_Messages :: "extraction_message list"

text \<open>A goroutine of \<^verbatim>\<open>startSilentTask\<close> and how far it has come.\<close>

datatype job_stage = JobStarted | JobAsking chat_request | JobFlowDone | JobUnlisted | JobClosed

record silent_job =
  jb_task :: nat
  jb_session :: string
  jb_agent :: string
  jb_input :: sidecar_input
  jb_plan :: compression_plan
  jb_stage :: job_stage

record comp_env =
  cenv_estimate :: "message list \<Rightarrow> int"
  cenv_fingerprint :: "message list \<Rightarrow> string"
  cenv_synthetic :: string
  cenv_prompt :: string
  cenv_day :: "gotime \<Rightarrow> string"

record comp_state =
  cst_client :: bool
  cst_silentTriggerTokens :: int
  cst_blockingTriggerTokens :: int
  cst_rawEnabled :: bool
  cst_rawRoot :: string
  cst_sessionTasks :: "(string, nat) gomap"
  cst_ready :: "(string, ready_compression) gomap"
  cst_last :: "(string, last_compression_snapshot) gomap"
  cst_cooldown :: "(string, silent_cooldown_state) gomap"
  cst_submitter :: bool
  cst_scope :: string
  cst_heap :: "compression_task list"
  cst_closed :: "nat list"
  cst_jobs :: "silent_job list"
  cst_panicked :: bool
  cst_events :: "(string \<times> string \<times> (string, go_any) gomap) list"
  cst_submitted :: "extraction_input list"
  cst_asked :: "(string \<times> chat_request \<times> string) list"

section \<open>Configuration\<close>

definition NewCoordinator :: "bool \<Rightarrow> int \<Rightarrow> int \<Rightarrow> comp_state" where
  "NewCoordinator client silent blocking =
     \<lparr>cst_client = client, cst_silentTriggerTokens = max 0 silent, cst_blockingTriggerTokens = max 0 blocking, cst_rawEnabled = False,
      cst_rawRoot = [], cst_sessionTasks = [], cst_ready = [], cst_last = [], cst_cooldown = [], cst_submitter = False, cst_scope = [],
      cst_heap = [], cst_closed = [], cst_jobs = [], cst_panicked = False, cst_events = [], cst_submitted = [], cst_asked = []\<rparr>"

definition SetCandidateSubmitter :: "bool \<Rightarrow> comp_state \<Rightarrow> comp_state" where
  "SetCandidateSubmitter submitter st = st\<lparr>cst_submitter := submitter\<rparr>"

definition SetCandidateScope :: "string \<Rightarrow> comp_state \<Rightarrow> comp_state" where
  "SetCandidateScope scope st = st\<lparr>cst_scope := (if scope \<noteq> ''global'' then ''agent'' else scope)\<rparr>"

definition SetRawMessageHistoryEnabled :: "bool \<Rightarrow> comp_state \<Rightarrow> comp_state" where
  "SetRawMessageHistoryEnabled enabled st = st\<lparr>cst_rawEnabled := enabled\<rparr>"

definition SetRawMessageHistoryRelativeRoot :: "string \<Rightarrow> comp_state \<Rightarrow> comp_state" where
  "SetRawMessageHistoryRelativeRoot dir st = st\<lparr>cst_rawRoot := trim_space dir\<rparr>"

definition comp_Enabled :: "comp_state \<Rightarrow> bool" where
  "comp_Enabled st \<longleftrightarrow> cst_client st \<and> (cst_silentTriggerTokens st > 0 \<or> cst_blockingTriggerTokens st > 0)"

section \<open>Metrics and events\<close>

definition tokenReductionRate :: "int \<Rightarrow> int \<Rightarrow> f64" where
  "tokenReductionRate promptTokens completionTokens =
     (if promptTokens \<le> 0 \<or> completionTokens \<ge> promptTokens then 0 else f64_ratio (promptTokens - completionTokens) promptTokens)"

definition attachCompressionUsageMetrics :: "(string, go_any) gomap \<Rightarrow> usage \<Rightarrow> (string, go_any) gomap" where
  "attachCompressionUsageMetrics payload u0 =
     (let u = Normalize u0;
          p = fold (\<lambda>(k, v). AList.update k v)
                [(''prompt_tokens'', any_int (max 0 (us_PromptTokens u))),
                 (''completion_tokens'', any_int (max 0 (us_CompletionTokens u))),
                 (''total_tokens'', any_int (max 0 (us_TotalTokens u))),
                 (''token_reduction_rate'', AnyNumber (tokenReductionRate (us_PromptTokens u) (us_CompletionTokens u))),
                 (''prompt_cache_hit_tokens'', any_int (PromptCachedTokens u)),
                 (''prompt_cache_miss_tokens'', any_int (PromptCacheMissTokensEffective u)),
                 (''prompt_cache_available'', AnyBool (HasPromptCacheMetrics u))] payload;
          rate = PromptCacheHitRate u
      in if rate \<ge> 0 then AList.update ''prompt_cache_hit_rate'' (AnyNumber rate) p else p)"

definition compressionEventType :: "string \<Rightarrow> string" where
  "compressionEventType triggerLevel =
     (if triggerLevel = ''silent'' then ''context_compression_silent'' else ''context_compression_blocking'')"

definition hub_event_published :: "string \<Rightarrow> string \<Rightarrow> (string, go_any) gomap \<Rightarrow> comp_state \<Rightarrow> comp_state" where
  "hub_event_published sessionID eventType data st = st\<lparr>cst_events := cst_events st @ [(sessionID, eventType, data)]\<rparr>"

definition publishCompressionEvent ::
  "string \<Rightarrow> string \<Rightarrow> string \<Rightarrow> (string, go_any) gomap \<Rightarrow> comp_state \<Rightarrow> comp_state" where
  "publishCompressionEvent sessionID triggerLevel phase payload st =
     hub_event_published sessionID (compressionEventType triggerLevel)
       (fold (\<lambda>(k, v). AList.update k v) payload [(''phase'', AnyString phase), (''trigger_level'', AnyString triggerLevel)]) st"

definition blocking_failure_text :: string where
  "blocking_failure_text =
     [CHR 0xE4, CHR 0xB8, CHR 0x8A, CHR 0xE4, CHR 0xB8, CHR 0x8B, CHR 0xE6, CHR 0x96, CHR 0x87, CHR 0xE9, CHR 0x98, CHR 0xBB, 
      CHR 0xE5, CHR 0xA1, CHR 0x9E, CHR 0xE5, CHR 0x8E, CHR 0x8B, CHR 0xE7, CHR 0xBC, CHR 0xA9, CHR 0xE5, CHR 0xA4, CHR 0xB1, 
      CHR 0xE8, CHR 0xB4, CHR 0xA5, CHR 0xEF, CHR 0xBC, CHR 0x8C, CHR 0xE5, CHR 0xB7, CHR 0xB2, CHR 0xE7, CHR 0xBB, CHR 0xA7, 
      CHR 0xE7, CHR 0xBB, CHR 0xAD, CHR 0xE4, CHR 0xBD, CHR 0xBF, CHR 0xE7, CHR 0x94, CHR 0xA8, CHR 0xE5, CHR 0x8E, CHR 0x9F, 
      CHR 0xE5, CHR 0xA7, CHR 0x8B, CHR 0xE4, CHR 0xB8, CHR 0x8A, CHR 0xE4, CHR 0xB8, CHR 0x8B, CHR 0xE6, CHR 0x96, CHR 0x87, 
      CHR 0xE3, CHR 0x80, CHR 0x82]"

definition emitBlockingFailure :: "string \<Rightarrow> comp_state \<Rightarrow> comp_state" where
  "emitBlockingFailure sessionID st =
     hub_event_published sessionID ''error''
       [(''message'', AnyString blocking_failure_text), (''recoverable'', AnyBool True), (''stage'', AnyString ''summary_compression'')] st"

definition buildLastCompressionSnapshot :: "ready_compression \<Rightarrow> usage \<Rightarrow> gotime \<Rightarrow> last_compression_snapshot" where
  "buildLastCompressionSnapshot ready u0 now =
     (let u = Normalize u0; rate = PromptCacheHitRate u
      in \<lparr>lc_TriggerLevel = rc_TriggerLevel ready, lc_Status = ''applied'', lc_AppliedAt = now,
          lc_CompressedMessageCount = rc_CompressedMessageCount ready, lc_CompressionStart = 0, lc_CompressionEnd = rc_End ready,
          lc_PromptTokens = max 0 (us_PromptTokens u), lc_CompletionTokens = max 0 (us_CompletionTokens u),
          lc_TotalTokens = max 0 (us_TotalTokens u),
          lc_TokenReductionRate = tokenReductionRate (us_PromptTokens u) (us_CompletionTokens u),
          lc_PromptCacheHitTokens = PromptCachedTokens u, lc_PromptCacheMissTokens = PromptCacheMissTokensEffective u,
          lc_PromptCacheAvailable = HasPromptCacheMetrics u, lc_PromptCacheHitRate = (if rate \<ge> 0 then rate else 0)\<rparr>)"

definition recordLastCompression :: "string \<Rightarrow> last_compression_snapshot \<Rightarrow> comp_state \<Rightarrow> comp_state" where
  "recordLastCompression sessionID snap st =
     (if sessionID = [] then st else st\<lparr>cst_last := AList.update sessionID snap (cst_last st)\<rparr>)"

definition LastCompression :: "string \<Rightarrow> comp_state \<Rightarrow> last_compression_snapshot option" where
  "LastCompression sessionID st = (if sessionID = [] then None else map_of (cst_last st) sessionID)"

section \<open>The footer of a summary\<close>

definition word_char :: "char \<Rightarrow> bool" where
  "word_char c \<longleftrightarrow> (let n = of_char c :: nat in 48 \<le> n \<and> n \<le> 57 \<or> 65 \<le> n \<and> n \<le> 90 \<or> 97 \<le> n \<and> n \<le> 122 \<or> n = 95 \<or> n = 46 \<or> n = 45)"

text \<open>Every run of other bytes becomes one underscore; \<open>inRun\<close> says that the previous byte was one of them.\<close>

fun replace_runs :: "bool \<Rightarrow> string \<Rightarrow> string" where
  "replace_runs inRun [] = []"
| "replace_runs inRun (c # s) =
     (if word_char c then c # replace_runs False s else if inRun then replace_runs True s else CHR ''_'' # replace_runs True s)"

definition maxSessionFilenamePartLen :: nat where "maxSessionFilenamePartLen = 200"

definition sanitizeSessionIDForFilename :: "string \<Rightarrow> string" where
  "sanitizeSessionIDForFilename sessionID =
     (let raw = trim_space sessionID; safe = replace_runs False raw
      in if raw = [] then ''unknown_session''
         else if (\<forall>c\<in>set safe. c \<in> set ''._-'') then ''session''
         else take maxSessionFilenamePartLen safe)"

definition RuntimeJournalRelativePath :: "comp_env \<Rightarrow> string \<Rightarrow> gotime \<Rightarrow> string" where
  "RuntimeJournalRelativePath env sessionID now =
     ''history/'' @ cenv_day env now @ ''/'' @ sanitizeSessionIDForFilename sessionID @ ''.jsonl''"

definition footer_intro :: string where
  "footer_intro =
     [CHR 0x0A, CHR 0x0A, CHR 0x4E, CHR 0x6F, CHR 0x64, CHR 0x65, CHR 0x20, CHR 0xE5, CHR 0xB7, CHR 0xB2, CHR 0xE5, CHR 0xB0, 
      CHR 0x86, CHR 0xE5, CHR 0x8E, CHR 0x9F, CHR 0xE5, CHR 0xA7, CHR 0x8B, CHR 0xE6, CHR 0xB6, CHR 0x88, CHR 0xE6, CHR 0x81, 
      CHR 0xAF, CHR 0xE8, CHR 0xAE, CHR 0xB0, CHR 0xE5, CHR 0xBD, CHR 0x95, CHR 0xE5, CHR 0x88, CHR 0xB0, CHR 0x20]"

definition footer_open :: string where
  "footer_open = [CHR 0xEF, CHR 0xBC, CHR 0x88]"

definition footer_close :: string where
  "footer_close = [CHR 0xEF, CHR 0xBC, CHR 0x89, CHR 0xE3, CHR 0x80, CHR 0x82]"

definition footer_runtime :: string where
  "footer_runtime =
     [CHR 0xE8, CHR 0xAF, CHR 0xA5, CHR 0xE7, CHR 0x9B, CHR 0xAE, CHR 0xE5, CHR 0xBD, CHR 0x95, CHR 0xE4, CHR 0xB8, CHR 0x8D, 
      CHR 0xE5, CHR 0xB1, CHR 0x9E, CHR 0xE4, CHR 0xBA, CHR 0x8E, CHR 0x20, CHR 0x41, CHR 0x67, CHR 0x65, CHR 0x6E, CHR 0x74, 
      CHR 0x20, CHR 0x77, CHR 0x6F, CHR 0x72, CHR 0x6B, CHR 0x73, CHR 0x70, CHR 0x61, CHR 0x63, CHR 0x65]"

definition footer_workspace :: string where
  "footer_workspace =
     [CHR 0xE8, CHR 0xAF, CHR 0xA5, CHR 0xE6, CHR 0x96, CHR 0x87, CHR 0xE4, CHR 0xBB, CHR 0xB6, CHR 0xE5, CHR 0xB1, CHR 0x9E, 
      CHR 0xE4, CHR 0xBA, CHR 0x8E, CHR 0xE5, CHR 0xBD, CHR 0x93, CHR 0xE5, CHR 0x89, CHR 0x8D, CHR 0x20, CHR 0x41, CHR 0x67, 
      CHR 0x65, CHR 0x6E, CHR 0x74, CHR 0x20, CHR 0xE7, CHR 0x9A, CHR 0x84, CHR 0x20, CHR 0x77, CHR 0x6F, CHR 0x72, CHR 0x6B, 
      CHR 0x73, CHR 0x70, CHR 0x61, CHR 0x63, CHR 0x65, CHR 0x20, CHR 0xE7, CHR 0xA7, CHR 0x81, CHR 0xE6, CHR 0x9C, CHR 0x89, 
      CHR 0xE7, CHR 0x8A, CHR 0xB6, CHR 0xE6, CHR 0x80, CHR 0x81]"

definition FinalizeCompressionSummary :: "comp_env \<Rightarrow> string \<Rightarrow> string \<Rightarrow> bool \<Rightarrow> gotime \<Rightarrow> string \<Rightarrow> string" where
  "FinalizeCompressionSummary env summary0 sessionID journalEnabled now relativeRoot =
     (let summary = trim_space summary0; sid = trim_space sessionID; rel = RuntimeJournalRelativePath env sid now;
          dir = trim_space relativeRoot;
          (location, note) =
            (if dir \<noteq> [] then (''<workspace_root>/'' @ path_clean (dir @ ''/'' @ rel), footer_workspace)
             else (''<runtime_root>/'' @ rel, footer_runtime))
      in if summary = [] \<or> \<not> journalEnabled then summary
         else if sid = [] then summary
         else summary @ footer_intro @ location @ footer_open @ note @ footer_close)"

section \<open>Asking for a summary\<close>

text \<open>The text and the usage; \<open>None\<close> is an error.\<close>

definition Summarize :: "bool \<Rightarrow> chat_reply \<Rightarrow> (string \<times> usage) option" where
  "Summarize client reply =
     (if \<not> client then None
      else case reply of
        ChatError \<Rightarrow> None
      | ChatReply deltas usages content \<Rightarrow>
          let t = trim_space (concat deltas);
              text' = (if t = [] then trim_space content else t)
          in if text' = [] then None
             else Some (text', if usages = [] then zero_usage else last usages))"

definition convert_message :: "message \<Rightarrow> extraction_message" where
  "convert_message m =
     \<lparr>em_Role = msg_Role m, em_Name = msg_Name m, em_Content = msg_Content m, em_ToolCallID = msg_ToolCallID m,
      em_ToolCalls = map (\<lambda>c. \<lparr>etc_ID = tc_ID c, etc_Name = tc_Name c, etc_Arguments = tc_Arguments c\<rparr>) (msg_ToolCalls m)\<rparr>"

definition submitCandidateExtraction :: "string \<Rightarrow> string \<Rightarrow> message list \<Rightarrow> string \<Rightarrow> comp_state \<Rightarrow> comp_state" where
  "submitCandidateExtraction sessionID agentID picked fingerprint st =
     (if picked = [] \<or> \<not> cst_submitter st then st
      else st\<lparr>cst_submitted := cst_submitted st @
        [\<lparr>ei_AgentID = agentID, ei_SessionID = sessionID, ei_Scope = cst_scope st, ei_SourceFingerprint = fingerprint,
          ei_Messages = map convert_message picked\<rparr>]\<rparr>)"

text \<open>The first half of \<^verbatim>\<open>runCompressionFlow\<close>, up to the request; \<open>None\<close> where it returns false before.\<close>

definition mode_name :: "compress_apply_mode \<Rightarrow> string" where
  "mode_name m = (case m of KeepFollowingAssistant \<Rightarrow> ''keep_following_assistant'' | MergeNextUser \<Rightarrow> ''merge_next_user'')"

definition append_name :: "sidecar_append_mode \<Rightarrow> string" where
  "append_name m = (case m of AppendAssistantAndUser \<Rightarrow> ''assistant_and_user'' | AppendUserOnly \<Rightarrow> ''user_only'')"

abbreviation any_nat :: "nat \<Rightarrow> go_any" where "any_nat n \<equiv> any_int (int n)"

definition flow_request ::
  "comp_env \<Rightarrow> string \<Rightarrow> string \<Rightarrow> sidecar_input \<Rightarrow> compression_plan \<Rightarrow> string \<Rightarrow> comp_state \<Rightarrow> chat_request option \<times> comp_state" where
  "flow_request env sessionID agentID input plan triggerLevel st =
     (let ms = si_Messages input; picked = compressionSlice ms plan
      in if \<not> hasCompressibleContent picked then (None, st)
         else
           let st1 = submitCandidateExtraction sessionID agentID picked (compressionSourceFingerprint (cenv_fingerprint env) ms plan) st;
               st2 = publishCompressionEvent sessionID triggerLevel ''start''
                 [(''compression_start'', any_nat (leadingSystemSkip ms)), (''compression_end'', any_nat (cpl_End plan)),
                  (''compressed_message_count'', any_nat (length picked)), (''apply_mode'', AnyString (mode_name (cpl_ApplyMode plan))),
                  (''sidecar_append'', AnyString (append_name (cpl_SidecarAppend plan)))] st1
           in case BuildSidecarMessages (cenv_synthetic env) (cenv_prompt env) ms (int (cpl_End plan)) (cpl_SidecarAppend plan) (cenv_prompt env) of
                None \<Rightarrow> (None, st2\<lparr>cst_panicked := True\<rparr>)
              | Some req \<Rightarrow> (Some \<lparr>cq_SystemPrompt = spx_SystemPrompt (si_Prefix input), cq_Messages = req, cq_Tools = spx_Tools (si_Prefix input)\<rparr>, st2))"

text \<open>The second half, from the reply on.\<close>

definition flow_reply ::
  "comp_env \<Rightarrow> string \<Rightarrow> sidecar_input \<Rightarrow> compression_plan \<Rightarrow> string \<Rightarrow> chat_request \<Rightarrow> chat_reply \<Rightarrow> gotime \<Rightarrow> comp_state \<Rightarrow> bool \<times> comp_state" where
  "flow_reply env sessionID input plan triggerLevel req reply now st =
     (let ms = si_Messages input; picked = compressionSlice ms plan;
          failed = (False, publishCompressionEvent sessionID triggerLevel ''end''
             [(''compression_start'', any_nat (leadingSystemSkip ms)), (''compression_end'', any_nat (cpl_End plan)),
              (''status'', AnyString ''failed'')] st)
      in case Summarize (cst_client st) reply of
           None \<Rightarrow> failed
         | Some (text', sidecarUsage) \<Rightarrow>
             if trim_space text' = [] then failed
             else
               let summary = FinalizeCompressionSummary env text' sessionID (cst_rawEnabled st) now (cst_rawRoot st);
                   ready = \<lparr>rc_End = cpl_End plan, rc_Content = trim_space summary,
                     rc_SourceSliceFingerprint = compressionSourceFingerprint (cenv_fingerprint env) ms plan, rc_TriggerLevel = triggerLevel,
                     rc_CompressedMessageCount = length picked, rc_ApplyMode = cpl_ApplyMode plan, rc_SidecarUsage = sidecarUsage\<rparr>
               in (True, st\<lparr>cst_ready := AList.update sessionID ready (cst_ready st),
                            cst_asked := cst_asked st @ [(sessionID, req, text')]\<rparr>))"

section \<open>Tasks\<close>

definition runningTask :: "string \<Rightarrow> comp_state \<Rightarrow> nat option" where
  "runningTask sessionID st =
     (case map_of (cst_sessionTasks st) sessionID of
        None \<Rightarrow> None
      | Some t \<Rightarrow> if t \<in> set (cst_closed st) then None else Some t)"

definition hasRunningTask :: "string \<Rightarrow> comp_state \<Rightarrow> bool" where
  "hasRunningTask sessionID st \<longleftrightarrow> runningTask sessionID st \<noteq> None"

definition newCompressionTask :: "string \<Rightarrow> nat \<Rightarrow> nat \<Rightarrow> nat \<Rightarrow> comp_state \<Rightarrow> nat \<times> comp_state" where
  "newCompressionTask triggerLevel start end' n st =
     (length (cst_heap st),
      st\<lparr>cst_heap := cst_heap st @ [\<lparr>tk_triggerLevel = triggerLevel, tk_compressionStart = start, tk_compressionEnd = end',
                                       tk_compressedMessageCount = n\<rparr>]\<rparr>)"

definition registerTask :: "string \<Rightarrow> nat \<Rightarrow> comp_state \<Rightarrow> bool \<times> comp_state" where
  "registerTask sessionID task st =
     (if runningTask sessionID st \<noteq> None then (False, st)
      else (True, st\<lparr>cst_sessionTasks := AList.update sessionID task (cst_sessionTasks st)\<rparr>))"

definition unlist :: "string \<Rightarrow> nat \<Rightarrow> comp_state \<Rightarrow> comp_state" where
  "unlist sessionID task st =
     (if map_of (cst_sessionTasks st) sessionID = Some task
      then st\<lparr>cst_sessionTasks := AList.delete sessionID (cst_sessionTasks st)\<rparr> else st)"

text \<open>\<^verbatim>\<open>close(task.done)\<close>: the second close of a channel panics.\<close>

definition close_done :: "nat \<Rightarrow> comp_state \<Rightarrow> comp_state" where
  "close_done task st =
     (if task \<in> set (cst_closed st) then st\<lparr>cst_panicked := True\<rparr> else st\<lparr>cst_closed := task # cst_closed st\<rparr>)"

definition unregisterTask :: "string \<Rightarrow> nat \<Rightarrow> comp_state \<Rightarrow> comp_state" where
  "unregisterTask sessionID task st = close_done task (unlist sessionID task st)"

definition reapFinishedTask :: "string \<Rightarrow> comp_state \<Rightarrow> comp_state" where
  "reapFinishedTask sessionID st =
     (case map_of (cst_sessionTasks st) sessionID of
        None \<Rightarrow> st
      | Some t \<Rightarrow> if t \<in> set (cst_closed st) then st\<lparr>cst_sessionTasks := AList.delete sessionID (cst_sessionTasks st)\<rparr> else st)"

definition CancelSession :: "string \<Rightarrow> comp_state \<Rightarrow> comp_state" where
  "CancelSession sessionID st =
     st\<lparr>cst_ready := AList.delete sessionID (cst_ready st), cst_sessionTasks := AList.delete sessionID (cst_sessionTasks st),
        cst_cooldown := AList.delete sessionID (cst_cooldown st)\<rparr>"

definition startSilentTask ::
  "string \<Rightarrow> string \<Rightarrow> sidecar_prefix \<Rightarrow> compression_plan \<Rightarrow> message list \<Rightarrow> comp_state \<Rightarrow> comp_state" where
  "startSilentTask sessionID agentID prefix' plan ms st =
     (let picked = compressionSlice ms plan
      in if \<not> hasCompressibleContent picked then st
         else
           let (task, st1) = newCompressionTask ''silent'' (leadingSystemSkip ms) (cpl_End plan) (length picked) st
           in case registerTask sessionID task st1 of
                (False, st2) \<Rightarrow> st2
              | (True, st2) \<Rightarrow> st2\<lparr>cst_jobs := cst_jobs st2 @
                  [\<lparr>jb_task = task, jb_session = sessionID, jb_agent = agentID,
                    jb_input = \<lparr>si_Prefix = prefix', si_Messages = ms\<rparr>, jb_plan = plan, jb_stage = JobStarted\<rparr>]\<rparr>)"

section \<open>Moves of the other goroutines\<close>

text \<open>
  The goroutine of job number \<open>i\<close> takes its next step (a waiting one when its reply arrives), or \<^verbatim>\<open>CancelSession\<close> is called.
\<close>

datatype move = JobStep nat chat_reply gotime | Cancelling string

definition set_stage :: "nat \<Rightarrow> job_stage \<Rightarrow> comp_state \<Rightarrow> comp_state" where
  "set_stage i stage st = st\<lparr>cst_jobs := (cst_jobs st)[i := (cst_jobs st ! i)\<lparr>jb_stage := stage\<rparr>]\<rparr>"

definition job_step :: "comp_env \<Rightarrow> nat \<Rightarrow> chat_reply \<Rightarrow> gotime \<Rightarrow> comp_state \<Rightarrow> comp_state" where
  "job_step env i reply now st =
     (if i \<ge> length (cst_jobs st) then st
      else
        let j = cst_jobs st ! i; sid = jb_session j
        in case jb_stage j of
             JobStarted \<Rightarrow>
               (case flow_request env sid (jb_agent j) (jb_input j) (jb_plan j) ''silent'' st of
                  (None, st1) \<Rightarrow> set_stage i JobFlowDone st1
                | (Some req, st1) \<Rightarrow> set_stage i (JobAsking req) st1)
           | JobAsking req \<Rightarrow> set_stage i JobFlowDone (snd (flow_reply env sid (jb_input j) (jb_plan j) ''silent'' req reply now st))
           | JobFlowDone \<Rightarrow> set_stage i JobUnlisted (unlist sid (jb_task j) st)
           | JobUnlisted \<Rightarrow> set_stage i JobClosed (close_done (jb_task j) st)
           | JobClosed \<Rightarrow> st)"

fun run_move :: "comp_env \<Rightarrow> move \<Rightarrow> comp_state \<Rightarrow> comp_state" where
  "run_move env (JobStep i reply now) st = job_step env i reply now st"
| "run_move env (Cancelling sid) st = CancelSession sid st"

definition run_moves :: "comp_env \<Rightarrow> move list \<Rightarrow> comp_state \<Rightarrow> comp_state" where
  "run_moves env mvs st = fold (run_move env) mvs st"

text \<open>\<open>None\<close>: the task is still running after the moves.\<close>

definition waitTask :: "comp_env \<Rightarrow> move list \<Rightarrow> string \<Rightarrow> comp_state \<Rightarrow> comp_state option" where
  "waitTask env mvs sessionID st =
     (case runningTask sessionID st of
        None \<Rightarrow> Some st
      | Some t \<Rightarrow>
          let st1 = run_moves env mvs st
          in if t \<in> set (cst_closed st1) then Some (unlist sessionID t st1) else None)"

section \<open>Cooldown\<close>

definition SilentCooldownDuration :: int where "SilentCooldownDuration = 60 * 1000000000"
definition SilentCooldownTokenGrowth :: int where "SilentCooldownTokenGrowth = 4000"

definition shouldStartSilent :: "comp_env \<Rightarrow> string \<Rightarrow> message list \<Rightarrow> gotime \<Rightarrow> comp_state \<Rightarrow> bool" where
  "shouldStartSilent env sessionID ms now st =
     (if sessionID = [] then False
      else if runningTask sessionID st \<noteq> None then False
      else if map_of (cst_ready st) sessionID \<noteq> None then False
      else case map_of (cst_cooldown st) sessionID of
             None \<Rightarrow> True
           | Some state \<Rightarrow>
               if sc_lastAppliedAt state = 0 then True
               else if now - sc_lastAppliedAt state \<ge> SilentCooldownDuration then True
               else cenv_estimate env ms - sc_lastAppliedTokens state \<ge> SilentCooldownTokenGrowth)"

definition markSilentCooldownApplied :: "comp_env \<Rightarrow> string \<Rightarrow> message list \<Rightarrow> gotime \<Rightarrow> comp_state \<Rightarrow> comp_state" where
  "markSilentCooldownApplied env sessionID ms now st =
     (if sessionID = [] then st
      else st\<lparr>cst_cooldown := AList.update sessionID \<lparr>sc_lastAppliedAt = now, sc_lastAppliedTokens = cenv_estimate env ms\<rparr> (cst_cooldown st)\<rparr>)"

section \<open>Writing back\<close>

definition status_name :: "apply_status \<Rightarrow> string" where
  "status_name s = (case s of StatusApplied \<Rightarrow> ''applied'' | StatusInvalid \<Rightarrow> ''invalid'' | StatusStale \<Rightarrow> ''stale'')"

text \<open>\<open>mvs\<close> are the moves between taking the summary out of the map and writing the cooldown and the snapshot.\<close>

definition applyReadyCompression ::
  "comp_env \<Rightarrow> move list \<Rightarrow> string \<Rightarrow> message list \<Rightarrow> gotime \<Rightarrow> comp_state \<Rightarrow> apply_outcome \<times> message list \<times> comp_state" where
  "applyReadyCompression env mvs sessionID ms now st0 =
     (case map_of (cst_ready st0) sessionID of
        None \<Rightarrow> (no_outcome, ms, st0)
      | Some ready \<Rightarrow>
          let st = run_moves env mvs (st0\<lparr>cst_ready := AList.delete sessionID (cst_ready st0)\<rparr>);
              compressStart = leadingSystemSkip ms;
              baseEnd = [(''compression_start'', any_nat compressStart), (''compression_end'', any_nat (rc_End ready)),
                         (''compressed_message_count'', any_nat (rc_CompressedMessageCount ready))];
              out = \<lparr>ao_status = ''invalid'', ao_count = rc_CompressedMessageCount ready, ao_start = compressStart, ao_end = rc_End ready,
                      ao_usage = zero_usage\<rparr>
          in if rc_End ready < compressStart \<or> rc_End ready \<ge> length ms \<or> trim_space (rc_Content ready) = []
             then (out, ms, publishCompressionEvent sessionID (rc_TriggerLevel ready) ''end''
                     (AList.update ''status'' (AnyString ''invalid'') baseEnd) st)
             else
               let plan = \<lparr>cpl_End = rc_End ready, cpl_ApplyMode = rc_ApplyMode ready, cpl_SidecarAppend = AppendUserOnly\<rparr>;
                   (merged, status) = applyCompressionReplacement (cenv_fingerprint env) ms plan (rc_Content ready) (rc_SourceSliceFingerprint ready);
                   out1 = out\<lparr>ao_status := status_name status\<rparr>;
                   end1 = AList.update ''apply_mode'' (AnyString (mode_name (rc_ApplyMode ready)))
                            (AList.update ''status'' (AnyString (status_name status)) baseEnd)
               in if status \<noteq> StatusApplied then (out1, ms, publishCompressionEvent sessionID (rc_TriggerLevel ready) ''end'' end1 st)
                  else
                    let end2 = attachCompressionUsageMetrics end1 (rc_SidecarUsage ready);
                        st1 = markSilentCooldownApplied env sessionID merged now st;
                        st2 = recordLastCompression sessionID (buildLastCompressionSnapshot ready (rc_SidecarUsage ready) now) st1
                    in (out1\<lparr>ao_usage := rc_SidecarUsage ready\<rparr>, merged, publishCompressionEvent sessionID (rc_TriggerLevel ready) ''end'' end2 st2))"

section \<open>Compressing before a step, and on request\<close>

definition runCompressionFlow ::
  "comp_env \<Rightarrow> move list \<Rightarrow> string \<Rightarrow> string \<Rightarrow> sidecar_input \<Rightarrow> compression_plan \<Rightarrow> string \<Rightarrow> chat_reply \<Rightarrow> gotime \<Rightarrow> comp_state \<Rightarrow> bool \<times> comp_state" where
  "runCompressionFlow env mvs sessionID agentID input plan triggerLevel reply now st =
     (case flow_request env sessionID agentID input plan triggerLevel st of
        (None, st1) \<Rightarrow> (False, st1)
      | (Some req, st1) \<Rightarrow> flow_reply env sessionID input plan triggerLevel req reply now (run_moves env mvs st1))"

text \<open>What happens during a foreground call: the moves at its numbered points, the clock there, and the reply to its own request.\<close>

record schedule =
  sd_moves :: "nat \<Rightarrow> move list"
  sd_now :: "nat \<Rightarrow> gotime"
  sd_reply :: chat_reply

text \<open>The middle part of \<^verbatim>\<open>MaybeHandle\<close>: what its decision for the messages \<open>ms\<close> leads to.\<close>

definition handle_decision ::
  "comp_env \<Rightarrow> schedule \<Rightarrow> string \<Rightarrow> string \<Rightarrow> sidecar_prefix \<Rightarrow> message list \<Rightarrow> compress_decision \<times> compression_plan option \<Rightarrow> comp_state \<Rightarrow> comp_state option" where
  "handle_decision env sd sessionID agentID prefix' ms dp st3 =
     (let (decision, plan) = dp; hasRunning = hasRunningTask sessionID st3
      in case plan of
           None \<Rightarrow> Some st3
         | Some plan \<Rightarrow>
             if cd_Should decision \<and> cd_TriggerLevel decision = ''silent'' then
               (let st4 = run_moves env (sd_moves sd 3) st3
                in if \<not> hasRunning \<and> shouldStartSilent env sessionID ms (sd_now sd 1) st4
                   then Some (startSilentTask sessionID agentID prefix' plan ms (run_moves env (sd_moves sd 4) st4))
                   else Some st4)
             else if cd_Should decision \<and> cd_TriggerLevel decision = ''blocking'' then
               (case (if hasRunning then waitTask env (sd_moves sd 3) sessionID st3 else Some st3) of
                  None \<Rightarrow> None
                | Some st4 \<Rightarrow>
                    (case runCompressionFlow env (sd_moves sd 4) sessionID agentID \<lparr>si_Prefix = prefix', si_Messages = ms\<rparr> plan
                            ''blocking'' (sd_reply sd) (sd_now sd 2) st4 of
                       (True, st5) \<Rightarrow> Some st5
                     | (False, st5) \<Rightarrow> Some (emitBlockingFailure sessionID st5)))
             else Some st3)"

definition MaybeHandle ::
  "comp_env \<Rightarrow> schedule \<Rightarrow> string \<Rightarrow> string \<Rightarrow> sidecar_prefix \<Rightarrow> message list \<Rightarrow> comp_state \<Rightarrow> (bool \<times> message list \<times> comp_state) option" where
  "MaybeHandle env sd sessionID agentID prefix' ms st =
     (if \<not> comp_Enabled st then Some (False, ms, st)
      else
        let st1 = run_moves env (sd_moves sd 0) (reapFinishedTask sessionID st);
            (out1, ms1, st2) = applyReadyCompression env (sd_moves sd 1) sessionID ms (sd_now sd 0) st1;
            decision = evaluateCompression (cenv_estimate env) ms1 (cst_silentTriggerTokens st2) (cst_blockingTriggerTokens st2)
        in case handle_decision env sd sessionID agentID prefix' ms1 decision (run_moves env (sd_moves sd 2) st2) of
             None \<Rightarrow> None
           | Some st6 \<Rightarrow>
               let st7 = reapFinishedTask sessionID (run_moves env (sd_moves sd 5) st6);
                   (out2, ms2, st8) = applyReadyCompression env (sd_moves sd 7) sessionID ms1 (sd_now sd 3) (run_moves env (sd_moves sd 6) st7)
               in Some (ao_status out1 = ''applied'' \<or> ao_status out2 = ''applied'', ms2, st8))"

text \<open>
  \<^verbatim>\<open>ForceBlocking\<close> once its task is listed, up to the return; the deferred \<^verbatim>\<open>unregisterTask\<close> runs on every path, with moves between
  its critical section and the close of the channel.
\<close>

definition force_listed ::
  "comp_env \<Rightarrow> schedule \<Rightarrow> string \<Rightarrow> string \<Rightarrow> sidecar_prefix \<Rightarrow> message list \<Rightarrow> compression_plan \<Rightarrow> comp_state \<Rightarrow> force_result \<times> message list \<times> comp_state" where
  "force_listed env sd sessionID agentID prefix' ms plan st2 =
     (case runCompressionFlow env (sd_moves sd 2) sessionID agentID \<lparr>si_Prefix = prefix', si_Messages = ms\<rparr> plan ''blocking''
             (sd_reply sd) (sd_now sd 0) st2 of
        (False, st3) \<Rightarrow> (status_only ''failed'', ms, st3)
      | (True, st3) \<Rightarrow>
          let (out, ms', st4) = applyReadyCompression env (sd_moves sd 4) sessionID ms (sd_now sd 1) (run_moves env (sd_moves sd 3) st3)
          in if ao_status out = [] then (status_only ''failed'', ms', st4)
             else
               let u = Normalize (ao_usage out)
               in (\<lparr>fo_Status = ao_status out, fo_TriggerLevel = ''blocking'', fo_CompressedMessageCount = ao_count out,
                    fo_CompressionStart = ao_start out, fo_CompressionEnd = ao_end out, fo_MessagesCount = length ms',
                    fo_MessagesTotalTokens = cenv_estimate env ms', fo_PromptTokens = us_PromptTokens u,
                    fo_CompletionTokens = us_CompletionTokens u, fo_TotalTokens = us_TotalTokens u,
                    fo_TokenReductionRate = tokenReductionRate (us_PromptTokens u) (us_CompletionTokens u),
                    fo_PromptCacheHitTokens = PromptCachedTokens u, fo_PromptCacheMissTokens = PromptCacheMissTokensEffective u,
                    fo_PromptCacheAvailable = HasPromptCacheMetrics u\<rparr>, ms', st4))"

definition ForceBlocking ::
  "comp_env \<Rightarrow> schedule \<Rightarrow> string \<Rightarrow> string \<Rightarrow> sidecar_prefix \<Rightarrow> message list \<Rightarrow> comp_state \<Rightarrow> force_result \<times> message list \<times> comp_state" where
  "ForceBlocking env sd sessionID agentID prefix' ms st =
     (if \<not> cst_client st then (status_only ''disabled'', ms, st)
      else case buildCompressionPlan ms of
        None \<Rightarrow> (status_only ''noop'', ms, st)
      | Some plan \<Rightarrow>
          let picked = compressionSlice ms plan; compressStart = leadingSystemSkip ms
          in case runningTask sessionID st of
               Some t \<Rightarrow> (task_forceResult (Some (cst_heap st ! t)) ''in_progress'', ms, st)
             | None \<Rightarrow>
                 let (task, st1) = newCompressionTask ''blocking'' compressStart (cpl_End plan) (length picked) (run_moves env (sd_moves sd 0) st)
                 in case registerTask sessionID task st1 of
                      (False, st2) \<Rightarrow>
                        let st3 = run_moves env (sd_moves sd 1) st2
                        in (case runningTask sessionID st3 of
                              Some t \<Rightarrow> (task_forceResult (Some (cst_heap st3 ! t)) ''in_progress'', ms, st3)
                            | None \<Rightarrow> (status_only ''failed'', ms, st3))
                    | (True, st2) \<Rightarrow>
                        let (res, ms', st3) = force_listed env sd sessionID agentID prefix' ms plan st2
                        in (res, ms', close_done task (run_moves env (sd_moves sd 5) (unlist sessionID task st3))))"

end
