(* ===== verification/Compression_Safety.thy ===== *)
theory Compression_Safety
  imports Compression_Flow
begin

text \<open>
  The invariant of the compression coordinator, kept by every operation whatever the other goroutines do meanwhile.

  \<open>comp_inv\<close>: nothing has panicked; every listed task belongs to the foreground call or to a goroutine of its session that has not yet
  unlisted it; a goroutine's task is closed exactly when the goroutine is done; and every summary that waits in the map is the provider's answer
  to a side request for messages with the recorded fingerprint (\<open>answers\<close>). \<open>evolves\<close> is what moves of other goroutines cannot break.
  \<open>apply_ready\<close>, \<open>maybe_handle_core\<close> and \<open>force_core\<close> carry the properties of \<^verbatim>\<open>Compression_Runs\<close>.
\<close>

section \<open>Invariant\<close>

definition sidecar_of :: "comp_env \<Rightarrow> message list \<Rightarrow> compression_plan \<Rightarrow> message list option" where
  "sidecar_of env ms plan =
     BuildSidecarMessages (cenv_synthetic env) (cenv_prompt env) ms (int (cpl_End plan)) (cpl_SidecarAppend plan) (cenv_prompt env)"

text \<open>The summary is the provider's answer to a side request made for messages with the given fingerprint.\<close>

definition answers :: "comp_env \<Rightarrow> string \<Rightarrow> (string \<times> chat_request \<times> string) list \<Rightarrow> compression_plan \<Rightarrow> string \<Rightarrow> string \<Rightarrow> bool" where
  "answers env sid asked plan fp content \<longleftrightarrow>
     (\<exists>src req text' enabled now dir.
        (sid, req, text') \<in> set asked \<and> buildCompressionPlan src = Some plan \<and> sidecar_of env src plan = Some (cq_Messages req) \<and>
        fp = compressionSourceFingerprint (cenv_fingerprint env) src plan \<and>
        content = trim_space (FinalizeCompressionSummary env text' sid enabled now dir))"

definition ready_plan :: "ready_compression \<Rightarrow> sidecar_append_mode \<Rightarrow> compression_plan" where
  "ready_plan r am = \<lparr>cpl_End = rc_End r, cpl_ApplyMode = rc_ApplyMode r, cpl_SidecarAppend = am\<rparr>"

definition ready_ok :: "comp_env \<Rightarrow> comp_state \<Rightarrow> bool" where
  "ready_ok env st \<longleftrightarrow>
     (\<forall>sid r. map_of (cst_ready st) sid = Some r \<longrightarrow>
        (\<exists>am. answers env sid (cst_asked st) (ready_plan r am) (rc_SourceSliceFingerprint r) (rc_Content r)))"

definition listed_stage :: "job_stage \<Rightarrow> bool" where
  "listed_stage s \<longleftrightarrow> s \<noteq> JobUnlisted \<and> s \<noteq> JobClosed"

definition job_ok :: "comp_env \<Rightarrow> comp_state \<Rightarrow> silent_job \<Rightarrow> bool" where
  "job_ok env st j \<longleftrightarrow>
     jb_task j < length (cst_heap st) \<and> (jb_task j \<in> set (cst_closed st) \<longleftrightarrow> jb_stage j = JobClosed) \<and>
     buildCompressionPlan (si_Messages (jb_input j)) = Some (jb_plan j) \<and>
     (\<forall>req. jb_stage j = JobAsking req \<longrightarrow> sidecar_of env (si_Messages (jb_input j)) (jb_plan j) = Some (cq_Messages req))"

definition listing_ok :: "nat list \<Rightarrow> comp_state \<Rightarrow> bool" where
  "listing_ok own st \<longleftrightarrow>
     (\<forall>sid t. map_of (cst_sessionTasks st) sid = Some t \<longrightarrow>
        t \<in> set own \<or> (\<exists>j\<in>set (cst_jobs st). jb_task j = t \<and> jb_session j = sid \<and> listed_stage (jb_stage j)))"

text \<open>\<open>own\<close>: the task of a foreground call that has registered one.\<close>

definition comp_inv :: "comp_env \<Rightarrow> nat list \<Rightarrow> comp_state \<Rightarrow> bool" where
  "comp_inv env own st \<longleftrightarrow>
     \<not> cst_panicked st \<and> distinct (own @ map jb_task (cst_jobs st)) \<and>
     (\<forall>t\<in>set own. t < length (cst_heap st) \<and> t \<notin> set (cst_closed st)) \<and>
     (\<forall>t\<in>set (cst_closed st). t < length (cst_heap st)) \<and>
     (\<forall>j\<in>set (cst_jobs st). job_ok env st j) \<and> listing_ok own st \<and> ready_ok env st"

lemma comp_inv_new: "comp_inv env [] (NewCoordinator client silent blocking)"
  by (simp add: comp_inv_def NewCoordinator_def listing_ok_def ready_ok_def)

lemma comp_inv_cong:
  assumes "cst_panicked st' = cst_panicked st" "cst_jobs st' = cst_jobs st" "cst_heap st' = cst_heap st" "cst_closed st' = cst_closed st"
    "cst_sessionTasks st' = cst_sessionTasks st" "cst_ready st' = cst_ready st" "cst_asked st' = cst_asked st"
  shows "comp_inv env own st' = comp_inv env own st"
  using assms by (simp add: comp_inv_def job_ok_def listing_ok_def ready_ok_def)

lemma answers_mono: "answers env sid asked plan fp c \<Longrightarrow> set asked \<subseteq> set asked' \<Longrightarrow> answers env sid asked' plan fp c"
  unfolding answers_def by blast

section \<open>Frames\<close>

text \<open>Publishing and submitting touch none of the fields the invariant reads.\<close>

lemma publish_frame [simp]:
  "cst_panicked (publishCompressionEvent sid l p pl st) = cst_panicked st" "cst_jobs (publishCompressionEvent sid l p pl st) = cst_jobs st"
  "cst_heap (publishCompressionEvent sid l p pl st) = cst_heap st" "cst_closed (publishCompressionEvent sid l p pl st) = cst_closed st"
  "cst_sessionTasks (publishCompressionEvent sid l p pl st) = cst_sessionTasks st"
  "cst_ready (publishCompressionEvent sid l p pl st) = cst_ready st" "cst_asked (publishCompressionEvent sid l p pl st) = cst_asked st"
  "cst_client (publishCompressionEvent sid l p pl st) = cst_client st"
  "cst_cooldown (publishCompressionEvent sid l p pl st) = cst_cooldown st" "cst_last (publishCompressionEvent sid l p pl st) = cst_last st"
  by (simp_all add: publishCompressionEvent_def hub_event_published_def)

lemma submit_frame [simp]:
  "cst_panicked (submitCandidateExtraction sid a ms fp st) = cst_panicked st" "cst_jobs (submitCandidateExtraction sid a ms fp st) = cst_jobs st"
  "cst_heap (submitCandidateExtraction sid a ms fp st) = cst_heap st" "cst_closed (submitCandidateExtraction sid a ms fp st) = cst_closed st"
  "cst_sessionTasks (submitCandidateExtraction sid a ms fp st) = cst_sessionTasks st"
  "cst_ready (submitCandidateExtraction sid a ms fp st) = cst_ready st" "cst_asked (submitCandidateExtraction sid a ms fp st) = cst_asked st"
  "cst_client (submitCandidateExtraction sid a ms fp st) = cst_client st"
  by (simp_all add: submitCandidateExtraction_def)

lemma publish_keeps [simp]: "comp_inv env own (publishCompressionEvent sid l p pl st) = comp_inv env own st"
  by (rule comp_inv_cong) simp_all

lemma failure_inv [simp]: "comp_inv env own (emitBlockingFailure sid st) = comp_inv env own st"
  by (rule comp_inv_cong) (simp_all add: emitBlockingFailure_def hub_event_published_def)

lemma failure_frame [simp]: "cst_asked (emitBlockingFailure sid st) = cst_asked st"
  by (simp add: emitBlockingFailure_def hub_event_published_def)

lemma compressible_sidecar:
  assumes "hasCompressibleContent (compressionSlice ms plan)"
  shows "sidecar_of env ms plan \<noteq> None"
proof -
  have "compressionSlice ms plan \<noteq> []" using assms by (auto simp: hasCompressibleContent_def)
  then have "leadingSystemSkip ms \<le> cpl_End plan" "cpl_End plan < length ms" by (auto simp: compressionSlice_def Let_def split: if_splits)
  then show ?thesis by (simp add: sidecar_of_def BuildSidecarMessages_def Let_def)
qed

lemma flow_request_cases:
  assumes "flow_request env sid aid input plan l st = (r, st')"
  shows "comp_inv env own st' = comp_inv env own st" "cst_client st' = cst_client st"
    "cst_jobs st' = cst_jobs st" "cst_closed st' = cst_closed st" "cst_sessionTasks st' = cst_sessionTasks st" "cst_ready st' = cst_ready st"
    "cst_asked st' = cst_asked st"
    "\<forall>req. r = Some req \<longrightarrow> sidecar_of env (si_Messages input) plan = Some (cq_Messages req)"
    "r = None \<longleftrightarrow> \<not> hasCompressibleContent (compressionSlice (si_Messages input) plan)"
proof -
  show frame: "cst_client st' = cst_client st" "cst_jobs st' = cst_jobs st" "cst_closed st' = cst_closed st"
    "cst_sessionTasks st' = cst_sessionTasks st" "cst_ready st' = cst_ready st" "cst_asked st' = cst_asked st"
    using assms by (auto simp: flow_request_def Let_def split: if_splits option.splits)
  have "cst_panicked st' = cst_panicked st" "cst_heap st' = cst_heap st"
    using assms compressible_sidecar[of "si_Messages input" plan env]
    by (auto simp: flow_request_def Let_def sidecar_of_def split: if_splits option.splits)
  then show "comp_inv env own st' = comp_inv env own st" using frame by (intro comp_inv_cong) simp_all
  show "\<forall>req. r = Some req \<longrightarrow> sidecar_of env (si_Messages input) plan = Some (cq_Messages req)"
    using assms by (auto simp: flow_request_def Let_def sidecar_of_def split: if_splits option.splits)
  show "r = None \<longleftrightarrow> \<not> hasCompressibleContent (compressionSlice (si_Messages input) plan)"
    using assms compressible_sidecar[of "si_Messages input" plan env]
    by (auto simp: flow_request_def Let_def sidecar_of_def split: if_splits option.splits)
qed

section \<open>Every operation keeps the invariant\<close>

lemma store_ready_inv:
  assumes inv: "comp_inv env own st" and ans: "answers env sid asked (ready_plan r am) (rc_SourceSliceFingerprint r) (rc_Content r)"
    and more: "set (cst_asked st) \<subseteq> set asked"
  shows "comp_inv env own (st\<lparr>cst_ready := AList.update sid r (cst_ready st), cst_asked := asked\<rparr>)"
proof -
  have "ready_ok env (st\<lparr>cst_ready := AList.update sid r (cst_ready st), cst_asked := asked\<rparr>)"
    unfolding ready_ok_def
  proof (intro allI impI)
    fix k q
    assume "map_of (cst_ready (st\<lparr>cst_ready := AList.update sid r (cst_ready st), cst_asked := asked\<rparr>)) k = Some q"
    then have m: "((map_of (cst_ready st))(sid \<mapsto> r)) k = Some q" by (simp add: update_conv')
    show "\<exists>am. answers env k (cst_asked (st\<lparr>cst_ready := AList.update sid r (cst_ready st), cst_asked := asked\<rparr>)) (ready_plan q am)
        (rc_SourceSliceFingerprint q) (rc_Content q)"
    proof (cases "k = sid")
      case True
      then have "q = r" using m by simp
      then show ?thesis using True ans by simp (rule exI)
    next
      case False
      then have "map_of (cst_ready st) k = Some q" using m by simp
      then obtain am' where "answers env k (cst_asked st) (ready_plan q am') (rc_SourceSliceFingerprint q) (rc_Content q)"
        using inv unfolding comp_inv_def ready_ok_def by blast
      then have "answers env k asked (ready_plan q am') (rc_SourceSliceFingerprint q) (rc_Content q)" by (rule answers_mono[OF _ more])
      then show ?thesis by simp (rule exI)
    qed
  qed
  then show ?thesis using inv by (simp add: comp_inv_def job_ok_def listing_ok_def)
qed

lemma flow_reply_inv:
  assumes inv: "comp_inv env own st" and plan: "buildCompressionPlan (si_Messages input) = Some plan"
    and req: "sidecar_of env (si_Messages input) plan = Some (cq_Messages req)"
  shows "comp_inv env own (snd (flow_reply env sid input plan l req reply now st))"
proof (cases "Summarize (cst_client st) reply")
  case None
  then show ?thesis using inv by (simp add: flow_reply_def Let_def)
next
  case (Some p)
  obtain text' u where p: "p = (text', u)" by (cases p)
  define asked where "asked = cst_asked st @ [(sid, req, text')]"
  define r where "r = \<lparr>rc_End = cpl_End plan,
      rc_Content = trim_space (FinalizeCompressionSummary env text' sid (cst_rawEnabled st) now (cst_rawRoot st)),
      rc_SourceSliceFingerprint = compressionSourceFingerprint (cenv_fingerprint env) (si_Messages input) plan, rc_TriggerLevel = l,
      rc_CompressedMessageCount = length (compressionSlice (si_Messages input) plan), rc_ApplyMode = cpl_ApplyMode plan, rc_SidecarUsage = u\<rparr>"
  have "plan = ready_plan r (cpl_SidecarAppend plan)" by (simp add: r_def ready_plan_def)
  moreover have "answers env sid asked plan (rc_SourceSliceFingerprint r) (rc_Content r)"
    unfolding answers_def using plan req by (fastforce simp: r_def asked_def)
  ultimately have "answers env sid asked (ready_plan r (cpl_SidecarAppend plan)) (rc_SourceSliceFingerprint r) (rc_Content r)" by metis
  then have "comp_inv env own (st\<lparr>cst_ready := AList.update sid r (cst_ready st), cst_asked := asked\<rparr>)"
    by (rule store_ready_inv[OF inv]) (auto simp: asked_def)
  then show ?thesis using inv Some p by (simp add: flow_reply_def Let_def r_def asked_def)
qed

lemma unlist_inv [intro]: "comp_inv env own st \<Longrightarrow> comp_inv env own (unlist sid t st)"
  by (auto simp: comp_inv_def job_ok_def listing_ok_def ready_ok_def unlist_def delete_conv' split: if_splits)

lemma cancel_inv [intro]: "comp_inv env own st \<Longrightarrow> comp_inv env own (CancelSession sid st)"
  by (auto simp: comp_inv_def job_ok_def listing_ok_def ready_ok_def CancelSession_def delete_conv' split: if_splits)

lemma reap_inv [intro]: "comp_inv env own st \<Longrightarrow> comp_inv env own (reapFinishedTask sid st)"
  by (auto simp: comp_inv_def job_ok_def listing_ok_def ready_ok_def reapFinishedTask_def delete_conv' split: if_splits option.splits)

lemma listedE:
  assumes "comp_inv env own st" "map_of (cst_sessionTasks st) sid = Some t"
  obtains "t \<in> set own" | k where "k < length (cst_jobs st)" "jb_task (cst_jobs st ! k) = t" "jb_session (cst_jobs st ! k) = sid"
    "listed_stage (jb_stage (cst_jobs st ! k))"
  using assms unfolding comp_inv_def listing_ok_def by (metis in_set_conv_nth)

lemma set_stage_inv:
  assumes inv: "comp_inv env own st" and i: "i < length (cst_jobs st)"
    and stage: "stage \<noteq> JobClosed" "jb_stage (cst_jobs st ! i) \<noteq> JobClosed"
    and asking: "\<forall>req. stage = JobAsking req \<longrightarrow>
      sidecar_of env (si_Messages (jb_input (cst_jobs st ! i))) (jb_plan (cst_jobs st ! i)) = Some (cq_Messages req)"
    and listed: "listed_stage stage \<or> (\<forall>sid. map_of (cst_sessionTasks st) sid \<noteq> Some (jb_task (cst_jobs st ! i)))"
  shows "comp_inv env own (set_stage i stage st)"
proof -
  let ?j = "cst_jobs st ! i" and ?st = "set_stage i stage st"
  let ?j' = "?j\<lparr>jb_stage := stage\<rparr>"
  have jobs: "cst_jobs ?st = (cst_jobs st)[i := ?j']" by (simp add: set_stage_def)
  have "map jb_task (cst_jobs ?st) = map jb_task (cst_jobs st)"
    by (simp add: jobs map_update) (metis i list_update_id nth_map)
  moreover have "job_ok env ?st ?j'"
    using inv i stage asking by (auto simp: comp_inv_def job_ok_def set_stage_def)
  then have "\<forall>j\<in>set (cst_jobs ?st). job_ok env ?st j"
    using inv by (auto simp: jobs comp_inv_def job_ok_def set_stage_def dest!: set_update_subset_insert[THEN subsetD])
  moreover have "listing_ok own ?st"
    unfolding listing_ok_def
  proof (intro allI impI)
    fix sid t
    assume m: "map_of (cst_sessionTasks ?st) sid = Some t"
    then have m': "map_of (cst_sessionTasks st) sid = Some t" by (simp add: set_stage_def)
    show "t \<in> set own \<or> (\<exists>j\<in>set (cst_jobs ?st). jb_task j = t \<and> jb_session j = sid \<and> listed_stage (jb_stage j))"
    proof (rule listedE[OF inv m'])
      fix k
      assume 2: "k < length (cst_jobs st)" "jb_task (cst_jobs st ! k) = t" "jb_session (cst_jobs st ! k) = sid"
        "listed_stage (jb_stage (cst_jobs st ! k))"
      show ?thesis
      proof (cases "k = i")
        case True
        then have "listed_stage stage" using listed m' 2 by auto
        then have "?j' \<in> set (cst_jobs ?st) \<and> jb_task ?j' = t \<and> jb_session ?j' = sid \<and> listed_stage (jb_stage ?j')"
          using True 2 i by (simp add: jobs set_update_memI)
        then show ?thesis by blast
      next
        case False
        then have "cst_jobs ?st ! k = cst_jobs st ! k" "k < length (cst_jobs ?st)" using 2 by (simp_all add: jobs)
        then show ?thesis using 2 by (metis nth_mem)
      qed
    qed simp
  qed
  ultimately show ?thesis using inv by (simp add: comp_inv_def ready_ok_def set_stage_def)
qed

lemma job_unlisted:
  assumes inv: "comp_inv env own st" and i: "i < length (cst_jobs st)"
  shows "\<forall>sid. map_of (cst_sessionTasks (unlist (jb_session (cst_jobs st ! i)) (jb_task (cst_jobs st ! i)) st)) sid \<noteq> Some (jb_task (cst_jobs st ! i))"
proof (intro allI notI)
  let ?j = "cst_jobs st ! i"
  fix sid
  assume a: "map_of (cst_sessionTasks (unlist (jb_session ?j) (jb_task ?j) st)) sid = Some (jb_task ?j)"
  then have m: "map_of (cst_sessionTasks st) sid = Some (jb_task ?j)" "sid \<noteq> jb_session ?j"
    by (auto simp: unlist_def delete_conv' split: if_splits)
  have "jb_task ?j \<notin> set own" using inv i by (auto simp: comp_inv_def)
  then obtain k where "k < length (cst_jobs st)" "jb_task (cst_jobs st ! k) = jb_task ?j" "jb_session (cst_jobs st ! k) = sid"
    using listedE[OF inv m(1)] by metis
  moreover have "distinct (map jb_task (cst_jobs st))" using inv by (simp add: comp_inv_def)
  ultimately have "k = i" using i by (metis distinct_conv_nth length_map nth_map)
  then show False using m(2) \<open>jb_session (cst_jobs st ! k) = sid\<close> by simp
qed

lemma close_job_inv:
  assumes inv: "comp_inv env own st" and i: "i < length (cst_jobs st)" and stage: "jb_stage (cst_jobs st ! i) = JobUnlisted"
  shows "comp_inv env own (set_stage i JobClosed (close_done (jb_task (cst_jobs st ! i)) st))"
proof -
  let ?j = "cst_jobs st ! i"
  let ?st = "set_stage i JobClosed (close_done (jb_task ?j) st)"
  have ok: "job_ok env st ?j" using inv i by (auto simp: comp_inv_def)
  have open_task: "jb_task ?j \<notin> set (cst_closed st)" using ok stage by (simp add: job_ok_def)
  have jobs: "cst_jobs ?st = (cst_jobs st)[i := ?j\<lparr>jb_stage := JobClosed\<rparr>]" and closed: "cst_closed ?st = jb_task ?j # cst_closed st"
    and rest: "cst_heap ?st = cst_heap st" "cst_panicked ?st = cst_panicked st" "cst_sessionTasks ?st = cst_sessionTasks st"
      "cst_ready ?st = cst_ready st" "cst_asked ?st = cst_asked st"
    using open_task by (simp_all add: set_stage_def close_done_def)
  have tasks: "map jb_task (cst_jobs ?st) = map jb_task (cst_jobs st)"
    by (simp add: jobs map_update) (metis i list_update_id nth_map)
  have other: "k < length (cst_jobs st) \<Longrightarrow> k \<noteq> i \<Longrightarrow> jb_task (cst_jobs st ! k) \<noteq> jb_task ?j" for k
    using inv i unfolding comp_inv_def distinct_append by (metis distinct_conv_nth length_map nth_map)
  have "job_ok env ?st (cst_jobs ?st ! k)" if k: "k < length (cst_jobs st)" for k
  proof (cases "k = i")
    case True
    then show ?thesis using ok k by (simp add: job_ok_def jobs closed rest)
  next
    case False
    have "job_ok env st (cst_jobs st ! k)" using inv k by (auto simp: comp_inv_def)
    then show ?thesis using False other[OF k False] by (simp add: job_ok_def jobs closed rest)
  qed
  then have "\<forall>j\<in>set (cst_jobs ?st). job_ok env ?st j" by (metis in_set_conv_nth length_list_update jobs)
  moreover have "listing_ok own ?st"
    unfolding listing_ok_def rest
  proof (intro allI impI)
    fix sid t
    assume m: "map_of (cst_sessionTasks st) sid = Some t"
    show "t \<in> set own \<or> (\<exists>j\<in>set (cst_jobs ?st). jb_task j = t \<and> jb_session j = sid \<and> listed_stage (jb_stage j))"
    proof (rule listedE[OF inv m])
      fix k
      assume k: "k < length (cst_jobs st)" "jb_task (cst_jobs st ! k) = t" "jb_session (cst_jobs st ! k) = sid"
        "listed_stage (jb_stage (cst_jobs st ! k))"
      then have "k \<noteq> i" using stage by (auto simp: listed_stage_def)
      then have "cst_jobs ?st ! k = cst_jobs st ! k" "k < length (cst_jobs ?st)" using k(1) by (simp_all add: jobs)
      then show ?thesis using k by (metis nth_mem)
    qed simp
  qed
  moreover have "jb_task ?j \<notin> set own" using inv i by (auto simp: comp_inv_def)
  then have "\<forall>t\<in>set own. t < length (cst_heap ?st) \<and> t \<notin> set (cst_closed ?st)" using inv by (auto simp: comp_inv_def closed rest)
  ultimately show ?thesis
    using inv ok by (auto simp: comp_inv_def tasks closed rest job_ok_def ready_ok_def)
qed

lemma job_step_inv:
  assumes inv: "comp_inv env own st"
  shows "comp_inv env own (job_step env i reply now st)"
proof (cases "i < length (cst_jobs st)")
  case i: True
  let ?j = "cst_jobs st ! i"
  have ok: "job_ok env st ?j" using inv i by (auto simp: comp_inv_def)
  then have plan: "buildCompressionPlan (si_Messages (jb_input ?j)) = Some (jb_plan ?j)" by (simp add: job_ok_def)
  show ?thesis
  proof (cases "jb_stage ?j")
    case JobStarted
    obtain r st1 where f: "flow_request env (jb_session ?j) (jb_agent ?j) (jb_input ?j) (jb_plan ?j) ''silent'' st = (r, st1)"
      by (cases "flow_request env (jb_session ?j) (jb_agent ?j) (jb_input ?j) (jb_plan ?j) ''silent'' st")
    note c = flow_request_cases[OF f]
    have s: "comp_inv env own st1" "cst_jobs st1 ! i = ?j" "i < length (cst_jobs st1)" using inv i c(1,3) by simp_all
    show ?thesis
    proof (cases r)
      case None
      have "comp_inv env own (set_stage i JobFlowDone st1)"
        by (rule set_stage_inv[OF s(1,3)]) (simp_all add: s JobStarted listed_stage_def)
      then show ?thesis using i JobStarted f None by (simp add: job_step_def Let_def)
    next
      case (Some req)
      have "comp_inv env own (set_stage i (JobAsking req) st1)"
        by (rule set_stage_inv[OF s(1,3)]) (use c(8) Some in \<open>simp_all add: s JobStarted listed_stage_def\<close>)
      then show ?thesis using i JobStarted f Some by (simp add: job_step_def Let_def)
    qed
  next
    case (JobAsking req)
    let ?st1 = "snd (flow_reply env (jb_session ?j) (jb_input ?j) (jb_plan ?j) ''silent'' req reply now st)"
    have s: "comp_inv env own ?st1" by (rule flow_reply_inv[OF inv plan]) (use ok JobAsking in \<open>simp add: job_ok_def\<close>)
    have jobs: "cst_jobs ?st1 = cst_jobs st" by (auto simp: flow_reply_def Let_def split: option.split prod.split)
    have "comp_inv env own (set_stage i JobFlowDone ?st1)"
      by (rule set_stage_inv[OF s]) (simp_all add: i JobAsking listed_stage_def jobs)
    then show ?thesis using i JobAsking by (simp add: job_step_def Let_def)
  next
    case JobFlowDone
    let ?st1 = "unlist (jb_session ?j) (jb_task ?j) st"
    have jobs: "cst_jobs ?st1 = cst_jobs st" by (simp add: unlist_def)
    have "comp_inv env own (set_stage i JobUnlisted ?st1)"
      by (rule set_stage_inv) (use job_unlisted[OF inv i] in \<open>auto simp: i JobFlowDone jobs intro!: inv\<close>)
    then show ?thesis using i JobFlowDone by (simp add: job_step_def Let_def)
  next
    case JobUnlisted
    then show ?thesis using close_job_inv[OF inv i] i by (simp add: job_step_def Let_def)
  next
    case JobClosed
    then show ?thesis using inv i by (simp add: job_step_def Let_def)
  qed
qed (simp add: inv job_step_def)

text \<open>What every step of another goroutine and every cancellation keeps, a list of moves keeps.\<close>

locale kept_by_moves =
  fixes env :: comp_env and kept :: "comp_state \<Rightarrow> comp_state \<Rightarrow> bool"
  assumes kept_refl: "kept st st"
    and kept_trans: "kept a b \<Longrightarrow> kept b c \<Longrightarrow> kept a c"
    and kept_step: "kept st (job_step env i reply now st)"
    and kept_cancel: "kept st (CancelSession sid st)"
begin

lemma kept_moves: "kept st (run_moves env mvs st)"
proof (induction mvs arbitrary: st)
  case (Cons mv mvs)
  have "kept st (run_move env mv st)" by (cases mv) (simp_all add: kept_step kept_cancel)
  from kept_trans[OF this Cons.IH] show ?case by (simp add: run_moves_def)
qed (simp add: run_moves_def kept_refl)

end

interpretation inv_moves: kept_by_moves env "\<lambda>a b. comp_inv env own a \<longrightarrow> comp_inv env own b" for env own
  by unfold_locales (auto intro: job_step_inv)

lemma run_moves_inv [intro]: "comp_inv env own st \<Longrightarrow> comp_inv env own (run_moves env mvs st)"
  using inv_moves.kept_moves by blast

section \<open>What other goroutines cannot do\<close>

text \<open>They never list a task, and the log of answers only grows.\<close>

definition evolves :: "comp_state \<Rightarrow> comp_state \<Rightarrow> bool" where
  "evolves st st' \<longleftrightarrow> map_of (cst_sessionTasks st') \<subseteq>\<^sub>m map_of (cst_sessionTasks st) \<and> set (cst_asked st) \<subseteq> set (cst_asked st')"

lemma evolves_refl [simp]: "evolves st st"
  by (simp add: evolves_def)

lemma evolves_trans [trans]: "evolves a b \<Longrightarrow> evolves b c \<Longrightarrow> evolves a c"
  unfolding evolves_def using map_le_trans by blast

lemma evolves_log: "evolves a b \<Longrightarrow> set (cst_asked a) \<subseteq> set (cst_asked b)"
  by (simp add: evolves_def)

lemma evolves_listed:
  "evolves a b \<Longrightarrow> map_of (cst_sessionTasks b) k = Some t \<Longrightarrow> map_of (cst_sessionTasks a) k = Some t"
  unfolding evolves_def map_le_def by (metis domI)

lemma evolves_cong: "cst_sessionTasks st' = cst_sessionTasks st \<Longrightarrow> cst_asked st' = cst_asked st \<Longrightarrow> evolves st st'"
  by (simp add: evolves_def)

lemma flow_reply_evolves: "evolves st (snd (flow_reply env sid input plan l req reply now st))"
  by (auto simp: evolves_def flow_reply_def Let_def split: option.split prod.split)

lemma unlist_evolves: "evolves st (unlist sid t st)"
  by (auto simp: evolves_def unlist_def delete_conv' map_le_def)

lemma reap_evolves: "evolves st (reapFinishedTask sid st)"
  by (auto simp: evolves_def reapFinishedTask_def delete_conv' map_le_def split: option.split)

lemma job_step_evolves: "evolves st (job_step env i reply now st)"
proof (cases "i < length (cst_jobs st)")
  case i: True
  let ?j = "cst_jobs st ! i"
  have stage: "evolves a b \<Longrightarrow> evolves a (set_stage k s b)" for a b k s by (simp add: set_stage_def evolves_def)
  have cl: "evolves a (close_done t a)" for a t by (simp add: close_done_def evolves_def)
  have req: "evolves st st1" if "flow_request env (jb_session ?j) (jb_agent ?j) (jb_input ?j) (jb_plan ?j) ''silent'' st = (r, st1)" for r st1
    using flow_request_cases[OF that] by (intro evolves_cong) simp_all
  show ?thesis
    using i req by (auto simp: job_step_def Let_def stage cl unlist_evolves flow_reply_evolves split: job_stage.split prod.split option.split)
qed (simp add: job_step_def)

lemma cancel_evolves: "evolves st (CancelSession sid st)"
  by (auto simp: CancelSession_def evolves_def delete_conv' map_le_def)

interpretation log_moves: kept_by_moves env evolves for env
  by unfold_locales (auto intro: evolves_trans job_step_evolves cancel_evolves)

lemmas run_moves_evolves = log_moves.kept_moves

section \<open>Writing back\<close>

text \<open>The new history has a range of the old one replaced by the provider's summary of that very range.\<close>

definition summarised :: "comp_env \<Rightarrow> string \<Rightarrow> comp_state \<Rightarrow> message list \<Rightarrow> message list \<Rightarrow> bool" where
  "summarised env sid st ms ms' \<longleftrightarrow>
     (\<exists>plan summary. answers env sid (cst_asked st) plan (compressionSourceFingerprint (cenv_fingerprint env) ms plan) summary \<and>
        applyCompressionReplacement (cenv_fingerprint env) ms plan summary (compressionSourceFingerprint (cenv_fingerprint env) ms plan)
          = (ms', StatusApplied))"

lemma summarised_evolves: "summarised env sid st ms ms' \<Longrightarrow> evolves st st' \<Longrightarrow> summarised env sid st' ms ms'"
  unfolding summarised_def evolves_def using answers_mono by blast

lemma append_irrelevant:
  "compressionSourceFingerprint fp ms (plan\<lparr>cpl_SidecarAppend := am\<rparr>) = compressionSourceFingerprint fp ms plan"
  "applyCompressionReplacement fp ms (plan\<lparr>cpl_SidecarAppend := am\<rparr>) summary src = applyCompressionReplacement fp ms plan summary src"
  by (simp_all add: compressionSourceFingerprint_def applyCompressionReplacement_def Let_def split: compress_apply_mode.split)

lemma applied_fresh:
  assumes "applyCompressionReplacement fp ms plan summary src = (merged, StatusApplied)" "src \<noteq> []"
  shows "src = compressionSourceFingerprint fp ms plan"
  using assms by (auto simp: applyCompressionReplacement_def compressionSourceFingerprint_def Let_def split: if_splits compress_apply_mode.splits)

lemma source_fingerprint_nonempty:
  assumes "\<forall>ms. fp ms \<noteq> []" "buildCompressionPlan src = Some plan"
  shows "compressionSourceFingerprint fp src plan \<noteq> []"
  using assms plan_next(1)[OF assms(2)]
  by (simp add: compressionSourceFingerprint_def Let_def split: compress_apply_mode.split)

lemma take_ready_inv [intro]: "comp_inv env own st \<Longrightarrow> comp_inv env own (st\<lparr>cst_ready := AList.delete sid (cst_ready st)\<rparr>)"
  by (auto simp: comp_inv_def job_ok_def listing_ok_def ready_ok_def delete_conv' split: if_splits)

lemma write_back_inv [simp]:
  "comp_inv env own (markSilentCooldownApplied env sid ms now st) = comp_inv env own st"
  "comp_inv env own (recordLastCompression sid snap st) = comp_inv env own st"
  by (rule comp_inv_cong; simp add: markSilentCooldownApplied_def recordLastCompression_def)+

lemma write_back_evolves:
  "evolves a b \<Longrightarrow> evolves a (markSilentCooldownApplied env sid ms now b)" "evolves a b \<Longrightarrow> evolves a (recordLastCompression sid snap b)"
  "evolves a b \<Longrightarrow> evolves a (publishCompressionEvent sid l p pl b)"
  by (simp_all add: evolves_def markSilentCooldownApplied_def recordLastCompression_def)

lemma apply_ready:
  assumes inv: "comp_inv env own st" and ap: "applyReadyCompression env mvs sid ms now st = (out, ms', st')"
  shows "comp_inv env own st'" "evolves st st'"
    "\<forall>ms. cenv_fingerprint env ms \<noteq> [] \<Longrightarrow>
       (if ao_status out = ''applied'' then summarised env sid st ms ms' else ms' = ms)"
proof -
  let ?fp = "cenv_fingerprint env"
  have inv1: "comp_inv env own (run_moves env mvs (st\<lparr>cst_ready := AList.delete sid (cst_ready st)\<rparr>))" using inv by blast
  have ev1: "evolves st (run_moves env mvs (st\<lparr>cst_ready := AList.delete sid (cst_ready st)\<rparr>))"
    using run_moves_evolves[of "st\<lparr>cst_ready := AList.delete sid (cst_ready st)\<rparr>" env mvs] by (simp add: evolves_def)
  show "comp_inv env own st'" "evolves st st'"
    using ap inv inv1 ev1
    by (auto simp: applyReadyCompression_def Let_def write_back_evolves split: option.splits if_splits prod.splits)
  assume fp: "\<forall>ms. ?fp ms \<noteq> []"
  show "if ao_status out = ''applied'' then summarised env sid st ms ms' else ms' = ms"
  proof (cases "map_of (cst_ready st) sid")
    case None
    then show ?thesis using ap by (auto simp: applyReadyCompression_def no_outcome_def)
  next
    case (Some r)
    let ?plan = "ready_plan r AppendUserOnly"
    obtain merged status where m: "applyCompressionReplacement ?fp ms ?plan (rc_Content r) (rc_SourceSliceFingerprint r) = (merged, status)"
      by (cases "applyCompressionReplacement ?fp ms ?plan (rc_Content r) (rc_SourceSliceFingerprint r)")
    have cases: "status = StatusApplied \<and> ao_status out = ''applied'' \<and> ms' = merged \<or> ao_status out \<noteq> ''applied'' \<and> ms' = ms"
      using ap Some m
      by (auto simp: applyReadyCompression_def Let_def ready_plan_def status_name_def split: if_splits apply_status.splits)
    obtain am where an: "answers env sid (cst_asked st) (ready_plan r am) (rc_SourceSliceFingerprint r) (rc_Content r)"
      using inv Some unfolding comp_inv_def ready_ok_def by blast
    have pl: "ready_plan r am = ?plan\<lparr>cpl_SidecarAppend := am\<rparr>" by (simp add: ready_plan_def)
    have ne: "rc_SourceSliceFingerprint r \<noteq> []"
      using an source_fingerprint_nonempty[OF fp] unfolding answers_def by metis
    show ?thesis
    proof (cases "status = StatusApplied \<and> ao_status out = ''applied''")
      case True
      then have "applyCompressionReplacement ?fp ms (ready_plan r am) (rc_Content r) (rc_SourceSliceFingerprint r) = (merged, StatusApplied)"
        using m by (simp add: pl append_irrelevant)
      moreover from applied_fresh[OF this ne]
      have "rc_SourceSliceFingerprint r = compressionSourceFingerprint ?fp ms (ready_plan r am)" .
      ultimately have "summarised env sid st ms merged" unfolding summarised_def using an by metis
      then show ?thesis using True cases by auto
    qed (use cases in auto)
  qed
qed

lemma summarised_accepted:
  assumes "summarised env sid st ms ms'" "ValidateToolProtocol json ms = None"
  shows "ValidateToolProtocol json ms' = None" "length ms' \<le> length ms"
proof -
  obtain plan summary src where "applyCompressionReplacement (cenv_fingerprint env) ms plan summary src = (ms', StatusApplied)"
    using assms(1) unfolding summarised_def by blast
  then obtain c k where "ms' = take (leadingSystemSkip ms) ms @ [UserMessage c ''compression''] @ drop k ms"
    "leadingSystemSkip ms < k" "k \<le> length ms" "ValidateToolProtocol json ms' = None"
    by (rule replacement_accepted[OF assms(2)])
  then show "ValidateToolProtocol json ms' = None" "length ms' \<le> length ms" by simp_all
qed

section \<open>The foreground calls\<close>

lemma run_flow:
  assumes inv: "comp_inv env own st" and plan: "buildCompressionPlan (si_Messages input) = Some plan"
    and run: "runCompressionFlow env mvs sid aid input plan l reply now st = (ok, st')"
  shows "comp_inv env own st'" "evolves st st'"
proof -
  obtain r st1 where f: "flow_request env sid aid input plan l st = (r, st1)" by (cases "flow_request env sid aid input plan l st")
  note c = flow_request_cases[OF f]
  have "comp_inv env own st' \<and> evolves st st'"
  proof (cases r)
    case None
    then show ?thesis using run f inv c by (auto simp: runCompressionFlow_def intro: evolves_cong)
  next
    case (Some req)
    let ?st2 = "run_moves env mvs st1"
    have s: "st' = snd (flow_reply env sid input plan l req reply now ?st2)" using run f Some by (simp add: runCompressionFlow_def)
    have "comp_inv env own ?st2" using inv c(1) by blast
    then have "comp_inv env own st'" unfolding s using flow_reply_inv[OF _ plan] c(8) Some by blast
    moreover have "evolves st st1" using c by (intro evolves_cong)
    then have "evolves st st'" unfolding s by (intro evolves_trans[OF _ flow_reply_evolves] evolves_trans[OF _ run_moves_evolves])
    ultimately show ?thesis by blast
  qed
  then show "comp_inv env own st'" "evolves st st'" by simp_all
qed

lemma new_task_inv:
  assumes inv: "comp_inv env own st" and new: "newCompressionTask l a b n st = (t, st')"
  shows "comp_inv env own st'" "t = length (cst_heap st)" "t < length (cst_heap st')" "t \<notin> set (cst_closed st')" "t \<notin> set own"
    "t \<notin> jb_task ` set (cst_jobs st')" "cst_sessionTasks st' = cst_sessionTasks st" "cst_asked st' = cst_asked st"
    "\<forall>sid. map_of (cst_sessionTasks st') sid \<noteq> Some t"
proof -
  obtain k where "st' = st\<lparr>cst_heap := cst_heap st @ [k]\<rparr>" using new by (auto simp: newCompressionTask_def)
  then have "listing_ok own st' = listing_ok own st" "ready_ok env st' = ready_ok env st" by (simp_all add: listing_ok_def ready_ok_def)
  then show "comp_inv env own st'" using inv new by (auto simp: comp_inv_def newCompressionTask_def job_ok_def less_Suc_eq)
  show f: "t = length (cst_heap st)" "t < length (cst_heap st')" "cst_sessionTasks st' = cst_sessionTasks st" "cst_asked st' = cst_asked st"
    using new by (auto simp: newCompressionTask_def)
  have st': "cst_closed st' = cst_closed st" "cst_jobs st' = cst_jobs st" using new by (auto simp: newCompressionTask_def)
  have "\<forall>k\<in>set (cst_closed st) \<union> set own \<union> jb_task ` set (cst_jobs st). k < length (cst_heap st)"
    using inv by (auto simp: comp_inv_def job_ok_def)
  then show "t \<notin> set (cst_closed st')" "t \<notin> set own" "t \<notin> jb_task ` set (cst_jobs st')" unfolding f(1) st' by blast+
  show "\<forall>sid. map_of (cst_sessionTasks st') sid \<noteq> Some t"
  proof (intro allI notI)
    fix sid
    assume "map_of (cst_sessionTasks st') sid = Some t"
    then have m: "map_of (cst_sessionTasks st) sid = Some t" using f by simp
    show False
      by (rule listedE[OF inv m]) (use \<open>t \<notin> set own\<close> \<open>t \<notin> jb_task ` set (cst_jobs st')\<close> st' in auto)
  qed
qed

lemma start_silent_inv:
  assumes inv: "comp_inv env [] st" and plan: "buildCompressionPlan ms = Some plan"
  shows "comp_inv env [] (startSilentTask sid aid pre plan ms st)" "cst_asked (startSilentTask sid aid pre plan ms st) = cst_asked st"
proof -
  obtain t st1 where n: "newCompressionTask ''silent'' (leadingSystemSkip ms) (cpl_End plan) (length (compressionSlice ms plan)) st = (t, st1)"
    by (cases "newCompressionTask ''silent'' (leadingSystemSkip ms) (cpl_End plan) (length (compressionSlice ms plan)) st")
  note c = new_task_inv[OF inv n]
  show "cst_asked (startSilentTask sid aid pre plan ms st) = cst_asked st"
    using n c(8) by (auto simp: startSilentTask_def Let_def registerTask_def split: if_splits)
  let ?j = "\<lparr>jb_task = t, jb_session = sid, jb_agent = aid, jb_input = \<lparr>si_Prefix = pre, si_Messages = ms\<rparr>, jb_plan = plan,
      jb_stage = JobStarted\<rparr>"
  let ?st2 = "st1\<lparr>cst_sessionTasks := AList.update sid t (cst_sessionTasks st1), cst_jobs := cst_jobs st1 @ [?j]\<rparr>"
  have "listing_ok [] ?st2"
    using c(1) unfolding comp_inv_def listing_ok_def by (auto simp: update_conv' listed_stage_def)
  moreover have "job_ok env ?st2 ?j" using c plan by (simp add: job_ok_def)
  moreover have "\<forall>j\<in>set (cst_jobs st1). job_ok env ?st2 j" using c(1) by (simp add: comp_inv_def job_ok_def)
  ultimately have "comp_inv env [] ?st2" using c(1,6) by (auto simp: comp_inv_def ready_ok_def)
  then show "comp_inv env [] (startSilentTask sid aid pre plan ms st)"
    using n c(1) inv by (auto simp: startSilentTask_def Let_def registerTask_def split: if_splits)
qed

lemma wait_inv:
  assumes "comp_inv env own st" "waitTask env mvs sid st = Some st'"
  shows "comp_inv env own st'" "evolves st st'"
proof -
  have "comp_inv env own st' \<and> evolves st st'"
  proof (cases "runningTask sid st")
    case None
    then show ?thesis using assms by (simp add: waitTask_def)
  next
    case (Some t)
    then have s: "st' = unlist sid t (run_moves env mvs st)" using assms(2) by (simp add: waitTask_def Let_def split: if_splits)
    show ?thesis unfolding s using assms(1) evolves_trans[OF run_moves_evolves unlist_evolves] by blast
  qed
  then show "comp_inv env own st'" "evolves st st'" by simp_all
qed

lemma decision_plan:
  "snd (evaluateCompression estimate ms a b) = Some plan \<Longrightarrow> buildCompressionPlan ms = Some plan"
  by (auto simp: evaluateCompression_def Let_def split: if_splits option.splits)

lemma handle_decision_inv:
  assumes inv: "comp_inv env [] st" and plan: "\<forall>p. snd dp = Some p \<longrightarrow> buildCompressionPlan ms = Some p"
    and h: "handle_decision env sd sid aid pre ms dp st = Some st'"
  shows "comp_inv env [] st'" "set (cst_asked st) \<subseteq> set (cst_asked st')"
proof -
  obtain decision popt where dp: "dp = (decision, popt)" by (cases dp)
  have mv: "comp_inv env [] (run_moves env mvs s) \<and> set (cst_asked s) \<subseteq> set (cst_asked (run_moves env mvs s))"
    if "comp_inv env [] s" for mvs s
    using run_moves_inv[OF that] run_moves_evolves[of s env mvs] by (simp add: evolves_def)
  have "comp_inv env [] st' \<and> set (cst_asked st) \<subseteq> set (cst_asked st')"
  proof (cases popt)
    case None
    then show ?thesis using inv h by (simp add: handle_decision_def dp)
  next
    case (Some p)
    then have bp: "buildCompressionPlan ms = Some p" using plan dp by simp
    consider (silent) "cd_Should decision" "cd_TriggerLevel decision = ''silent''"
      | (blocking) "cd_Should decision" "cd_TriggerLevel decision = ''blocking''"
      | (neither) "\<not> (cd_Should decision \<and> cd_TriggerLevel decision = ''silent'')" "\<not> (cd_Should decision \<and> cd_TriggerLevel decision = ''blocking'')"
      by blast
    then show ?thesis
    proof cases
      case silent
      let ?st4 = "run_moves env (sd_moves sd 3) st"
      let ?st5 = "run_moves env (sd_moves sd 4) ?st4"
      have i4: "comp_inv env [] ?st4" "set (cst_asked st) \<subseteq> set (cst_asked ?st4)" using mv[OF inv] by simp_all
      then have i5: "comp_inv env [] ?st5" "set (cst_asked st) \<subseteq> set (cst_asked ?st5)" using mv[OF i4(1)] by blast+
      have "st' = ?st4 \<or> st' = startSilentTask sid aid pre p ms ?st5"
        using h silent by (simp add: handle_decision_def dp Some Let_def split: if_splits)
      then show ?thesis using i4 i5(2) start_silent_inv[OF i5(1) bp] by auto
    next
      case blocking
      obtain st4 where w: "(if hasRunningTask sid st then waitTask env (sd_moves sd 3) sid st else Some st) = Some st4"
        using h blocking by (auto simp: handle_decision_def dp Some Let_def split: option.splits)
      obtain ok st5 where r: "runCompressionFlow env (sd_moves sd 4) sid aid \<lparr>si_Prefix = pre, si_Messages = ms\<rparr> p ''blocking''
          (sd_reply sd) (sd_now sd 2) st4 = (ok, st5)"
        by (cases "runCompressionFlow env (sd_moves sd 4) sid aid \<lparr>si_Prefix = pre, si_Messages = ms\<rparr> p ''blocking''
          (sd_reply sd) (sd_now sd 2) st4")
      have "comp_inv env [] st4" "evolves st st4" using w inv wait_inv[OF inv] by (auto split: if_splits)
      moreover from run_flow[OF this(1) _ r] bp have "comp_inv env [] st5" "evolves st4 st5" by simp_all
      moreover have "st' = st5 \<or> st' = emitBlockingFailure sid st5"
        using h blocking w r by (auto simp: handle_decision_def dp Some Let_def split: bool.splits)
      ultimately show ?thesis
        by (auto simp: evolves_def)
    next
      case neither
      then have "handle_decision env sd sid aid pre ms dp st = Some st"
        by (simp only: handle_decision_def dp Some Let_def prod.case option.case if_False)
      then show ?thesis using inv h by simp
    qed
  qed
  then show "comp_inv env [] st'" "set (cst_asked st) \<subseteq> set (cst_asked st')" by simp_all
qed

text \<open>A history is rewritten when it stays as it is or has a range replaced by its summary.\<close>

definition rewritten :: "comp_env \<Rightarrow> string \<Rightarrow> comp_state \<Rightarrow> message list \<Rightarrow> message list \<Rightarrow> bool" where
  "rewritten env sid st ms ms' \<longleftrightarrow> ms' = ms \<or> summarised env sid st ms ms'"

lemma summarised_log: "summarised env sid st ms ms' \<Longrightarrow> set (cst_asked st) \<subseteq> set (cst_asked st') \<Longrightarrow> summarised env sid st' ms ms'"
  unfolding summarised_def using answers_mono by blast

lemma maybe_handle_core:
  assumes inv: "comp_inv env [] st" and h: "MaybeHandle env sd sid aid pre ms st = Some (applied, ms', st')"
  shows "comp_inv env [] st'" "set (cst_asked st) \<subseteq> set (cst_asked st')"
    "\<forall>ms. cenv_fingerprint env ms \<noteq> [] \<Longrightarrow>
       (\<exists>ms1. rewritten env sid st' ms ms1 \<and> rewritten env sid st' ms1 ms') \<and> (\<not> applied \<longrightarrow> ms' = ms)"
proof -
  have "comp_inv env [] st' \<and> set (cst_asked st) \<subseteq> set (cst_asked st') \<and>
      ((\<forall>ms. cenv_fingerprint env ms \<noteq> []) \<longrightarrow>
         (\<exists>ms1. rewritten env sid st' ms ms1 \<and> rewritten env sid st' ms1 ms') \<and> (\<not> applied \<longrightarrow> ms' = ms))"
  proof (cases "comp_Enabled st")
    case False
    then show ?thesis using h inv by (auto simp: MaybeHandle_def rewritten_def)
  next
    case True
    let ?st1 = "run_moves env (sd_moves sd 0) (reapFinishedTask sid st)"
    obtain out1 ms1 st2 where a1: "applyReadyCompression env (sd_moves sd 1) sid ms (sd_now sd 0) ?st1 = (out1, ms1, st2)"
      using prod_cases3 by blast
    let ?d = "evaluateCompression (cenv_estimate env) ms1 (cst_silentTriggerTokens st2) (cst_blockingTriggerTokens st2)"
    let ?st3 = "run_moves env (sd_moves sd 2) st2"
    obtain st6 where m: "handle_decision env sd sid aid pre ms1 ?d ?st3 = Some st6"
      using h True a1 by (auto simp: MaybeHandle_def Let_def split: option.splits)
    let ?st7 = "run_moves env (sd_moves sd 6) (reapFinishedTask sid (run_moves env (sd_moves sd 5) st6))"
    obtain out2 ms2 st8 where a2: "applyReadyCompression env (sd_moves sd 7) sid ms1 (sd_now sd 3) ?st7 = (out2, ms2, st8)"
      using prod_cases3 by blast
    have res: "applied = (ao_status out1 = ''applied'' \<or> ao_status out2 = ''applied'')" "ms' = ms2" "st' = st8"
      using h True a1 m a2 by (simp_all add: MaybeHandle_def Let_def)
    have i1: "comp_inv env [] ?st1" "evolves st ?st1" using inv evolves_trans[OF reap_evolves run_moves_evolves] by auto
    note w1 = apply_ready[OF i1(1) a1]
    have i3: "comp_inv env [] ?st3" "evolves st2 ?st3" using w1(1) run_moves_evolves by auto
    have d: "\<forall>p. snd ?d = Some p \<longrightarrow> buildCompressionPlan ms1 = Some p" using decision_plan by blast
    note w6 = handle_decision_inv[OF i3(1) d m]
    have i7: "comp_inv env [] ?st7" "evolves st6 ?st7"
      using w6(1) by (blast, intro evolves_trans[OF _ run_moves_evolves] evolves_trans[OF _ reap_evolves] run_moves_evolves)
    note w8 = apply_ready[OF i7(1) a2]
    have log: "set (cst_asked st) \<subseteq> set (cst_asked ?st1)" "set (cst_asked ?st1) \<subseteq> set (cst_asked st8)" "set (cst_asked ?st7) \<subseteq> set (cst_asked st8)"
      using evolves_log[OF i1(2)] evolves_log[OF w1(2)] evolves_log[OF i3(2)] w6(2) evolves_log[OF i7(2)] evolves_log[OF w8(2)]
      by (blast, meson subset_trans, blast)
    have "rewritten env sid st8 ms ms1" "rewritten env sid st8 ms1 ms2" "\<not> applied \<longrightarrow> ms2 = ms" if fp: "\<forall>ms. cenv_fingerprint env ms \<noteq> []"
      using w1(3)[OF fp] w8(3)[OF fp] summarised_log log(2,3) unfolding res rewritten_def by (auto split: if_splits)
    then show ?thesis using w8(1) log unfolding res by blast
  qed
  then show "comp_inv env [] st'" "set (cst_asked st) \<subseteq> set (cst_asked st')"
    "\<forall>ms. cenv_fingerprint env ms \<noteq> [] \<Longrightarrow>
       (\<exists>ms1. rewritten env sid st' ms ms1 \<and> rewritten env sid st' ms1 ms') \<and> (\<not> applied \<longrightarrow> ms' = ms)" by blast+
qed

lemma close_own_inv:
  assumes inv: "comp_inv env [t] st" and free: "\<forall>sid. map_of (cst_sessionTasks st) sid \<noteq> Some t"
  shows "comp_inv env [] (close_done t st)"
proof -
  have st: "close_done t st = st\<lparr>cst_closed := t # cst_closed st\<rparr>" using inv by (simp add: comp_inv_def close_done_def)
  have "\<forall>j\<in>set (cst_jobs st). jb_task j \<noteq> t" using inv by (auto simp: comp_inv_def)
  moreover have "listing_ok [] (st\<lparr>cst_closed := t # cst_closed st\<rparr>)"
    using inv free unfolding comp_inv_def listing_ok_def by fastforce
  ultimately show ?thesis using inv unfolding st comp_inv_def by (auto simp: job_ok_def ready_ok_def)
qed

lemma force_listed_core:
  assumes inv: "comp_inv env own st" and plan: "buildCompressionPlan ms = Some plan"
    and f: "force_listed env sd sid aid pre ms plan st = (res, ms', st')"
  shows "comp_inv env own st'" "evolves st st'"
    "\<forall>ms. cenv_fingerprint env ms \<noteq> [] \<Longrightarrow> if fo_Status res = ''applied'' then summarised env sid st' ms ms' else ms' = ms"
proof -
  obtain ok st3 where r: "runCompressionFlow env (sd_moves sd 2) sid aid \<lparr>si_Prefix = pre, si_Messages = ms\<rparr> plan ''blocking''
      (sd_reply sd) (sd_now sd 0) st = (ok, st3)"
    by (cases "runCompressionFlow env (sd_moves sd 2) sid aid \<lparr>si_Prefix = pre, si_Messages = ms\<rparr> plan ''blocking'' (sd_reply sd) (sd_now sd 0) st")
  have i3: "comp_inv env own st3" "evolves st st3" using run_flow[OF inv _ r] plan by simp_all
  obtain out ms2 st4 where a: "applyReadyCompression env (sd_moves sd 4) sid ms (sd_now sd 1) (run_moves env (sd_moves sd 3) st3) = (out, ms2, st4)"
    using prod_cases3 by blast
  have i4: "comp_inv env own (run_moves env (sd_moves sd 3) st3)" "evolves st (run_moves env (sd_moves sd 3) st3)"
    using i3 evolves_trans[OF _ run_moves_evolves] by blast+
  note w = apply_ready[OF i4(1) a]
  have ev: "evolves st st4" using evolves_trans[OF i4(2) w(2)] .
  have cases: "\<not> ok \<and> fo_Status res = ''failed'' \<and> ms' = ms \<and> st' = st3 \<or>
      ok \<and> st' = st4 \<and> ms' = ms2 \<and> (fo_Status res = ao_status out \<or> ao_status out = [] \<and> fo_Status res = ''failed'')"
    using f r a by (cases ok) (auto simp: force_listed_def Let_def status_only_def split: if_splits)
  then show "comp_inv env own st'" "evolves st st'" using i3 w(1) ev by auto
  assume "\<forall>ms. cenv_fingerprint env ms \<noteq> []"
  from w(3)[OF this] show "if fo_Status res = ''applied'' then summarised env sid st' ms ms' else ms' = ms"
    using cases summarised_evolves[OF _ w(2)] by (auto split: if_splits)
qed

lemma force_core:
  assumes inv: "comp_inv env [] st" and f: "ForceBlocking env sd sid aid pre ms st = (res, ms', st')"
  shows "comp_inv env [] st'"
    "\<forall>ms. cenv_fingerprint env ms \<noteq> [] \<Longrightarrow> if fo_Status res = ''applied'' then summarised env sid st' ms ms' else ms' = ms"
proof -
  have "comp_inv env [] st' \<and> ((\<forall>ms. cenv_fingerprint env ms \<noteq> []) \<longrightarrow>
      (if fo_Status res = ''applied'' then summarised env sid st' ms ms' else ms' = ms))"
  proof (cases "cst_client st \<and> runningTask sid st = None \<and> buildCompressionPlan ms \<noteq> None")
    case False
    then show ?thesis using f inv
      by (auto simp: ForceBlocking_def Let_def status_only_def task_forceResult_def split: if_splits option.splits)
  next
    case True
    then obtain plan where plan: "buildCompressionPlan ms = Some plan" by blast
    let ?st0 = "run_moves env (sd_moves sd 0) st"
    obtain t st1 where n: "newCompressionTask ''blocking'' (leadingSystemSkip ms) (cpl_End plan) (length (compressionSlice ms plan)) ?st0 = (t, st1)"
      by (cases "newCompressionTask ''blocking'' (leadingSystemSkip ms) (cpl_End plan) (length (compressionSlice ms plan)) ?st0")
    have i0: "comp_inv env [] ?st0" using inv by blast
    note c = new_task_inv[OF i0 n]
    show ?thesis
    proof (cases "runningTask sid st1 = None")
      case False
      then have "st' = run_moves env (sd_moves sd 1) st1" "ms' = ms" "fo_Status res \<noteq> ''applied''"
        using f True plan n by (auto simp: ForceBlocking_def Let_def registerTask_def status_only_def task_forceResult_def split: if_splits option.splits)
      then show ?thesis using c(1) by auto
    next
      case free: True
      let ?st2 = "st1\<lparr>cst_sessionTasks := AList.update sid t (cst_sessionTasks st1)\<rparr>"
      have "listing_ok [t] ?st2" using c(1) unfolding comp_inv_def listing_ok_def by (auto simp: update_conv')
      then have i2: "comp_inv env [t] ?st2" using c(1-6) by (simp add: comp_inv_def job_ok_def ready_ok_def)
      obtain res3 ms3 st3 where l: "force_listed env sd sid aid pre ms plan ?st2 = (res3, ms3, st3)" using prod_cases3 by blast
      note w = force_listed_core[OF i2 plan l]
      let ?st4 = "run_moves env (sd_moves sd 5) (unlist sid t st3)"
      have r: "res = res3" "ms' = ms3" "st' = close_done t ?st4"
        using f True plan n free l by (simp_all add: ForceBlocking_def Let_def registerTask_def)
      have i4: "comp_inv env [t] ?st4" using w(1) by blast
      have only: "k = sid" if "map_of (cst_sessionTasks st3) k = Some t" for k
        using evolves_listed[OF w(2) that] c(9) by (simp add: update_conv' split: if_splits)
      have "map_of (cst_sessionTasks (unlist sid t st3)) k \<noteq> Some t" for k
        using only[of k] by (auto simp: unlist_def delete_conv')
      then have "\<forall>k. map_of (cst_sessionTasks ?st4) k \<noteq> Some t" using evolves_listed[OF run_moves_evolves] by blast
      then have "comp_inv env [] st'" unfolding r by (rule close_own_inv[OF i4])
      moreover have "set (cst_asked st3) \<subseteq> set (cst_asked st')"
        using evolves_trans[OF unlist_evolves run_moves_evolves, of st3 env "sd_moves sd 5" sid t] unfolding r by (simp add: evolves_def close_done_def)
      ultimately show ?thesis using w(3) summarised_log[of env sid st3 ms ms' st'] unfolding r(1,2) by auto
    qed
  qed
  then show "comp_inv env [] st'"
    "\<forall>ms. cenv_fingerprint env ms \<noteq> [] \<Longrightarrow> if fo_Status res = ''applied'' then summarised env sid st' ms ms' else ms' = ms" by blast+
qed

end
