(* ===== verification/Compression_Runs.thy ===== *)
theory Compression_Runs
  imports Compression_Safety
begin

text \<open>
  What the compression coordinator guarantees in every reachable state and under every interleaving.

  \<open>summaries_replace_their_source\<close>: a history is only ever shortened by a summary of the very range it loses, and stays acceptable to the
  protocol check. \<open>compression_tasks_sound\<close>: no channel is closed twice, and every listed task is run by exactly one goroutine.
  \<open>compression_never_stuck\<close>: a call that waits for a silent compression returns once that goroutine has taken its last four steps.
  \<open>manual_compression_applies\<close>: a manual compression that gets an answer takes effect. \<open>cancelled_summary_returns\<close>,
  \<open>cancelled_flow_doubles\<close> and \<open>awaited_summary_discarded\<close> show what the code does not prevent.
\<close>

section \<open>Reachable states\<close>

inductive comp_reach :: "comp_env \<Rightarrow> comp_state \<Rightarrow> bool" for env where
  reach_new: "comp_reach env (NewCoordinator client silent blocking)"
| reach_submitter: "comp_reach env st \<Longrightarrow> comp_reach env (SetCandidateSubmitter submitter st)"
| reach_scope: "comp_reach env st \<Longrightarrow> comp_reach env (SetCandidateScope scope st)"
| reach_enabled: "comp_reach env st \<Longrightarrow> comp_reach env (SetRawMessageHistoryEnabled enabled st)"
| reach_dir: "comp_reach env st \<Longrightarrow> comp_reach env (SetRawMessageHistoryRelativeRoot dir st)"
| reach_handle: "comp_reach env st \<Longrightarrow> MaybeHandle env sd sid aid pre ms st = Some (applied, ms', st') \<Longrightarrow> comp_reach env st'"
| reach_force: "comp_reach env st \<Longrightarrow> ForceBlocking env sd sid aid pre ms st = (res, ms', st') \<Longrightarrow> comp_reach env st'"
| reach_move: "comp_reach env st \<Longrightarrow> comp_reach env (run_move env mv st)"

lemma comp_reach_inv: "comp_reach env st \<Longrightarrow> comp_inv env [] st"
proof (induction rule: comp_reach.induct)
  case (reach_move st mv)
  then show ?case using run_moves_inv[of env "[]" st "[mv]"] by (simp add: run_moves_def)
next
  case (reach_handle st sd sid aid pre ms applied ms' st')
  then show ?case using maybe_handle_core(1) by blast
next
  case (reach_force st sd sid aid pre ms res ms' st')
  then show ?case using force_core(1) by blast
qed (simp_all add: comp_inv_new SetCandidateSubmitter_def SetCandidateScope_def SetRawMessageHistoryEnabled_def
      SetRawMessageHistoryRelativeRoot_def comp_inv_cong[of "_\<lparr>cst_submitter := _\<rparr>"] comp_inv_cong[of "_\<lparr>cst_scope := _\<rparr>"]
      comp_inv_cong[of "_\<lparr>cst_rawEnabled := _\<rparr>"] comp_inv_cong[of "_\<lparr>cst_rawRoot := _\<rparr>"])

lemma listed_open:
  assumes "comp_inv env [] st" "map_of (cst_sessionTasks st) sid = Some t"
  shows "t \<notin> set (cst_closed st)" "runningTask sid st = Some t"
proof -
  show "t \<notin> set (cst_closed st)"
    by (rule listedE[OF assms]) (use assms(1) in \<open>auto simp: comp_inv_def job_ok_def listed_stage_def\<close>)
  then show "runningTask sid st = Some t" using assms(2) by (simp add: runningTask_def)
qed

text \<open>So there is never anything to reap: a goroutine takes its task out of the map before it closes the channel.\<close>

lemma reap_idle: "comp_reach env st \<Longrightarrow> reapFinishedTask sid st = st"
  using listed_open[OF comp_reach_inv] by (auto simp: reapFinishedTask_def split: option.split)

section \<open>Waiting ends\<close>

definition stage_rank :: "job_stage \<Rightarrow> nat" where
  "stage_rank s = (case s of JobStarted \<Rightarrow> 4 | JobAsking _ \<Rightarrow> 3 | JobFlowDone \<Rightarrow> 2 | JobUnlisted \<Rightarrow> 1 | JobClosed \<Rightarrow> 0)"

lemma job_step_stage:
  assumes i: "i < length (cst_jobs st)"
  obtains s where "cst_jobs (job_step env i reply now st) = (cst_jobs st)[i := (cst_jobs st ! i)\<lparr>jb_stage := s\<rparr>]"
    "stage_rank s \<le> stage_rank (jb_stage (cst_jobs st ! i)) - 1"
proof -
  let ?j = "cst_jobs st ! i"
  have frames: "cst_jobs (unlist sid t st) = cst_jobs st" "cst_jobs (close_done t st) = cst_jobs st" for sid t
    by (simp_all add: unlist_def close_done_def)
  have reply_frame: "cst_jobs (snd (flow_reply env sid input plan l req reply now st)) = cst_jobs st" for sid input plan l req
    by (auto simp: flow_reply_def Let_def split: option.split prod.split)
  obtain r st1 where f: "flow_request env (jb_session ?j) (jb_agent ?j) (jb_input ?j) (jb_plan ?j) ''silent'' st = (r, st1)"
    by (cases "flow_request env (jb_session ?j) (jb_agent ?j) (jb_input ?j) (jb_plan ?j) ''silent'' st")
  note req = flow_request_cases(3)[OF f]
  show thesis
  proof (cases "jb_stage ?j")
    case JobStarted
    then show thesis using i f req that[of JobFlowDone] that[of "JobAsking (the r)"]
      by (cases r) (simp_all add: job_step_def Let_def set_stage_def stage_rank_def)
  next
    case (JobAsking q)
    then show thesis using i reply_frame that[of JobFlowDone] by (simp add: job_step_def Let_def set_stage_def stage_rank_def)
  next
    case JobFlowDone
    then show thesis using i frames that[of JobUnlisted] by (simp add: job_step_def Let_def set_stage_def stage_rank_def)
  next
    case JobUnlisted
    then show thesis using i frames that[of JobClosed] by (simp add: job_step_def Let_def set_stage_def stage_rank_def)
  next
    case JobClosed
    then have "?j\<lparr>jb_stage := JobClosed\<rparr> = ?j" by simp
    then have "(cst_jobs st)[i := ?j\<lparr>jb_stage := JobClosed\<rparr>] = cst_jobs st" by (metis list_update_id)
    moreover have "job_step env i reply now st = st" using i JobClosed by (simp add: job_step_def Let_def)
    ultimately show thesis using that[of JobClosed] by (simp add: stage_rank_def)
  qed
qed

lemma job_step_progress:
  fixes env reply now
  assumes i: "i < length (cst_jobs st)"
  defines "st' \<equiv> job_step env i reply now st"
  shows "length (cst_jobs st') = length (cst_jobs st)" "jb_task (cst_jobs st' ! i) = jb_task (cst_jobs st ! i)"
    "stage_rank (jb_stage (cst_jobs st' ! i)) \<le> stage_rank (jb_stage (cst_jobs st ! i)) - 1"
  unfolding st'_def by (rule job_step_stage[OF i, of env reply now]; use i in simp)+

lemma job_steps_progress:
  fixes env reply now n
  assumes "i < length (cst_jobs st)"
  defines "st' \<equiv> run_moves env (replicate n (JobStep i reply now)) st"
  shows "i < length (cst_jobs st')" "jb_task (cst_jobs st' ! i) = jb_task (cst_jobs st ! i)"
    "stage_rank (jb_stage (cst_jobs st' ! i)) \<le> stage_rank (jb_stage (cst_jobs st ! i)) - n"
proof -
  have "i < length (cst_jobs (run_moves env (replicate n (JobStep i reply now)) st)) \<and>
      jb_task (cst_jobs (run_moves env (replicate n (JobStep i reply now)) st) ! i) = jb_task (cst_jobs st ! i) \<and>
      stage_rank (jb_stage (cst_jobs (run_moves env (replicate n (JobStep i reply now)) st) ! i)) \<le> stage_rank (jb_stage (cst_jobs st ! i)) - n"
    using assms(1)
  proof (induction n arbitrary: st)
    case (Suc n)
    let ?st1 = "job_step env i reply now st"
    note p = job_step_progress[OF Suc.prems, of env reply now]
    have "i < length (cst_jobs ?st1)" using p(1) Suc.prems by simp
    from Suc.IH[OF this] show ?case using p by (auto simp: run_moves_def)
  qed (simp add: run_moves_def)
  then show "i < length (cst_jobs st')" "jb_task (cst_jobs st' ! i) = jb_task (cst_jobs st ! i)"
    "stage_rank (jb_stage (cst_jobs st' ! i)) \<le> stage_rank (jb_stage (cst_jobs st ! i)) - n" unfolding st'_def by blast+
qed

lemma wait_ends:
  assumes inv: "comp_inv env [] st"
  shows "\<exists>i. \<forall>reply now. waitTask env (replicate 4 (JobStep i reply now)) sid st \<noteq> None"
proof (cases "runningTask sid st")
  case None
  then show ?thesis by (simp add: waitTask_def)
next
  case (Some t)
  then have m: "map_of (cst_sessionTasks st) sid = Some t" by (auto simp: runningTask_def split: option.splits if_splits)
  obtain k where k: "k < length (cst_jobs st)" "jb_task (cst_jobs st ! k) = t" using listedE[OF inv m] by auto
  have "t \<in> set (cst_closed (run_moves env (replicate 4 (JobStep k reply now)) st))" for reply now
  proof -
    let ?st = "run_moves env (replicate 4 (JobStep k reply now)) st"
    note p = job_steps_progress[OF k(1), where n = 4 and env = env and reply = reply and now = now]
    have "stage_rank (jb_stage (cst_jobs st ! k)) \<le> 4" by (simp add: stage_rank_def split: job_stage.split)
    then have "jb_stage (cst_jobs ?st ! k) = JobClosed" using p(3) by (simp add: stage_rank_def split: job_stage.splits)
    moreover have "job_ok env ?st (cst_jobs ?st ! k)" using run_moves_inv[OF inv] p(1) by (auto simp: comp_inv_def)
    ultimately show ?thesis using p(2) k(2) by (simp add: job_ok_def)
  qed
  then have "\<forall>reply now. waitTask env (replicate 4 (JobStep k reply now)) sid st \<noteq> None" using Some by (simp add: waitTask_def Let_def)
  then show ?thesis by (rule exI)
qed

lemma handle_decision_returns:
  assumes inv: "comp_inv env [] st"
  shows "\<exists>i. \<forall>reply now. handle_decision env (sd\<lparr>sd_moves := (sd_moves sd)(3 := replicate 4 (JobStep i reply now))\<rparr>) sid aid pre ms dp st \<noteq> None"
proof -
  obtain i where i: "\<forall>reply now. waitTask env (replicate 4 (JobStep i reply now)) sid st \<noteq> None" using wait_ends[OF inv] by blast
  have "handle_decision env (sd\<lparr>sd_moves := (sd_moves sd)(3 := replicate 4 (JobStep i reply now))\<rparr>) sid aid pre ms dp st \<noteq> None" for reply now
    using i[rule_format, of reply now]
    by (auto simp: handle_decision_def Let_def split: prod.split option.split bool.split)
  then show ?thesis by blast
qed

section \<open>A manual compression takes effect\<close>

lemma own_summary_applies:
  assumes plan: "buildCompressionPlan ms = Some plan" and s: "trim_space summary \<noteq> []"
  obtains merged where "applyCompressionReplacement fp ms plan summary (compressionSourceFingerprint fp ms plan) = (merged, StatusApplied)"
proof -
  have cut: "leadingSystemSkip ms \<le> cpl_End plan" "cpl_End plan + 1 < length ms" using plan_start[OF plan] plan_next(1)[OF plan] .
  have "msg_Role (ms ! (cpl_End plan + 1)) = (case cpl_ApplyMode plan of MergeNextUser \<Rightarrow> ''user'' | KeepFollowingAssistant \<Rightarrow> ''assistant'')"
    using plan_cuts(2)[OF plan] by (cases "cpl_ApplyMode plan") (auto simp: isSelectableCompressEnd_def Let_def split: if_splits)
  then have "snd (applyCompressionReplacement fp ms plan summary (compressionSourceFingerprint fp ms plan)) = StatusApplied"
    using cut s by (cases "cpl_ApplyMode plan") (simp_all add: applyCompressionReplacement_def compressionSourceFingerprint_def Let_def)
  then show thesis using that by (metis prod.collapse)
qed

section \<open>Properties\<close>

text \<open>
  C34. Before a step, and whatever the other goroutines do in the meantime, the history is only changed by replacing a range with a summary that
  the provider gave for messages with the fingerprint of exactly that range (in at most two such replacements); a history the protocol check
  accepts stays accepted and never gets longer; and it is unchanged when the call reports that nothing was applied.
\<close>

theorem summaries_replace_their_source:
  assumes "comp_reach env st" and "\<forall>ms. cenv_fingerprint env ms \<noteq> []" and "ValidateToolProtocol json ms = None"
    and "MaybeHandle env sd sid aid pre ms st = Some (applied, ms', st')"
  shows "ValidateToolProtocol json ms' = None \<and> length ms' \<le> length ms \<and> (\<not> applied \<longrightarrow> ms' = ms) \<and>
         (\<exists>ms1. rewritten env sid st' ms ms1 \<and> rewritten env sid st' ms1 ms')"
proof -
  obtain ms1 where w: "rewritten env sid st' ms ms1" "rewritten env sid st' ms1 ms'" and na: "\<not> applied \<longrightarrow> ms' = ms"
    using maybe_handle_core(3)[OF comp_reach_inv[OF assms(1)] assms(4,2)] by blast
  have "ValidateToolProtocol json ms1 = None" "length ms1 \<le> length ms"
    using w(1) assms(3) summarised_accepted[of env sid st' ms ms1 json] unfolding rewritten_def by auto
  moreover from this(1) have "ValidateToolProtocol json ms' = None" "length ms' \<le> length ms1"
    using w(2) summarised_accepted[of env sid st' ms1 ms' json] unfolding rewritten_def by auto
  ultimately show ?thesis using w na by auto
qed

text \<open>
  C35. In every reachable state the coordinator has not panicked (no channel was closed twice, no slice was out of range), and every task in its
  map is open and is run by exactly one goroutine, which works for that session and has not unregistered it yet.
\<close>

theorem compression_tasks_sound:
  assumes "comp_reach env st"
  shows "\<not> cst_panicked st \<and>
    (\<forall>sid t. map_of (cst_sessionTasks st) sid = Some t \<longrightarrow>
       t \<notin> set (cst_closed st) \<and>
       (\<exists>!i. i < length (cst_jobs st) \<and> jb_task (cst_jobs st ! i) = t) \<and>
       (\<exists>j\<in>set (cst_jobs st). jb_task j = t \<and> jb_session j = sid \<and> jb_stage j \<noteq> JobUnlisted \<and> jb_stage j \<noteq> JobClosed))"
proof (intro conjI allI impI)
  note inv = comp_reach_inv[OF assms]
  show "\<not> cst_panicked st" using inv by (simp add: comp_inv_def)
  fix sid t
  assume m: "map_of (cst_sessionTasks st) sid = Some t"
  obtain k where k: "k < length (cst_jobs st)" "jb_task (cst_jobs st ! k) = t" "jb_session (cst_jobs st ! k) = sid"
    "listed_stage (jb_stage (cst_jobs st ! k))" using listedE[OF inv m] by auto
  show "t \<notin> set (cst_closed st)" by (rule listed_open(1)[OF inv m])
  have "distinct (map jb_task (cst_jobs st))" using inv by (simp add: comp_inv_def)
  then show "\<exists>!i. i < length (cst_jobs st) \<and> jb_task (cst_jobs st ! i) = t"
    using k(1,2) by (intro ex1I[of _ k]) (auto simp: distinct_conv_nth)
  show "\<exists>j\<in>set (cst_jobs st). jb_task j = t \<and> jb_session j = sid \<and> jb_stage j \<noteq> JobUnlisted \<and> jb_stage j \<noteq> JobClosed"
    using k nth_mem[OF k(1)] by (auto simp: listed_stage_def)
qed

text \<open>
  C36. A call before a step always returns: there is a goroutine such that four more steps of it, with any reply of the provider (an error
  included), are enough for the call to get past its wait.
\<close>

theorem compression_never_stuck:
  assumes "comp_reach env st"
  shows "\<exists>i. \<forall>reply now.
    MaybeHandle env (sd\<lparr>sd_moves := (sd_moves sd)(3 := replicate 4 (JobStep i reply now))\<rparr>) sid aid pre ms st \<noteq> None"
proof -
  let ?st1 = "run_moves env (sd_moves sd 0) (reapFinishedTask sid st)"
  obtain out1 ms1 st2 where a: "applyReadyCompression env (sd_moves sd 1) sid ms (sd_now sd 0) ?st1 = (out1, ms1, st2)"
    using prod_cases3 by blast
  have "comp_inv env [] ?st1" using comp_reach_inv[OF assms] by blast
  from apply_ready(1)[OF this a] have "comp_inv env [] (run_moves env (sd_moves sd 2) st2)" by blast
  from handle_decision_returns[OF this, of sd sid aid pre ms1
    "evaluateCompression (cenv_estimate env) ms1 (cst_silentTriggerTokens st2) (cst_blockingTriggerTokens st2)"]
  show ?thesis using a by (fastforce simp: MaybeHandle_def Let_def split: option.split prod.split)
qed

text \<open>
  C37. A manual compression that is not disturbed takes effect: when no compression runs for the session, the history has a range to compress
  and the provider answers with a text, the status is applied, the history is the one with that range replaced by the finished summary, and the
  call leaves no task behind.
\<close>

theorem manual_compression_applies:
  assumes "cst_client st" and "runningTask sid st = None" and "buildCompressionPlan ms = Some plan"
    and "hasCompressibleContent (compressionSlice ms plan)" and "Summarize True (sd_reply sd) = Some (text', u)"
    and "sd_moves sd = (\<lambda>n. [])"
    and "summary = trim_space (FinalizeCompressionSummary env text' sid (cst_rawEnabled st) (sd_now sd 0) (cst_rawRoot st))"
    and "summary \<noteq> []"
  shows "\<exists>res ms' st'. ForceBlocking env sd sid aid pre ms st = (res, ms', st') \<and> fo_Status res = ''applied'' \<and>
    applyCompressionReplacement (cenv_fingerprint env) ms plan summary (compressionSourceFingerprint (cenv_fingerprint env) ms plan)
      = (ms', StatusApplied) \<and> runningTask sid st' = None"
proof -
  let ?fp = "cenv_fingerprint env" and ?in = "\<lparr>si_Prefix = pre, si_Messages = ms\<rparr>"
  let ?src = "compressionSourceFingerprint ?fp ms plan"
  have idem: "trim_space summary = summary" using assms(7) by simp
  obtain merged where ap: "applyCompressionReplacement ?fp ms plan summary ?src = (merged, StatusApplied)"
    by (rule own_summary_applies[OF assms(3), where summary = summary]) (use idem assms(8) in auto)
  obtain t st1 where n: "newCompressionTask ''blocking'' (leadingSystemSkip ms) (cpl_End plan) (length (compressionSlice ms plan)) st = (t, st1)"
    by (cases "newCompressionTask ''blocking'' (leadingSystemSkip ms) (cpl_End plan) (length (compressionSlice ms plan)) st")
  then have st1: "cst_sessionTasks st1 = cst_sessionTasks st" "cst_closed st1 = cst_closed st" "cst_client st1" "cst_rawEnabled st1 = cst_rawEnabled st"
    "cst_rawRoot st1 = cst_rawRoot st" using assms(1) by (auto simp: newCompressionTask_def)
  let ?st2 = "st1\<lparr>cst_sessionTasks := AList.update sid t (cst_sessionTasks st1)\<rparr>"
  have reg: "registerTask sid t st1 = (True, ?st2)" using assms(2) st1 by (auto simp: registerTask_def runningTask_def split: option.splits if_splits)
  obtain r st3 where f: "flow_request env sid aid ?in plan ''blocking'' ?st2 = (r, st3)" by (cases "flow_request env sid aid ?in plan ''blocking'' ?st2")
  note c = flow_request_cases[OF f]
  obtain req where req: "r = Some req" using c(9) assms(4) by auto
  have raw: "cst_rawEnabled st3 = cst_rawEnabled st" "cst_rawRoot st3 = cst_rawRoot st"
    using f st1 by (auto simp: flow_request_def Let_def publishCompressionEvent_def hub_event_published_def submitCandidateExtraction_def split: if_splits option.splits)
  have nonblank: "trim_space text' \<noteq> []" using assms(5) by (auto simp: Summarize_def Let_def split: chat_reply.splits if_splits)
  let ?ready = "\<lparr>rc_End = cpl_End plan, rc_Content = summary, rc_SourceSliceFingerprint = ?src, rc_TriggerLevel = ''blocking'',
      rc_CompressedMessageCount = length (compressionSlice ms plan), rc_ApplyMode = cpl_ApplyMode plan, rc_SidecarUsage = u\<rparr>"
  let ?st4 = "st3\<lparr>cst_ready := AList.update sid ?ready (cst_ready st3), cst_asked := cst_asked st3 @ [(sid, req, text')]\<rparr>"
  have run: "runCompressionFlow env [] sid aid ?in plan ''blocking'' (sd_reply sd) (sd_now sd 0) ?st2 = (True, ?st4)"
    using f req c(2) st1(3) assms(5,7) nonblank raw by (simp add: runCompressionFlow_def flow_reply_def Let_def run_moves_def)
  have cut: "leadingSystemSkip ms \<le> cpl_End plan" "cpl_End plan < length ms" using plan_start[OF assms(3)] plan_next(1)[OF assms(3)] by simp_all
  have plan_eq: "\<lparr>cpl_End = cpl_End plan, cpl_ApplyMode = cpl_ApplyMode plan, cpl_SidecarAppend = AppendUserOnly\<rparr> = plan\<lparr>cpl_SidecarAppend := AppendUserOnly\<rparr>"
    by simp
  obtain out st5 where w: "applyReadyCompression env [] sid ms (sd_now sd 1) ?st4 = (out, merged, st5)" "ao_status out = ''applied''"
    "cst_sessionTasks st5 = cst_sessionTasks st3"
    using ap cut idem assms(8)
    by (auto simp: applyReadyCompression_def Let_def plan_eq append_irrelevant status_name_def update_conv' run_moves_def
        markSilentCooldownApplied_def recordLastCompression_def)
  obtain res where l: "force_listed env sd sid aid pre ms plan ?st2 = (res, merged, st5)" "fo_Status res = ''applied''"
    using run w assms(6) by (auto simp: force_listed_def Let_def run_moves_def)
  have fb: "ForceBlocking env sd sid aid pre ms st = (res, merged, close_done t (unlist sid t st5))"
    using assms(1-3,6) n reg l(1) by (simp add: ForceBlocking_def Let_def run_moves_def)
  have "map_of (cst_sessionTasks (close_done t (unlist sid t st5))) sid = None"
    using w(3) c(5) by (simp add: close_done_def unlist_def delete_conv' update_conv')
  then show ?thesis using fb l(2) ap by (auto simp: runningTask_def)
qed

section \<open>Concrete runs\<close>

definition demo_comp_env :: comp_env where
  "demo_comp_env = \<lparr>cenv_estimate = \<lambda>ms. 100 * int (length ms), cenv_fingerprint = \<lambda>ms. CHR ''#'' # concat (map msg_Content ms),
     cenv_synthetic = ''go on'', cenv_prompt = ''sum up'', cenv_day = \<lambda>t. ''20260101''\<rparr>"

definition demo_prefix :: sidecar_prefix where "demo_prefix = \<lparr>spx_SystemPrompt = ''agent'', spx_Tools = []\<rparr>"

definition demo_answer :: "string \<Rightarrow> chat_reply" where "demo_answer t = ChatReply [t] [] []"

definition demo_schedule :: "move list \<Rightarrow> schedule" where
  "demo_schedule waiting = \<lparr>sd_moves = (\<lambda>n. if n = 3 then waiting else []), sd_now = (\<lambda>n. 1), sd_reply = demo_answer ''second summary''\<rparr>"

abbreviation demo_handle :: "move list \<Rightarrow> message list \<Rightarrow> comp_state \<Rightarrow> (bool \<times> message list \<times> comp_state) option" where
  "demo_handle waiting ms st \<equiv> MaybeHandle demo_comp_env (demo_schedule waiting) ''s'' ''agent'' demo_prefix ms st"

abbreviation state_after :: "(bool \<times> message list \<times> comp_state) option \<Rightarrow> comp_state" where
  "state_after r \<equiv> snd (snd (the r))"

theorem summaries_replace_their_source_witness:
  "case demo_handle [] demo_chat (NewCoordinator True 0 1) of
     None \<Rightarrow> False
   | Some (applied, ms', st') \<Rightarrow> applied \<and> ValidateToolProtocol demo_json ms' = None \<and> length ms' = 1 \<and> length (cst_asked st') = 1"
proof -
  let ?r = "demo_handle [] demo_chat (NewCoordinator True 0 1)"
  have c: "?r \<noteq> None" "fst (the ?r)" "length (fst (snd (the ?r))) = 1" "length (cst_asked (state_after ?r)) = 1" by code_simp+
  obtain applied ms' st' where r: "?r = Some (applied, ms', st')" using c(1) by (metis not_None_eq prod_cases3)
  have fp: "\<forall>ms. cenv_fingerprint demo_comp_env ms \<noteq> []" by (simp add: demo_comp_env_def)
  have ok: "ValidateToolProtocol demo_json demo_chat = None" by code_simp
  from summaries_replace_their_source[OF reach_new fp ok r] show ?thesis using c r by simp
qed

text \<open>A silent compression is under way in this state.\<close>

definition demo_silent :: comp_state where
  "demo_silent = state_after (demo_handle [] demo_chat (NewCoordinator True 1 0))"

lemma demo_silent_reach: "comp_reach demo_comp_env demo_silent"
proof -
  have "demo_handle [] demo_chat (NewCoordinator True 1 0) \<noteq> None" by code_simp
  then obtain applied ms' st' where "demo_handle [] demo_chat (NewCoordinator True 1 0) = Some (applied, ms', st')" by (metis not_None_eq prod_cases3)
  then show ?thesis using reach_handle[OF reach_new] by (simp add: demo_silent_def)
qed

theorem compression_tasks_sound_witness:
  "map_of (cst_sessionTasks demo_silent) ''s'' = Some 0 \<and> \<not> cst_panicked demo_silent \<and> 0 \<notin> set (cst_closed demo_silent)"
proof -
  have "map_of (cst_sessionTasks demo_silent) ''s'' = Some 0" by code_simp
  then show ?thesis using compression_tasks_sound[OF demo_silent_reach] by blast
qed

theorem compression_never_stuck_witness:
  "\<exists>i. demo_handle (replicate 4 (JobStep i ChatError 2)) demo_chat demo_silent \<noteq> None"
proof -
  have eq: "(demo_schedule [])\<lparr>sd_moves := (sd_moves (demo_schedule []))(3 := mvs)\<rparr> = demo_schedule mvs" for mvs
    by (auto simp: demo_schedule_def)
  show ?thesis
    using compression_never_stuck[OF demo_silent_reach, of "demo_schedule []" "''s''" "''agent''" demo_prefix demo_chat] unfolding eq by blast
qed

theorem manual_compression_applies_witness:
  "fo_Status (fst (ForceBlocking demo_comp_env (demo_schedule []) ''s'' ''agent'' demo_prefix demo_chat (NewCoordinator True 0 0))) = ''applied''"
proof -
  define plan where "plan = \<lparr>cpl_End = 3, cpl_ApplyMode = MergeNextUser, cpl_SidecarAppend = AppendUserOnly\<rparr>"
  have h: "cst_client (NewCoordinator True 0 0)" "runningTask ''s'' (NewCoordinator True 0 0) = None"
    "buildCompressionPlan demo_chat = Some plan" "hasCompressibleContent (compressionSlice demo_chat plan)"
    "Summarize True (sd_reply (demo_schedule [])) = Some (''second summary'', zero_usage)"
    unfolding plan_def by code_simp+
  have m: "sd_moves (demo_schedule []) = (\<lambda>n. [])" by (simp add: demo_schedule_def)
  have s: "trim_space (FinalizeCompressionSummary demo_comp_env ''second summary'' ''s'' (cst_rawEnabled (NewCoordinator True 0 0))
      (sd_now (demo_schedule []) 0) (cst_rawRoot (NewCoordinator True 0 0))) \<noteq> []" by code_simp
  from manual_compression_applies[OF h m refl s, of "''agent''" demo_prefix] show ?thesis by auto
qed

section \<open>What the code does not prevent\<close>

text \<open>A cancelled silent compression goes on, and its summary turns up after the cancellation.\<close>

lemma cancelled_summary_returns:
  "let st = run_moves demo_comp_env [JobStep 0 ChatError 2, Cancelling ''s'', JobStep 0 (demo_answer ''old summary'') 3] demo_silent
   in map_option rc_Content (map_of (cst_ready st) ''s'') = Some ''old summary''"
  by code_simp

text \<open>After a cancellation a second silent compression is started for the session while the first one is still asking.\<close>

lemma cancelled_flow_doubles:
  "let st = run_moves demo_comp_env [JobStep 0 ChatError 2, Cancelling ''s''] demo_silent;
       st' = state_after (demo_handle [] demo_chat st)
   in map (\<lambda>j. (jb_session j, listed_stage (jb_stage j))) (cst_jobs st') = [(''s'', True), (''s'', True)]"
  by code_simp

text \<open>
  A blocking compression that waits for a silent one plans before it waits and asks again afterwards: the summary it has waited for, which
  could have been written back, is overwritten before anybody reads it.
\<close>

definition demo_both :: comp_state where
  "demo_both = state_after (demo_handle [] demo_chat (NewCoordinator True 1 600))"

definition demo_longer :: "message list" where
  "demo_longer = demo_chat @ [demo_assistant [], demo_question]"

lemma awaited_summary_discarded:
  "let waiting = replicate 4 (JobStep 0 (demo_answer ''first summary'') 2);
       st3 = run_moves demo_comp_env waiting demo_both;
       st' = state_after (demo_handle waiting demo_longer demo_both)
   in ao_status (fst (applyReadyCompression demo_comp_env [] ''s'' demo_longer 3 st3)) = ''applied'' \<and>
      map (\<lambda>(sid, req, t). t) (cst_asked st') = [''first summary'', ''second summary''] \<and>
      cst_ready st' = [] \<and> map_option lc_CompressionEnd (LastCompression ''s'' st') = Some 5"
  by code_simp

end
