(* ===== verification/Shell_Parse.thy ===== *)
theory Shell_Parse
  imports Prelude
begin

text \<open>
  How the policy reads a shell command, \<^verbatim>\<open>node/internal/policy/shell_parse.go\<close>: splitting a
  command line into statements outside quotes and taking the first word of each. Commands are byte
  sequences, as in the source. The loops are recursive functions on the bytes still to read; their
  first arguments are the local variables of the source. \<open>goos\<close> is \<^verbatim>\<open>runtime.GOOS\<close>.
\<close>

datatype shell_type = ShellBash | ShellCmd | ShellPowerShell | Shell_Other string

definition shell_name :: "shell_type \<Rightarrow> string" where
  "shell_name st = (case st of ShellBash \<Rightarrow> ''bash'' | ShellCmd \<Rightarrow> ''cmd'' | ShellPowerShell \<Rightarrow> ''powershell'' | Shell_Other s \<Rightarrow> s)"

definition shell_of_name :: "string \<Rightarrow> shell_type option" where
  "shell_of_name s = (if s = ''bash'' then Some ShellBash else if s = ''cmd'' then Some ShellCmd
     else if s = ''powershell'' then Some ShellPowerShell else None)"

definition ResolveShellType :: "string \<Rightarrow> string option \<Rightarrow> shell_type option" where
  "ResolveShellType goos raw =
     (case raw of
        Some s \<Rightarrow> shell_of_name (to_lower (trim_space s))
      | None \<Rightarrow> if goos = ''windows'' then Some ShellPowerShell else Some ShellBash)"

section \<open>Words\<close>

definition flush_word :: "string list \<Rightarrow> string \<Rightarrow> string list" where
  "flush_word tokens buf = (let s = trim_space buf in if s \<noteq> [] then tokens @ [s] else tokens)"

definition blank_byte :: "char \<Rightarrow> bool" where
  "blank_byte ch \<longleftrightarrow> ch \<in> {CHR '' '', CHR 0x09, CHR 0x0A, CHR 0x0D}"

definition single_quote :: char where "single_quote = CHR 0x27"
definition double_quote :: char where "double_quote = CHR 0x22"
definition backtick :: char where "backtick = CHR 0x60"

fun words_loop :: "bool \<Rightarrow> string list \<Rightarrow> string \<Rightarrow> bool \<Rightarrow> bool \<Rightarrow> bool \<Rightarrow> string \<Rightarrow> string list option" where
  "words_loop posix tokens buf inSingle inDouble escaped [] =
     (let tokens' = flush_word tokens buf in if inSingle \<or> inDouble then None else Some tokens')"
| "words_loop posix tokens buf inSingle inDouble escaped (ch # cs) =
     (if escaped then words_loop posix tokens (buf @ [ch]) inSingle inDouble False cs
      else if \<not> posix \<and> ch = CHR ''^'' then words_loop posix tokens (buf @ [ch]) inSingle inDouble True cs
      else if \<not> posix \<and> ch = backtick then words_loop posix tokens (buf @ [ch]) inSingle inDouble True cs
      else if ch = single_quote \<and> \<not> inDouble then words_loop posix tokens buf (\<not> inSingle) inDouble escaped cs
      else if ch = double_quote \<and> \<not> inSingle then words_loop posix tokens buf inSingle (\<not> inDouble) escaped cs
      else if \<not> inSingle \<and> \<not> inDouble \<and> blank_byte ch
      then words_loop posix (flush_word tokens buf) [] inSingle inDouble escaped cs
      else words_loop posix tokens (buf @ [ch]) inSingle inDouble escaped cs)"

text \<open>\<open>None\<close> is the error of an unclosed quote.\<close>

definition splitShellWords :: "string \<Rightarrow> bool \<Rightarrow> string list option" where
  "splitShellWords input posix = words_loop posix [] [] False False False input"

section \<open>Statements\<close>

definition add_part :: "string list \<Rightarrow> string \<Rightarrow> string list" where
  "add_part parts buf = (let part = trim_space buf in if part \<noteq> [] then parts @ [part] else parts)"

definition two_byte_operator :: "string \<Rightarrow> bool" where
  "two_byte_operator s \<longleftrightarrow> take 2 s \<in> {''&&'', ''||''}"

function bash_loop :: "string list \<Rightarrow> string \<Rightarrow> bool \<Rightarrow> bool \<Rightarrow> string \<Rightarrow> string list" where
  "bash_loop parts buf inSingle inDouble [] = add_part parts buf"
| "bash_loop parts buf inSingle inDouble (ch # cs) =
     (if ch = single_quote \<and> \<not> inDouble then bash_loop parts (buf @ [ch]) (\<not> inSingle) inDouble cs
      else if ch = double_quote \<and> \<not> inSingle then bash_loop parts (buf @ [ch]) inSingle (\<not> inDouble) cs
      else if \<not> inSingle \<and> \<not> inDouble \<and> two_byte_operator (ch # cs)
      then bash_loop (add_part parts buf) [] inSingle inDouble (drop 2 (ch # cs))
      else if \<not> inSingle \<and> \<not> inDouble \<and> ch \<in> {CHR '';'', CHR ''|'', CHR 0x0A}
      then bash_loop (add_part parts buf) [] inSingle inDouble cs
      else bash_loop parts (buf @ [ch]) inSingle inDouble cs)"
  by pat_completeness auto
termination
  by (relation "measure (\<lambda>(_, _, _, _, cs). length cs)") auto

definition splitBashStatements :: "string \<Rightarrow> string list" where
  "splitBashStatements command = bash_loop [] [] False False command"

definition statement_delims :: "bool \<Rightarrow> char set" where
  "statement_delims cmdCaretEscape =
     (if cmdCaretEscape then {CHR ''&'', CHR '';'', CHR ''|'', CHR 0x0A} else {CHR '';'', CHR ''|'', CHR 0x0A})"

function delimited_loop :: "bool \<Rightarrow> string list \<Rightarrow> string \<Rightarrow> bool \<Rightarrow> bool \<Rightarrow> bool \<Rightarrow> string \<Rightarrow> string list" where
  "delimited_loop caret parts buf inSingle inDouble escaped [] = add_part parts buf"
| "delimited_loop caret parts buf inSingle inDouble escaped (ch # cs) =
     (if escaped then delimited_loop caret parts (buf @ [ch]) inSingle inDouble False cs
      else if caret \<and> ch = CHR ''^'' then delimited_loop caret parts (buf @ [ch]) inSingle inDouble True cs
      else if \<not> caret \<and> ch = backtick then delimited_loop caret parts (buf @ [ch]) inSingle inDouble True cs
      else if ch = single_quote \<and> \<not> inDouble then delimited_loop caret parts (buf @ [ch]) (\<not> inSingle) inDouble escaped cs
      else if ch = double_quote \<and> \<not> inSingle then delimited_loop caret parts (buf @ [ch]) inSingle (\<not> inDouble) escaped cs
      else if \<not> inSingle \<and> \<not> inDouble \<and> two_byte_operator (ch # cs)
      then delimited_loop caret (add_part parts buf) [] inSingle inDouble escaped (drop 2 (ch # cs))
      else if \<not> inSingle \<and> \<not> inDouble \<and> ch \<in> statement_delims caret
      then delimited_loop caret (add_part parts buf) [] inSingle inDouble escaped cs
      else delimited_loop caret parts (buf @ [ch]) inSingle inDouble escaped cs)"
  by pat_completeness auto
termination
  by (relation "measure (\<lambda>(_, _, _, _, _, _, cs). length cs)") auto

definition splitDelimitedStatements :: "string \<Rightarrow> bool \<Rightarrow> string list" where
  "splitDelimitedStatements command cmdCaretEscape = delimited_loop cmdCaretEscape [] [] False False False command"

definition splitCmdStatements :: "string \<Rightarrow> string list" where
  "splitCmdStatements command = splitDelimitedStatements command True"

definition splitPowerShellStatements :: "string \<Rightarrow> string list" where
  "splitPowerShellStatements command = splitDelimitedStatements command False"

section \<open>Root commands\<close>

definition extractRootForShell :: "string \<Rightarrow> shell_type \<Rightarrow> string" where
  "extractRootForShell commandPart shellType =
     (let tokens = (case splitShellWords commandPart (shellType = ShellBash) of
                      None \<Rightarrow> go_fields (trim_space commandPart)
                    | Some [] \<Rightarrow> go_fields (trim_space commandPart)
                    | Some ts \<Rightarrow> ts)
      in case tokens of [] \<Rightarrow> [] | t # _ \<Rightarrow> to_lower (trim_space t))"

fun collect_roots :: "shell_type \<Rightarrow> string list \<Rightarrow> string list option" where
  "collect_roots shellType [] = Some []"
| "collect_roots shellType (part # parts) =
     (let root = extractRootForShell part shellType
      in if root = [] then None else map_option (\<lambda>rs. root # rs) (collect_roots shellType parts))"

definition ParseCommandRoots :: "string \<Rightarrow> shell_type \<Rightarrow> string list option" where
  "ParseCommandRoots command0 shellType =
     (let command = trim_space command0
      in if command = [] then None
         else
           let parts = (case shellType of
                          ShellBash \<Rightarrow> splitBashStatements command
                        | ShellCmd \<Rightarrow> splitCmdStatements command
                        | _ \<Rightarrow> splitPowerShellStatements command)
           in if parts = [] then None else collect_roots shellType parts)"


section \<open>Statements are atomic\<close>

lemma trim_with_split: "\<exists>xs. s = xs @ trim_with ps s \<and> set xs \<subseteq> \<Union> (set ` set ps)"
proof (induction ps s rule: trim_with.induct)
  case (1 ps s)
  show ?case
  proof (cases "strip_first ps s")
    case None
    then show ?thesis by (intro exI[of _ "[]"]) (simp add: trim_with_None)
  next
    case (Some r)
    have "\<exists>p \<in> set ps. s = p @ r" using Some by (induction ps s rule: strip_first.induct) (auto split: if_splits, metis append_take_drop_id)
    then obtain p where p: "p \<in> set ps" "s = p @ r" by blast
    obtain xs where xs: "r = xs @ trim_with ps r" "set xs \<subseteq> \<Union> (set ` set ps)" using 1[OF Some] by blast
    have "trim_with ps s = trim_with ps r" using Some by (subst trim_with.simps) simp
    then show ?thesis using p xs by (intro exI[of _ "p @ xs"]) auto
  qed
qed

lemma trim_space_infix:
  obtains a b where "s = a @ trim_space s @ b" "single_quote \<notin> set a" "double_quote \<notin> set a"
proof -
  obtain a where a: "s = a @ trim_with unicode_spaces s" "set a \<subseteq> \<Union> (set ` set unicode_spaces)" using trim_with_split by blast
  obtain b where b: "rev (trim_with unicode_spaces s) = b @ trim_with (map rev unicode_spaces) (rev (trim_with unicode_spaces s))"
    using trim_with_suffix by blast
  have "trim_with unicode_spaces s = trim_space s @ rev b"
    unfolding trim_space_def by (metis b rev_append rev_rev_ident)
  moreover have "single_quote \<notin> set a" "double_quote \<notin> set a"
    using a(2) by (auto simp: unicode_spaces_def single_quote_def double_quote_def)
  ultimately show thesis using that a(1) by metis
qed

text \<open>No operator outside quotes, starting in the given quote state.\<close>

fun no_operator :: "bool \<Rightarrow> bool \<Rightarrow> string \<Rightarrow> bool" where
  "no_operator inSingle inDouble [] = True"
| "no_operator inSingle inDouble (ch # cs) =
     (if ch = single_quote \<and> \<not> inDouble then no_operator (\<not> inSingle) inDouble cs
      else if ch = double_quote \<and> \<not> inSingle then no_operator inSingle (\<not> inDouble) cs
      else if \<not> inSingle \<and> \<not> inDouble \<and> (two_byte_operator (ch # cs) \<or> ch \<in> {CHR '';'', CHR ''|'', CHR 0x0A}) then False
      else no_operator inSingle inDouble cs)"

lemma two_byte_operator_append: "two_byte_operator xs \<Longrightarrow> two_byte_operator (xs @ ys)"
  by (cases xs; cases "tl xs") (auto simp: two_byte_operator_def)

lemma no_operator_prefix: "no_operator s d (xs @ ys) \<Longrightarrow> no_operator s d xs"
  by (induction s d xs rule: no_operator.induct) (auto split: if_splits dest: two_byte_operator_append)

lemma no_operator_drop:
  "no_operator s d (xs @ ys) \<Longrightarrow> single_quote \<notin> set xs \<Longrightarrow> double_quote \<notin> set xs \<Longrightarrow> no_operator s d ys"
  by (induction xs) (auto split: if_splits)

lemma bash_loop_no_operator: "no_operator s d cs \<Longrightarrow> bash_loop parts buf s d cs = add_part parts (buf @ cs)"
  by (induction parts buf s d cs rule: bash_loop.induct) (auto split: if_splits)

lemma no_operator_trim:
  assumes "no_operator False False s"
  shows "no_operator False False (trim_space s)"
proof -
  obtain a b where t: "s = a @ trim_space s @ b" "single_quote \<notin> set a" "double_quote \<notin> set a" using trim_space_infix .
  then have "no_operator False False (trim_space s @ b)" using no_operator_drop assms by metis
  then show ?thesis by (rule no_operator_prefix)
qed

lemma bash_loop_parts:
  assumes "\<forall>ys zs. cs = ys @ zs \<longrightarrow> no_operator s d ys \<longrightarrow> no_operator False False (buf @ ys)"
    and "p \<in> set (bash_loop parts buf s d cs)"
  shows "p \<in> set parts \<or> p \<noteq> [] \<and> trim_space p = p \<and> no_operator False False p"
  using assms
proof (induction parts buf s d cs rule: bash_loop.induct)
  case (1 parts buf s d)
  then show ?case using no_operator_trim[of buf] by (auto simp: add_part_def Let_def split: if_splits)
next
  case (2 parts buf s d ch cs)
  have here: "no_operator False False buf" using 2(6)[rule_format, of "[]" "ch # cs"] by simp
  have new: "q \<in> set (add_part parts buf) \<Longrightarrow> q \<in> set parts \<or> q \<noteq> [] \<and> trim_space q = q \<and> no_operator False False q" for q
    using no_operator_trim[OF here] by (auto simp: add_part_def Let_def split: if_splits)
  have pre: "no_operator False False ((buf @ [ch]) @ ys)" if "cs = ys @ zs" "no_operator s d (ch # ys)" for ys zs
    using 2(6)[rule_format, of "ch # ys" zs] that by simp
  have two: "\<not> two_byte_operator (ch # ys)" if "cs = ys @ zs" "\<not> two_byte_operator (ch # cs)" for ys zs
    using that two_byte_operator_append[of "ch # ys" zs] by auto
  consider "ch = single_quote \<and> \<not> d" | "\<not> (ch = single_quote \<and> \<not> d)" "ch = double_quote \<and> \<not> s"
    | "\<not> (ch = single_quote \<and> \<not> d)" "\<not> (ch = double_quote \<and> \<not> s)" "\<not> s \<and> \<not> d \<and> two_byte_operator (ch # cs)"
    | "\<not> (ch = single_quote \<and> \<not> d)" "\<not> (ch = double_quote \<and> \<not> s)" "\<not> (\<not> s \<and> \<not> d \<and> two_byte_operator (ch # cs))"
        "\<not> s \<and> \<not> d \<and> ch \<in> {CHR '';'', CHR ''|'', CHR 0x0A}"
    | "\<not> (ch = single_quote \<and> \<not> d)" "\<not> (ch = double_quote \<and> \<not> s)" "\<not> (\<not> s \<and> \<not> d \<and> two_byte_operator (ch # cs))"
        "\<not> (\<not> s \<and> \<not> d \<and> ch \<in> {CHR '';'', CHR ''|'', CHR 0x0A})" by blast
  then show ?case
  proof cases
    case 1
    show ?thesis by (rule 2(1)[OF 1]) (use 1 2(7) pre in auto)
  next
    case c: 2
    show ?thesis by (rule 2(2)[OF c]) (use c 2(7) pre in auto)
  next
    case 3
    have "p \<in> set (add_part parts buf) \<or> p \<noteq> [] \<and> trim_space p = p \<and> no_operator False False p"
      by (rule 2(3)[OF 3]) (use 3 2(7) in auto)
    then show ?thesis using new by blast
  next
    case 4
    have "p \<in> set (add_part parts buf) \<or> p \<noteq> [] \<and> trim_space p = p \<and> no_operator False False p"
      by (rule 2(4)[OF 4]) (use 4 2(7) in auto)
    then show ?thesis using new by blast
  next
    case 5
    have "no_operator s d (ch # ys)" if "cs = ys @ zs" "no_operator s d ys" for ys zs
      using 5 that two[OF that(1)] by auto
    then have key: "\<forall>ys zs. cs = ys @ zs \<longrightarrow> no_operator s d ys \<longrightarrow> no_operator False False ((buf @ [ch]) @ ys)"
      using pre by blast
    have "p \<in> set (bash_loop parts (buf @ [ch]) s d cs)" using 2(7) 5 by (auto split: if_splits)
    from 2(5)[OF 5 key this] show ?thesis .
  qed
qed


section \<open>Properties\<close>

text \<open>
  Every statement that \<^verbatim>\<open>splitBashStatements\<close> returns is atomic for the policy: it is not
  blank, has no surrounding white space, and splitting it again returns just itself. So no operator
  the splitter knows can hide a second command inside a statement.
\<close>

lemma bash_statements_atomic:
  assumes "p \<in> set (splitBashStatements command)"
  shows "splitBashStatements p = [p] \<and> p \<noteq> [] \<and> trim_space p = p"
proof -
  have p: "p \<noteq> []" "trim_space p = p" "no_operator False False p"
    using bash_loop_parts[of command False False "[]" p "[]"] assms by (auto simp: splitBashStatements_def)
  then show ?thesis using bash_loop_no_operator[OF p(3), of "[]" "[]"] by (simp add: splitBashStatements_def add_part_def)
qed

definition demo_quoted :: string where
  "demo_quoted = ''echo '' @ [single_quote] @ ''a;b'' @ [single_quote]"

lemma bash_statements_atomic_witness:
  "splitBashStatements (''ls -l && '' @ demo_quoted @ '' ; rm x'') = [''ls -l'', demo_quoted, ''rm x''] \<and>
   splitBashStatements demo_quoted = [demo_quoted]"
proof -
  have s: "splitBashStatements (''ls -l && '' @ demo_quoted @ '' ; rm x'') = [''ls -l'', demo_quoted, ''rm x'']" by code_simp
  then have "demo_quoted \<in> set (splitBashStatements (''ls -l && '' @ demo_quoted @ '' ; rm x''))" by simp
  from bash_statements_atomic[OF this] s show ?thesis by blast
qed

end
