(* ===== verification/Policy.thy ===== *)
theory Policy
  imports Shell_Parse Msg_Queue "HOL-Library.List_Lexorder" "HOL-Library.Char_ord"
begin

text \<open>
  The approval policy of tools and shell commands, \<^verbatim>\<open>node/internal/policy\<close>: modes, the engine
  that decides, the maps it is built from and their updates, the policy files and the snapshot shown
  to clients. The engine is not nil where a method receiver is meant. Maps are association lists;
  an update that fails has changed the map for the entries before it, as in the source, where the
  map is shared with the caller. Reading a file is a function \<open>read\<close> of its path.
\<close>

section \<open>Modes\<close>

datatype approval_mode = ModeAlways | ModeNever | ModeRule | ModeDeny | Mode_Other string

definition mode_string :: "approval_mode \<Rightarrow> string" where
  "mode_string m = (case m of ModeAlways \<Rightarrow> ''always'' | ModeNever \<Rightarrow> ''never'' | ModeRule \<Rightarrow> ''rule''
                    | ModeDeny \<Rightarrow> ''deny'' | Mode_Other s \<Rightarrow> s)"

datatype policy_error =
    ErrInvalidMode string | ErrModeRequired | ErrToolNameRequired | ErrProtectedTool | ErrCommandRequired
  | ErrUpdatesRequired | ErrUnsupportedShell string | ErrEngineNil | ErrReadPolicy string

definition ParseApprovalMode :: "string \<Rightarrow> policy_error + approval_mode" where
  "ParseApprovalMode raw =
     (let s = to_lower (trim_space raw)
      in if s = ''always'' then Inr ModeAlways
         else if s = ''never'' then Inr ModeNever
         else if s = ''rule'' then Inr ModeRule
         else if s = ''deny'' then Inr ModeDeny
         else Inl (ErrInvalidMode raw))"

definition normalizeMode :: "string \<Rightarrow> approval_mode \<Rightarrow> approval_mode" where
  "normalizeMode raw fallback =
     (let s = to_lower (trim_space raw)
      in if s = ''always'' then ModeAlways
         else if s = ''never'' then ModeNever
         else if s = ''rule'' then ModeRule
         else if s = ''deny'' then ModeDeny
         else fallback)"

definition resolveApprovalMode :: "approval_mode \<Rightarrow> policy_error + approval_mode" where
  "resolveApprovalMode mode =
     (if trim_space (mode_string mode) = [] then Inl ErrModeRequired else ParseApprovalMode (mode_string mode))"

section \<open>The engine\<close>

datatype policy_action = ActionAuto | ActionRequireApproval | ActionDeny

type_synonym mode_map = "(string, approval_mode) gomap"

record policy_engine =
  pe_toolModes :: mode_map
  pe_shellModes :: "(shell_type, mode_map) gomap"
  pe_policyDir :: string

definition policy_key :: "string \<Rightarrow> string" where
  "policy_key s = to_lower (trim_space s)"

definition toolMode :: "policy_engine \<Rightarrow> string \<Rightarrow> approval_mode" where
  "toolMode e toolName = (case map_of (pe_toolModes e) (policy_key toolName) of Some m \<Rightarrow> m | None \<Rightarrow> ModeRule)"

definition shellCommandMode :: "policy_engine \<Rightarrow> shell_type \<Rightarrow> string \<Rightarrow> approval_mode" where
  "shellCommandMode e shellType rootCmd =
     (case map_of (pe_shellModes e) shellType of
        None \<Rightarrow> ModeRule
      | Some mapping \<Rightarrow> (case map_of mapping (policy_key rootCmd) of Some m \<Rightarrow> m | None \<Rightarrow> ModeRule))"

fun roots_action :: "policy_engine \<Rightarrow> shell_type \<Rightarrow> bool \<Rightarrow> string list \<Rightarrow> policy_action" where
  "roots_action e shellType hasRequire [] = (if hasRequire then ActionRequireApproval else ActionAuto)"
| "roots_action e shellType hasRequire (rootCmd # roots) =
     (case shellCommandMode e shellType rootCmd of
        ModeDeny \<Rightarrow> ActionDeny
      | ModeAlways \<Rightarrow> roots_action e shellType True roots
      | ModeRule \<Rightarrow> roots_action e shellType True roots
      | _ \<Rightarrow> roots_action e shellType hasRequire roots)"

text \<open>A type assertion \<^verbatim>\<open>args[key].(string)\<close>.\<close>

definition string_arg :: "(string \<times> go_any) list \<Rightarrow> string \<Rightarrow> string option" where
  "string_arg args k = (case map_of args k of Some (AnyString s) \<Rightarrow> Some s | _ \<Rightarrow> None)"

definition bashDecideAction :: "string \<Rightarrow> policy_engine \<Rightarrow> (string \<times> go_any) list option \<Rightarrow> policy_action" where
  "bashDecideAction goos e toolArgs =
     (case toolArgs of
        None \<Rightarrow> ActionRequireApproval
      | Some args \<Rightarrow>
          let rawCommand = trim_space (case string_arg args ''command'' of Some s \<Rightarrow> s | None \<Rightarrow> [])
          in if rawCommand = [] then ActionRequireApproval
             else case ResolveShellType goos (map_option trim_space (string_arg args ''shell_type'')) of
                    None \<Rightarrow> ActionRequireApproval
                  | Some shellType \<Rightarrow>
                      (case ParseCommandRoots rawCommand shellType of
                         None \<Rightarrow> ActionRequireApproval
                       | Some roots \<Rightarrow> roots_action e shellType False roots))"

definition isRuleAutoReadTool :: "string \<Rightarrow> bool" where
  "isRuleAutoReadTool toolName \<longleftrightarrow>
     policy_key toolName \<in> {''read_file'', ''glob_files'', ''grep_file'', ''grep_files'', ''screen_capture''}"

definition decideToolRuleFallback ::
  "string \<Rightarrow> policy_engine \<Rightarrow> string \<Rightarrow> (string \<times> go_any) list option \<Rightarrow> policy_action" where
  "decideToolRuleFallback goos e toolName toolArgs =
     (let name = policy_key toolName
      in if name = ''bash_run'' then bashDecideAction goos e toolArgs
         else if name \<in> {''trigger_list'', ''trigger_get'', ''ask_user_information'', ''auto_idle''} then ActionAuto
         else if name \<in> {''trigger_create'', ''trigger_update'', ''trigger_delete''} then ActionRequireApproval
         else if isRuleAutoReadTool name then ActionAuto
         else ActionRequireApproval)"

definition DecideTool ::
  "string \<Rightarrow> policy_engine option \<Rightarrow> string \<Rightarrow> (string \<times> go_any) list option \<Rightarrow> policy_action" where
  "DecideTool goos eng toolName toolArgs =
     (case eng of
        None \<Rightarrow> ActionRequireApproval
      | Some e \<Rightarrow>
          let name = policy_key toolName
          in case toolMode e name of
               ModeDeny \<Rightarrow> ActionDeny
             | ModeAlways \<Rightarrow> ActionRequireApproval
             | ModeNever \<Rightarrow> ActionAuto
             | _ \<Rightarrow> decideToolRuleFallback goos e name toolArgs)"

definition Decide :: "string \<Rightarrow> policy_engine option \<Rightarrow> string \<Rightarrow> policy_action" where
  "Decide goos eng toolName = DecideTool goos eng toolName None"

definition ToolConfigured :: "policy_engine option \<Rightarrow> string \<Rightarrow> bool" where
  "ToolConfigured eng toolName =
     (case eng of None \<Rightarrow> False | Some e \<Rightarrow> map_of (pe_toolModes e) (policy_key toolName) \<noteq> None)"

definition ShellConfigured :: "policy_engine option \<Rightarrow> shell_type \<Rightarrow> string \<Rightarrow> bool" where
  "ShellConfigured eng shellType command =
     (case eng of None \<Rightarrow> False
      | Some e \<Rightarrow> (case map_of (pe_shellModes e) shellType of None \<Rightarrow> False
                   | Some mapping \<Rightarrow> map_of mapping (policy_key command) \<noteq> None))"

section \<open>Maps\<close>

record policy_maps =
  pm_Tools :: mode_map
  pm_Shell :: "(shell_type, mode_map) gomap"

definition NewEngineFromMaps :: "policy_maps \<Rightarrow> policy_engine" where
  "NewEngineFromMaps m = \<lparr>pe_toolModes = pm_Tools m, pe_shellModes = pm_Shell m, pe_policyDir = []\<rparr>"

definition ExportMaps :: "policy_engine option \<Rightarrow> policy_maps" where
  "ExportMaps eng = (case eng of None \<Rightarrow> \<lparr>pm_Tools = [], pm_Shell = []\<rparr>
                     | Some e \<Rightarrow> \<lparr>pm_Tools = pe_toolModes e, pm_Shell = pe_shellModes e\<rparr>)"

definition mode_strings :: "mode_map \<Rightarrow> (string, string) gomap" where
  "mode_strings = map (\<lambda>(k, v). (k, mode_string v))"

definition MapsToStringMaps ::
  "policy_maps \<Rightarrow> (string, string) gomap \<times> (string, (string, string) gomap) gomap" where
  "MapsToStringMaps m = (mode_strings (pm_Tools m), map (\<lambda>(st, mapping). (shell_name st, mode_strings mapping)) (pm_Shell m))"

definition ParseShellTypeParam :: "string \<Rightarrow> policy_error + shell_type" where
  "ParseShellTypeParam raw =
     (case shell_of_name (to_lower (trim_space raw)) of
        Some st \<Rightarrow> Inr st
      | None \<Rightarrow> Inl (ErrUnsupportedShell (to_lower (trim_space raw))))"

definition normalizeShellCommand :: "string \<Rightarrow> string" where
  "normalizeShellCommand raw0 =
     (let raw = trim_space raw0
      in if raw = [] then []
         else case ParseCommandRoots raw ShellBash of
                Some (r # _) \<Rightarrow> r
              | _ \<Rightarrow> (case go_fields raw of [] \<Rightarrow> [] | f # _ \<Rightarrow> to_lower (trim_space f)))"

definition import_tools :: "(string, string) gomap \<Rightarrow> mode_map" where
  "import_tools tools =
     foldl (\<lambda>out (k, v). let name = policy_key k in if name = [] then out else AList.update name (normalizeMode v ModeRule) out) [] tools"

definition import_shell :: "(string, string) gomap \<Rightarrow> mode_map" where
  "import_shell mapping =
     foldl (\<lambda>inner (cmd, mode).
        let c0 = normalizeShellCommand cmd; c = (if c0 = [] then policy_key cmd else c0)
        in if c = [] then inner else AList.update c (normalizeMode mode ModeRule) inner) [] mapping"

definition StringMapsToMaps ::
  "(string, string) gomap \<Rightarrow> (string, (string, string) gomap) gomap \<Rightarrow> policy_maps" where
  "StringMapsToMaps tools shell =
     \<lparr>pm_Tools = import_tools tools,
      pm_Shell = foldl (\<lambda>out (stRaw, mapping).
         case ParseShellTypeParam stRaw of Inl _ \<Rightarrow> out | Inr st \<Rightarrow> AList.update st (import_shell mapping) out) [] shell\<rparr>"

definition protectedToolDeny :: string where
  "protectedToolDeny = ''ask_user_information''"

text \<open>An update is a name and the requested mode.\<close>

fun ApplyToolUpdatesToMaps :: "policy_maps \<Rightarrow> (string \<times> approval_mode) list \<Rightarrow> policy_error option \<times> policy_maps" where
  "ApplyToolUpdatesToMaps m [] = (None, m)"
| "ApplyToolUpdatesToMaps m ((rawName, rawMode) # updates) =
     (let name = policy_key rawName
      in if name = [] then (Some ErrToolNameRequired, m)
         else case resolveApprovalMode rawMode of
                Inl e \<Rightarrow> (Some e, m)
              | Inr mode \<Rightarrow>
                  if name = protectedToolDeny \<and> mode = ModeDeny then (Some ErrProtectedTool, m)
                  else ApplyToolUpdatesToMaps (m\<lparr>pm_Tools := AList.update name mode (pm_Tools m)\<rparr>) updates)"

fun shell_updates :: "mode_map \<Rightarrow> (string \<times> approval_mode) list \<Rightarrow> policy_error option \<times> mode_map" where
  "shell_updates mapping [] = (None, mapping)"
| "shell_updates mapping ((command, rawMode) # updates) =
     (let cmd = normalizeShellCommand command
      in if cmd = [] then (Some ErrCommandRequired, mapping)
         else case resolveApprovalMode rawMode of
                Inl e \<Rightarrow> (Some e, mapping)
              | Inr mode \<Rightarrow> shell_updates (AList.update cmd mode mapping) updates)"

fun shell_deletes :: "mode_map \<Rightarrow> string list \<Rightarrow> policy_error option \<times> mode_map" where
  "shell_deletes mapping [] = (None, mapping)"
| "shell_deletes mapping (raw # deletes) =
     (let cmd = normalizeShellCommand raw
      in if cmd = [] then (Some ErrCommandRequired, mapping)
         else shell_deletes (AList.delete cmd mapping) deletes)"

text \<open>
  When the shell already has a map, an error leaves the entries changed before it in place, because
  the map is shared; a map made for this call is dropped on error.
\<close>

definition ApplyShellPolicyChangesToMaps ::
  "policy_maps \<Rightarrow> shell_type \<Rightarrow> (string \<times> approval_mode) list \<Rightarrow> string list \<Rightarrow> policy_error option \<times> policy_maps" where
  "ApplyShellPolicyChangesToMaps m shellType updates deletes =
     (let existing = map_of (pm_Shell m) shellType;
          put = (\<lambda>mapping. m\<lparr>pm_Shell := AList.update shellType mapping (pm_Shell m)\<rparr>);
          failed = (\<lambda>mapping. if existing = None then m else put mapping)
      in case shell_updates (case existing of None \<Rightarrow> [] | Some mp \<Rightarrow> mp) updates of
           (Some e, mp) \<Rightarrow> (Some e, failed mp)
         | (None, mp) \<Rightarrow>
             (case shell_deletes mp deletes of
                (Some e, mp2) \<Rightarrow> (Some e, failed mp2)
              | (None, mp2) \<Rightarrow>
                  if updates = [] \<and> deletes = [] then (Some ErrUpdatesRequired, m) else (None, put mp2)))"

definition SortedToolNames :: "policy_maps \<Rightarrow> string list" where
  "SortedToolNames m = sort (map fst (pm_Tools m))"

section \<open>Files\<close>

datatype file_read = FileMissing | FileError | FileText string

fun split_lines :: "string \<Rightarrow> string list" where
  "split_lines [] = [[]]"
| "split_lines (c # cs) =
     (if c = CHR 0x0A then [] # split_lines cs
      else (case split_lines cs of [] \<Rightarrow> [[c]] | l # ls \<Rightarrow> (c # l) # ls))"

definition entry_line :: "approval_mode \<Rightarrow> mode_map \<Rightarrow> string \<Rightarrow> mode_map" where
  "entry_line defaultMode mapping line =
     (let stripped = trim_space line
      in if stripped = [] \<or> has_prefix ''#'' stripped \<or> CHR ''='' \<notin> set stripped then mapping
         else
           let keyRaw = takeWhile (\<lambda>c. c \<noteq> CHR ''='') stripped;
               modeRaw = tl (dropWhile (\<lambda>c. c \<noteq> CHR ''='') stripped);
               key = policy_key keyRaw
           in if key = [] then mapping else AList.update key (normalizeMode modeRaw defaultMode) mapping)"

definition parseEntryFile :: "(string \<Rightarrow> file_read) \<Rightarrow> string \<Rightarrow> approval_mode \<Rightarrow> policy_error + mode_map" where
  "parseEntryFile read path defaultMode =
     (case read path of
        FileMissing \<Rightarrow> Inr []
      | FileError \<Rightarrow> Inl (ErrReadPolicy path)
      | FileText raw \<Rightarrow> Inr (foldl (entry_line defaultMode) [] (split_lines raw)))"

fun load_shells :: "(string \<Rightarrow> file_read) \<Rightarrow> string \<Rightarrow> (shell_type \<times> string) list \<Rightarrow>
  policy_error + (shell_type, mode_map) gomap" where
  "load_shells read policyDir [] = Inr []"
| "load_shells read policyDir ((shell, file) # items) =
     (case parseEntryFile read (policyDir @ ''/shell/'' @ file) ModeRule of
        Inl e \<Rightarrow> Inl e
      | Inr mapping \<Rightarrow>
          (case load_shells read policyDir items of Inl e \<Rightarrow> Inl e | Inr rest \<Rightarrow> Inr ((shell, mapping) # rest)))"

definition loadFromDir :: "(string \<Rightarrow> file_read) \<Rightarrow> string \<Rightarrow> policy_error + policy_engine" where
  "loadFromDir read policyDir =
     (case parseEntryFile read (policyDir @ ''/tool.approval.txt'') ModeRule of
        Inl e \<Rightarrow> Inl e
      | Inr toolModes \<Rightarrow>
          (case load_shells read policyDir [(ShellBash, ''bash.approval.txt''), (ShellCmd, ''cmd.approval.txt''),
                  (ShellPowerShell, ''powershell.approval.txt'')] of
             Inl e \<Rightarrow> Inl e
           | Inr shellModes \<Rightarrow> Inr \<lparr>pe_toolModes = toolModes, pe_shellModes = shellModes, pe_policyDir = policyDir\<rparr>))"

definition policySeedCandidates :: "string list" where
  "policySeedCandidates = [''packaging/runtime/policy'', ''../packaging/runtime/policy'',
     ''../../packaging/runtime/policy'', ''../../../packaging/runtime/policy'']"

definition findSeedPolicyDir :: "(string \<Rightarrow> bool) \<Rightarrow> string" where
  "findSeedPolicyDir is_dir = (case find is_dir policySeedCandidates of Some d \<Rightarrow> d | None \<Rightarrow> [])"

definition empty_seed :: policy_maps where
  "empty_seed = \<lparr>pm_Tools = [], pm_Shell = [(ShellBash, []), (ShellCmd, []), (ShellPowerShell, [])]\<rparr>"

definition LoadSeedMaps :: "(string \<Rightarrow> bool) \<Rightarrow> (string \<Rightarrow> file_read) \<Rightarrow> policy_maps" where
  "LoadSeedMaps is_dir read =
     (let seedDir = findSeedPolicyDir is_dir
      in if seedDir = [] then empty_seed
         else case loadFromDir read seedDir of Inl _ \<Rightarrow> empty_seed | Inr e \<Rightarrow> ExportMaps (Some e))"

definition NewDefaultEngine :: "(string \<Rightarrow> bool) \<Rightarrow> (string \<Rightarrow> file_read) \<Rightarrow> policy_engine" where
  "NewDefaultEngine is_dir read = NewEngineFromMaps (LoadSeedMaps is_dir read)"

section \<open>Snapshots\<close>

record tool_policy_entry =
  tpe_Name :: string
  tpe_Mode :: string
  tpe_Configured :: bool

record policy_snapshot =
  ps_PolicyDir :: string
  ps_AgentID :: string
  ps_Source :: string
  ps_GOOS :: string
  ps_DefaultShell :: string
  ps_Tools :: "tool_policy_entry list"
  ps_Shell :: "(string, tool_policy_entry list) gomap"

definition shellEntriesFor :: "policy_engine \<Rightarrow> shell_type \<Rightarrow> tool_policy_entry list" where
  "shellEntriesFor engine shellType =
     (let mapping = (case map_of (pe_shellModes engine) shellType of None \<Rightarrow> [] | Some mp \<Rightarrow> mp)
      in map (\<lambda>cmd. \<lparr>tpe_Name = cmd,
                     tpe_Mode = mode_string (case map_of mapping cmd of Some m \<Rightarrow> m | None \<Rightarrow> Mode_Other []),
                     tpe_Configured = True\<rparr>)
           (sort (map fst mapping)))"

definition LoadSnapshotForAgent ::
  "string \<Rightarrow> string \<Rightarrow> string \<Rightarrow> string \<Rightarrow> policy_engine option \<Rightarrow> string list \<Rightarrow> policy_error + policy_snapshot" where
  "LoadSnapshotForAgent goos agentID policyDir source eng toolNames =
     (case eng of
        None \<Rightarrow> Inl ErrEngineNil
      | Some engine \<Rightarrow>
          let names = sort (remdups (filter (\<lambda>n. n \<noteq> []) (map policy_key toolNames) @ map fst (pe_toolModes engine)))
          in Inr \<lparr>ps_PolicyDir = trim_space policyDir, ps_AgentID = trim_space agentID, ps_Source = trim_space source,
                  ps_GOOS = goos,
                  ps_DefaultShell = (case ResolveShellType goos None of Some st \<Rightarrow> shell_name st | None \<Rightarrow> []),
                  ps_Tools = map (\<lambda>name. \<lparr>tpe_Name = name, tpe_Mode = mode_string (toolMode engine name),
                                          tpe_Configured = ToolConfigured (Some engine) name\<rparr>) names,
                  ps_Shell = [(''bash'', shellEntriesFor engine ShellBash), (''cmd'', shellEntriesFor engine ShellCmd),
                              (''powershell'', shellEntriesFor engine ShellPowerShell)]\<rparr>)"


section \<open>Keys\<close>

lemma lower_char_space:
  assumes "x \<in> \<Union> (set ` set unicode_spaces)"
  shows "lower_char c = x \<longleftrightarrow> c = x"
proof -
  have x: "\<not> (97 \<le> (of_char x :: nat) \<and> (of_char x :: nat) \<le> 122)" "\<not> (65 \<le> (of_char x :: nat) \<and> (of_char x :: nat) \<le> 90)"
    using assms by (auto simp: unicode_spaces_def)
  show ?thesis
  proof (cases "65 \<le> (of_char c :: nat) \<and> (of_char c :: nat) \<le> 90")
    case True
    then have "(of_char (lower_char c) :: nat) = of_char c + 32" by (simp add: lower_char_def)
    then have "97 \<le> (of_char (lower_char c) :: nat) \<and> (of_char (lower_char c) :: nat) \<le> 122" using True by simp
    then show ?thesis using x True by auto
  next
    case False
    then show ?thesis by (auto simp: lower_char_def)
  qed
qed

lemma lower_take_space:
  assumes "set p \<subseteq> \<Union> (set ` set unicode_spaces)"
  shows "take (length p) (to_lower s) = p \<longleftrightarrow> take (length p) s = p"
  using assms
proof (induction p arbitrary: s)
  case (Cons x p)
  then show ?case using lower_char_space by (cases s) (auto simp: to_lower_def)
qed simp

lemma strip_first_lower:
  assumes "\<forall>p \<in> set ps. set p \<subseteq> \<Union> (set ` set unicode_spaces)"
  shows "strip_first ps (to_lower s) = map_option to_lower (strip_first ps s)"
  using assms
proof (induction ps s rule: strip_first.induct)
  case (2 p ps s)
  have "set p \<subseteq> \<Union> (set ` set unicode_spaces)" using 2(2) by (simp del: UN_simps)
  from lower_take_space[OF this, of s] have "take (length p) (to_lower s) = p \<longleftrightarrow> take (length p) s = p" .
  then show ?case using 2 by (simp add: to_lower_def drop_map)
qed simp

lemma trim_with_lower:
  assumes "\<forall>p \<in> set ps. set p \<subseteq> \<Union> (set ` set unicode_spaces)"
  shows "trim_with ps (to_lower s) = to_lower (trim_with ps s)"
  using assms
proof (induction ps s rule: trim_with.induct)
  case (1 ps s)
  then show ?case
    by (cases "strip_first ps s") (simp_all add: trim_with.simps[of ps s] trim_with.simps[of ps "to_lower s"] strip_first_lower)
qed

lemma trim_space_lower: "trim_space (to_lower s) = to_lower (trim_space s)"
proof -
  have f: "\<forall>p \<in> set unicode_spaces. set p \<subseteq> \<Union> (set ` set unicode_spaces)" by blast
  then have b: "\<forall>p \<in> set (map rev unicode_spaces). set p \<subseteq> \<Union> (set ` set unicode_spaces)" by (simp del: UN_simps)
  have "rev (to_lower x) = to_lower (rev x)" for x by (simp add: to_lower_def rev_map)
  then show ?thesis using trim_with_lower[OF f] trim_with_lower[OF b] by (simp add: trim_space_def)
qed

lemma to_lower_idem [simp]: "to_lower (to_lower s) = to_lower s"
proof -
  have "lower_char (lower_char c) = lower_char c" for c by (auto simp: lower_char_def)
  then show ?thesis by (simp add: to_lower_def)
qed

lemma policy_key_idem [simp]: "policy_key (policy_key s) = policy_key s"
  by (simp add: policy_key_def trim_space_lower)

lemma mode_parse: "ParseApprovalMode s = Inr m \<Longrightarrow> normalizeMode s d = m"
  by (auto simp: ParseApprovalMode_def normalizeMode_def Let_def split: if_splits)

lemma resolve_mode: "resolveApprovalMode md = Inr m \<Longrightarrow> normalizeMode (mode_string md) ModeRule = m"
  using mode_parse by (auto simp: resolveApprovalMode_def split: if_splits)

lemma mode_roundtrip: "m \<in> {ModeAlways, ModeNever, ModeRule, ModeDeny} \<Longrightarrow> normalizeMode (mode_string m) ModeRule = m"
proof -
  have "normalizeMode ''always'' ModeRule = ModeAlways" "normalizeMode ''never'' ModeRule = ModeNever"
    "normalizeMode ''rule'' ModeRule = ModeRule" "normalizeMode ''deny'' ModeRule = ModeDeny" by code_simp+
  then show "m \<in> {ModeAlways, ModeNever, ModeRule, ModeDeny} \<Longrightarrow> normalizeMode (mode_string m) ModeRule = m"
    by (auto simp: mode_string_def)
qed

lemma shell_roundtrip: "st \<in> {ShellBash, ShellCmd, ShellPowerShell} \<Longrightarrow> ParseShellTypeParam (shell_name st) = Inr st"
proof -
  have "ParseShellTypeParam ''bash'' = Inr ShellBash" "ParseShellTypeParam ''cmd'' = Inr ShellCmd"
    "ParseShellTypeParam ''powershell'' = Inr ShellPowerShell" by code_simp+
  then show "st \<in> {ShellBash, ShellCmd, ShellPowerShell} \<Longrightarrow> ParseShellTypeParam (shell_name st) = Inr st"
    by (auto simp: shell_name_def)
qed

lemma roots_action_spec:
  "roots_action e st h roots =
     (if \<exists>r \<in> set roots. shellCommandMode e st r = ModeDeny then ActionDeny
      else if h \<or> (\<exists>r \<in> set roots. shellCommandMode e st r \<in> {ModeAlways, ModeRule}) then ActionRequireApproval
      else ActionAuto)"
  by (induction e st h roots rule: roots_action.induct) (auto split: approval_mode.splits)

section \<open>Properties\<close>


definition demo_policy :: policy_engine where
  "demo_policy = \<lparr>pe_toolModes = [(''write_file'', ModeAlways)],
     pe_shellModes = [(ShellBash, [(''ls'', ModeNever), (''rm'', ModeDeny)])], pe_policyDir = []\<rparr>"

definition demo_call :: "string \<Rightarrow> (string \<times> go_any) list option" where
  "demo_call command = Some [(''command'', AnyString command)]"





text \<open>
  Updating tool modes. A list of updates is applied in order: after success every updated tool
  has the mode of its last update and every other tool its old mode; the shell maps do not change.
  Whether or not the call succeeds, the tool that asks the user is never set to \<^verbatim>\<open>deny\<close>.
\<close>

lemma tool_updates:
  assumes "ApplyToolUpdatesToMaps m us = (r, m')" "map_of (pm_Tools m) protectedToolDeny \<noteq> Some ModeDeny"
  shows "map_of (pm_Tools m') protectedToolDeny \<noteq> Some ModeDeny \<and> pm_Shell m' = pm_Shell m \<and>
    (r = None \<longrightarrow> (\<forall>k. map_of (pm_Tools m') k =
       (case map_of (rev (map (\<lambda>(n, md). (policy_key n, normalizeMode (mode_string md) ModeRule)) us)) k of
          Some v \<Rightarrow> Some v | None \<Rightarrow> map_of (pm_Tools m) k)))"
  using assms
proof (induction m us rule: ApplyToolUpdatesToMaps.induct)
  case (2 m n md us)
  show ?case
  proof (cases "policy_key n = [] \<or> (\<exists>x. resolveApprovalMode md = Inl x) \<or>
      (policy_key n = protectedToolDeny \<and> resolveApprovalMode md = Inr ModeDeny)")
    case True
    then have "m' = m \<and> r \<noteq> None" using 2(2) by (auto simp: Let_def split: sum.splits if_splits)
    then show ?thesis using 2(3) by (cases r) simp_all
  next
    case False
    then obtain mode where mode: "resolveApprovalMode md = Inr mode" by (cases "resolveApprovalMode md") auto
    define m1 where "m1 = m\<lparr>pm_Tools := AList.update (policy_key n) mode (pm_Tools m)\<rparr>"
    have run: "ApplyToolUpdatesToMaps m1 us = (r, m')" using 2(2) False mode by (auto simp: Let_def m1_def split: if_splits)
    have p: "map_of (pm_Tools m1) protectedToolDeny \<noteq> Some ModeDeny"
      using 2(3) False mode by (auto simp: m1_def update_conv')
    have "\<not> (policy_key n = protectedToolDeny \<and> mode = ModeDeny)" using False mode by auto
    note IH = 2(1)[OF refl _ mode this, folded m1_def, OF _ run p]
    then show ?thesis using False resolve_mode[OF mode] by (auto simp: m1_def update_conv' split: option.splits)
  qed
qed simp

lemma tool_updates_witness:
  "map_of (pm_Tools (snd (ApplyToolUpdatesToMaps empty_seed
      [('' Bash_Run '', ModeAlways), (''bash_run'', ModeNever), (''ask_user_information'', ModeDeny)]))) protectedToolDeny \<noteq> Some ModeDeny"
proof -
  have "map_of (pm_Tools empty_seed) protectedToolDeny \<noteq> Some ModeDeny" by (simp add: empty_seed_def)
  from tool_updates[OF prod.collapse[symmetric] this] show ?thesis by blast
qed

subsection \<open>Persistence\<close>

definition stored_mode :: "approval_mode \<Rightarrow> bool" where
  "stored_mode m \<longleftrightarrow> m \<in> {ModeAlways, ModeNever, ModeRule, ModeDeny}"

definition maps_stable :: "policy_maps \<Rightarrow> bool" where
  "maps_stable m \<longleftrightarrow>
     distinct (map fst (pm_Tools m)) \<and> list_all (\<lambda>(k, v). policy_key k = k \<and> k \<noteq> [] \<and> stored_mode v) (pm_Tools m) \<and>
     distinct (map fst (pm_Shell m)) \<and>
     list_all (\<lambda>(st, mp). st \<in> {ShellBash, ShellCmd, ShellPowerShell} \<and> distinct (map fst mp) \<and>
       list_all (\<lambda>(k, v). normalizeShellCommand k = k \<and> k \<noteq> [] \<and> stored_mode v) mp) (pm_Shell m)"

lemma foldl_update_distinct:
  assumes "distinct (map fst xs)" "fst ` set xs \<inter> fst ` set out = {}"
    and step: "\<And>k v out. (k, v) \<in> set xs \<Longrightarrow> f out (g (k, v)) = AList.update k v out"
  shows "foldl f out (map g xs) = out @ xs"
  using assms(1,2) step
proof (induction xs arbitrary: out)
  case (Cons x xs)
  obtain k v where x: "x = (k, v)" by (cases x)
  have "f out (g x) = out @ [x]" using Cons.prems x by (simp add: update_new)
  moreover have "foldl f (out @ [x]) (map g xs) = (out @ [x]) @ xs"
    by (rule Cons.IH) (use Cons.prems x in auto)
  ultimately show ?case by simp
qed simp

text \<open>
  Storing and loading a policy is a round trip: converting stable maps to strings and back gives
  the same maps (keys in normal form, known modes and shells, no duplicate keys).
\<close>

lemma policy_maps_roundtrip:
  assumes "maps_stable m"
  shows "StringMapsToMaps (fst (MapsToStringMaps m)) (snd (MapsToStringMaps m)) = m"
proof -
  have t: "policy_key k = k \<and> k \<noteq> [] \<and> normalizeMode (mode_string v) ModeRule = v" if "(k, v) \<in> set (pm_Tools m)" for k v
    using assms that mode_roundtrip[of v] by (auto simp: maps_stable_def list_all_iff stored_mode_def)
  have c: "normalizeShellCommand k = k \<and> k \<noteq> [] \<and> normalizeMode (mode_string v) ModeRule = v"
    if "(st, mp) \<in> set (pm_Shell m)" "(k, v) \<in> set mp" for st mp k v
    using assms that mode_roundtrip[of v] by (fastforce simp: maps_stable_def list_all_iff stored_mode_def)
  have sh: "ParseShellTypeParam (shell_name st) = Inr st \<and> distinct (map fst mp)" if "(st, mp) \<in> set (pm_Shell m)" for st mp
    using assms that shell_roundtrip[of st] by (auto simp: maps_stable_def list_all_iff)
  have d: "distinct (map fst (pm_Tools m))" "distinct (map fst (pm_Shell m))" using assms by (simp_all add: maps_stable_def)
  have "import_tools (mode_strings (pm_Tools m)) = [] @ pm_Tools m"
    unfolding import_tools_def mode_strings_def by (rule foldl_update_distinct[OF d(1)]) (use t in \<open>simp_all add: Let_def\<close>)
  moreover have inner: "import_shell (mode_strings mp) = mp" if "(st, mp) \<in> set (pm_Shell m)" for st mp
  proof -
    have "import_shell (mode_strings mp) = [] @ mp"
      unfolding import_shell_def mode_strings_def
      by (rule foldl_update_distinct) (use sh[OF that] c[OF that] in \<open>simp_all add: Let_def\<close>)
    then show ?thesis by simp
  qed
  have "foldl (\<lambda>out (stRaw, mapping). case ParseShellTypeParam stRaw of Inl _ \<Rightarrow> out | Inr st \<Rightarrow> AList.update st (import_shell mapping) out)
      [] (map (\<lambda>(st, mapping). (shell_name st, mode_strings mapping)) (pm_Shell m)) = [] @ pm_Shell m"
    by (rule foldl_update_distinct[OF d(2)]) (use inner sh in simp_all)
  ultimately show ?thesis by (simp add: StringMapsToMaps_def MapsToStringMaps_def)
qed

lemma policy_maps_roundtrip_witness:
  "StringMapsToMaps (fst (MapsToStringMaps (ExportMaps (Some demo_policy)))) (snd (MapsToStringMaps (ExportMaps (Some demo_policy)))) =
     ExportMaps (Some demo_policy)"
proof -
  have "policy_key ''write_file'' = ''write_file''" by code_simp
  moreover have "normalizeShellCommand ''ls'' = ''ls''" by code_simp
  moreover have "normalizeShellCommand ''rm'' = ''rm''" by code_simp
  ultimately have "maps_stable (ExportMaps (Some demo_policy))"
    by (simp add: maps_stable_def ExportMaps_def demo_policy_def stored_mode_def)
  then show ?thesis by (rule policy_maps_roundtrip)
qed

text \<open>
  Where the policy reads a command differently from the shell. The bash splitter does not know
  the operator \<^verbatim>\<open>&\<close>: a command that lists files and removes one in the background is one
  statement with the root \<^verbatim>\<open>ls\<close>, so with \<^verbatim>\<open>ls\<close> allowed it runs although \<^verbatim>\<open>rm\<close> is denied. And
  the key of a quoted command name with a blank is not stable: stored once it is \<^verbatim>\<open>my tool\<close>, after
  the next load it is \<^verbatim>\<open>my\<close>.
\<close>

lemma policy_reading_gaps:
  "DecideTool ''linux'' (Some demo_policy) ''bash_run'' (demo_call ''ls & rm x'') = ActionAuto \<and>
   shellCommandMode demo_policy ShellBash ''rm'' = ModeDeny \<and>
   normalizeShellCommand ([single_quote] @ ''my tool'' @ [single_quote]) = ''my tool'' \<and>
   normalizeShellCommand ''my tool'' = ''my''"
proof (intro conjI)
  show "DecideTool ''linux'' (Some demo_policy) ''bash_run'' (demo_call ''ls & rm x'') = ActionAuto" by code_simp
  show "shellCommandMode demo_policy ShellBash ''rm'' = ModeDeny" by code_simp
  show "normalizeShellCommand ([single_quote] @ ''my tool'' @ [single_quote]) = ''my tool''" by code_simp
  show "normalizeShellCommand ''my tool'' = ''my''" by code_simp
qed

end
