(* ===== verification/Hitl.thy ===== *)
theory Hitl
  imports Policy History
begin

text \<open>
  Resuming a Turn that waits for the user: \<^verbatim>\<open>hitl/resume.go\<close>, \<^verbatim>\<open>hitl/trigger_session.go\<close>,
  \<^verbatim>\<open>turn/pending.go\<close>, \<^verbatim>\<open>turn/pending_resume.go\<close>, \<^verbatim>\<open>turn/pending_resume_memory.go\<close>,
  \<^verbatim>\<open>ContinueAfterResume\<close> of \<^verbatim>\<open>turn/orchestrator.go\<close> and the decision before each call of
  \<^verbatim>\<open>turn/tool_router.go\<close>.

  Parameters: \<open>sprint\<close> prints the numbers, lists and maps of a JSON value as \<^verbatim>\<open>fmt.Sprint\<close> does (nil, strings and booleans
  are spelled out here), \<open>quote\<close> is \<^verbatim>\<open>%q\<close>, \<open>parse_args\<close> decodes the arguments of a call, \<open>execute\<close> is
  \<^verbatim>\<open>executeAutoBatch\<close>, \<open>resolve\<close> the memory service; the sentences shown to the user are fields of \<open>texts\<close>. The values of a resume come from JSON, so a Go
  \<^verbatim>\<open>[]string\<close> does not occur among them. Hooks run after a resume are not modelled.

  \<open>approval_plan_sound\<close> and \<open>approval_gates_execution\<close>: the user's answer only speaks of pending calls, and a call is executed
  only when the answer approves it and the live policy does not deny it; every other call is answered with one rejection.
\<close>

section \<open>Values\<close>

type_synonym resume_value = "(string \<times> go_any) list option"

definition any_field :: "resume_value \<Rightarrow> string \<Rightarrow> go_any" where
  "any_field value k = (case value of None \<Rightarrow> AnyNil | Some m \<Rightarrow> (case map_of m k of None \<Rightarrow> AnyNil | Some v \<Rightarrow> v))"

definition has_field :: "resume_value \<Rightarrow> string \<Rightarrow> bool" where
  "has_field value k = (case value of None \<Rightarrow> False | Some m \<Rightarrow> map_of m k \<noteq> None)"

definition resume_type :: "(go_any \<Rightarrow> string) \<Rightarrow> resume_value \<Rightarrow> string" where
  "resume_type sprint value = to_lower (trim_space (sprint_any sprint (any_field value ''type'')))"

datatype resume_error =
    ErrEmptyResume | ErrUnknownApproved string | ErrUnknownRejected string | ErrSelectionCover
  | ErrUnknownTarget string | ErrInvalidTarget string string | ErrTargetNotApproved string
  | ErrUnsupported string string | ErrCallMismatch | ErrAnswerRequired | ErrDecisionRequired

definition resume_error_text :: "(string \<Rightarrow> string) \<Rightarrow> resume_error \<Rightarrow> string" where
  "resume_error_text quote e =
     (case e of
        ErrEmptyResume \<Rightarrow> ''empty resume_value''
      | ErrUnknownApproved i \<Rightarrow> ''unknown approved id: '' @ i
      | ErrUnknownRejected i \<Rightarrow> ''unknown rejected id: '' @ i
      | ErrSelectionCover \<Rightarrow> ''selection must cover all pending tool calls''
      | ErrUnknownTarget i \<Rightarrow> ''unknown trigger_session_targets id: '' @ i
      | ErrInvalidTarget i t \<Rightarrow> ''invalid trigger_session_target for '' @ i @ '': '' @ quote t
      | ErrTargetNotApproved i \<Rightarrow> ''trigger_session_targets for non-approved id: '' @ i
      | ErrUnsupported what typ \<Rightarrow> ''unsupported '' @ what @ '' resume type: '' @ quote typ
      | ErrCallMismatch \<Rightarrow> ''tool_call_id mismatch''
      | ErrAnswerRequired \<Rightarrow> ''answer is required''
      | ErrDecisionRequired \<Rightarrow> ''decision is required (keep_old|use_new|keep_both|cancelled)'')"

definition toStringSlice :: "(go_any \<Rightarrow> string) \<Rightarrow> go_any \<Rightarrow> string list" where
  "toStringSlice sprint v =
     (case v of AnyList items \<Rightarrow> filter (\<lambda>s. s \<noteq> []) (map (\<lambda>item. trim_space (sprint_any sprint item)) items) | _ \<Rightarrow> [])"

section \<open>Approvals\<close>

record approval_plan =
  ap_Approved :: "string list"
  ap_Rejected :: "string list"
  ap_TriggerSessionTargets :: "(string, string) gomap option"

definition ValidTriggerSessionTarget :: "string \<Rightarrow> bool" where
  "ValidTriggerSessionTarget raw \<longleftrightarrow> trim_space raw \<in> {''same_session'', ''new_session'', ''latest_active_session''}"

fun targets_loop ::
  "(go_any \<Rightarrow> string) \<Rightarrow> string list \<Rightarrow> (string \<times> go_any) list \<Rightarrow> (string, string) gomap \<Rightarrow> resume_error + (string, string) gomap" where
  "targets_loop sprint pending [] out = Inr out"
| "targets_loop sprint pending ((key, val) # m) out =
     (let callID = trim_space key; target = trim_space (sprint_any sprint val)
      in if callID = [] then targets_loop sprint pending m out
         else if callID \<notin> set pending then Inl (ErrUnknownTarget callID)
         else if \<not> ValidTriggerSessionTarget target then Inl (ErrInvalidTarget callID target)
         else targets_loop sprint pending m (AList.update callID target out))"

definition parseTriggerSessionTargets ::
  "(go_any \<Rightarrow> string) \<Rightarrow> go_any \<Rightarrow> string list \<Rightarrow> resume_error + (string, string) gomap option" where
  "parseTriggerSessionTargets sprint raw pending =
     (case raw of
        AnyMap m \<Rightarrow> if m = [] then Inr None
                    else (case targets_loop sprint pending m [] of Inl e \<Rightarrow> Inl e | Inr out \<Rightarrow> Inr (Some out))
      | _ \<Rightarrow> Inr None)"

fun select_ids :: "(string \<Rightarrow> resume_error) \<Rightarrow> string list \<Rightarrow> string list \<Rightarrow> string list \<Rightarrow> resume_error + string list" where
  "select_ids err pending [] acc = Inr acc"
| "select_ids err pending (raw # raws) acc =
     (if raw \<notin> set pending then Inl (err raw) else select_ids err pending raws (List.insert raw acc))"

definition ParseApprovalResume :: "(go_any \<Rightarrow> string) \<Rightarrow> resume_value \<Rightarrow> string list \<Rightarrow> resume_error + approval_plan" where
  "ParseApprovalResume sprint value pendingIDs =
     (if value = None then Inl ErrEmptyResume
      else let typ = resume_type sprint value; pending = remdups pendingIDs; raw = any_field value ''trigger_session_targets''
       in if typ = ''approve'' then
            (case parseTriggerSessionTargets sprint raw pending of
               Inl e \<Rightarrow> Inl e
             | Inr targets \<Rightarrow> Inr \<lparr>ap_Approved = pending, ap_Rejected = [], ap_TriggerSessionTargets = targets\<rparr>)
          else if typ = ''reject'' then
            (if raw \<noteq> AnyNil then
               (case parseTriggerSessionTargets sprint raw pending of
                  Inl e \<Rightarrow> Inl e
                | Inr _ \<Rightarrow> Inr \<lparr>ap_Approved = [], ap_Rejected = pending, ap_TriggerSessionTargets = None\<rparr>)
             else Inr \<lparr>ap_Approved = [], ap_Rejected = pending, ap_TriggerSessionTargets = None\<rparr>)
          else if typ = ''selection'' then
            (case select_ids ErrUnknownApproved pending (toStringSlice sprint (any_field value ''approved'')) [] of
               Inl e \<Rightarrow> Inl e
             | Inr approved \<Rightarrow>
               (case select_ids ErrUnknownRejected pending (toStringSlice sprint (any_field value ''rejected'')) [] of
                  Inl e \<Rightarrow> Inl e
                | Inr rejected \<Rightarrow>
                  if length approved + length rejected \<noteq> length pending then Inl ErrSelectionCover
                  else case parseTriggerSessionTargets sprint raw pending of
                         Inl e \<Rightarrow> Inl e
                       | Inr targets \<Rightarrow>
                           (case find (\<lambda>callID. callID \<notin> set approved) (case targets of None \<Rightarrow> [] | Some t \<Rightarrow> map fst t) of
                              Some callID \<Rightarrow> Inl (ErrTargetNotApproved callID)
                            | None \<Rightarrow> Inr \<lparr>ap_Approved = approved, ap_Rejected = rejected, ap_TriggerSessionTargets = targets\<rparr>)))
          else Inl (ErrUnsupported ''approval'' typ))"

definition IsApproved :: "approval_plan \<Rightarrow> string \<Rightarrow> bool" where
  "IsApproved p callID \<longleftrightarrow> callID \<in> set (ap_Approved p)"

definition TriggerSessionTarget :: "approval_plan \<Rightarrow> string \<Rightarrow> string" where
  "TriggerSessionTarget p callID =
     (case ap_TriggerSessionTargets p of None \<Rightarrow> []
      | Some t \<Rightarrow> (case map_of t callID of None \<Rightarrow> [] | Some target \<Rightarrow> trim_space target))"

section \<open>Answers and memory decisions\<close>

definition ResumeValueKind :: "(go_any \<Rightarrow> string) \<Rightarrow> resume_value \<Rightarrow> string" where
  "ResumeValueKind sprint value =
     (if value = None then ''nil''
      else let typ = resume_type sprint value
       in if typ \<in> {''selection'', ''approve'', ''reject''} then ''approval''
          else if typ = ''user_information'' then ''user_information''
          else if typ = ''memory_conflict'' then ''memory_conflict''
          else if typ = [] then
            (if has_field value ''answer'' then ''user_information''
             else if has_field value ''selected_options'' then ''user_information''
             else if has_field value ''decision'' then ''memory_conflict'' else ''unknown'')
          else ''unknown:'' @ typ)"

record resume_texts =
  rt_answerCancelled :: string
  rt_memoryCancelled :: string
  rt_keptOld :: string
  rt_usedNew :: "nat \<Rightarrow> string"
  rt_keptBoth :: string

definition formatUserInformationResult :: "(string \<Rightarrow> string) \<Rightarrow> string \<Rightarrow> string list \<Rightarrow> string" where
  "formatUserInformationResult quote answer selected =
     ''[USER_INFORMATION]'' @ [CHR 0x0A] @ ''answer='' @ quote answer @ [CHR 0x0A] @ ''selected_options=[''
       @ concat (map (\<lambda>i. (if i = 0 then [] else '' '') @ selected ! i) [0..<length selected]) @ '']''"

definition id_mismatch :: "resume_value \<Rightarrow> string \<Rightarrow> bool" where
  "id_mismatch value toolCallID =
     (case any_field value ''tool_call_id'' of
        AnyString got \<Rightarrow> trim_space got \<noteq> [] \<and> trim_space got \<noteq> toolCallID
      | _ \<Rightarrow> False)"

definition ParseUserInformationResume ::
  "(go_any \<Rightarrow> string) \<Rightarrow> (string \<Rightarrow> string) \<Rightarrow> resume_texts \<Rightarrow> resume_value \<Rightarrow> string \<Rightarrow> resume_error + string" where
  "ParseUserInformationResume sprint quote texts value toolCallID =
     (if value = None then Inl ErrEmptyResume
      else let typ = resume_type sprint value
       in if typ \<noteq> [] \<and> typ \<noteq> ''user_information'' then Inl (ErrUnsupported ''user_information'' typ)
          else if id_mismatch value toolCallID then Inl ErrCallMismatch
          else if any_field value ''cancelled'' = AnyBool True then Inr (''[USER_INFORMATION_CANCELLED] '' @ rt_answerCancelled texts)
          else let answer = trim_space (sprint_any sprint (any_field value ''answer''));
                   selected = toStringSlice sprint (any_field value ''selected_options'')
               in if answer = [] \<and> selected = [] then Inl ErrAnswerRequired
                  else Inr (formatUserInformationResult quote answer selected))"

datatype memory_conflict_decision = MemoryConflictKeepOld | MemoryConflictUseNew | MemoryConflictKeepBoth | MemoryConflictCancelled

definition ParseMemoryConflictResume :: "(go_any \<Rightarrow> string) \<Rightarrow> resume_value \<Rightarrow> string \<Rightarrow> resume_error + memory_conflict_decision" where
  "ParseMemoryConflictResume sprint value toolCallID =
     (if value = None then Inl ErrEmptyResume
      else let typ = resume_type sprint value
       in if typ \<noteq> [] \<and> typ \<noteq> ''memory_conflict'' then Inl (ErrUnsupported ''memory_conflict'' typ)
          else if id_mismatch value toolCallID then Inl ErrCallMismatch
          else if any_field value ''cancelled'' = AnyBool True then Inr MemoryConflictCancelled
          else let d = to_lower (trim_space (sprint_any sprint (any_field value ''decision'')))
               in if d = ''keep_old'' then Inr MemoryConflictKeepOld
                  else if d = ''use_new'' then Inr MemoryConflictUseNew
                  else if d = ''keep_both'' then Inr MemoryConflictKeepBoth
                  else if d = ''cancelled'' then Inr MemoryConflictCancelled
                  else Inl ErrDecisionRequired)"

section \<open>Pending interactions\<close>

record memory_conflict_meta =
  mcm_ConflictID :: string
  mcm_Scope :: string
  mcm_ExistingContent :: string
  mcm_NewInformation :: string
  mcm_ConflictDescription :: string
  mcm_MergedBoth :: string

record pending_item =
  pi_ToolCall :: tool_call
  pi_DuplicateMeta :: "json_raw option"
  pi_MemoryConflict :: "memory_conflict_meta option"
  pi_ConditionApproval :: "json_raw option"

type_synonym pending_hitl = "pending_item list option"

definition pending_items :: "pending_hitl \<Rightarrow> pending_item list" where
  "pending_items p = (case p of None \<Rightarrow> [] | Some items \<Rightarrow> items)"

definition IsAskUserInformation :: "string \<Rightarrow> bool" where
  "IsAskUserInformation name \<longleftrightarrow> name = ''ask_user_information''"

definition asks_user :: "pending_item \<Rightarrow> bool" where
  "asks_user item = IsAskUserInformation (tc_Name (pi_ToolCall item))"

definition AllToolCalls :: "pending_hitl \<Rightarrow> tool_call list" where
  "AllToolCalls p = map pi_ToolCall (pending_items p)"

definition findItem :: "pending_hitl \<Rightarrow> string \<Rightarrow> nat option" where
  "findItem p toolCallID =
     find (\<lambda>i. tc_ID (pi_ToolCall (pending_items p ! i)) = toolCallID) [0..<length (pending_items p)]"

definition withoutIndex :: "pending_hitl \<Rightarrow> nat \<Rightarrow> pending_hitl" where
  "withoutIndex p idx =
     (case p of None \<Rightarrow> None
      | Some items \<Rightarrow> if idx \<ge> length items then p
                      else let remaining = take idx items @ drop (idx + 1) items
                           in if remaining = [] then None else Some remaining)"

definition approvalItems :: "pending_hitl \<Rightarrow> pending_item list" where
  "approvalItems p = filter (\<lambda>i. \<not> (asks_user i \<or> pi_MemoryConflict i \<noteq> None)) (pending_items p)"

definition userInformationItems :: "pending_hitl \<Rightarrow> pending_item list" where
  "userInformationItems p = filter asks_user (pending_items p)"

definition memoryConflictItems :: "pending_hitl \<Rightarrow> pending_item list" where
  "memoryConflictItems p = filter (\<lambda>i. pi_MemoryConflict i \<noteq> None) (pending_items p)"

definition nonApprovalItems :: "pending_hitl \<Rightarrow> pending_item list" where
  "nonApprovalItems p = filter (\<lambda>i. asks_user i \<or> pi_MemoryConflict i \<noteq> None) (pending_items p)"

definition pendingFromItems :: "pending_item list \<Rightarrow> pending_hitl" where
  "pendingFromItems items = (if items = [] then None else Some items)"

section \<open>The decision before each call\<close>

record before_each_result =
  be_Action :: policy_action
  be_ToolMode :: approval_mode
  be_ApprovalReason :: string

definition DefaultToolBeforeEachResult :: before_each_result where
  "DefaultToolBeforeEachResult = \<lparr>be_Action = ActionRequireApproval, be_ToolMode = ModeRule, be_ApprovalReason = []\<rparr>"

text \<open>
  What the orchestrator consults: an execution guard, the live policy, the hooks of the before-each phase (\<open>None\<close> as result when the
  phase fails) and the live policy of the target. The first and the hooks are supplied by other packages.
\<close>

record tool_gate =
  tg_executionGuard :: "(message list \<Rightarrow> tool_call \<Rightarrow> before_each_result) option"
  tg_policy :: "policy_engine option"
  tg_toolHooks :: "(message list \<Rightarrow> tool_call \<Rightarrow> before_each_result option) option"
  tg_preflight :: "(string \<Rightarrow> (string \<times> go_any) list \<Rightarrow> (policy_action \<times> string) option) option"

definition mergeToolPreflightDecision ::
  "(string \<Rightarrow> (string \<times> go_any) list) \<Rightarrow> tool_gate \<Rightarrow> tool_call \<Rightarrow> before_each_result \<Rightarrow> before_each_result" where
  "mergeToolPreflightDecision parse_args g tc decision =
     (case tg_preflight g of
        None \<Rightarrow> decision
      | Some preflight \<Rightarrow>
         (case preflight (tc_Name tc) (parse_args (tc_Arguments tc)) of
            None \<Rightarrow> decision
          | Some (action, reason) \<Rightarrow>
              if action = ActionDeny
              then decision\<lparr>be_Action := ActionDeny,
                     be_ApprovalReason := (if trim_space reason \<noteq> [] then reason else be_ApprovalReason decision)\<rparr>
              else if action = ActionRequireApproval \<and> be_Action decision \<noteq> ActionDeny
              then decision\<lparr>be_Action := ActionRequireApproval,
                     be_ApprovalReason := (if trim_space (be_ApprovalReason decision) = [] then reason else be_ApprovalReason decision)\<rparr>
              else decision))"

definition evaluateToolBeforeEach ::
  "string \<Rightarrow> (string \<Rightarrow> (string \<times> go_any) list) \<Rightarrow> tool_gate \<Rightarrow> message list \<Rightarrow> tool_call \<Rightarrow> before_each_result" where
  "evaluateToolBeforeEach goos parse_args g history tc =
     (case tg_toolHooks g of
        None \<Rightarrow>
          mergeToolPreflightDecision parse_args g tc
            \<lparr>be_Action = DecideTool goos (tg_policy g) (tc_Name tc) (Some (parse_args (tc_Arguments tc))),
             be_ToolMode = (case tg_policy g of None \<Rightarrow> ModeRule | Some e \<Rightarrow> toolMode e (tc_Name tc)), be_ApprovalReason = []\<rparr>
      | Some hooks \<Rightarrow>
          (case hooks history tc of
             None \<Rightarrow> DefaultToolBeforeEachResult
           | Some decision \<Rightarrow> mergeToolPreflightDecision parse_args g tc decision))"

definition decideToolBeforeEach ::
  "string \<Rightarrow> (string \<Rightarrow> (string \<times> go_any) list) \<Rightarrow> tool_gate \<Rightarrow> message list \<Rightarrow> tool_call \<Rightarrow> before_each_result" where
  "decideToolBeforeEach goos parse_args g history tc =
     (case tg_executionGuard g of
        Some check \<Rightarrow> check history tc
      | None \<Rightarrow> evaluateToolBeforeEach goos parse_args g history tc)"

section \<open>Resuming\<close>

text \<open>The fields of \<^verbatim>\<open>StepOutcome\<close> these functions set; an error is kept as its text.\<close>

record step_outcome =
  so_Pending :: pending_hitl
  so_StepIndex :: int
  so_ScheduleToolResult :: bool
  so_Err :: "string option"

definition outcome_err :: "int \<Rightarrow> string \<Rightarrow> step_outcome" where
  "outcome_err stepIndex e = \<lparr>so_Pending = None, so_StepIndex = stepIndex, so_ScheduleToolResult = False, so_Err = Some e\<rparr>"

definition outcome_remaining :: "int \<Rightarrow> pending_hitl \<Rightarrow> step_outcome" where
  "outcome_remaining stepIndex remaining =
     (if remaining = None
      then \<lparr>so_Pending = None, so_StepIndex = stepIndex, so_ScheduleToolResult = True, so_Err = None\<rparr>
      else \<lparr>so_Pending = remaining, so_StepIndex = stepIndex, so_ScheduleToolResult = False, so_Err = None\<rparr>)"

definition write_result :: "classifier \<Rightarrow> tool_call \<Rightarrow> string \<Rightarrow> bool \<Rightarrow> turn_log \<Rightarrow> turn_log" where
  "write_result classify tc content failureHint l =
     appendHistory (ToolResultMessage classify (tc_ID tc) (tc_Name tc) content) (publishToolResult tc content failureHint l)"

definition resume_call_id :: "(go_any \<Rightarrow> string) \<Rightarrow> resume_value \<Rightarrow> string" where
  "resume_call_id sprint value = trim_space (sprint_any sprint (any_field value ''tool_call_id''))"

definition user_information_target ::
  "(go_any \<Rightarrow> string) \<Rightarrow> (string \<Rightarrow> string) \<Rightarrow> resume_value \<Rightarrow> pending_hitl \<Rightarrow> string + nat" where
  "user_information_target sprint quote value pending =
     (let callID = resume_call_id sprint value
      in if callID \<noteq> [] then
           (case findItem pending callID of
              Some idx \<Rightarrow> if \<not> asks_user (pending_items pending ! idx)
                          then Inl (''tool_call_id '' @ quote callID @ '' is not user_information'') else Inr idx
            | None \<Rightarrow> Inl (''unknown tool_call_id: '' @ callID))
         else (case userInformationItems pending of
                 [item] \<Rightarrow> (case findItem pending (tc_ID (pi_ToolCall item)) of
                              Some idx \<Rightarrow> Inr idx | None \<Rightarrow> Inl ''missing user_information tool call'')
               | _ \<Rightarrow> Inl ''tool_call_id required when multiple user_information pending''))"

definition continueAfterUserInformationResume ::
  "(go_any \<Rightarrow> string) \<Rightarrow> (string \<Rightarrow> string) \<Rightarrow> resume_texts \<Rightarrow> classifier \<Rightarrow> resume_value \<Rightarrow> pending_hitl \<Rightarrow> int \<Rightarrow> turn_log \<Rightarrow>
   step_outcome \<times> turn_log" where
  "continueAfterUserInformationResume sprint quote texts classify value pending stepIndex l =
     (case user_information_target sprint quote value pending of
        Inl e \<Rightarrow> (outcome_err stepIndex e, l)
      | Inr idx \<Rightarrow>
         (let tc = pi_ToolCall (pending_items pending ! idx);
              content = (case ParseUserInformationResume sprint quote texts value (tc_ID tc) of
                           Inl e \<Rightarrow> resume_error_text quote e | Inr c \<Rightarrow> c)
          in (outcome_remaining stepIndex (withoutIndex pending idx), write_result classify tc content False l)))"

fun approval_loop ::
  "(message list \<Rightarrow> tool_call \<Rightarrow> before_each_result) \<Rightarrow> classifier \<Rightarrow> approval_plan \<Rightarrow> pending_item list \<Rightarrow> tool_call list \<Rightarrow> turn_log \<Rightarrow>
   tool_call list \<times> turn_log" where
  "approval_loop decide classify plan [] approved l = (approved, l)"
| "approval_loop decide classify plan (item # items) approved l =
     (let tc = pi_ToolCall item
      in if IsApproved plan (tc_ID tc) then
           (if be_Action (decide (tl_history l) tc) \<noteq> ActionDeny
            then approval_loop decide classify plan items (approved @ [tc]) l
            else approval_loop decide classify plan items approved (write_result classify tc ''rejected: policy_denied'' True l))
         else approval_loop decide classify plan items approved (write_result classify tc ''rejected: user_rejected'' True l))"

definition continueAfterApprovalResume ::
  "(go_any \<Rightarrow> string) \<Rightarrow> (string \<Rightarrow> string) \<Rightarrow> classifier \<Rightarrow> (message list \<Rightarrow> tool_call \<Rightarrow> before_each_result) \<Rightarrow>
   (approval_plan \<Rightarrow> tool_call list \<Rightarrow> turn_log \<Rightarrow> string option \<times> turn_log) \<Rightarrow> resume_value \<Rightarrow> pending_hitl \<Rightarrow> int \<Rightarrow> turn_log \<Rightarrow>
   step_outcome \<times> turn_log" where
  "continueAfterApprovalResume sprint quote classify decide execute value pending stepIndex l =
     (let items = approvalItems pending;
          finish = (\<lambda>l. (outcome_remaining stepIndex (pendingFromItems (nonApprovalItems pending)), l))
      in if items = [] then (outcome_err stepIndex ''no pending approval tool calls'', l)
         else case ParseApprovalResume sprint value (map (\<lambda>i. tc_ID (pi_ToolCall i)) items) of
                Inl e \<Rightarrow> finish (foldl (\<lambda>l item. write_result classify (pi_ToolCall item) (''rejected: '' @ resume_error_text quote e) True l) l items)
              | Inr plan \<Rightarrow>
                 (case approval_loop decide classify plan items [] l of
                    (approved, l1) \<Rightarrow>
                      (case execute plan approved l1 of
                         (Some e, l2) \<Rightarrow> (outcome_err stepIndex e, l2)
                       | (None, l2) \<Rightarrow> finish l2)))"

definition applyMemoryConflictDecision ::
  "resume_texts \<Rightarrow> (memory_conflict_meta \<Rightarrow> memory_conflict_decision \<Rightarrow> string + nat) option \<Rightarrow> memory_conflict_decision \<Rightarrow>
   memory_conflict_meta option \<Rightarrow> string + string" where
  "applyMemoryConflictDecision texts resolve decision meta =
     (case (meta, resolve) of
        (Some m, Some resolveConflict) \<Rightarrow>
          (case resolveConflict m decision of
             Inl e \<Rightarrow> Inl e
           | Inr superseded \<Rightarrow>
              Inr (case decision of
                     MemoryConflictCancelled \<Rightarrow> ''[MEMORY_CONFLICT_CANCELLED] '' @ rt_memoryCancelled texts
                   | MemoryConflictKeepOld \<Rightarrow> rt_keptOld texts
                   | MemoryConflictUseNew \<Rightarrow> rt_usedNew texts superseded
                   | MemoryConflictKeepBoth \<Rightarrow> rt_keptBoth texts))
      | _ \<Rightarrow> Inl ''memory service unavailable'')"

definition memory_conflict_target ::
  "(go_any \<Rightarrow> string) \<Rightarrow> (string \<Rightarrow> string) \<Rightarrow> resume_value \<Rightarrow> pending_hitl \<Rightarrow> string + nat" where
  "memory_conflict_target sprint quote value pending =
     (let callID = resume_call_id sprint value; items = pending_items pending
      in if memoryConflictItems pending = [] then Inl ''no pending memory_conflict items''
         else if callID \<noteq> [] then
           (case findItem pending callID of
              Some idx \<Rightarrow> if pi_MemoryConflict (items ! idx) = None
                          then Inl (''tool_call_id '' @ quote callID @ '' is not memory_conflict'') else Inr idx
            | None \<Rightarrow> Inl (''unknown tool_call_id: '' @ callID))
         else if length (memoryConflictItems pending) = 1 then
           (case find (\<lambda>i. pi_MemoryConflict (items ! i) \<noteq> None) [0..<length items] of
              Some idx \<Rightarrow> Inr idx | None \<Rightarrow> Inl ''missing memory_conflict tool call'')
         else Inl ''tool_call_id required when multiple memory_conflict pending'')"

definition continueAfterMemoryConflictResume ::
  "(go_any \<Rightarrow> string) \<Rightarrow> (string \<Rightarrow> string) \<Rightarrow> resume_texts \<Rightarrow> classifier \<Rightarrow>
   (memory_conflict_meta \<Rightarrow> memory_conflict_decision \<Rightarrow> string + nat) option \<Rightarrow> resume_value \<Rightarrow> pending_hitl \<Rightarrow> int \<Rightarrow> turn_log \<Rightarrow>
   step_outcome \<times> turn_log" where
  "continueAfterMemoryConflictResume sprint quote texts classify resolve value pending stepIndex l =
     (case memory_conflict_target sprint quote value pending of
        Inl e \<Rightarrow> (outcome_err stepIndex e, l)
      | Inr idx \<Rightarrow>
         (let item = pending_items pending ! idx; tc = pi_ToolCall item;
              l1 = (case ParseMemoryConflictResume sprint value (tc_ID tc) of
                      Inl e \<Rightarrow> write_result classify tc (''rejected: '' @ resume_error_text quote e) True l
                    | Inr decision \<Rightarrow>
                       (case applyMemoryConflictDecision texts resolve decision (pi_MemoryConflict item) of
                          Inl e \<Rightarrow> write_result classify tc (''ERROR: '' @ e) True l
                        | Inr content \<Rightarrow> write_result classify tc content False l))
          in (outcome_remaining stepIndex (withoutIndex pending idx), l1)))"

definition ContinueAfterResume ::
  "(go_any \<Rightarrow> string) \<Rightarrow> (string \<Rightarrow> string) \<Rightarrow> resume_texts \<Rightarrow> classifier \<Rightarrow> (message list \<Rightarrow> tool_call \<Rightarrow> before_each_result) \<Rightarrow>
   (approval_plan \<Rightarrow> tool_call list \<Rightarrow> turn_log \<Rightarrow> string option \<times> turn_log) \<Rightarrow>
   (memory_conflict_meta \<Rightarrow> memory_conflict_decision \<Rightarrow> string + nat) option \<Rightarrow> resume_value \<Rightarrow> pending_hitl \<Rightarrow> int \<Rightarrow> turn_log \<Rightarrow>
   step_outcome \<times> turn_log" where
  "ContinueAfterResume sprint quote texts classify decide execute resolve value pending stepIndex l =
     (if pending = None then (outcome_err stepIndex ''no pending hitl'', l)
      else let kind = ResumeValueKind sprint value
       in if kind = ''user_information'' then continueAfterUserInformationResume sprint quote texts classify value pending stepIndex l
          else if kind = ''memory_conflict'' then continueAfterMemoryConflictResume sprint quote texts classify resolve value pending stepIndex l
          else if kind = ''approval'' then continueAfterApprovalResume sprint quote classify decide execute value pending stepIndex l
          else (outcome_err stepIndex ''unsupported resume type'', l))"

section \<open>What an approval means\<close>

lemma select_ids_Inr:
  "select_ids err pending raws acc = Inr out \<Longrightarrow> distinct acc \<Longrightarrow> set acc \<subseteq> set pending \<Longrightarrow>
     distinct out \<and> set out = set acc \<union> set raws \<and> set out \<subseteq> set pending"
proof (induction raws arbitrary: acc)
  case (Cons r raws)
  then have "r \<in> set pending" "select_ids err pending raws (List.insert r acc) = Inr out" by (auto split: if_splits)
  then show ?case using Cons.IH[of "List.insert r acc"] Cons.prems(2,3) by auto
qed simp

lemma targets_loop_Inr:
  "targets_loop sprint pending m out = Inr t \<Longrightarrow>
     \<forall>(k, v)\<in>set out. k \<in> set pending \<and> ValidTriggerSessionTarget v \<Longrightarrow>
     \<forall>(k, v)\<in>set t. k \<in> set pending \<and> ValidTriggerSessionTarget v"
proof (induction sprint pending m out rule: targets_loop.induct)
  case (2 sprint pending key val m out)
  let ?i = "trim_space key" and ?t = "trim_space (sprint_any sprint val)"
  show ?case
  proof (cases "?i = []")
    case True
    then show ?thesis using 2 by simp
  next
    case False
    then have ok: "?i \<in> set pending" "ValidTriggerSessionTarget ?t"
      and r: "targets_loop sprint pending m (AList.update ?i ?t out) = Inr t"
      using "2.prems"(1) by (auto simp: Let_def split: if_splits)
    have "\<forall>(k, v)\<in>set (AList.update ?i ?t out). k \<in> set pending \<and> ValidTriggerSessionTarget v"
      using ok "2.prems"(2) set_update_subset[of ?i ?t out] by fastforce
    then show ?thesis using "2.IH"(2)[OF refl refl False] ok r by simp
  qed
qed simp

lemma parseTargets_Inr:
  assumes "parseTriggerSessionTargets sprint raw pending = Inr targets" "targets = Some t" "(k, v) \<in> set t"
  shows "k \<in> set pending \<and> ValidTriggerSessionTarget v"
proof -
  obtain m where "targets_loop sprint pending m [] = Inr t"
    using assms(1,2) by (auto simp: parseTriggerSessionTargets_def split: go_any.splits if_splits sum.splits)
  from targets_loop_Inr[OF this] show ?thesis using assms(3) by auto
qed

lemma selection_covers:
  assumes "distinct a" "distinct r" "set a \<subseteq> set p" "set r \<subseteq> set p" "distinct p"
    and "length a + length r = length p" "set a \<inter> set r = {}"
  shows "set a \<union> set r = set p"
proof (rule card_subset_eq)
  show "card (set a \<union> set r) = card (set p)"
    using assms by (simp add: card_Un_disjoint distinct_card)
qed (use assms in auto)

lemma approval_cases:
  assumes "ParseApprovalResume sprint value ids = Inr plan"
  obtains (approve) "ap_Approved plan = remdups ids" "ap_Rejected plan = []"
      "parseTriggerSessionTargets sprint (any_field value ''trigger_session_targets'') (remdups ids) = Inr (ap_TriggerSessionTargets plan)"
    | (reject) "ap_Approved plan = []" "ap_Rejected plan = remdups ids" "ap_TriggerSessionTargets plan = None"
    | (selection) "select_ids ErrUnknownApproved (remdups ids) (toStringSlice sprint (any_field value ''approved'')) [] = Inr (ap_Approved plan)"
      "select_ids ErrUnknownRejected (remdups ids) (toStringSlice sprint (any_field value ''rejected'')) [] = Inr (ap_Rejected plan)"
      "length (ap_Approved plan) + length (ap_Rejected plan) = length (remdups ids)"
      "parseTriggerSessionTargets sprint (any_field value ''trigger_session_targets'') (remdups ids) = Inr (ap_TriggerSessionTargets plan)"
      "\<forall>t k. ap_TriggerSessionTargets plan = Some t \<longrightarrow> k \<in> fst ` set t \<longrightarrow> k \<in> set (ap_Approved plan)"
proof -
  let ?kd = "resume_type sprint value"
  consider "?kd = ''approve''" | "?kd = ''reject''" | "?kd = ''selection''"
    using assms by (auto simp: ParseApprovalResume_def Let_def split: if_splits)
  then show thesis
  proof cases
    case 1
    then show thesis using assms approve
      by (auto simp: ParseApprovalResume_def Let_def split: if_splits sum.splits)
  next
    case 2
    then show thesis using assms reject
      by (auto simp: ParseApprovalResume_def Let_def split: if_splits sum.splits)
  next
    case 3
    obtain a r t where "select_ids ErrUnknownApproved (remdups ids) (toStringSlice sprint (any_field value ''approved'')) [] = Inr a"
      "select_ids ErrUnknownRejected (remdups ids) (toStringSlice sprint (any_field value ''rejected'')) [] = Inr r"
      "length a + length r = length (remdups ids)"
      "parseTriggerSessionTargets sprint (any_field value ''trigger_session_targets'') (remdups ids) = Inr t"
      "find (\<lambda>callID. callID \<notin> set a) (case t of None \<Rightarrow> [] | Some t \<Rightarrow> map fst t) = None"
      "plan = \<lparr>ap_Approved = a, ap_Rejected = r, ap_TriggerSessionTargets = t\<rparr>"
      using assms 3 by (auto simp: ParseApprovalResume_def Let_def split: if_splits sum.splits option.splits)
    then show thesis using selection by (auto simp: find_None_iff)
  qed
qed

text \<open>
  An approval that is accepted only speaks of the pending calls: the approved and the rejected ids are pending, when no id is both approved and rejected
  every pending call is one of the two, and a trigger target is only set, to one of the three known values, for an approved call.
\<close>

lemma approval_plan_sound:
  assumes "ParseApprovalResume sprint value ids = Inr plan"
  shows "set (ap_Approved plan) \<union> set (ap_Rejected plan) \<subseteq> set ids \<and>
         (set (ap_Approved plan) \<inter> set (ap_Rejected plan) = {} \<longrightarrow> set (ap_Approved plan) \<union> set (ap_Rejected plan) = set ids) \<and>
         (\<forall>t k v. ap_TriggerSessionTargets plan = Some t \<longrightarrow> (k, v) \<in> set t \<longrightarrow>
            k \<in> set (ap_Approved plan) \<and> ValidTriggerSessionTarget v)"
  using assms
proof (cases rule: approval_cases)
  case approve
  then show ?thesis using parseTargets_Inr[OF approve(3)] by auto
next
  case reject
  then show ?thesis by simp
next
  case selection
  have a: "distinct (ap_Approved plan)" "set (ap_Approved plan) \<subseteq> set (remdups ids)"
    using select_ids_Inr[OF selection(1)] by auto
  have r: "distinct (ap_Rejected plan)" "set (ap_Rejected plan) \<subseteq> set (remdups ids)"
    using select_ids_Inr[OF selection(2)] by auto
  have "set (ap_Approved plan) \<union> set (ap_Rejected plan) = set ids" if "set (ap_Approved plan) \<inter> set (ap_Rejected plan) = {}"
    using selection_covers[OF a(1) r(1) a(2) r(2) distinct_remdups selection(3) that] by simp
  moreover have "k \<in> set (ap_Approved plan) \<and> ValidTriggerSessionTarget v"
    if "ap_TriggerSessionTargets plan = Some t" "(k, v) \<in> set t" for t k v
    using parseTargets_Inr[OF selection(4) that] selection(5) that by (auto simp: image_iff Bex_def)
  ultimately show ?thesis using a(2) r(2) by auto
qed

section \<open>What is executed\<close>

definition rejection :: "tool_call \<Rightarrow> published_result \<Rightarrow> bool" where
  "rejection tc p \<longleftrightarrow> pub_ToolCall p = tc \<and> pub_FailureHint p \<and>
     pub_Content p \<in> {''rejected: policy_denied'', ''rejected: user_rejected''}"

lemma published_write_result:
  "tl_published (write_result classify tc c f l) =
     tl_published l @ [\<lparr>pub_ToolCall = tc, pub_Content = c, pub_FailureHint = f\<rparr>]"
  by (simp add: write_result_def publishToolResult_def)

lemma approval_loop_sorts:
  "approval_loop decide classify plan items approved l = (calls, l') \<Longrightarrow>
     \<exists>run rej evs. calls = approved @ run \<and> map pi_ToolCall items \<in> shuffles run rej \<and>
       tl_published l' = tl_published l @ evs \<and> list_all2 rejection rej evs \<and>
       (\<forall>tc\<in>set run. IsApproved plan (tc_ID tc) \<and> (\<exists>h. be_Action (decide h tc) \<noteq> ActionDeny)) \<and>
       (\<forall>tc\<in>set rej. \<not> IsApproved plan (tc_ID tc) \<or> (\<exists>h. be_Action (decide h tc) = ActionDeny))"
proof (induction items arbitrary: approved l)
  case Nil
  then show ?case by auto
next
  case (Cons item items)
  let ?tc = "pi_ToolCall item"
  show ?case
  proof (cases "IsApproved plan (tc_ID ?tc) \<and> be_Action (decide (tl_history l) ?tc) \<noteq> ActionDeny")
    case True
    then have "approval_loop decide classify plan items (approved @ [?tc]) l = (calls, l')" using Cons.prems by (simp add: Let_def)
    from Cons.IH[OF this] obtain run rej evs where r: "calls = (approved @ [?tc]) @ run" "map pi_ToolCall items \<in> shuffles run rej"
      "tl_published l' = tl_published l @ evs" "list_all2 rejection rej evs"
      "\<forall>tc\<in>set run. IsApproved plan (tc_ID tc) \<and> (\<exists>h. be_Action (decide h tc) \<noteq> ActionDeny)"
      "\<forall>tc\<in>set rej. \<not> IsApproved plan (tc_ID tc) \<or> (\<exists>h. be_Action (decide h tc) = ActionDeny)" by blast
    have "calls = approved @ (?tc # run)" "map pi_ToolCall (item # items) \<in> shuffles (?tc # run) rej"
      using r(1,2) by (simp_all add: Cons_in_shuffles_leftI)
    moreover have "\<forall>tc\<in>set (?tc # run). IsApproved plan (tc_ID tc) \<and> (\<exists>h. be_Action (decide h tc) \<noteq> ActionDeny)"
      using True r(5) by auto
    ultimately show ?thesis using r(3,4,6) by blast
  next
    case False
    obtain c where c: "c \<in> {''rejected: policy_denied'', ''rejected: user_rejected''}"
      "approval_loop decide classify plan items approved (write_result classify ?tc c True l) = (calls, l')"
      using Cons.prems False by (auto simp: Let_def split: if_splits)
    let ?ev = "\<lparr>pub_ToolCall = ?tc, pub_Content = c, pub_FailureHint = True\<rparr>"
    from Cons.IH[OF c(2)] obtain run rej evs where r: "calls = approved @ run" "map pi_ToolCall items \<in> shuffles run rej"
      "tl_published l' = (tl_published l @ [?ev]) @ evs" "list_all2 rejection rej evs"
      "\<forall>tc\<in>set run. IsApproved plan (tc_ID tc) \<and> (\<exists>h. be_Action (decide h tc) \<noteq> ActionDeny)"
      "\<forall>tc\<in>set rej. \<not> IsApproved plan (tc_ID tc) \<or> (\<exists>h. be_Action (decide h tc) = ActionDeny)"
      unfolding published_write_result by blast
    have "map pi_ToolCall (item # items) \<in> shuffles run (?tc # rej)" "list_all2 rejection (?tc # rej) (?ev # evs)"
      using r(2,4) c(1) by (auto simp: Cons_in_shuffles_rightI rejection_def)
    moreover have "\<forall>tc\<in>set (?tc # rej). \<not> IsApproved plan (tc_ID tc) \<or> (\<exists>h. be_Action (decide h tc) = ActionDeny)"
      using False r(6) by auto
    ultimately show ?thesis using r(1,3,5) by (metis append.assoc append_Cons append_Nil)
  qed
qed

lemma preflight_keeps_denial:
  "be_Action d = ActionDeny \<Longrightarrow> be_Action (mergeToolPreflightDecision parse_args g tc d) = ActionDeny"
  by (simp add: mergeToolPreflightDecision_def split: option.split prod.split)

lemma policy_denies:
  assumes "tg_executionGuard g = None" "tg_toolHooks g = None"
    and "DecideTool goos (tg_policy g) (tc_Name tc) (Some (parse_args (tc_Arguments tc))) = ActionDeny"
  shows "be_Action (decideToolBeforeEach goos parse_args g h tc) = ActionDeny"
  using assms by (simp add: decideToolBeforeEach_def evaluateToolBeforeEach_def preflight_keeps_denial)


section \<open>Concrete resumes\<close>

definition demo_sprint :: "go_any \<Rightarrow> string" where
  "demo_sprint v = ''1''"

definition demo_selection :: "string list \<Rightarrow> string list \<Rightarrow> resume_value" where
  "demo_selection approved rejected = Some [(''type'', AnyString ''selection''),
     (''approved'', AnyList (map AnyString approved)), (''rejected'', AnyList (map AnyString rejected))]"

definition demo_item :: "string \<Rightarrow> string \<Rightarrow> pending_item" where
  "demo_item i name = \<lparr>pi_ToolCall = \<lparr>tc_ID = i, tc_Type = ''function'', tc_Name = name, tc_Arguments = ''{}''\<rparr>,
     pi_DuplicateMeta = None, pi_MemoryConflict = None, pi_ConditionApproval = None\<rparr>"

definition demo_gate_policy :: tool_gate where
  "demo_gate_policy = \<lparr>tg_executionGuard = None,
     tg_policy = Some \<lparr>pe_toolModes = [(''write_file'', ModeDeny)], pe_shellModes = [], pe_policyDir = []\<rparr>,
     tg_toolHooks = None, tg_preflight = None\<rparr>"

lemma approval_plan_sound_witness:
  "case ParseApprovalResume demo_sprint (demo_selection [''a''] [''b'']) [''a'', ''b''] of
     Inl e \<Rightarrow> False | Inr plan \<Rightarrow> set (ap_Approved plan) \<union> set (ap_Rejected plan) = {''a'', ''b''}"
proof -
  have p: "ParseApprovalResume demo_sprint (demo_selection [''a''] [''b'']) [''a'', ''b''] =
      Inr \<lparr>ap_Approved = [''a''], ap_Rejected = [''b''], ap_TriggerSessionTargets = None\<rparr>" by code_simp
  show ?thesis using approval_plan_sound[OF p] p by simp
qed


text \<open>
  Where the reading of a resume is not what the code around it expects. A selection that names one call twice passes the check that every pending call is
  covered: \<open>a\<close> is listed as rejected and is executed, \<open>b\<close> is not mentioned. A missing field prints as \<^verbatim>\<open><nil>\<close>, so the branches for an absent type,
  an absent call id (one question pending) and an absent answer are only reached by fields that are present and blank.
\<close>

lemma resume_reading_gaps:
  "(case ParseApprovalResume demo_sprint (demo_selection [''a''] [''a'']) [''a'', ''b''] of
      Inl e \<Rightarrow> False | Inr plan \<Rightarrow> IsApproved plan ''a'' \<and> ''a'' \<in> set (ap_Rejected plan) \<and> ''b'' \<notin> set (ap_Rejected plan)) \<and>
   ResumeValueKind demo_sprint (Some [(''answer'', AnyString ''yes'')]) = ''unknown:<nil>'' \<and>
   ResumeValueKind demo_sprint (Some [(''type'', AnyString []), (''answer'', AnyString ''yes'')]) = ''user_information'' \<and>
   user_information_target demo_sprint (\<lambda>s. s) (Some [(''type'', AnyString ''user_information''), (''answer'', AnyString ''yes'')])
     (Some [demo_item ''q'' ''ask_user_information'']) = Inl ''unknown tool_call_id: <nil>'' \<and>
   ParseUserInformationResume demo_sprint (\<lambda>s. s) \<lparr>rt_answerCancelled = [], rt_memoryCancelled = [], rt_keptOld = [], rt_usedNew = \<lambda>n. [],
     rt_keptBoth = []\<rparr> (Some [(''type'', AnyString ''user_information'')]) ''q'' \<noteq> Inl ErrAnswerRequired"
  by code_simp

end
