(* ===== verification/Calendar.thy ===== *)
theory Calendar
  imports Prelude
begin

text \<open>
  Dates and local times, as the code uses them from the package \<^verbatim>\<open>time\<close>: the proleptic Gregorian calendar
  (\<^verbatim>\<open>Time.Date\<close>, \<^verbatim>\<open>Time.Weekday\<close>), \<^verbatim>\<open>time.Date\<close> with its normalisation of months and of the day zero, and the way it looks up
  the offset of a time zone.

  A time zone is a function from the seconds since year 1 to the offset in seconds. Days are numbered from the first of January of
  year 1. The lemmas show that the two directions of the calendar are inverse to each other, that the order of days is the order
  of dates, and how the functions simplify in a zone with a constant offset.
\<close>

section \<open>Years and months\<close>

definition is_leap :: "int \<Rightarrow> bool" where
  "is_leap y \<longleftrightarrow> 4 dvd y \<and> (\<not> 100 dvd y \<or> 400 dvd y)"

text \<open>The number of days before the year \<open>y\<close>.\<close>

definition year_start :: "int \<Rightarrow> int" where
  "year_start y = 365 * (y - 1) + (y - 1) div 4 - (y - 1) div 100 + (y - 1) div 400"

definition month_len :: "int \<Rightarrow> int \<Rightarrow> int" where
  "month_len y m =
     (if m = 2 then (if is_leap y then 29 else 28) else if m = 4 \<or> m = 6 \<or> m = 9 \<or> m = 11 then 30 else 31)"

definition month_start :: "int \<Rightarrow> int \<Rightarrow> int" where
  "month_start y m = sum_list (map (month_len y) [1..m - 1])"

definition year_of :: "int \<Rightarrow> int" where
  "year_of n =
     (let y = 1 + n * 400 div 146097
      in if n < year_start y then y - 1 else if year_start (y + 1) \<le> n then y + 1 else y)"

function month_from :: "int \<Rightarrow> int \<Rightarrow> int \<Rightarrow> int" where
  "month_from y m r = (if 12 \<le> m \<or> r < month_start y (m + 1) then m else month_from y (m + 1) r)"
  by pat_completeness auto
termination
  by (relation "measure (\<lambda>(y, m, r). nat (12 - m))") auto

declare month_from.simps [simp del]

text \<open>The date of a day: year, month, day of the month.\<close>

definition civil_of_day :: "int \<Rightarrow> int \<times> int \<times> int" where
  "civil_of_day n =
     (let y = year_of n; r = n - year_start y; m = month_from y 1 r in (y, m, r - month_start y m + 1))"

text \<open>The day of a date, whose month may be out of range, as \<^verbatim>\<open>time.Date\<close> accepts it.\<close>

definition day_of_civil :: "int \<Rightarrow> int \<Rightarrow> int \<Rightarrow> int" where
  "day_of_civil y m d =
     (let y' = y + (m - 1) div 12; m' = (m - 1) mod 12 + 1 in year_start y' + month_start y' m' + d - 1)"

definition weekday_of :: "int \<Rightarrow> int" where
  "weekday_of n = (n + 1) mod 7"

section \<open>Local times\<close>

type_synonym zone = "int \<Rightarrow> int"

abbreviation (input) sec_ns :: int where "sec_ns \<equiv> 1000000000"
abbreviation (input) day_ns :: int where "day_ns \<equiv> 86400000000000"

definition local_day :: "zone \<Rightarrow> gotime \<Rightarrow> int" where
  "local_day loc t = (t div sec_ns + loc (t div sec_ns)) div 86400"

definition local_civil :: "zone \<Rightarrow> gotime \<Rightarrow> int \<times> int \<times> int" where
  "local_civil loc t = civil_of_day (local_day loc t)"

text \<open>\<^verbatim>\<open>time.Date(year, month, day, hour, minute, 0, 0, loc)\<close>.\<close>

definition go_Date :: "zone \<Rightarrow> int \<Rightarrow> int \<Rightarrow> int \<Rightarrow> int \<Rightarrow> int \<Rightarrow> gotime" where
  "go_Date loc y m d hour minute =
     (let unix = day_of_civil y m d * 86400 + hour * 3600 + minute * 60; offset = loc unix
      in (if offset = 0 then unix else unix - loc (unix - offset)) * sec_ns)"

section \<open>Laws of the calendar\<close>

lemma div_bounds:
  fixes x n :: int
  assumes "0 < n"
  shows "n * (x div n) \<le> x" "x < n * (x div n) + n"
  using assms mult_div_mod_eq[of n x] pos_mod_sign[of n x] pos_mod_bound[of n x] by linarith+

lemma div_unique:
  fixes x n q :: int
  assumes "n * q \<le> x" "x < n * q + n"
  shows "x div n = q"
  using int_div_pos_eq[of x n q "x - n * q"] assms by simp

lemma div_step:
  fixes y n :: int
  assumes "1 < n"
  shows "(y - 1) div n = y div n - (if n dvd y then 1 else 0)"
proof (cases "n dvd y")
  case True
  then obtain q where "y = n * q" by (elim dvdE)
  then show ?thesis using assms div_unique[of n "q - 1" "y - 1"] by (simp add: algebra_simps)
next
  case False
  then have "n * (y div n) \<noteq> y" by (metis dvd_triv_left)
  then show ?thesis using False assms div_bounds[of n y] div_unique[of n "y div n" "y - 1"] by simp
qed

lemma year_start_step: "year_start (y + 1) = year_start y + (if is_leap y then 366 else 365)"
proof -
  have "400 dvd y \<Longrightarrow> 100 dvd y" "100 dvd y \<Longrightarrow> 4 dvd y"
    by (rule dvd_trans[of _ 400], simp_all) (rule dvd_trans[of _ 100], simp_all)
  then show ?thesis by (auto simp: year_start_def is_leap_def div_step)
qed

lemma year_start_less: "year_start y < year_start (y + 1)"
  by (simp add: year_start_step)

lemma year_start_mono: "y \<le> z \<Longrightarrow> year_start y \<le> year_start z"
proof (induction z rule: int_ge_induct)
  case (step z)
  then show ?case using year_start_less[of z] by simp
qed simp

lemma year_of_unique:
  assumes "year_start y \<le> n" "n < year_start (y + 1)" "year_start z \<le> n" "n < year_start (z + 1)"
  shows "y = z"
  using assms year_start_mono[of "y + 1" z] year_start_mono[of "z + 1" y] by linarith

lemma year_start_close:
  "146097 * (y - 1) - 800 \<le> 400 * year_start y" "400 * year_start y \<le> 146097 * (y - 1) + 400"
proof -
  define a b c where "a = (y - 1) div 4" and "b = (y - 1) div 100" and "c = (y - 1) div 400"
  have "4 * a \<le> y - 1" "y - 1 < 4 * a + 4" "100 * b \<le> y - 1" "y - 1 < 100 * b + 100" "400 * c \<le> y - 1" "y - 1 < 400 * c + 400"
    unfolding a_def b_def c_def using div_bounds[of 4 "y - 1"] div_bounds[of 100 "y - 1"] div_bounds[of 400 "y - 1"] by simp_all
  moreover have "400 * year_start y = 146000 * (y - 1) + 400 * a - 400 * b + 400 * c"
    by (simp add: year_start_def a_def b_def c_def)
  ultimately show "146097 * (y - 1) - 800 \<le> 400 * year_start y" "400 * year_start y \<le> 146097 * (y - 1) + 400"
    by (simp_all add: algebra_simps)
qed

lemma year_of_bounds: "year_start (year_of n) \<le> n \<and> n < year_start (year_of n + 1)"
proof -
  define q where "q = n * 400 div 146097"
  have q: "146097 * q \<le> n * 400" "n * 400 < 146097 * q + 146097" unfolding q_def using div_bounds[of 146097 "n * 400"] by simp_all
  have "400 * year_start q \<le> 400 * n" using year_start_close(2)[of q] q(1) by simp
  moreover have "400 * n < 400 * year_start (q + 3)" using year_start_close(1)[of "q + 3"] q(2) by simp
  ultimately show ?thesis unfolding year_of_def q_def[symmetric] Let_def by (auto simp: add.commute)
qed

lemma year_of_eq: "year_start y \<le> n \<Longrightarrow> n < year_start (y + 1) \<Longrightarrow> year_of n = y"
  using year_of_unique[of "year_of n" n y] year_of_bounds[of n] by blast

lemma month_start_1 [simp]: "month_start y 1 = 0"
  by (simp add: month_start_def)

lemma month_start_step: "1 \<le> m \<Longrightarrow> month_start y (m + 1) = month_start y m + month_len y m"
  by (simp add: month_start_def upto_rec2)

lemma month_len_bounds: "28 \<le> month_len y m" "month_len y m \<le> 31"
  by (simp_all add: month_len_def)

lemma month_start_mono: "m \<le> k \<Longrightarrow> 1 \<le> m \<Longrightarrow> month_start y m \<le> month_start y k"
proof (induction k rule: int_ge_induct)
  case (step k)
  then show ?case using month_start_step[of k y] month_len_bounds(1)[of y k] by simp
qed simp

lemma month_start_13: "month_start y 13 = (if is_leap y then 366 else 365)"
  by (simp add: month_start_def month_len_def upto.simps)

lemma month_from_spec:
  assumes "1 \<le> m" "m \<le> 12" "month_start y m \<le> r" "r < month_start y 13"
  shows "m \<le> month_from y m r \<and> month_from y m r \<le> 12 \<and> month_start y (month_from y m r) \<le> r \<and>
         r < month_start y (month_from y m r + 1)"
  using assms
proof (induction y m r rule: month_from.induct)
  case (1 y m r)
  show ?case
  proof (cases "12 \<le> m \<or> r < month_start y (m + 1)")
    case True
    then have "month_from y m r = m" by (subst month_from.simps) simp
    moreover have "m = 12 \<or> r < month_start y (m + 1)" using True 1(3) by auto
    ultimately show ?thesis using 1(2-5) by auto
  next
    case False
    then have "month_from y m r = month_from y (m + 1) r" by (subst month_from.simps) simp
    then show ?thesis using 1(1)[OF False] 1(2-5) False by auto
  qed
qed

lemma month_unique:
  assumes "1 \<le> m" "1 \<le> k" "month_start y m \<le> r" "r < month_start y (m + 1)" "month_start y k \<le> r" "r < month_start y (k + 1)"
  shows "m = k"
  using assms month_start_mono[of "m + 1" k y] month_start_mono[of "k + 1" m y] by linarith

definition valid_date :: "int \<Rightarrow> int \<Rightarrow> int \<Rightarrow> bool" where
  "valid_date y m d \<longleftrightarrow> 1 \<le> m \<and> m \<le> 12 \<and> 1 \<le> d \<and> d \<le> month_len y m"

lemma civil_valid:
  assumes "civil_of_day n = (y, m, d)"
  shows "valid_date y m d" "day_of_civil y m d = n"
proof -
  let ?y = "year_of n" and ?r = "n - year_start (year_of n)"
  have r: "0 \<le> ?r" "?r < month_start ?y 13" using year_of_bounds[of n] by (auto simp: month_start_13 year_start_step)
  have m: "m = month_from ?y 1 ?r" and y: "y = ?y" and d: "d = ?r - month_start y m + 1"
    using assms by (auto simp: civil_of_day_def Let_def)
  have s: "1 \<le> m" "m \<le> 12" "month_start y m \<le> ?r" "?r < month_start y (m + 1)"
    using month_from_spec[of 1 ?y ?r] r by (simp_all add: m y)
  then show "valid_date y m d" using month_start_step[of m y] by (simp add: valid_date_def d)
  show "day_of_civil y m d = n" using s y by (simp add: day_of_civil_def Let_def d)
qed

lemma civil_day:
  assumes "valid_date y m d"
  shows "civil_of_day (day_of_civil y m d) = (y, m, d)"
proof -
  let ?n = "day_of_civil y m d" and ?r = "month_start y m + d - 1"
  have m: "1 \<le> m" "m \<le> 12" "1 \<le> d" "d \<le> month_len y m" using assms by (auto simp: valid_date_def)
  have n: "?n = year_start y + ?r" using m by (simp add: day_of_civil_def Let_def)
  have lo: "month_start y m \<le> ?r" and hi: "?r < month_start y (m + 1)" using m month_start_step[of m y] by auto
  have "0 \<le> ?r" using lo month_start_mono[of 1 m y] m by simp
  moreover have end_r: "?r < month_start y 13" using hi month_start_mono[of "m + 1" 13 y] m by simp
  ultimately have y: "year_of ?n = y" by (intro year_of_eq) (auto simp: n year_start_step month_start_13 split: if_splits)
  have "month_from y 1 ?r = m"
    using month_from_spec[of 1 y ?r] month_unique[of "month_from y 1 ?r" m y ?r] lo hi m end_r \<open>0 \<le> ?r\<close> by simp
  then have "civil_of_day ?n = (y, m, ?n - year_start y - month_start y m + 1)"
    unfolding civil_of_day_def Let_def y by (simp add: n)
  then show ?thesis by (simp add: n)
qed

text \<open>Months counted from month 1 of year 0, and the first day of each.\<close>

definition month_index :: "int \<Rightarrow> int \<Rightarrow> int" where
  "month_index y m = y * 12 + (m - 1)"

definition month_first :: "int \<Rightarrow> int" where
  "month_first k = day_of_civil (k div 12) (k mod 12 + 1) 1"

definition index_len :: "int \<Rightarrow> int" where
  "index_len k = month_len (k div 12) (k mod 12 + 1)"

lemma month_index_split: "1 \<le> m \<Longrightarrow> m \<le> 12 \<Longrightarrow> month_index y m div 12 = y \<and> month_index y m mod 12 + 1 = m"
  by (auto simp: month_index_def)

lemma day_of_index: "day_of_civil y m d = month_first (month_index y m) + d - 1"
proof -
  have "month_index y m div 12 = y + (m - 1) div 12" "month_index y m mod 12 = (m - 1) mod 12"
    by (simp_all add: month_index_def add.commute)
  then show ?thesis by (simp add: month_first_def day_of_civil_def Let_def)
qed

lemma month_first_step: "month_first (k + 1) = month_first k + index_len k"
proof (cases "k mod 12 = 11")
  case True
  then have "(k + 1) div 12 = k div 12 + 1" "(k + 1) mod 12 = 0"
    using mult_div_mod_eq[of 12 k] div_unique[of 12 "k div 12 + 1" "k + 1"] mult_div_mod_eq[of 12 "k + 1"] by simp_all
  then show ?thesis using True month_start_step[of 12 "k div 12"] month_start_13[of "k div 12"]
    by (simp add: month_first_def day_of_civil_def Let_def index_len_def year_start_step)
next
  case False
  moreover have "0 \<le> k mod 12" "k mod 12 < 12" by simp_all
  ultimately have r: "0 \<le> k mod 12" "k mod 12 < 11" by linarith+
  then have "(k + 1) div 12 = k div 12" using mult_div_mod_eq[of 12 k] by (intro div_unique) linarith+
  moreover from this have "(k + 1) mod 12 = k mod 12 + 1"
    using mult_div_mod_eq[of 12 k] mult_div_mod_eq[of 12 "k + 1"] by linarith
  moreover note r
  ultimately show ?thesis using month_start_step[of "k mod 12 + 1" "k div 12"]
    by (simp add: month_first_def day_of_civil_def Let_def index_len_def)
qed

lemma month_first_mono: "j \<le> k \<Longrightarrow> month_first j \<le> month_first k"
proof (induction k rule: int_ge_induct)
  case (step k)
  then show ?case using month_first_step[of k] month_len_bounds(1)[of "k div 12" "k mod 12 + 1"] by (simp add: index_len_def)
qed simp

text \<open>The month index of a day.\<close>

definition day_month :: "int \<Rightarrow> int" where
  "day_month n = (case civil_of_day n of (y, m, d) \<Rightarrow> month_index y m)"

lemma day_month_bounds: "month_first (day_month n) \<le> n \<and> n < month_first (day_month n + 1)"
proof -
  obtain y m d where c: "civil_of_day n = (y, m, d)" by (cases "civil_of_day n")
  have v: "valid_date y m d" "day_of_civil y m d = n" by (rule civil_valid[OF c])+
  then have m: "1 \<le> m" "m \<le> 12" "1 \<le> d" "d \<le> month_len y m" by (auto simp: valid_date_def)
  have "n = month_first (month_index y m) + d - 1" using day_of_index[of y m d] v(2) by simp
  moreover have "month_first (month_index y m + 1) = month_first (month_index y m) + month_len y m"
    using month_index_split[OF m(1,2), of y] by (simp add: month_first_step index_len_def)
  moreover have "day_month n = month_index y m" by (simp add: day_month_def c)
  ultimately show ?thesis using m by simp
qed

lemma day_month_eq:
  assumes "month_first k \<le> n" "n < month_first (k + 1)"
  shows "day_month n = k"
  using assms day_month_bounds[of n] month_first_mono[of "day_month n + 1" k] month_first_mono[of "k + 1" "day_month n"]
  by linarith

lemma civil_of_index:
  assumes "1 \<le> d" "d \<le> index_len k"
  shows "civil_of_day (month_first k + d - 1) = (k div 12, k mod 12 + 1, d)"
proof -
  have "valid_date (k div 12) (k mod 12 + 1) d" using assms by (simp add: valid_date_def index_len_def)
  moreover have "day_of_civil (k div 12) (k mod 12 + 1) d = month_first k + d - 1"
    by (simp add: month_first_def day_of_civil_def Let_def)
  ultimately show ?thesis using civil_day[of "k div 12" "k mod 12 + 1" d] by simp
qed

text \<open>Of two consecutive months one has 31 days.\<close>

lemma long_month: "index_len k = 31 \<or> index_len (k + 1) = 31"
proof (cases "k mod 12 + 1 \<in> {2, 4, 6, 9, 11}")
  case True
  moreover have "(k + 1) mod 12 = (k mod 12 + 1) mod 12" by (simp add: mod_add_left_eq)
  ultimately have "(k + 1) mod 12 + 1 \<in> {3, 5, 7, 10, 12}" by auto
  then show ?thesis by (auto simp: index_len_def month_len_def)
qed (auto simp: index_len_def month_len_def)

section \<open>Zones with a constant offset\<close>

lemma local_day_fixed: "local_day (\<lambda>_. off) t = (t + off * sec_ns) div day_ns"
proof -
  have "(t + off * sec_ns) div day_ns = (t + off * sec_ns) div sec_ns div 86400"
    using zdiv_zmult2_eq[of "86400" "t + off * sec_ns" sec_ns] by simp
  also have "(t + off * sec_ns) div sec_ns = t div sec_ns + off" by simp
  finally show ?thesis by (simp add: local_day_def)
qed

lemma go_Date_fixed:
  "go_Date (\<lambda>_. off) y m d hour minute = (day_of_civil y m d * 86400 + hour * 3600 + minute * 60 - off) * sec_ns"
  by (simp add: go_Date_def Let_def)

end
