(* ===== verification/Trigger_Schedule.thy ===== *)
theory Trigger_Schedule
  imports Calendar Msg_Queue
begin

text \<open>
  When a trigger fires: \<^verbatim>\<open>triggers/schedule.go\<close> and the definition of a trigger from \<^verbatim>\<open>triggers/models.go\<close>.

  The time zone is a parameter. Points in time that the store keeps are \<^verbatim>\<open>float64\<close> seconds, so both conversions round as the
  processor does; durations are 64-bit and wrap.

  \<open>next_fire_exact\<close>: in a zone without transitions the next calendar time is the least one after the given moment. \<open>due_until_next\<close>:
  a missed calendar time is made up for exactly until the next one. \<open>early_fire_repeats\<close> records that recomputing the time within
  a second of the occurrence gives the same occurrence again, and \<open>daily_fire_in_the_past\<close> that in a zone with a change of the clocks
  the next daily time can lie before the moment it was asked for.
\<close>

section \<open>Numbers\<close>

definition f64_trunc :: "f64 \<Rightarrow> int" where
  "f64_trunc q = (if 0 \<le> q then \<lfloor>q\<rfloor> else \<lceil>q\<rceil>)"

definition wrap64 :: "int \<Rightarrow> int" where
  "wrap64 n = (n + 9223372036854775808) mod 18446744073709551616 - 9223372036854775808"

text \<open>The Unix epoch, in nanoseconds since year 1.\<close>

abbreviation (input) unix_epoch :: gotime where "unix_epoch \<equiv> 62135596800000000000"

definition timeToUnixFloat :: "gotime \<Rightarrow> f64" where
  "timeToUnixFloat t = f64_round (f64_round (of_int (wrap64 (t - unix_epoch))) / 1000000000)"

definition unixFloatToTime :: "f64 \<Rightarrow> gotime" where
  "unixFloatToTime v =
     (let sec = f64_trunc v; nsec = f64_trunc (f64_round (f64_sub v (f64_round (of_int sec)) * 1000000000))
      in unix_epoch + sec * sec_ns + nsec)"

text \<open>\<^verbatim>\<open>Time.Sub\<close> saturates.\<close>

definition go_Sub :: "gotime \<Rightarrow> gotime \<Rightarrow> int" where
  "go_Sub t u = max (- 9223372036854775808) (min 9223372036854775807 (t - u))"

section \<open>Conditions\<close>

type_synonym condition = "(string, go_any) gomap"

definition cond_get :: "condition \<Rightarrow> string \<Rightarrow> go_any" where
  "cond_get c k = (case map_of c k of None \<Rightarrow> AnyNil | Some v \<Rightarrow> v)"

definition intFromAny :: "go_any \<Rightarrow> int" where
  "intFromAny v = (case v of AnyNumber q \<Rightarrow> f64_trunc q | _ \<Rightarrow> 0)"

definition floatFromAny :: "go_any \<Rightarrow> f64" where
  "floatFromAny v = (case v of AnyNumber q \<Rightarrow> f64_round q | _ \<Rightarrow> 0)"

datatype schedule_kind = ScheduleManual | ScheduleInterval | ScheduleOnce | ScheduleCalendar

datatype trigger_error =
    ErrEventSourceRetired | ErrCombined | ErrConditionEmpty | ErrNoSchedule | ErrScheduleObject | ErrScheduleKind string
  | ErrScheduleTime int int | ErrWeekday | ErrMonthDay | ErrTargetRequired | ErrSessionMode string | ErrNotFound | ErrRevisionConflict
  | ErrNeedsRecovery | ErrExists string | ErrPersist | ErrAutoManaged | ErrClaimPending | ErrStaleOccurrence | ErrIdentityRequired
  | ErrStoreUnavailable | ErrCompletionConflict | ErrDeliveryStale | ErrRecoveryIdentity | ErrControllerRetired
  | ErrAgentRequired | ErrAutoInterval | ErrNowRequired | ErrAutoCollision | ErrAutoRecovery
  | ErrEnabledWithoutNext string | ErrSchemaVersion int

definition hasScheduleObject :: "condition \<Rightarrow> bool" where
  "hasScheduleObject c = (case cond_get c ''schedule'' of AnyMap raw \<Rightarrow> raw \<noteq> [] | _ \<Rightarrow> False)"

definition InferScheduleKind :: "condition \<Rightarrow> trigger_error + schedule_kind" where
  "InferScheduleKind c =
     (let interval = intFromAny (cond_get c ''interval_seconds'');
          fireAt = floatFromAny (cond_get c ''fire_at'');
          hasSchedule = hasScheduleObject c;
          setCount = (if interval > 0 then 1 else 0 :: nat) + (if fireAt > 0 then 1 else 0) + (if hasSchedule then 1 else 0)
      in if map_of c ''event_source_id'' \<noteq> None then Inl ErrEventSourceRetired
         else if setCount > 1 then Inl ErrCombined
         else if interval > 0 then Inr ScheduleInterval
         else if fireAt > 0 then Inr ScheduleOnce
         else if hasSchedule then Inr ScheduleCalendar
         else Inr ScheduleManual)"

definition CalendarDaily :: string where "CalendarDaily = ''daily''"
definition CalendarWeekly :: string where "CalendarWeekly = ''weekly''"
definition CalendarMonthly :: string where "CalendarMonthly = ''monthly''"

lemmas calendar_kind_defs = CalendarDaily_def CalendarWeekly_def CalendarMonthly_def

record schedule_spec =
  ss_Kind :: string
  ss_Weekday :: int
  ss_Day :: int
  ss_Hour :: int
  ss_Minute :: int

definition ParseScheduleSpec :: "(go_any \<Rightarrow> string) \<Rightarrow> condition \<Rightarrow> trigger_error + schedule_spec" where
  "ParseScheduleSpec sprint c =
     (case cond_get c ''schedule'' of
        AnyMap raw \<Rightarrow>
          if raw = [] then Inl ErrScheduleObject
          else let kind = to_lower (trim_space (sprint_any sprint (cond_get raw ''kind'')));
                   hour = intFromAny (cond_get raw ''hour''); minute = intFromAny (cond_get raw ''minute'');
                   weekday = intFromAny (cond_get raw ''weekday''); day = intFromAny (cond_get raw ''day'');
                   spec = \<lparr>ss_Kind = kind, ss_Weekday = 0, ss_Day = 0, ss_Hour = hour, ss_Minute = minute\<rparr>
               in if kind \<noteq> CalendarDaily \<and> kind \<noteq> CalendarWeekly \<and> kind \<noteq> CalendarMonthly then Inl (ErrScheduleKind kind)
                  else if hour < 0 \<or> hour > 23 \<or> minute < 0 \<or> minute > 59 then Inl (ErrScheduleTime hour minute)
                  else if kind = CalendarWeekly then
                    (if weekday < 0 \<or> weekday > 6 then Inl ErrWeekday else Inr (spec\<lparr>ss_Weekday := weekday\<rparr>))
                  else if kind = CalendarMonthly then
                    (if day = 0 \<or> day < -31 \<or> day > 31 then Inl ErrMonthDay else Inr (spec\<lparr>ss_Day := day\<rparr>))
                  else Inr spec
      | _ \<Rightarrow> Inl ErrScheduleObject)"

definition EnsureScheduleCondition :: "(go_any \<Rightarrow> string) \<Rightarrow> condition \<Rightarrow> trigger_error + schedule_kind" where
  "EnsureScheduleCondition sprint c =
     (if c = [] then Inl ErrConditionEmpty
      else case InferScheduleKind c of
             Inl e \<Rightarrow> Inl e
           | Inr kind \<Rightarrow>
               if kind = ScheduleManual then Inl ErrNoSchedule
               else if kind = ScheduleCalendar then
                 (case ParseScheduleSpec sprint c of Inl e \<Rightarrow> Inl e | Inr _ \<Rightarrow> Inr kind)
               else Inr kind)"

definition ConditionCmd :: "(go_any \<Rightarrow> string) \<Rightarrow> condition \<Rightarrow> string" where
  "ConditionCmd sprint c =
     (case map_of c ''cmd'' of
        None \<Rightarrow> [] | Some AnyNil \<Rightarrow> [] | Some v \<Rightarrow> trim_space (sprint_any sprint v))"

section \<open>Calendar times\<close>

definition nextDailyFire :: "zone \<Rightarrow> schedule_spec \<Rightarrow> gotime \<Rightarrow> gotime" where
  "nextDailyFire loc spec after =
     (case local_civil loc after of
        (y, m, d) \<Rightarrow>
          let candidate = go_Date loc y m d (ss_Hour spec) (ss_Minute spec)
          in if \<not> after < candidate then candidate + day_ns else candidate)"

fun weekly_loop :: "zone \<Rightarrow> schedule_spec \<Rightarrow> gotime \<Rightarrow> nat \<Rightarrow> gotime \<Rightarrow> gotime" where
  "weekly_loop loc spec after 0 cursor = cursor"
| "weekly_loop loc spec after (Suc i) cursor =
     (if weekday_of (local_day loc cursor) = ss_Weekday spec \<and> after < cursor then cursor
      else weekly_loop loc spec after i (cursor + day_ns))"

definition nextWeeklyFire :: "zone \<Rightarrow> schedule_spec \<Rightarrow> gotime \<Rightarrow> gotime" where
  "nextWeeklyFire loc spec after =
     (case local_civil loc after of
        (y, m, d) \<Rightarrow> weekly_loop loc spec after 8 (go_Date loc y m d (ss_Hour spec) (ss_Minute spec)))"

definition resolveMonthDay :: "zone \<Rightarrow> int \<Rightarrow> int \<Rightarrow> int \<Rightarrow> int option" where
  "resolveMonthDay loc year month day =
     (case local_civil loc (go_Date loc year (month + 1) 0 0 0) of
        (_, _, daysInMonth) \<Rightarrow>
          if day < 0 then
            (let resolved = daysInMonth + day + 1 in if resolved < 1 \<or> resolved > daysInMonth then None else Some resolved)
          else if day > daysInMonth then None else Some day)"

fun monthly_loop :: "zone \<Rightarrow> schedule_spec \<Rightarrow> gotime \<Rightarrow> nat \<Rightarrow> int \<Rightarrow> int \<Rightarrow> gotime" where
  "monthly_loop loc spec after 0 year month = after + 31 * day_ns"
| "monthly_loop loc spec after (Suc i) year month =
     (let next = (if month + 1 > 12 then monthly_loop loc spec after i (year + 1) 1 else monthly_loop loc spec after i year (month + 1))
      in case resolveMonthDay loc year month (ss_Day spec) of
           None \<Rightarrow> next
         | Some day \<Rightarrow>
             (let candidate = go_Date loc year month day (ss_Hour spec) (ss_Minute spec)
              in if after < candidate then candidate else next))"

definition nextMonthlyFire :: "zone \<Rightarrow> schedule_spec \<Rightarrow> gotime \<Rightarrow> gotime" where
  "nextMonthlyFire loc spec after = (case local_civil loc after of (y, m, _) \<Rightarrow> monthly_loop loc spec after 24 y m)"

definition NextCalendarFire :: "zone \<Rightarrow> schedule_spec \<Rightarrow> gotime \<Rightarrow> gotime" where
  "NextCalendarFire loc spec after =
     (if ss_Kind spec = CalendarDaily then nextDailyFire loc spec after
      else if ss_Kind spec = CalendarWeekly then nextWeeklyFire loc spec after
      else if ss_Kind spec = CalendarMonthly then nextMonthlyFire loc spec after
      else after + day_ns)"

definition CalendarPeriod :: "zone \<Rightarrow> schedule_spec \<Rightarrow> gotime \<Rightarrow> int" where
  "CalendarPeriod loc spec anchor =
     (let next0 = NextCalendarFire loc spec (anchor - sec_ns);
          next = (if \<not> anchor < next0 then NextCalendarFire loc spec next0 else next0)
      in if anchor < next then go_Sub next anchor
         else if ss_Kind spec = CalendarDaily then day_ns
         else if ss_Kind spec = CalendarWeekly then 7 * day_ns
         else 31 * day_ns)"

definition SchedulePeriod :: "(go_any \<Rightarrow> string) \<Rightarrow> zone \<Rightarrow> condition \<Rightarrow> gotime \<Rightarrow> int" where
  "SchedulePeriod sprint loc c anchor =
     (case InferScheduleKind c of
        Inl _ \<Rightarrow> 0
      | Inr ScheduleInterval \<Rightarrow>
          (let sec = intFromAny (cond_get c ''interval_seconds'') in if sec \<le> 0 then 0 else wrap64 (sec * sec_ns))
      | Inr ScheduleOnce \<Rightarrow> 365 * day_ns
      | Inr ScheduleCalendar \<Rightarrow>
          (case ParseScheduleSpec sprint c of Inl _ \<Rightarrow> 0 | Inr spec \<Rightarrow> CalendarPeriod loc spec anchor)
      | Inr ScheduleManual \<Rightarrow> 0)"

section \<open>Definitions of triggers\<close>

datatype session_target_mode = SessionTargetUnset | SessionTargetFixed | SessionTargetNewSession | SessionTargetLatestActive | SessionTargetOther string

record trigger_def =
  td_TriggerID :: string
  td_Name :: string
  td_Condition :: condition
  td_TargetAgentID :: string
  td_TargetSessionID :: "string option"
  td_SessionTargetMode :: session_target_mode
  td_ClientID :: "string option"
  td_TaskTemplate :: string
  td_Enabled :: bool
  td_FireCount :: int
  td_LastFiredAt :: "f64 option"
  td_NextFireAt :: "f64 option"
  td_CreatedAt :: f64
  td_UpdatedAt :: f64
  td_PendingDeliveryID :: "string option"
  td_PendingSessionID :: "string option"
  td_PendingOccurrence :: "f64 option"
  td_PendingConditionReason :: string
  td_PendingConditionContent :: string
  td_PendingConditionPayload :: "(string, go_any) gomap"
  td_PendingConditionApproved :: bool
  td_RecoveryRequired :: bool
  td_RecoveryReason :: string
  td_OwnerAgentID :: string
  td_Controller :: string
  td_ControllerID :: string
  td_Revision :: int
  td_CreatedBy :: string

text \<open>The environment of a call: how values print and the local time zone.\<close>

record sched_env =
  se_sprint :: "go_any \<Rightarrow> string"
  se_loc :: zone

definition ComputeNextFireTime :: "sched_env \<Rightarrow> trigger_def \<Rightarrow> gotime \<Rightarrow> gotime option" where
  "ComputeNextFireTime env d now =
     (if \<not> td_Enabled d then None
      else case InferScheduleKind (td_Condition d) of
             Inl _ \<Rightarrow> None
           | Inr ScheduleInterval \<Rightarrow>
               (let interval = intFromAny (cond_get (td_Condition d) ''interval_seconds'')
                in if interval \<le> 0 then None
                   else let base = (case td_LastFiredAt d of None \<Rightarrow> now | Some v \<Rightarrow> unixFloatToTime v);
                            next = base + wrap64 (interval * sec_ns)
                        in Some (if next < now then now + wrap64 (interval * sec_ns) else next))
           | Inr ScheduleOnce \<Rightarrow>
               (if td_LastFiredAt d \<noteq> None then None
                else let t = unixFloatToTime (floatFromAny (cond_get (td_Condition d) ''fire_at''))
                     in Some (if t < now then now else t))
           | Inr ScheduleCalendar \<Rightarrow>
               (case ParseScheduleSpec (se_sprint env) (td_Condition d) of
                  Inl _ \<Rightarrow> None
                | Inr spec \<Rightarrow> Some (NextCalendarFire (se_loc env) spec (now - sec_ns)))
           | Inr ScheduleManual \<Rightarrow> None)"

definition WithNextFire :: "sched_env \<Rightarrow> trigger_def \<Rightarrow> gotime \<Rightarrow> trigger_def" where
  "WithNextFire env d now =
     d\<lparr>td_NextFireAt := map_option timeToUnixFloat (ComputeNextFireTime env d now), td_UpdatedAt := timeToUnixFloat now\<rparr>"

definition RescheduleNextFire :: "sched_env \<Rightarrow> trigger_def \<Rightarrow> gotime \<Rightarrow> trigger_def" where
  "RescheduleNextFire env d now =
     (let next = (case InferScheduleKind (td_Condition d) of
                    Inr ScheduleCalendar \<Rightarrow>
                      (case ParseScheduleSpec (se_sprint env) (td_Condition d) of
                         Inl _ \<Rightarrow> None | Inr spec \<Rightarrow> Some (NextCalendarFire (se_loc env) spec now))
                  | _ \<Rightarrow> ComputeNextFireTime env d now)
      in d\<lparr>td_NextFireAt := map_option timeToUnixFloat next, td_UpdatedAt := timeToUnixFloat now\<rparr>)"

datatype due_decision = DueNotReady | DueFire | DueAdvanceOnly

definition EvaluateDue :: "sched_env \<Rightarrow> trigger_def \<Rightarrow> gotime \<Rightarrow> due_decision \<times> trigger_def" where
  "EvaluateDue env d now =
     (case (td_Enabled d, td_NextFireAt d) of
        (True, Some v) \<Rightarrow>
          (let nextAt = unixFloatToTime v; kind = InferScheduleKind (td_Condition d);
               period = SchedulePeriod (se_sprint env) (se_loc env) (td_Condition d) nextAt
           in if now < nextAt then (DueNotReady, d)
              else if kind = Inr ScheduleInterval \<or> kind = Inr ScheduleOnce then (DueFire, d)
              else if period \<le> 0 then (DueFire, d)
              else if period \<le> go_Sub now nextAt then (DueAdvanceOnly, RescheduleNextFire env d now)
              else (DueFire, d))
      | _ \<Rightarrow> (DueNotReady, d))"

section \<open>What a calendar schedule means\<close>

definition day_matches :: "schedule_spec \<Rightarrow> int \<Rightarrow> bool" where
  "day_matches spec n \<longleftrightarrow>
     (if ss_Kind spec = CalendarDaily then True
      else if ss_Kind spec = CalendarWeekly then weekday_of n = ss_Weekday spec
      else case civil_of_day n of
             (y, m, d) \<Rightarrow> d = (if ss_Day spec < 0 then month_len y m + ss_Day spec + 1 else ss_Day spec))"

text \<open>The moments of a schedule in a zone with a constant offset: the right second of a matching day.\<close>

definition fires_at :: "int \<Rightarrow> schedule_spec \<Rightarrow> gotime \<Rightarrow> bool" where
  "fires_at off spec t \<longleftrightarrow>
     (t + off * sec_ns) mod day_ns = (ss_Hour spec * 3600 + ss_Minute spec * 60) * sec_ns \<and>
     day_matches spec ((t + off * sec_ns) div day_ns)"

definition is_next :: "int \<Rightarrow> schedule_spec \<Rightarrow> gotime \<Rightarrow> gotime \<Rightarrow> bool" where
  "is_next off spec after t \<longleftrightarrow>
     after < t \<and> fires_at off spec t \<and> (\<forall>u. after < u \<longrightarrow> fires_at off spec u \<longrightarrow> t \<le> u)"

definition valid_spec :: "schedule_spec \<Rightarrow> bool" where
  "valid_spec spec \<longleftrightarrow>
     0 \<le> ss_Hour spec \<and> ss_Hour spec \<le> 23 \<and> 0 \<le> ss_Minute spec \<and> ss_Minute spec \<le> 59 \<and>
     (ss_Kind spec = CalendarDaily \<or>
      ss_Kind spec = CalendarWeekly \<and> 0 \<le> ss_Weekday spec \<and> ss_Weekday spec \<le> 6 \<or>
      ss_Kind spec = CalendarMonthly \<and> ss_Day spec \<noteq> 0 \<and> - 31 \<le> ss_Day spec \<and> ss_Day spec \<le> 31)"

lemma parse_valid: "ParseScheduleSpec sprint c = Inr spec \<Longrightarrow> valid_spec spec"
  by (auto simp: ParseScheduleSpec_def valid_spec_def Let_def calendar_kind_defs split: go_any.splits if_splits)

text \<open>The moment of day \<open>n\<close>.\<close>

definition day_time :: "int \<Rightarrow> schedule_spec \<Rightarrow> int \<Rightarrow> gotime" where
  "day_time off spec n = (n * 86400 + ss_Hour spec * 3600 + ss_Minute spec * 60 - off) * sec_ns"

lemma day_time_local:
  assumes "valid_spec spec"
  shows "(day_time off spec n + off * sec_ns) div day_ns = n"
    "(day_time off spec n + off * sec_ns) mod day_ns = (ss_Hour spec * 3600 + ss_Minute spec * 60) * sec_ns"
proof -
  let ?s = "(ss_Hour spec * 3600 + ss_Minute spec * 60) * sec_ns"
  have eq: "day_time off spec n + off * sec_ns = n * day_ns + ?s" by (simp add: day_time_def algebra_simps)
  have s: "0 \<le> ?s" "?s < day_ns" using assms by (auto simp: valid_spec_def)
  show "(day_time off spec n + off * sec_ns) div day_ns = n" unfolding eq using s by (intro div_unique) linarith+
  then show "(day_time off spec n + off * sec_ns) mod day_ns = ?s"
    using mult_div_mod_eq[of day_ns "day_time off spec n + off * sec_ns"] eq by simp
qed

lemma day_time_mono: "day_time off spec m \<le> day_time off spec n \<longleftrightarrow> m \<le> n"
  by (simp add: day_time_def)

lemma local_day_mono: "t \<le> u \<Longrightarrow> local_day (\<lambda>_. off) t \<le> local_day (\<lambda>_. off) u"
  by (simp add: local_day_fixed zdiv_mono1)

lemma local_day_time: "valid_spec spec \<Longrightarrow> local_day (\<lambda>_. off) (day_time off spec n) = n"
  using day_time_local(1)[of spec off n] by (simp add: local_day_fixed)

lemma later_day: "valid_spec spec \<Longrightarrow> local_day (\<lambda>_. off) after < n \<Longrightarrow> after < day_time off spec n"
  using local_day_mono[of "day_time off spec n" after off] local_day_time[of spec off n] by force

lemma fires_iff: "valid_spec spec \<Longrightarrow> fires_at off spec t \<longleftrightarrow> (\<exists>n. day_matches spec n \<and> t = day_time off spec n)"
proof
  assume v: "valid_spec spec" and f: "fires_at off spec t"
  let ?n = "(t + off * sec_ns) div day_ns"
  have "t + off * sec_ns = ?n * day_ns + (ss_Hour spec * 3600 + ss_Minute spec * 60) * sec_ns"
    using f mult_div_mod_eq[of day_ns "t + off * sec_ns"] by (simp add: fires_at_def)
  then have "t = day_time off spec ?n" by (simp add: day_time_def algebra_simps)
  then show "\<exists>n. day_matches spec n \<and> t = day_time off spec n" using f by (auto simp: fires_at_def)
qed (auto simp: fires_at_def day_time_local)

lemma next_by_day:
  assumes "valid_spec spec" "day_matches spec n" "after < day_time off spec n"
    and first: "\<And>k. k < n \<Longrightarrow> local_day (\<lambda>_. off) after \<le> k \<Longrightarrow> day_matches spec k \<Longrightarrow> \<not> after < day_time off spec k"
  shows "is_next off spec after (day_time off spec n)"
  unfolding is_next_def
proof (intro conjI allI impI)
  show "fires_at off spec (day_time off spec n)" using assms(1,2) by (auto simp: fires_iff)
next
  fix u assume u: "after < u" "fires_at off spec u"
  then obtain k where k: "day_matches spec k" "u = day_time off spec k" using assms(1) by (auto simp: fires_iff)
  have "local_day (\<lambda>_. off) after \<le> k" using local_day_mono[of after u off] u(1) local_day_time[OF assms(1), of off k] k(2) by simp
  then have "\<not> k < n" using first k u(1) by blast
  then show "day_time off spec n \<le> u" using k(2) by (simp add: day_time_mono)
qed (rule assms(3))

lemma local_date_time:
  assumes "local_civil (\<lambda>_. off) after = (y, m, d)"
  shows "go_Date (\<lambda>_. off) y m d (ss_Hour spec) (ss_Minute spec) = day_time off spec (local_day (\<lambda>_. off) after)"
  using civil_valid(2)[of "local_day (\<lambda>_. off) after" y m d] assms by (simp add: local_civil_def go_Date_fixed day_time_def)

subsection \<open>Daily\<close>

lemma daily_next:
  assumes v: "valid_spec spec" and k: "ss_Kind spec = CalendarDaily"
  shows "is_next off spec after (nextDailyFire (\<lambda>_. off) spec after)"
proof -
  let ?n = "local_day (\<lambda>_. off) after"
  obtain y m d where c: "local_civil (\<lambda>_. off) after = (y, m, d)" by (cases "local_civil (\<lambda>_. off) after")
  have all: "day_matches spec n" for n using k by (simp add: day_matches_def)
  have step: "day_time off spec ?n + day_ns = day_time off spec (?n + 1)" by (simp add: day_time_def algebra_simps)
  show ?thesis
  proof (cases "after < day_time off spec ?n")
    case True
    then have "is_next off spec after (day_time off spec ?n)" by (intro next_by_day v all) auto
    then show ?thesis using True by (simp add: nextDailyFire_def c local_date_time[OF c] Let_def)
  next
    case False
    then have "is_next off spec after (day_time off spec (?n + 1))"
      by (intro next_by_day v all later_day) (auto simp: not_less order.order_iff_strict)
    then show ?thesis using False by (simp add: nextDailyFire_def c local_date_time[OF c] Let_def step)
  qed
qed

subsection \<open>Weekly\<close>

lemma weekly_loop_first:
  assumes v: "valid_spec spec"
    and "j < i" "weekday_of (n + int j) = ss_Weekday spec" "after < day_time off spec (n + int j)"
  shows "\<exists>k<i. weekly_loop (\<lambda>_. off) spec after i (day_time off spec n) = day_time off spec (n + int k) \<and>
     weekday_of (n + int k) = ss_Weekday spec \<and> after < day_time off spec (n + int k) \<and>
     (\<forall>l<k. \<not> (weekday_of (n + int l) = ss_Weekday spec \<and> after < day_time off spec (n + int l)))"
  using assms(2-4)
proof (induction i arbitrary: n j)
  case (Suc i)
  have step: "day_time off spec n + day_ns = day_time off spec (n + 1)" by (simp add: day_time_def algebra_simps)
  show ?case
  proof (cases "weekday_of n = ss_Weekday spec \<and> after < day_time off spec n")
    case True
    then show ?thesis by (intro exI[of _ 0]) (simp add: local_day_time[OF v])
  next
    case False
    then obtain j' where j: "j = Suc j'" using Suc.prems by (cases j) auto
    obtain k where k: "k < i" "weekly_loop (\<lambda>_. off) spec after i (day_time off spec (n + 1)) = day_time off spec (n + 1 + int k)"
      "weekday_of (n + 1 + int k) = ss_Weekday spec" "after < day_time off spec (n + 1 + int k)"
      "\<forall>l<k. \<not> (weekday_of (n + 1 + int l) = ss_Weekday spec \<and> after < day_time off spec (n + 1 + int l))"
      using Suc.IH[of j' "n + 1"] Suc.prems j by (auto simp: add.assoc)
    have "weekly_loop (\<lambda>_. off) spec after (Suc i) (day_time off spec n) = day_time off spec (n + int (Suc k))"
      using False k(2) by (auto simp: local_day_time[OF v] step add.assoc)
    moreover have "\<not> (weekday_of (n + int l) = ss_Weekday spec \<and> after < day_time off spec (n + int l))" if "l < Suc k" for l
      using that False k(5) by (cases l) (auto simp: add.assoc)
    ultimately show ?thesis using k(1,3,4) by (intro exI[of _ "Suc k"]) (simp add: add.assoc)
  qed
qed simp

lemma weekday_within:
  assumes "0 \<le> w" "w \<le> 6"
  obtains j :: nat where "1 \<le> j" "j \<le> 7" "weekday_of (n + int j) = w"
proof
  let ?j = "(w - (n + 2)) mod 7"
  have r: "0 \<le> ?j" "?j < 7" by simp_all
  show "1 \<le> nat (1 + ?j)" "nat (1 + ?j) \<le> 7" using r by linarith+
  have "weekday_of (n + int (nat (1 + ?j))) = (n + 2 + ?j) mod 7" using r by (simp add: weekday_of_def add.assoc)
  also have "\<dots> = (n + 2 + (w - (n + 2))) mod 7" by (simp only: mod_add_right_eq)
  also have "\<dots> = w" using assms by simp
  finally show "weekday_of (n + int (nat (1 + ?j))) = w" .
qed

lemma weekly_next:
  assumes v: "valid_spec spec" and k: "ss_Kind spec = CalendarWeekly"
  shows "is_next off spec after (nextWeeklyFire (\<lambda>_. off) spec after)"
proof -
  let ?n = "local_day (\<lambda>_. off) after"
  obtain y m d where c: "local_civil (\<lambda>_. off) after = (y, m, d)" by (cases "local_civil (\<lambda>_. off) after")
  have m: "day_matches spec n \<longleftrightarrow> weekday_of n = ss_Weekday spec" for n using k by (simp add: day_matches_def calendar_kind_defs)
  have "0 \<le> ss_Weekday spec" "ss_Weekday spec \<le> 6" using v k by (auto simp: valid_spec_def calendar_kind_defs)
  then obtain j where j: "1 \<le> j" "j \<le> 7" "weekday_of (?n + int j) = ss_Weekday spec" by (rule weekday_within[where n = ?n])
  then have "after < day_time off spec (?n + int j)" by (intro later_day v) simp
  then obtain k where k: "weekly_loop (\<lambda>_. off) spec after 8 (day_time off spec ?n) = day_time off spec (?n + int k)"
     "weekday_of (?n + int k) = ss_Weekday spec" "after < day_time off spec (?n + int k)"
     "\<forall>l<k. \<not> (weekday_of (?n + int l) = ss_Weekday spec \<and> after < day_time off spec (?n + int l))"
    using weekly_loop_first[OF v, of j 8 ?n after off] j by auto
  have "is_next off spec after (day_time off spec (?n + int k))"
  proof (rule next_by_day[OF v])
    fix l assume "l < ?n + int k" "?n \<le> l" "day_matches spec l"
    then show "\<not> after < day_time off spec l" using k(4)[rule_format, of "nat (l - ?n)"] by (simp add: m)
  qed (use k m in auto)
  then show ?thesis by (simp add: nextWeeklyFire_def c local_date_time[OF c] k(1))
qed

subsection \<open>Monthly\<close>

text \<open>The day a month index resolves to, when the month has it.\<close>

definition index_day :: "schedule_spec \<Rightarrow> int \<Rightarrow> int option" where
  "index_day spec k =
     (let d = (if ss_Day spec < 0 then index_len k + ss_Day spec + 1 else ss_Day spec)
      in if 1 \<le> d \<and> d \<le> index_len k then Some d else None)"

lemma resolve_fixed:
  assumes "1 \<le> m" "m \<le> 12" "ss_Day spec \<noteq> 0"
  shows "resolveMonthDay (\<lambda>_. off) y m (ss_Day spec) = index_day spec (month_index y m)"
proof -
  let ?k = "month_index y m"
  have len: "1 \<le> index_len ?k" using month_len_bounds(1)[of "?k div 12" "?k mod 12 + 1"] by (simp add: index_len_def)
  have "day_of_civil y (m + 1) 0 = month_first (?k + 1) - 1" by (simp add: day_of_index month_index_def)
  then have "day_of_civil y (m + 1) 0 = month_first ?k + index_len ?k - 1" by (simp add: month_first_step)
  moreover have "local_day (\<lambda>_. off) (go_Date (\<lambda>_. off) y (m + 1) 0 0 0) = day_of_civil y (m + 1) 0"
    by (simp add: go_Date_fixed local_day_def)
  ultimately have "local_civil (\<lambda>_. off) (go_Date (\<lambda>_. off) y (m + 1) 0 0 0) = (?k div 12, ?k mod 12 + 1, index_len ?k)"
    using civil_of_index[OF len order_refl] by (simp add: local_civil_def)
  then show ?thesis using assms(3) by (auto simp: resolveMonthDay_def index_day_def Let_def)
qed

lemma monthly_matches:
  assumes "ss_Kind spec = CalendarMonthly"
  shows "day_matches spec n \<longleftrightarrow> index_day spec (day_month n) = Some (n - month_first (day_month n) + 1)"
proof -
  obtain y m d where c: "civil_of_day n = (y, m, d)" by (cases "civil_of_day n")
  then have v: "valid_date y m d" "day_of_civil y m d = n" by (rule civil_valid)+
  then have m: "1 \<le> m" "m \<le> 12" "1 \<le> d" "d \<le> month_len y m" by (auto simp: valid_date_def)
  have k: "day_month n = month_index y m" by (simp add: day_month_def c)
  have "index_len (month_index y m) = month_len y m" using month_index_split[OF m(1,2), of y] by (simp add: index_len_def)
  moreover have "n - month_first (month_index y m) + 1 = d" using v(2) by (simp add: day_of_index)
  ultimately show ?thesis using m assms by (auto simp: day_matches_def index_day_def Let_def c k calendar_kind_defs)
qed

definition month_hit :: "int \<Rightarrow> schedule_spec \<Rightarrow> gotime \<Rightarrow> int \<Rightarrow> int \<Rightarrow> bool" where
  "month_hit off spec after k d \<longleftrightarrow> index_day spec k = Some d \<and> after < day_time off spec (month_first k + d - 1)"

lemma monthly_step:
  assumes "1 \<le> m" "m \<le> 12" "ss_Day spec \<noteq> 0"
  shows "monthly_loop (\<lambda>_. off) spec after (Suc i) y m =
     (case index_day spec (month_index y m) of
        Some d \<Rightarrow> if after < day_time off spec (month_first (month_index y m) + d - 1)
                  then day_time off spec (month_first (month_index y m) + d - 1)
                  else monthly_loop (\<lambda>_. off) spec after i (if m = 12 then y + 1 else y) (if m = 12 then 1 else m + 1)
      | None \<Rightarrow> monthly_loop (\<lambda>_. off) spec after i (if m = 12 then y + 1 else y) (if m = 12 then 1 else m + 1))"
proof -
  have date: "go_Date (\<lambda>_. off) y m d (ss_Hour spec) (ss_Minute spec) = day_time off spec (month_first (month_index y m) + d - 1)" for y m d
    by (simp add: go_Date_fixed day_time_def day_of_index)
  have r: "resolveMonthDay (\<lambda>_. off) y m (ss_Day spec) = index_day spec (month_index y m)" by (rule resolve_fixed[OF assms])
  show ?thesis
  proof (cases "m = 12")
    case True
    show ?thesis using r unfolding True by (simp add: Let_def date split: option.splits)
  next
    case False
    then have "\<not> m + 1 > 12" using assms(2) by simp
    then show ?thesis using r False by (simp add: Let_def date split: option.splits)
  qed
qed

lemma monthly_loop_first:
  assumes day: "ss_Day spec \<noteq> 0" and "1 \<le> m" "m \<le> 12" and "j < i" "month_hit off spec after (month_index y m + int j) dj"
  shows "\<exists>k<i. \<exists>d. month_hit off spec after (month_index y m + int k) d \<and>
     monthly_loop (\<lambda>_. off) spec after i y m = day_time off spec (month_first (month_index y m + int k) + d - 1) \<and>
     (\<forall>l<k. \<forall>e. \<not> month_hit off spec after (month_index y m + int l) e)"
  using assms(2-)
proof (induction i arbitrary: y m j)
  case (Suc i)
  let ?k = "month_index y m"
  show ?case
  proof (cases "\<exists>d. month_hit off spec after ?k d")
    case True
    then obtain d where d: "month_hit off spec after ?k d" by blast
    then have "monthly_loop (\<lambda>_. off) spec after (Suc i) y m = day_time off spec (month_first ?k + d - 1)"
      unfolding monthly_step[OF Suc.prems(1,2) day] by (simp add: month_hit_def)
    then show ?thesis using d by (intro exI[of _ 0]) auto
  next
    case False
    let ?y = "if m = 12 then y + 1 else y" and ?m = "if m = 12 then 1 else m + 1"
    have loop: "monthly_loop (\<lambda>_. off) spec after (Suc i) y m = monthly_loop (\<lambda>_. off) spec after i ?y ?m"
      using False unfolding monthly_step[OF Suc.prems(1,2) day] by (auto simp: month_hit_def split: option.splits)
    have idx: "month_index ?y ?m = ?k + 1" by (simp add: month_index_def)
    obtain j' where j: "j = Suc j'" using False Suc.prems by (cases j) auto
    have "\<exists>k<i. \<exists>d. month_hit off spec after (month_index ?y ?m + int k) d \<and>
       monthly_loop (\<lambda>_. off) spec after i ?y ?m = day_time off spec (month_first (month_index ?y ?m + int k) + d - 1) \<and>
       (\<forall>l<k. \<forall>e. \<not> month_hit off spec after (month_index ?y ?m + int l) e)"
      using Suc.prems j by (intro Suc.IH[where j = j']) (auto simp: month_index_def add.assoc algebra_simps)
    then obtain k d where k: "k < i" "month_hit off spec after (?k + 1 + int k) d"
       "monthly_loop (\<lambda>_. off) spec after i ?y ?m = day_time off spec (month_first (?k + 1 + int k) + d - 1)"
       "\<forall>l<k. \<forall>e. \<not> month_hit off spec after (?k + 1 + int l) e" unfolding idx by blast
    have "\<not> month_hit off spec after (?k + int l) e" if "l < Suc k" for l e
      using that False k(4) by (cases l) (auto simp: add.assoc)
    then show ?thesis using k(1-3) loop by (intro exI[of _ "Suc k"]) (auto simp: add.assoc)
  qed
qed simp

lemma long_month_hit:
  assumes v: "valid_spec spec" "ss_Kind spec = CalendarMonthly"
  obtains j :: nat and d where "j \<in> {1, 2}" "index_day spec (k + int j) = Some d"
proof -
  have day: "ss_Day spec \<noteq> 0" "- 31 \<le> ss_Day spec" "ss_Day spec \<le> 31" using v by (auto simp: valid_spec_def calendar_kind_defs)
  obtain j :: nat where j: "j \<in> {1, 2}" "index_len (k + int j) = 31"
    using long_month[of "k + 1"] by (metis insertCI int_ops(2) of_nat_numeral one_add_one add.assoc)
  have "index_day spec (k + int j) = Some (if ss_Day spec < 0 then 32 + ss_Day spec else ss_Day spec)"
    using day j(2) by (auto simp: index_day_def Let_def)
  then show thesis using that j(1) by blast
qed

lemma month_hit_soon:
  assumes v: "valid_spec spec" "ss_Kind spec = CalendarMonthly"
  obtains j d where "j < 24" "month_hit off spec after (day_month (local_day (\<lambda>_. off) after) + int j) d"
proof -
  let ?n = "local_day (\<lambda>_. off) after" let ?k = "day_month ?n"
  obtain j d where j: "j \<in> {1, 2}" "index_day spec (?k + int j) = Some d" by (rule long_month_hit[OF v])
  have "1 \<le> d" using j(2) by (auto simp: index_day_def Let_def split: if_splits)
  moreover have "?n < month_first (?k + int j)" using day_month_bounds[of ?n] month_first_mono[of "?k + 1" "?k + int j"] j(1) by auto
  ultimately have "after < day_time off spec (month_first (?k + int j) + d - 1)" by (intro later_day v(1)) simp
  then show thesis using that[of j d] j by (auto simp: month_hit_def)
qed

lemma monthly_next:
  assumes v: "valid_spec spec" "ss_Kind spec = CalendarMonthly"
  shows "is_next off spec after (nextMonthlyFire (\<lambda>_. off) spec after)"
proof -
  let ?n = "local_day (\<lambda>_. off) after" let ?k = "day_month ?n"
  obtain y m d0 where c: "civil_of_day ?n = (y, m, d0)" by (cases "civil_of_day ?n")
  have m: "1 \<le> m" "m \<le> 12" using civil_valid(1)[OF c] by (auto simp: valid_date_def)
  have idx: "month_index y m = ?k" by (simp add: day_month_def c)
  have day: "ss_Day spec \<noteq> 0" using v by (auto simp: valid_spec_def calendar_kind_defs)
  obtain j dj where "j < 24" "month_hit off spec after (?k + int j) dj" by (rule month_hit_soon[OF v])
  then obtain k d where k: "month_hit off spec after (?k + int k) d"
     "monthly_loop (\<lambda>_. off) spec after 24 y m = day_time off spec (month_first (?k + int k) + d - 1)"
     "\<forall>l<k. \<forall>e. \<not> month_hit off spec after (?k + int l) e"
    using monthly_loop_first[OF day m, of j 24 off after y dj] unfolding idx by blast
  let ?N = "month_first (?k + int k) + d - 1"
  have d: "index_day spec (?k + int k) = Some d" "1 \<le> d" "d \<le> index_len (?k + int k)"
    using k(1) by (auto simp: month_hit_def index_day_def Let_def split: if_splits)
  have in_month: "month_first (?k + int k) \<le> ?N" "?N < month_first (?k + int k + 1)" using d by (auto simp: month_first_step)
  have "is_next off spec after (day_time off spec ?N)"
  proof (rule next_by_day[OF v(1)])
    show "day_matches spec ?N" unfolding monthly_matches[OF v(2)] day_month_eq[OF in_month] using d by simp
    show "after < day_time off spec ?N" using k(1) by (simp add: month_hit_def)
  next
    fix l assume l: "l < ?N" "?n \<le> l" "day_matches spec l"
    show "\<not> after < day_time off spec l"
    proof
      assume a: "after < day_time off spec l"
      have b: "month_first (day_month l) \<le> l" "?n < month_first (?k + 1)" using day_month_bounds by blast+
      have "?k \<le> day_month l" using l(2) day_month_bounds[of l] day_month_bounds[of ?n] month_first_mono[of "day_month l + 1" ?k] by linarith
      then obtain i where i: "day_month l = ?k + int i" using zle_iff_zadd by blast
      have hit: "month_hit off spec after (?k + int i) (l - month_first (?k + int i) + 1)"
        using l(3) a unfolding monthly_matches[OF v(2)] i by (simp add: month_hit_def)
      then have "\<not> i < k" using k(3) by blast
      moreover have "\<not> k < i" using b(1) l(1) in_month(2) month_first_mono[of "?k + int k + 1" "?k + int i"] unfolding i by auto
      ultimately have "i = k" by simp
      then show False using hit d(1) l(1) by (simp add: month_hit_def)
    qed
  qed
  then show ?thesis by (simp add: nextMonthlyFire_def local_civil_def c k(2))
qed

section \<open>Firing at the right time\<close>

lemma next_calendar: "valid_spec spec \<Longrightarrow> is_next off spec after (NextCalendarFire (\<lambda>_. off) spec after)"
  using daily_next weekly_next monthly_next by (auto simp: NextCalendarFire_def valid_spec_def calendar_kind_defs)

lemma is_next_unique: "is_next off spec after t \<Longrightarrow> is_next off spec after u \<Longrightarrow> t = u"
  by (meson is_next_def order.antisym)

lemma is_next_skip:
  assumes "is_next off spec a t" "a \<le> b" "b < t"
  shows "is_next off spec b t"
  using assms by (auto simp: is_next_def)

text \<open>Two moments of a schedule are a day apart or more.\<close>

lemma fires_apart:
  assumes "valid_spec spec" "fires_at off spec t" "fires_at off spec u" "t < u"
  shows "t + day_ns \<le> u"
proof -
  obtain m n where "t = day_time off spec m" "u = day_time off spec n" using assms(1-3) by (auto simp: fires_iff)
  then show ?thesis using assms(4) by (simp add: day_time_def)
qed

text \<open>
  C24. For a schedule that the parser accepts, in a time zone with a constant offset, the next fire time is strictly after the given moment, is a moment of the schedule
  (the right hour and minute, and every day, the right weekday, or the right day of the month counted from its start or its end), and no moment of the schedule lies between.
\<close>

theorem next_fire_exact:
  assumes "ParseScheduleSpec sprint c = Inr spec"
  shows "after < NextCalendarFire (\<lambda>_. off) spec after \<and> fires_at off spec (NextCalendarFire (\<lambda>_. off) spec after) \<and>
         (\<forall>u. after < u \<longrightarrow> fires_at off spec u \<longrightarrow> NextCalendarFire (\<lambda>_. off) spec after \<le> u)"
  using next_calendar[OF parse_valid[OF assms]] by (simp add: is_next_def)

definition monthly_31 :: condition where
  "monthly_31 = [(''schedule'', AnyMap [(''kind'', AnyString ''Monthly''), (''day'', AnyNumber 31), (''hour'', AnyNumber 9)])]"

text \<open>Asked on the first of April 2026 at noon UTC, the schedule for the 31st gives the 31st of May.\<close>

theorem next_fire_exact_witness:
  "\<exists>spec. ParseScheduleSpec (\<lambda>_. []) monthly_31 = Inr spec \<and>
     go_Date (\<lambda>_. 0) 2026 4 1 12 0 < NextCalendarFire (\<lambda>_. 0) spec (go_Date (\<lambda>_. 0) 2026 4 1 12 0) \<and>
     NextCalendarFire (\<lambda>_. 0) spec (go_Date (\<lambda>_. 0) 2026 4 1 12 0) = go_Date (\<lambda>_. 0) 2026 5 31 9 0"
proof -
  let ?spec = "\<lparr>ss_Kind = ''monthly'', ss_Weekday = 0, ss_Day = 31, ss_Hour = 9, ss_Minute = 0\<rparr>"
  have p: "ParseScheduleSpec (\<lambda>_. []) monthly_31 = Inr ?spec" by code_simp
  have "NextCalendarFire (\<lambda>_. 0) ?spec (go_Date (\<lambda>_. 0) 2026 4 1 12 0) = go_Date (\<lambda>_. 0) 2026 5 31 9 0" by code_simp
  then show ?thesis using next_fire_exact[OF p] p by blast
qed

section \<open>Missed times\<close>

lemma day_time_near:
  assumes "valid_spec spec" "n \<le> local_day (\<lambda>_. off) after + 94"
  shows "day_time off spec n < after + 100 * day_ns"
proof -
  have "day_ns * local_day (\<lambda>_. off) after \<le> after + off * sec_ns"
    using div_bounds(1)[of day_ns "after + off * sec_ns"] by (simp add: local_day_fixed)
  moreover have "day_ns * n \<le> day_ns * local_day (\<lambda>_. off) after + day_ns * 94" using assms(2) by simp
  moreover have "day_time off spec n + off * sec_ns < day_ns * n + day_ns"
    using day_time_local[OF assms(1), of off n] div_bounds(2)[of day_ns "day_time off spec n + off * sec_ns"] by simp
  ultimately show ?thesis by linarith
qed

text \<open>Some time of the schedule comes within a hundred days.\<close>

lemma fires_soon:
  assumes v: "valid_spec spec"
  shows "\<exists>u. after < u \<and> u < after + 100 * day_ns \<and> fires_at off spec u"
proof -
  let ?n = "local_day (\<lambda>_. off) after"
  have near: ?thesis if "?n < n" "n \<le> ?n + 94" "day_matches spec n" for n
    using later_day[OF v that(1)] day_time_near[OF v that(2)] that(3) v by (auto simp: fires_iff)
  consider "ss_Kind spec = CalendarDaily" | "ss_Kind spec = CalendarWeekly" | "ss_Kind spec = CalendarMonthly"
    using v by (auto simp: valid_spec_def)
  then show ?thesis
  proof cases
    case 1
    then show ?thesis by (intro near[of "?n + 1"]) (simp_all add: day_matches_def)
  next
    case 2
    then have "0 \<le> ss_Weekday spec" "ss_Weekday spec \<le> 6" using v by (auto simp: valid_spec_def calendar_kind_defs)
    then obtain j where "1 \<le> j" "j \<le> 7" "weekday_of (?n + int j) = ss_Weekday spec" by (rule weekday_within[where n = ?n])
    then show ?thesis using 2 by (intro near[of "?n + int j"]) (simp_all add: day_matches_def calendar_kind_defs)
  next
    case 3
    let ?k = "day_month ?n"
    obtain j d where j: "j \<in> {1, 2}" "index_day spec (?k + int j) = Some d" by (rule long_month_hit[OF v 3])
    let ?N = "month_first (?k + int j) + d - 1"
    have d: "1 \<le> d" "d \<le> index_len (?k + int j)" using j(2) by (auto simp: index_day_def Let_def split: if_splits)
    have "?N < month_first (?k + int j + 1)" using d by (simp add: month_first_step)
    then have "day_matches spec ?N" using d j(2) day_month_eq[of "?k + int j" ?N] by (simp add: monthly_matches[OF 3])
    moreover have "?n < ?N" using day_month_bounds[of ?n] month_first_mono[of "?k + 1" "?k + int j"] j(1) d(1) by auto
    moreover have "?N \<le> ?n + 94"
    proof -
      have len: "index_len i \<le> 31" for i using month_len_bounds(2) by (simp add: index_len_def)
      have "month_first (?k + 1) \<le> ?n + 31" "month_first (?k + 1 + 1) \<le> ?n + 62"
        using month_first_step[of ?k] month_first_step[of "?k + 1"] len[of ?k] len[of "?k + 1"] day_month_bounds[of ?n] by linarith+
      then have "month_first (?k + int j) \<le> ?n + 62" using j(1) by (auto simp: add.assoc)
      then show ?thesis using d(2) len[of "?k + int j"] by linarith
    qed
    ultimately show ?thesis by (intro near)
  qed
qed

lemma next_calendar_near:
  assumes "valid_spec spec"
  shows "NextCalendarFire (\<lambda>_. off) spec after < after + 100 * day_ns"
  using fires_soon[OF assms, of after off] next_calendar[OF assms, of off after] by (force simp: is_next_def)

lemma calendar_period:
  assumes v: "valid_spec spec"
  shows "CalendarPeriod (\<lambda>_. off) spec anchor = NextCalendarFire (\<lambda>_. off) spec anchor - anchor"
proof -
  let ?next = "NextCalendarFire (\<lambda>_. off) spec"
  let ?a = "?next (anchor - sec_ns)"
  have N: "is_next off spec anchor (?next anchor)" by (rule next_calendar[OF v])
  have a: "is_next off spec (anchor - sec_ns) ?a" by (rule next_calendar[OF v])
  have sub: "go_Sub (?next anchor) anchor = ?next anchor - anchor"
    using next_calendar_near[OF v, of off anchor] N by (simp add: go_Sub_def is_next_def)
  show ?thesis
  proof (cases "anchor < ?a")
    case True
    then have "is_next off spec anchor ?a" using a by (intro is_next_skip[OF a]) auto
    then have "?a = ?next anchor" using is_next_unique N by blast
    then show ?thesis using True sub by (simp add: CalendarPeriod_def Let_def)
  next
    case False
    have b: "is_next off spec ?a (?next ?a)" by (rule next_calendar[OF v])
    have "?a + day_ns \<le> ?next ?a" using a b by (intro fires_apart[OF v]) (auto simp: is_next_def)
    moreover have "anchor - sec_ns < ?a" using a by (simp add: is_next_def)
    ultimately have lt: "anchor < ?next ?a" by linarith
    then have "is_next off spec anchor (?next ?a)" using False by (intro is_next_skip[OF b]) auto
    then have "?next ?a = ?next anchor" using is_next_unique N by blast
    then show ?thesis using False sub lt by (simp add: CalendarPeriod_def Let_def)
  qed
qed

text \<open>
  In a time zone with a constant offset, an enabled trigger with a calendar schedule fires on a scheduler tick exactly when its stored fire time has come and the next
  time of its schedule after that one has not: a missed time is made up for until then, and afterwards it is skipped and the stored time moves to the next time after the tick.
\<close>

lemma due_until_next:
  assumes "ParseScheduleSpec (se_sprint env) (td_Condition d) = Inr spec" "InferScheduleKind (td_Condition d) = Inr ScheduleCalendar"
    and "se_loc env = (\<lambda>_. off)" "td_Enabled d" "td_NextFireAt d = Some v"
  shows "EvaluateDue env d now =
     (if now < unixFloatToTime v then (DueNotReady, d)
      else if now < NextCalendarFire (\<lambda>_. off) spec (unixFloatToTime v) then (DueFire, d)
      else (DueAdvanceOnly, d\<lparr>td_NextFireAt := Some (timeToUnixFloat (NextCalendarFire (\<lambda>_. off) spec now)),
                              td_UpdatedAt := timeToUnixFloat now\<rparr>))"
proof -
  let ?t = "unixFloatToTime v" let ?N = "NextCalendarFire (\<lambda>_. off) spec ?t"
  have v: "valid_spec spec" by (rule parse_valid[OF assms(1)])
  have N: "?t < ?N" "?N < ?t + 100 * day_ns"
    using next_calendar[OF v, of off ?t] next_calendar_near[OF v] by (auto simp: is_next_def)
  have "SchedulePeriod (se_sprint env) (se_loc env) (td_Condition d) ?t = ?N - ?t"
    using assms(1-3) calendar_period[OF v] by (simp add: SchedulePeriod_def)
  moreover have "RescheduleNextFire env d now = d\<lparr>td_NextFireAt := Some (timeToUnixFloat (NextCalendarFire (\<lambda>_. off) spec now)),
      td_UpdatedAt := timeToUnixFloat now\<rparr>" using assms(1-3) by (simp add: RescheduleNextFire_def)
  moreover have "?t \<le> now \<Longrightarrow> ?N - ?t \<le> go_Sub now ?t \<longleftrightarrow> ?N \<le> now" using N(2) by (auto simp: go_Sub_def)
  ultimately show ?thesis using assms(2,4,5) N(1) by (auto simp: EvaluateDue_def Let_def)
qed

text \<open>A daily trigger for ten o'clock whose time on the first of May 2026 was missed: made up for half an hour later, skipped two days later.\<close>

definition demo_env :: sched_env where
  "demo_env = \<lparr>se_sprint = (\<lambda>_. []), se_loc = (\<lambda>_. 0)\<rparr>"

definition demo_daily :: trigger_def where
  "demo_daily = \<lparr>td_TriggerID = ''t'', td_Name = ''n'',
     td_Condition = [(''schedule'', AnyMap [(''kind'', AnyString ''daily''), (''hour'', AnyNumber 10)])],
     td_TargetAgentID = ''a'', td_TargetSessionID = None, td_SessionTargetMode = SessionTargetFixed, td_ClientID = None,
     td_TaskTemplate = [], td_Enabled = True, td_FireCount = 0, td_LastFiredAt = None,
     td_NextFireAt = Some 1777629600, td_CreatedAt = 0, td_UpdatedAt = 0, td_PendingDeliveryID = None, td_PendingSessionID = None,
     td_PendingOccurrence = None, td_PendingConditionReason = [], td_PendingConditionContent = [], td_PendingConditionPayload = [],
     td_PendingConditionApproved = False, td_RecoveryRequired = False, td_RecoveryReason = [], td_OwnerAgentID = ''a'',
     td_Controller = ''user'', td_ControllerID = ''a'', td_Revision = 1, td_CreatedBy = ''user''\<rparr>"

definition demo_spec :: schedule_spec where
  "demo_spec = \<lparr>ss_Kind = ''daily'', ss_Weekday = 0, ss_Day = 0, ss_Hour = 10, ss_Minute = 0\<rparr>"

lemma demo_daily_facts:
  "ParseScheduleSpec (se_sprint demo_env) (td_Condition demo_daily) = Inr demo_spec"
  "InferScheduleKind (td_Condition demo_daily) = Inr ScheduleCalendar" "se_loc demo_env = (\<lambda>_. 0)"
  "td_Enabled demo_daily" "td_NextFireAt demo_daily = Some 1777629600"
  by (code_simp, code_simp, simp add: demo_env_def, simp_all add: demo_daily_def)

lemma demo_times:
  "unixFloatToTime 1777629600 = go_Date (\<lambda>_. 0) 2026 5 1 10 0"
  "NextCalendarFire (\<lambda>_. 0) demo_spec (go_Date (\<lambda>_. 0) 2026 5 1 10 0) = go_Date (\<lambda>_. 0) 2026 5 2 10 0"
  by code_simp+

lemma due_until_next_witness:
  "fst (EvaluateDue demo_env demo_daily (go_Date (\<lambda>_. 0) 2026 5 1 9 59)) = DueNotReady \<and>
   fst (EvaluateDue demo_env demo_daily (go_Date (\<lambda>_. 0) 2026 5 1 10 30)) = DueFire \<and>
   fst (EvaluateDue demo_env demo_daily (go_Date (\<lambda>_. 0) 2026 5 3 10 0)) = DueAdvanceOnly"
proof -
  have t: "go_Date (\<lambda>_. 0) 2026 5 1 9 59 < go_Date (\<lambda>_. 0) 2026 5 1 10 0" "go_Date (\<lambda>_. 0) 2026 5 1 10 0 \<le> go_Date (\<lambda>_. 0) 2026 5 1 10 30"
    "go_Date (\<lambda>_. 0) 2026 5 1 10 30 < go_Date (\<lambda>_. 0) 2026 5 2 10 0" "go_Date (\<lambda>_. 0) 2026 5 2 10 0 \<le> go_Date (\<lambda>_. 0) 2026 5 3 10 0"
    "go_Date (\<lambda>_. 0) 2026 5 1 10 0 \<le> go_Date (\<lambda>_. 0) 2026 5 3 10 0"
    by code_simp+
  show ?thesis using t by (simp add: due_until_next[OF demo_daily_facts] demo_times)
qed

section \<open>Two gaps\<close>

text \<open>
  The next time is recomputed from one second before the present. Within a second of an occurrence that gives the occurrence itself: the stored time does not move on, although
  it was just fired.
\<close>

lemma early_fire_repeats:
  assumes "ParseScheduleSpec (se_sprint env) (td_Condition d) = Inr spec" "InferScheduleKind (td_Condition d) = Inr ScheduleCalendar"
    and "se_loc env = (\<lambda>_. off)" "td_Enabled d" "fires_at off spec t" "t \<le> now" "now < t + sec_ns"
  shows "ComputeNextFireTime env d now = Some t"
proof -
  have v: "valid_spec spec" by (rule parse_valid[OF assms(1)])
  let ?N = "NextCalendarFire (\<lambda>_. off) spec (now - sec_ns)"
  have N: "is_next off spec (now - sec_ns) ?N" by (rule next_calendar[OF v])
  then have "?N \<le> t" using assms(5,7) by (simp add: is_next_def)
  moreover have "\<not> ?N < t" using N fires_apart[OF v, of off ?N t] assms(5,6) by (auto simp: is_next_def)
  ultimately show ?thesis using assms(1-4) by (simp add: ComputeNextFireTime_def)
qed

text \<open>
  On the day the clocks go back (the zone of Berlin in October 2026) the next daily time for midnight, asked half an hour before the following midnight, lies half
  an hour in the past: the code adds 24 hours to the last midnight, and the day has 25.
\<close>

definition berlin_2026 :: zone where
  "berlin_2026 s = (if s < 63928486800 then 7200 else 3600)"

lemma daily_fire_in_the_past:
  "NextCalendarFire berlin_2026 \<lparr>ss_Kind = ''daily'', ss_Weekday = 0, ss_Day = 0, ss_Hour = 0, ss_Minute = 0\<rparr>
     (go_Date berlin_2026 2026 10 25 23 30) < go_Date berlin_2026 2026 10 25 23 30"
  by code_simp

end
