(* ===== verification/Trigger_Store.thy ===== *)
theory Trigger_Store
  imports Trigger_Schedule "HOL-Library.List_Lexorder" "HOL-Library.Char_ord"
begin

text \<open>
  The durable store of triggers: \<^verbatim>\<open>triggers/store.go\<close>, the constructors of \<^verbatim>\<open>triggers/models.go\<close>, \<^verbatim>\<open>triggers/delivery.go\<close>,
  \<^verbatim>\<open>triggers/auto_default.go\<close> and \<^verbatim>\<open>triggers/condition_identity.go\<close>.

  A store is its table, its history, the set of in-process delivery marks and the content of its file. Each exported method runs under the mutex and is one
  step from a store to a result and a store; whether the file can be written, new identifiers and the present time are arguments. A definition is
  written to the file and read back unchanged, the copies the code makes of definitions are the definitions themselves, and the audit log is left out.
\<close>

section \<open>The state\<close>

datatype fire_status = FireStatusQueued | FireStatusSkipped | FireStatusError | FireStatusAwaitingApproval

record fire_record =
  fr_FireID :: string
  fr_TriggerID :: string
  fr_DeliveryID :: string
  fr_Status :: fire_status
  fr_Reason :: string
  fr_SessionID :: "string option"
  fr_ClientID :: "string option"
  fr_Content :: string
  fr_Message :: string
  fr_Payload :: "(string, go_any) gomap"
  fr_FiredAt :: f64

record store_file =
  sf_SchemaVersion :: int
  sf_Triggers :: "trigger_def list"
  sf_History :: "fire_record list"

record trigger_store =
  st_historyLimit :: nat
  st_triggers :: "(string, trigger_def) gomap"
  st_history :: "fire_record list"
  st_pending :: "string set"
  st_file :: "store_file option"

record principal =
  pr_Kind :: string
  pr_ID :: string
  pr_AgentID :: string

record create_input =
  ci_Name :: string
  ci_Condition :: condition
  ci_TargetAgentID :: string
  ci_TargetSessionID :: "string option"
  ci_SessionTargetMode :: session_target_mode
  ci_ClientID :: "string option"
  ci_TaskTemplate :: string
  ci_Enabled :: "bool option"

record update_patch =
  up_Name :: "string option"
  up_Condition :: "condition option"
  up_TargetAgentID :: "string option"
  up_TargetSessionID :: "string option"
  up_ClientID :: "string option"
  up_TaskTemplate :: "string option"
  up_Enabled :: "bool option"
  up_SessionTargetMode :: "session_target_mode option"

record condition_completion =
  cc_TriggerID :: string
  cc_DeliveryID :: string
  cc_SessionID :: string
  cc_AgentID :: string
  cc_Revision :: int
  cc_Occurrence :: "f64 option"
  cc_Matched :: bool
  cc_Rejected :: bool
  cc_Failed :: bool

section \<open>The file\<close>

definition created_order :: "trigger_def \<Rightarrow> f64 \<times> string" where
  "created_order d = (td_CreatedAt d, td_TriggerID d)"

text \<open>The file is replaced by a rename, so a save that fails leaves the old content.\<close>

definition saved :: "trigger_store \<Rightarrow> trigger_store" where
  "saved s = s\<lparr>st_file := Some \<lparr>sf_SchemaVersion = 2, sf_Triggers = sort_key created_order (map snd (st_triggers s)), sf_History = st_history s\<rparr>\<rparr>"

definition saveLocked :: "bool \<Rightarrow> trigger_store \<Rightarrow> trigger_error option \<times> trigger_store" where
  "saveLocked ok s = (if ok then (None, saved s) else (Some ErrPersist, s))"

definition put_trigger :: "string \<Rightarrow> trigger_def \<Rightarrow> trigger_store \<Rightarrow> trigger_store" where
  "put_trigger i d s = s\<lparr>st_triggers := AList.update i d (st_triggers s)\<rparr>"

text \<open>The pattern of most operations: write the new definition, save, and put the old one back when saving fails.\<close>

definition replace_saved :: "bool \<Rightarrow> string \<Rightarrow> trigger_def \<Rightarrow> trigger_def \<Rightarrow> trigger_store \<Rightarrow> trigger_error option \<times> trigger_store" where
  "replace_saved ok i old d s =
     (case saveLocked ok (put_trigger i d s) of
        (None, s1) \<Rightarrow> (None, s1)
      | (Some e, s1) \<Rightarrow> (Some e, put_trigger i old s1))"

definition migrate_def :: "bool \<Rightarrow> trigger_def \<Rightarrow> trigger_def" where
  "migrate_def migrated d0 =
     (let d1 = (if migrated \<and> td_OwnerAgentID d0 = [] then d0\<lparr>td_OwnerAgentID := td_TargetAgentID d0\<rparr> else d0);
          d2 = (if migrated \<and> td_Controller d1 = [] then d1\<lparr>td_Controller := ''user''\<rparr> else d1);
          d3 = (if migrated \<and> td_ControllerID d2 = [] then d2\<lparr>td_ControllerID := td_OwnerAgentID d2\<rparr> else d2);
          d4 = (if td_Revision d3 < 1 then d3\<lparr>td_Revision := 1\<rparr> else d3)
      in if td_CreatedBy d4 = [] then d4\<lparr>td_CreatedBy := td_OwnerAgentID d4\<rparr> else d4)"

fun load_items :: "bool \<Rightarrow> trigger_def list \<Rightarrow> (string, trigger_def) gomap \<Rightarrow> trigger_error + (string, trigger_def) gomap" where
  "load_items migrated [] m = Inr m"
| "load_items migrated (d0 # ds) m =
     (let d = migrate_def migrated d0
      in if td_Enabled d \<and> td_NextFireAt d = None then Inl (ErrEnabledWithoutNext (td_TriggerID d))
         else load_items migrated ds (AList.update (td_TriggerID d) d m))"

text \<open>What can fail while a store is opened: reading the file, writing the backup of an old version, and the two saves.\<close>

record open_io =
  io_read :: bool
  io_backup :: bool
  io_migrate :: bool
  io_recover :: bool

definition load :: "open_io \<Rightarrow> trigger_store \<Rightarrow> trigger_error option \<times> trigger_store" where
  "load io s =
     (case st_file s of
        None \<Rightarrow> (None, s)
      | Some f \<Rightarrow>
          if \<not> io_read io then (Some ErrPersist, s)
          else if sf_SchemaVersion f > 2 then (Some (ErrSchemaVersion (sf_SchemaVersion f)), s)
          else let migrated = sf_SchemaVersion f < 2
               in if migrated \<and> \<not> io_backup io then (Some ErrPersist, s)
                  else case load_items migrated (sf_Triggers f) [] of
                         Inl e \<Rightarrow> (Some e, s)
                       | Inr m \<Rightarrow>
                           (let s1 = s\<lparr>st_triggers := m, st_history := sf_History f\<rparr>
                            in if migrated then saveLocked (io_migrate io) s1 else (None, s1)))"

definition recover_def :: "trigger_def \<Rightarrow> trigger_def" where
  "recover_def d =
     (if td_PendingDeliveryID d \<noteq> None \<and> td_PendingDeliveryID d \<noteq> Some [] \<and> \<not> td_RecoveryRequired d
      then d\<lparr>td_Enabled := False, td_RecoveryRequired := True, td_RecoveryReason := ''pending delivery requires recovery after restart''\<rparr>
      else d)"

definition OpenStore :: "open_io \<Rightarrow> store_file option \<Rightarrow> int \<Rightarrow> trigger_error + trigger_store" where
  "OpenStore io file historyLimit =
     (case load io \<lparr>st_historyLimit = (if historyLimit \<le> 0 then 200 else nat historyLimit), st_triggers = [], st_history = [],
                    st_pending = {}, st_file = file\<rparr> of
        (Some e, _) \<Rightarrow> Inl e
      | (None, s) \<Rightarrow>
          (let s1 = s\<lparr>st_triggers := map_values recover_def (st_triggers s)\<rparr>
           in if \<exists>(i, d) \<in> set (st_triggers s). recover_def d \<noteq> d then
                (case saveLocked (io_recover io) s1 of (Some e, _) \<Rightarrow> Inl e | (None, s2) \<Rightarrow> Inr s2)
              else Inr s1))"

section \<open>Delivery marks\<close>

definition HasPendingDelivery :: "string \<Rightarrow> trigger_store \<Rightarrow> bool" where
  "HasPendingDelivery i s \<longleftrightarrow> i \<noteq> [] \<and> i \<in> st_pending s"

definition MarkPendingDelivery :: "string \<Rightarrow> trigger_store \<Rightarrow> trigger_store" where
  "MarkPendingDelivery i s = (if i = [] then s else s\<lparr>st_pending := insert i (st_pending s)\<rparr>)"

definition clear_mark :: "string \<Rightarrow> trigger_store \<Rightarrow> trigger_store" where
  "clear_mark i s = (if i = [] then s else s\<lparr>st_pending := st_pending s - {i}\<rparr>)"

section \<open>Creating, reading, updating, deleting\<close>

definition ValidSessionTargetMode :: "session_target_mode \<Rightarrow> bool" where
  "ValidSessionTargetMode m = (case m of SessionTargetOther _ \<Rightarrow> False | _ \<Rightarrow> True)"

definition mode_text :: "session_target_mode \<Rightarrow> string" where
  "mode_text m =
     (case m of SessionTargetUnset \<Rightarrow> [] | SessionTargetFixed \<Rightarrow> ''fixed'' | SessionTargetNewSession \<Rightarrow> ''new_session''
      | SessionTargetLatestActive \<Rightarrow> ''latest_active'' | SessionTargetOther t \<Rightarrow> t)"

definition NewDefinitionFromCreate :: "sched_env \<Rightarrow> string \<Rightarrow> create_input \<Rightarrow> string \<Rightarrow> gotime \<Rightarrow> trigger_error + trigger_def" where
  "NewDefinitionFromCreate env uuid inp agentID now =
     (case EnsureScheduleCondition (se_sprint env) (ci_Condition inp) of
        Inl e \<Rightarrow> Inl e
      | Inr _ \<Rightarrow>
          (let current = timeToUnixFloat now;
               targetAgent0 = trim_space (ci_TargetAgentID inp);
               targetAgent = (if targetAgent0 = [] then trim_space agentID else targetAgent0);
               mode = (if ci_SessionTargetMode inp = SessionTargetUnset then SessionTargetFixed else ci_SessionTargetMode inp)
           in if targetAgent = [] then Inl ErrTargetRequired
              else if \<not> ValidSessionTargetMode mode then Inl (ErrSessionMode (mode_text mode))
              else Inr (WithNextFire env
                \<lparr>td_TriggerID = uuid, td_Name = ci_Name inp, td_Condition = ci_Condition inp, td_TargetAgentID = targetAgent,
                 td_TargetSessionID = ci_TargetSessionID inp, td_SessionTargetMode = mode, td_ClientID = ci_ClientID inp,
                 td_TaskTemplate = ci_TaskTemplate inp, td_Enabled = (case ci_Enabled inp of None \<Rightarrow> True | Some b \<Rightarrow> b),
                 td_FireCount = 0, td_LastFiredAt = None, td_NextFireAt = None, td_CreatedAt = current, td_UpdatedAt = current,
                 td_PendingDeliveryID = None, td_PendingSessionID = None, td_PendingOccurrence = None, td_PendingConditionReason = [],
                 td_PendingConditionContent = [], td_PendingConditionPayload = [], td_PendingConditionApproved = False,
                 td_RecoveryRequired = False, td_RecoveryReason = [], td_OwnerAgentID = targetAgent, td_Controller = ''user'',
                 td_ControllerID = targetAgent, td_Revision = 1, td_CreatedBy = ''user''\<rparr> now)))"

definition canOwn :: "principal \<Rightarrow> trigger_def \<Rightarrow> bool" where
  "canOwn p d \<longleftrightarrow>
     pr_Kind p = ''admin'' \<or>
     pr_Kind p = ''agent'' \<and> trim_space (pr_AgentID p) \<noteq> [] \<and> trim_space (td_OwnerAgentID d) = trim_space (pr_AgentID p)"

definition CreateTrigger :: "bool \<Rightarrow> trigger_def \<Rightarrow> trigger_store \<Rightarrow> (trigger_error + trigger_def) \<times> trigger_store" where
  "CreateTrigger ok d s =
     (if map_of (st_triggers s) (td_TriggerID d) \<noteq> None then (Inl (ErrExists (td_TriggerID d)), s)
      else case saveLocked ok (put_trigger (td_TriggerID d) d s) of
             (Some e, s1) \<Rightarrow> (Inl e, s1)
           | (None, s1) \<Rightarrow> (Inr d, s1))"

definition CreateAuthorized ::
  "sched_env \<Rightarrow> bool \<Rightarrow> string \<Rightarrow> principal \<Rightarrow> create_input \<Rightarrow> gotime \<Rightarrow> trigger_store \<Rightarrow> (trigger_error + trigger_def) \<times> trigger_store" where
  "CreateAuthorized env ok uuid p inp0 now s =
     (let inp = (if pr_Kind p = ''agent'' \<and> trim_space (ci_TargetAgentID inp0) = [] then inp0\<lparr>ci_TargetAgentID := pr_AgentID p\<rparr> else inp0)
      in if pr_Kind p \<noteq> ''admin'' \<and> pr_Kind p \<noteq> ''agent'' then (Inl ErrNotFound, s)
         else if pr_Kind p = ''agent'' \<and> trim_space (ci_TargetAgentID inp) \<noteq> trim_space (pr_AgentID p) then (Inl ErrNotFound, s)
         else case NewDefinitionFromCreate env uuid inp (ci_TargetAgentID inp) now of
                Inl e \<Rightarrow> (Inl e, s)
              | Inr d \<Rightarrow>
                  (let owner = trim_space (ci_TargetAgentID inp);
                       by0 = trim_space (pr_ID p);
                       by1 = (if by0 = [] then trim_space (pr_AgentID p) else by0)
                   in CreateTrigger ok (d\<lparr>td_OwnerAgentID := owner, td_Controller := ''user'', td_ControllerID := owner, td_CreatedBy := by1\<rparr>) s))"

definition ListTriggers :: "trigger_store \<Rightarrow> trigger_def list" where
  "ListTriggers s = sort_key created_order (map snd (st_triggers s))"

definition ListAuthorized :: "principal \<Rightarrow> trigger_store \<Rightarrow> trigger_def list" where
  "ListAuthorized p s = sort_key created_order (filter (\<lambda>d. pr_Kind p = ''admin'' \<or> canOwn p d) (map snd (st_triggers s)))"

definition ListEnabledTriggers :: "trigger_store \<Rightarrow> trigger_def list" where
  "ListEnabledTriggers s = filter td_Enabled (map snd (st_triggers s))"

definition GetTrigger :: "string \<Rightarrow> trigger_store \<Rightarrow> trigger_def option" where
  "GetTrigger i s = map_of (st_triggers s) i"

definition GetAuthorized :: "principal \<Rightarrow> string \<Rightarrow> trigger_store \<Rightarrow> trigger_error + trigger_def" where
  "GetAuthorized p i s =
     (case map_of (st_triggers s) i of
        None \<Rightarrow> Inl ErrNotFound
      | Some d \<Rightarrow> if pr_Kind p \<noteq> ''admin'' \<and> \<not> canOwn p d then Inl ErrNotFound else Inr d)"

definition patch_plain :: "update_patch \<Rightarrow> trigger_def \<Rightarrow> trigger_def" where
  "patch_plain up d =
     d\<lparr>td_Name := (case up_Name up of None \<Rightarrow> td_Name d | Some x \<Rightarrow> x),
       td_TaskTemplate := (case up_TaskTemplate up of None \<Rightarrow> td_TaskTemplate d | Some x \<Rightarrow> x),
       td_Condition := (case up_Condition up of None \<Rightarrow> td_Condition d | Some x \<Rightarrow> x),
       td_TargetSessionID := (case up_TargetSessionID up of None \<Rightarrow> td_TargetSessionID d | Some x \<Rightarrow> Some x),
       td_ClientID := (case up_ClientID up of None \<Rightarrow> td_ClientID d | Some x \<Rightarrow> Some x)\<rparr>"

text \<open>\<open>trimmed\<close> is what the two callers do with a new target agent: one trims it.\<close>

definition patch_def :: "sched_env \<Rightarrow> (string \<Rightarrow> string) \<Rightarrow> update_patch \<Rightarrow> trigger_def \<Rightarrow> trigger_error + trigger_def" where
  "patch_def env trimmed up d =
     (case (case up_Condition up of None \<Rightarrow> Inr ScheduleManual | Some c \<Rightarrow> EnsureScheduleCondition (se_sprint env) c) of
        Inl e \<Rightarrow> Inl e
      | Inr _ \<Rightarrow>
          if up_Enabled up = Some True \<and> td_RecoveryRequired d then Inl ErrNeedsRecovery
          else (case up_SessionTargetMode up of
                  Some m \<Rightarrow> if \<not> ValidSessionTargetMode m then Inl (ErrSessionMode (mode_text m))
                    else Inr ((patch_plain up d)\<lparr>td_TargetAgentID := (case up_TargetAgentID up of None \<Rightarrow> td_TargetAgentID d | Some x \<Rightarrow> trimmed x),
                           td_Enabled := (case up_Enabled up of None \<Rightarrow> td_Enabled d | Some b \<Rightarrow> b), td_SessionTargetMode := m\<rparr>)
                | None \<Rightarrow>
                    Inr ((patch_plain up d)\<lparr>td_TargetAgentID := (case up_TargetAgentID up of None \<Rightarrow> td_TargetAgentID d | Some x \<Rightarrow> trimmed x),
                           td_Enabled := (case up_Enabled up of None \<Rightarrow> td_Enabled d | Some b \<Rightarrow> b)\<rparr>)))"

definition applyUpdatePatch :: "sched_env \<Rightarrow> update_patch \<Rightarrow> trigger_def \<Rightarrow> trigger_error + trigger_def" where
  "applyUpdatePatch env up d = patch_def env trim_space up d"

definition UpdateAuthorized ::
  "sched_env \<Rightarrow> bool \<Rightarrow> principal \<Rightarrow> string \<Rightarrow> int \<Rightarrow> update_patch \<Rightarrow> gotime \<Rightarrow> trigger_store \<Rightarrow> (trigger_error + trigger_def) \<times> trigger_store" where
  "UpdateAuthorized env ok p i expected up now s =
     (case map_of (st_triggers s) i of
        None \<Rightarrow> (Inl ErrNotFound, s)
      | Some cur \<Rightarrow>
          if \<not> canOwn p cur \<or> td_Controller cur \<noteq> ''user'' then (Inl ErrNotFound, s)
          else if expected > 0 \<and> td_Revision cur \<noteq> expected then (Inl ErrRevisionConflict, s)
          else if pr_Kind p = ''agent'' \<and> (case up_TargetAgentID up of None \<Rightarrow> False | Some t \<Rightarrow> trim_space t \<noteq> trim_space (td_TargetAgentID cur))
          then (Inl ErrNotFound, s)
          else if pr_Kind p = ''agent'' \<and> trim_space (td_TargetAgentID cur) \<noteq> trim_space (td_OwnerAgentID cur) then (Inl ErrNotFound, s)
          else (case applyUpdatePatch env up cur of
                  Inl e \<Rightarrow> (Inl e, s)
                | Inr d1 \<Rightarrow>
                    (let d = WithNextFire env (d1\<lparr>td_Revision := td_Revision d1 + 1\<rparr>) now
                     in case replace_saved ok i cur d s of
                          (Some e, s1) \<Rightarrow> (Inl e, s1)
                        | (None, s1) \<Rightarrow> (Inr d, s1))))"

definition UpdateTrigger ::
  "sched_env \<Rightarrow> bool \<Rightarrow> string \<Rightarrow> update_patch \<Rightarrow> gotime \<Rightarrow> trigger_store \<Rightarrow> (trigger_error + trigger_def) \<times> trigger_store" where
  "UpdateTrigger env ok i up now s =
     (case map_of (st_triggers s) i of
        None \<Rightarrow> (Inl ErrNotFound, s)
      | Some cur \<Rightarrow>
          if td_Controller cur = ''auto'' then (Inl ErrAutoManaged, s)
          else (case patch_def env (\<lambda>x. x) up cur of
                  Inl e \<Rightarrow> (Inl e, s)
                | Inr d1 \<Rightarrow>
                    (let d = WithNextFire env (d1\<lparr>td_Revision := (if td_Revision d1 < 1 then 1 else td_Revision d1) + 1\<rparr>) now
                     in case saveLocked ok (put_trigger i d s) of
                          (Some e, s1) \<Rightarrow> (Inl e, s1)
                        | (None, s1) \<Rightarrow> (Inr d, s1))))"

definition DeleteAuthorized :: "bool \<Rightarrow> principal \<Rightarrow> string \<Rightarrow> int \<Rightarrow> trigger_store \<Rightarrow> trigger_error option \<times> trigger_store" where
  "DeleteAuthorized ok p i expected s =
     (case map_of (st_triggers s) i of
        None \<Rightarrow> (Some ErrNotFound, s)
      | Some d \<Rightarrow>
          if \<not> canOwn p d \<or> td_Controller d \<noteq> ''user'' then (Some ErrNotFound, s)
          else if pr_Kind p = ''agent'' \<and> trim_space (td_TargetAgentID d) \<noteq> trim_space (td_OwnerAgentID d) then (Some ErrNotFound, s)
          else if expected > 0 \<and> td_Revision d \<noteq> expected then (Some ErrRevisionConflict, s)
          else case saveLocked ok (s\<lparr>st_triggers := AList.delete i (st_triggers s)\<rparr>) of
                 (None, s1) \<Rightarrow> (None, s1)
               | (Some e, s1) \<Rightarrow> (Some e, put_trigger i d s1))"

definition DeleteTrigger :: "bool \<Rightarrow> string \<Rightarrow> trigger_store \<Rightarrow> bool \<times> trigger_store" where
  "DeleteTrigger ok i s =
     (case map_of (st_triggers s) i of
        None \<Rightarrow> (False, s)
      | Some d \<Rightarrow>
          if td_Controller d = ''auto'' then (False, s)
          else (True, snd (saveLocked ok (s\<lparr>st_triggers := AList.delete i (st_triggers s)\<rparr>))))"

definition ReplaceTrigger :: "bool \<Rightarrow> trigger_def \<Rightarrow> trigger_store \<Rightarrow> trigger_error option \<times> trigger_store" where
  "ReplaceTrigger ok d s =
     (if map_of (st_triggers s) (td_TriggerID d) = None then (Some ErrNotFound, s)
      else saveLocked ok (put_trigger (td_TriggerID d) d s))"

definition UpdateNextFireAt :: "bool \<Rightarrow> string \<Rightarrow> f64 option \<Rightarrow> gotime \<Rightarrow> trigger_store \<Rightarrow> trigger_error option \<times> trigger_store" where
  "UpdateNextFireAt ok i fireAt now s =
     (case map_of (st_triggers s) i of
        None \<Rightarrow> (Some ErrNotFound, s)
      | Some d \<Rightarrow> replace_saved ok i d (d\<lparr>td_NextFireAt := fireAt, td_UpdatedAt := timeToUnixFloat now\<rparr>) s)"

definition MarkFired :: "sched_env \<Rightarrow> bool \<Rightarrow> string \<Rightarrow> gotime \<Rightarrow> trigger_store \<Rightarrow> (trigger_error + trigger_def) \<times> trigger_store" where
  "MarkFired env ok i firedAt s =
     (case map_of (st_triggers s) i of
        None \<Rightarrow> (Inl ErrNotFound, s)
      | Some d \<Rightarrow>
          (let d1 = d\<lparr>td_FireCount := td_FireCount d + 1, td_LastFiredAt := Some (timeToUnixFloat firedAt)\<rparr>;
               d2 = (if InferScheduleKind (td_Condition d1) = Inr ScheduleOnce then d1\<lparr>td_Enabled := False\<rparr> else d1);
               updated = WithNextFire env d2 firedAt
           in case saveLocked ok (put_trigger i updated s) of
                (Some e, s1) \<Rightarrow> (Inl e, s1)
              | (None, s1) \<Rightarrow> (Inr updated, s1)))"

definition owner_problem :: "(string \<Rightarrow> bool) \<Rightarrow> trigger_def \<Rightarrow> string" where
  "owner_problem validAgents d =
     (let r1 = (if trim_space (td_OwnerAgentID d) = [] \<or> \<not> validAgents (trim_space (td_OwnerAgentID d)) then ''trigger owner is unavailable'' else []);
          r2 = (if r1 = [] \<and> (trim_space (td_TargetAgentID d) = [] \<or> \<not> validAgents (trim_space (td_TargetAgentID d)))
                then ''trigger target agent is unavailable'' else r1);
          r3 = (if td_Controller d \<noteq> ''user'' \<and> td_Controller d \<noteq> ''auto'' then ''trigger controller is invalid'' else r2)
      in if r3 = [] \<and> td_Controller d = ''auto'' \<and>
            (trim_space (td_ControllerID d) = [] \<or> td_ControllerID d \<noteq> td_OwnerAgentID d \<or> td_TargetAgentID d \<noteq> td_OwnerAgentID d \<or>
             td_TargetSessionID d \<noteq> Some (td_OwnerAgentID d) \<or> td_SessionTargetMode d \<noteq> SessionTargetFixed)
         then ''auto controller association is invalid'' else r3)"

definition disable_unowned :: "(string \<Rightarrow> bool) \<Rightarrow> trigger_def \<Rightarrow> trigger_def" where
  "disable_unowned validAgents d =
     (if owner_problem validAgents d \<noteq> []
      then d\<lparr>td_Enabled := False, td_RecoveryRequired := True, td_RecoveryReason := owner_problem validAgents d\<rparr> else d)"

definition ValidateOwners :: "bool \<Rightarrow> (string \<Rightarrow> bool) \<Rightarrow> trigger_store \<Rightarrow> trigger_error option \<times> trigger_store" where
  "ValidateOwners ok validAgents s =
     (if \<exists>(i, d) \<in> set (st_triggers s). owner_problem validAgents d \<noteq> [] then
        (case saveLocked ok (s\<lparr>st_triggers := map_values (disable_unowned validAgents) (st_triggers s)\<rparr>) of
           (None, s1) \<Rightarrow> (None, s1)
         | (Some e, s1) \<Rightarrow> (Some e, s1\<lparr>st_triggers := st_triggers s\<rparr>))
      else (None, s))"

section \<open>Deliveries\<close>

definition no_claim :: "trigger_def \<Rightarrow> trigger_def" where
  "no_claim d = d\<lparr>td_PendingDeliveryID := None, td_PendingSessionID := None, td_PendingOccurrence := None,
     td_PendingConditionReason := [], td_PendingConditionContent := [], td_PendingConditionPayload := []\<rparr>"

text \<open>The claim: \<open>dir\<close> says whether the directory of the file can be read, \<open>now\<close> is the time at which a reserved occurrence is moved on.\<close>

definition claimDeliveryLocked ::
  "sched_env \<Rightarrow> bool \<Rightarrow> bool \<Rightarrow> string \<Rightarrow> string \<Rightarrow> string \<Rightarrow> f64 option \<Rightarrow> gotime \<Rightarrow> trigger_store \<Rightarrow> trigger_error option \<times> trigger_store" where
  "claimDeliveryLocked env dir ok i delivery0 session0 occurrence now s =
     (if \<not> dir then (Some ErrStoreUnavailable, s)
      else case map_of (st_triggers s) i of
             None \<Rightarrow> (Some ErrNotFound, s)
           | Some d \<Rightarrow>
               if td_PendingDeliveryID d \<noteq> None \<and> td_PendingDeliveryID d \<noteq> Some [] then (Some ErrClaimPending, s)
               else if occurrence \<noteq> None \<and> td_NextFireAt d \<noteq> occurrence then (Some ErrStaleOccurrence, s)
               else let delivery = trim_space delivery0; session = trim_space session0
                    in if delivery = [] \<or> session = [] then (Some ErrIdentityRequired, s)
                       else replace_saved ok i d
                              ((if occurrence \<noteq> None then WithNextFire env d now else d)
                               \<lparr>td_PendingDeliveryID := Some delivery, td_PendingSessionID := Some session, td_PendingOccurrence := occurrence\<rparr>) s)"

definition ClaimDeliveryForOccurrence where
  "ClaimDeliveryForOccurrence env dir ok i delivery session occurrence now s = claimDeliveryLocked env dir ok i delivery session occurrence now s"

definition ClaimDelivery where
  "ClaimDelivery env dir ok i delivery session now s = claimDeliveryLocked env dir ok i delivery session None now s"

definition ClaimDeliveryForOccurrenceRevision ::
  "sched_env \<Rightarrow> bool \<Rightarrow> bool \<Rightarrow> string \<Rightarrow> int \<Rightarrow> string \<Rightarrow> string \<Rightarrow> f64 option \<Rightarrow> gotime \<Rightarrow> trigger_store \<Rightarrow> trigger_error option \<times> trigger_store" where
  "ClaimDeliveryForOccurrenceRevision env dir ok i revision delivery session occurrence now s =
     (case map_of (st_triggers s) i of
        None \<Rightarrow> (Some ErrNotFound, s)
      | Some d \<Rightarrow>
          if td_Revision d \<noteq> revision then (Some ErrRevisionConflict, s)
          else claimDeliveryLocked env dir ok i delivery session occurrence now s)"

definition ClaimAuthorized ::
  "sched_env \<Rightarrow> bool \<Rightarrow> bool \<Rightarrow> principal \<Rightarrow> string \<Rightarrow> int \<Rightarrow> string \<Rightarrow> string \<Rightarrow> f64 option \<Rightarrow> gotime \<Rightarrow> trigger_store \<Rightarrow>
   trigger_error option \<times> trigger_store" where
  "ClaimAuthorized env dir ok p i expected delivery session occurrence now s =
     (case map_of (st_triggers s) i of
        None \<Rightarrow> (Some ErrNotFound, s)
      | Some d \<Rightarrow>
          if \<not> canOwn p d \<or> td_Controller d \<noteq> ''user'' then (Some ErrNotFound, s)
          else if pr_Kind p = ''agent'' \<and> trim_space (td_TargetAgentID d) \<noteq> trim_space (td_OwnerAgentID d) then (Some ErrNotFound, s)
          else if expected > 0 \<and> td_Revision d \<noteq> expected then (Some ErrRevisionConflict, s)
          else claimDeliveryLocked env dir ok i delivery session occurrence now s)"

definition clearPendingDeliveryIfMatch :: "bool \<Rightarrow> string \<Rightarrow> string \<Rightarrow> trigger_store \<Rightarrow> trigger_error option \<times> trigger_store" where
  "clearPendingDeliveryIfMatch ok i delivery s =
     (case map_of (st_triggers s) i of
        None \<Rightarrow> (None, s)
      | Some d \<Rightarrow>
          if td_PendingDeliveryID d \<noteq> Some (trim_space delivery) then (None, s)
          else case replace_saved ok i d ((no_claim d)\<lparr>td_PendingConditionApproved := False\<rparr>) s of
                 (None, s1) \<Rightarrow> (None, clear_mark i s1)
               | (Some e, s1) \<Rightarrow> (Some e, s1))"

definition ClearPendingDelivery :: "bool \<Rightarrow> string \<Rightarrow> trigger_store \<Rightarrow> trigger_store" where
  "ClearPendingDelivery ok i s =
     (case map_of (st_triggers s) i of
        Some d \<Rightarrow>
          if td_PendingDeliveryID d \<noteq> None then
            (case replace_saved ok i d ((no_claim d)\<lparr>td_PendingConditionApproved := False\<rparr>) s of
               (None, s1) \<Rightarrow> clear_mark i s1
             | (Some e, s1) \<Rightarrow> s1)
          else clear_mark i s
      | None \<Rightarrow> clear_mark i s)"

definition IsPendingDelivery :: "string \<Rightarrow> string \<Rightarrow> trigger_store \<Rightarrow> bool" where
  "IsPendingDelivery i delivery s =
     (case map_of (st_triggers s) i of
        None \<Rightarrow> False
      | Some d \<Rightarrow> \<not> td_RecoveryRequired d \<and>
          (case td_PendingDeliveryID d of None \<Rightarrow> False | Some x \<Rightarrow> trim_space x = trim_space delivery))"

definition IsRecoveryRequired :: "string \<Rightarrow> trigger_store \<Rightarrow> bool" where
  "IsRecoveryRequired i s = (case map_of (st_triggers s) i of None \<Rightarrow> False | Some d \<Rightarrow> td_RecoveryRequired d)"

definition MarkConditionRecovery :: "bool \<Rightarrow> string \<Rightarrow> string \<Rightarrow> string \<Rightarrow> trigger_store \<Rightarrow> trigger_error option \<times> trigger_store" where
  "MarkConditionRecovery ok i delivery reason s =
     (case map_of (st_triggers s) i of
        None \<Rightarrow> (Some ErrDeliveryStale, s)
      | Some d \<Rightarrow>
          if td_PendingDeliveryID d \<noteq> Some (trim_space delivery) then (Some ErrDeliveryStale, s)
          else replace_saved ok i d (d\<lparr>td_RecoveryRequired := True, td_Enabled := False, td_RecoveryReason := trim_space reason\<rparr>) s)"

definition keep_history :: "nat \<Rightarrow> fire_record list \<Rightarrow> fire_record list" where
  "keep_history limit h = (if length h > limit then drop (length h - limit) h else h)"

text \<open>When the save of a recovery fails, the history is put back too.\<close>

definition recoverPendingDeliveryLocked ::
  "bool \<Rightarrow> string \<Rightarrow> gotime \<Rightarrow> string \<Rightarrow> string \<Rightarrow> trigger_store \<Rightarrow> trigger_error option \<times> trigger_store" where
  "recoverPendingDeliveryLocked ok uuid now i delivery s =
     (case map_of (st_triggers s) i of
        None \<Rightarrow> (Some ErrNotFound, s)
      | Some d \<Rightarrow>
          if \<not> td_RecoveryRequired d \<or> td_PendingDeliveryID d \<noteq> Some (trim_space delivery) then (Some ErrRecoveryIdentity, s)
          else let d1 = (no_claim d)\<lparr>td_PendingConditionApproved := False, td_RecoveryRequired := False, td_RecoveryReason := [], td_Enabled := False\<rparr>;
                   r = \<lparr>fr_FireID = uuid, fr_TriggerID = i, fr_DeliveryID = trim_space delivery, fr_Status = FireStatusSkipped, fr_Reason = ''recovery'',
                        fr_SessionID = td_PendingSessionID d, fr_ClientID = None, fr_Content = [],
                        fr_Message = ''pending delivery discarded during recovery'', fr_Payload = [], fr_FiredAt = timeToUnixFloat now\<rparr>;
                   s1 = (put_trigger i d1 s)\<lparr>st_history := keep_history (st_historyLimit s) (st_history s @ [r])\<rparr>
               in case saveLocked ok s1 of
                    (None, s2) \<Rightarrow> (None, clear_mark i s2)
                  | (Some e, s2) \<Rightarrow> (Some e, (put_trigger i d s2)\<lparr>st_history := st_history s\<rparr>))"

definition RecoverPendingDelivery where
  "RecoverPendingDelivery ok uuid now i delivery s = recoverPendingDeliveryLocked ok uuid now i delivery s"

definition RecoverAuthorized ::
  "bool \<Rightarrow> string \<Rightarrow> gotime \<Rightarrow> principal \<Rightarrow> string \<Rightarrow> int \<Rightarrow> string \<Rightarrow> trigger_store \<Rightarrow> trigger_error option \<times> trigger_store" where
  "RecoverAuthorized ok uuid now p i expected delivery s =
     (case map_of (st_triggers s) i of
        None \<Rightarrow> (Some ErrNotFound, s)
      | Some d \<Rightarrow>
          if \<not> canOwn p d \<or> pr_Kind p = ''agent'' \<and> td_Controller d \<noteq> ''user'' then (Some ErrNotFound, s)
          else if expected > 0 \<and> td_Revision d \<noteq> expected then (Some ErrRevisionConflict, s)
          else if td_Controller d \<noteq> ''user'' \<and> td_Controller d \<noteq> ''auto'' then (Some ErrControllerRetired, s)
          else recoverPendingDeliveryLocked ok uuid now i delivery s)"

section \<open>Conditions of deliveries\<close>

definition completion_matches :: "condition_completion \<Rightarrow> trigger_def \<Rightarrow> bool" where
  "completion_matches req d \<longleftrightarrow>
     \<not> td_RecoveryRequired d \<and> td_Enabled d \<and> trim_space (td_PendingConditionReason d) \<noteq> [] \<and>
     (case td_PendingDeliveryID d of None \<Rightarrow> False | Some x \<Rightarrow> trim_space x = trim_space (cc_DeliveryID req)) \<and>
     (case td_PendingSessionID d of None \<Rightarrow> False | Some x \<Rightarrow> trim_space x = trim_space (cc_SessionID req)) \<and>
     trim_space (td_TargetAgentID d) = trim_space (cc_AgentID req) \<and> td_Revision d = cc_Revision req \<and>
     td_PendingOccurrence d = cc_Occurrence req"

definition BeginConditionCompletion :: "bool \<Rightarrow> condition_completion \<Rightarrow> trigger_store \<Rightarrow> (trigger_error + trigger_def \<times> bool) \<times> trigger_store" where
  "BeginConditionCompletion ok req s =
     (case map_of (st_triggers s) (trim_space (cc_TriggerID req)) of
        None \<Rightarrow> (Inl ErrCompletionConflict, s)
      | Some d \<Rightarrow>
          if \<not> completion_matches req d then (Inl ErrCompletionConflict, s)
          else if td_PendingConditionApproved d then (Inr (d, False), s)
          else let d1 = (if \<not> cc_Matched req then no_claim d else d\<lparr>td_PendingConditionApproved := True\<rparr>)
               in case replace_saved ok (td_TriggerID d) d d1 s of
                    (Some e, s1) \<Rightarrow> (Inl e, s1)
                  | (None, s1) \<Rightarrow>
                      if \<not> cc_Matched req then (Inr (d, True), clear_mark (td_TriggerID d) s1) else (Inr (d1, True), s1))"

definition ResetConditionCompletion :: "bool \<Rightarrow> string \<Rightarrow> string \<Rightarrow> trigger_store \<Rightarrow> trigger_error option \<times> trigger_store" where
  "ResetConditionCompletion ok i delivery s =
     (case map_of (st_triggers s) i of
        None \<Rightarrow> (Some ErrCompletionConflict, s)
      | Some d \<Rightarrow>
          if td_PendingDeliveryID d \<noteq> Some (trim_space delivery) then (Some ErrCompletionConflict, s)
          else replace_saved ok i d (d\<lparr>td_PendingConditionApproved := False\<rparr>) s)"

definition SetPendingCondition ::
  "bool \<Rightarrow> string \<Rightarrow> string \<Rightarrow> string \<Rightarrow> string \<Rightarrow> (string, go_any) gomap \<Rightarrow> trigger_store \<Rightarrow> trigger_error option \<times> trigger_store" where
  "SetPendingCondition ok i delivery reason content payload s =
     (case map_of (st_triggers s) i of
        None \<Rightarrow> (Some ErrCompletionConflict, s)
      | Some d \<Rightarrow>
          (case td_PendingDeliveryID d of
             None \<Rightarrow> (Some ErrCompletionConflict, s)
           | Some x \<Rightarrow>
               if trim_space x \<noteq> trim_space delivery then (Some ErrCompletionConflict, s)
               else replace_saved ok i d (d\<lparr>td_PendingConditionReason := reason, td_PendingConditionContent := content,
                                            td_PendingConditionPayload := payload\<rparr>) s))"

definition ValidateConditionIdentity :: "trigger_def \<Rightarrow> string \<Rightarrow> string \<Rightarrow> string \<Rightarrow> int \<Rightarrow> f64 option \<Rightarrow> string option" where
  "ValidateConditionIdentity d agentID sessionID deliveryID revision occurrence =
     (if \<not> td_Enabled d \<or> td_RecoveryRequired d then Some ''condition trigger is disabled or recovering''
      else if td_TargetAgentID d \<noteq> agentID \<or> td_OwnerAgentID d \<noteq> agentID then Some ''condition trigger owner changed''
      else if td_Revision d \<noteq> revision then Some ''condition trigger identity changed''
      else if td_PendingDeliveryID d \<noteq> Some deliveryID then Some ''condition delivery is stale''
      else if td_PendingSessionID d \<noteq> Some sessionID then Some ''condition session is stale''
      else if td_PendingOccurrence d \<noteq> occurrence then Some ''condition occurrence is stale''
      else None)"

section \<open>History\<close>

definition AddHistory :: "bool \<Rightarrow> fire_record \<Rightarrow> trigger_store \<Rightarrow> fire_record \<times> trigger_store" where
  "AddHistory ok r s = (r, snd (saveLocked ok (s\<lparr>st_history := keep_history (st_historyLimit s) (st_history s @ [r])\<rparr>)))"

definition ListHistory :: "string \<Rightarrow> trigger_store \<Rightarrow> fire_record list" where
  "ListHistory i s = sort_key (\<lambda>r. - fr_FiredAt r) (filter (\<lambda>r. i = [] \<or> fr_TriggerID r = i) (st_history s))"

definition HistoryAuthorized :: "principal \<Rightarrow> string \<Rightarrow> trigger_store \<Rightarrow> trigger_error + fire_record list" where
  "HistoryAuthorized p i s =
     (case map_of (st_triggers s) i of
        None \<Rightarrow> Inl ErrNotFound
      | Some d \<Rightarrow>
          if \<not> canOwn p d then Inl ErrNotFound
          else Inr (sort_key (\<lambda>r. - fr_FiredAt r) (filter (\<lambda>r. fr_TriggerID r = i) (st_history s))))"

section \<open>The default trigger of an agent\<close>

text \<open>The texts of the default trigger, in UTF-8, are parameters.\<close>

record auto_texts =
  at_name :: string
  at_template :: string

definition AutoDefaultTriggerID :: "string \<Rightarrow> string" where
  "AutoDefaultTriggerID agentID = ''auto-default:'' @ trim_space agentID"

definition sameAutoDefaultConfig :: "auto_texts \<Rightarrow> trigger_def \<Rightarrow> string \<Rightarrow> int \<Rightarrow> bool" where
  "sameAutoDefaultConfig tx d agentID intervalSeconds =
     (if td_Controller d \<noteq> ''auto'' \<or> td_ControllerID d \<noteq> agentID \<or> td_OwnerAgentID d \<noteq> agentID \<or> td_TargetAgentID d \<noteq> agentID \<or>
         td_TargetSessionID d \<noteq> Some agentID \<or> td_SessionTargetMode d \<noteq> SessionTargetFixed \<or> td_TaskTemplate d \<noteq> at_template tx \<or>
         td_Name d \<noteq> at_name tx then False
      else if intervalSeconds = 0 then
        \<not> td_Enabled d \<and> td_NextFireAt d = None \<and> intFromAny (cond_get (td_Condition d) ''interval_seconds'') > 0 \<and>
        td_PendingDeliveryID d = None \<and> td_PendingSessionID d = None
      else td_Enabled d \<and> \<not> td_RecoveryRequired d \<and> td_NextFireAt d \<noteq> None \<and> length (td_Condition d) = 1 \<and>
        intFromAny (cond_get (td_Condition d) ''interval_seconds'') = intervalSeconds)"

definition new_auto :: "auto_texts \<Rightarrow> string \<Rightarrow> gotime \<Rightarrow> trigger_def" where
  "new_auto tx agentID now =
     \<lparr>td_TriggerID = AutoDefaultTriggerID agentID, td_Name = at_name tx, td_Condition = [], td_TargetAgentID = agentID,
      td_TargetSessionID = Some agentID, td_SessionTargetMode = SessionTargetFixed, td_ClientID = None, td_TaskTemplate = at_template tx,
      td_Enabled = False, td_FireCount = 0, td_LastFiredAt = None, td_NextFireAt = None, td_CreatedAt = timeToUnixFloat now, td_UpdatedAt = 0,
      td_PendingDeliveryID = None, td_PendingSessionID = None, td_PendingOccurrence = None, td_PendingConditionReason = [],
      td_PendingConditionContent = [], td_PendingConditionPayload = [], td_PendingConditionApproved = False, td_RecoveryRequired = False,
      td_RecoveryReason = [], td_OwnerAgentID = agentID, td_Controller = ''auto'', td_ControllerID = agentID, td_Revision = 1,
      td_CreatedBy = ''system''\<rparr>"

definition auto_config :: "sched_env \<Rightarrow> auto_texts \<Rightarrow> string \<Rightarrow> int \<Rightarrow> gotime \<Rightarrow> trigger_def \<Rightarrow> trigger_def" where
  "auto_config env tx agentID intervalSeconds now d0 =
     (let d = d0\<lparr>td_Name := at_name tx, td_TargetAgentID := agentID, td_TargetSessionID := Some agentID, td_SessionTargetMode := SessionTargetFixed,
           td_TaskTemplate := at_template tx, td_OwnerAgentID := agentID, td_Controller := ''auto'', td_ControllerID := agentID,
           td_CreatedBy := ''system'',
           td_Condition := (if intervalSeconds \<noteq> 0 then [(''interval_seconds'', AnyNumber (of_int intervalSeconds))]
                            else if intFromAny (cond_get (td_Condition d0) ''interval_seconds'') \<le> 0
                            then [(''interval_seconds'', AnyNumber 1800)] else td_Condition d0),
           td_RecoveryRequired := False, td_RecoveryReason := []\<rparr>
      in if intervalSeconds = 0
         then d\<lparr>td_Enabled := False, td_NextFireAt := None, td_PendingDeliveryID := None, td_PendingSessionID := None,
                td_UpdatedAt := timeToUnixFloat now\<rparr>
         else WithNextFire env (d\<lparr>td_Enabled := True\<rparr>) now)"

definition EnsureAutoDefault ::
  "sched_env \<Rightarrow> auto_texts \<Rightarrow> bool \<Rightarrow> string \<Rightarrow> int \<Rightarrow> gotime \<Rightarrow> trigger_store \<Rightarrow> (trigger_error + trigger_def) \<times> trigger_store" where
  "EnsureAutoDefault env tx ok agent0 intervalSeconds now s =
     (let agentID = trim_space agent0; i = AutoDefaultTriggerID agentID; existing = map_of (st_triggers s) i
      in if agentID = [] then (Inl ErrAgentRequired, s)
         else if intervalSeconds < 0 \<or> intervalSeconds > 31536000 then (Inl ErrAutoInterval, s)
         else if now = 0 then (Inl ErrNowRequired, s)
         else if (case existing of None \<Rightarrow> False
                  | Some d \<Rightarrow> td_Controller d \<noteq> ''auto'' \<or> td_ControllerID d \<noteq> agentID \<or> td_OwnerAgentID d \<noteq> agentID \<or> td_TargetAgentID d \<noteq> agentID)
         then (Inl ErrAutoCollision, s)
         else if (case existing of None \<Rightarrow> False | Some d \<Rightarrow> td_RecoveryRequired d) \<and> intervalSeconds > 0 then (Inl ErrAutoRecovery, s)
         else case existing of
                Some d0 \<Rightarrow>
                  if sameAutoDefaultConfig tx d0 agentID intervalSeconds then (Inr d0, s)
                  else (let d1 = auto_config env tx agentID intervalSeconds now d0; d = d1\<lparr>td_Revision := td_Revision d1 + 1\<rparr>
                        in case replace_saved ok i d0 d s of
                             (Some e, s1) \<Rightarrow> (Inl e, s1)
                           | (None, s1) \<Rightarrow> (Inr d, if intervalSeconds = 0 then clear_mark i s1 else s1))
              | None \<Rightarrow>
                  (let d = auto_config env tx agentID intervalSeconds now (new_auto tx agentID now)
                   in case saveLocked ok (put_trigger i d s) of
                        (Some e, s1) \<Rightarrow> (Inl e, s1\<lparr>st_triggers := AList.delete i (st_triggers s1)\<rparr>)
                      | (None, s1) \<Rightarrow> (Inr d, if intervalSeconds = 0 then clear_mark i s1 else s1)))"

section \<open>What the operations keep\<close>

lemma replace_saved_eq:
  assumes "map_of (st_triggers s) i = Some old"
  shows "replace_saved ok i old d s = (if ok then (None, saved (put_trigger i d s)) else (Some ErrPersist, s))"
  using assms by (simp add: replace_saved_def saveLocked_def put_trigger_def update_back)

section \<open>Operations and runs\<close>

datatype store_op =
    OpCreate bool string principal create_input gotime
  | OpUpdate bool principal string int update_patch gotime
  | OpDelete bool principal string int
  | OpClaim bool bool principal string int string string "f64 option" gotime
  | OpRecover bool string gotime principal string int string
  | OpClaimOccurrence bool bool string int string string "f64 option" gotime
  | OpClaimDirect bool bool string string string "f64 option" gotime
  | OpRecoverDirect bool string gotime string string
  | OpUpdateTrigger bool string update_patch gotime
  | OpDeleteTrigger bool string
  | OpMarkFired bool string gotime
  | OpMark string
  | OpClear bool string string
  | OpClearAny bool string
  | OpMarkRecovery bool string string string
  | OpComplete bool condition_completion
  | OpReset bool string string
  | OpSetCondition bool string string string string "(string, go_any) gomap"
  | OpReplace bool trigger_def
  | OpNextFireAt bool string "f64 option" gotime
  | OpAuto bool string int gotime
  | OpOwners bool "string \<Rightarrow> bool"
  | OpHistory bool fire_record
  | OpRestart open_io int

text \<open>The store after one operation. A restart reads the file the process left; one that fails is tried again.\<close>

fun run_op :: "sched_env \<Rightarrow> auto_texts \<Rightarrow> store_op \<Rightarrow> trigger_store \<Rightarrow> trigger_store" where
  "run_op env tx (OpCreate ok uuid p inp now) s = snd (CreateAuthorized env ok uuid p inp now s)"
| "run_op env tx (OpUpdate ok p i expected up now) s = snd (UpdateAuthorized env ok p i expected up now s)"
| "run_op env tx (OpDelete ok p i expected) s = snd (DeleteAuthorized ok p i expected s)"
| "run_op env tx (OpClaim dir ok p i expected delivery session occ now) s = snd (ClaimAuthorized env dir ok p i expected delivery session occ now s)"
| "run_op env tx (OpRecover ok uuid now p i expected delivery) s = snd (RecoverAuthorized ok uuid now p i expected delivery s)"
| "run_op env tx (OpClaimOccurrence dir ok i revision delivery session occ now) s =
     snd (ClaimDeliveryForOccurrenceRevision env dir ok i revision delivery session occ now s)"
| "run_op env tx (OpClaimDirect dir ok i delivery session occ now) s = snd (ClaimDeliveryForOccurrence env dir ok i delivery session occ now s)"
| "run_op env tx (OpRecoverDirect ok uuid now i delivery) s = snd (RecoverPendingDelivery ok uuid now i delivery s)"
| "run_op env tx (OpUpdateTrigger ok i up now) s = snd (UpdateTrigger env ok i up now s)"
| "run_op env tx (OpDeleteTrigger ok i) s = snd (DeleteTrigger ok i s)"
| "run_op env tx (OpMarkFired ok i now) s = snd (MarkFired env ok i now s)"
| "run_op env tx (OpMark i) s = MarkPendingDelivery i s"
| "run_op env tx (OpClear ok i delivery) s = snd (clearPendingDeliveryIfMatch ok i delivery s)"
| "run_op env tx (OpClearAny ok i) s = ClearPendingDelivery ok i s"
| "run_op env tx (OpMarkRecovery ok i delivery reason) s = snd (MarkConditionRecovery ok i delivery reason s)"
| "run_op env tx (OpComplete ok req) s = snd (BeginConditionCompletion ok req s)"
| "run_op env tx (OpReset ok i delivery) s = snd (ResetConditionCompletion ok i delivery s)"
| "run_op env tx (OpSetCondition ok i delivery reason content payload) s = snd (SetPendingCondition ok i delivery reason content payload s)"
| "run_op env tx (OpReplace ok d) s = snd (ReplaceTrigger ok d s)"
| "run_op env tx (OpNextFireAt ok i v now) s = snd (UpdateNextFireAt ok i v now s)"
| "run_op env tx (OpAuto ok agent interval now) s = snd (EnsureAutoDefault env tx ok agent interval now s)"
| "run_op env tx (OpOwners ok valid) s = snd (ValidateOwners ok valid s)"
| "run_op env tx (OpHistory ok r) s = snd (AddHistory ok r s)"
| "run_op env tx (OpRestart io limit) s = (case OpenStore io (st_file s) limit of Inl _ \<Rightarrow> s | Inr s' \<Rightarrow> s')"

definition run_ops :: "sched_env \<Rightarrow> auto_texts \<Rightarrow> store_op list \<Rightarrow> trigger_store \<Rightarrow> trigger_store" where
  "run_ops env tx ops s = fold (run_op env tx) ops s"

definition empty_store :: trigger_store where
  "empty_store = \<lparr>st_historyLimit = 200, st_triggers = [], st_history = [], st_pending = {}, st_file = None\<rparr>"

section \<open>Well-formed stores\<close>

definition fenced :: "trigger_def \<Rightarrow> bool" where
  "fenced d \<longleftrightarrow> (td_RecoveryRequired d \<longrightarrow> \<not> td_Enabled d)"

text \<open>The definitions an operation writes: only \<^verbatim>\<open>ReplaceTrigger\<close> takes one from its caller, an earlier snapshot.\<close>

fun op_fenced :: "store_op \<Rightarrow> bool" where
  "op_fenced (OpReplace ok d) = fenced d"
| "op_fenced _ = True"

definition table_wf :: "(string, trigger_def) gomap \<Rightarrow> bool" where
  "table_wf m \<longleftrightarrow> distinct (map fst m) \<and> (\<forall>i d. (i, d) \<in> set m \<longrightarrow> td_TriggerID d = i \<and> fenced d)"

definition file_wf :: "store_file \<Rightarrow> bool" where
  "file_wf f \<longleftrightarrow> sf_SchemaVersion f = 2 \<and> distinct (map td_TriggerID (sf_Triggers f)) \<and> (\<forall>d \<in> set (sf_Triggers f). fenced d)"

definition store_wf :: "trigger_store \<Rightarrow> bool" where
  "store_wf s \<longleftrightarrow> table_wf (st_triggers s) \<and> (\<forall>f. st_file s = Some f \<longrightarrow> file_wf f)"

lemma table_wf_lookup: "table_wf m \<Longrightarrow> map_of m i = Some d \<Longrightarrow> td_TriggerID d = i \<and> fenced d"
  by (auto simp: table_wf_def dest: map_of_SomeD)

lemma table_wf_update: "table_wf m \<Longrightarrow> td_TriggerID d = i \<Longrightarrow> fenced d \<Longrightarrow> table_wf (AList.update i d m)"
  using set_update_subset[of i d m] by (auto simp: table_wf_def distinct_update)

lemma table_wf_delete: "table_wf m \<Longrightarrow> table_wf (AList.delete i m)"
  using distinct_delete[of m i] by (auto simp: table_wf_def AList.delete_eq)

lemma table_wf_map_values:
  assumes "table_wf m" "\<And>d. fenced d \<Longrightarrow> fenced (f d)" "\<And>d. td_TriggerID (f d) = td_TriggerID d"
  shows "table_wf (map_values f m)"
  using assms by (auto simp: table_wf_def map_values_def comp_def case_prod_beta)

lemma file_wf_table:
  assumes "table_wf m"
  shows "file_wf \<lparr>sf_SchemaVersion = 2, sf_Triggers = sort_key created_order (map snd m), sf_History = h\<rparr>"
proof -
  have "map (td_TriggerID \<circ> snd) m = map fst m" using assms by (auto simp: table_wf_def)
  then have "distinct (map (td_TriggerID \<circ> snd) m)" using assms by (metis table_wf_def)
  then have "distinct (map snd m)" "inj_on td_TriggerID (set (map snd m))" unfolding map_map[symmetric] distinct_map by auto
  then have "distinct (map td_TriggerID (sort_key created_order (map snd m)))" by (simp add: distinct_map)
  then show ?thesis using assms by (auto simp: file_wf_def table_wf_def)
qed

lemma store_wf_saved: "store_wf s \<Longrightarrow> store_wf (saved s)"
  using file_wf_table by (auto simp: store_wf_def saved_def)

lemma store_wf_put: "store_wf s \<Longrightarrow> td_TriggerID d = i \<Longrightarrow> fenced d \<Longrightarrow> store_wf (put_trigger i d s)"
  by (simp add: store_wf_def put_trigger_def table_wf_update)

lemma store_wf_mark [simp]: "store_wf (clear_mark i s) = store_wf s" "store_wf (MarkPendingDelivery i s) = store_wf s"
  by (simp_all add: store_wf_def clear_mark_def MarkPendingDelivery_def)

lemma store_wf_history [simp]: "store_wf (s\<lparr>st_history := h\<rparr>) = store_wf s"
  by (simp add: store_wf_def)

lemma store_wf_table: "store_wf s \<Longrightarrow> table_wf m \<Longrightarrow> store_wf (s\<lparr>st_triggers := m\<rparr>)"
  by (simp add: store_wf_def)

lemma store_wf_save: "store_wf s \<Longrightarrow> store_wf (snd (saveLocked ok s))"
  by (simp add: saveLocked_def store_wf_saved)

lemma store_wf_lookup: "store_wf s \<Longrightarrow> map_of (st_triggers s) i = Some d \<Longrightarrow> td_TriggerID d = i \<and> fenced d"
  using table_wf_lookup by (auto simp: store_wf_def)

lemma store_wf_replace:
  assumes "store_wf s" "map_of (st_triggers s) i = Some old" "td_TriggerID d = td_TriggerID old" "fenced d"
  shows "store_wf (snd (replace_saved ok i old d s))"
  using assms store_wf_lookup[OF assms(1,2)] by (simp add: replace_saved_eq store_wf_saved store_wf_put)

lemma WithNextFire_simps [simp]:
  "td_TriggerID (WithNextFire env d now) = td_TriggerID d" "td_Enabled (WithNextFire env d now) = td_Enabled d"
  "td_RecoveryRequired (WithNextFire env d now) = td_RecoveryRequired d"
  "td_PendingDeliveryID (WithNextFire env d now) = td_PendingDeliveryID d"
  "td_OwnerAgentID (WithNextFire env d now) = td_OwnerAgentID d"
  by (simp_all add: WithNextFire_def)

subsection \<open>Every operation keeps well-formedness\<close>

lemmas keep_intros = store_wf_saved store_wf_put store_wf_replace

lemma snd_replace: "replace_saved ok i old d s = (r, s') \<Longrightarrow> s' = snd (replace_saved ok i old d s)"
  by simp

lemma snd_save: "saveLocked ok s = (r, s') \<Longrightarrow> s' = snd (saveLocked ok s)"
  by simp

lemma create_wf: "store_wf s \<Longrightarrow> fenced d \<Longrightarrow> store_wf (snd (CreateTrigger ok d s))"
  by (simp add: CreateTrigger_def saveLocked_def store_wf_saved store_wf_put)

lemma new_definition_fenced: "NewDefinitionFromCreate env uuid inp agent now = Inr d \<Longrightarrow> \<not> td_RecoveryRequired d"
  by (auto simp: NewDefinitionFromCreate_def Let_def split: sum.splits if_splits)

lemma create_authorized_wf: "store_wf s \<Longrightarrow> store_wf (snd (CreateAuthorized env ok uuid p inp now s))"
  using new_definition_fenced by (auto simp: CreateAuthorized_def Let_def fenced_def split: sum.splits intro!: create_wf)

lemma patch_plain_simps [simp]:
  "td_TriggerID (patch_plain up d) = td_TriggerID d" "td_RecoveryRequired (patch_plain up d) = td_RecoveryRequired d"
  "td_PendingDeliveryID (patch_plain up d) = td_PendingDeliveryID d" "td_OwnerAgentID (patch_plain up d) = td_OwnerAgentID d"
  by (simp_all add: patch_plain_def)

lemma patch_def_Inr:
  assumes "patch_def env tr up d = Inr d'"
  obtains t e m where "d' = (patch_plain up d)\<lparr>td_TargetAgentID := t, td_Enabled := e, td_SessionTargetMode := m\<rparr>"
    "td_RecoveryRequired d \<Longrightarrow> e \<Longrightarrow> td_Enabled d"
proof -
  obtain t m where *: "d' = (patch_plain up d)\<lparr>td_TargetAgentID := t, td_Enabled := (case up_Enabled up of None \<Rightarrow> td_Enabled d | Some b \<Rightarrow> b),
      td_SessionTargetMode := m\<rparr>" "\<not> (up_Enabled up = Some True \<and> td_RecoveryRequired d)"
  proof (cases "up_SessionTargetMode up")
    case None
    then show thesis using assms that[where m = "td_SessionTargetMode (patch_plain up d)"]
      by (auto simp: patch_def_def split: sum.splits if_splits)
  next
    case (Some m)
    then show thesis using assms that[where m = m] by (auto simp: patch_def_def split: sum.splits if_splits)
  qed
  show thesis by (rule that[OF *(1)]) (use *(2) in \<open>auto split: option.splits\<close>)
qed

lemma patch_fenced: "patch_def env tr up d = Inr d' \<Longrightarrow> fenced d \<Longrightarrow> td_TriggerID d' = td_TriggerID d \<and> fenced d'"
  by (elim patch_def_Inr) (auto simp: fenced_def)

lemma update_authorized_wf:
  assumes "store_wf s"
  shows "store_wf (snd (UpdateAuthorized env ok p i expected up now s))"
proof (cases "map_of (st_triggers s) i")
  case (Some cur)
  have f: "fenced cur" "td_TriggerID cur = i" using store_wf_lookup[OF assms Some] by simp_all
  have "store_wf (put_trigger i (WithNextFire env (d1\<lparr>td_Revision := td_Revision d1 + 1\<rparr>) now) s)"
    if "applyUpdatePatch env up cur = Inr d1" for d1
    using that patch_fenced[of env trim_space up cur d1] f assms by (intro store_wf_put) (simp_all add: applyUpdatePatch_def fenced_def)
  then show ?thesis using assms
    by (auto simp: UpdateAuthorized_def Some Let_def replace_saved_eq[OF Some] store_wf_saved split: sum.splits)
qed (simp add: UpdateAuthorized_def assms)

lemma update_trigger_wf:
  assumes "store_wf s"
  shows "store_wf (snd (UpdateTrigger env ok i up now s))"
proof (cases "map_of (st_triggers s) i")
  case (Some cur)
  have f: "fenced cur" "td_TriggerID cur = i" using store_wf_lookup[OF assms Some] by simp_all
  have "store_wf (put_trigger i (WithNextFire env (d1\<lparr>td_Revision := r\<rparr>) now) s)" if "patch_def env (\<lambda>x. x) up cur = Inr d1" for d1 r
    using that patch_fenced[of env _ up cur d1] f assms by (intro store_wf_put) (simp_all add: fenced_def)
  then show ?thesis using assms
    by (auto simp: UpdateTrigger_def Some Let_def saveLocked_def store_wf_saved split: sum.splits)
qed (simp add: UpdateTrigger_def assms)

lemma delete_wf:
  assumes "store_wf s"
  shows "store_wf (snd (DeleteAuthorized ok p i expected s))" "store_wf (snd (DeleteTrigger ok i s))"
proof -
  have d: "store_wf (s\<lparr>st_triggers := AList.delete i (st_triggers s)\<rparr>)"
    using assms by (intro store_wf_table) (simp_all add: store_wf_def table_wf_delete)
  show "store_wf (snd (DeleteAuthorized ok p i expected s))"
    using d assms store_wf_lookup[OF assms] by (auto simp: DeleteAuthorized_def saveLocked_def intro!: store_wf_saved store_wf_put split: option.splits)
  show "store_wf (snd (DeleteTrigger ok i s))"
    using d assms by (auto simp: DeleteTrigger_def saveLocked_def store_wf_saved split: option.splits)
qed

lemma claim_wf: "store_wf s \<Longrightarrow> store_wf (snd (claimDeliveryLocked env dir ok i delivery session occ now s))"
  using store_wf_lookup[of s i]
  by (auto simp: claimDeliveryLocked_def Let_def fenced_def split: option.splits intro!: store_wf_replace)

lemma clear_wf:
  assumes "store_wf s"
  shows "store_wf (snd (clearPendingDeliveryIfMatch ok i delivery s))" "store_wf (ClearPendingDelivery ok i s)"
proof -
  have "store_wf s'" if "map_of (st_triggers s) i = Some d" "replace_saved ok i d ((no_claim d)\<lparr>td_PendingConditionApproved := False\<rparr>) s = (r, s')" for d r s'
    using store_wf_replace[OF assms that(1), of "(no_claim d)\<lparr>td_PendingConditionApproved := False\<rparr>" ok] store_wf_lookup[OF assms that(1)] that(2)
    by (simp add: no_claim_def fenced_def)
  then show "store_wf (snd (clearPendingDeliveryIfMatch ok i delivery s))" "store_wf (ClearPendingDelivery ok i s)"
    using assms by (auto simp: clearPendingDeliveryIfMatch_def ClearPendingDelivery_def split: option.splits prod.splits)
qed

lemma recover_wf:
  assumes "store_wf s"
  shows "store_wf (snd (recoverPendingDeliveryLocked ok uuid now i delivery s))"
  using assms store_wf_lookup[OF assms, of i]
  by (auto simp: recoverPendingDeliveryLocked_def Let_def saveLocked_def no_claim_def fenced_def split: option.splits intro!: store_wf_saved store_wf_put)

lemma condition_wf:
  assumes "store_wf s"
  shows "store_wf (snd (MarkConditionRecovery ok i delivery reason s))" "store_wf (snd (ResetConditionCompletion ok i delivery s))"
    "store_wf (snd (SetPendingCondition ok i delivery reason content payload s))"
  using assms store_wf_lookup[OF assms, of i]
  by (auto simp: MarkConditionRecovery_def ResetConditionCompletion_def SetPendingCondition_def fenced_def
      split: option.splits intro!: store_wf_replace)

lemma completion_wf:
  assumes "store_wf s"
  shows "store_wf (snd (BeginConditionCompletion ok req s))"
proof (cases "map_of (st_triggers s) (trim_space (cc_TriggerID req))")
  case (Some d)
  have d: "td_TriggerID d = trim_space (cc_TriggerID req)" "fenced d" using store_wf_lookup[OF assms Some] by simp_all
  have "store_wf (snd (replace_saved ok (td_TriggerID d) d d1 s))" if "d1 \<in> {no_claim d, d\<lparr>td_PendingConditionApproved := True\<rparr>}" for d1
    using that d Some assms by (intro store_wf_replace) (auto simp: no_claim_def fenced_def)
  then show ?thesis using assms
    by (auto simp: BeginConditionCompletion_def Some Let_def split: prod.splits option.splits) (metis insertCI snd_conv)+
qed (simp add: BeginConditionCompletion_def assms)

lemma schedule_wf:
  assumes "store_wf s"
  shows "store_wf (snd (MarkFired env ok i now s))" "store_wf (snd (UpdateNextFireAt ok i v now s))"
    "fenced d \<Longrightarrow> store_wf (snd (ReplaceTrigger ok d s))" "store_wf (snd (AddHistory ok r s))"
proof -
  show "store_wf (snd (MarkFired env ok i now s))" using assms store_wf_lookup[OF assms, of i]
    by (auto simp: MarkFired_def Let_def saveLocked_def fenced_def split: option.splits intro!: store_wf_saved store_wf_put)
  show "store_wf (snd (UpdateNextFireAt ok i v now s))" using assms store_wf_lookup[OF assms, of i]
    by (auto simp: UpdateNextFireAt_def fenced_def split: option.splits intro!: store_wf_replace)
  show "fenced d \<Longrightarrow> store_wf (snd (ReplaceTrigger ok d s))"
    using assms by (auto simp: ReplaceTrigger_def intro!: store_wf_save store_wf_put)
  show "store_wf (snd (AddHistory ok r s))" using assms by (simp add: AddHistory_def store_wf_save)
qed

lemma auto_config_fenced: "td_TriggerID (auto_config env tx agent interval now d) = td_TriggerID d \<and> fenced (auto_config env tx agent interval now d)"
  by (simp add: auto_config_def Let_def fenced_def)

lemma auto_wf:
  assumes "store_wf s"
  shows "store_wf (snd (EnsureAutoDefault env tx ok agent interval now s))"
proof (cases "map_of (st_triggers s) (AutoDefaultTriggerID (trim_space agent))")
  case (Some d0)
  have "store_wf (put_trigger (AutoDefaultTriggerID (trim_space agent)) ((auto_config env tx (trim_space agent) v now d0)\<lparr>td_Revision := r\<rparr>) s)" for r v
    using assms store_wf_lookup[OF assms Some] auto_config_fenced[of env tx "trim_space agent" v now d0]
    by (intro store_wf_put) (simp_all add: fenced_def)
  then show ?thesis using assms by (simp add: EnsureAutoDefault_def Let_def Some replace_saved_eq[OF Some] store_wf_saved)
next
  case None
  let ?i = "AutoDefaultTriggerID (trim_space agent)" and ?d = "\<lambda>v. auto_config env tx (trim_space agent) v now (new_auto tx (trim_space agent) now)"
  have p: "store_wf (put_trigger ?i (?d v) s)" for v
    using assms auto_config_fenced[of env tx "trim_space agent" v now "new_auto tx (trim_space agent) now"]
    by (intro store_wf_put) (simp_all add: new_auto_def)
  have "store_wf ((put_trigger ?i (?d v) s)\<lparr>st_triggers := AList.delete ?i (st_triggers (put_trigger ?i (?d v) s))\<rparr>)" for v
    using p[of v] by (intro store_wf_table) (simp_all add: store_wf_def table_wf_delete)
  then show ?thesis using assms p by (simp add: EnsureAutoDefault_def Let_def None saveLocked_def store_wf_saved)
qed

lemma owners_wf:
  assumes "store_wf s"
  shows "store_wf (snd (ValidateOwners ok valid s))"
proof -
  have "store_wf (s\<lparr>st_triggers := map_values (disable_unowned valid) (st_triggers s)\<rparr>)"
    using assms by (intro store_wf_table table_wf_map_values) (auto simp: store_wf_def disable_unowned_def fenced_def)
  then show ?thesis using assms by (auto simp: ValidateOwners_def saveLocked_def store_wf_saved)
qed

text \<open>What a restart reads from a well-formed file.\<close>

lemma migrate_simps [simp]:
  "td_TriggerID (migrate_def b d) = td_TriggerID d" "td_Enabled (migrate_def b d) = td_Enabled d"
  "td_RecoveryRequired (migrate_def b d) = td_RecoveryRequired d" "td_PendingDeliveryID (migrate_def b d) = td_PendingDeliveryID d"
  by (simp_all add: migrate_def_def Let_def)

lemma load_items_table:
  assumes "load_items b ds m = Inr m'" "distinct (map td_TriggerID ds)" "\<forall>d\<in>set ds. td_TriggerID d \<notin> fst ` set m"
  shows "m' = m @ map (\<lambda>d. (td_TriggerID d, migrate_def b d)) ds"
  using assms
proof (induction b ds m arbitrary: rule: load_items.induct)
  case (2 b d0 ds m)
  have upd: "AList.update (td_TriggerID d0) (migrate_def b d0) m = m @ [(td_TriggerID d0, migrate_def b d0)]"
    using 2(4) by (intro update_new) auto
  have ne: "\<forall>d\<in>set ds. td_TriggerID d \<noteq> td_TriggerID d0" using 2(3) by (auto simp: image_iff)
  have ok: "\<not> (td_Enabled (migrate_def b d0) \<and> td_NextFireAt (migrate_def b d0) = None)" using 2(2) by (auto simp: Let_def split: if_splits)
  have "m' = (m @ [(td_TriggerID d0, migrate_def b d0)]) @ map (\<lambda>d. (td_TriggerID d, migrate_def b d)) ds"
    using 2(1)[OF refl ok] 2(2-4) ok ne by (auto simp: Let_def upd split: if_splits)
  then show ?case by simp
qed simp

lemma recover_simps [simp]:
  "td_TriggerID (recover_def d) = td_TriggerID d" "td_PendingDeliveryID (recover_def d) = td_PendingDeliveryID d"
  by (simp_all add: recover_def_def)

lemma recover_fenced: "fenced d \<Longrightarrow> fenced (recover_def d)"
  by (simp add: recover_def_def fenced_def)

text \<open>A store opened on a well-formed file: the definitions of the file, fenced for recovery.\<close>

lemma opened_store:
  assumes "OpenStore io (Some f) limit = Inr s" "file_wf f"
  shows "st_triggers s = map (\<lambda>d. (td_TriggerID d, recover_def (migrate_def False d))) (sf_Triggers f) \<and>
    (st_file s = Some f \<or> s = saved s)"
proof -
  have v: "sf_SchemaVersion f = 2" "distinct (map td_TriggerID (sf_Triggers f))" using assms(2) by (auto simp: file_wf_def)
  let ?s0 = "\<lparr>st_historyLimit = (if limit \<le> 0 then 200 else nat limit), st_triggers = [], st_history = [], st_pending = {}, st_file = Some f\<rparr>"
  obtain m where m: "load_items False (sf_Triggers f) [] = Inr m" and
    o: "load io ?s0 = (None, ?s0\<lparr>st_triggers := m, st_history := sf_History f\<rparr>)"
    using assms(1) v(1) by (auto simp: OpenStore_def load_def Let_def split: if_splits sum.splits prod.splits)
  have eq: "m = map (\<lambda>d. (td_TriggerID d, migrate_def False d)) (sf_Triggers f)" using load_items_table[OF m v(2)] by simp
  let ?s1 = "?s0\<lparr>st_triggers := map_values recover_def m, st_history := sf_History f\<rparr>"
  have "s = ?s1 \<or> s = saved ?s1"
    using assms(1) unfolding OpenStore_def o by (auto simp: Let_def saveLocked_def split: if_splits)
  moreover have "map_values recover_def m = map (\<lambda>d. (td_TriggerID d, recover_def (migrate_def False d))) (sf_Triggers f)"
    by (simp add: eq map_values_def comp_def)
  ultimately show ?thesis by (auto simp: saved_def)
qed

lemma opened_empty: "OpenStore io None limit = Inr s \<Longrightarrow> st_triggers s = [] \<and> st_file s = None"
  by (auto simp: OpenStore_def load_def Let_def map_values_def)

lemma open_wf:
  assumes "OpenStore io content limit = Inr s" "\<And>f. content = Some f \<Longrightarrow> file_wf f"
  shows "store_wf s"
proof (cases content)
  case None
  then show ?thesis using opened_empty[of io limit s] assms(1) by (simp add: store_wf_def table_wf_def)
next
  case (Some f)
  have f: "file_wf f" using assms(2) Some by simp
  have o: "st_triggers s = map (\<lambda>d. (td_TriggerID d, recover_def (migrate_def False d))) (sf_Triggers f)" "st_file s = Some f \<or> s = saved s"
    using opened_store[of io f limit s] f assms(1) Some by simp_all
  have "table_wf (st_triggers s)" using f recover_fenced
    by (auto simp: o(1) table_wf_def file_wf_def comp_def fenced_def)
  moreover have "file_wf g" if "st_file s = Some g" for g
  proof -
    have "file_wf g" if "s = saved s"
      using \<open>st_file s = Some g\<close> arg_cong[OF that, of st_file] file_wf_table[OF calculation] by (auto simp: saved_def)
    then show ?thesis using o(2) that f by auto
  qed
  ultimately show ?thesis by (simp add: store_wf_def)
qed

lemma run_op_wf:
  assumes "store_wf s" "op_fenced op"
  shows "store_wf (run_op env tx op s)"
proof (cases op)
  case (OpRestart io limit)
  then show ?thesis using assms open_wf[of io "st_file s" limit] by (auto simp: store_wf_def split: sum.splits)
qed (use assms create_authorized_wf update_authorized_wf delete_wf claim_wf recover_wf update_trigger_wf clear_wf condition_wf
       completion_wf schedule_wf auto_wf owners_wf in
     \<open>simp_all add: ClaimAuthorized_def RecoverAuthorized_def ClaimDeliveryForOccurrenceRevision_def ClaimDeliveryForOccurrence_def
        RecoverPendingDelivery_def split: option.splits\<close>)

lemma run_ops_wf: "store_wf s \<Longrightarrow> \<forall>op\<in>set ops. op_fenced op \<Longrightarrow> store_wf (run_ops env tx ops s)"
  unfolding run_ops_def by (induction ops arbitrary: s) (simp_all add: run_op_wf)

lemma empty_store_wf: "store_wf empty_store"
  by (simp add: store_wf_def empty_store_def table_wf_def)

section \<open>Recovery\<close>

text \<open>
  Whatever operations ran since the store was created, with whatever failures of the file and restarts: no trigger that requires recovery is enabled, and when the store is opened
  again no enabled trigger holds a delivery that was claimed before, so that nothing is fired a second time without an explicit recovery.
\<close>

lemma recovery_fences_triggers:
  assumes "\<forall>op \<in> set ops. op_fenced op"
  shows "(\<forall>d \<in> set (ListEnabledTriggers (run_ops env tx ops empty_store)). \<not> td_RecoveryRequired d) \<and>
    (\<forall>io limit s'. OpenStore io (st_file (run_ops env tx ops empty_store)) limit = Inr s' \<longrightarrow>
      (\<forall>d \<in> set (ListEnabledTriggers s'). \<not> td_RecoveryRequired d \<and> (td_PendingDeliveryID d = None \<or> td_PendingDeliveryID d = Some [])))"
proof -
  let ?s = "run_ops env tx ops empty_store"
  have wf: "store_wf ?s" using assms by (intro run_ops_wf empty_store_wf)
  have enabled: "\<not> td_RecoveryRequired d" if "store_wf s" "d \<in> set (ListEnabledTriggers s)" for s d
    using that by (auto simp: ListEnabledTriggers_def store_wf_def table_wf_def fenced_def)
  have "td_PendingDeliveryID d = None \<or> td_PendingDeliveryID d = Some []"
    if o: "OpenStore io (st_file ?s) limit = Inr s'" "d \<in> set (ListEnabledTriggers s')" for io limit s' d
  proof (cases "st_file ?s")
    case None
    then show ?thesis using o opened_empty[of io limit s'] by (simp add: ListEnabledTriggers_def)
  next
    case (Some f)
    then have "st_triggers s' = map (\<lambda>d. (td_TriggerID d, recover_def (migrate_def False d))) (sf_Triggers f)"
      using o(1) wf opened_store[of io f limit s'] by (simp add: store_wf_def)
    then obtain d0 where "d = recover_def d0" "td_Enabled d" using o(2) by (auto simp: ListEnabledTriggers_def)
    moreover have "\<not> td_RecoveryRequired d" using enabled[OF open_wf[OF o(1)] o(2)] wf by (auto simp: store_wf_def)
    ultimately show ?thesis by (auto simp: recover_def_def split: if_splits)
  qed
  moreover have "\<not> td_RecoveryRequired d" if "OpenStore io (st_file ?s) limit = Inr s'" "d \<in> set (ListEnabledTriggers s')" for io limit s' d
    using enabled[OF open_wf[OF that(1)] that(2)] wf by (simp add: store_wf_def)
  ultimately show ?thesis using enabled[OF wf] by blast
qed

section \<open>Claims\<close>

definition holds_claim :: "string \<Rightarrow> string \<Rightarrow> trigger_def \<Rightarrow> bool" where
  "holds_claim i x d \<longleftrightarrow> td_TriggerID d = i \<and> td_PendingDeliveryID d = Some x"

text \<open>Delivery \<open>x\<close> of trigger \<open>i\<close> is claimed in memory and on disk.\<close>

definition claimed :: "string \<Rightarrow> string \<Rightarrow> trigger_store \<Rightarrow> bool" where
  "claimed i x s \<longleftrightarrow>
     (\<exists>d. map_of (st_triggers s) i = Some d \<and> holds_claim i x d) \<and>
     (\<exists>f. st_file s = Some f \<and> (\<exists>d \<in> set (sf_Triggers f). holds_claim i x d))"

text \<open>The operations that give up the claim.\<close>

fun releases :: "string \<Rightarrow> string \<Rightarrow> store_op \<Rightarrow> bool" where
  "releases i x (OpClear ok j delivery) \<longleftrightarrow> j = i \<and> trim_space delivery = x"
| "releases i x (OpClearAny ok j) \<longleftrightarrow> j = i"
| "releases i x (OpRecover ok uuid now p j expected delivery) \<longleftrightarrow> j = i \<and> trim_space delivery = x"
| "releases i x (OpRecoverDirect ok uuid now j delivery) \<longleftrightarrow> j = i \<and> trim_space delivery = x"
| "releases i x (OpComplete ok req) \<longleftrightarrow>
     trim_space (cc_TriggerID req) = i \<and> trim_space (cc_DeliveryID req) = trim_space x \<and> \<not> cc_Matched req"
| "releases i x (OpAuto ok agent interval now) \<longleftrightarrow> AutoDefaultTriggerID (trim_space agent) = i \<and> interval = 0"
| "releases i x (OpDelete ok p j expected) \<longleftrightarrow> j = i"
| "releases i x (OpDeleteTrigger ok j) \<longleftrightarrow> j = i"
| "releases i x (OpReplace ok d) \<longleftrightarrow> td_TriggerID d = i \<and> td_PendingDeliveryID d \<noteq> Some x"
| "releases i x _ \<longleftrightarrow> False"

lemma claimed_same:
  assumes "claimed i x s" "st_file s' = st_file s" "map_of (st_triggers s') i = map_of (st_triggers s) i"
  shows "claimed i x s'"
  using assms by (simp add: claimed_def)

lemma claimed_mark [simp]: "claimed i x (clear_mark j s) = claimed i x s" "claimed i x (MarkPendingDelivery j s) = claimed i x s"
  "claimed i x (s\<lparr>st_history := h\<rparr>) = claimed i x s"
  by (simp_all add: claimed_def clear_mark_def MarkPendingDelivery_def)

lemma claimed_saved: "claimed i x s \<Longrightarrow> claimed i x (saved s)"
  by (auto simp: claimed_def saved_def dest!: map_of_SomeD intro!: bexI)

lemma claimed_put: "claimed i x s \<Longrightarrow> (j = i \<Longrightarrow> holds_claim i x d) \<Longrightarrow> claimed i x (put_trigger j d s)"
  by (auto simp: claimed_def put_trigger_def update_conv')

lemma claimed_save: "claimed i x s \<Longrightarrow> claimed i x (snd (saveLocked ok s))"
  by (simp add: saveLocked_def claimed_saved)

lemma claimed_replace:
  assumes "claimed i x s" "map_of (st_triggers s) j = Some old" "j = i \<Longrightarrow> holds_claim i x d"
  shows "claimed i x (snd (replace_saved ok j old d s))"
  using assms by (simp add: replace_saved_eq claimed_saved claimed_put)

lemma claimed_delete: "claimed i x s \<Longrightarrow> j \<noteq> i \<Longrightarrow> claimed i x (s\<lparr>st_triggers := AList.delete j (st_triggers s)\<rparr>)"
  by (auto simp: claimed_def delete_conv')

lemma claimed_map:
  assumes "claimed i x s" "\<And>d. holds_claim i x d \<Longrightarrow> holds_claim i x (f d)"
  shows "claimed i x (s\<lparr>st_triggers := map_values f (st_triggers s)\<rparr>)"
  using assms by (auto simp: claimed_def)

lemma claimed_lookup: "claimed i x s \<Longrightarrow> map_of (st_triggers s) i = Some d \<Longrightarrow> holds_claim i x d"
  by (simp add: claimed_def)

subsection \<open>Every other operation keeps a claim\<close>

lemma update_keeps_claim:
  assumes "claimed i x s"
  shows "claimed i x (snd (UpdateAuthorized env ok p j expected up now s))" "claimed i x (snd (UpdateTrigger env ok j up now s))"
proof -
  have patched: "holds_claim i x (WithNextFire env (d1\<lparr>td_Revision := r\<rparr>) now)"
    if "map_of (st_triggers s) j = Some cur" "patch_def env tr up cur = Inr d1" "j = i" for cur d1 r tr
    using claimed_lookup[OF assms, of cur] that by (elim patch_def_Inr) (auto simp: holds_claim_def)
  show "claimed i x (snd (UpdateAuthorized env ok p j expected up now s))"
    using assms patched by (auto simp: UpdateAuthorized_def applyUpdatePatch_def Let_def replace_saved_eq
        split: option.splits sum.splits intro!: claimed_saved claimed_put)
  show "claimed i x (snd (UpdateTrigger env ok j up now s))"
    using assms patched by (auto simp: UpdateTrigger_def saveLocked_def Let_def split: option.splits sum.splits intro!: claimed_saved claimed_put)
qed

lemma create_keeps_claim:
  assumes "claimed i x s"
  shows "claimed i x (snd (CreateAuthorized env ok uuid p inp now s))"
proof -
  have "claimed i x (snd (CreateTrigger ok d s))" for d
  proof (cases "map_of (st_triggers s) (td_TriggerID d)")
    case None
    then have "td_TriggerID d \<noteq> i" using assms by (auto simp: claimed_def)
    then show ?thesis using assms None by (auto simp: CreateTrigger_def saveLocked_def intro!: claimed_saved claimed_put)
  qed (simp add: CreateTrigger_def assms)
  then show ?thesis using assms by (simp add: CreateAuthorized_def Let_def split: sum.splits)
qed

lemma claim_keeps_claim:
  assumes "claimed i x s" "x \<noteq> []"
  shows "claimed i x (snd (claimDeliveryLocked env dir ok j delivery session occ now s))"
  using assms claimed_lookup[OF assms(1)]
  by (auto simp: claimDeliveryLocked_def Let_def holds_claim_def split: option.splits intro!: claimed_replace)

lemma clear_keeps_claim:
  assumes "claimed i x s"
  shows "j \<noteq> i \<or> trim_space delivery \<noteq> x \<Longrightarrow> claimed i x (snd (clearPendingDeliveryIfMatch ok j delivery s))"
    "j \<noteq> i \<Longrightarrow> claimed i x (ClearPendingDelivery ok j s)"
    "j \<noteq> i \<or> trim_space delivery \<noteq> x \<Longrightarrow> claimed i x (snd (recoverPendingDeliveryLocked ok uuid now j delivery s))"
proof -
  show "claimed i x (snd (clearPendingDeliveryIfMatch ok j delivery s))" if "j \<noteq> i \<or> trim_space delivery \<noteq> x"
    using that assms claimed_lookup[OF assms]
    by (auto simp: clearPendingDeliveryIfMatch_def replace_saved_eq holds_claim_def split: option.splits intro!: claimed_saved claimed_put)
  show "claimed i x (ClearPendingDelivery ok j s)" if "j \<noteq> i"
    using that assms by (auto simp: ClearPendingDelivery_def replace_saved_eq split: option.splits intro!: claimed_saved claimed_put)
  show "claimed i x (snd (recoverPendingDeliveryLocked ok uuid now j delivery s))" if "j \<noteq> i \<or> trim_space delivery \<noteq> x"
    using that assms claimed_lookup[OF assms]
    by (auto simp: recoverPendingDeliveryLocked_def Let_def saveLocked_def holds_claim_def split: option.splits intro!: claimed_saved claimed_put)
qed

lemma condition_keeps_claim:
  assumes "claimed i x s"
  shows "claimed i x (snd (MarkConditionRecovery ok j delivery reason s))" "claimed i x (snd (ResetConditionCompletion ok j delivery s))"
    "claimed i x (snd (SetPendingCondition ok j delivery reason content payload s))" "claimed i x (snd (UpdateNextFireAt ok j v now s))"
  using assms claimed_lookup[OF assms]
  by (auto simp: MarkConditionRecovery_def ResetConditionCompletion_def SetPendingCondition_def UpdateNextFireAt_def holds_claim_def
      split: option.splits intro!: claimed_replace)

lemma completion_keeps_claim:
  assumes "claimed i x s" "store_wf s" "\<not> releases i x (OpComplete ok req)"
  shows "claimed i x (snd (BeginConditionCompletion ok req s))"
proof (cases "map_of (st_triggers s) (trim_space (cc_TriggerID req))")
  case (Some d)
  have id: "td_TriggerID d = trim_space (cc_TriggerID req)" using store_wf_lookup[OF assms(2) Some] by simp
  have c: "trim_space (cc_TriggerID req) = i \<Longrightarrow> holds_claim i x d" using claimed_lookup[OF assms(1)] Some by simp
  show ?thesis using assms(1,3) c Some unfolding BeginConditionCompletion_def
    by (auto simp: id Let_def replace_saved_eq holds_claim_def completion_matches_def intro!: claimed_saved claimed_put)
qed (simp add: BeginConditionCompletion_def assms(1))

lemma schedule_keeps_claim:
  assumes "claimed i x s"
  shows "claimed i x (snd (MarkFired env ok j now s))" "claimed i x (snd (AddHistory ok r s))"
    "\<not> releases i x (OpReplace ok d) \<Longrightarrow> claimed i x (snd (ReplaceTrigger ok d s))"
    "j \<noteq> i \<Longrightarrow> claimed i x (snd (DeleteAuthorized ok p j expected s))" "j \<noteq> i \<Longrightarrow> claimed i x (snd (DeleteTrigger ok j s))"
proof -
  show "claimed i x (snd (MarkFired env ok j now s))" using assms claimed_lookup[OF assms]
    by (auto simp: MarkFired_def Let_def saveLocked_def holds_claim_def split: option.splits intro!: claimed_saved claimed_put)
  show "claimed i x (snd (AddHistory ok r s))" using assms by (simp add: AddHistory_def claimed_save)
  show "claimed i x (snd (ReplaceTrigger ok d s))" if "\<not> releases i x (OpReplace ok d)"
    using that assms by (auto simp: ReplaceTrigger_def holds_claim_def intro!: claimed_save claimed_put)
  show "claimed i x (snd (DeleteAuthorized ok p j expected s))" if "j \<noteq> i"
    using that assms claimed_delete[OF assms that]
    by (auto simp: DeleteAuthorized_def saveLocked_def split: option.splits intro!: claimed_saved claimed_put)
  show "claimed i x (snd (DeleteTrigger ok j s))" if "j \<noteq> i"
    using that assms claimed_delete[OF assms that] by (auto simp: DeleteTrigger_def split: option.splits intro!: claimed_save)
qed

lemma auto_keeps_claim:
  assumes c: "claimed i x s" "\<not> (AutoDefaultTriggerID (trim_space agent) = i \<and> interval = 0)"
  shows "claimed i x (snd (EnsureAutoDefault env tx ok agent interval now s))"
proof (cases "map_of (st_triggers s) (AutoDefaultTriggerID (trim_space agent))")
  case (Some d0)
  have "holds_claim i x ((auto_config env tx (trim_space agent) interval now d0)\<lparr>td_Revision := r\<rparr>)"
    if "AutoDefaultTriggerID (trim_space agent) = i" for r
    using claimed_lookup[OF c(1)] Some c(2) that by (simp add: holds_claim_def auto_config_def Let_def)
  then show ?thesis using c
    by (auto simp: EnsureAutoDefault_def Let_def Some replace_saved_eq[OF Some] intro!: claimed_saved claimed_put)
next
  case None
  then have ne: "AutoDefaultTriggerID (trim_space agent) \<noteq> i" using c(1) by (auto simp: claimed_def)
  then show ?thesis using c claimed_delete[OF claimed_put[OF c(1)] ne]
    by (auto simp: EnsureAutoDefault_def Let_def None saveLocked_def intro!: claimed_saved claimed_put)
qed

lemma owners_keep_claim: "claimed i x s \<Longrightarrow> claimed i x (snd (ValidateOwners ok valid s))"
  using claimed_map[of i x s "disable_unowned valid"]
  by (auto simp: ValidateOwners_def saveLocked_def disable_unowned_def holds_claim_def intro!: claimed_saved)

lemma restart_keeps_claim:
  assumes "claimed i x s" "store_wf s" "OpenStore io (st_file s) limit = Inr s'"
  shows "claimed i x s'"
proof -
  obtain f d where f: "st_file s = Some f" "d \<in> set (sf_Triggers f)" "holds_claim i x d" using assms(1) by (auto simp: claimed_def)
  have wf: "file_wf f" using assms(2) f(1) by (simp add: store_wf_def)
  have o: "st_triggers s' = map (\<lambda>d. (td_TriggerID d, recover_def (migrate_def False d))) (sf_Triggers f)" "st_file s' = Some f \<or> s' = saved s'"
    using opened_store[OF _ wf, of io limit s'] assms(3) f(1) by simp_all
  have "distinct (map fst (st_triggers s'))" using wf by (simp add: o(1) file_wf_def comp_def)
  then have m: "map_of (st_triggers s') i = Some (recover_def (migrate_def False d))"
    using f(2,3) by (intro map_of_is_SomeI) (auto simp: o(1) holds_claim_def)
  have h: "holds_claim i x (recover_def (migrate_def False d))" using f(3) by (simp add: holds_claim_def)
  show ?thesis
  proof (cases "st_file s' = Some f")
    case True
    then show ?thesis using m h f(2,3) by (auto simp: claimed_def)
  next
    case False
    then have "s' = saved s'" using o(2) by simp
    then have "st_file s' = st_file (saved s')" by (rule arg_cong)
    then show ?thesis using m h map_of_SomeD[OF m] by (force simp: claimed_def saved_def)
  qed
qed

lemma run_op_keeps_claim:
  assumes "claimed i x s" "store_wf s" "x \<noteq> []" "\<not> releases i x op"
  shows "claimed i x (run_op env tx op s)"
proof (cases op)
  case (OpRestart io limit)
  then show ?thesis using assms(1) restart_keeps_claim[OF assms(1,2)] by (auto split: sum.splits)
next
  case (OpComplete ok req)
  then show ?thesis using completion_keeps_claim[OF assms(1,2)] assms(4) by simp
next
  case (OpReplace ok d)
  then show ?thesis using schedule_keeps_claim(3)[OF assms(1)] assms(4) by simp
next
  case (OpAuto ok agent interval now)
  then show ?thesis using auto_keeps_claim[OF assms(1)] assms(4) by simp
qed (use assms create_keeps_claim update_keeps_claim claim_keeps_claim clear_keeps_claim condition_keeps_claim schedule_keeps_claim(1,2,4,5)
       owners_keep_claim in
     \<open>simp_all add: ClaimAuthorized_def RecoverAuthorized_def ClaimDeliveryForOccurrenceRevision_def ClaimDeliveryForOccurrence_def
        RecoverPendingDelivery_def split: option.splits\<close>)

lemma run_ops_keep_claim:
  assumes "claimed i x s" "store_wf s" "x \<noteq> []" "\<forall>op \<in> set ops. op_fenced op \<and> \<not> releases i x op"
  shows "claimed i x (run_ops env tx ops s)"
  using assms unfolding run_ops_def by (induction ops arbitrary: s) (simp_all add: run_op_keeps_claim run_op_wf)

lemma claimed_fresh: "map_of (st_triggers s) i = Some d \<Longrightarrow> holds_claim i x d \<Longrightarrow> claimed i x (saved s)"
  by (force simp: claimed_def saved_def dest: map_of_SomeD)

lemma claim_claims:
  assumes "claimDeliveryLocked env dir ok i delivery session occ now s = (None, s')" "store_wf s"
  shows "claimed i (trim_space delivery) s' \<and> trim_space delivery \<noteq> []"
proof -
  obtain d where d: "map_of (st_triggers s) i = Some d" using assms(1) by (auto simp: claimDeliveryLocked_def split: if_splits option.splits)
  let ?d = "(if occ \<noteq> None then WithNextFire env d now else d)
     \<lparr>td_PendingDeliveryID := Some (trim_space delivery), td_PendingSessionID := Some (trim_space session), td_PendingOccurrence := occ\<rparr>"
  have ne: "trim_space delivery \<noteq> []" and s': "s' = saved (put_trigger i ?d s)"
    using assms(1) d by (auto simp: claimDeliveryLocked_def Let_def replace_saved_eq[OF d] split: if_splits)
  have h: "holds_claim i (trim_space delivery) ?d" using store_wf_lookup[OF assms(2) d] by (simp add: holds_claim_def)
  have m: "map_of (st_triggers (put_trigger i ?d s)) i = Some ?d" by (simp add: put_trigger_def update_conv')
  then show ?thesis using claimed_fresh[OF m h] ne unfolding s' by simp
qed

lemma claimed_refuses:
  assumes "claimed i x s" "x \<noteq> []"
  shows "fst (claimDeliveryLocked env dir ok i delivery session occ now s) \<noteq> None"
  using assms by (auto simp: claimed_def holds_claim_def claimDeliveryLocked_def)


section \<open>Authorisation\<close>

fun op_principal :: "store_op \<Rightarrow> principal option" where
  "op_principal (OpCreate ok uuid p inp now) = Some p"
| "op_principal (OpUpdate ok p i expected up now) = Some p"
| "op_principal (OpDelete ok p i expected) = Some p"
| "op_principal (OpClaim dir ok p i expected delivery session occ now) = Some p"
| "op_principal (OpRecover ok uuid now p i expected delivery) = Some p"
| "op_principal _ = None"

text \<open>All that an operation does to the table is to touch triggers \<open>p\<close> controls, and what it writes \<open>p\<close> owns.\<close>

definition confined :: "principal \<Rightarrow> trigger_store \<Rightarrow> trigger_store \<Rightarrow> bool" where
  "confined p s s' \<longleftrightarrow>
     (\<forall>i d. map_of (st_triggers s) i = Some d \<and> (\<not> canOwn p d \<or> td_Controller d \<noteq> ''user'') \<longrightarrow> map_of (st_triggers s') i = Some d) \<and>
     (\<forall>i d. map_of (st_triggers s') i = Some d \<and> map_of (st_triggers s) i \<noteq> Some d \<longrightarrow> canOwn p d)"

lemma confined_refl [simp]: "confined p s s"
  by (simp add: confined_def)

lemma confined_simps [simp]: "confined p s (saved s') = confined p s s'" "confined p s (clear_mark i s') = confined p s s'"
  "confined p s (s'\<lparr>st_history := h\<rparr>) = confined p s s'"
  by (simp_all add: confined_def saved_def clear_mark_def)

lemma confined_put:
  assumes "canOwn p d" "\<And>old. map_of (st_triggers s) i = Some old \<Longrightarrow> canOwn p old \<and> td_Controller old = ''user''"
  shows "confined p s (put_trigger i d s)"
  using assms by (auto simp: confined_def put_trigger_def update_conv' split: if_splits)

lemma confined_delete:
  assumes "map_of (st_triggers s) i = Some old" "canOwn p old" "td_Controller old = ''user''"
  shows "confined p s (s\<lparr>st_triggers := AList.delete i (st_triggers s)\<rparr>)"
  using assms by (auto simp: confined_def delete_conv' split: if_splits)

lemma canOwn_cong: "td_OwnerAgentID d = td_OwnerAgentID d' \<Longrightarrow> canOwn p d = canOwn p d'"
  by (simp add: canOwn_def)

lemma confined_create:
  assumes "pr_Kind p = ''agent''"
  shows "confined p s (snd (CreateAuthorized env ok uuid p inp now s))"
proof -
  have new: "confined p s (snd (CreateTrigger ok d s))" if "canOwn p d" for d
    using that by (auto simp: CreateTrigger_def saveLocked_def intro!: confined_put)
  have target: "trim_space t \<noteq> []" if "NewDefinitionFromCreate env uuid inp' t now = Inr d" "ci_TargetAgentID inp' = t" for inp' t d
    using that by (auto simp: NewDefinitionFromCreate_def Let_def split: sum.splits if_splits)
  show ?thesis using assms target
    by (auto simp: CreateAuthorized_def Let_def canOwn_def split: sum.splits intro!: new)
qed

lemma confined_update: "confined p s (snd (UpdateAuthorized env ok p i expected up now s))"
proof (cases "map_of (st_triggers s) i")
  case (Some cur)
  have "canOwn p (WithNextFire env (d1\<lparr>td_Revision := r\<rparr>) now)" if "applyUpdatePatch env up cur = Inr d1" "canOwn p cur" for d1 r
    using that by (auto simp: applyUpdatePatch_def canOwn_def elim!: patch_def_Inr)
  then show ?thesis using Some
    by (auto simp: UpdateAuthorized_def Let_def replace_saved_eq[OF Some] split: sum.splits intro!: confined_put)
qed (simp add: UpdateAuthorized_def)

lemma confined_claim:
  assumes "\<And>d. map_of (st_triggers s) i = Some d \<Longrightarrow> canOwn p d \<and> td_Controller d = ''user''"
  shows "confined p s (snd (claimDeliveryLocked env dir ok i delivery session occ now s))"
  using assms by (auto simp: claimDeliveryLocked_def Let_def replace_saved_eq canOwn_def split: option.splits intro!: confined_put)

lemma put_back: "map_of (st_triggers s) i = Some d \<Longrightarrow> (put_trigger i d (put_trigger i d' s))\<lparr>st_history := st_history s\<rparr> = s"
  by (simp add: put_trigger_def update_back)

lemma confined_recover:
  assumes "\<And>d. map_of (st_triggers s) i = Some d \<Longrightarrow> canOwn p d \<and> td_Controller d = ''user''"
  shows "confined p s (snd (recoverPendingDeliveryLocked ok uuid now i delivery s))"
proof (cases "map_of (st_triggers s) i")
  case (Some d)
  have own: "canOwn p d" "td_Controller d = ''user''" using assms Some by simp_all
  then have p: "confined p s (put_trigger i d' s)" if "td_OwnerAgentID d' = td_OwnerAgentID d" for d'
    using that Some canOwn_cong[OF that] by (intro confined_put) simp_all
  have "confined p s (put_trigger i d (put_trigger i d' s))" for d'
    using Some by (simp add: put_trigger_def update_back)
  then show ?thesis using p
    by (simp add: recoverPendingDeliveryLocked_def Some Let_def saveLocked_def no_claim_def put_trigger_def)
qed (simp add: recoverPendingDeliveryLocked_def)

lemma confined_delete_op: "confined p s (snd (DeleteAuthorized ok p i expected s))"
proof (cases "map_of (st_triggers s) i")
  case (Some d)
  have "confined p s (put_trigger i d (s\<lparr>st_triggers := AList.delete i (st_triggers s)\<rparr>))"
    using Some by (auto simp: confined_def put_trigger_def update_conv' delete_conv' split: if_splits)
  then show ?thesis using Some confined_delete[OF Some, of p] by (auto simp: DeleteAuthorized_def saveLocked_def)
qed (simp add: DeleteAuthorized_def)

lemma confined_agent_ops:
  assumes "pr_Kind p = ''agent''"
  shows "confined p s (snd (ClaimAuthorized env dir ok p i expected delivery session occ now s))"
    "confined p s (snd (RecoverAuthorized ok uuid now p i expected delivery s))"
proof -
  show "confined p s (snd (ClaimAuthorized env dir ok p i expected delivery session occ now s))"
    using confined_claim[of s i p env dir ok delivery session occ now]
    by (cases "map_of (st_triggers s) i") (auto simp: ClaimAuthorized_def)
  show "confined p s (snd (RecoverAuthorized ok uuid now p i expected delivery s))"
    using confined_recover[of s i p ok uuid now delivery] assms
    by (cases "map_of (st_triggers s) i") (auto simp: RecoverAuthorized_def)
qed

text \<open>
  C26. An operation called on behalf of an agent leaves every trigger alone that the agent does not own, and every trigger that is not controlled by the user; every definition it
  creates or changes belongs to the agent.
\<close>

theorem agents_confined:
  assumes "op_principal op = Some p" "pr_Kind p = ''agent''"
  shows "(\<forall>i d. GetTrigger i s = Some d \<and> (\<not> canOwn p d \<or> td_Controller d \<noteq> ''user'') \<longrightarrow> GetTrigger i (run_op env tx op s) = Some d) \<and>
    (\<forall>i d. GetTrigger i (run_op env tx op s) = Some d \<and> GetTrigger i s \<noteq> Some d \<longrightarrow> trim_space (td_OwnerAgentID d) = trim_space (pr_AgentID p))"
proof -
  have "confined p s (run_op env tx op s)"
    using assms confined_create[OF assms(2)] confined_update confined_delete_op confined_agent_ops[OF assms(2)] by (cases op) simp_all
  moreover have "canOwn p d \<Longrightarrow> trim_space (td_OwnerAgentID d) = trim_space (pr_AgentID p)" for d using assms(2) by (simp add: canOwn_def)
  ultimately show ?thesis unfolding confined_def GetTrigger_def by blast
qed

section \<open>A run\<close>

text \<open>An agent creates a trigger that fires every minute; a delivery of it is claimed and the process dies.\<close>

definition demo_agent :: principal where
  "demo_agent = \<lparr>pr_Kind = ''agent'', pr_ID = [], pr_AgentID = ''a''\<rparr>"

definition demo_input :: "condition \<Rightarrow> create_input" where
  "demo_input c = \<lparr>ci_Name = ''n'', ci_Condition = c, ci_TargetAgentID = [], ci_TargetSessionID = None, ci_SessionTargetMode = SessionTargetUnset,
     ci_ClientID = None, ci_TaskTemplate = ''do'', ci_Enabled = None\<rparr>"

definition demo_now :: gotime where
  "demo_now = 62135596800000000000 + 1000 * 1000000000"

definition demo_texts :: auto_texts where
  "demo_texts = \<lparr>at_name = ''wake'', at_template = ''look''\<rparr>"

definition io_fine :: open_io where
  "io_fine = \<lparr>io_read = True, io_backup = True, io_migrate = True, io_recover = True\<rparr>"

abbreviation demo_create :: "condition \<Rightarrow> store_op" where
  "demo_create c \<equiv> OpCreate True ''t'' demo_agent (demo_input c) demo_now"

abbreviation minute :: condition where
  "minute \<equiv> [(''interval_seconds'', AnyNumber 60)]"

abbreviation demo_run :: "store_op list \<Rightarrow> trigger_store" where
  "demo_run ops \<equiv> run_ops demo_env demo_texts ops empty_store"

lemma recovery_fences_triggers_witness:
  "\<exists>s'. OpenStore io_fine (st_file (demo_run [demo_create minute, OpClaimDirect True True ''t'' ''x'' ''sess'' None demo_now])) 200 = Inr s' \<and>
     ListEnabledTriggers s' = [] \<and> map td_PendingDeliveryID (ListTriggers s') = [Some ''x''] \<and>
     (\<forall>d \<in> set (ListEnabledTriggers s'). td_PendingDeliveryID d = None \<or> td_PendingDeliveryID d = Some [])"
proof -
  let ?ops = "[demo_create minute, OpClaimDirect True True ''t'' ''x'' ''sess'' None demo_now]"
  define s' where "s' = projr (OpenStore io_fine (st_file (demo_run ?ops)) 200)"
  have o: "OpenStore io_fine (st_file (demo_run ?ops)) 200 = Inr s'" unfolding s'_def by code_simp
  have "ListEnabledTriggers s' = []" "map td_PendingDeliveryID (ListTriggers s') = [Some ''x'']" unfolding s'_def by code_simp+
  moreover have f: "\<forall>op \<in> set ?ops. op_fenced op" by simp
  have "\<forall>d \<in> set (ListEnabledTriggers s'). td_PendingDeliveryID d = None \<or> td_PendingDeliveryID d = Some []"
    using conjunct2[OF recovery_fences_triggers[OF f]] o by blast
  ultimately show ?thesis using o by (intro exI[of _ s'] conjI)
qed


text \<open>Another agent tries to delete the trigger.\<close>

theorem agents_confined_witness:
  "GetTrigger ''t'' (run_op demo_env demo_texts (OpDelete True (demo_agent\<lparr>pr_AgentID := ''b''\<rparr>) ''t'' 0) (demo_run [demo_create minute])) =
   GetTrigger ''t'' (demo_run [demo_create minute]) \<and> GetTrigger ''t'' (demo_run [demo_create minute]) \<noteq> None"
proof -
  let ?p = "demo_agent\<lparr>pr_AgentID := ''b''\<rparr>"
  define d where "d = the (GetTrigger ''t'' (demo_run [demo_create minute]))"
  have d: "GetTrigger ''t'' (demo_run [demo_create minute]) = Some d" "\<not> canOwn ?p d" unfolding d_def by code_simp+
  have p: "op_principal (OpDelete True ?p ''t'' 0) = Some ?p" "pr_Kind ?p = ''agent''" by (simp_all add: demo_agent_def)
  have "GetTrigger ''t'' (run_op demo_env demo_texts (OpDelete True ?p ''t'' 0) (demo_run [demo_create minute])) = Some d"
    by (rule conjunct1[OF agents_confined[OF p], rule_format]) (intro conjI disjI1 d)
  then show ?thesis by (simp only: d(1) option.simps simp_thms)
qed

section \<open>Three gaps\<close>

text \<open>
  A trigger that fires once is disabled after it fired. Enabling it again leaves it without a next fire time, the store saves it like that, and refuses the file at the
  next start: all triggers are gone until the file is edited.
\<close>

lemma enabled_once_bricks_store:
  "fst (UpdateAuthorized demo_env True demo_agent ''t'' 0
      \<lparr>up_Name = None, up_Condition = None, up_TargetAgentID = None, up_TargetSessionID = None, up_ClientID = None, up_TaskTemplate = None,
       up_Enabled = Some True, up_SessionTargetMode = None\<rparr> demo_now (demo_run [demo_create [(''fire_at'', AnyNumber 2000)], OpMarkFired True ''t'' demo_now]))
   \<noteq> Inl ErrNeedsRecovery"
  "OpenStore io_fine (st_file (demo_run [demo_create [(''fire_at'', AnyNumber 2000)], OpMarkFired True ''t'' demo_now,
      OpUpdate True demo_agent ''t'' 0
      \<lparr>up_Name = None, up_Condition = None, up_TargetAgentID = None, up_TargetSessionID = None, up_ClientID = None, up_TaskTemplate = None,
       up_Enabled = Some True, up_SessionTargetMode = None\<rparr> demo_now])) 200 = Inl (ErrEnabledWithoutNext ''t'')"
  by code_simp+

text \<open>A trigger whose creation could not be saved is reported as an error and stays in the table; the same holds for \<^verbatim>\<open>MarkFired\<close> and \<^verbatim>\<open>UpdateTrigger\<close>.\<close>

lemma failed_create_stays:
  "GetTrigger (td_TriggerID d) s = None \<Longrightarrow>
     fst (CreateTrigger False d s) = Inl ErrPersist \<and> GetTrigger (td_TriggerID d) (snd (CreateTrigger False d s)) = Some d"
  by (simp add: CreateTrigger_def GetTrigger_def saveLocked_def put_trigger_def update_conv')

text \<open>A scheduler tick that only moves the time writes back the whole snapshot it read: a claim made in between is lost.\<close>

lemma stale_snapshot_drops_claim:
  assumes "GetTrigger i s = Some d" "td_TriggerID d = i" "td_PendingDeliveryID d = None"
    and "claimDeliveryLocked env dir True i delivery session occ now s = (None, s1)"
  shows "\<exists>s2 d2. ReplaceTrigger True (RescheduleNextFire env d now) s1 = (None, s2) \<and> GetTrigger i s2 = Some d2 \<and> td_PendingDeliveryID d2 = None"
proof -
  have m: "map_of (st_triggers s) i = Some d" using assms(1) by (simp add: GetTrigger_def)
  have "map_of (st_triggers s1) i \<noteq> None"
    using assms(4) by (auto simp: claimDeliveryLocked_def Let_def m replace_saved_eq[OF m] saved_def put_trigger_def update_conv' split: if_splits)
  moreover have "td_TriggerID (RescheduleNextFire env d now) = i" "td_PendingDeliveryID (RescheduleNextFire env d now) = None"
    using assms(2,3) by (simp_all add: RescheduleNextFire_def Let_def)
  ultimately show ?thesis by (auto simp: ReplaceTrigger_def saveLocked_def GetTrigger_def saved_def put_trigger_def update_conv')
qed

end
