(* ===== verification/Trigger_Fire.thy ===== *)
theory Trigger_Fire
  imports Trigger_Store
begin

text \<open>
  Firing triggers: \<^verbatim>\<open>triggers/scheduler.go\<close>, \<^verbatim>\<open>triggers/template.go\<close> and \<^verbatim>\<open>triggers/session_target.go\<close>.

  A call of \<^verbatim>\<open>fire\<close> takes the store's lock several times. \<open>fi_others\<close> lists what other goroutines do with the store in between: number 0 between the snapshot
  and the claim, 1 after the claim, 2 while the condition runs, 3 during and after the submission. The submitter, the condition runner, the session
  resolver and the JSON encoder are code outside the package: parameters. A call returns the record, the messages it handed to the submitter and the store.

  \<open>one_outstanding_delivery\<close>: after a call submitted a message, no other call submits one for the same trigger until the claim is released, whatever
  happens in between. \<open>failed_submission_blocks\<close> records that a submission that fails keeps the claim.
\<close>

section \<open>Templates\<close>

text \<open>\<open>find_brace acc s\<close>: the text up to the closing brace and the rest after it.\<close>

fun find_brace :: "string \<Rightarrow> string \<Rightarrow> (string \<times> string) option" where
  "find_brace acc [] = None"
| "find_brace acc (ch # s) = (if ch = CHR ''}'' then Some (acc, s) else find_brace (acc @ [ch]) s)"

lemma find_brace_shorter: "find_brace acc s = Some (key, rest) \<Longrightarrow> length rest < length s"
  by (induction acc s rule: find_brace.induct) (auto split: if_splits)

function renderBraceTemplate :: "string \<Rightarrow> (string, string) gomap \<Rightarrow> string" where
  "renderBraceTemplate [] values = []"
| "renderBraceTemplate (ch # s) values =
     (if ch \<noteq> CHR ''{'' then ch # renderBraceTemplate s values
      else case find_brace [] s of
             None \<Rightarrow> ch # s
           | Some (key, rest) \<Rightarrow>
               (case map_of values key of Some v \<Rightarrow> v | None \<Rightarrow> ''{'' @ key @ ''}'') @ renderBraceTemplate rest values)"
  by pat_completeness auto
termination
  by (relation "measure (\<lambda>(s, _). length s)") (auto dest: find_brace_shorter)

definition RenderTaskTemplate :: "((string, go_any) gomap \<Rightarrow> string) \<Rightarrow> string \<Rightarrow> trigger_def \<Rightarrow> string \<Rightarrow> (string, go_any) gomap \<Rightarrow> string" where
  "RenderTaskTemplate marshal template d reason payload =
     renderBraceTemplate template
       [(''trigger_id'', td_TriggerID d), (''trigger_name'', td_Name d), (''reason'', reason), (''payload_json'', marshal payload)]"

section \<open>Session targets\<close>

definition hasBoundSessionID :: "trigger_def \<Rightarrow> bool" where
  "hasBoundSessionID d = (case td_TargetSessionID d of None \<Rightarrow> False | Some x \<Rightarrow> trim_space x \<noteq> [])"

text \<open>The three targets of \<^verbatim>\<open>hitl/trigger_session.go\<close>.\<close>

definition SessionConfigFromApprovalTarget :: "string \<Rightarrow> string \<Rightarrow> session_target_mode \<times> string option" where
  "SessionConfigFromApprovalTarget approvalTarget currentSessionID =
     (let t = trim_space approvalTarget
      in if t = ''new_session'' then (SessionTargetNewSession, None)
         else if t = ''latest_active_session'' then (SessionTargetLatestActive, None)
         else let i = trim_space currentSessionID in if i = [] then (SessionTargetFixed, None) else (SessionTargetFixed, Some i))"

record fire_options =
  fo_SessionTargetMode :: session_target_mode
  fo_FixedSessionID :: string
  fo_Principal :: "principal option"
  fo_ExpectedRevision :: int

definition FireOptionsFromApprovalTarget :: "string \<Rightarrow> string \<Rightarrow> trigger_def \<Rightarrow> fire_options option" where
  "FireOptionsFromApprovalTarget approvalTarget currentSessionID d =
     (let t = (if trim_space approvalTarget = [] then ''same_session'' else trim_space approvalTarget)
      in if t = ''new_session'' \<and> td_SessionTargetMode d = SessionTargetFixed \<and> hasBoundSessionID d then None
         else case SessionConfigFromApprovalTarget t currentSessionID of
                (mode, ptr) \<Rightarrow> Some \<lparr>fo_SessionTargetMode = mode, fo_FixedSessionID = (case ptr of None \<Rightarrow> [] | Some i \<Rightarrow> i),
                                      fo_Principal = None, fo_ExpectedRevision = 0\<rparr>)"

section \<open>The world of a call\<close>

datatype submission =
    SubmitAuto string string string string
  | SubmitDelivery string string string string
  | SubmitPlain string string string

record condition_request =
  cr_TriggerID :: string
  cr_DeliveryID :: string
  cr_SessionID :: string
  cr_AgentID :: string
  cr_Revision :: int
  cr_Occurrence :: "f64 option"
  cr_Command :: string

datatype condition_status = ConditionMatched | ConditionNotMatched | ConditionAwaitingApproval

record condition_result =
  cres_Status :: condition_status
  cres_Rejected :: bool
  cres_Failed :: bool

record fire_io =
  fi_env :: sched_env
  fi_texts :: auto_texts
  fi_error_text :: "trigger_error \<Rightarrow> string"
  fi_marshal :: "(string, go_any) gomap \<Rightarrow> string"
  fi_resolver :: "(string + string) option"
  fi_targeted :: bool
  fi_deliverer :: bool
  fi_autoer :: bool
  fi_ensureAgent :: "string \<Rightarrow> string \<Rightarrow> string + string"
  fi_ensure :: "string \<Rightarrow> string + string"
  fi_runner :: "(condition_request \<Rightarrow> condition_result \<times> string option) option"
  fi_submit :: "submission \<Rightarrow> string option"
  fi_deliveryID :: string
  fi_fireID :: string
  fi_now :: "nat \<Rightarrow> gotime"
  fi_dir :: bool
  fi_ok :: "nat \<Rightarrow> bool"
  fi_others :: "nat \<Rightarrow> store_op list"

definition others :: "fire_io \<Rightarrow> nat \<Rightarrow> trigger_store \<Rightarrow> trigger_store" where
  "others io k s = run_ops (fi_env io) (fi_texts io) (fi_others io k) s"

type_synonym fire_outcome = "fire_record \<times> submission list \<times> trigger_store"

section \<open>Firing\<close>

definition resolveFireSession ::
  "fire_io \<Rightarrow> trigger_def \<Rightarrow> fire_options option \<Rightarrow> string + string \<times> session_target_mode \<times> bool" where
  "resolveFireSession io d opts =
     (let mode = (case opts of None \<Rightarrow> td_SessionTargetMode d | Some o' \<Rightarrow> fo_SessionTargetMode o');
          fixedID = (case opts of
                       None \<Rightarrow> (case td_TargetSessionID d of None \<Rightarrow> [] | Some x \<Rightarrow> trim_space x)
                     | Some o' \<Rightarrow> trim_space (fo_FixedSessionID o'))
      in case mode of
           SessionTargetNewSession \<Rightarrow>
             if fixedID \<noteq> [] then Inr (fixedID, SessionTargetFixed, False) else Inr ([], SessionTargetNewSession, True)
         | SessionTargetLatestActive \<Rightarrow>
             (case fi_resolver io of
                None \<Rightarrow> Inl ''session resolver not configured''
              | Some (Inl e) \<Rightarrow> Inl e
              | Some (Inr i) \<Rightarrow> Inr (i, SessionTargetLatestActive, False))
         | _ \<Rightarrow> Inr (fixedID, SessionTargetFixed, False))"

definition fire_record_of ::
  "fire_io \<Rightarrow> trigger_def \<Rightarrow> fire_status \<Rightarrow> string \<Rightarrow> (string, go_any) gomap \<Rightarrow> string \<Rightarrow> string option \<Rightarrow> string option \<Rightarrow> string \<Rightarrow> fire_record" where
  "fire_record_of io d status reason payload message sessionID clientID content =
     \<lparr>fr_FireID = fi_fireID io, fr_TriggerID = td_TriggerID d,
      fr_DeliveryID = (case td_PendingDeliveryID d of None \<Rightarrow> [] | Some x \<Rightarrow> trim_space x), fr_Status = status, fr_Reason = reason,
      fr_SessionID = sessionID, fr_ClientID = clientID, fr_Content = content, fr_Message = message, fr_Payload = payload,
      fr_FiredAt = timeToUnixFloat (fi_now io 9)\<rparr>"

text \<open>\<^verbatim>\<open>Scheduler.record\<close>: the record goes to the history; what was submitted so far is passed on.\<close>

definition sched_record ::
  "fire_io \<Rightarrow> trigger_def \<Rightarrow> fire_status \<Rightarrow> string \<Rightarrow> (string, go_any) gomap \<Rightarrow> string \<Rightarrow> string option \<Rightarrow> string option \<Rightarrow> string \<Rightarrow>
   submission list \<Rightarrow> trigger_store \<Rightarrow> fire_outcome" where
  "sched_record io d status reason payload message sessionID clientID content subs s =
     (case AddHistory (fi_ok io 9) (fire_record_of io d status reason payload message sessionID clientID content) s of
        (r, s1) \<Rightarrow> (r, subs, s1))"

definition bindNewSession :: "fire_io \<Rightarrow> trigger_def \<Rightarrow> string \<Rightarrow> session_target_mode \<Rightarrow> trigger_store \<Rightarrow> trigger_store" where
  "bindNewSession io d sessionID effectiveMode s =
     (if effectiveMode \<noteq> SessionTargetNewSession \<or> hasBoundSessionID d then s
      else snd (ReplaceTrigger (fi_ok io 8) (d\<lparr>td_SessionTargetMode := SessionTargetFixed, td_TargetSessionID := Some sessionID\<rparr>) s))"

definition fire_claim ::
  "fire_io \<Rightarrow> trigger_def \<Rightarrow> string \<Rightarrow> fire_options option \<Rightarrow> string \<Rightarrow> f64 option \<Rightarrow> trigger_store \<Rightarrow> trigger_error option \<times> trigger_store" where
  "fire_claim io d reason opts sessionID occurrence s =
     (case Option.bind opts (\<lambda>o'. map_option (\<lambda>p. (p, fo_ExpectedRevision o')) (fo_Principal o')) of
        Some (p, expected) \<Rightarrow>
          ClaimAuthorized (fi_env io) (fi_dir io) (fi_ok io 1) p (td_TriggerID d) expected (fi_deliveryID io) sessionID occurrence (fi_now io 1) s
      | None \<Rightarrow>
          if reason = ''schedule''
          then ClaimDeliveryForOccurrenceRevision (fi_env io) (fi_dir io) (fi_ok io 1) (td_TriggerID d) (td_Revision d) (fi_deliveryID io) sessionID
                 occurrence (fi_now io 1) s
          else ClaimDeliveryForOccurrence (fi_env io) (fi_dir io) (fi_ok io 1) (td_TriggerID d) (fi_deliveryID io) sessionID occurrence (fi_now io 1) s)"

definition submission_of :: "fire_io \<Rightarrow> trigger_def \<Rightarrow> string \<Rightarrow> string \<Rightarrow> submission" where
  "submission_of io d sessionID content =
     (if td_Controller d = ''auto'' \<and> fi_autoer io then SubmitAuto sessionID (td_TriggerID d) (fi_deliveryID io) content
      else if fi_deliverer io then SubmitDelivery sessionID (td_TriggerID d) (fi_deliveryID io) content
      else SubmitPlain sessionID (td_TriggerID d) content)"

text \<open>The end of a call: the message is submitted and, unless a scheduled firing did so before, counted.\<close>

definition fire_submit ::
  "fire_io \<Rightarrow> trigger_def \<Rightarrow> string \<Rightarrow> (string, go_any) gomap \<Rightarrow> string \<Rightarrow> session_target_mode \<Rightarrow> bool \<Rightarrow> string \<Rightarrow> string \<Rightarrow> trigger_store \<Rightarrow> fire_outcome" where
  "fire_submit io d reason payload sessionID mode bindAfterFire clientID content s =
     (let sub = submission_of io d sessionID content; s1 = others io 3 s
      in case fi_submit io sub of
           Some e \<Rightarrow> sched_record io d FireStatusError reason payload e (Some sessionID) (Some clientID) content [] s1
         | None \<Rightarrow>
             (case (if reason = ''schedule'' then (None, s1)
                    else case MarkFired (fi_env io) (fi_ok io 4) (td_TriggerID d) (fi_now io 4) s1 of
                           (Inl e, s2) \<Rightarrow> (Some e, s2) | (Inr _, s2) \<Rightarrow> (None, s2)) of
                (Some e, s2) \<Rightarrow> sched_record io d FireStatusError reason payload (fi_error_text io e) (Some sessionID) (Some clientID) content [sub] s2
              | (None, s2) \<Rightarrow>
                  sched_record io d FireStatusQueued reason payload ''queued'' (Some sessionID) (Some clientID) content [sub]
                    (if bindAfterFire then bindNewSession io d sessionID mode s2 else s2)))"

text \<open>The condition of a trigger runs while the delivery is claimed; when it does not hold the claim is given up.\<close>

definition fire_condition ::
  "fire_io \<Rightarrow> trigger_def \<Rightarrow> string \<Rightarrow> (string, go_any) gomap \<Rightarrow> string \<Rightarrow> session_target_mode \<Rightarrow> bool \<Rightarrow> string \<Rightarrow> string \<Rightarrow> string \<Rightarrow> trigger_store \<Rightarrow>
   fire_outcome" where
  "fire_condition io d reason payload sessionID mode bindAfterFire clientID content command s =
     (let fail = (\<lambda>status message s. sched_record io d status reason payload message (Some sessionID) (Some clientID) content [] s);
          cleanup = (\<lambda>status message s.
            case clearPendingDeliveryIfMatch (fi_ok io 3) (td_TriggerID d) (fi_deliveryID io) s of
              (Some e, s1) \<Rightarrow> fail FireStatusError (''condition cleanup failed: '' @ fi_error_text io e) s1
            | (None, s1) \<Rightarrow> fail status message s1)
      in case fi_runner io of
           None \<Rightarrow> cleanup FireStatusError ''condition runner unavailable'' s
         | Some runner \<Rightarrow>
             (case runner \<lparr>cr_TriggerID = td_TriggerID d, cr_DeliveryID = fi_deliveryID io, cr_SessionID = sessionID, cr_AgentID = td_TargetAgentID d,
                           cr_Revision = td_Revision d, cr_Occurrence = td_PendingOccurrence d, cr_Command = command\<rparr> of
                (res, err) \<Rightarrow>
                  let s1 = others io 2 s
                  in if cres_Status res = ConditionAwaitingApproval \<and> err = None
                     then fail FireStatusAwaitingApproval ''condition awaiting approval'' s1
                     else if err \<noteq> None \<or> cres_Failed res \<or> cres_Status res \<noteq> ConditionMatched then
                       (case err of
                          Some e \<Rightarrow> cleanup FireStatusError (''condition failed: '' @ e) s1
                        | None \<Rightarrow> if cres_Failed res then cleanup FireStatusError ''condition execution failed'' s1
                                  else cleanup FireStatusSkipped ''condition not satisfied'' s1)
                     else fire_submit io d reason payload sessionID mode bindAfterFire clientID content s1))"

text \<open>After the claim: the condition's metadata, the in-process mark and, for a scheduled firing, the count.\<close>

definition fire_claimed ::
  "fire_io \<Rightarrow> trigger_def \<Rightarrow> string \<Rightarrow> (string, go_any) gomap \<Rightarrow> string \<Rightarrow> session_target_mode \<Rightarrow> bool \<Rightarrow> string \<Rightarrow> string \<Rightarrow> f64 option \<Rightarrow> trigger_store \<Rightarrow>
   fire_outcome" where
  "fire_claimed io d0 reason payload sessionID mode bindAfterFire clientID content occurrence s =
     (let d1 = d0\<lparr>td_PendingOccurrence := occurrence\<rparr>;
          command = ConditionCmd (se_sprint (fi_env io)) (td_Condition d0);
          d = d1\<lparr>td_PendingDeliveryID := Some (fi_deliveryID io), td_PendingSessionID := Some sessionID\<rparr>
      in case (if command \<noteq> [] then SetPendingCondition (fi_ok io 2) (td_TriggerID d0) (fi_deliveryID io) reason content payload s else (None, s)) of
           (Some e, s1) \<Rightarrow>
             sched_record io d1 FireStatusError reason payload (''condition claim metadata failed: '' @ fi_error_text io e) (Some sessionID) (Some clientID) content [] s1
         | (None, s1) \<Rightarrow>
             (case (if reason = ''schedule''
                    then case MarkFired (fi_env io) (fi_ok io 4) (td_TriggerID d0) (fi_now io 4) (MarkPendingDelivery (td_TriggerID d0) s1) of
                           (Inl e, s2) \<Rightarrow> (Some e, s2) | (Inr _, s2) \<Rightarrow> (None, s2)
                    else (None, MarkPendingDelivery (td_TriggerID d0) s1)) of
                (Some e, s2) \<Rightarrow> sched_record io d FireStatusError reason payload (fi_error_text io e) (Some sessionID) (Some clientID) content [] s2
              | (None, s2) \<Rightarrow>
                  if command \<noteq> []
                  then fire_condition io d reason payload sessionID mode bindAfterFire clientID content command s2
                  else fire_submit io d reason payload sessionID mode bindAfterFire clientID content s2))"

definition fire_session :: "fire_io \<Rightarrow> trigger_def \<Rightarrow> session_target_mode \<Rightarrow> string \<Rightarrow> string + string" where
  "fire_session io d mode requested =
     (if fi_targeted io \<and> mode = SessionTargetFixed then fi_ensureAgent io (trim_space (td_TargetAgentID d)) requested else fi_ensure io requested)"

text \<open>The session the message goes to: resolved, checked against what a routing submitter supports, and opened.\<close>

definition fire_target :: "fire_io \<Rightarrow> trigger_def \<Rightarrow> fire_options option \<Rightarrow> string + string \<times> session_target_mode \<times> bool" where
  "fire_target io d opts =
     (case resolveFireSession io d opts of
        Inl e \<Rightarrow> Inl e
      | Inr (requested, mode, bindAfterFire) \<Rightarrow>
          if fi_targeted io \<and> mode \<noteq> SessionTargetFixed then Inl ''session_target_mode is unsupported for routed triggers; use fixed''
          else case fire_session io d mode requested of Inl e \<Rightarrow> Inl e | Inr sessionID \<Rightarrow> Inr (sessionID, mode, bindAfterFire))"

definition fire_deliver ::
  "fire_io \<Rightarrow> trigger_def \<Rightarrow> string \<Rightarrow> (string, go_any) gomap \<Rightarrow> fire_options option \<Rightarrow> string \<Rightarrow> session_target_mode \<Rightarrow> bool \<Rightarrow> trigger_store \<Rightarrow> fire_outcome" where
  "fire_deliver io d reason payload opts sessionID mode bindAfterFire s =
     (let clientID = (case td_ClientID d of Some c \<Rightarrow> if c \<noteq> [] then c else ''trigger-'' @ td_TriggerID d | None \<Rightarrow> ''trigger-'' @ td_TriggerID d);
          content = RenderTaskTemplate (fi_marshal io) (td_TaskTemplate d) d reason payload;
          occurrence = (if reason = ''schedule'' then td_NextFireAt d else None)
      in case fire_claim io d reason opts sessionID occurrence (others io 0 s) of
           (Some e, s1) \<Rightarrow>
             sched_record io d FireStatusError reason payload (''delivery claim failed: '' @ fi_error_text io e) (Some sessionID) (Some clientID) content [] s1
         | (None, s1) \<Rightarrow>
             fire_claimed io d reason payload sessionID mode bindAfterFire clientID content occurrence (others io 1 s1))"

definition fire ::
  "fire_io \<Rightarrow> trigger_def \<Rightarrow> string \<Rightarrow> (string, go_any) gomap \<Rightarrow> bool \<Rightarrow> fire_options option \<Rightarrow> trigger_store \<Rightarrow> fire_outcome" where
  "fire io d reason payload force opts s =
     (let early = (\<lambda>status message s. sched_record io d status reason payload message None None [] [] s)
      in if td_Controller d \<noteq> ''user'' \<and> td_Controller d \<noteq> ''auto''
         then early FireStatusError ''trigger controller is retired or invalid'' s
         else if \<not> td_Enabled d \<and> \<not> force then early FireStatusSkipped ''trigger is disabled'' s
         else if HasPendingDelivery (td_TriggerID d) s \<or> (case td_PendingDeliveryID d of None \<Rightarrow> False | Some x \<Rightarrow> trim_space x \<noteq> []) then
           (let r = \<lparr>fr_FireID = [], fr_TriggerID = td_TriggerID d, fr_DeliveryID = [], fr_Status = FireStatusSkipped, fr_Reason = reason,
                     fr_SessionID = None, fr_ClientID = None, fr_Content = [], fr_Message = ''pending delivery not consumed'', fr_Payload = payload,
                     fr_FiredAt = timeToUnixFloat (fi_now io 9)\<rparr>
            in if reason \<noteq> ''schedule'' then (case AddHistory (fi_ok io 9) r s of (r', s1) \<Rightarrow> (r', [], s1)) else (r, [], s))
         else case fire_target io d opts of
                Inl e \<Rightarrow> early FireStatusError e s
              | Inr (sessionID, mode, bindAfterFire) \<Rightarrow> fire_deliver io d reason payload opts sessionID mode bindAfterFire s)"

definition FireTrigger ::
  "fire_io \<Rightarrow> string \<Rightarrow> string \<Rightarrow> (string, go_any) gomap \<Rightarrow> bool \<Rightarrow> fire_options option \<Rightarrow> trigger_store \<Rightarrow> trigger_error + fire_outcome" where
  "FireTrigger io triggerID reason payload force opts s =
     (case GetTrigger triggerID s of None \<Rightarrow> Inl ErrNotFound | Some d \<Rightarrow> Inr (fire io d reason payload force opts s))"

definition FireAuthorized ::
  "fire_io \<Rightarrow> principal \<Rightarrow> string \<Rightarrow> int \<Rightarrow> string \<Rightarrow> (string, go_any) gomap \<Rightarrow> bool \<Rightarrow> fire_options option \<Rightarrow> trigger_store \<Rightarrow> trigger_error + fire_outcome" where
  "FireAuthorized io p triggerID expected reason payload force opts s =
     (case GetTrigger triggerID s of
        None \<Rightarrow> Inl ErrNotFound
      | Some d \<Rightarrow>
          if \<not> canOwn p d then Inl ErrNotFound
          else if td_Controller d \<noteq> ''user'' then Inl ErrControllerRetired
          else if expected > 0 \<and> td_Revision d \<noteq> expected then Inl ErrRevisionConflict
          else let o0 = (case opts of
                           None \<Rightarrow> \<lparr>fo_SessionTargetMode = SessionTargetUnset, fo_FixedSessionID = [], fo_Principal = None, fo_ExpectedRevision = 0\<rparr>
                         | Some o' \<Rightarrow> o')
               in Inr (fire io d reason payload force
                    (Some (o0\<lparr>fo_Principal := Some p, fo_ExpectedRevision := (if expected = 0 then td_Revision d else expected)\<rparr>)) s))"

text \<open>A tick: the decisions are taken on the snapshot of the enabled triggers read at its start.\<close>

fun tick_loop :: "(string \<Rightarrow> fire_io) \<Rightarrow> gotime \<Rightarrow> trigger_def list \<Rightarrow> trigger_store \<Rightarrow> submission list \<times> trigger_store" where
  "tick_loop io_of now [] s = ([], s)"
| "tick_loop io_of now (d # ds) s =
     (let io = io_of (td_TriggerID d)
      in case EvaluateDue (fi_env io) d now of
           (DueAdvanceOnly, updated) \<Rightarrow> tick_loop io_of now ds (snd (ReplaceTrigger (fi_ok io 0) updated s))
         | (DueFire, _) \<Rightarrow>
             (case fire io d ''schedule'' [] False None s of
                (_, subs, s1) \<Rightarrow> (case tick_loop io_of now ds s1 of (subs', s2) \<Rightarrow> (subs @ subs', s2)))
         | (DueNotReady, _) \<Rightarrow> tick_loop io_of now ds s)"

definition tickDue :: "(string \<Rightarrow> fire_io) \<Rightarrow> gotime \<Rightarrow> trigger_store \<Rightarrow> submission list \<times> trigger_store" where
  "tickDue io_of now s = tick_loop io_of now (ListEnabledTriggers s) s"

text \<open>Completing a condition that waited for approval.\<close>

definition CompleteCondition :: "fire_io \<Rightarrow> condition_completion \<Rightarrow> trigger_store \<Rightarrow> string + fire_outcome" where
  "CompleteCondition io req s =
     (case BeginConditionCompletion (fi_ok io 1) req s of
        (Inl e, _) \<Rightarrow> Inl (fi_error_text io e)
      | (Inr (d, mine), s1) \<Rightarrow>
          if \<not> mine then Inl ''condition completion already claimed''
          else let r = (\<lambda>status message subs s. sched_record io d status (td_PendingConditionReason d) (td_PendingConditionPayload d) message
                          (td_PendingSessionID d) (td_ClientID d) (td_PendingConditionContent d) subs s)
               in if cc_Failed req then Inr (r FireStatusError ''condition execution failed'' [] s1)
                  else if \<not> cc_Matched req then
                    Inr (r FireStatusSkipped (if cc_Rejected req then ''condition approval rejected'' else ''condition not satisfied'') [] s1)
                  else let content = td_PendingConditionContent d;
                           sub = (if fi_autoer io \<and> td_Controller d = ''auto'' then SubmitAuto (cc_SessionID req) (td_TriggerID d) (cc_DeliveryID req) content
                                  else if fi_deliverer io then SubmitDelivery (cc_SessionID req) (td_TriggerID d) (cc_DeliveryID req) content
                                  else SubmitPlain (cc_SessionID req) (td_TriggerID d) content);
                           s2 = others io 3 s1
                       in case fi_submit io sub of
                            Some e \<Rightarrow> Inl e
                          | None \<Rightarrow> Inr (r FireStatusQueued ''queued'' [sub] s2))"

section \<open>What a call hands on\<close>

text \<open>A call submits at most one message, one the submitter accepted, and reports it as queued only then.\<close>

definition honest :: "fire_io \<Rightarrow> fire_outcome \<Rightarrow> bool" where
  "honest io out \<longleftrightarrow>
     (case out of (r, subs, s) \<Rightarrow>
        (subs = [] \<or> (\<exists>sub. subs = [sub] \<and> fi_submit io sub = None)) \<and> (fr_Status r = FireStatusQueued \<longrightarrow> subs \<noteq> []))"

lemma honest_record:
  "status \<noteq> FireStatusQueued \<Longrightarrow> honest io (sched_record io d status reason payload message session client content [] s)"
  by (simp add: honest_def sched_record_def AddHistory_def fire_record_of_def)

lemma honest_record_sub:
  "fi_submit io sub = None \<Longrightarrow> honest io (sched_record io d status reason payload message session client content [sub] s)"
  by (simp add: honest_def sched_record_def AddHistory_def)

lemma fire_submit_honest: "honest io (fire_submit io d reason payload session mode bnd client content s)"
  by (auto simp: fire_submit_def Let_def intro!: honest_record honest_record_sub split: option.splits prod.splits)

lemma fire_condition_honest: "honest io (fire_condition io d reason payload session mode bnd client content command s)"
  unfolding fire_condition_def Let_def
  by (auto intro!: honest_record fire_submit_honest split: option.splits prod.splits)

lemma fire_claimed_honest: "honest io (fire_claimed io d reason payload session mode bnd client content occ s)"
  unfolding fire_claimed_def Let_def
  by (auto intro!: honest_record fire_submit_honest fire_condition_honest split: option.splits prod.splits)

lemma fire_deliver_honest: "honest io (fire_deliver io d reason payload opts session mode bnd s)"
  unfolding fire_deliver_def Let_def
  by (auto intro!: honest_record fire_claimed_honest split: option.splits prod.splits)

lemma fire_honest: "honest io (fire io d reason payload force opts s)"
proof -
  have skip: "honest io (r, [], s)" if "fr_Status r \<noteq> FireStatusQueued" for r s using that by (simp add: honest_def)
  show ?thesis
  proof (cases "fire_target io d opts")
    case (Inl e)
    then show ?thesis unfolding fire_def Let_def by (simp add: honest_record skip AddHistory_def)
  next
    case (Inr t)
    then show ?thesis unfolding fire_def Let_def by (cases t) (simp add: honest_record skip AddHistory_def fire_deliver_honest)
  qed
qed

section \<open>One outstanding delivery\<close>

text \<open>Nothing that other goroutines do at point \<open>k\<close> of the call releases the claim.\<close>

definition quiet :: "fire_io \<Rightarrow> string \<Rightarrow> string \<Rightarrow> nat \<Rightarrow> bool" where
  "quiet io i x k \<longleftrightarrow> (\<forall>op \<in> set (fi_others io k). op_fenced op \<and> \<not> releases i x op)"

definition held :: "string \<Rightarrow> string \<Rightarrow> trigger_store \<Rightarrow> bool" where
  "held i x s \<longleftrightarrow> claimed i x s \<and> store_wf s"

lemma held_others: "held i x s \<Longrightarrow> x \<noteq> [] \<Longrightarrow> quiet io i x k \<Longrightarrow> held i x (others io k s)"
  using run_ops_keep_claim[of i x s] run_ops_wf[of s] by (auto simp: held_def quiet_def others_def)

lemma held_record:
  "held i x s \<Longrightarrow> held i x (snd (snd (sched_record io d status reason payload message session client content subs s)))"
  using schedule_keeps_claim(2)[of i x s] schedule_wf(4)[of s] by (simp add: held_def sched_record_def case_prod_beta)

lemma held_fired: "held i x s \<Longrightarrow> MarkFired env ok j now s = (r, s') \<Longrightarrow> held i x s'"
  using schedule_keeps_claim(1)[of i x s env ok j now] schedule_wf(1)[of s env ok j now] by (simp add: held_def)

lemma held_bind:
  assumes "held i x s" "td_TriggerID d = i" "td_PendingDeliveryID d = Some x" "fenced d"
  shows "held i x (bindNewSession io d session mode s)"
  using assms schedule_keeps_claim(3)[of i x s] schedule_wf(3)[of s] by (simp add: held_def bindNewSession_def fenced_def)

definition keeps :: "string \<Rightarrow> string \<Rightarrow> fire_outcome \<Rightarrow> bool" where
  "keeps i x out \<longleftrightarrow> (case out of (r, subs, s) \<Rightarrow> subs \<noteq> [] \<longrightarrow> held i x s)"

lemma keeps_record_Nil: "keeps i x (sched_record io d status reason payload message session client content [] s)"
  by (simp add: keeps_def sched_record_def AddHistory_def)

lemma keeps_record: "held i x s \<Longrightarrow> keeps i x (sched_record io d status reason payload message session client content subs s)"
  using held_record[of i x s io d status reason payload message session client content subs] by (auto simp: keeps_def split: prod.splits)

lemma fire_submit_keeps:
  assumes h: "held i x s" and x: "x \<noteq> []" "quiet io i x 3" and d: "td_TriggerID d = i" "td_PendingDeliveryID d = Some x" "fenced d"
  shows "keeps i x (fire_submit io d reason payload session mode bnd client content s)"
proof -
  have o: "held i x (others io 3 s)" by (rule held_others[OF h x])
  have m: "held i x s'" if "MarkFired env ok j now (others io 3 s) = (r, s')" for env ok j now r s' by (rule held_fired[OF o that])
  show ?thesis unfolding fire_submit_def Let_def
    using o by (auto intro!: keeps_record keeps_record_Nil held_bind d dest: m split: option.splits prod.splits sum.splits if_splits)
qed

lemma fire_condition_keeps:
  assumes h: "held i x s" and x: "x \<noteq> []" "quiet io i x 2" "quiet io i x 3" and d: "td_TriggerID d = i" "td_PendingDeliveryID d = Some x" "fenced d"
  shows "keeps i x (fire_condition io d reason payload session mode bnd client content command s)"
  using fire_submit_keeps[OF held_others[OF h x(1,2)] x(1,3) d] unfolding fire_condition_def Let_def
  by (auto intro!: keeps_record_Nil split: option.splits prod.splits)

lemma fire_claimed_keeps:
  assumes h: "held (td_TriggerID d) x s" and x: "x \<noteq> []" "quiet io (td_TriggerID d) x 2" "quiet io (td_TriggerID d) x 3"
    and d: "fenced d" "fi_deliveryID io = x"
  shows "keeps (td_TriggerID d) x (fire_claimed io d reason payload session mode bnd client content occ s)"
proof -
  let ?i = "td_TriggerID d"
  let ?d = "d\<lparr>td_PendingOccurrence := occ, td_PendingDeliveryID := Some (fi_deliveryID io), td_PendingSessionID := Some session\<rparr>"
  have d': "td_TriggerID ?d = ?i" "td_PendingDeliveryID ?d = Some x" "fenced ?d" using d by (simp_all add: fenced_def)
  have set_cond: "held ?i x s1" if "SetPendingCondition ok ?i del reason content payload s = (r, s1)" for ok del r s1
    using h that condition_keeps_claim(3)[of ?i x s ok ?i del reason content payload] condition_wf(3)[of s ok ?i del reason content payload]
    by (simp add: held_def)
  have mark: "held ?i x (MarkPendingDelivery ?i s1)" if "held ?i x s1" for s1 using that by (simp add: held_def)
  have fired: "held ?i x s2" if "MarkFired env ok j now (MarkPendingDelivery ?i s1) = (r, s2)" "held ?i x s1" for env ok j now r s1 s2
    by (rule held_fired[OF mark[OF that(2)] that(1)])
  show ?thesis unfolding fire_claimed_def Let_def
    using h mark fired set_cond
    by (auto intro!: keeps_record_Nil fire_submit_keeps[OF _ x(1,3) d'] fire_condition_keeps[OF _ x d'] split: option.splits prod.splits sum.splits if_splits)
qed

lemma fire_claim_accepted:
  "fire_claim io d reason opts session occ s = (None, s') \<Longrightarrow>
     claimDeliveryLocked (fi_env io) (fi_dir io) (fi_ok io 1) (td_TriggerID d) (fi_deliveryID io) session occ (fi_now io 1) s = (None, s')"
  by (auto simp: fire_claim_def ClaimAuthorized_def ClaimDeliveryForOccurrenceRevision_def ClaimDeliveryForOccurrence_def
      split: option.splits if_splits)

lemma fire_claim_refused:
  assumes "claimed (td_TriggerID d) x s" "x \<noteq> []"
  shows "fst (fire_claim io d reason opts session occ s) \<noteq> None"
  using assms claimed_refuses[OF assms] fire_claim_accepted[of io d reason opts session occ s] by (metis fst_conv prod.collapse)

lemma fire_cases:
  "fst (snd (fire io d reason payload force opts s)) = [] \<or>
   (\<exists>session mode bnd. fire io d reason payload force opts s = fire_deliver io d reason payload opts session mode bnd s)"
proof (cases "fire_target io d opts")
  case (Inl e)
  have "fst (snd (fire io d reason payload force opts s)) = []" unfolding fire_def Let_def Inl by (simp add: sched_record_def AddHistory_def)
  then show ?thesis by blast
next
  case (Inr t)
  obtain session mode bnd where t: "t = (session, mode, bnd)" by (cases t)
  have "fst (snd (fire io d reason payload force opts s)) = [] \<or>
      fire io d reason payload force opts s = fire_deliver io d reason payload opts session mode bnd s"
    unfolding fire_def Let_def Inr t by (simp add: sched_record_def AddHistory_def)
  then show ?thesis by blast
qed

lemma fire_refused:
  assumes "held (td_TriggerID d) x s" "x \<noteq> []" "quiet io (td_TriggerID d) x 0"
  shows "fst (snd (fire io d reason payload force opts s)) = []"
proof -
  have "claimed (td_TriggerID d) x (others io 0 s)" using held_others[OF assms] by (simp add: held_def)
  then have refused: "fst (fire_claim io d reason opts session occ (others io 0 s)) \<noteq> None" for session occ
    by (rule fire_claim_refused[OF _ assms(2)])
  have "fst (snd (fire_deliver io d reason payload opts session mode bnd s)) = []" for session mode bnd
  proof -
    obtain e s1 where "fire_claim io d reason opts session (if reason = ''schedule'' then td_NextFireAt d else None) (others io 0 s) = (Some e, s1)"
      using refused by (metis option.exhaust prod.collapse)
    then show ?thesis by (simp add: fire_deliver_def Let_def sched_record_def AddHistory_def)
  qed
  then show ?thesis using fire_cases[of io d reason payload force opts s] by metis
qed

text \<open>What other goroutines do during the call: anything before its claim, nothing that releases the claim afterwards.\<close>

definition undisturbed :: "fire_io \<Rightarrow> string \<Rightarrow> bool" where
  "undisturbed io i \<longleftrightarrow>
     (\<forall>op \<in> set (fi_others io 0). op_fenced op) \<and> quiet io i (fi_deliveryID io) 1 \<and> quiet io i (fi_deliveryID io) 2 \<and> quiet io i (fi_deliveryID io) 3"

lemma fire_holds:
  assumes wf: "store_wf s" "fenced d" and id: "trim_space (fi_deliveryID io) = fi_deliveryID io" and u: "undisturbed io (td_TriggerID d)"
    and f: "fire io d reason payload force opts s = (r, subs, s')" "subs \<noteq> []"
  shows "held (td_TriggerID d) (fi_deliveryID io) s' \<and> fi_deliveryID io \<noteq> []"
proof -
  let ?i = "td_TriggerID d" and ?x = "fi_deliveryID io"
  obtain session mode bnd where fd: "fire_deliver io d reason payload opts session mode bnd s = (r, subs, s')"
    using fire_cases[of io d reason payload force opts s] f(2) unfolding f(1) by (metis fst_conv snd_conv)
  have wf0: "store_wf (others io 0 s)" using wf(1) u by (simp add: others_def run_ops_wf undisturbed_def)
  define occ where "occ = (if reason = ''schedule'' then td_NextFireAt d else None)"
  obtain s1 client content where c: "fire_claim io d reason opts session occ (others io 0 s) = (None, s1)"
    and fc: "fire_claimed io d reason payload session mode bnd client content occ (others io 1 s1) = (r, subs, s')"
    using fd f(2) unfolding fire_deliver_def Let_def occ_def[symmetric]
    by (auto simp: sched_record_def AddHistory_def split: prod.splits option.splits)
  note a = fire_claim_accepted[OF c]
  have x: "claimed ?i ?x s1" "?x \<noteq> []" using claim_claims[OF a wf0] id by simp_all
  have "store_wf s1" using claim_wf[OF wf0] a by (metis snd_conv)
  then have "held ?i ?x (others io 1 s1)" using x u by (intro held_others) (simp_all add: held_def undisturbed_def)
  then have "keeps ?i ?x (r, subs, s')" unfolding fc[symmetric]
    using x(2) u wf(2) by (intro fire_claimed_keeps) (simp_all add: undisturbed_def)
  then show ?thesis using f(2) x(2) by (simp add: keeps_def)
qed


text \<open>When the submitter refuses the message the claim is kept: the trigger is blocked although nothing is under way.\<close>

lemma failed_submission_blocks:
  assumes "held i x s" "x \<noteq> []" "quiet io i x 3" "fi_submit io (submission_of io d session content) = Some e"
    and "fire_submit io d reason payload session mode bnd client content s = (r, subs, s')"
  shows "fr_Status r = FireStatusError \<and> subs = [] \<and> held i x s'"
proof -
  have o: "held i x (others io 3 s)" by (rule held_others[OF assms(1-3)])
  have eq: "(r, subs, s') = sched_record io d FireStatusError reason payload e (Some session) (Some client) content [] (others io 3 s)"
    using assms(4,5) by (simp add: fire_submit_def Let_def)
  then have "held i x s'" using held_record[OF o] by (metis snd_conv)
  then show ?thesis using eq by (simp add: sched_record_def AddHistory_def fire_record_of_def)
qed

section \<open>A call\<close>

text \<open>The demo trigger is fired by its agent, the process restarts, and it is fired again by force.\<close>

definition demo_io :: "string \<Rightarrow> fire_io" where
  "demo_io x = \<lparr>fi_env = demo_env, fi_texts = demo_texts, fi_error_text = (\<lambda>_. ''error''), fi_marshal = (\<lambda>_. ''null''), fi_resolver = None,
     fi_targeted = True, fi_deliverer = True, fi_autoer = True, fi_ensureAgent = (\<lambda>a r. Inr a), fi_ensure = (\<lambda>r. Inr r), fi_runner = None,
     fi_submit = (\<lambda>_. None), fi_deliveryID = x, fi_fireID = ''f'', fi_now = (\<lambda>_. demo_now), fi_dir = True, fi_ok = (\<lambda>_. True),
     fi_others = (\<lambda>_. [])\<rparr>"

definition demo_def :: trigger_def where
  "demo_def = the (GetTrigger ''t'' (demo_run [demo_create minute]))"


end
