(* ===== verification/Stream_Hub.thy ===== *)
theory Stream_Hub
  imports Msg_Queue
begin

text \<open>
  The event hub of a node: \<^verbatim>\<open>stream/hub.go\<close>. Sequence numbers, the bounded history, subscriptions that replay from a cursor, and the fan-out into the subscribers' buffered channels.

  A channel is a number and its content a list with a capacity. A critical event that finds a full channel is sent again after the lock was released: \<open>deliver_attempt\<close> is one
  round of that loop. The time stamp of an event is an argument, the listener that the server registers is left out.

  \<open>resync_exact\<close>: a subscription with an agent cursor asks for a resynchronisation exactly when the cursor belongs to an earlier process or an event after it is no longer retained.
  \<open>stream_resume_exact\<close>: otherwise a client that keeps up sees every later replayable event of its agent exactly once and in order.
\<close>

section \<open>State\<close>

record hub_event =
  he_AgentID :: string
  he_Type :: string
  he_Seq :: int
  he_AgentSeq :: int
  he_EventVersion :: int
  he_StreamEpoch :: string
  he_Delivery :: string
  he_TS :: string
  he_Data :: "(string, go_any) gomap"

record subscriber =
  sb_filter :: string
  sb_cap :: nat
  sb_queue :: "hub_event list"

record hub =
  hb_seq :: int
  hb_agentSeq :: "(string, int) gomap"
  hb_epoch :: string
  hb_history :: "hub_event list"
  hb_historyN :: nat
  hb_subs :: "(nat, subscriber) gomap"
  hb_nextCh :: nat

record subscription =
  sn_Events :: nat
  sn_ResyncRequired :: bool
  sn_StreamEpoch :: string
  sn_CurrentSeq :: int
  sn_CurrentAgentSeq :: int

definition defaultHistorySize :: nat where "defaultHistorySize = 256"
definition defaultSubscriberBuffer :: nat where "defaultSubscriberBuffer = 256"
definition CurrentEventVersion :: int where "CurrentEventVersion = 1"

definition NewHub :: "int \<Rightarrow> string \<Rightarrow> hub" where
  "NewHub historyN epoch =
     \<lparr>hb_seq = 0, hb_agentSeq = [], hb_epoch = epoch, hb_history = [],
      hb_historyN = (if historyN \<le> 0 then defaultHistorySize else nat historyN), hb_subs = [], hb_nextCh = 0\<rparr>"

definition agent_seq :: "hub \<Rightarrow> string \<Rightarrow> int" where
  "agent_seq h a = (case map_of (hb_agentSeq h) a of None \<Rightarrow> 0 | Some n \<Rightarrow> n)"

section \<open>Publishing\<close>

definition deliveryKind :: "bool \<Rightarrow> string" where
  "deliveryKind replayable = (if replayable then ''replayable'' else ''ephemeral'')"

definition isCriticalSSEType :: "string \<Rightarrow> bool" where
  "isCriticalSSEType t \<longleftrightarrow>
     t = ''turn_finished'' \<or> t = ''error'' \<or> t = ''hitl_required'' \<or> t = ''turn_state'' \<or> t = ''notification_changed'' \<or> t = ''resync_required''"

definition subscriberMatches :: "subscriber \<Rightarrow> string \<Rightarrow> bool" where
  "subscriberMatches sub agentID =
     (let filt = trim_space (sb_filter sub); i = trim_space agentID in filt = [] \<or> i \<noteq> [] \<and> filt = i)"

definition sub_room :: "subscriber \<Rightarrow> bool" where
  "sub_room sub \<longleftrightarrow> length (sb_queue sub) < sb_cap sub"

definition sub_send :: "hub_event \<Rightarrow> subscriber \<Rightarrow> subscriber" where
  "sub_send ev sub = (if subscriberMatches sub (he_AgentID ev) \<and> sub_room sub then sub\<lparr>sb_queue := sb_queue sub @ [ev]\<rparr> else sub)"

text \<open>The event, the channels to which it has to be sent again, and the hub.\<close>

definition hub_publish :: "string \<Rightarrow> string \<Rightarrow> (string, go_any) gomap \<Rightarrow> bool \<Rightarrow> string \<Rightarrow> hub \<Rightarrow> hub_event \<times> nat list \<times> hub" where
  "hub_publish agentID eventType payload replayable ts h =
     (let counted = replayable \<and> trim_space agentID \<noteq> [];
          seqs = (if counted then AList.update agentID (agent_seq h agentID + 1) (hb_agentSeq h) else hb_agentSeq h);
          ev = \<lparr>he_AgentID = agentID, he_Type = eventType, he_Seq = hb_seq h + 1, he_AgentSeq = (if counted then agent_seq h agentID + 1 else 0),
                he_EventVersion = CurrentEventVersion, he_StreamEpoch = hb_epoch h, he_Delivery = deliveryKind replayable, he_TS = ts, he_Data = payload\<rparr>;
          hist = (if replayable then hb_history h @ [ev] else hb_history h);
          hist' = (if replayable \<and> length hist > hb_historyN h then drop (length hist - hb_historyN h) hist else hist);
          deferred = [c. (c, sub) \<leftarrow> hb_subs h, subscriberMatches sub agentID, \<not> sub_room sub, isCriticalSSEType eventType]
      in (ev, deferred, h\<lparr>hb_seq := hb_seq h + 1, hb_agentSeq := seqs, hb_history := hist', hb_subs := map_values (sub_send ev) (hb_subs h)\<rparr>))"

definition hub_Publish where
  "hub_Publish agentID eventType payload ts h = hub_publish agentID eventType payload True ts h"

definition hub_PublishEphemeral where
  "hub_PublishEphemeral agentID eventType payload ts h = hub_publish agentID eventType payload False ts h"

text \<open>One round of the loop that sends a critical event again: done when it was sent or the channel is closed (the panic is recovered).\<close>

definition deliver_attempt :: "nat \<Rightarrow> hub_event \<Rightarrow> hub \<Rightarrow> bool \<times> hub" where
  "deliver_attempt c ev h =
     (case map_of (hb_subs h) c of
        None \<Rightarrow> (True, h)
      | Some sub \<Rightarrow>
          if sub_room sub then (True, h\<lparr>hb_subs := AList.update c (sub\<lparr>sb_queue := sb_queue sub @ [ev]\<rparr>) (hb_subs h)\<rparr>) else (False, h))"

text \<open>The loop: \<open>others\<close> is what happens to the hub during each sleep; at its end the deadline has passed and the event is dropped.\<close>

fun deliverCriticalSSE :: "nat \<Rightarrow> hub_event \<Rightarrow> (hub \<Rightarrow> hub) list \<Rightarrow> hub \<Rightarrow> hub" where
  "deliverCriticalSSE c ev others h =
     (case deliver_attempt c ev h of
        (True, h1) \<Rightarrow> h1
      | (False, h1) \<Rightarrow> (case others of [] \<Rightarrow> h1 | f # fs \<Rightarrow> deliverCriticalSSE c ev fs (f h1)))"

definition CurrentSeq :: "hub \<Rightarrow> int" where
  "CurrentSeq h = hb_seq h"

definition CurrentAgentSeq :: "string \<Rightarrow> hub \<Rightarrow> int" where
  "CurrentAgentSeq agentID h = agent_seq h (trim_space agentID)"

section \<open>Subscribing\<close>

definition firstRetainedAgentSeq :: "hub_event list \<Rightarrow> string \<Rightarrow> int" where
  "firstRetainedAgentSeq hist agentID =
     (case find (\<lambda>ev. he_AgentID ev = agentID \<and> he_AgentSeq ev > 0) hist of None \<Rightarrow> 0 | Some ev \<Rightarrow> he_AgentSeq ev)"

text \<open>The check of the cursor: whether a resynchronisation is needed, and the two cursors afterwards.\<close>

definition check_cursor :: "int \<Rightarrow> int \<Rightarrow> string \<Rightarrow> bool \<Rightarrow> bool \<Rightarrow> hub \<Rightarrow> bool \<times> int \<times> int" where
  "check_cursor afterGlobal afterAgent filt checkRetention useAgentCursor h =
     (if checkRetention \<and> filt \<noteq> [] \<and> useAgentCursor then
        (let current = agent_seq h filt
         in if afterAgent > current then (True, afterGlobal, current)
            else if hb_history h \<noteq> [] \<and> current > afterAgent then
              (let first = firstRetainedAgentSeq (hb_history h) filt in (first = 0 \<or> afterAgent < first - 1, afterGlobal, afterAgent))
            else (False, afterGlobal, afterAgent))
      else if checkRetention then
        (if afterGlobal > hb_seq h then (True, hb_seq h, afterAgent)
         else if hb_history h \<noteq> [] then (afterGlobal < he_Seq (hd (hb_history h)) - 1, afterGlobal, afterAgent)
         else (False, afterGlobal, afterAgent))
      else (False, afterGlobal, afterAgent))"

definition is_replayed :: "int \<Rightarrow> int \<Rightarrow> string \<Rightarrow> bool \<Rightarrow> hub_event \<Rightarrow> bool" where
  "is_replayed afterGlobal afterAgent filt useAgentCursor ev \<longleftrightarrow>
     (if filt = [] \<or> \<not> useAgentCursor then he_Seq ev > afterGlobal else he_AgentSeq ev > afterAgent) \<and>
     (filt = [] \<or> subscriberMatches \<lparr>sb_filter = filt, sb_cap = 0, sb_queue = []\<rparr> (he_AgentID ev))"

definition subscribeLocked :: "int \<Rightarrow> int \<Rightarrow> string \<Rightarrow> bool \<Rightarrow> bool \<Rightarrow> hub \<Rightarrow> subscription \<times> hub" where
  "subscribeLocked afterGlobal0 afterAgent0 filt checkRetention useAgentCursor h =
     (let cap = (if length (hb_history h) + 1 > defaultSubscriberBuffer then length (hb_history h) + 1 else defaultSubscriberBuffer)
      in case check_cursor afterGlobal0 afterAgent0 filt checkRetention useAgentCursor h of
           (resync, afterGlobal, afterAgent) \<Rightarrow>
             let sub = \<lparr>sb_filter = filt, sb_cap = cap, sb_queue = filter (is_replayed afterGlobal afterAgent filt useAgentCursor) (hb_history h)\<rparr>
             in (\<lparr>sn_Events = hb_nextCh h, sn_ResyncRequired = resync, sn_StreamEpoch = hb_epoch h, sn_CurrentSeq = hb_seq h,
                  sn_CurrentAgentSeq = agent_seq h filt\<rparr>,
                 h\<lparr>hb_subs := AList.update (hb_nextCh h) sub (hb_subs h), hb_nextCh := hb_nextCh h + 1\<rparr>))"

definition SubscribeAgent :: "int \<Rightarrow> string \<Rightarrow> hub \<Rightarrow> nat \<times> hub" where
  "SubscribeAgent afterSeq agentFilter h =
     (case subscribeLocked afterSeq 0 (trim_space agentFilter) True False h of (sn, h') \<Rightarrow> (sn_Events sn, h'))"

definition Subscribe :: "int \<Rightarrow> hub \<Rightarrow> nat \<times> hub" where
  "Subscribe afterSeq h = SubscribeAgent afterSeq [] h"

definition SubscribeAgentCursor :: "int \<Rightarrow> int \<Rightarrow> string \<Rightarrow> hub \<Rightarrow> subscription \<times> hub" where
  "SubscribeAgentCursor afterGlobalSeq afterAgentSeq agentFilter h =
     subscribeLocked afterGlobalSeq afterAgentSeq (trim_space agentFilter) True (trim_space agentFilter \<noteq> []) h"

definition SubscribeAgentLive :: "string \<Rightarrow> hub \<Rightarrow> subscription \<times> hub" where
  "SubscribeAgentLive agentFilter h =
     (let filt = trim_space agentFilter
      in subscribeLocked (hb_seq h) (if filt \<noteq> [] then agent_seq h filt else 0) filt False False h)"

definition Unsubscribe :: "nat \<Rightarrow> hub \<Rightarrow> hub" where
  "Unsubscribe c h = (if map_of (hb_subs h) c = None then h else h\<lparr>hb_subs := AList.delete c (hb_subs h)\<rparr>)"

text \<open>A consumer takes the next event of its channel.\<close>

definition chan_receive :: "nat \<Rightarrow> hub \<Rightarrow> hub_event option \<times> hub" where
  "chan_receive c h =
     (case map_of (hb_subs h) c of
        None \<Rightarrow> (None, h)
      | Some sub \<Rightarrow>
          (case sb_queue sub of
             [] \<Rightarrow> (None, h)
           | ev # evs \<Rightarrow> (Some ev, h\<lparr>hb_subs := AList.update c (sub\<lparr>sb_queue := evs\<rparr>) (hb_subs h)\<rparr>)))"

section \<open>Printing\<close>

text \<open>Digits from the right; a negative number prints as nothing, as in the code.\<close>

function itoa_digits :: "int \<Rightarrow> string \<Rightarrow> string" where
  "itoa_digits n buf = (if n > 0 then itoa_digits (n div 10) (digit_char (nat (n mod 10)) # buf) else buf)"
  by pat_completeness auto
termination
  by (relation "measure (\<lambda>(n, _). nat n)") auto

declare itoa_digits.simps [simp del]

definition hub_itoa :: "int \<Rightarrow> string" where
  "hub_itoa n = (if n = 0 then ''0'' else itoa_digits n [])"

definition FormatSSE :: "(hub_event \<Rightarrow> string) \<Rightarrow> hub_event \<Rightarrow> string" where
  "FormatSSE marshal e = ''id: '' @ hub_itoa (he_Seq e) @ [CHR 0x0A] @ ''event: '' @ he_Type e @ [CHR 0x0A] @ ''data: '' @ marshal e @ [CHR 0x0A, CHR 0x0A]"

section \<open>Runs\<close>

datatype hub_op =
    HPublish string string "(string, go_any) gomap" bool string
  | HSubscribe int int string bool bool
  | HUnsubscribe nat
  | HReceive nat
  | HDeliver nat hub_event

fun hub_step :: "hub_op \<Rightarrow> hub \<Rightarrow> hub" where
  "hub_step (HPublish agent typ' payload replayable ts) h = snd (snd (hub_publish agent typ' payload replayable ts h))"
| "hub_step (HSubscribe afterGlobal afterAgent filt check useAgent) h = snd (subscribeLocked afterGlobal afterAgent filt check useAgent h)"
| "hub_step (HUnsubscribe c) h = Unsubscribe c h"
| "hub_step (HReceive c) h = snd (chan_receive c h)"
| "hub_step (HDeliver c ev) h = snd (deliver_attempt c ev h)"

text \<open>The event an operation publishes, and the one a consumer of \<open>c\<close> takes.\<close>

fun step_event :: "hub_op \<Rightarrow> hub \<Rightarrow> hub_event list" where
  "step_event (HPublish agent typ' payload replayable ts) h = [fst (hub_publish agent typ' payload replayable ts h)]"
| "step_event _ h = []"

fun step_taken :: "nat \<Rightarrow> hub_op \<Rightarrow> hub \<Rightarrow> hub_event list" where
  "step_taken c (HReceive d) h = (if d = c then (case fst (chan_receive c h) of None \<Rightarrow> [] | Some ev \<Rightarrow> [ev]) else [])"
| "step_taken c _ h = []"

fun hub_ops :: "hub_op list \<Rightarrow> hub \<Rightarrow> hub" where
  "hub_ops [] h = h"
| "hub_ops (op # ops) h = hub_ops ops (hub_step op h)"

fun published :: "hub_op list \<Rightarrow> hub \<Rightarrow> hub_event list" where
  "published [] h = []"
| "published (op # ops) h = step_event op h @ published ops (hub_step op h)"

fun taken :: "nat \<Rightarrow> hub_op list \<Rightarrow> hub \<Rightarrow> hub_event list" where
  "taken c [] h = []"
| "taken c (op # ops) h = step_taken c op h @ taken c ops (hub_step op h)"

definition replayable_event :: "hub_event \<Rightarrow> bool" where
  "replayable_event e \<longleftrightarrow> he_Delivery e = ''replayable''"

text \<open>Everything that was published for replay.\<close>

definition hub_log :: "hub_op list \<Rightarrow> hub \<Rightarrow> hub_event list" where
  "hub_log ops h = filter replayable_event (published ops h)"

definition agent_events :: "string \<Rightarrow> hub_event list \<Rightarrow> hub_event list" where
  "agent_events a lg = filter (\<lambda>e. he_AgentID e = a) lg"

section \<open>The log and what is retained of it\<close>

definition hub_inv :: "hub \<Rightarrow> hub_event list \<Rightarrow> bool" where
  "hub_inv h lg \<longleftrightarrow>
     1 \<le> hb_historyN h \<and> hb_history h = drop (length lg - hb_historyN h) lg \<and>
     sorted_wrt (<) (map he_Seq lg) \<and> (\<forall>e \<in> set lg. he_Seq e \<le> hb_seq h) \<and>
     (\<forall>a. 0 \<le> agent_seq h a \<and> (trim_space a \<noteq> [] \<longrightarrow> map he_AgentSeq (agent_events a lg) = [1..agent_seq h a]))"

lemma hub_inv_core:
  assumes "hub_inv h lg" "hb_seq h' = hb_seq h" "hb_agentSeq h' = hb_agentSeq h" "hb_history h' = hb_history h" "hb_historyN h' = hb_historyN h"
  shows "hub_inv h' lg"
  using assms by (simp add: hub_inv_def agent_seq_def)

lemma hub_inv_new: "hub_inv (NewHub n epoch) []"
  by (auto simp: hub_inv_def NewHub_def agent_seq_def agent_events_def defaultHistorySize_def)

lemma keep_last: "drop (length (drop (length xs - n) xs @ [x]) - n) (drop (length xs - n) xs @ [x]) = drop (length (xs @ [x]) - n) (xs @ [x])"
  if "1 \<le> n" for xs :: "'a list"
  using that by (cases "n \<le> length xs") (auto simp: Suc_diff_le)

lemma publish_fields:
  assumes "hub_publish a t p r ts h = (ev, deferred, h')"
  shows "he_AgentID ev = a" "he_Seq ev = hb_seq h + 1" "replayable_event ev \<longleftrightarrow> r" "hb_seq h' = hb_seq h + 1" "hb_historyN h' = hb_historyN h"
    "he_AgentSeq ev = (if r \<and> trim_space a \<noteq> [] then agent_seq h a + 1 else 0)"
    "agent_seq h' b = (if r \<and> trim_space a \<noteq> [] \<and> b = a then agent_seq h a + 1 else agent_seq h b)"
    "hb_history h' = (if r then drop (length (hb_history h @ [ev]) - hb_historyN h) (hb_history h @ [ev]) else hb_history h)"
    "hb_subs h' = map_values (sub_send ev) (hb_subs h)" "hb_nextCh h' = hb_nextCh h"
  using assms by (cases r; auto simp: hub_publish_def Let_def replayable_event_def deliveryKind_def agent_seq_def update_conv')+

lemma hub_inv_publish:
  assumes inv: "hub_inv h lg" and p: "hub_publish a t p r ts h = (ev, deferred, h')"
  shows "hub_inv h' (if r then lg @ [ev] else lg)"
proof (cases r)
  case True
  have n: "1 \<le> hb_historyN h" and hist: "hb_history h = drop (length lg - hb_historyN h) lg" using inv by (simp_all add: hub_inv_def)
  have "hb_history h' = drop (length (lg @ [ev]) - hb_historyN h') (lg @ [ev])"
    using publish_fields(5,8)[OF p] True hist keep_last[OF n, of lg ev] by simp
  moreover have "sorted_wrt (<) (map he_Seq (lg @ [ev]))" "\<forall>e \<in> set (lg @ [ev]). he_Seq e \<le> hb_seq h'"
    using inv publish_fields(2,4)[OF p] by (force simp: hub_inv_def sorted_wrt_append)+
  moreover have "0 \<le> agent_seq h' b \<and> (trim_space b \<noteq> [] \<longrightarrow> map he_AgentSeq (agent_events b (lg @ [ev])) = [1..agent_seq h' b])" for b
  proof -
    have b: "0 \<le> agent_seq h b" "trim_space b \<noteq> [] \<Longrightarrow> map he_AgentSeq (agent_events b lg) = [1..agent_seq h b]"
      using inv by (simp_all add: hub_inv_def)
    show ?thesis
    proof (cases "a = b")
      case True
      then show ?thesis using b publish_fields(1,6,7)[OF p] \<open>r\<close> by (auto simp: agent_events_def upto_rec2)
    next
      case False
      then show ?thesis using b publish_fields(1,7)[OF p] by (simp add: agent_events_def)
    qed
  qed
  ultimately show ?thesis using n publish_fields(5)[OF p] True by (simp add: hub_inv_def)
next
  case False
  then show ?thesis using inv publish_fields(4,5,7,8)[OF p] by (force simp: hub_inv_def)
qed

lemma step_core:
  assumes "step_event op h = []"
  shows "hb_seq (hub_step op h) = hb_seq h" "hb_agentSeq (hub_step op h) = hb_agentSeq h" "hb_history (hub_step op h) = hb_history h"
    "hb_historyN (hub_step op h) = hb_historyN h"
  using assms by (cases op; auto simp: subscribeLocked_def Let_def Unsubscribe_def chan_receive_def deliver_attempt_def
      split: prod.splits option.splits list.splits)+

lemma hub_inv_step: "hub_inv h lg \<Longrightarrow> hub_inv (hub_step op h) (lg @ filter replayable_event (step_event op h))"
proof (cases op)
  case (HPublish a t p r ts)
  assume inv: "hub_inv h lg"
  obtain ev deferred h' where e: "hub_publish a t p r ts h = (ev, deferred, h')" by (cases "hub_publish a t p r ts h")
  then show ?thesis using hub_inv_publish[OF inv e] publish_fields(3)[OF e] HPublish by (cases r) simp_all
qed (auto intro!: hub_inv_core[where h = h] simp del: hub_step.simps simp: step_core)

lemma hub_inv_ops: "hub_inv h lg \<Longrightarrow> hub_inv (hub_ops ops h) (lg @ hub_log ops h)"
proof (induction ops arbitrary: h lg)
  case (Cons op ops)
  then show ?case using Cons.IH[OF hub_inv_step[OF Cons.prems, of op]] by (simp add: hub_log_def)
qed (simp add: hub_log_def)

lemma upto_halves:
  assumes "xs @ ys = [1..n]"
  shows "xs = [1..int (length xs)] \<and> ys = [int (length xs) + 1..n] \<and> int (length xs) \<le> max 0 n"
proof -
  have len: "int (length xs) \<le> max 0 n" using arg_cong[OF assms, of length] by simp
  have "[1..n] = [1..int (length xs)] @ [int (length xs) + 1..n]"
    using len upto_split2[of 1 "int (length xs)" n] by (cases "xs = []") (auto simp: max_def Suc_leI split: if_splits)
  then have "xs = [1..int (length xs)] \<and> ys = [int (length xs) + 1..n]" using assms by (simp add: append_eq_append_conv)
  then show ?thesis using len by blast
qed

text \<open>The lost and the retained events of an agent: the first \<open>j\<close> and the others.\<close>

definition lost :: "hub \<Rightarrow> hub_event list \<Rightarrow> hub_event list" where
  "lost h lg = take (length lg - hb_historyN h) lg"

lemma retained_split:
  assumes inv: "hub_inv h lg" and f: "trim_space f \<noteq> []"
  defines "j \<equiv> int (length (agent_events f (lost h lg)))"
  shows "map he_AgentSeq (agent_events f (lost h lg)) = [1..j]" "map he_AgentSeq (agent_events f (hb_history h)) = [j + 1..agent_seq h f]"
    "j \<le> agent_seq h f"
proof -
  have hist: "hb_history h = drop (length lg - hb_historyN h) lg" and seqs: "map he_AgentSeq (agent_events f lg) = [1..agent_seq h f]"
    and n: "0 \<le> agent_seq h f" using inv f by (simp_all add: hub_inv_def)
  have "lg = lost h lg @ hb_history h" by (simp add: hist lost_def)
  then have "agent_events f lg = agent_events f (lost h lg) @ agent_events f (hb_history h)" unfolding agent_events_def by (metis filter_append)
  then have split: "map he_AgentSeq (agent_events f (lost h lg)) @ map he_AgentSeq (agent_events f (hb_history h)) = [1..agent_seq h f]"
    using seqs by simp
  show "map he_AgentSeq (agent_events f (lost h lg)) = [1..j]" "map he_AgentSeq (agent_events f (hb_history h)) = [j + 1..agent_seq h f]"
    "j \<le> agent_seq h f"
    using upto_halves[OF split] n by (simp_all add: j_def)
qed

lemma find_filter_hd: "find P xs = (case filter P xs of [] \<Rightarrow> None | x # _ \<Rightarrow> Some x)"
  by (induction xs) auto

lemma first_retained:
  assumes inv: "hub_inv h lg" and f: "trim_space f \<noteq> []"
  defines "j \<equiv> int (length (agent_events f (lost h lg)))"
  shows "firstRetainedAgentSeq (hb_history h) f = (if j < agent_seq h f then j + 1 else 0)"
proof -
  note r = retained_split[OF inv f, folded j_def]
  have pos: "he_AgentSeq e > 0" if "e \<in> set (agent_events f (hb_history h))" for e
  proof -
    have "he_AgentSeq e \<in> set [j + 1..agent_seq h f]" using that unfolding r(2)[symmetric] by simp
    then show ?thesis by (simp add: j_def)
  qed
  have "filter (\<lambda>ev. he_AgentID ev = f \<and> he_AgentSeq ev > 0) (hb_history h) = agent_events f (hb_history h)"
    unfolding agent_events_def using pos by (intro filter_cong) (auto simp: agent_events_def)
  then have find: "find (\<lambda>ev. he_AgentID ev = f \<and> he_AgentSeq ev > 0) (hb_history h) =
      (case agent_events f (hb_history h) of [] \<Rightarrow> None | x # xs \<Rightarrow> Some x)"
    by (simp add: find_filter_hd split: list.splits)
  show ?thesis
  proof (cases "j < agent_seq h f")
    case True
    then obtain e es where e: "agent_events f (hb_history h) = e # es" using r(2) by (cases "agent_events f (hb_history h)") auto
    then have "he_AgentSeq e = j + 1" using r(2) True by (simp add: upto_rec1)
    then show ?thesis using True e find by (simp add: firstRetainedAgentSeq_def)
  next
    case False
    then have "agent_events f (hb_history h) = []" using r(2) by simp
    then show ?thesis using False find by (simp add: firstRetainedAgentSeq_def)
  qed
qed


section \<open>When a client has to start afresh\<close>

lemma log_distinct: "hub_inv h lg \<Longrightarrow> distinct lg"
  by (metis distinct_map hub_inv_def strict_sorted_iff)

lemma lost_or_retained:
  assumes "hub_inv h lg"
  shows "set lg = set (lost h lg) \<union> set (hb_history h)" "set (lost h lg) \<inter> set (hb_history h) = {}"
proof -
  have "lg = lost h lg @ hb_history h" using assms by (simp add: hub_inv_def lost_def)
  then show "set lg = set (lost h lg) \<union> set (hb_history h)" "set (lost h lg) \<inter> set (hb_history h) = {}"
    using log_distinct[OF assms] by (metis set_append, metis distinct_append)
qed

lemma lost_after:
  assumes inv: "hub_inv h lg" and f: "trim_space f \<noteq> []" and k: "0 \<le> k"
  shows "(\<exists>e \<in> set lg. he_AgentID e = f \<and> he_AgentSeq e > k \<and> e \<notin> set (hb_history h)) \<longleftrightarrow> k < int (length (agent_events f (lost h lg)))"
    (is "?gone \<longleftrightarrow> k < ?j")
proof -
  have "?gone \<longleftrightarrow> (\<exists>e \<in> set (agent_events f (lost h lg)). he_AgentSeq e > k)"
    using lost_or_retained[OF inv] by (auto simp: agent_events_def)
  also have "\<dots> \<longleftrightarrow> (\<exists>s \<in> set [1..?j]. s > k)" unfolding retained_split(1)[OF inv f, symmetric] by simp
  also have "\<dots> \<longleftrightarrow> k < ?j" using k by auto
  finally show ?thesis .
qed

lemma cursor_check:
  assumes inv: "hub_inv h lg" and f: "trim_space f \<noteq> []" and k: "0 \<le> k"
  shows "fst (check_cursor g k f True True h) \<longleftrightarrow> k > agent_seq h f \<or> k < int (length (agent_events f (lost h lg)))"
    "\<not> fst (check_cursor g k f True True h) \<Longrightarrow> check_cursor g k f True True h = (False, g, k)"
proof -
  let ?j = "int (length (agent_events f (lost h lg)))"
  have "f \<noteq> []" using f by auto
  moreover have "hb_history h = [] \<Longrightarrow> ?j = 0"
    using inv by (cases lg) (auto simp: hub_inv_def lost_def agent_events_def)
  ultimately show "fst (check_cursor g k f True True h) \<longleftrightarrow> k > agent_seq h f \<or> k < ?j"
    using first_retained[OF inv f] retained_split(3)[OF inv f] k by (auto simp: check_cursor_def Let_def)
  show "\<not> fst (check_cursor g k f True True h) \<Longrightarrow> check_cursor g k f True True h = (False, g, k)"
    using \<open>f \<noteq> []\<close> by (auto simp: check_cursor_def Let_def split: if_splits)
qed

lemma cursor_subscription:
  assumes "trim_space filt \<noteq> []"
  shows "sn_ResyncRequired (fst (SubscribeAgentCursor g k filt h)) = fst (check_cursor g k (trim_space filt) True True h)"
    "sn_Events (fst (SubscribeAgentCursor g k filt h)) = hb_nextCh h"
  using assms by (auto simp: SubscribeAgentCursor_def subscribeLocked_def Let_def split: prod.splits)

text \<open>
  C28. A client that resumes with the number of the last event of an agent it has seen is told to start afresh exactly when that number is ahead of the node's counter, so that it belongs to an
  earlier process, or an event of that agent after it has already left the bounded history. This holds after any sequence of publications, subscriptions and deliveries, for every
  history size, although the code only looks at the first event of the agent it still retains.
\<close>

theorem resync_exact:
  assumes "trim_space filt \<noteq> []" "0 \<le> k"
  shows "sn_ResyncRequired (fst (SubscribeAgentCursor g k filt (hub_ops ops (NewHub n epoch)))) \<longleftrightarrow>
           k > CurrentAgentSeq filt (hub_ops ops (NewHub n epoch)) \<or>
           (\<exists>e \<in> set (hub_log ops (NewHub n epoch)).
              he_AgentID e = trim_space filt \<and> he_AgentSeq e > k \<and> e \<notin> set (hb_history (hub_ops ops (NewHub n epoch))))"
proof -
  have inv: "hub_inv (hub_ops ops (NewHub n epoch)) (hub_log ops (NewHub n epoch))" using hub_inv_ops[OF hub_inv_new] by simp
  have f: "trim_space (trim_space filt) \<noteq> []" using assms(1) by simp
  show ?thesis
    unfolding cursor_subscription(1)[OF assms(1)] cursor_check(1)[OF inv f assms(2)] lost_after[OF inv f assms(2)] CurrentAgentSeq_def ..
qed


section \<open>What a client receives\<close>

text \<open>The consumer of channel \<open>c\<close> keeps up: it has room at every publication it is to receive, so that nothing is dropped or sent again, and it stays subscribed.\<close>

definition keeps_up_step :: "nat \<Rightarrow> hub_op \<Rightarrow> hub \<Rightarrow> bool" where
  "keeps_up_step c op h =
     (case op of
        HPublish agent _ _ _ _ \<Rightarrow> (case map_of (hb_subs h) c of None \<Rightarrow> False | Some sub \<Rightarrow> subscriberMatches sub agent \<longrightarrow> sub_room sub)
      | HUnsubscribe d \<Rightarrow> d \<noteq> c
      | HDeliver d _ \<Rightarrow> d \<noteq> c
      | _ \<Rightarrow> True)"

fun keeps_up :: "nat \<Rightarrow> hub_op list \<Rightarrow> hub \<Rightarrow> bool" where
  "keeps_up c [] h = True"
| "keeps_up c (op # ops) h = (keeps_up_step c op h \<and> keeps_up c ops (hub_step op h))"

definition chan_queue :: "nat \<Rightarrow> hub \<Rightarrow> hub_event list" where
  "chan_queue c h = (case map_of (hb_subs h) c of None \<Rightarrow> [] | Some sub \<Rightarrow> sb_queue sub)"

definition subscribed :: "nat \<Rightarrow> string \<Rightarrow> hub \<Rightarrow> bool" where
  "subscribed c filt h \<longleftrightarrow> c < hb_nextCh h \<and> (\<exists>sub. map_of (hb_subs h) c = Some sub \<and> sb_filter sub = filt)"

definition matching :: "string \<Rightarrow> hub_event \<Rightarrow> bool" where
  "matching filt ev = subscriberMatches \<lparr>sb_filter = filt, sb_cap = 0, sb_queue = []\<rparr> (he_AgentID ev)"

lemma matching_sub: "subscriberMatches sub (he_AgentID ev) = matching (sb_filter sub) ev"
  by (simp add: matching_def subscriberMatches_def)

lemma keeps_up_publish:
  assumes "subscribed c filt h" "keeps_up_step c (HPublish a t p r ts) h"
  shows "subscribed c filt (hub_step (HPublish a t p r ts) h)"
    "chan_queue c (hub_step (HPublish a t p r ts) h) = chan_queue c h @ filter (matching filt) (step_event (HPublish a t p r ts) h)"
proof -
  obtain ev deferred h' where e: "hub_publish a t p r ts h = (ev, deferred, h')" by (cases "hub_publish a t p r ts h")
  note F = publish_fields[OF e]
  obtain sub where sub: "map_of (hb_subs h) c = Some sub" "sb_filter sub = filt" "c < hb_nextCh h" using assms(1) by (auto simp: subscribed_def)
  have room: "matching filt ev \<Longrightarrow> sub_room sub" using assms(2) sub F(1) by (simp add: keeps_up_step_def matching_def subscriberMatches_def)
  have sub': "map_of (hb_subs h') c = Some (sub_send ev sub)" using sub F(9) by (simp add: map_of_map_values)
  show "subscribed c filt (hub_step (HPublish a t p r ts) h)"
    using sub sub' F(10) e by (simp add: subscribed_def sub_send_def)
  show "chan_queue c (hub_step (HPublish a t p r ts) h) = chan_queue c h @ filter (matching filt) (step_event (HPublish a t p r ts) h)"
    using sub sub' e room by (simp add: chan_queue_def sub_send_def matching_sub)
qed

lemma keeps_up_one:
  assumes "subscribed c filt h" "keeps_up_step c op h"
  shows "subscribed c filt (hub_step op h)"
    "step_taken c op h @ chan_queue c (hub_step op h) = chan_queue c h @ filter (matching filt) (step_event op h)"
proof (atomize (full), cases op)
  case (HPublish a t p r ts)
  then show "subscribed c filt (hub_step op h) \<and>
      step_taken c op h @ chan_queue c (hub_step op h) = chan_queue c h @ filter (matching filt) (step_event op h)"
    using keeps_up_publish[of c filt h a t p r ts] assms by simp
qed (use assms in \<open>auto simp: subscribed_def chan_queue_def keeps_up_step_def subscribeLocked_def Let_def Unsubscribe_def chan_receive_def deliver_attempt_def
      update_conv' delete_conv' split: prod.splits option.splits list.splits\<close>)

lemma keeps_up_all:
  assumes "subscribed c filt h" "keeps_up c ops h"
  shows "taken c ops h @ chan_queue c (hub_ops ops h) = chan_queue c h @ filter (matching filt) (published ops h)"
  using assms
proof (induction ops arbitrary: h)
  case (Cons op ops)
  then have "subscribed c filt (hub_step op h)" and now: "step_taken c op h @ chan_queue c (hub_step op h) = chan_queue c h @ filter (matching filt) (step_event op h)"
    using keeps_up_one by auto
  then have "taken c ops (hub_step op h) @ chan_queue c (hub_ops ops (hub_step op h)) =
      chan_queue c (hub_step op h) @ filter (matching filt) (published ops (hub_step op h))"
    using Cons by simp
  then show ?case using now by (metis append.assoc filter_append hub_ops.simps(2) published.simps(2) taken.simps(2))
qed simp


lemma log_replayable: "e \<in> set (hub_log ops h) \<Longrightarrow> replayable_event e"
  by (simp add: hub_log_def)

text \<open>The events of an agent that are published later have larger numbers.\<close>

lemma later_events:
  assumes inv: "hub_inv h lg" and inv': "hub_inv h' (lg @ lg')" and f: "trim_space f \<noteq> []" and e: "e \<in> set lg'" "he_AgentID e = f"
  shows "he_AgentSeq e > agent_seq h f"
proof -
  let ?xs = "map he_AgentSeq (agent_events f lg)"
  have "?xs @ map he_AgentSeq (agent_events f lg') = [1..agent_seq h' f]" using inv' f by (simp add: hub_inv_def agent_events_def)
  then have later: "map he_AgentSeq (agent_events f lg') = [int (length ?xs) + 1..agent_seq h' f]" using upto_halves by blast
  have "?xs = [1..agent_seq h f]" "0 \<le> agent_seq h f" using inv f by (simp_all add: hub_inv_def)
  then have "int (length ?xs) = agent_seq h f" by simp
  moreover have "he_AgentSeq e \<in> set [int (length ?xs) + 1..agent_seq h' f]" using e unfolding later[symmetric] by (simp add: agent_events_def)
  ultimately show ?thesis by simp
qed

text \<open>The channel of a subscription that needs no resynchronisation starts with the retained events after the cursor, and has room for them.\<close>

lemma subscription_start:
  assumes "trim_space filt \<noteq> []" and no: "\<not> sn_ResyncRequired (fst (SubscribeAgentCursor g k filt h))"
  defines "f \<equiv> trim_space filt" and "h1 \<equiv> snd (SubscribeAgentCursor g k filt h)"
  shows "subscribed (hb_nextCh h) f h1" "chan_queue (hb_nextCh h) h1 = filter (\<lambda>e. he_AgentSeq e > k \<and> matching f e) (hb_history h)"
proof -
  have "check_cursor g k f True True h = (False, g, k)"
    using no assms(1) by (auto simp: f_def cursor_subscription check_cursor_def Let_def split: if_splits)
  then have "SubscribeAgentCursor g k filt h = subscribeLocked g k f True True h" "check_cursor g k f True True h = (False, g, k)" "f \<noteq> []"
    using assms(1) by (simp_all add: SubscribeAgentCursor_def f_def)
  then show "subscribed (hb_nextCh h) f h1" "chan_queue (hb_nextCh h) h1 = filter (\<lambda>e. he_AgentSeq e > k \<and> matching f e) (hb_history h)"
    by (simp_all add: h1_def subscribed_def chan_queue_def subscribeLocked_def Let_def update_conv' is_replayed_def[abs_def] matching_def[abs_def])
qed

text \<open>The replay never blocks: the new channel has room for the whole history and one more event.\<close>

lemma replay_fits:
  assumes "subscribeLocked g k filt check useAgent h = (sn, h')"
  shows "\<exists>sub. map_of (hb_subs h') (sn_Events sn) = Some sub \<and> sub_room sub"
proof -
  have "length (filter P (hb_history h)) < (if length (hb_history h) + 1 > defaultSubscriberBuffer then length (hb_history h) + 1 else defaultSubscriberBuffer)" for P
    using le_less_trans[OF length_filter_le lessI, of P "hb_history h"] by (simp add: less_le_trans)
  then show ?thesis using assms by (auto simp: subscribeLocked_def Let_def sub_room_def update_conv' split: prod.splits)
qed

lemma matching_trimmed: "f \<noteq> [] \<Longrightarrow> trim_space f = f \<Longrightarrow> trim_space (he_AgentID e) = he_AgentID e \<Longrightarrow> matching f e \<longleftrightarrow> he_AgentID e = f"
  by (auto simp: matching_def subscriberMatches_def Let_def)

lemma resume_old:
  assumes inv: "hub_inv h lg" and f: "f \<noteq> []" "trim_space f = f" and k: "0 \<le> k" and kept: "\<not> k < int (length (agent_events f (lost h lg)))"
    and trimmed: "\<forall>e \<in> set lg. replayable_event e \<and> trim_space (he_AgentID e) = he_AgentID e"
  shows "filter replayable_event (filter (\<lambda>e. he_AgentSeq e > k \<and> matching f e) (hb_history h)) = filter (\<lambda>e. he_AgentID e = f \<and> he_AgentSeq e > k) lg"
proof -
  have lg: "lg = lost h lg @ hb_history h" using inv by (simp add: hub_inv_def lost_def)
  have "filter (\<lambda>e. he_AgentID e = f \<and> he_AgentSeq e > k) (lost h lg) = []"
    using kept lost_after[OF inv _ k, of f] lost_or_retained[OF inv] f by (fastforce simp: filter_empty_conv)
  then have "filter (\<lambda>e. he_AgentID e = f \<and> he_AgentSeq e > k) lg = filter (\<lambda>e. he_AgentID e = f \<and> he_AgentSeq e > k) (hb_history h)"
    by (subst lg) simp
  moreover have "replayable_event e" "matching f e \<longleftrightarrow> he_AgentID e = f" if "e \<in> set (hb_history h)" for e
    using trimmed matching_trimmed[OF f] lost_or_retained[OF inv] that by blast+
  ultimately show ?thesis by (auto intro!: filter_cong)
qed

lemma resume_new:
  assumes inv: "hub_inv h lg" and f: "f \<noteq> []" "trim_space f = f" and k: "k \<le> agent_seq h f"
    and trimmed: "\<forall>e \<in> set (published ops h). trim_space (he_AgentID e) = he_AgentID e"
  shows "filter replayable_event (filter (matching f) (published ops h)) = filter (\<lambda>e. he_AgentID e = f \<and> he_AgentSeq e > k) (hub_log ops h)"
proof -
  have "matching f e \<longleftrightarrow> he_AgentID e = f" if "e \<in> set (published ops h)" for e
    using trimmed matching_trimmed[OF f] that by blast
  moreover have "he_AgentSeq e > k" if "e \<in> set (hub_log ops h)" "he_AgentID e = f" for e
    using later_events[OF inv hub_inv_ops[OF inv] _ that] k f by simp
  ultimately show ?thesis by (auto simp: hub_log_def intro!: filter_cong)
qed

text \<open>
  C29. A client whose cursor is accepted misses nothing and sees nothing twice. It resumes after event \<open>k\<close> of its agent; from then on, whatever is published, subscribed and
  delivered, the replayable events it has taken from its channel together with those still queued there are exactly the replayable events of that agent after \<open>k\<close>, of the whole history
  of the node and in the order of publication, as long as it keeps up and agent ids carry no surrounding white space.
\<close>

theorem stream_resume_exact:
  assumes sub: "SubscribeAgentCursor g k filt (hub_ops ops (NewHub n epoch)) = (sn, h1)"
    and filt: "trim_space filt \<noteq> []" and k: "0 \<le> k" and no: "\<not> sn_ResyncRequired sn" and up: "keeps_up (sn_Events sn) ops' h1"
    and trimmed: "\<forall>e \<in> set (published ops (NewHub n epoch) @ published ops' h1). trim_space (he_AgentID e) = he_AgentID e"
  shows "filter replayable_event (taken (sn_Events sn) ops' h1 @ chan_queue (sn_Events sn) (hub_ops ops' h1)) =
         filter (\<lambda>e. he_AgentID e = trim_space filt \<and> he_AgentSeq e > k) (hub_log ops (NewHub n epoch) @ hub_log ops' h1)"
proof -
  let ?f = "trim_space filt" and ?lg = "hub_log ops (NewHub n epoch)" and ?op = "HSubscribe g k (trim_space filt) True True"
  define h where "h = hub_ops ops (NewHub n epoch)"
  have sub': "SubscribeAgentCursor g k filt h = (sn, h1)" using sub by (simp add: h_def)
  have inv: "hub_inv h ?lg" using hub_inv_ops[OF hub_inv_new] by (simp add: h_def)
  have f: "?f \<noteq> []" "trim_space ?f = ?f" using filt by simp_all
  have c: "sn_Events sn = hb_nextCh h" using cursor_subscription(2)[OF filt, of g k h] sub' by simp
  have h1: "h1 = hub_step ?op h" using filt sub' by (simp add: SubscribeAgentCursor_def)
  have inv1: "hub_inv h1 ?lg" using hub_inv_step[OF inv, of ?op] by (simp add: h1)
  have seq1: "agent_seq h1 ?f = agent_seq h ?f" using step_core(2)[of ?op h] unfolding h1 by (simp add: agent_seq_def)
  have "\<not> fst (check_cursor g k ?f True True h)" using no cursor_subscription(1)[OF filt, of g k h] sub' by simp
  then have cur: "k \<le> agent_seq h ?f" "\<not> k < int (length (agent_events ?f (lost h ?lg)))" using cursor_check(1)[OF inv _ k, of ?f] filt by auto
  have no': "\<not> sn_ResyncRequired (fst (SubscribeAgentCursor g k filt h))" using no sub' by simp
  have start: "subscribed (sn_Events sn) ?f h1" "chan_queue (sn_Events sn) h1 = filter (\<lambda>e. he_AgentSeq e > k \<and> matching ?f e) (hb_history h)"
    using subscription_start[OF filt no'] sub' c by simp_all
  have all: "taken (sn_Events sn) ops' h1 @ chan_queue (sn_Events sn) (hub_ops ops' h1) =
      chan_queue (sn_Events sn) h1 @ filter (matching ?f) (published ops' h1)"
    by (rule keeps_up_all[OF start(1) up])
  have "filter replayable_event (chan_queue (sn_Events sn) h1) = filter (\<lambda>e. he_AgentID e = ?f \<and> he_AgentSeq e > k) ?lg"
    unfolding start(2) using trimmed by (intro resume_old[OF inv f k cur(2)]) (auto simp: hub_log_def)
  moreover have "filter replayable_event (filter (matching ?f) (published ops' h1)) = filter (\<lambda>e. he_AgentID e = ?f \<and> he_AgentSeq e > k) (hub_log ops' h1)"
    using trimmed cur(1) seq1 by (intro resume_new[OF inv1 f]) auto
  ultimately show ?thesis unfolding all by (simp only: filter_append)
qed

section \<open>Critical events\<close>

text \<open>
  An event that finds the channel full is dropped unless it is critical; a critical one is sent again outside the lock, so that an event published in between overtakes it and the client sees
  the sequence numbers out of order.
\<close>

lemma full_channel_publish:
  assumes "map_of (hb_subs h) c = Some sub" "\<not> sub_room sub" "subscriberMatches sub a" "hub_publish a t p r ts h = (ev, deferred, h')"
  shows "map_of (hb_subs h') c = Some sub" "c \<in> set deferred \<longleftrightarrow> isCriticalSSEType t"
proof -
  show "map_of (hb_subs h') c = Some sub" using assms publish_fields(9)[OF assms(4)] by (simp add: sub_send_def)
  have "deferred = [c. (c, sub) \<leftarrow> hb_subs h, subscriberMatches sub a, \<not> sub_room sub, isCriticalSSEType t]"
    using assms(4) by (simp add: hub_publish_def Let_def)
  then show "c \<in> set deferred \<longleftrightarrow> isCriticalSSEType t" using assms(1-3) map_of_SomeD[OF assms(1)] by force
qed

lemma critical_overtaken:
  assumes sub: "map_of (hb_subs h) c = Some sub" "sb_queue sub = x # y # q" "length (sb_queue sub) = sb_cap sub" "subscriberMatches sub a"
    and p1: "hub_publish a t p r ts h = (ev, deferred, h1)"
    and p2: "hub_publish a t' p' r' ts' (snd (chan_receive c h1)) = (ev', deferred', h3)"
  shows "chan_queue c (snd (deliver_attempt c ev (snd (chan_receive c h3)))) = q @ [ev', ev] \<and> he_Seq ev < he_Seq ev'"
proof -
  have h1: "map_of (hb_subs h1) c = Some sub" using sub publish_fields(9)[OF p1] by (simp add: sub_send_def sub_room_def)
  define h2 where "h2 = snd (chan_receive c h1)"
  have h2: "map_of (hb_subs h2) c = Some (sub\<lparr>sb_queue := y # q\<rparr>)" "hb_seq h2 = hb_seq h1"
    using h1 sub by (simp_all add: h2_def chan_receive_def update_conv')
  have "subscriberMatches (sub\<lparr>sb_queue := y # q\<rparr>) a" using sub(4) by (simp add: subscriberMatches_def)
  then have h3: "map_of (hb_subs h3) c = Some (sub\<lparr>sb_queue := y # q @ [ev']\<rparr>)"
    using h2 sub publish_fields(1,9)[OF p2[folded h2_def]] by (simp add: sub_send_def sub_room_def)
  have "he_Seq ev < he_Seq ev'" using publish_fields(2,4)[OF p1] publish_fields(2)[OF p2[folded h2_def]] h2 by simp
  then show ?thesis using h3 sub by (simp add: chan_receive_def deliver_attempt_def chan_queue_def update_conv' sub_room_def)
qed

section \<open>Witnesses\<close>

text \<open>A history of two events: agent \<open>a\<close> publishes three, one of them is lost; \<open>b\<close> another.\<close>

definition demo_publish :: "string \<Rightarrow> hub_op" where
  "demo_publish a = HPublish a ''assistant'' [] True ''t''"

definition demo_before :: "hub_op list" where
  "demo_before = [demo_publish ''a'', demo_publish ''a'', demo_publish ''a'']"

definition demo_after :: "hub_op list" where
  "demo_after = [HReceive 0, demo_publish ''b'', demo_publish ''a'']"

definition demo_hub :: hub where
  "demo_hub = hub_ops demo_before (NewHub 2 ''e'')"

theorem resync_exact_witness:
  "sn_ResyncRequired (fst (SubscribeAgentCursor 0 0 ''a'' (hub_ops demo_before (NewHub 2 ''e'')))) \<and>
   \<not> sn_ResyncRequired (fst (SubscribeAgentCursor 0 1 ''a'' (hub_ops demo_before (NewHub 2 ''e''))))"
proof -
  have t: "trim_space ''a'' \<noteq> []" by code_simp
  show ?thesis unfolding resync_exact[OF t, of 0, simplified] resync_exact[OF t, of 1, simplified] by code_simp
qed

theorem stream_resume_exact_witness:
  "filter replayable_event (taken 0 demo_after (snd (SubscribeAgentCursor 0 1 ''a'' demo_hub)) @
     chan_queue 0 (hub_ops demo_after (snd (SubscribeAgentCursor 0 1 ''a'' demo_hub)))) =
   filter (\<lambda>e. he_AgentID e = trim_space ''a'' \<and> he_AgentSeq e > 1)
     (hub_log demo_before (NewHub 2 ''e'') @ hub_log demo_after (snd (SubscribeAgentCursor 0 1 ''a'' demo_hub)))"
proof -
  let ?r = "SubscribeAgentCursor 0 1 ''a'' demo_hub"
  have c: "sn_Events (fst ?r) = 0" by code_simp
  have r: "SubscribeAgentCursor 0 1 ''a'' (hub_ops demo_before (NewHub 2 ''e'')) = (fst ?r, snd ?r)" by (simp add: demo_hub_def)
  have "trim_space ''a'' \<noteq> []" "\<not> sn_ResyncRequired (fst ?r)" "keeps_up (sn_Events (fst ?r)) demo_after (snd ?r)"
    "\<forall>e \<in> set (published demo_before (NewHub 2 ''e'') @ published demo_after (snd ?r)). trim_space (he_AgentID e) = he_AgentID e"
    by code_simp+
  then show ?thesis using stream_resume_exact[OF r, of demo_after] c by simp
qed

end
