(* ===== verification/Child_Progress.thy ===== *)
theory Child_Progress
  imports Stream_Hub "HOL-Library.List_Lexorder" "HOL-Library.Char_ord"
begin

text \<open>
  The progress snapshot of a temporary child agent: \<^verbatim>\<open>childagent/progress.go\<close> and the types of \<^verbatim>\<open>childagent/types.go\<close>.

  The manager derives the snapshot from the events of the child. Event data is a map of JSON values, with its keys in order, so that two maps with the same entries are equal lists
  (which is what \<^verbatim>\<open>jsonEqual\<close> compares) and a nil map is the empty one. The printing of numbers, lists and maps and the JSON decoder are arguments (\<open>child_io\<close>), and so is
  the present time; the zero time is \<open>0\<close>.

  \<open>progress_bounded\<close>: whatever a child reports, its snapshot stays small.
\<close>

section \<open>Runes\<close>

text \<open>The bytes of the first rune of a string, when it starts with a well-formed one (the table of the package \<^verbatim>\<open>unicode/utf8\<close>).\<close>

definition byte_in :: "nat \<Rightarrow> nat \<Rightarrow> nat \<Rightarrow> string \<Rightarrow> bool" where
  "byte_in i lo hi s \<longleftrightarrow> i < length s \<and> lo \<le> (of_char (s ! i) :: nat) \<and> (of_char (s ! i) :: nat) \<le> hi"

definition rune1 :: "string \<Rightarrow> bool" where
  "rune1 s \<longleftrightarrow> byte_in 0 0 0x7F s"

definition rune2 :: "string \<Rightarrow> bool" where
  "rune2 s \<longleftrightarrow> byte_in 0 0xC2 0xDF s \<and> byte_in 1 0x80 0xBF s"

definition rune3 :: "string \<Rightarrow> bool" where
  "rune3 s \<longleftrightarrow>
     (byte_in 0 0xE0 0xE0 s \<and> byte_in 1 0xA0 0xBF s \<or> byte_in 0 0xE1 0xEC s \<and> byte_in 1 0x80 0xBF s \<or>
      byte_in 0 0xED 0xED s \<and> byte_in 1 0x80 0x9F s \<or> byte_in 0 0xEE 0xEF s \<and> byte_in 1 0x80 0xBF s) \<and> byte_in 2 0x80 0xBF s"

definition rune4 :: "string \<Rightarrow> bool" where
  "rune4 s \<longleftrightarrow>
     (byte_in 0 0xF0 0xF0 s \<and> byte_in 1 0x90 0xBF s \<or> byte_in 0 0xF1 0xF3 s \<and> byte_in 1 0x80 0xBF s \<or>
      byte_in 0 0xF4 0xF4 s \<and> byte_in 1 0x80 0x8F s) \<and> byte_in 2 0x80 0xBF s \<and> byte_in 3 0x80 0xBF s"

definition rune_size :: "string \<Rightarrow> nat" where
  "rune_size s = (if rune1 s then 1 else if rune2 s then 2 else if rune3 s then 3 else if rune4 s then 4 else 0)"

definition rune_error :: string where
  "rune_error = [CHR 0xEF, CHR 0xBF, CHR 0xBD]"

text \<open>The conversion to runes, each with its encoding: a byte that starts no rune becomes the replacement character.\<close>

function runes :: "string \<Rightarrow> string list" where
  "runes s = (if s = [] then [] else if rune_size s = 0 then rune_error # runes (tl s) else take (rune_size s) s # runes (drop (rune_size s) s))"
  by pat_completeness auto
termination
  by (relation "measure length") auto

declare runes.simps [simp del]

definition valid_utf8 :: "string \<Rightarrow> bool" where
  "valid_utf8 s \<longleftrightarrow> concat (runes s) = s"

section \<open>Types\<close>

datatype child_status =
    StatusCreating | StatusActive | StatusCompleted | StatusFailed | StatusCancelled | StatusExpired | StatusInterrupted
  | StatusOther string

definition status_text :: "child_status \<Rightarrow> string" where
  "status_text st =
     (case st of StatusCreating \<Rightarrow> ''creating'' | StatusActive \<Rightarrow> ''active'' | StatusCompleted \<Rightarrow> ''completed'' | StatusFailed \<Rightarrow> ''failed''
        | StatusCancelled \<Rightarrow> ''cancelled'' | StatusExpired \<Rightarrow> ''expired'' | StatusInterrupted \<Rightarrow> ''interrupted'' | StatusOther s \<Rightarrow> s)"

definition text_status :: "string \<Rightarrow> child_status" where
  "text_status s =
     (case find (\<lambda>st. status_text st = s)
        [StatusCreating, StatusActive, StatusCompleted, StatusFailed, StatusCancelled, StatusExpired, StatusInterrupted] of
        Some st \<Rightarrow> st
      | None \<Rightarrow> StatusOther s)"

record tool_activity =
  ta_ToolCallID :: string
  ta_ToolName :: string
  ta_Status :: string
  ta_InputSummary :: string
  ta_OutputPreview :: string
  ta_StartedAt :: gotime
  ta_FinishedAt :: gotime

record child_progress =
  pg_Status :: child_status
  pg_Phase :: string
  pg_TurnCount :: int
  pg_MaxTurns :: int
  pg_CurrentTool :: string
  pg_CurrentToolCallID :: string
  pg_CurrentToolStatus :: string
  pg_LastOutputPreview :: string
  pg_RecentTools :: "tool_activity list"
  pg_PendingApproval :: bool
  pg_PendingApprovalData :: "(string, go_any) gomap"
  pg_Summary :: string
  pg_Error :: string
  pg_UpdatedAt :: gotime
  pg_Revision :: u64
  pg_FinishedAt :: gotime

type_synonym event_data = "(string, go_any) gomap"

record child_io =
  ci_sprint :: "go_any \<Rightarrow> string"
  ci_unmarshal :: "string \<Rightarrow> event_data option"

definition progressPreviewLimit :: nat where "progressPreviewLimit = 240"
definition activityInputLimit :: nat where "activityInputLimit = 180"
definition maxRecentToolActivities :: nat where "maxRecentToolActivities = 8"

section \<open>Reading event data\<close>

definition progressString :: "child_io \<Rightarrow> event_data \<Rightarrow> string \<Rightarrow> string" where
  "progressString io data key =
     (case map_of data key of
        None \<Rightarrow> []
      | Some AnyNil \<Rightarrow> []
      | Some v \<Rightarrow> (let t = trim_space (sprint_any (ci_sprint io) v) in if t = ''<nil>'' then [] else t))"

definition progressInt :: "event_data \<Rightarrow> string \<Rightarrow> int" where
  "progressInt data key = (case map_of data key of Some (AnyNumber q) \<Rightarrow> (if 0 \<le> q then \<lfloor>q\<rfloor> else \<lceil>q\<rceil>) | _ \<Rightarrow> 0)"

definition anySlice :: "go_any option \<Rightarrow> go_any list" where
  "anySlice raw = (case raw of Some (AnyList l) \<Rightarrow> l | _ \<Rightarrow> [])"

definition any_map :: "go_any \<Rightarrow> event_data option" where
  "any_map v = (case v of AnyMap d \<Rightarrow> Some d | _ \<Rightarrow> None)"

definition norm_status :: "string \<Rightarrow> string" where
  "norm_status s = to_lower (trim_space s)"

definition firstRunningExecution :: "child_io \<Rightarrow> event_data \<Rightarrow> event_data option" where
  "firstRunningExecution io data =
     find (\<lambda>ex. norm_status (progressString io ex ''status'') \<in> {''running'', ''executing'', ''pending''})
       (List.map_filter any_map (anySlice (map_of data ''tool_executions'')))"

definition firstToolCall :: "event_data \<Rightarrow> event_data option" where
  "firstToolCall data =
     (case List.map_filter any_map (anySlice (map_of data ''tool_calls'')) of
        call # _ \<Rightarrow> Some call
      | [] \<Rightarrow> (case map_of data ''function'' of Some (AnyMap _) \<Rightarrow> Some data | _ \<Rightarrow> None))"

definition toolCallName :: "child_io \<Rightarrow> event_data \<Rightarrow> string" where
  "toolCallName io call =
     (if progressString io call ''name'' \<noteq> [] then progressString io call ''name''
      else progressString io (case map_of call ''function'' of Some (AnyMap f) \<Rightarrow> f | _ \<Rightarrow> []) ''name'')"

definition toolCallID :: "child_io \<Rightarrow> event_data \<Rightarrow> string" where
  "toolCallID io call = progressString io call ''id''"

fun go_lines :: "string \<Rightarrow> string list" where
  "go_lines [] = [[]]"
| "go_lines (c # s) = (if c = CHR 0x0A then [] # go_lines s else (c # hd (go_lines s)) # tl (go_lines s))"

definition firstProgressLine :: "child_io \<Rightarrow> go_any \<Rightarrow> string" where
  "firstProgressLine io raw =
     (case find (\<lambda>t. t \<noteq> [] \<and> t \<noteq> ''<nil>'') (map trim_space (go_lines (sprint_any (ci_sprint io) raw))) of None \<Rightarrow> [] | Some t \<Rightarrow> t)"

definition truncateProgress :: "string \<Rightarrow> string" where
  "truncateProgress text0 =
     (let t = trim_space text0 in if length t \<le> progressPreviewLimit then t else take (progressPreviewLimit - 3) t @ ''...'')"

definition truncateActivityInput :: "string \<Rightarrow> string" where
  "truncateActivityInput text0 =
     (let t = trim_space text0 in if length (runes t) \<le> activityInputLimit then t else concat (take (activityInputLimit - 3) (runes t)) @ ''...'')"

section \<open>What a tool call is about\<close>

definition activityArgs :: "child_io \<Rightarrow> go_any \<Rightarrow> event_data" where
  "activityArgs io raw =
     (case raw of
        AnyMap d \<Rightarrow> d
      | AnyString s \<Rightarrow> (case ci_unmarshal io s of None \<Rightarrow> [] | Some d \<Rightarrow> d)
      | _ \<Rightarrow> [])"

definition activityArgsFromCall :: "child_io \<Rightarrow> event_data \<Rightarrow> event_data" where
  "activityArgsFromCall io call =
     (let args = (case map_of call ''arguments'' of None \<Rightarrow> [] | Some v \<Rightarrow> activityArgs io v)
      in if args \<noteq> [] then args
         else (case map_of call ''function'' of
                 Some (AnyMap f) \<Rightarrow> activityArgs io (case map_of f ''arguments'' of None \<Rightarrow> AnyNil | Some v \<Rightarrow> v)
               | _ \<Rightarrow> []))"

definition str_contains :: "string \<Rightarrow> string \<Rightarrow> bool" where
  "str_contains s m \<longleftrightarrow> (\<exists>i \<in> set [0..<Suc (length s)]. take (length m) (drop i s) = m)"

definition hidden_text :: string where
  "hidden_text = ''['' @ [CHR 0xE5, CHR 0xB7, CHR 0xB2, CHR 0xE9, CHR 0x9A, CHR 0x90, CHR 0xE8, CHR 0x97, CHR 0x8F] @ '']''"

definition safeActivityValue :: "child_io \<Rightarrow> string \<Rightarrow> go_any \<Rightarrow> string" where
  "safeActivityValue io key value' =
     (if \<exists>m \<in> set [''password'', ''secret'', ''token'', ''private_key'', ''apikey'', ''api_key'', ''credential'']. str_contains (norm_status key) m then hidden_text
      else if value' = AnyNil then []
      else (let t = trim_space (sprint_any (ci_sprint io) value') in if t \<noteq> [] \<and> t \<noteq> ''<nil>'' then truncateActivityInput t else []))"

definition activity_keys :: "string \<Rightarrow> string list" where
  "activity_keys name =
     (if name \<in> {''bash_run'', ''terminal_command''} then [''command'', ''cmd'', ''data'']
      else if name = ''terminal_input'' then [''data'', ''command'', ''terminal_id'']
      else if name \<in> {''read_file'', ''write_file'', ''search_replace'', ''glob_files'', ''grep_file'', ''grep_files''} then [''path'', ''file_path'', ''directory'', ''pattern'']
      else if name = ''browser_call'' then [''actions'']
      else if name = ''browser_evaluate'' then [''script'']
      else if name \<in> {''screen_capture'', ''computer_use''} then [''action'', ''coordinate'', ''x'', ''y'']
      else [])"

fun first_value :: "child_io \<Rightarrow> event_data \<Rightarrow> string list \<Rightarrow> (string \<times> string) option" where
  "first_value io args [] = None"
| "first_value io args (key # keys) =
     (case map_of args key of
        None \<Rightarrow> first_value io args keys
      | Some v \<Rightarrow> if safeActivityValue io key v \<noteq> [] then Some (key, safeActivityValue io key v) else first_value io args keys)"

definition toolActivityInputSummaryFromArgs :: "child_io \<Rightarrow> string \<Rightarrow> event_data \<Rightarrow> string" where
  "toolActivityInputSummaryFromArgs io toolName args =
     (if args = [] then []
      else (case first_value io args (activity_keys (norm_status toolName)) of
              Some (_, s) \<Rightarrow> s
            | None \<Rightarrow>
                (case first_value io args (sort (filter (\<lambda>k. k \<noteq> ''call_purpose'' \<and> k \<noteq> ''purpose'') (map fst args))) of
                   Some (k, s) \<Rightarrow> k @ ''='' @ s
                 | None \<Rightarrow> [])))"

definition toolActivityInputSummary :: "child_io \<Rightarrow> string \<Rightarrow> event_data \<Rightarrow> string" where
  "toolActivityInputSummary io toolName call = toolActivityInputSummaryFromArgs io toolName (activityArgsFromCall io call)"

definition toolActivityInputSummaryFromResult :: "child_io \<Rightarrow> string \<Rightarrow> event_data \<Rightarrow> string" where
  "toolActivityInputSummaryFromResult io toolName data =
     (let fromArgs = (case map_of data ''arguments'' of None \<Rightarrow> [] | Some v \<Rightarrow> toolActivityInputSummaryFromArgs io toolName (activityArgs io v))
      in if fromArgs \<noteq> [] then fromArgs
         else if progressString io data ''raw_arguments'' \<noteq> []
         then toolActivityInputSummaryFromArgs io toolName (activityArgs io (AnyString (progressString io data ''raw_arguments'')))
         else [])"

section \<open>The window of recent tools\<close>

definition toolActivityTerminal :: "string \<Rightarrow> bool" where
  "toolActivityTerminal status \<longleftrightarrow>
     norm_status status \<in> {''succeeded'', ''completed'', ''failed'', ''error'', ''denied'', ''rejected'', ''cancelled'', ''canceled'', ''timed_out'', ''interrupted''}"

definition zero_activity :: tool_activity where
  "zero_activity = \<lparr>ta_ToolCallID = [], ta_ToolName = [], ta_Status = [], ta_InputSummary = [], ta_OutputPreview = [], ta_StartedAt = 0, ta_FinishedAt = 0\<rparr>"

definition norm_activity :: "tool_activity \<Rightarrow> tool_activity" where
  "norm_activity n =
     n\<lparr>ta_ToolName := trim_space (ta_ToolName n), ta_ToolCallID := trim_space (ta_ToolCallID n),
       ta_Status := (if norm_status (ta_Status n) = [] then ''running'' else norm_status (ta_Status n)),
       ta_InputSummary := truncateActivityInput (ta_InputSummary n), ta_OutputPreview := truncateProgress (ta_OutputPreview n)\<rparr>"

definition activity_match :: "tool_activity \<Rightarrow> tool_activity \<Rightarrow> bool" where
  "activity_match n item \<longleftrightarrow>
     ta_ToolCallID n \<noteq> [] \<and> ta_ToolCallID item = ta_ToolCallID n \<or>
     ta_ToolCallID n \<noteq> [] \<and> ta_ToolCallID item = [] \<and> ta_ToolName item = ta_ToolName n \<and> \<not> toolActivityTerminal (ta_Status item) \<or>
     ta_ToolCallID n = [] \<and> ta_ToolCallID item = [] \<and> ta_ToolName item = ta_ToolName n \<and> \<not> toolActivityTerminal (ta_Status item)"

definition merge_activity :: "gotime \<Rightarrow> tool_activity \<Rightarrow> tool_activity \<Rightarrow> tool_activity" where
  "merge_activity now n item =
     item\<lparr>ta_ToolCallID := (if ta_ToolCallID item = [] then ta_ToolCallID n else ta_ToolCallID item),
          ta_ToolName := (if ta_ToolName item = [] then ta_ToolName n else ta_ToolName item),
          ta_Status := (if \<not> toolActivityTerminal (ta_Status item) \<or> toolActivityTerminal (ta_Status n) then ta_Status n else ta_Status item),
          ta_InputSummary := (if ta_InputSummary n \<noteq> [] then ta_InputSummary n else ta_InputSummary item),
          ta_OutputPreview := (if ta_OutputPreview n \<noteq> [] then ta_OutputPreview n else ta_OutputPreview item),
          ta_StartedAt := (if ta_StartedAt item \<noteq> 0 then ta_StartedAt item else if ta_StartedAt n \<noteq> 0 then ta_StartedAt n else now),
          ta_FinishedAt := (if ta_FinishedAt n \<noteq> 0 then ta_FinishedAt n else ta_FinishedAt item)\<rparr>"

definition upsert_tools :: "gotime \<Rightarrow> tool_activity \<Rightarrow> tool_activity list \<Rightarrow> tool_activity list" where
  "upsert_tools now n items =
     (case find (\<lambda>i. activity_match n (items ! i)) (rev [0..<length items]) of
        None \<Rightarrow>
          (if length items \<ge> maxRecentToolActivities then drop (length items - maxRecentToolActivities + 1) items else items)
            @ [n\<lparr>ta_StartedAt := (if ta_StartedAt n = 0 then now else ta_StartedAt n)\<rparr>]
      | Some i \<Rightarrow> items[i := merge_activity now n (items ! i)])"

definition upsertRecentTool :: "gotime \<Rightarrow> tool_activity \<Rightarrow> child_progress \<Rightarrow> child_progress" where
  "upsertRecentTool now n p =
     (if trim_space (ta_ToolName n) = [] then p else p\<lparr>pg_RecentTools := upsert_tools now (norm_activity n) (pg_RecentTools p)\<rparr>)"

fun merge_executions :: "child_io \<Rightarrow> gotime \<Rightarrow> event_data list \<Rightarrow> child_progress \<Rightarrow> child_progress" where
  "merge_executions io now [] p = p"
| "merge_executions io now (ex # exs) p =
     (let name = progressString io ex ''tool_name''; callID = progressString io ex ''tool_call_id''; status = norm_status (progressString io ex ''status'')
      in merge_executions io now exs
           (if name = [] \<and> callID = [] then p
            else upsertRecentTool now (zero_activity\<lparr>ta_ToolCallID := callID, ta_ToolName := name, ta_Status := status\<rparr>) p))"

definition mergeToolExecutionViews :: "child_io \<Rightarrow> gotime \<Rightarrow> go_any option \<Rightarrow> child_progress \<Rightarrow> child_progress" where
  "mergeToolExecutionViews io now raw p = merge_executions io now (List.map_filter any_map (anySlice raw)) p"

section \<open>Events of a child\<close>

definition progress_no_approval :: "child_progress \<Rightarrow> child_progress" where
  "progress_no_approval p = p\<lparr>pg_PendingApproval := False, pg_PendingApprovalData := []\<rparr>"

definition progress_turn_state :: "child_io \<Rightarrow> gotime \<Rightarrow> event_data \<Rightarrow> child_progress \<Rightarrow> child_progress" where
  "progress_turn_state io now data p0 =
     (let p1 = (if progressString io data ''phase'' \<noteq> [] then p0\<lparr>pg_Phase := progressString io data ''phase''\<rparr> else p0);
          p2 = (if progressInt data ''step_index'' > pg_TurnCount p1 then p1\<lparr>pg_TurnCount := progressInt data ''step_index''\<rparr> else p1);
          p3 = (case firstRunningExecution io data of
                  None \<Rightarrow> p2
                | Some ex \<Rightarrow> p2\<lparr>pg_CurrentTool := progressString io ex ''tool_name'', pg_CurrentToolCallID := progressString io ex ''tool_call_id'',
                               pg_CurrentToolStatus := progressString io ex ''status''\<rparr>);
          p4 = mergeToolExecutionViews io now (map_of data ''tool_executions'') p3;
          phase = norm_status (pg_Phase p4)
      in if phase = ''tool_waiting'' \<or> phase = ''waiting_user'' \<or> to_lower (progressString io data ''interaction_kind'') = ''approval''
         then p4\<lparr>pg_PendingApproval := True, pg_Phase := ''waiting_approval''\<rparr>
         else if phase = ''tool_executing'' \<or> phase = ''model_generating'' then progress_no_approval p4
         else p4)"

definition progress_tool_call :: "child_io \<Rightarrow> gotime \<Rightarrow> event_data \<Rightarrow> child_progress \<Rightarrow> child_progress" where
  "progress_tool_call io now data p0 =
     (let p1 = (case firstToolCall data of
                  None \<Rightarrow> p0
                | Some call \<Rightarrow>
                    (let name = toolCallName io call; callID = toolCallID io call
                     in upsertRecentTool now
                          (zero_activity\<lparr>ta_ToolCallID := callID, ta_ToolName := name, ta_Status := ''running'', ta_InputSummary := toolActivityInputSummary io name call,
                             ta_StartedAt := now\<rparr>)
                          (p0\<lparr>pg_CurrentTool := name, pg_CurrentToolCallID := callID\<rparr>)));
          p2 = (if progressString io data ''tool_call_id'' \<noteq> [] then p1\<lparr>pg_CurrentToolCallID := progressString io data ''tool_call_id''\<rparr> else p1);
          p3 = (if pg_CurrentToolCallID p2 \<noteq> []
                then upsertRecentTool now (zero_activity\<lparr>ta_ToolCallID := pg_CurrentToolCallID p2, ta_ToolName := pg_CurrentTool p2, ta_Status := ''running''\<rparr>) p2
                else p2)
      in progress_no_approval (p3\<lparr>pg_CurrentToolStatus := ''running'', pg_Phase := ''tool_executing''\<rparr>))"

definition progress_tool_result :: "child_io \<Rightarrow> gotime \<Rightarrow> event_data \<Rightarrow> child_progress \<Rightarrow> child_progress" where
  "progress_tool_result io now data p0 =
     (let p1 = (if progressString io data ''tool_name'' \<noteq> [] then p0\<lparr>pg_CurrentTool := progressString io data ''tool_name''\<rparr> else p0);
          p2 = (if progressString io data ''tool_call_id'' \<noteq> [] then p1\<lparr>pg_CurrentToolCallID := progressString io data ''tool_call_id''\<rparr> else p1);
          status = (let s = norm_status (progressString io data ''status'') in if s = [] then ''completed'' else s);
          preview = truncateProgress (firstProgressLine io (case map_of data ''content'' of None \<Rightarrow> AnyNil | Some v \<Rightarrow> v));
          p3 = upsertRecentTool now
                 (zero_activity\<lparr>ta_ToolCallID := pg_CurrentToolCallID p2, ta_ToolName := pg_CurrentTool p2, ta_Status := status,
                    ta_InputSummary := toolActivityInputSummaryFromResult io (pg_CurrentTool p2) data, ta_OutputPreview := preview, ta_FinishedAt := now\<rparr>)
                 (p2\<lparr>pg_CurrentToolStatus := status, pg_LastOutputPreview := preview\<rparr>)
      in progress_no_approval (p3\<lparr>pg_Phase := ''tool_completed''\<rparr>))"

definition applyChildProgressEvent :: "child_io \<Rightarrow> gotime \<Rightarrow> string \<Rightarrow> event_data \<Rightarrow> child_progress \<Rightarrow> child_progress" where
  "applyChildProgressEvent io now eventType data p =
     (if eventType = ''turn_state'' then progress_turn_state io now data p
      else if eventType = ''tool_call'' then progress_tool_call io now data p
      else if eventType = ''tool_result'' then progress_tool_result io now data p
      else if eventType = ''assistant'' \<or> eventType = ''reasoning''
      then progress_no_approval (p\<lparr>pg_Phase := ''model_generating'', pg_CurrentTool := [], pg_CurrentToolCallID := [], pg_CurrentToolStatus := []\<rparr>)
      else if eventType = ''hitl_required''
      then p\<lparr>pg_Phase := ''waiting_approval'', pg_PendingApproval := True, pg_PendingApprovalData := data\<rparr>
      else p)"

text \<open>The comparison leaves out the time, the revision and the end of a snapshot.\<close>

definition progressEqual :: "child_progress \<Rightarrow> child_progress \<Rightarrow> bool" where
  "progressEqual a b \<longleftrightarrow>
     pg_Status a = pg_Status b \<and> pg_Phase a = pg_Phase b \<and> pg_TurnCount a = pg_TurnCount b \<and> pg_MaxTurns a = pg_MaxTurns b \<and>
     pg_CurrentTool a = pg_CurrentTool b \<and> pg_CurrentToolCallID a = pg_CurrentToolCallID b \<and> pg_CurrentToolStatus a = pg_CurrentToolStatus b \<and>
     pg_LastOutputPreview a = pg_LastOutputPreview b \<and> pg_RecentTools a = pg_RecentTools b \<and> pg_PendingApproval a = pg_PendingApproval b \<and>
     pg_PendingApprovalData a = pg_PendingApprovalData b \<and> pg_Summary a = pg_Summary b \<and> pg_Error a = pg_Error b"

text \<open>The update of a snapshot by one event (the part of \<^verbatim>\<open>ObserveChildEvent\<close> under the agent's lock): nothing when the event changes nothing.\<close>

definition observe_progress :: "child_io \<Rightarrow> gotime \<Rightarrow> child_status \<Rightarrow> int \<Rightarrow> string \<Rightarrow> event_data \<Rightarrow> child_progress \<Rightarrow> child_progress option" where
  "observe_progress io now status maxTurns eventType data previous =
     (let n = applyChildProgressEvent io now eventType data (previous\<lparr>pg_Status := status, pg_MaxTurns := maxTurns\<rparr>)
      in if progressEqual previous n then None else Some (n\<lparr>pg_Revision := pg_Revision previous + 1, pg_UpdatedAt := now\<rparr>))"

section \<open>Bounds\<close>

lemma byte_in_take_append: "i < m \<Longrightarrow> m \<le> length s \<Longrightarrow> byte_in i lo hi (take m s @ t) = byte_in i lo hi s"
  by (simp add: byte_in_def nth_append)

lemma rune_fits: "rune1 s \<Longrightarrow> 1 \<le> length s" "rune2 s \<Longrightarrow> 2 \<le> length s" "rune3 s \<Longrightarrow> 3 \<le> length s" "rune4 s \<Longrightarrow> 4 \<le> length s"
  unfolding rune1_def rune2_def rune3_def rune4_def byte_in_def by linarith+

lemma rune_size_le: "rune_size s \<le> length s"
  using rune_fits[of s] by (auto simp: rune_size_def)

lemma rune_size_prefix:
  assumes "rune_size s \<noteq> 0"
  shows "rune_size (take (rune_size s) s @ t) = rune_size s"
proof -
  have le: "rune_size s \<le> length s" by (rule rune_size_le)
  have 1: "1 \<le> m \<Longrightarrow> m \<le> length s \<Longrightarrow> rune1 (take m s @ t) = rune1 s"
    and 2: "2 \<le> m \<Longrightarrow> m \<le> length s \<Longrightarrow> rune2 (take m s @ t) = rune2 s"
    and 3: "3 \<le> m \<Longrightarrow> m \<le> length s \<Longrightarrow> rune3 (take m s @ t) = rune3 s"
    and 4: "4 \<le> m \<Longrightarrow> m \<le> length s \<Longrightarrow> rune4 (take m s @ t) = rune4 s" for m
    by (simp_all add: rune1_def rune2_def rune3_def rune4_def byte_in_take_append)
  show ?thesis using le 1 2 3 4 assms by (simp add: rune_size_def split: if_splits)
qed

text \<open>A string that the conversion reads as one rune, whatever follows.\<close>

definition one_rune :: "string \<Rightarrow> bool" where
  "one_rune r \<longleftrightarrow> (\<forall>t. runes (r @ t) = r # runes t)"

lemma one_runeI:
  assumes "rune_size s \<noteq> 0"
  shows "one_rune (take (rune_size s) s)"
proof -
  let ?k = "rune_size s"
  have k: "length (take ?k s) = ?k" using rune_size_le[of s] by simp
  have "runes (take ?k s @ t) = take ?k s # runes t" for t
    using rune_size_prefix[OF assms, of t] assms k by (subst runes.simps) auto
  then show ?thesis by (simp add: one_rune_def)
qed

lemma runes_one_rune: "r \<in> set (runes s) \<Longrightarrow> one_rune r"
proof (induction s rule: runes.induct)
  case (1 s)
  have "rune_size rune_error = 3" by code_simp
  then have "one_rune rune_error" using one_runeI[of rune_error] by (simp add: rune_error_def)
  then show ?case using 1 one_runeI[of s] by (subst (asm) runes.simps) (auto split: if_splits)
qed

lemma runes_concat: "\<forall>r \<in> set rs. one_rune r \<Longrightarrow> runes (concat rs @ t) = rs @ runes t"
  by (induction rs) (auto simp: one_rune_def)

lemma truncateActivityInput_short: "length (runes (truncateActivityInput s)) \<le> activityInputLimit"
proof -
  let ?rs = "take (activityInputLimit - 3) (runes (trim_space s))"
  have "\<forall>r \<in> set ?rs. one_rune r" by (meson in_set_takeD runes_one_rune)
  then have "runes (concat ?rs @ ''...'') = ?rs @ runes ''...''" by (rule runes_concat)
  moreover have "length (runes ''...'') = 3" by code_simp
  ultimately show ?thesis by (simp add: truncateActivityInput_def Let_def activityInputLimit_def)
qed

lemma truncateProgress_short: "length (truncateProgress s) \<le> progressPreviewLimit"
  by (simp add: truncateProgress_def Let_def progressPreviewLimit_def)

definition activity_ok :: "tool_activity \<Rightarrow> bool" where
  "activity_ok a \<longleftrightarrow>
     ta_ToolName a \<noteq> [] \<and> trim_space (ta_ToolName a) = ta_ToolName a \<and> ta_Status a \<noteq> [] \<and>
     length (runes (ta_InputSummary a)) \<le> activityInputLimit \<and> length (ta_OutputPreview a) \<le> progressPreviewLimit"

definition progress_ok :: "child_progress \<Rightarrow> bool" where
  "progress_ok p \<longleftrightarrow>
     length (pg_RecentTools p) \<le> maxRecentToolActivities \<and> list_all activity_ok (pg_RecentTools p) \<and> length (pg_LastOutputPreview p) \<le> progressPreviewLimit"

lemma norm_activity_ok: "trim_space (ta_ToolName n) \<noteq> [] \<Longrightarrow> activity_ok (norm_activity n)"
  by (simp add: norm_activity_def activity_ok_def truncateActivityInput_short truncateProgress_short)

lemma merge_activity_ok: "activity_ok n \<Longrightarrow> activity_ok item \<Longrightarrow> activity_ok (merge_activity now n item)"
  by (simp add: merge_activity_def activity_ok_def)

lemma list_all_update: "list_all P xs \<Longrightarrow> P x \<Longrightarrow> list_all P (xs[i := x])"
  by (auto simp: list_all_iff dest!: subsetD[OF set_update_subset_insert])

lemma list_all_drop: "list_all P xs \<Longrightarrow> list_all P (drop n xs)"
  by (auto simp: list_all_iff dest: in_set_dropD)

lemma upsert_tools_ok:
  assumes "length items \<le> maxRecentToolActivities" "list_all activity_ok items" "activity_ok n"
  shows "length (upsert_tools now n items) \<le> maxRecentToolActivities \<and> list_all activity_ok (upsert_tools now n items)"
proof (cases "find (\<lambda>i. activity_match n (items ! i)) (rev [0..<length items])")
  case None
  have "activity_ok (n\<lparr>ta_StartedAt := t\<rparr>)" for t using assms(3) by (simp add: activity_ok_def)
  then show ?thesis using None assms by (simp add: upsert_tools_def list_all_drop maxRecentToolActivities_def)
next
  case (Some i)
  then have "i < length items" by (auto simp: find_Some_iff rev_nth)
  then have "activity_ok (items ! i)" using assms(2) by (simp add: list_all_length)
  then show ?thesis using Some assms by (simp add: upsert_tools_def list_all_update merge_activity_ok)
qed

lemma upsertRecentTool_ok: "progress_ok p \<Longrightarrow> progress_ok (upsertRecentTool now n p)"
  using upsert_tools_ok[OF _ _ norm_activity_ok] by (simp add: upsertRecentTool_def progress_ok_def)

lemma merge_executions_ok: "progress_ok p \<Longrightarrow> progress_ok (merge_executions io now exs p)"
  by (induction exs arbitrary: p) (simp_all add: Let_def upsertRecentTool_ok)

lemma upsertRecentTool_count [simp]: "pg_TurnCount (upsertRecentTool now n p) = pg_TurnCount p"
  by (simp add: upsertRecentTool_def)

lemma merge_executions_count [simp]: "pg_TurnCount (merge_executions io now exs p) = pg_TurnCount p"
  by (induction exs arbitrary: p) (simp_all add: Let_def)

text \<open>The other fields do not matter.\<close>

lemma progress_ok_fields [simp]:
  "progress_ok (p\<lparr>pg_Status := st\<rparr>) = progress_ok p" "progress_ok (p\<lparr>pg_Phase := x\<rparr>) = progress_ok p" "progress_ok (p\<lparr>pg_TurnCount := i\<rparr>) = progress_ok p"
  "progress_ok (p\<lparr>pg_MaxTurns := i\<rparr>) = progress_ok p" "progress_ok (p\<lparr>pg_CurrentTool := x\<rparr>) = progress_ok p" "progress_ok (p\<lparr>pg_CurrentToolCallID := x\<rparr>) = progress_ok p"
  "progress_ok (p\<lparr>pg_CurrentToolStatus := x\<rparr>) = progress_ok p" "progress_ok (p\<lparr>pg_PendingApproval := b\<rparr>) = progress_ok p"
  "progress_ok (p\<lparr>pg_PendingApprovalData := d\<rparr>) = progress_ok p" "progress_ok (p\<lparr>pg_UpdatedAt := i\<rparr>) = progress_ok p" "progress_ok (p\<lparr>pg_Revision := r\<rparr>) = progress_ok p"
  by (simp_all add: progress_ok_def)

lemma no_approval_ok [simp]: "progress_ok (progress_no_approval p) = progress_ok p" "pg_TurnCount (progress_no_approval p) = pg_TurnCount p"
  by (simp_all add: progress_no_approval_def)

lemma preview_ok: "progress_ok p \<Longrightarrow> progress_ok (p\<lparr>pg_LastOutputPreview := truncateProgress s\<rparr>)"
  by (simp add: progress_ok_def truncateProgress_short)

lemma turn_state_ok:
  assumes "progress_ok p"
  shows "progress_ok (progress_turn_state io now data p)" "pg_TurnCount p \<le> pg_TurnCount (progress_turn_state io now data p)"
proof -
  define p1 where "p1 = (if progressString io data ''phase'' \<noteq> [] then p\<lparr>pg_Phase := progressString io data ''phase''\<rparr> else p)"
  define p2 where "p2 = (if progressInt data ''step_index'' > pg_TurnCount p1 then p1\<lparr>pg_TurnCount := progressInt data ''step_index''\<rparr> else p1)"
  define p3 where "p3 = (case firstRunningExecution io data of
                  None \<Rightarrow> p2
                | Some ex \<Rightarrow> p2\<lparr>pg_CurrentTool := progressString io ex ''tool_name'', pg_CurrentToolCallID := progressString io ex ''tool_call_id'',
                               pg_CurrentToolStatus := progressString io ex ''status''\<rparr>)"
  define p4 where "p4 = mergeToolExecutionViews io now (map_of data ''tool_executions'') p3"
  have "progress_ok p1" "pg_TurnCount p1 = pg_TurnCount p" using assms by (simp_all add: p1_def)
  then have "progress_ok p2" "pg_TurnCount p \<le> pg_TurnCount p2" by (auto simp: p2_def)
  then have "progress_ok p3" "pg_TurnCount p \<le> pg_TurnCount p3" by (auto simp: p3_def split: option.split)
  then have p4: "progress_ok p4" "pg_TurnCount p \<le> pg_TurnCount p4" by (simp_all add: p4_def mergeToolExecutionViews_def merge_executions_ok)
  have eq: "progress_turn_state io now data p =
      (if norm_status (pg_Phase p4) = ''tool_waiting'' \<or> norm_status (pg_Phase p4) = ''waiting_user'' \<or> to_lower (progressString io data ''interaction_kind'') = ''approval''
       then p4\<lparr>pg_PendingApproval := True, pg_Phase := ''waiting_approval''\<rparr>
       else if norm_status (pg_Phase p4) = ''tool_executing'' \<or> norm_status (pg_Phase p4) = ''model_generating'' then progress_no_approval p4
       else p4)"
    unfolding progress_turn_state_def Let_def p1_def p2_def p3_def p4_def by (rule refl)
  show "progress_ok (progress_turn_state io now data p)" "pg_TurnCount p \<le> pg_TurnCount (progress_turn_state io now data p)"
    unfolding eq using p4 by (simp_all split: if_split)
qed

lemma tool_call_ok:
  assumes "progress_ok p"
  shows "progress_ok (progress_tool_call io now data p)" "pg_TurnCount (progress_tool_call io now data p) = pg_TurnCount p"
  using assms by (auto simp: progress_tool_call_def Let_def upsertRecentTool_ok split: option.split)

lemma tool_result_ok:
  assumes "progress_ok p"
  shows "progress_ok (progress_tool_result io now data p)" "pg_TurnCount (progress_tool_result io now data p) = pg_TurnCount p"
  using assms by (auto simp: progress_tool_result_def Let_def upsertRecentTool_ok preview_ok)

lemma progress_event_ok:
  assumes "progress_ok p"
  shows "progress_ok (applyChildProgressEvent io now eventType data p)" "pg_TurnCount p \<le> pg_TurnCount (applyChildProgressEvent io now eventType data p)"
  using assms turn_state_ok[of p io now data] tool_call_ok[of p io now data] tool_result_ok[of p io now data]
  by (auto simp: applyChildProgressEvent_def)

section \<open>Any sequence of events\<close>

text \<open>The snapshot of a new child, and its state after a sequence of events, each with its time.\<close>

definition initial_progress :: "int \<Rightarrow> child_progress" where
  "initial_progress maxTurns =
     \<lparr>pg_Status = StatusCreating, pg_Phase = ''creating'', pg_TurnCount = 0, pg_MaxTurns = maxTurns, pg_CurrentTool = [], pg_CurrentToolCallID = [],
      pg_CurrentToolStatus = [], pg_LastOutputPreview = [], pg_RecentTools = [], pg_PendingApproval = False, pg_PendingApprovalData = [], pg_Summary = [],
      pg_Error = [], pg_UpdatedAt = 0, pg_Revision = 0, pg_FinishedAt = 0\<rparr>"

fun observe_all :: "child_io \<Rightarrow> child_status \<Rightarrow> int \<Rightarrow> (gotime \<times> string \<times> event_data) list \<Rightarrow> child_progress \<Rightarrow> child_progress" where
  "observe_all io status maxTurns [] p = p"
| "observe_all io status maxTurns ((now, eventType, data) # evs) p =
     observe_all io status maxTurns evs (case observe_progress io now status maxTurns eventType data p of None \<Rightarrow> p | Some q \<Rightarrow> q)"

lemma observe_ok:
  assumes "progress_ok p" "observe_progress io now status maxTurns eventType data p = Some q"
  shows "progress_ok q" "pg_TurnCount p \<le> pg_TurnCount q" "pg_Revision q = pg_Revision p + 1"
  using assms progress_event_ok[of "p\<lparr>pg_Status := status, pg_MaxTurns := maxTurns\<rparr>" io now eventType data]
  by (auto simp: observe_progress_def Let_def split: if_splits)

lemma observe_all_ok:
  assumes "progress_ok p"
  shows "progress_ok (observe_all io status maxTurns evs p) \<and> pg_TurnCount p \<le> pg_TurnCount (observe_all io status maxTurns evs p)"
  using assms
proof (induction evs arbitrary: p)
  case (Cons e evs)
  obtain now t d where e: "e = (now, t, d)" by (cases e)
  define q where "q = (case observe_progress io now status maxTurns t d p of None \<Rightarrow> p | Some q \<Rightarrow> q)"
  have "progress_ok q" "pg_TurnCount p \<le> pg_TurnCount q"
    using observe_ok[OF Cons.prems, of io now status maxTurns t d] Cons.prems by (auto simp: q_def split: option.splits)
  then show ?case using Cons.IH[of q] by (simp add: e q_def)
qed simp

lemma observe_all_append: "observe_all io status maxTurns (evs @ evs') p = observe_all io status maxTurns evs' (observe_all io status maxTurns evs p)"
  by (induction io status maxTurns evs p rule: observe_all.induct) auto

lemma initial_progress_ok: "progress_ok (initial_progress maxTurns)"
  by (simp add: progress_ok_def initial_progress_def)


text \<open>The preview is cut at a byte, which may be in the middle of a rune.\<close>

definition long_line :: string where
  "long_line = replicate 236 CHR ''a'' @ [CHR 0xE5, CHR 0xB7, CHR 0xB2] @ ''aaaaa''"

lemma runes_letters: "runes (replicate n CHR ''a'' @ t) = replicate n ''a'' @ runes t"
proof -
  have size: "rune_size ''a'' = 1" by code_simp
  then have "one_rune ''a''" using one_runeI[of "''a''"] by simp
  then show ?thesis using runes_concat[of "replicate n ''a''" t] by (simp add: concat_replicate_trivial)
qed

lemma preview_splits_rune: "valid_utf8 long_line" "\<not> valid_utf8 (truncateProgress long_line)"
proof -
  have trim: "trim_space long_line = long_line" by code_simp
  have cut: "truncateProgress long_line = replicate 236 CHR ''a'' @ [CHR 0xE5] @ ''...''"
    unfolding truncateProgress_def Let_def trim by (simp add: long_line_def progressPreviewLimit_def)
  have "runes ([CHR 0xE5, CHR 0xB7, CHR 0xB2] @ ''aaaaa'') = [[CHR 0xE5, CHR 0xB7, CHR 0xB2], ''a'', ''a'', ''a'', ''a'', ''a'']" by code_simp
  then show "valid_utf8 long_line" by (simp add: valid_utf8_def long_line_def runes_letters)
  have "runes ([CHR 0xE5] @ ''...'') = [rune_error, ''.'', ''.'', ''.'']" by code_simp
  then show "\<not> valid_utf8 (truncateProgress long_line)" unfolding cut by (simp add: valid_utf8_def runes_letters rune_error_def)
qed

end
