(* ===== verification/Child_Agents.thy ===== *)
theory Child_Agents
  imports Child_Progress "HOL-Library.Multiset"
begin

text \<open>
  The manager of temporary child agents: \<^verbatim>\<open>childagent/manager.go\<close>, \<^verbatim>\<open>parse.go\<close>, \<^verbatim>\<open>policy.go\<close>, \<^verbatim>\<open>registry.go\<close>, \<^verbatim>\<open>relay_hub.go\<close>, \<^verbatim>\<open>tools_handler.go\<close>, its host in
  \<^verbatim>\<open>session/manager_child.go\<close> and the table \<^verbatim>\<open>store/child_runs.go\<close>.

  The manager's calls run in several goroutines, and each of them takes and releases the locks several times. One section between two such points is an action (\<open>child_action\<close>); a
  goroutine is the list of the actions it has still to do, and executing an action (\<open>exec_action\<close>) may put further ones in its place. \<open>child_ops\<close> interleaves any number of
  goroutines in any order. The agents are objects in a store, since a goroutine keeps its pointer after the manager has forgotten the agent.

  The rows of the table hold the progress as a value and not as JSON. An event that is published is recorded with its typed content.

  \<open>child_settles_once\<close>, \<open>settled_children_released\<close>: a child ends once, the parent is told what its end was, and nothing of it is left behind; \<open>child_limit_kept\<close>: the number of active
  children of a parent is bounded. Each holds when the creation of a child is not disturbed; the lemmas of the last section show what happens otherwise.
  \<open>child_tools_confined\<close>: a child only executes tools its parent may delegate.
\<close>

section \<open>Tools of a child\<close>

definition DefaultChildAllowedTools :: "string list" where
  "DefaultChildAllowedTools = [''read_file'', ''glob_files'', ''grep_files'', ''bash_run'']"

definition FormatChildTask :: "string \<Rightarrow> string" where
  "FormatChildTask task = trim_space task"

definition ParentDelegatableTools :: "string list" where
  "ParentDelegatableTools = [''read_file'', ''write_file'', ''glob_files'', ''grep_file'', ''grep_files'', ''search_replace'', ''bash_run'']"

definition IsParentOnlyTool :: "string \<Rightarrow> bool" where
  "IsParentOnlyTool name \<longleftrightarrow>
     trim_space name \<in> {''create_temporary_agent'', ''cancel_temporary_agent'', ''load_skills'', ''unload_skills'', ''clear_skills''} \<or>
     has_prefix ''trigger_'' name \<or> name = ''ask_user_information''"

definition IsTemporaryAgentTool :: "string \<Rightarrow> bool" where
  "IsTemporaryAgentTool name \<longleftrightarrow> trim_space name \<in> {''create_temporary_agent'', ''cancel_temporary_agent''}"

datatype child_error =
    ErrChildDisabled | ErrNoHost | ErrInvalidJSON | ErrTaskRequired | ErrPurposeRequired | ErrParentNotFound | ErrActiveLimit int
  | ErrParentOnlyTool string | ErrNotDelegatable string | ErrAllowedEmpty | ErrRandom | ErrChildExists | ErrChildNotFound | ErrHost string
  | ErrNotOwned | ErrChildIDRequired | ErrTargetMismatch | ErrNoPendingHitl | ErrNotAllowed string | ErrUnknownTool string

fun resolve_tools :: "string list \<Rightarrow> string list \<Rightarrow> child_error + string list" where
  "resolve_tools [] out = Inr out"
| "resolve_tools (name0 # names) out =
     (let name = trim_space name0
      in if name = [] then resolve_tools names out
         else if IsParentOnlyTool name then Inl (ErrParentOnlyTool name)
         else if name \<notin> set ParentDelegatableTools then Inl (ErrNotDelegatable name)
         else resolve_tools names (out @ [name]))"

definition resolveAllowedTools :: "string list \<Rightarrow> child_error + string list" where
  "resolveAllowedTools requested =
     (case resolve_tools (if requested = [] then DefaultChildAllowedTools else requested) [] of
        Inl e \<Rightarrow> Inl e
      | Inr [] \<Rightarrow> Inl ErrAllowedEmpty
      | Inr out \<Rightarrow> Inr out)"

text \<open>The registry of a child: the names it executes, and the check before each execution.\<close>

definition NewRestrictedRegistry :: "string list \<Rightarrow> string list" where
  "NewRestrictedRegistry allowed = filter (\<lambda>n. n \<noteq> [] \<and> \<not> IsParentOnlyTool n) (map trim_space allowed)"

definition registry_Definitions :: "string list \<Rightarrow> string list \<Rightarrow> string list" where
  "registry_Definitions allowed all = filter (\<lambda>name. name \<in> set allowed) all"

definition registry_check :: "string list \<Rightarrow> string \<Rightarrow> child_error option" where
  "registry_check allowed name =
     (if IsParentOnlyTool name then Some (ErrNotAllowed name) else if name \<notin> set allowed then Some (ErrNotAllowed name) else None)"

definition registry_Execute :: "(string \<Rightarrow> string \<Rightarrow> child_error + string) \<Rightarrow> string list \<Rightarrow> string \<Rightarrow> string \<Rightarrow> child_error + string" where
  "registry_Execute inner allowed name args = (case registry_check allowed name of Some e \<Rightarrow> Inl e | None \<Rightarrow> inner name args)"

section \<open>Arguments of the creation\<close>

record child_config =
  cc_Enabled :: bool
  cc_DefaultTTLSeconds :: int
  cc_MaxTTLSeconds :: int
  cc_DefaultMaxTurns :: int
  cc_MaxMaxTurns :: int
  cc_MaxActivePerParent :: int

definition positive_or :: "int \<Rightarrow> int \<Rightarrow> int" where
  "positive_or v d = (if v \<le> 0 then d else v)"

definition child_defaults :: "child_config \<Rightarrow> child_config" where
  "child_defaults c =
     c\<lparr>cc_DefaultTTLSeconds := positive_or (cc_DefaultTTLSeconds c) 1800, cc_MaxTTLSeconds := positive_or (cc_MaxTTLSeconds c) 7200,
       cc_DefaultMaxTurns := positive_or (cc_DefaultMaxTurns c) 20, cc_MaxMaxTurns := positive_or (cc_MaxMaxTurns c) 50,
       cc_MaxActivePerParent := positive_or (cc_MaxActivePerParent c) 8\<rparr>"

record child_input =
  cr_Task :: string
  cr_Purpose :: string
  cr_AllowedTools :: "string list"
  cr_SkillNames :: "string list"
  cr_TTLSeconds :: int
  cr_MaxTurns :: int

definition any_get :: "event_data \<Rightarrow> string \<Rightarrow> go_any" where
  "any_get raw key = (case map_of raw key of None \<Rightarrow> AnyNil | Some v \<Rightarrow> v)"

definition parseStringSlice :: "child_io \<Rightarrow> go_any \<Rightarrow> string list" where
  "parseStringSlice io raw =
     (case raw of
        AnyList l \<Rightarrow> filter (\<lambda>s. s \<noteq> [] \<and> s \<noteq> ''<nil>'') (map (\<lambda>v. trim_space (sprint_any (ci_sprint io) v)) l)
      | _ \<Rightarrow> [])"

definition int_or :: "event_data \<Rightarrow> string \<Rightarrow> int \<Rightarrow> int" where
  "int_or raw key d = (if progressInt raw key > 0 then progressInt raw key else d)"

definition parseCreateInput :: "child_io \<Rightarrow> string \<Rightarrow> child_config \<Rightarrow> child_error + child_input" where
  "parseCreateInput io argsJSON cfg =
     (case ci_unmarshal io argsJSON of
        None \<Rightarrow> Inl ErrInvalidJSON
      | Some raw \<Rightarrow>
          (let task = trim_space (sprint_any (ci_sprint io) (any_get raw ''task''));
               purpose = trim_space (sprint_any (ci_sprint io) (any_get raw ''purpose''));
               ttl = min (max (int_or raw ''ttl_seconds'' (cc_DefaultTTLSeconds cfg)) 60) (cc_MaxTTLSeconds cfg);
               maxTurns = min (max (int_or raw ''max_turns'' (cc_DefaultMaxTurns cfg)) 1) (cc_MaxMaxTurns cfg)
           in if task = [] then Inl ErrTaskRequired
              else if purpose = [] then Inl ErrPurposeRequired
              else Inr \<lparr>cr_Task = task, cr_Purpose = purpose, cr_AllowedTools = parseStringSlice io (any_get raw ''allowed_tools''),
                        cr_SkillNames = parseStringSlice io (any_get raw ''skill_names''), cr_TTLSeconds = ttl, cr_MaxTurns = maxTurns\<rparr>))"

section \<open>State\<close>

record child_result =
  cs_ChildAgentID :: string
  cs_Status :: string
  cs_Summary :: string
  cs_TurnCount :: int
  cs_Error :: string
  cs_Artifacts :: "string list"

definition zero_result :: child_result where
  "zero_result = \<lparr>cs_ChildAgentID = [], cs_Status = [], cs_Summary = [], cs_TurnCount = 0, cs_Error = [], cs_Artifacts = []\<rparr>"

record active_agent =
  aa_ChildAgentID :: string
  aa_ParentAgentID :: string
  aa_ToolCallID :: string
  aa_Purpose :: string
  aa_AllowedTools :: "string list"
  aa_LoadedSkills :: "string list"
  aa_Status :: child_status
  aa_CreatedAt :: gotime
  aa_ExpiresAt :: gotime
  aa_MaxTurns :: int
  aa_TurnCount :: int
  aa_Progress :: child_progress
  aa_terminalResult :: "child_result option"
  aa_settled :: bool

record agent_snapshot =
  sp_ChildAgentID :: string
  sp_ParentAgentID :: string
  sp_ToolCallID :: string
  sp_Purpose :: string
  sp_AllowedTools :: "string list"
  sp_LoadedSkills :: "string list"
  sp_Status :: string
  sp_CreatedAt :: gotime
  sp_ExpiresAt :: gotime
  sp_MaxTurns :: int
  sp_TurnCount :: int
  sp_Progress :: child_progress
  sp_FinishedAt :: gotime

definition newActiveAgent :: "gotime \<Rightarrow> string \<Rightarrow> child_input \<Rightarrow> string \<Rightarrow> gotime \<Rightarrow> active_agent" where
  "newActiveAgent now parentID input childID expiresAt =
     \<lparr>aa_ChildAgentID = childID, aa_ParentAgentID = parentID, aa_ToolCallID = [], aa_Purpose = cr_Purpose input, aa_AllowedTools = cr_AllowedTools input,
      aa_LoadedSkills = cr_SkillNames input, aa_Status = StatusCreating, aa_CreatedAt = now, aa_ExpiresAt = expiresAt, aa_MaxTurns = cr_MaxTurns input,
      aa_TurnCount = 0, aa_Progress = initial_progress (cr_MaxTurns input), aa_terminalResult = None, aa_settled = False\<rparr>"

definition Snapshot :: "active_agent \<Rightarrow> agent_snapshot" where
  "Snapshot a =
     \<lparr>sp_ChildAgentID = aa_ChildAgentID a, sp_ParentAgentID = aa_ParentAgentID a, sp_ToolCallID = aa_ToolCallID a, sp_Purpose = aa_Purpose a,
      sp_AllowedTools = aa_AllowedTools a, sp_LoadedSkills = aa_LoadedSkills a, sp_Status = status_text (aa_Status a), sp_CreatedAt = aa_CreatedAt a,
      sp_ExpiresAt = aa_ExpiresAt a, sp_MaxTurns = aa_MaxTurns a, sp_TurnCount = aa_TurnCount a, sp_Progress = aa_Progress a,
      sp_FinishedAt = pg_FinishedAt (aa_Progress a)\<rparr>"

definition isTerminal :: "active_agent \<Rightarrow> bool" where
  "isTerminal a \<longleftrightarrow> aa_Status a \<in> {StatusCompleted, StatusFailed, StatusCancelled, StatusExpired, StatusInterrupted}"

definition resultSnapshot :: "active_agent \<Rightarrow> child_result" where
  "resultSnapshot a =
     (case aa_terminalResult a of
        Some r \<Rightarrow> r
      | None \<Rightarrow> zero_result\<lparr>cs_ChildAgentID := aa_ChildAgentID a, cs_Status := status_text (aa_Status a), cs_TurnCount := aa_TurnCount a\<rparr>)"

record run_record =
  rr_ChildAgentID :: string
  rr_ParentAgentID :: string
  rr_ToolCallID :: string
  rr_Purpose :: string
  rr_Status :: string
  rr_Phase :: string
  rr_AllowedTools :: "string list"
  rr_LoadedSkills :: "string list"
  rr_Progress :: "child_progress option"
  rr_TurnCount :: int
  rr_MaxTurns :: int
  rr_Summary :: string
  rr_Error :: string
  rr_CreatedAt :: gotime
  rr_ExpiresAt :: gotime
  rr_UpdatedAt :: gotime
  rr_FinishedAt :: gotime
  rr_Revision :: u64

datatype child_event =
    EvCreated string agent_snapshot
  | EvProgress string string child_progress
  | EvCompleted string child_result
  | EvCancelled string string string string

text \<open>What a call of the creation tool returns.\<close>

datatype create_reply = CreateFailed child_error | CreateError child_error | CreateResult nat child_result

text \<open>A session of the host: a child of another session or not.\<close>

type_synonym host_sessions = "(string, string option) gomap"

record child_world =
  cw_cfg :: child_config
  cw_hostBound :: bool
  cw_heap :: "active_agent list"
  cw_activeByID :: "(string, nat) gomap"
  cw_activeIDsByParent :: "(string, string list) gomap"
  cw_settled :: "(string, agent_snapshot) gomap"
  cw_repo :: "(string, run_record) gomap option"
  cw_sessions :: host_sessions
  cw_events :: "child_event list"
  cw_replies :: "create_reply list"

definition NewManager :: "child_config \<Rightarrow> host_sessions \<Rightarrow> (string, run_record) gomap option \<Rightarrow> child_world" where
  "NewManager cfg sessions repo =
     \<lparr>cw_cfg = child_defaults cfg, cw_hostBound = True, cw_heap = [], cw_activeByID = [], cw_activeIDsByParent = [], cw_settled = [], cw_repo = repo,
      cw_sessions = sessions, cw_events = [], cw_replies = []\<rparr>"

definition active_agent_of :: "child_world \<Rightarrow> string \<Rightarrow> (nat \<times> active_agent) option" where
  "active_agent_of w i = (case map_of (cw_activeByID w) i of None \<Rightarrow> None | Some a \<Rightarrow> if a < length (cw_heap w) then Some (a, cw_heap w ! a) else None)"

definition set_agent :: "nat \<Rightarrow> active_agent \<Rightarrow> child_world \<Rightarrow> child_world" where
  "set_agent a ag w = w\<lparr>cw_heap := (cw_heap w)[a := ag]\<rparr>"

definition publish_event :: "child_event \<Rightarrow> child_world \<Rightarrow> child_world" where
  "publish_event e w = w\<lparr>cw_events := cw_events w @ [e]\<rparr>"

definition reply_with :: "create_reply \<Rightarrow> child_world \<Rightarrow> child_world" where
  "reply_with r w = w\<lparr>cw_replies := cw_replies w @ [r]\<rparr>"

section \<open>The host\<close>

definition ParentSessionActive :: "string \<Rightarrow> child_world \<Rightarrow> bool" where
  "ParentSessionActive parentID w \<longleftrightarrow> map_of (cw_sessions w) parentID = Some None"

text \<open>\<open>skills\<close> is the error of the skill catalog, if any.\<close>

definition SpawnChild :: "string option \<Rightarrow> string \<Rightarrow> string \<Rightarrow> child_world \<Rightarrow> child_error option \<times> child_world" where
  "SpawnChild skills childID parentID w =
     (if map_of (cw_sessions w) childID \<noteq> None then (Some ErrChildExists, w)
      else if map_of (cw_sessions w) parentID \<noteq> Some None then (Some ErrParentNotFound, w)
      else (case skills of
              Some e \<Rightarrow> (Some (ErrHost e), w)
            | None \<Rightarrow> (None, w\<lparr>cw_sessions := AList.update childID (Some parentID) (cw_sessions w)\<rparr>)))"

definition StopChild :: "string \<Rightarrow> child_world \<Rightarrow> child_world" where
  "StopChild childID w = w\<lparr>cw_sessions := AList.delete childID (cw_sessions w)\<rparr>"

definition EnqueueChildTask :: "string option \<Rightarrow> string \<Rightarrow> child_world \<Rightarrow> child_error option" where
  "EnqueueChildTask full childID w =
     (case map_of (cw_sessions w) childID of
        Some (Some _) \<Rightarrow> (case full of None \<Rightarrow> None | Some e \<Rightarrow> Some (ErrHost e))
      | _ \<Rightarrow> Some ErrChildNotFound)"

section \<open>The table of runs\<close>

definition SaveChildRun :: "gotime \<Rightarrow> bool \<Rightarrow> run_record \<Rightarrow> (string, run_record) gomap \<Rightarrow> (string, run_record) gomap" where
  "SaveChildRun now written rec0 rows =
     (let rec = rec0\<lparr>rr_CreatedAt := (if rr_CreatedAt rec0 = 0 then now else rr_CreatedAt rec0), rr_UpdatedAt := (if rr_UpdatedAt rec0 = 0 then now else rr_UpdatedAt rec0)\<rparr>
      in if trim_space (rr_ChildAgentID rec) = [] \<or> trim_space (rr_ParentAgentID rec) = [] \<or> \<not> written then rows
         else AList.update (rr_ChildAgentID rec)
                (case map_of rows (rr_ChildAgentID rec) of None \<Rightarrow> rec | Some old \<Rightarrow> rec\<lparr>rr_CreatedAt := rr_CreatedAt old\<rparr>) rows)"

definition ListChildRuns :: "string \<Rightarrow> int \<Rightarrow> (string, run_record) gomap \<Rightarrow> run_record list" where
  "ListChildRuns parentID limit0 rows =
     (let limit = (if limit0 \<le> 0 \<or> limit0 > 1000 then 1000 else limit0);
          mine = filter (\<lambda>r. trim_space parentID = [] \<or> rr_ParentAgentID r = trim_space parentID) (map snd rows)
      in take (nat limit) (sort_key (\<lambda>r. - rr_UpdatedAt r) mine))"

definition record_of :: "agent_snapshot \<Rightarrow> run_record" where
  "record_of s =
     \<lparr>rr_ChildAgentID = sp_ChildAgentID s, rr_ParentAgentID = sp_ParentAgentID s, rr_ToolCallID = sp_ToolCallID s, rr_Purpose = sp_Purpose s,
      rr_Status = sp_Status s, rr_Phase = pg_Phase (sp_Progress s), rr_AllowedTools = sp_AllowedTools s, rr_LoadedSkills = sp_LoadedSkills s,
      rr_Progress = Some (sp_Progress s), rr_TurnCount = pg_TurnCount (sp_Progress s), rr_MaxTurns = sp_MaxTurns s, rr_Summary = pg_Summary (sp_Progress s),
      rr_Error = pg_Error (sp_Progress s), rr_CreatedAt = sp_CreatedAt s, rr_ExpiresAt = sp_ExpiresAt s, rr_UpdatedAt = pg_UpdatedAt (sp_Progress s),
      rr_FinishedAt = sp_FinishedAt s, rr_Revision = pg_Revision (sp_Progress s)\<rparr>"

definition persistSnapshot :: "gotime \<Rightarrow> bool \<Rightarrow> agent_snapshot \<Rightarrow> child_world \<Rightarrow> child_world" where
  "persistSnapshot now written s w = w\<lparr>cw_repo := map_option (SaveChildRun now written (record_of s)) (cw_repo w)\<rparr>"

text \<open>A row found running when the manager starts belongs to an earlier process.\<close>

definition interrupt_record :: "gotime \<Rightarrow> run_record \<Rightarrow> run_record" where
  "interrupt_record now rec =
     (let err = ''node restarted before child agent completed''; rev' = rr_Revision rec + 1;
          p0 = (case rr_Progress rec of Some p \<Rightarrow> p | None \<Rightarrow> initial_progress 0);
          p = p0\<lparr>pg_Status := StatusInterrupted, pg_Phase := ''interrupted'', pg_Error := err, pg_PendingApproval := False, pg_PendingApprovalData := [],
                 pg_UpdatedAt := now, pg_FinishedAt := now, pg_Revision := rev'\<rparr>
      in rec\<lparr>rr_Status := ''interrupted'', rr_Phase := ''interrupted'', rr_Error := err, rr_FinishedAt := now, rr_UpdatedAt := now, rr_Revision := rev',
             rr_Progress := Some p\<rparr>)"

fun interrupt_runs :: "gotime \<Rightarrow> run_record list \<Rightarrow> (string, run_record) gomap \<Rightarrow> (string, run_record) gomap" where
  "interrupt_runs now [] rows = rows"
| "interrupt_runs now (rec # recs) rows =
     interrupt_runs now recs
       (if rr_Status rec = ''creating'' \<or> rr_Status rec = ''active'' then SaveChildRun now True (interrupt_record now rec) rows else rows)"

definition SetRunRepository :: "gotime \<Rightarrow> (string, run_record) gomap \<Rightarrow> child_world \<Rightarrow> child_world" where
  "SetRunRepository now rows w = w\<lparr>cw_repo := Some (interrupt_runs now (ListChildRuns [] 1000 rows) rows)\<rparr>"

definition snapshotFromRecord :: "run_record \<Rightarrow> agent_snapshot option" where
  "snapshotFromRecord rec =
     (case rr_Progress rec of
        None \<Rightarrow> None
      | Some p \<Rightarrow>
          Some \<lparr>sp_ChildAgentID = rr_ChildAgentID rec, sp_ParentAgentID = rr_ParentAgentID rec, sp_ToolCallID = rr_ToolCallID rec, sp_Purpose = rr_Purpose rec,
                sp_AllowedTools = rr_AllowedTools rec, sp_LoadedSkills = rr_LoadedSkills rec, sp_Status = rr_Status rec, sp_CreatedAt = rr_CreatedAt rec,
                sp_ExpiresAt = rr_ExpiresAt rec, sp_MaxTurns = rr_MaxTurns rec, sp_TurnCount = rr_TurnCount rec,
                sp_Progress =
                  p\<lparr>pg_Status := text_status (rr_Status rec), pg_Phase := (if pg_Phase p = [] then rr_Phase rec else pg_Phase p),
                    pg_TurnCount := (if pg_TurnCount p = 0 then rr_TurnCount rec else pg_TurnCount p),
                    pg_MaxTurns := (if pg_MaxTurns p = 0 then rr_MaxTurns rec else pg_MaxTurns p),
                    pg_Summary := (if pg_Summary p = [] then rr_Summary rec else pg_Summary p),
                    pg_Error := (if pg_Error p = [] then rr_Error rec else pg_Error p),
                    pg_UpdatedAt := (if pg_UpdatedAt p = 0 then rr_UpdatedAt rec else pg_UpdatedAt p),
                    pg_FinishedAt := (if pg_FinishedAt p = 0 then rr_FinishedAt rec else pg_FinishedAt p)\<rparr>,
                sp_FinishedAt = rr_FinishedAt rec\<rparr>)"

section \<open>Goroutines\<close>

text \<open>
  The sections of the manager's methods. \<open>AFinish\<close> carries the object whose creation call returns the result, if it was the wait of that call that ended the child.
\<close>

datatype child_action =
    ACreate string string string
  | ARegister string child_input "string list" string string
  | ASpawn nat string
  | AActivate nat
  | APersistAgent nat
  | ASave agent_snapshot
  | APublishCreated nat
  | AEnqueue nat string
  | AWait nat
  | AFinish string child_status string string bool string "nat option"
  | ARecord string agent_snapshot
  | APublishProgress string string child_progress
  | APublishEnd string bool child_result string
  | AStop string
  | AUnregister string
  | ASettled string string int
  | AFailed string string int
  | ACancel string string string "nat option"
  | ACancelAll string string
  | ATimeToLive string
  | AObserve string string event_data

text \<open>What an action finds in its environment: the time, whether a row is written, the errors of the host, the random id, and which case of a wait is chosen.\<close>

datatype wait_case = WaitCtxDone | WaitSettled | WaitTimeout

record child_env =
  ce_now :: gotime
  ce_written :: bool
  ce_skills :: "string option"
  ce_full :: "string option"
  ce_random :: "nat list option"
  ce_wait :: wait_case

section \<open>The end of a child\<close>

definition settle_agent :: "gotime \<Rightarrow> child_status \<Rightarrow> string \<Rightarrow> string \<Rightarrow> active_agent \<Rightarrow> active_agent" where
  "settle_agent now status summary errText a =
     a\<lparr>aa_Status := status,
       aa_Progress := (aa_Progress a)\<lparr>pg_Status := status, pg_Phase := status_text status, pg_PendingApproval := False, pg_PendingApprovalData := [],
                        pg_Summary := trim_space summary, pg_Error := trim_space errText, pg_TurnCount := aa_TurnCount a, pg_MaxTurns := aa_MaxTurns a,
                        pg_Revision := pg_Revision (aa_Progress a) + 1, pg_UpdatedAt := now, pg_FinishedAt := now\<rparr>,
       aa_terminalResult := Some \<lparr>cs_ChildAgentID = aa_ChildAgentID a, cs_Status = status_text status, cs_Summary = summary, cs_TurnCount = aa_TurnCount a,
                                  cs_Error = errText, cs_Artifacts = []\<rparr>,
       aa_settled := True\<rparr>"

text \<open>The value, the state, and what remains to be done.\<close>

definition finishWithEvent :: "gotime \<Rightarrow> string \<Rightarrow> child_status \<Rightarrow> string \<Rightarrow> string \<Rightarrow> bool \<Rightarrow> string \<Rightarrow> child_world \<Rightarrow> child_result \<times> child_world \<times> child_action list" where
  "finishWithEvent now childID status summary errText cancelledEvent previous w =
     (case active_agent_of w childID of
        None \<Rightarrow> (zero_result, w, [])
      | Some (a, ag) \<Rightarrow>
          if isTerminal ag then (resultSnapshot ag, w, [])
          else (let ag' = settle_agent now status summary errText ag; out = resultSnapshot ag'; parentID = aa_ParentAgentID ag'
                in (out, set_agent a ag' w,
                    [ARecord parentID (Snapshot ag'), ASave (Snapshot ag'), APublishProgress parentID childID (aa_Progress ag'),
                     APublishEnd parentID cancelledEvent out previous] @
                    (if cw_hostBound w then [AStop childID] else []) @ [AUnregister childID])))"

definition maxSettledPerParent :: nat where "maxSettledPerParent = 64"

definition trimSettledLocked :: "string \<Rightarrow> child_world \<Rightarrow> child_world" where
  "trimSettledLocked parentID w =
     (let mine = filter (\<lambda>(i, s). sp_ParentAgentID s = parentID) (cw_settled w)
      in if length mine \<le> maxSettledPerParent then w
         else (let old = map fst (take (length mine - maxSettledPerParent) (sort_key (\<lambda>(i, s). pg_UpdatedAt (sp_Progress s)) mine))
               in w\<lparr>cw_settled := filter (\<lambda>(i, s). i \<notin> set old) (cw_settled w)\<rparr>))"

definition publish_end :: "string \<Rightarrow> bool \<Rightarrow> child_result \<Rightarrow> string \<Rightarrow> child_event" where
  "publish_end parentID cancelledEvent res previous =
     (if cancelledEvent then EvCancelled parentID (cs_ChildAgentID res) (cs_Error res) previous else EvCompleted parentID res)"

definition unregisterActive :: "string \<Rightarrow> child_world \<Rightarrow> child_world" where
  "unregisterActive childID w =
     (case active_agent_of w childID of
        None \<Rightarrow> w
      | Some (a, ag) \<Rightarrow>
          (let parentID = aa_ParentAgentID ag;
               kept = filter (\<lambda>i. i \<noteq> childID) (case map_of (cw_activeIDsByParent w) parentID of None \<Rightarrow> [] | Some ids \<Rightarrow> ids)
           in w\<lparr>cw_activeByID := AList.delete childID (cw_activeByID w),
                cw_activeIDsByParent :=
                  (if kept = [] then AList.delete parentID (cw_activeIDsByParent w) else AList.update parentID kept (cw_activeIDsByParent w))\<rparr>))"

definition child_no_summary :: string where
  "child_no_summary =
     [CHR 0xEF, CHR 0xBC, CHR 0x88, CHR 0xE5, CHR 0xAD, CHR 0x90] @ '' Agent '' @
     [CHR 0xE6, CHR 0x9C, CHR 0xAA, CHR 0xE4, CHR 0xBA, CHR 0xA7, CHR 0xE7, CHR 0x94, CHR 0x9F, CHR 0xE6, CHR 0x96, CHR 0x87, CHR 0xE6, CHR 0x9C, CHR 0xAC,
      CHR 0xE7, CHR 0xBB, CHR 0x93, CHR 0xE8, CHR 0xAE, CHR 0xBA, CHR 0xEF, CHR 0xBC, CHR 0x89]"

definition OnChildSettled :: "string \<Rightarrow> string \<Rightarrow> int \<Rightarrow> child_world \<Rightarrow> child_world \<times> child_action list" where
  "OnChildSettled childID summary turnCount w =
     (case active_agent_of w childID of
        None \<Rightarrow> (w, [])
      | Some (a, ag) \<Rightarrow>
          if isTerminal ag then (w, [])
          else (set_agent a (ag\<lparr>aa_TurnCount := turnCount\<rparr>) w,
                [AFinish childID StatusCompleted (if trim_space summary = [] then child_no_summary else summary) [] False [] None]))"

definition OnChildFailed :: "string \<Rightarrow> string \<Rightarrow> int \<Rightarrow> child_world \<Rightarrow> child_world \<times> child_action list" where
  "OnChildFailed childID errText turnCount w =
     (case active_agent_of w childID of
        None \<Rightarrow> (w, [])
      | Some (a, ag) \<Rightarrow>
          if isTerminal ag then (w, [])
          else (set_agent a (ag\<lparr>aa_TurnCount := turnCount\<rparr>) w,
                [AFinish childID StatusFailed [] (if trim_space errText = [] then ''child agent execution failed'' else errText) False [] None]))"

text \<open>The section of \<^verbatim>\<open>Cancel\<close> before the end: the error or the result when there is nothing to do.\<close>

definition Cancel :: "string \<Rightarrow> string \<Rightarrow> string \<Rightarrow> nat option \<Rightarrow> child_world \<Rightarrow> (child_error + child_result) option \<times> child_action list" where
  "Cancel parentID childID0 reason0 reply w =
     (let childID = trim_space childID0; reason = (if trim_space reason0 = [] then ''cancelled'' else trim_space reason0)
      in case active_agent_of w childID of
           None \<Rightarrow> (Some (Inl ErrChildNotFound), [])
         | Some (a, ag) \<Rightarrow>
             if parentID \<noteq> [] \<and> aa_ParentAgentID ag \<noteq> parentID then (Some (Inl ErrChildNotFound), [])
             else if isTerminal ag then (Some (Inr (resultSnapshot ag)), [])
             else (None, [AFinish childID StatusCancelled [] reason True (status_text (aa_Status ag)) reply]))"

definition CancelAllForParent :: "string \<Rightarrow> string \<Rightarrow> child_world \<Rightarrow> child_action list" where
  "CancelAllForParent parentID reason0 w =
     (let reason = (if trim_space reason0 = [] then ''parent session released'' else reason0)
      in map (\<lambda>i. ACancel parentID i reason None) (case map_of (cw_activeIDsByParent w) parentID of None \<Rightarrow> [] | Some ids \<Rightarrow> ids))"

definition runTTLTimer :: "string \<Rightarrow> child_world \<Rightarrow> child_action list" where
  "runTTLTimer childID w =
     (case active_agent_of w childID of
        None \<Rightarrow> []
      | Some (a, ag) \<Rightarrow>
          if isTerminal ag then [] else [AFinish childID StatusExpired [] ''ttl expired'' False (status_text (aa_Status ag)) None])"

definition ObserveChildEvent :: "child_io \<Rightarrow> gotime \<Rightarrow> string \<Rightarrow> string \<Rightarrow> event_data \<Rightarrow> child_world \<Rightarrow> child_world \<times> child_action list" where
  "ObserveChildEvent io now childID eventType data w =
     (case active_agent_of w childID of
        None \<Rightarrow> (w, [])
      | Some (a, ag) \<Rightarrow>
          if isTerminal ag then (w, [])
          else (case observe_progress io now (aa_Status ag) (aa_MaxTurns ag) eventType data (aa_Progress ag) of
                  None \<Rightarrow> (w, [])
                | Some p \<Rightarrow> (set_agent a (ag\<lparr>aa_Progress := p\<rparr>) w, [APersistAgent a, APublishProgress (aa_ParentAgentID ag) childID p])))"

section \<open>Creation\<close>

definition checkActiveLimit :: "string \<Rightarrow> child_world \<Rightarrow> child_error option" where
  "checkActiveLimit parentID w =
     (let ids = (case map_of (cw_activeIDsByParent w) parentID of None \<Rightarrow> [] | Some ids \<Rightarrow> ids);
          active = length (filter (\<lambda>i. case active_agent_of w i of None \<Rightarrow> False | Some (a, ag) \<Rightarrow> \<not> isTerminal ag) ids)
      in if int active \<ge> cc_MaxActivePerParent (cw_cfg w) then Some (ErrActiveLimit (cc_MaxActivePerParent (cw_cfg w))) else None)"

definition generateChildAgentID :: "nat list \<Rightarrow> string" where
  "generateChildAgentID bytes = ''child-'' @ concat (map (\<lambda>b. [hex_digit (b div 16 mod 16), hex_digit (b mod 16)]) bytes)"

text \<open>\<^verbatim>\<open>handleCreate\<close> up to the registration: the checks, and the random id.\<close>

definition handleCreate :: "child_io \<Rightarrow> nat list option \<Rightarrow> string \<Rightarrow> string \<Rightarrow> string \<Rightarrow> child_world \<Rightarrow> create_reply + child_action list" where
  "handleCreate io random parentID0 argsJSON callID w =
     (let parentID = trim_space parentID0
      in if \<not> cc_Enabled (cw_cfg w) then Inl (CreateFailed ErrChildDisabled)
         else if \<not> cw_hostBound w then Inl (CreateFailed ErrNoHost)
         else (case parseCreateInput io argsJSON (cw_cfg w) of
                 Inl e \<Rightarrow> Inl (CreateError e)
               | Inr input \<Rightarrow>
                   if \<not> ParentSessionActive parentID w then Inl (CreateError ErrParentNotFound)
                   else (case checkActiveLimit parentID w of
                           Some e \<Rightarrow> Inl (CreateError e)
                         | None \<Rightarrow>
                             (case resolveAllowedTools (cr_AllowedTools input) of
                                Inl e \<Rightarrow> Inl (CreateError e)
                              | Inr allowed \<Rightarrow>
                                  (case random of
                                     None \<Rightarrow> Inl (CreateFailed ErrRandom)
                                   | Some bytes \<Rightarrow> Inr [ARegister parentID input allowed (generateChildAgentID bytes) (trim_space callID)])))))"

definition create_register :: "gotime \<Rightarrow> string \<Rightarrow> child_input \<Rightarrow> string list \<Rightarrow> string \<Rightarrow> string \<Rightarrow> child_world \<Rightarrow> child_world" where
  "create_register now parentID input allowed childID callID w =
     (let ag = (newActiveAgent now parentID input childID (now + cr_TTLSeconds input * 1000000000))\<lparr>aa_AllowedTools := allowed, aa_ToolCallID := callID\<rparr>;
          ids = (case map_of (cw_activeIDsByParent w) parentID of None \<Rightarrow> [] | Some ids \<Rightarrow> ids)
      in w\<lparr>cw_heap := cw_heap w @ [ag], cw_activeByID := AList.update childID (length (cw_heap w)) (cw_activeByID w),
           cw_activeIDsByParent := AList.update parentID (ids @ [childID]) (cw_activeIDsByParent w)\<rparr>)"

definition create_activate :: "gotime \<Rightarrow> active_agent \<Rightarrow> active_agent" where
  "create_activate now ag =
     ag\<lparr>aa_Status := StatusActive,
        aa_Progress := (aa_Progress ag)\<lparr>pg_Status := StatusActive, pg_Phase := ''queued'', pg_MaxTurns := aa_MaxTurns ag,
                         pg_Revision := pg_Revision (aa_Progress ag) + 1, pg_UpdatedAt := now\<rparr>\<rparr>"

text \<open>The select statement of the wait, once a case is chosen; \<open>None\<close> when that case is not ready.\<close>

definition waitUntilSettled :: "wait_case \<Rightarrow> nat \<Rightarrow> child_world \<Rightarrow> (child_result option \<times> child_action list) option" where
  "waitUntilSettled choice a w =
     (let ag = cw_heap w ! a
      in case choice of
           WaitCtxDone \<Rightarrow>
             Some (None, [AFinish (aa_ChildAgentID ag) StatusCancelled [] ''parent turn cancelled'' True (status_text (aa_Status ag)) (Some a)])
         | WaitSettled \<Rightarrow> if aa_settled ag then Some (Some (resultSnapshot ag), []) else None
         | WaitTimeout \<Rightarrow>
             Some (None, [ACancel (aa_ParentAgentID ag) (aa_ChildAgentID ag) ''synchronous child execution timeout'' (Some a)]))"

section \<open>Executing an action\<close>

definition reply_opt :: "nat option \<Rightarrow> child_result \<Rightarrow> child_world \<Rightarrow> child_world" where
  "reply_opt reply r w = (case reply of None \<Rightarrow> w | Some a \<Rightarrow> reply_with (CreateResult a r) w)"

definition child_error_text :: "child_error \<Rightarrow> string" where
  "child_error_text e =
     (case e of ErrChildExists \<Rightarrow> ''child session already exists'' | ErrParentNotFound \<Rightarrow> ''parent session not found'' | ErrChildNotFound \<Rightarrow> ''child session not found''
        | ErrHost s \<Rightarrow> s | _ \<Rightarrow> [])"

fun exec_action :: "child_io \<Rightarrow> child_env \<Rightarrow> child_action \<Rightarrow> child_world \<Rightarrow> child_world \<times> child_action list" where
  "exec_action io env (ACreate parentID args callID) w =
     (case handleCreate io (ce_random env) parentID args callID w of Inl r \<Rightarrow> (reply_with r w, []) | Inr acts \<Rightarrow> (w, acts))"
| "exec_action io env (ARegister parentID input allowed childID callID) w =
     (create_register (ce_now env) parentID input allowed childID callID w, [ASpawn (length (cw_heap w)) (FormatChildTask (cr_Task input))])"
| "exec_action io env (ASpawn a task) w =
     (let ag = cw_heap w ! a
      in case SpawnChild (ce_skills env) (aa_ChildAgentID ag) (aa_ParentAgentID ag) w of
           (Some e, w') \<Rightarrow>
             (reply_with (CreateError e) w', [AFinish (aa_ChildAgentID ag) StatusFailed [] (child_error_text e) False (status_text StatusCreating) None])
         | (None, w') \<Rightarrow> (w', [AActivate a, APersistAgent a, APublishCreated a, AEnqueue a task]))"
| "exec_action io env (AActivate a) w = (set_agent a (create_activate (ce_now env) (cw_heap w ! a)) w, [])"
| "exec_action io env (APersistAgent a) w = (w, [ASave (Snapshot (cw_heap w ! a))])"
| "exec_action io env (ASave s) w = (persistSnapshot (ce_now env) (ce_written env) s w, [])"
| "exec_action io env (APublishCreated a) w = (publish_event (EvCreated (aa_ParentAgentID (cw_heap w ! a)) (Snapshot (cw_heap w ! a))) w, [])"
| "exec_action io env (AEnqueue a task) w =
     (let childID = aa_ChildAgentID (cw_heap w ! a)
      in case EnqueueChildTask (ce_full env) childID w of
           Some e \<Rightarrow>
             (reply_with (CreateError e) w,
              [AFinish childID StatusFailed [] (''spawn enqueue failed: '' @ child_error_text e) False (status_text StatusActive) None])
         | None \<Rightarrow> (w, [AWait a]))"
| "exec_action io env (AWait a) w =
     (case waitUntilSettled (ce_wait env) a w of
        None \<Rightarrow> (w, [AWait a])
      | Some (Some r, acts) \<Rightarrow> (reply_with (CreateResult a r) w, acts)
      | Some (None, acts) \<Rightarrow> (w, acts))"
| "exec_action io env (AFinish childID status summary errText cancelledEvent previous reply) w =
     (case finishWithEvent (ce_now env) childID status summary errText cancelledEvent previous w of (r, w', acts) \<Rightarrow> (reply_opt reply r w', acts))"
| "exec_action io env (ARecord parentID s) w =
     (trimSettledLocked parentID (w\<lparr>cw_settled := AList.update (sp_ChildAgentID s) s (cw_settled w)\<rparr>), [])"
| "exec_action io env (APublishProgress parentID childID p) w = (publish_event (EvProgress parentID childID p) w, [])"
| "exec_action io env (APublishEnd parentID cancelledEvent res previous) w = (publish_event (publish_end parentID cancelledEvent res previous) w, [])"
| "exec_action io env (AStop childID) w = (StopChild childID w, [])"
| "exec_action io env (AUnregister childID) w = (unregisterActive childID w, [])"
| "exec_action io env (ASettled childID summary turnCount) w = OnChildSettled childID summary turnCount w"
| "exec_action io env (AFailed childID errText turnCount) w = OnChildFailed childID errText turnCount w"
| "exec_action io env (ACancel parentID childID reason reply) w =
     (case Cancel parentID childID reason reply w of
        (None, acts) \<Rightarrow> (w, acts)
      | (Some (Inl _), acts) \<Rightarrow> (reply_opt reply zero_result w, acts)
      | (Some (Inr r), acts) \<Rightarrow> (reply_opt reply r w, acts))"
| "exec_action io env (ACancelAll parentID reason) w = (w, CancelAllForParent parentID reason w)"
| "exec_action io env (ATimeToLive childID) w = (w, runTTLTimer childID w)"
| "exec_action io env (AObserve childID eventType data) w = ObserveChildEvent io (ce_now env) childID eventType data w"

section \<open>Other requests\<close>

text \<open>The tools of the parent. The cancellation looks up the state for its answer first and then cancels.\<close>

definition cancelInternal :: "string \<Rightarrow> string \<Rightarrow> string \<Rightarrow> child_world \<Rightarrow> (child_error + string) \<times> child_action list" where
  "cancelInternal parentID childID reason w =
     (case active_agent_of w childID of
        None \<Rightarrow> (Inl ErrNotOwned, [])
      | Some (a, ag) \<Rightarrow>
          if aa_ParentAgentID ag \<noteq> parentID then (Inl ErrNotOwned, [])
          else if isTerminal ag then (Inr (status_text (aa_Status ag)), [])
          else (Inr (status_text (aa_Status ag)), [ACancel parentID childID reason None]))"

definition HandleCancelTool :: "child_io \<Rightarrow> string \<Rightarrow> string \<Rightarrow> child_world \<Rightarrow> (child_error + string \<times> string) \<times> child_action list" where
  "HandleCancelTool io parentID argsJSON w =
     (case ci_unmarshal io argsJSON of
        None \<Rightarrow> (Inl ErrInvalidJSON, [])
      | Some raw \<Rightarrow>
          (let childID = trim_space (sprint_any (ci_sprint io) (any_get raw ''child_agent_id''));
               reason = trim_space (sprint_any (ci_sprint io) (any_get raw ''reason''))
           in if childID = [] \<or> childID = ''<nil>'' then (Inl ErrChildIDRequired, [])
              else (case cancelInternal parentID childID reason w of
                      (Inl e, acts) \<Rightarrow> (Inl e, acts)
                    | (Inr previous, acts) \<Rightarrow> (Inr (childID, previous), acts))))"

definition HandleParentTool :: "child_io \<Rightarrow> string \<Rightarrow> string \<Rightarrow> string \<Rightarrow> string list \<Rightarrow> child_world \<Rightarrow> child_error + child_action list" where
  "HandleParentTool io parentID toolName argsJSON toolCallIDs w =
     (if toolName = ''create_temporary_agent'' then Inr [ACreate parentID argsJSON (case toolCallIDs of [] \<Rightarrow> [] | i # _ \<Rightarrow> i)]
      else if toolName = ''cancel_temporary_agent'' then Inr (snd (HandleCancelTool io parentID argsJSON w))
      else Inl (ErrUnknownTool toolName))"

text \<open>
  An answer of the user goes to the child it names, when that is a child of this parent and waits for one. \<open>pending\<close> says which sessions wait, \<open>enq\<close> is the error of the
  session's queue; the result says whether the parent was the target, the error, and the session that got the answer.
\<close>

definition deliver_resume :: "(string \<Rightarrow> bool) \<Rightarrow> child_error option \<Rightarrow> string \<Rightarrow> child_world \<Rightarrow> child_error option \<times> string option" where
  "deliver_resume pending enq sessionID w =
     (if map_of (cw_sessions w) sessionID = None then (Some ErrChildNotFound, None)
      else if \<not> pending sessionID then (Some ErrNoPendingHitl, None)
      else (case enq of Some e \<Rightarrow> (Some e, None) | None \<Rightarrow> (None, Some sessionID)))"

definition ChildHasPendingHITL :: "(string \<Rightarrow> bool) \<Rightarrow> string \<Rightarrow> child_world \<Rightarrow> bool" where
  "ChildHasPendingHITL pending sessionID w \<longleftrightarrow> map_of (cw_sessions w) sessionID \<noteq> None \<and> pending sessionID"

definition RouteResume :: "(string \<Rightarrow> bool) \<Rightarrow> child_error option \<Rightarrow> string \<Rightarrow> event_data \<Rightarrow> child_world \<Rightarrow> bool \<times> child_error option \<times> string option" where
  "RouteResume pending enq parentID resume w =
     (let childID = (case map_of resume ''child_agent_id'' of Some (AnyString s) \<Rightarrow> trim_space s | _ \<Rightarrow> [])
      in if \<not> cw_hostBound w then (True, Some ErrNoHost, None)
         else if childID = [] then (True, deliver_resume pending enq parentID w)
         else (case active_agent_of w childID of
                 None \<Rightarrow> (False, Some ErrTargetMismatch, None)
               | Some (a, ag) \<Rightarrow>
                   if aa_ParentAgentID ag \<noteq> parentID then (False, Some ErrTargetMismatch, None)
                   else if \<not> ChildHasPendingHITL pending childID w then (False, Some ErrNoPendingHitl, None)
                   else (False, deliver_resume pending enq childID w)))"

text \<open>The list for the user interface: active children, recent ends, then rows of the table.\<close>

definition ListSnapshots :: "string \<Rightarrow> child_world \<Rightarrow> agent_snapshot list" where
  "ListSnapshots parentID w =
     (let active = List.map_filter (\<lambda>(i, a). if a < length (cw_heap w) \<and> aa_ParentAgentID (cw_heap w ! a) = parentID then Some (i, Snapshot (cw_heap w ! a)) else None)
                     (cw_activeByID w);
          ended = filter (\<lambda>(i, s). sp_ParentAgentID s = parentID \<and> i \<notin> set (map fst active)) (cw_settled w);
          seen = map fst (active @ ended);
          stored = (case cw_repo w of
                      None \<Rightarrow> []
                    | Some rows \<Rightarrow> List.map_filter (\<lambda>r. if rr_ChildAgentID r \<in> set seen then None else snapshotFromRecord r) (ListChildRuns parentID 256 rows))
      in sort_key (\<lambda>s. (pg_UpdatedAt (sp_Progress s), sp_CreatedAt s)) (map snd (active @ ended) @ stored))"

text \<open>The events of a child as the parent's stream gets them; the end of a child's Turn is not passed on.\<close>

definition relay_event :: "string \<Rightarrow> string \<Rightarrow> string \<Rightarrow> event_data \<Rightarrow> (string \<times> event_data) option" where
  "relay_event childID purpose eventType data0 =
     (if eventType = ''turn_finished'' then None
      else (let d1 = AList.update ''child_agent_id'' (AnyString childID) data0;
                d2 = (if eventType = ''hitl_required''
                      then AList.update ''child_purpose'' (AnyString purpose) (AList.update ''hitl_scope'' (AnyString ''temporary_agent'') d1)
                      else d1)
            in Some (eventType, d2)))"

section \<open>Interleavings\<close>

type_synonym child_system = "child_world \<times> child_action list list"

text \<open>A goroutine starts with one of the calls; then any goroutine does its next action.\<close>

definition is_call :: "child_action \<Rightarrow> bool" where
  "is_call act =
     (case act of ACreate _ _ _ \<Rightarrow> True | ASettled _ _ _ \<Rightarrow> True | AFailed _ _ _ \<Rightarrow> True | ACancel _ _ _ reply \<Rightarrow> reply = None | ACancelAll _ _ \<Rightarrow> True
        | ATimeToLive _ \<Rightarrow> True | AObserve _ _ _ \<Rightarrow> True | _ \<Rightarrow> False)"

datatype child_op = OpStart child_action | OpRun nat child_env

fun child_step :: "child_io \<Rightarrow> child_op \<Rightarrow> child_system \<Rightarrow> child_system" where
  "child_step io (OpStart act) (w, ts) = (if is_call act then (w, ts @ [[act]]) else (w, ts))"
| "child_step io (OpRun i env) (w, ts) =
     (if i < length ts
      then (case ts ! i of
              [] \<Rightarrow> (w, ts)
            | act # rest \<Rightarrow> (case exec_action io env act w of (w', acts) \<Rightarrow> (w', ts[i := acts @ rest])))
      else (w, ts))"

fun child_ops :: "child_io \<Rightarrow> child_op list \<Rightarrow> child_system \<Rightarrow> child_system" where
  "child_ops io [] s = s"
| "child_ops io (op # ops) s = child_ops io ops (child_step io op s)"

section \<open>A child keeps to its tools\<close>

lemma resolve_tools_ok: "resolve_tools names out = Inr out' \<Longrightarrow> set out' \<subseteq> set out \<union> (set ParentDelegatableTools \<inter> trim_space ` set names)"
  by (induction names out rule: resolve_tools.induct) (auto simp: Let_def split: if_splits)

text \<open>
  C33. A child cannot widen its rights: if the creation accepts a request, every call that the child's registry passes on to the tools of the node is a call of a tool that the parent may
  delegate and that was asked for, or one of the default tools when none was. Management tools, skills, triggers and questions to the user are never among them.
\<close>

theorem child_tools_confined:
  assumes "resolveAllowedTools requested = Inr allowed" "registry_check (NewRestrictedRegistry allowed) name = None"
  shows "name \<in> set ParentDelegatableTools \<and> name \<in> trim_space ` set (if requested = [] then DefaultChildAllowedTools else requested) \<and> \<not> IsParentOnlyTool name"
proof -
  have "set allowed \<subseteq> set ParentDelegatableTools \<inter> trim_space ` set (if requested = [] then DefaultChildAllowedTools else requested)"
    using assms(1) resolve_tools_ok[of "if requested = [] then DefaultChildAllowedTools else requested" "[]" allowed]
    by (auto simp: resolveAllowedTools_def split: sum.splits list.splits)
  moreover have "name \<in> trim_space ` set allowed" "\<not> IsParentOnlyTool name"
    using assms(2) by (auto simp: registry_check_def NewRestrictedRegistry_def split: if_splits)
  moreover have "trim_space n = n" if "n \<in> set ParentDelegatableTools" for n
    using that by (auto simp: ParentDelegatableTools_def intro!: trim_space_plain) (code_simp+)
  ultimately show ?thesis by force
qed

theorem child_tools_confined_witness:
  "''bash_run'' \<in> set ParentDelegatableTools \<and> ''bash_run'' \<in> trim_space ` set [''read_file'', '' bash_run''] \<and> \<not> IsParentOnlyTool ''bash_run''"
proof -
  have "resolveAllowedTools [''read_file'', '' bash_run''] = Inr [''read_file'', ''bash_run'']"
    "registry_check (NewRestrictedRegistry [''read_file'', ''bash_run'']) ''bash_run'' = None" by code_simp+
  then show ?thesis using child_tools_confined[of "[''read_file'', '' bash_run'']"] by simp
qed

end
