(* ===== verification/Child_Settle.thy ===== *)
theory Child_Settle
  imports Child_Agents
begin

text \<open>
  The end of a child agent, for any interleaving of the goroutines of \<^verbatim>\<open>childagent/manager.go\<close> (modelled in \<^verbatim>\<open>Child_Agents\<close>).

  The invariant (\<open>child_inv\<close>) counts, for each child, the announcements of its end that were made or are pending, and says who still has to release what. Order within a goroutine
  does not matter for it, so that it speaks of the multiset of pending actions.
\<close>

section \<open>Invariant\<close>

definition pend :: "child_action list list \<Rightarrow> child_action multiset" where
  "pend ts = mset (concat ts)"

lemma pend_run:
  assumes "i < length ts" "ts ! i = act # rest"
  shows "\<exists>N. pend ts = add_mset act N \<and> pend (ts[i := acts @ rest]) = mset acts + N"
proof -
  have "ts = take i ts @ (act # rest) # drop (Suc i) ts" using assms by (metis id_take_nth_drop)
  moreover have "ts[i := acts @ rest] = take i ts @ (acts @ rest) # drop (Suc i) ts" using assms(1) by (simp add: upd_conv_take_nth_drop)
  ultimately have "pend ts = add_mset act (mset rest + mset (concat (take i ts)) + mset (concat (drop (Suc i) ts)))"
    "pend (ts[i := acts @ rest]) = mset acts + (mset rest + mset (concat (take i ts)) + mset (concat (drop (Suc i) ts)))"
    unfolding pend_def by (metis add.assoc add.commute add_mset_add_single concat.simps(2) concat_append mset.simps(2) mset_append union_mset_add_mset_right, simp)
  then show ?thesis by blast
qed

lemma pend_start: "pend (ts @ [[act]]) = add_mset act (pend ts)"
  by (simp add: pend_def)

text \<open>Two states of an agent that agree on its identity and on its end.\<close>

definition calm :: "active_agent \<Rightarrow> active_agent \<Rightarrow> bool" where
  "calm ag ag' \<longleftrightarrow>
     aa_ChildAgentID ag' = aa_ChildAgentID ag \<and> aa_ParentAgentID ag' = aa_ParentAgentID ag \<and> aa_terminalResult ag' = aa_terminalResult ag \<and>
     aa_settled ag' = aa_settled ag \<and> isTerminal ag' = isTerminal ag"

lemma calm_refl [simp]: "calm ag ag"
  by (simp add: calm_def)

lemma calm_update: "a < length heap \<Longrightarrow> calm (heap ! a) ag \<Longrightarrow> list_all2 calm heap (heap[a := ag])"
  by (auto simp: list_all2_conv_all_nth nth_list_update)

lemma calm_heap [simp]: "list_all2 calm heap heap"
  by (simp add: list_all2_conv_all_nth)

text \<open>An end that was announced, and one that is about to be.\<close>

fun end_id :: "child_event \<Rightarrow> string option" where
  "end_id (EvCompleted parentID res) = Some (cs_ChildAgentID res)"
| "end_id (EvCancelled parentID childID reason previous) = Some childID"
| "end_id _ = None"

fun pending_end :: "child_action \<Rightarrow> child_event option" where
  "pending_end (APublishEnd parentID cancelledEvent res previous) = Some (publish_end parentID cancelledEvent res previous)"
| "pending_end _ = None"

definition ends :: "child_world \<Rightarrow> child_action multiset \<Rightarrow> child_event multiset" where
  "ends w M = filter_mset (\<lambda>e. end_id e \<noteq> None) (mset (cw_events w)) + image_mset (the \<circ> pending_end) (filter_mset (\<lambda>act. pending_end act \<noteq> None) M)"

text \<open>The addresses and ids that pending actions carry.\<close>

fun refs_ok :: "child_world \<Rightarrow> child_action \<Rightarrow> bool" where
  "refs_ok w (ARegister parentID input allowed childID callID) \<longleftrightarrow> trim_space childID = childID"
| "refs_ok w (ASpawn a task) \<longleftrightarrow> a < length (cw_heap w)"
| "refs_ok w (AActivate a) \<longleftrightarrow> a < length (cw_heap w)"
| "refs_ok w (APersistAgent a) \<longleftrightarrow> a < length (cw_heap w)"
| "refs_ok w (APublishCreated a) \<longleftrightarrow> a < length (cw_heap w)"
| "refs_ok w (AEnqueue a task) \<longleftrightarrow> a < length (cw_heap w)"
| "refs_ok w (AWait a) \<longleftrightarrow> a < length (cw_heap w)"
| "refs_ok w (AFinish childID status summary errText cancelledEvent previous reply) \<longleftrightarrow>
     status \<in> {StatusCompleted, StatusFailed, StatusCancelled, StatusExpired} \<and>
     (case reply of None \<Rightarrow> True | Some a \<Rightarrow> a < length (cw_heap w) \<and> aa_ChildAgentID (cw_heap w ! a) = childID)"
| "refs_ok w (ACancel parentID childID reason reply) \<longleftrightarrow>
     (case reply of None \<Rightarrow> True | Some a \<Rightarrow> a < length (cw_heap w) \<and> aa_ChildAgentID (cw_heap w ! a) = childID)"
| "refs_ok w _ \<longleftrightarrow> True"

definition heap_ok :: "child_world \<Rightarrow> bool" where
  "heap_ok w \<longleftrightarrow>
     cw_hostBound w \<and> distinct (map aa_ChildAgentID (cw_heap w)) \<and> (\<forall>ag \<in> set (cw_heap w). trim_space (aa_ChildAgentID ag) = aa_ChildAgentID ag) \<and>
     (\<forall>i a. map_of (cw_activeByID w) i = Some a \<longrightarrow> a < length (cw_heap w) \<and> aa_ChildAgentID (cw_heap w ! a) = i) \<and>
     (\<forall>ag \<in> set (cw_heap w). aa_settled ag = isTerminal ag \<and>
        (case aa_terminalResult ag of None \<Rightarrow> \<not> isTerminal ag | Some r \<Rightarrow> isTerminal ag \<and> cs_ChildAgentID r = aa_ChildAgentID ag))"

definition ends_ok :: "child_world \<Rightarrow> child_action multiset \<Rightarrow> bool" where
  "ends_ok w M \<longleftrightarrow>
     (\<forall>i. size (filter_mset (\<lambda>e. end_id e = Some i) (ends w M)) = (if \<exists>ag \<in> set (cw_heap w). aa_ChildAgentID ag = i \<and> isTerminal ag then 1 else 0)) \<and>
     (\<forall>e \<in># ends w M. \<exists>ag \<in> set (cw_heap w). \<exists>r c previous. aa_terminalResult ag = Some r \<and> e = publish_end (aa_ParentAgentID ag) c r previous)"

definition replies_ok :: "child_world \<Rightarrow> bool" where
  "replies_ok w \<longleftrightarrow>
     (\<forall>a r. CreateResult a r \<in> set (cw_replies w) \<longrightarrow> a < length (cw_heap w) \<and> (r = zero_result \<or> aa_terminalResult (cw_heap w ! a) = Some r))"

definition release_ok :: "child_world \<Rightarrow> child_action multiset \<Rightarrow> bool" where
  "release_ok w M \<longleftrightarrow>
     (\<forall>a < length (cw_heap w). isTerminal (cw_heap w ! a) \<longrightarrow>
        (map_of (cw_activeByID w) (aa_ChildAgentID (cw_heap w ! a)) \<noteq> None \<longrightarrow> AUnregister (aa_ChildAgentID (cw_heap w ! a)) \<in># M) \<and>
        (map_of (cw_sessions w) (aa_ChildAgentID (cw_heap w ! a)) \<noteq> None \<longrightarrow> AStop (aa_ChildAgentID (cw_heap w ! a)) \<in># M \<or> AActivate a \<in># M))"

definition child_inv :: "child_world \<Rightarrow> child_action multiset \<Rightarrow> bool" where
  "child_inv w M \<longleftrightarrow> heap_ok w \<and> ends_ok w M \<and> replies_ok w \<and> release_ok w M \<and> (\<forall>act \<in># M. refs_ok w act)"

text \<open>
  The two things that must not happen: a random id that was used before, and an activation of a child that has ended meanwhile.
\<close>

fun clean_action :: "child_action \<Rightarrow> child_world \<Rightarrow> bool" where
  "clean_action (ARegister parentID input allowed childID callID) w \<longleftrightarrow> childID \<notin> set (map aa_ChildAgentID (cw_heap w))"
| "clean_action (AActivate a) w \<longleftrightarrow> \<not> isTerminal (cw_heap w ! a)"
| "clean_action act w \<longleftrightarrow> True"

fun clean_run :: "child_io \<Rightarrow> child_op list \<Rightarrow> child_system \<Rightarrow> bool" where
  "clean_run io [] s \<longleftrightarrow> True"
| "clean_run io (op # ops) (w, ts) \<longleftrightarrow>
     (case op of OpStart _ \<Rightarrow> True | OpRun i env \<Rightarrow> i < length ts \<longrightarrow> (case ts ! i of [] \<Rightarrow> True | act # _ \<Rightarrow> clean_action act w)) \<and>
     clean_run io ops (child_step io op (w, ts))"

section \<open>Actions that leave the ends alone\<close>

lemma hex_digit_plain: "n < 16 \<Longrightarrow> plain_char (hex_digit n)"
  by (auto simp: hex_digit_def digit_char_def plain_char_def of_char_of)

lemma generated_id_trimmed: "trim_space (generateChildAgentID bytes) = generateChildAgentID bytes"
proof (rule trim_space_plain)
  have "plain_char (CHR ''c'')" "plain_char (CHR ''-'')" by (simp_all add: plain_char_def of_char_def)
  moreover have "plain_char (last (concat (map (\<lambda>b. [hex_digit (b div 16 mod 16), hex_digit (b mod 16)]) bytes)))" if "bytes \<noteq> []"
    using that hex_digit_plain by (cases bytes rule: rev_cases) simp_all
  ultimately show "generateChildAgentID bytes = [] \<or> plain_char (hd (generateChildAgentID bytes)) \<and> plain_char (last (generateChildAgentID bytes))"
    by (cases "bytes = []") (simp_all add: generateChildAgentID_def)
qed

lemma active_agent_ofD:
  assumes "active_agent_of w i = Some (a, ag)"
  shows "map_of (cw_activeByID w) i = Some a" "a < length (cw_heap w)" "cw_heap w ! a = ag"
  using assms by (auto simp: active_agent_of_def split: option.splits if_splits)

lemma set_agent_fields [simp]:
  "cw_heap (set_agent a ag w) = (cw_heap w)[a := ag]" "cw_activeByID (set_agent a ag w) = cw_activeByID w" "cw_sessions (set_agent a ag w) = cw_sessions w"
  "cw_events (set_agent a ag w) = cw_events w" "cw_replies (set_agent a ag w) = cw_replies w" "cw_hostBound (set_agent a ag w) = cw_hostBound w"
  "cw_activeIDsByParent (set_agent a ag w) = cw_activeIDsByParent w" "cw_cfg (set_agent a ag w) = cw_cfg w"
  by (simp_all add: set_agent_def)

text \<open>What an action does that neither registers nor ends a child.\<close>

definition plain_action :: "child_action \<Rightarrow> bool" where
  "plain_action act = (case act of ARegister _ _ _ _ _ \<Rightarrow> False | AFinish _ _ _ _ _ _ _ \<Rightarrow> False | _ \<Rightarrow> True)"

definition same_core :: "child_world \<Rightarrow> child_world \<Rightarrow> bool" where
  "same_core w w' \<longleftrightarrow>
     list_all2 calm (cw_heap w) (cw_heap w') \<and> cw_activeByID w' = cw_activeByID w \<and> cw_sessions w' = cw_sessions w \<and> cw_hostBound w' = cw_hostBound w \<and>
     filter (\<lambda>e. end_id e \<noteq> None) (cw_events w') = filter (\<lambda>e. end_id e \<noteq> None) (cw_events w)"

lemma same_core_refl [simp]: "same_core w w"
  by (simp add: same_core_def)

lemma same_core_agent:
  "active_agent_of w i = Some (a, ag) \<Longrightarrow> calm ag ag' \<Longrightarrow> same_core w (set_agent a ag' w)"
  using active_agent_ofD[of w i a ag] by (auto simp: same_core_def intro!: calm_update)

lemma same_core_fields [simp]:
  "same_core w (reply_with r w)" "same_core w (reply_opt p r' w)" "end_id e = None \<Longrightarrow> same_core w (publish_event e w)"
  "same_core w (w\<lparr>cw_settled := x\<rparr>)" "same_core w (trimSettledLocked q w)" "same_core w (persistSnapshot now written s w)"
  by (auto simp: same_core_def reply_with_def reply_opt_def publish_event_def trimSettledLocked_def Let_def persistSnapshot_def split: option.splits)

lemma calm_turns: "calm ag (ag\<lparr>aa_TurnCount := n\<rparr>)" "calm ag (ag\<lparr>aa_Progress := p\<rparr>)"
  by (simp_all add: calm_def isTerminal_def)

lemma calm_activate: "\<not> isTerminal ag \<Longrightarrow> calm ag (create_activate now ag)"
  by (simp add: calm_def create_activate_def isTerminal_def)

text \<open>The actions that change nothing the invariant speaks of but the list of pending actions.\<close>

definition inert :: "child_action \<Rightarrow> bool" where
  "inert act = (case act of AStop _ \<Rightarrow> False | AUnregister _ \<Rightarrow> False | ASpawn _ _ \<Rightarrow> False | APublishEnd _ _ _ _ \<Rightarrow> False | _ \<Rightarrow> plain_action act)"

lemma settled_same: "same_core w (fst (OnChildSettled i s n w))"
  by (auto simp: OnChildSettled_def intro!: same_core_agent calm_turns split: option.splits)

lemma failed_same: "same_core w (fst (OnChildFailed i s n w))"
  by (auto simp: OnChildFailed_def intro!: same_core_agent calm_turns split: option.splits)

lemma observe_same: "same_core w (fst (ObserveChildEvent io now i t d w))"
  by (auto simp: ObserveChildEvent_def intro!: same_core_agent calm_turns split: option.splits)

lemma same_core_trans: "same_core w w' \<Longrightarrow> same_core w' w'' \<Longrightarrow> same_core w w''"
  unfolding same_core_def using list_all2_trans[of calm calm calm] by (auto simp: calm_def)

lemma record_same: "same_core w (trimSettledLocked q (w\<lparr>cw_settled := x\<rparr>))"
  by (rule same_core_trans[of _ "w\<lparr>cw_settled := x\<rparr>"]) simp_all

lemma inert_same:
  assumes "inert act" "clean_action act w" "refs_ok w act"
  shows "same_core w (fst (exec_action io env act w))"
proof (cases act)
  case (AActivate a)
  then show ?thesis using assms by (auto simp: same_core_def intro!: calm_update calm_activate)
qed (use assms in \<open>auto simp: inert_def plain_action_def Let_def settled_same failed_same observe_same record_same split: sum.splits option.splits prod.splits\<close>)

lemma calm_bex: "list_all2 calm h h' \<Longrightarrow> (\<And>ag ag'. calm ag ag' \<Longrightarrow> P ag' = P ag) \<Longrightarrow> (\<exists>ag \<in> set h'. P ag) = (\<exists>ag \<in> set h. P ag)"
  by (induction rule: list_all2_induct) auto

lemma calm_ball: "list_all2 calm h h' \<Longrightarrow> (\<And>ag ag'. calm ag ag' \<Longrightarrow> P ag' = P ag) \<Longrightarrow> (\<forall>ag \<in> set h'. P ag) = (\<forall>ag \<in> set h. P ag)"
  by (induction rule: list_all2_induct) auto

lemma calm_ids: "list_all2 calm h h' \<Longrightarrow> map aa_ChildAgentID h' = map aa_ChildAgentID h"
  by (induction rule: list_all2_induct) (auto simp: calm_def)

lemma calm_nth: "list_all2 calm h h' \<Longrightarrow> a < length h \<Longrightarrow> calm (h ! a) (h' ! a)"
  by (simp add: list_all2_nthD)

lemma refs_ok_same:
  assumes "list_all2 calm (cw_heap w) (cw_heap w')"
  shows "refs_ok w' act = refs_ok w act"
proof -
  have len: "length (cw_heap w') = length (cw_heap w)" using assms by (simp add: list_all2_lengthD)
  have ids: "aa_ChildAgentID (cw_heap w' ! a) = aa_ChildAgentID (cw_heap w ! a)" if "a < length (cw_heap w)" for a
    using calm_nth[OF assms that] by (simp add: calm_def)
  show ?thesis by (cases act) (auto simp: len ids split: option.splits)
qed

lemma heap_ok_same:
  assumes "list_all2 calm (cw_heap w) (cw_heap w')" "heap_ok w" "cw_hostBound w'" "\<And>i a. map_of (cw_activeByID w') i = Some a \<Longrightarrow> map_of (cw_activeByID w) i = Some a"
  shows "heap_ok w'"
proof -
  have len: "length (cw_heap w') = length (cw_heap w)" using assms(1) by (simp add: list_all2_lengthD)
  have ids: "aa_ChildAgentID (cw_heap w' ! a) = aa_ChildAgentID (cw_heap w ! a)" if "a < length (cw_heap w)" for a
    using calm_nth[OF assms(1) that] by (simp add: calm_def)
  let ?P = "\<lambda>ag. aa_settled ag = isTerminal ag \<and> (case aa_terminalResult ag of None \<Rightarrow> \<not> isTerminal ag | Some r \<Rightarrow> isTerminal ag \<and> cs_ChildAgentID r = aa_ChildAgentID ag)"
  have "(\<forall>ag \<in> set (cw_heap w'). ?P ag) = (\<forall>ag \<in> set (cw_heap w). ?P ag)"
    "(\<forall>ag \<in> set (cw_heap w'). trim_space (aa_ChildAgentID ag) = aa_ChildAgentID ag) = (\<forall>ag \<in> set (cw_heap w). trim_space (aa_ChildAgentID ag) = aa_ChildAgentID ag)"
    by (rule calm_ball[OF assms(1)]; simp add: calm_def split: option.split)+
  moreover have "\<forall>i a. map_of (cw_activeByID w') i = Some a \<longrightarrow> a < length (cw_heap w') \<and> aa_ChildAgentID (cw_heap w' ! a) = i"
    using assms(2) len ids assms(4) unfolding heap_ok_def by metis
  ultimately show ?thesis using assms(2,3) by (simp add: heap_ok_def calm_ids[OF assms(1)])
qed

lemma ends_ok_same:
  assumes "list_all2 calm (cw_heap w) (cw_heap w')" "ends w' M' = ends w M"
  shows "ends_ok w' M' = ends_ok w M"
proof -
  have "(\<exists>ag \<in> set (cw_heap w'). aa_ChildAgentID ag = i \<and> isTerminal ag) = (\<exists>ag \<in> set (cw_heap w). aa_ChildAgentID ag = i \<and> isTerminal ag)"
    "(\<exists>ag \<in> set (cw_heap w'). \<exists>r c previous. aa_terminalResult ag = Some r \<and> e = publish_end (aa_ParentAgentID ag) c r previous) =
     (\<exists>ag \<in> set (cw_heap w). \<exists>r c previous. aa_terminalResult ag = Some r \<and> e = publish_end (aa_ParentAgentID ag) c r previous)" for i e
    by (rule calm_bex[OF assms(1)]; simp add: calm_def)+
  then show ?thesis by (simp add: ends_ok_def assms(2))
qed

lemma release_ok_same:
  assumes "list_all2 calm (cw_heap w) (cw_heap w')" "release_ok w M"
    and "\<And>i. map_of (cw_activeByID w') i \<noteq> None \<Longrightarrow> map_of (cw_activeByID w) i \<noteq> None \<and> (AUnregister i \<in># M \<longrightarrow> AUnregister i \<in># M')"
    and "\<And>a. a < length (cw_heap w) \<Longrightarrow> isTerminal (cw_heap w ! a) \<Longrightarrow> map_of (cw_sessions w') (aa_ChildAgentID (cw_heap w ! a)) \<noteq> None \<Longrightarrow>
           (map_of (cw_sessions w) (aa_ChildAgentID (cw_heap w ! a)) \<noteq> None \<longrightarrow> AStop (aa_ChildAgentID (cw_heap w ! a)) \<in># M \<or> AActivate a \<in># M) \<Longrightarrow>
           AStop (aa_ChildAgentID (cw_heap w ! a)) \<in># M' \<or> AActivate a \<in># M'"
  shows "release_ok w' M'"
  unfolding release_ok_def
proof (intro allI impI conjI)
  fix a assume a: "a < length (cw_heap w')" and t: "isTerminal (cw_heap w' ! a)"
  have a': "a < length (cw_heap w)" using a assms(1) by (simp add: list_all2_lengthD)
  then have eq: "isTerminal (cw_heap w ! a)" "aa_ChildAgentID (cw_heap w' ! a) = aa_ChildAgentID (cw_heap w ! a)"
    using calm_nth[OF assms(1)] t by (auto simp: calm_def)
  note r = assms(2)[unfolded release_ok_def, rule_format, OF a' eq(1)]
  show "AUnregister (aa_ChildAgentID (cw_heap w' ! a)) \<in># M'" if "map_of (cw_activeByID w') (aa_ChildAgentID (cw_heap w' ! a)) \<noteq> None"
    using that r assms(3) by (metis eq(2))
  show "AStop (aa_ChildAgentID (cw_heap w' ! a)) \<in># M' \<or> AActivate a \<in># M'" if "map_of (cw_sessions w') (aa_ChildAgentID (cw_heap w' ! a)) \<noteq> None"
    using assms(4)[OF a' eq(1)] that r by (metis eq(2))
qed

lemma ends_same:
  assumes "filter (\<lambda>e. end_id e \<noteq> None) (cw_events w') = filter (\<lambda>e. end_id e \<noteq> None) (cw_events w)" "pending_end act = None" "list_all (\<lambda>x. pending_end x = None) acts"
  shows "ends w' (mset acts + N) = ends w (add_mset act N)"
proof -
  have "filter_mset (\<lambda>act. pending_end act \<noteq> None) (mset acts) = {#}" using assms(3) by (induction acts) auto
  then show ?thesis using assms(1,2) by (simp add: ends_def flip: mset_filter)
qed

section \<open>The invariant is kept\<close>

lemma handleCreate_cases:
  assumes "handleCreate io random parentID args callID w = Inr acts"
  shows "\<exists>p input allowed bytes c. acts = [ARegister p input allowed (generateChildAgentID bytes) c]"
  using assms by (auto simp: handleCreate_def Let_def split: if_splits sum.splits option.splits)

lemma handleCreate_reply: "handleCreate io random parentID args callID w = Inl r \<Longrightarrow> r \<noteq> CreateResult a res"
  by (auto simp: handleCreate_def Let_def split: if_splits sum.splits option.splits)

text \<open>The new actions of an inert action.\<close>

definition harmless :: "child_world \<Rightarrow> child_action \<Rightarrow> bool" where
  "harmless w act \<longleftrightarrow> refs_ok w act \<and> pending_end act = None \<and> (\<forall>i. act \<noteq> AUnregister i)"

lemma cancel_harmless:
  assumes "heap_ok w" "refs_ok w (ACancel parentID childID reason reply)" "Cancel parentID childID reason reply w = (x, acts)"
  shows "list_all (harmless w) acts"
proof -
  have "trim_space childID = childID" if "reply = Some a" for a
    using that assms(1,2) by (auto simp: heap_ok_def)
  then show ?thesis using assms(2,3) by (auto simp: Cancel_def Let_def harmless_def split: option.splits if_splits)
qed

lemma inert_harmless:
  assumes "inert act" "heap_ok w" "refs_ok w act" "exec_action io env act w = (w', acts)"
  shows "list_all (harmless w) acts"
proof (cases act)
  case (ACreate p args c)
  then show ?thesis using assms by (auto simp: harmless_def generated_id_trimmed dest!: handleCreate_cases split: sum.splits)
next
  case (ACancel p i r reply)
  then show ?thesis using assms cancel_harmless[of w p i r reply] by (auto split: prod.splits option.splits sum.splits)
next
  case (AWait a)
  then show ?thesis using assms by (auto simp: harmless_def waitUntilSettled_def Let_def split: wait_case.splits if_splits)
next
  case (AEnqueue a t)
  then show ?thesis using assms by (auto simp: harmless_def Let_def split: option.splits)
next
  case (ACancelAll p r)
  then show ?thesis using assms by (auto simp: harmless_def CancelAllForParent_def Let_def list_all_iff)
next
  case (ASettled i s n)
  then show ?thesis using assms by (auto simp: harmless_def OnChildSettled_def split: option.splits if_splits)
next
  case (AFailed i s n)
  then show ?thesis using assms by (auto simp: harmless_def OnChildFailed_def split: option.splits if_splits)
next
  case (AObserve i t d)
  then show ?thesis using assms active_agent_ofD(2)[of w i] by (auto simp: harmless_def ObserveChildEvent_def split: option.splits if_splits)
next
  case (ATimeToLive i)
  then show ?thesis using assms by (auto simp: harmless_def runTTLTimer_def split: option.splits if_splits)
qed (use assms in \<open>auto simp: harmless_def inert_def plain_action_def\<close>)

text \<open>What a waiting creation call is told.\<close>

lemma ended_result:
  assumes "heap_ok w" "a < length (cw_heap w)" "isTerminal (cw_heap w ! a)"
  shows "aa_terminalResult (cw_heap w ! a) = Some (resultSnapshot (cw_heap w ! a))"
proof -
  have "cw_heap w ! a \<in> set (cw_heap w)" using assms(2) by simp
  then show ?thesis using assms(1,3) by (fastforce simp: heap_ok_def resultSnapshot_def split: option.splits)
qed

lemma has_result_ended:
  assumes "heap_ok w" "a < length (cw_heap w)" "aa_terminalResult (cw_heap w ! a) = Some r"
  shows "isTerminal (cw_heap w ! a)" "cs_ChildAgentID r = aa_ChildAgentID (cw_heap w ! a)"
proof -
  have "case aa_terminalResult (cw_heap w ! a) of None \<Rightarrow> \<not> isTerminal (cw_heap w ! a) | Some r \<Rightarrow> isTerminal (cw_heap w ! a) \<and> cs_ChildAgentID r = aa_ChildAgentID (cw_heap w ! a)"
    using assms(1) nth_mem[OF assms(2)] unfolding heap_ok_def by blast
  then show "isTerminal (cw_heap w ! a)" "cs_ChildAgentID r = aa_ChildAgentID (cw_heap w ! a)" using assms(3) by simp_all
qed

lemma same_id:
  assumes "heap_ok w" "a < length (cw_heap w)" "active_agent_of w (aa_ChildAgentID (cw_heap w ! a)) = Some (b, ag)"
  shows "b = a" "ag = cw_heap w ! a"
proof -
  have "b < length (cw_heap w)" "aa_ChildAgentID (cw_heap w ! b) = aa_ChildAgentID (cw_heap w ! a)" "cw_heap w ! b = ag"
    using assms(1) active_agent_ofD[OF assms(3)] by (auto simp: heap_ok_def)
  then show "b = a" "ag = cw_heap w ! a" using assms(1,2) by (auto simp: heap_ok_def distinct_conv_nth)
qed

lemma replies_add:
  "replies_ok w \<Longrightarrow> a < length (cw_heap w) \<Longrightarrow> r = zero_result \<or> aa_terminalResult (cw_heap w ! a) = Some r \<Longrightarrow> replies_ok (reply_with (CreateResult a r) w)"
  by (auto simp: replies_ok_def reply_with_def)

lemma replies_same: "list_all2 calm (cw_heap w) (cw_heap w') \<Longrightarrow> cw_replies w' = cw_replies w \<Longrightarrow> replies_ok w \<Longrightarrow> replies_ok w'"
  unfolding replies_ok_def using calm_nth by (fastforce simp: calm_def list_all2_lengthD)

lemma replies_error: "replies_ok w \<Longrightarrow> (\<And>a r. rep \<noteq> CreateResult a r) \<Longrightarrow> replies_ok (reply_with rep w)"
  by (auto simp: replies_ok_def reply_with_def)

lemma cancel_replies:
  assumes "heap_ok w" "replies_ok w" "refs_ok w (ACancel p i r (Some a))" "Cancel p i r (Some a) w = (Some x, acts)"
  shows "replies_ok (reply_with (CreateResult a (case x of Inl _ \<Rightarrow> zero_result | Inr res \<Rightarrow> res)) w)"
proof (cases x)
  case (Inl e)
  then show ?thesis using replies_add[of w a zero_result] assms(2,3) by simp
next
  case (Inr res)
  have a: "a < length (cw_heap w)" "aa_ChildAgentID (cw_heap w ! a) = i" using assms(3) by simp_all
  then have "trim_space i = i" using assms(1) by (auto simp: heap_ok_def)
  then obtain b ag where ag: "active_agent_of w i = Some (b, ag)" "isTerminal ag" "res = resultSnapshot ag"
    using assms(4) Inr by (auto simp: Cancel_def Let_def split: option.splits if_splits)
  then have "ag = cw_heap w ! a" using same_id[OF assms(1) a(1)] a(2) by simp
  then have "aa_terminalResult (cw_heap w ! a) = Some res" using ended_result[OF assms(1) a(1)] ag by simp
  then show ?thesis using replies_add[OF assms(2) a(1)] Inr by simp
qed

lemma wait_replies:
  assumes "heap_ok w" "replies_ok w" "a < length (cw_heap w)" "waitUntilSettled choice a w = Some (Some r, acts)"
  shows "replies_ok (reply_with (CreateResult a r) w)"
proof -
  have s: "aa_settled (cw_heap w ! a)" "r = resultSnapshot (cw_heap w ! a)"
    using assms(4) by (auto simp: waitUntilSettled_def Let_def split: wait_case.splits if_splits)
  have "aa_settled (cw_heap w ! a) = isTerminal (cw_heap w ! a)" using assms(1,3) by (simp add: heap_ok_def)
  then show ?thesis using s ended_result[OF assms(1,3)] replies_add[OF assms(2,3)] by simp
qed

text \<open>Only some actions answer a creation call.\<close>

definition talks :: "child_action \<Rightarrow> bool" where
  "talks act =
     (case act of ACreate _ _ _ \<Rightarrow> True | ASpawn _ _ \<Rightarrow> True | AEnqueue _ _ \<Rightarrow> True | AWait _ \<Rightarrow> True | ACancel _ _ _ _ \<Rightarrow> True | AFinish _ _ _ _ _ _ _ \<Rightarrow> True | _ \<Rightarrow> False)"

lemma silent_replies: "\<not> talks act \<Longrightarrow> exec_action io env act w = (w', acts) \<Longrightarrow> cw_replies w' = cw_replies w"
  by (cases act) (auto simp: talks_def create_register_def OnChildSettled_def OnChildFailed_def ObserveChildEvent_def publish_event_def StopChild_def unregisterActive_def
      persistSnapshot_def trimSettledLocked_def Let_def split: option.splits if_splits)

lemma inert_replies:
  assumes "inert act" "clean_action act w" "heap_ok w" "replies_ok w" "refs_ok w act" "exec_action io env act w = (w', acts)"
  shows "replies_ok w'"
proof -
  have same: "list_all2 calm (cw_heap w) (cw_heap w')" using inert_same[OF assms(1,2,5), of io env] assms(6) by (simp add: same_core_def)
  show ?thesis
  proof (cases act)
    case (ACreate p args c)
    then show ?thesis using assms(4,6) handleCreate_reply[of io "ce_random env" p args c w]
      by (auto intro!: replies_error split: sum.splits)
  next
    case (AEnqueue a t)
    then show ?thesis using assms(4,6) by (auto simp: Let_def intro!: replies_error split: option.splits)
  next
    case (AWait a)
    then show ?thesis using assms(3-6) wait_replies[of w a "ce_wait env"] by (auto split: option.splits prod.splits)
  next
    case (ACancel p i r reply)
    obtain x acts' where c: "Cancel p i r reply w = (x, acts')" by (cases "Cancel p i r reply w")
    show ?thesis
    proof (cases reply)
      case None
      then show ?thesis using ACancel c assms(4,6) by (auto simp: reply_opt_def split: option.splits sum.splits)
    next
      case (Some a)
      then show ?thesis using ACancel c assms(3-6) cancel_replies[of w p i r a] by (cases x) (auto simp: reply_opt_def split: sum.splits)
    qed
  qed (use assms(1,4) silent_replies[OF _ assms(6)] in \<open>auto intro!: replies_same[OF same] simp: inert_def plain_action_def talks_def\<close>)
qed

lemma inert_inv:
  assumes "inert act" "clean_action act w" "child_inv w (add_mset act N)" "exec_action io env act w = (w', acts)"
  shows "child_inv w' (mset acts + N)"
proof -
  have inv: "heap_ok w" "ends_ok w (add_mset act N)" "replies_ok w" "release_ok w (add_mset act N)" "refs_ok w act" "\<forall>x \<in># N. refs_ok w x"
    using assms(3) by (auto simp: child_inv_def)
  have same: "same_core w w'" using inert_same[OF assms(1,2) inv(5), of io env] assms(4) by simp
  then have calm: "list_all2 calm (cw_heap w) (cw_heap w')" by (simp add: same_core_def)
  have new: "list_all (harmless w) acts" by (rule inert_harmless[OF assms(1) inv(1,5) assms(4)])
  have kind: "act \<noteq> AStop i" "act \<noteq> AUnregister i" "pending_end act = None" for i using assms(1) by (cases act; simp add: inert_def)+
  have "heap_ok w'" using same inv(1) by (intro heap_ok_same[OF calm inv(1)]) (auto simp: same_core_def heap_ok_def)
  moreover have "ends w' (mset acts + N) = ends w (add_mset act N)"
    using same new kind(3) by (intro ends_same) (auto simp: same_core_def harmless_def list_all_iff)
  then have "ends_ok w' (mset acts + N)" using ends_ok_same[OF calm] inv(2) by blast
  moreover have "replies_ok w'" by (rule inert_replies[OF assms(1,2) inv(1,3,5) assms(4)])
  moreover have "release_ok w' (mset acts + N)"
  proof (rule release_ok_same[OF calm inv(4)])
    show "AStop (aa_ChildAgentID (cw_heap w ! a)) \<in># mset acts + N \<or> AActivate a \<in># mset acts + N"
      if "isTerminal (cw_heap w ! a)" "map_of (cw_sessions w') (aa_ChildAgentID (cw_heap w ! a)) \<noteq> None"
        "map_of (cw_sessions w) (aa_ChildAgentID (cw_heap w ! a)) \<noteq> None \<longrightarrow>
         AStop (aa_ChildAgentID (cw_heap w ! a)) \<in># add_mset act N \<or> AActivate a \<in># add_mset act N" for a
    proof -
      have "act \<noteq> AActivate a" using that(1) assms(2) by auto
      then show ?thesis using that same kind(1)[of "aa_ChildAgentID (cw_heap w ! a)"] by (auto simp: same_core_def)
    qed
  qed (use same kind(2) in \<open>auto simp: same_core_def\<close>)
  moreover have "\<forall>x \<in># mset acts + N. refs_ok w' x" using new inv(6) by (auto simp: refs_ok_same[OF calm] harmless_def list_all_iff)
  ultimately show ?thesis by (simp add: child_inv_def)
qed

lemma child_invD:
  assumes "child_inv w (add_mset act N)"
  shows "heap_ok w" "ends_ok w (add_mset act N)" "replies_ok w" "release_ok w (add_mset act N)" "refs_ok w act" "\<forall>x \<in># N. refs_ok w x"
  using assms by (auto simp: child_inv_def)

lemma id_address:
  assumes "heap_ok w" "a < length (cw_heap w)" "b < length (cw_heap w)" "aa_ChildAgentID (cw_heap w ! a) = aa_ChildAgentID (cw_heap w ! b)"
  shows "a = b"
  using assms by (auto simp: heap_ok_def distinct_conv_nth)

lemma spawn_inv:
  assumes "child_inv w (add_mset (ASpawn a task) N)" "exec_action io env (ASpawn a task) w = (w', acts)"
  shows "child_inv w' (mset acts + N)"
proof -
  note inv = child_invD[OF assms(1)]
  have a: "a < length (cw_heap w)" using inv(5) by simp
  have w': "cw_heap w' = cw_heap w" "cw_activeByID w' = cw_activeByID w" "cw_hostBound w' = cw_hostBound w" "cw_events w' = cw_events w"
    and acts: "list_all (harmless w) acts"
    and reps: "CreateResult b r \<in> set (cw_replies w') \<Longrightarrow> CreateResult b r \<in> set (cw_replies w)"
    and sess: "map_of (cw_sessions w') i \<noteq> None \<Longrightarrow> map_of (cw_sessions w) i \<noteq> None \<or> i = aa_ChildAgentID (cw_heap w ! a) \<and> AActivate a \<in> set acts" for i b r
    using assms(2) a by (auto simp: SpawnChild_def Let_def reply_with_def harmless_def update_conv' split: if_splits option.splits)
  have rep: "replies_ok w'" using inv(3) reps unfolding replies_ok_def w' by blast
  have calm: "list_all2 calm (cw_heap w) (cw_heap w')" by (simp add: w')
  have "ends w' (mset acts + N) = ends w (add_mset (ASpawn a task) N)" using acts by (intro ends_same) (auto simp: w' harmless_def list_all_iff)
  then have "ends_ok w' (mset acts + N)" using ends_ok_same[OF calm] inv(2) by blast
  moreover have "heap_ok w'" using inv(1) by (intro heap_ok_same[OF calm]) (auto simp: w' heap_ok_def)
  moreover have "release_ok w' (mset acts + N)"
  proof (rule release_ok_same[OF calm inv(4)])
    show "AStop (aa_ChildAgentID (cw_heap w ! b)) \<in># mset acts + N \<or> AActivate b \<in># mset acts + N"
      if "b < length (cw_heap w)" "map_of (cw_sessions w') (aa_ChildAgentID (cw_heap w ! b)) \<noteq> None"
        "map_of (cw_sessions w) (aa_ChildAgentID (cw_heap w ! b)) \<noteq> None \<longrightarrow>
         AStop (aa_ChildAgentID (cw_heap w ! b)) \<in># add_mset (ASpawn a task) N \<or> AActivate b \<in># add_mset (ASpawn a task) N" for b
      using that sess[OF that(2)] id_address[OF inv(1) that(1) a] by auto
  qed (auto simp: w')
  moreover have "\<forall>x \<in># mset acts + N. refs_ok w' x" using acts inv(6) by (auto simp: refs_ok_same[OF calm] harmless_def list_all_iff)
  ultimately show ?thesis using rep by (simp add: child_inv_def)
qed

lemma stop_inv:
  assumes "child_inv w (add_mset (AStop i) N)"
  shows "child_inv (StopChild i w) N"
proof -
  note inv = child_invD[OF assms]
  let ?w = "StopChild i w"
  have w': "cw_heap ?w = cw_heap w" "cw_activeByID ?w = cw_activeByID w" "cw_hostBound ?w = cw_hostBound w" "cw_events ?w = cw_events w" "cw_replies ?w = cw_replies w"
    "map_of (cw_sessions ?w) j = (if j = i then None else map_of (cw_sessions w) j)" for j by (simp_all add: StopChild_def delete_conv')
  have calm: "list_all2 calm (cw_heap w) (cw_heap ?w)" by (simp add: w')
  have "ends ?w (mset [] + N) = ends w (add_mset (AStop i) N)" by (intro ends_same) (auto simp: w')
  then have "ends_ok ?w N" using ends_ok_same[OF calm] inv(2) by simp
  moreover have "heap_ok ?w" using inv(1) by (intro heap_ok_same[OF calm]) (auto simp: w' heap_ok_def)
  moreover have "replies_ok ?w" using inv(3) by (simp add: replies_ok_def w')
  moreover have "release_ok ?w N" by (rule release_ok_same[OF calm inv(4)]) (auto simp: w' split: if_splits)
  moreover have "\<forall>x \<in># N. refs_ok ?w x" using inv(6) by (simp add: refs_ok_same[OF calm])
  ultimately show ?thesis by (simp add: child_inv_def)
qed

lemma unregister_fields:
  assumes "heap_ok w"
  shows "cw_heap (unregisterActive i w) = cw_heap w" "cw_hostBound (unregisterActive i w) = cw_hostBound w" "cw_events (unregisterActive i w) = cw_events w"
    "cw_replies (unregisterActive i w) = cw_replies w" "cw_sessions (unregisterActive i w) = cw_sessions w"
    "map_of (cw_activeByID (unregisterActive i w)) j = (if j = i then None else map_of (cw_activeByID w) j)"
  using assms by (auto simp: unregisterActive_def Let_def delete_conv' active_agent_of_def heap_ok_def split: option.splits)

lemma unregister_inv:
  assumes "child_inv w (add_mset (AUnregister i) N)"
  shows "child_inv (unregisterActive i w) N"
proof -
  note inv = child_invD[OF assms]
  let ?w = "unregisterActive i w"
  note w' = unregister_fields[OF inv(1)]
  have calm: "list_all2 calm (cw_heap w) (cw_heap ?w)" by (simp add: w')
  have "ends ?w (mset [] + N) = ends w (add_mset (AUnregister i) N)" by (intro ends_same) (auto simp: w')
  then have "ends_ok ?w N" using ends_ok_same[OF calm] inv(2) by simp
  moreover have "heap_ok ?w" using inv(1) by (intro heap_ok_same[OF calm]) (auto simp: w' heap_ok_def split: if_splits)
  moreover have "replies_ok ?w" using inv(3) by (simp add: replies_ok_def w')
  moreover have "release_ok ?w N" by (rule release_ok_same[OF calm inv(4)]) (auto simp: w' split: if_splits)
  moreover have "\<forall>x \<in># N. refs_ok ?w x" using inv(6) by (simp add: refs_ok_same[OF calm])
  ultimately show ?thesis by (simp add: child_inv_def)
qed

lemma publish_end_id: "end_id (publish_end p c r prev) = Some (cs_ChildAgentID r)"
  by (simp add: publish_end_def)

lemma publish_inv:
  assumes "child_inv w (add_mset (APublishEnd p c r prev) N)"
  shows "child_inv (publish_event (publish_end p c r prev) w) N"
proof -
  note inv = child_invD[OF assms]
  let ?w = "publish_event (publish_end p c r prev) w"
  have w': "cw_heap ?w = cw_heap w" "cw_activeByID ?w = cw_activeByID w" "cw_hostBound ?w = cw_hostBound w" "cw_sessions ?w = cw_sessions w" "cw_replies ?w = cw_replies w"
    by (simp_all add: publish_event_def)
  have calm: "list_all2 calm (cw_heap w) (cw_heap ?w)" by (simp add: w')
  have "ends ?w N = ends w (add_mset (APublishEnd p c r prev) N)" by (simp add: ends_def publish_event_def publish_end_id)
  then have "ends_ok ?w N" using ends_ok_same[OF calm] inv(2) by simp
  moreover have "heap_ok ?w" using inv(1) by (intro heap_ok_same[OF calm]) (auto simp: w' heap_ok_def)
  moreover have "replies_ok ?w" using inv(3) by (simp add: replies_ok_def w')
  moreover have "release_ok ?w N" by (rule release_ok_same[OF calm inv(4)]) (auto simp: w')
  moreover have "\<forall>x \<in># N. refs_ok ?w x" using inv(6) by (simp add: refs_ok_same[OF calm])
  ultimately show ?thesis by (simp add: child_inv_def)
qed

lemma new_agent_fields:
  "aa_ChildAgentID ((newActiveAgent now p input i e)\<lparr>aa_AllowedTools := x, aa_ToolCallID := c\<rparr>) = i"
  "aa_ParentAgentID ((newActiveAgent now p input i e)\<lparr>aa_AllowedTools := x, aa_ToolCallID := c\<rparr>) = p"
  "\<not> isTerminal ((newActiveAgent now p input i e)\<lparr>aa_AllowedTools := x, aa_ToolCallID := c\<rparr>)"
  "aa_terminalResult ((newActiveAgent now p input i e)\<lparr>aa_AllowedTools := x, aa_ToolCallID := c\<rparr>) = None"
  "\<not> aa_settled ((newActiveAgent now p input i e)\<lparr>aa_AllowedTools := x, aa_ToolCallID := c\<rparr>)"
  by (simp_all add: newActiveAgent_def isTerminal_def)

lemma register_fields:
  obtains ag where "cw_heap (create_register now p input allowed i c w) = cw_heap w @ [ag]" "aa_ChildAgentID ag = i" "aa_ParentAgentID ag = p" "\<not> isTerminal ag"
    "aa_terminalResult ag = None" "\<not> aa_settled ag"
  using new_agent_fields unfolding create_register_def Let_def by (metis (no_types, lifting) child_world.select_convs(3) child_world.surjective child_world.update_convs(3,4,5))

lemma register_inv:
  assumes "child_inv w (add_mset (ARegister p input allowed i c) N)" "i \<notin> set (map aa_ChildAgentID (cw_heap w))"
  shows "child_inv (create_register now p input allowed i c w) (add_mset (ASpawn (length (cw_heap w)) task) N)"
proof -
  note inv = child_invD[OF assms(1)]
  let ?w = "create_register now p input allowed i c w"
  obtain ag where heap: "cw_heap ?w = cw_heap w @ [ag]" and ag: "aa_ChildAgentID ag = i" "\<not> isTerminal ag" "aa_terminalResult ag = None" "\<not> aa_settled ag"
    by (rule register_fields[of now p input allowed i c w]) blast
  have w': "cw_hostBound ?w = cw_hostBound w" "cw_events ?w = cw_events w" "cw_sessions ?w = cw_sessions w" "cw_replies ?w = cw_replies w"
    "map_of (cw_activeByID ?w) j = (if j = i then Some (length (cw_heap w)) else map_of (cw_activeByID w) j)" for j
    by (simp_all add: create_register_def Let_def update_conv')
  have fresh: "a < length (cw_heap w) \<Longrightarrow> aa_ChildAgentID (cw_heap w ! a) \<noteq> i" for a using assms(2) by auto
  have "heap_ok ?w" using inv(1,5) assms(2) ag by (auto simp: heap_ok_def heap w' nth_append split: if_splits) (metis less_SucI)
  moreover have "ends ?w (add_mset (ASpawn (length (cw_heap w)) task) N) = ends w (add_mset (ARegister p input allowed i c) N)" by (simp add: ends_def w')
  then have "ends_ok ?w (add_mset (ASpawn (length (cw_heap w)) task) N)" using inv(2) ag by (auto simp: ends_ok_def heap)
  moreover have "replies_ok ?w" using inv(3) by (auto simp: replies_ok_def heap w' nth_append) (metis less_SucI)
  moreover have "release_ok ?w (add_mset (ASpawn (length (cw_heap w)) task) N)"
    using inv(4) ag(2) fresh by (auto simp: release_ok_def heap w' nth_append less_Suc_eq)
  moreover have "refs_ok ?w x" if "refs_ok w x" for x using that by (cases x) (auto simp: heap nth_append split: option.splits)
  then have "\<forall>x \<in># add_mset (ASpawn (length (cw_heap w)) task) N. refs_ok ?w x" using inv(6) by (auto simp: heap)
  ultimately show ?thesis by (simp add: child_inv_def)
qed

text \<open>The state of a child after its end.\<close>

lemma settle_agent_fields:
  assumes "status \<in> {StatusCompleted, StatusFailed, StatusCancelled, StatusExpired}"
  shows "isTerminal (settle_agent now status summary err ag)" "aa_settled (settle_agent now status summary err ag)"
    "aa_ChildAgentID (settle_agent now status summary err ag) = aa_ChildAgentID ag" "aa_ParentAgentID (settle_agent now status summary err ag) = aa_ParentAgentID ag"
    "aa_terminalResult (settle_agent now status summary err ag) = Some (resultSnapshot (settle_agent now status summary err ag))"
    "cs_ChildAgentID (resultSnapshot (settle_agent now status summary err ag)) = aa_ChildAgentID ag"
  using assms by (auto simp: settle_agent_def isTerminal_def resultSnapshot_def)

lemma heap_ok_settle:
  assumes "heap_ok w" "a < length (cw_heap w)" "isTerminal ag'" "aa_settled ag'" "aa_ChildAgentID ag' = aa_ChildAgentID (cw_heap w ! a)"
    "aa_terminalResult ag' = Some r" "cs_ChildAgentID r = aa_ChildAgentID (cw_heap w ! a)"
  shows "heap_ok (set_agent a ag' w)"
proof -
  have ids: "map aa_ChildAgentID ((cw_heap w)[a := ag']) = map aa_ChildAgentID (cw_heap w)"
    using assms(2,5) by (simp add: map_update list_update_same_conv)
  have nth: "aa_ChildAgentID ((cw_heap w)[a := ag'] ! b) = aa_ChildAgentID (cw_heap w ! b)" if "b < length (cw_heap w)" for b
    using assms(2,5) that by (cases "a = b") simp_all
  have set: "x \<in> set ((cw_heap w)[a := ag']) \<Longrightarrow> x = ag' \<or> x \<in> set (cw_heap w)" for x using set_update_subset_insert[of "cw_heap w" a ag'] by auto
  have "cw_heap w ! a \<in> set (cw_heap w)" using assms(2) by simp
  then have "trim_space (aa_ChildAgentID ag') = aa_ChildAgentID ag'" using assms(1,5) by (simp add: heap_ok_def)
  then show ?thesis using assms ids nth set by (fastforce simp: heap_ok_def)
qed

lemma ends_ok_settle:
  assumes h: "heap_ok w" and ok: "ends_ok w (add_mset (AFinish i st s e c prev rep) N)" and a: "a < length (cw_heap w)" "\<not> isTerminal (cw_heap w ! a)"
    and ag: "isTerminal ag'" "aa_ChildAgentID ag' = aa_ChildAgentID (cw_heap w ! a)" "aa_terminalResult ag' = Some r" "cs_ChildAgentID r = aa_ChildAgentID (cw_heap w ! a)"
    and ev: "ends w' M' = add_mset (publish_end (aa_ParentAgentID ag') c' r prev') (ends w (add_mset (AFinish i st s e c prev rep) N))"
    and heap: "cw_heap w' = (cw_heap w)[a := ag']"
  shows "ends_ok w' M'"
proof -
  let ?E = "ends w (add_mset (AFinish i st s e c prev rep) N)" and ?id = "aa_ChildAgentID (cw_heap w ! a)"
  have other: "x \<in> set ((cw_heap w)[a := ag'])" if x: "x \<in> set (cw_heap w)" "aa_terminalResult x \<noteq> None" for x
  proof -
    obtain b where b: "b < length (cw_heap w)" "cw_heap w ! b = x" using x(1) by (metis in_set_conv_nth)
    have "isTerminal x" using h x by (fastforce simp: heap_ok_def split: option.splits)
    then have "b \<noteq> a" using b(2) a(2) by auto
    then have "(cw_heap w)[a := ag'] ! b = x" using b by simp
    then show ?thesis using b(1) by (metis length_list_update nth_mem)
  qed
  have mine: "ag' \<in> set ((cw_heap w)[a := ag'])" using a(1) by (rule set_update_memI)
  have before: "\<not> (\<exists>x \<in> set (cw_heap w). aa_ChildAgentID x = ?id \<and> isTerminal x)"
    using id_address[OF h _ a(1)] a(2) by (metis in_set_conv_nth)
  have there: "(\<exists>x \<in> set ((cw_heap w)[a := ag']). aa_ChildAgentID x = j \<and> isTerminal x) = (j = ?id \<or> (\<exists>x \<in> set (cw_heap w). aa_ChildAgentID x = j \<and> isTerminal x))" for j
  proof
    assume "\<exists>x \<in> set ((cw_heap w)[a := ag']). aa_ChildAgentID x = j \<and> isTerminal x"
    then show "j = ?id \<or> (\<exists>x \<in> set (cw_heap w). aa_ChildAgentID x = j \<and> isTerminal x)"
      using ag(2) set_update_subset_insert[of "cw_heap w" a ag'] by auto
  next
    have "x \<in> set ((cw_heap w)[a := ag'])" if "x \<in> set (cw_heap w)" "isTerminal x" for x using other[OF that(1)] h that by (fastforce simp: heap_ok_def split: option.splits)
    then show "j = ?id \<or> (\<exists>x \<in> set (cw_heap w). aa_ChildAgentID x = j \<and> isTerminal x) \<Longrightarrow> \<exists>x \<in> set ((cw_heap w)[a := ag']). aa_ChildAgentID x = j \<and> isTerminal x"
      using mine ag(1,2) by blast
  qed
  have count: "size (filter_mset (\<lambda>e. end_id e = Some j) (ends w' M')) = (if \<exists>x \<in> set (cw_heap w'). aa_ChildAgentID x = j \<and> isTerminal x then 1 else 0)" for j
  proof -
    have cnt: "size (filter_mset (\<lambda>e. end_id e = Some j) ?E) = (if \<exists>x \<in> set (cw_heap w). aa_ChildAgentID x = j \<and> isTerminal x then 1 else 0)"
      using ok unfolding ends_ok_def by blast
    have step: "size (filter_mset (\<lambda>e. end_id e = Some j) (ends w' M')) = size (filter_mset (\<lambda>e. end_id e = Some j) ?E) + (if ?id = j then 1 else 0)"
      unfolding ev by (simp add: publish_end_id ag(4))
    show ?thesis unfolding step cnt heap there using before by auto
  qed
  have "\<exists>x \<in> set (cw_heap w'). \<exists>r c previous. aa_terminalResult x = Some r \<and> ev' = publish_end (aa_ParentAgentID x) c r previous" if "ev' \<in># ends w' M'" for ev'
  proof (cases "ev' \<in># ?E")
    case True
    then obtain x r c previous where x: "x \<in> set (cw_heap w)" "aa_terminalResult x = Some r" "ev' = publish_end (aa_ParentAgentID x) c r previous"
      using ok by (auto simp: ends_ok_def)
    then show ?thesis using other[OF x(1)] unfolding heap by blast
  next
    case False
    then show ?thesis using that mine ag(3) unfolding ev heap by auto
  qed
  then show ?thesis using count by (simp add: ends_ok_def)
qed

lemma finish_cases:
  assumes "finishWithEvent now i st s e c prev w = (r, w', acts)"
  obtains (gone) "active_agent_of w i = None" "r = zero_result" "w' = w" "acts = []"
  | (ended) a ag where "active_agent_of w i = Some (a, ag)" "isTerminal ag" "r = resultSnapshot ag" "w' = w" "acts = []"
  | (settles) a ag ag' where "active_agent_of w i = Some (a, ag)" "\<not> isTerminal ag" "ag' = settle_agent now st s e ag" "r = resultSnapshot ag'" "w' = set_agent a ag' w"
      "acts = [ARecord (aa_ParentAgentID ag') (Snapshot ag'), ASave (Snapshot ag'), APublishProgress (aa_ParentAgentID ag') i (aa_Progress ag'),
               APublishEnd (aa_ParentAgentID ag') c r prev] @ (if cw_hostBound w then [AStop i] else []) @ [AUnregister i]"
proof (cases "active_agent_of w i")
  case None
  then have "r = zero_result" "w' = w" "acts = []" using assms by (simp_all add: finishWithEvent_def)
  with None show ?thesis by (rule gone)
next
  case (Some p)
  obtain a ag where p: "p = (a, ag)" by (cases p)
  show ?thesis
  proof (cases "isTerminal ag")
    case True
    then have "r = resultSnapshot ag" "w' = w" "acts = []" using assms Some p by (simp_all add: finishWithEvent_def)
    with True show ?thesis using Some p by (intro ended) simp_all
  next
    case False
    define ag' where "ag' = settle_agent now st s e ag"
    have "r = resultSnapshot ag'" "w' = set_agent a ag' w"
      "acts = [ARecord (aa_ParentAgentID ag') (Snapshot ag'), ASave (Snapshot ag'), APublishProgress (aa_ParentAgentID ag') i (aa_Progress ag'),
               APublishEnd (aa_ParentAgentID ag') c r prev] @ (if cw_hostBound w then [AStop i] else []) @ [AUnregister i]"
      using assms Some p False by (auto simp: finishWithEvent_def Let_def ag'_def)
    with False show ?thesis using Some p ag'_def by (intro settles) simp_all
  qed
qed

lemma replies_opt_same: "replies_ok w \<Longrightarrow> (\<And>a. rep = Some a \<Longrightarrow> a < length (cw_heap w) \<and> (r = zero_result \<or> aa_terminalResult (cw_heap w ! a) = Some r)) \<Longrightarrow> replies_ok (reply_opt rep r w)"
  by (cases rep) (auto simp: reply_opt_def intro!: replies_add)

lemma reply_opt_fields [simp]:
  "cw_heap (reply_opt rep r w) = cw_heap w" "cw_activeByID (reply_opt rep r w) = cw_activeByID w" "cw_sessions (reply_opt rep r w) = cw_sessions w"
  "cw_events (reply_opt rep r w) = cw_events w" "cw_hostBound (reply_opt rep r w) = cw_hostBound w"
  by (simp_all add: reply_opt_def reply_with_def split: option.split)

text \<open>Nothing was left to do: only an answer.\<close>

lemma finish_noop_inv:
  assumes "child_inv w (add_mset (AFinish i st s e c prev rep) N)"
    and "\<And>a. rep = Some a \<Longrightarrow> r = zero_result \<or> aa_terminalResult (cw_heap w ! a) = Some r"
  shows "child_inv (reply_opt rep r w) N"
proof -
  note inv = child_invD[OF assms(1)]
  let ?w = "reply_opt rep r w"
  have calm: "list_all2 calm (cw_heap w) (cw_heap ?w)" by simp
  have "ends ?w (mset [] + N) = ends w (add_mset (AFinish i st s e c prev rep) N)" by (intro ends_same) auto
  then have "ends_ok ?w N" using ends_ok_same[OF calm] inv(2) by simp
  moreover have "heap_ok ?w" using inv(1) by (intro heap_ok_same[OF calm]) (auto simp: heap_ok_def)
  moreover have "replies_ok ?w" using inv(5) assms(2) by (intro replies_opt_same[OF inv(3)]) auto
  moreover have "release_ok ?w N" by (rule release_ok_same[OF calm inv(4)]) auto
  moreover have "\<forall>x \<in># N. refs_ok ?w x" using inv(6) by (simp add: refs_ok_same[OF calm])
  ultimately show ?thesis by (simp add: child_inv_def)
qed

lemma settle_inv:
  fixes now :: gotime
  assumes pre: "child_inv w (add_mset (AFinish i st s e c prev rep) N)" and ag: "active_agent_of w i = Some (a, ag)" "\<not> isTerminal ag"
  defines "ag' \<equiv> settle_agent now st s e ag"
  shows "child_inv (reply_opt rep (resultSnapshot ag') (set_agent a ag' w))
           (mset ([ARecord (aa_ParentAgentID ag') (Snapshot ag'), ASave (Snapshot ag'), APublishProgress (aa_ParentAgentID ag') i (aa_Progress ag'),
               APublishEnd (aa_ParentAgentID ag') c (resultSnapshot ag') prev, AStop i, AUnregister i]) + N)"
    (is "child_inv ?w (mset ?acts + N)")
proof -
  note inv = child_invD[OF pre]
  have a: "a < length (cw_heap w)" "cw_heap w ! a = ag" "map_of (cw_activeByID w) i = Some a" using active_agent_ofD[OF ag(1)] by simp_all
  have i: "aa_ChildAgentID ag = i" using inv(1) a by (auto simp: heap_ok_def)
  have "st \<in> {StatusCompleted, StatusFailed, StatusCancelled, StatusExpired}" using inv(5) by simp
  note F = settle_agent_fields[OF this, of now s e ag, folded ag'_def]
  have heap: "cw_heap ?w = (cw_heap w)[a := ag']" by simp
  have "heap_ok (set_agent a ag' w)" using F i a by (intro heap_ok_settle[OF inv(1)]) auto
  then have "heap_ok ?w" by (simp add: heap_ok_def)
  moreover have "ends ?w (mset ?acts + N) = add_mset (publish_end (aa_ParentAgentID ag') c (resultSnapshot ag') prev) (ends w (add_mset (AFinish i st s e c prev rep) N))"
    by (simp add: ends_def)
  then have "ends_ok ?w (mset ?acts + N)" using F i a ag(2) by (intro ends_ok_settle[OF inv(1,2) a(1) _ _ _ _ _ _ heap]) auto
  moreover have "replies_ok ?w"
  proof (rule replies_opt_same)
    show "replies_ok (set_agent a ag' w)" using inv(3) a ag(2) has_result_ended(1)[OF inv(1)] by (auto simp: replies_ok_def nth_list_update)
    show "b < length (cw_heap (set_agent a ag' w)) \<and> (resultSnapshot ag' = zero_result \<or> aa_terminalResult (cw_heap (set_agent a ag' w) ! b) = Some (resultSnapshot ag'))" if "rep = Some b" for b
      using inv(5) that id_address[OF inv(1) _ a(1), of b] a i F(5) by simp
  qed
  moreover have "release_ok ?w (mset ?acts + N)"
    using inv(4) F(3) i a by (auto simp: release_ok_def nth_list_update split: if_splits)
  moreover have "refs_ok ?w x" if "refs_ok w x" for x
    using that F(3) a by (cases x) (auto simp: nth_list_update split: option.splits)
  then have "\<forall>x \<in># mset ?acts + N. refs_ok ?w x" using inv(6) by auto
  ultimately show ?thesis by (simp add: child_inv_def)
qed

lemma finish_inv:
  assumes "child_inv w (add_mset (AFinish i st s e c prev rep) N)" "finishWithEvent now i st s e c prev w = (r, w', acts)"
  shows "child_inv (reply_opt rep r w') (mset acts + N)"
  using assms(2)
proof (cases rule: finish_cases)
  case gone
  then show ?thesis using finish_noop_inv[OF assms(1), of zero_result] by simp
next
  case (ended a ag)
  note inv = child_invD[OF assms(1)]
  have "aa_terminalResult (cw_heap w ! b) = Some r" if "rep = Some b" for b
    using ended that inv(5) same_id[OF inv(1), of b a ag] ended_result[OF inv(1), of b] by simp
  then show ?thesis using finish_noop_inv[OF assms(1), of r] ended by simp
next
  case (settles a ag ag')
  have "cw_hostBound w" using child_invD(1)[OF assms(1)] by (simp add: heap_ok_def)
  then show ?thesis using settle_inv[OF assms(1) settles(1,2), of now] settles by simp
qed

section \<open>Runs\<close>

lemma exec_inv:
  assumes "child_inv w (add_mset act N)" "clean_action act w" "exec_action io env act w = (w', acts)"
  shows "child_inv w' (mset acts + N)"
proof (cases act)
  case (ARegister p input allowed i c)
  then show ?thesis using assms register_inv[of w p input allowed i c N "ce_now env" "FormatChildTask (cr_Task input)"] by auto
next
  case (ASpawn a task)
  then show ?thesis using assms spawn_inv[of w a task N] by blast
next
  case (AFinish i st s e c prev rep)
  then show ?thesis using assms finish_inv[of w i st s e c prev rep N "ce_now env"] by (auto split: prod.splits)
next
  case (APublishEnd p c r prev)
  then show ?thesis using assms publish_inv[of w p c r prev N] by auto
next
  case (AStop i)
  then show ?thesis using assms stop_inv[of w i N] by auto
next
  case (AUnregister i)
  then show ?thesis using assms unregister_inv[of w i N] by auto
qed (use inert_inv[OF _ assms(2,1,3)] in \<open>simp_all add: inert_def plain_action_def\<close>)

lemma start_inv: "child_inv w N \<Longrightarrow> is_call act \<Longrightarrow> child_inv w (add_mset act N)"
  by (cases act) (auto simp: child_inv_def is_call_def ends_ok_def ends_def release_ok_def)

lemma step_inv:
  assumes "child_inv w (pend ts)" "clean_run io [op] (w, ts)" "child_step io op (w, ts) = (w', ts')"
  shows "child_inv w' (pend ts')"
proof (cases op)
  case (OpStart act)
  then show ?thesis using assms start_inv[of w "pend ts" act] by (auto simp: pend_start split: if_splits)
next
  case (OpRun i env)
  show ?thesis
  proof (cases "i < length ts \<and> ts ! i \<noteq> []")
    case False
    then show ?thesis using assms OpRun by (auto split: list.splits if_splits)
  next
    case True
    then obtain act rest where i: "i < length ts" "ts ! i = act # rest" by (cases "ts ! i") auto
    obtain acts where e: "exec_action io env act w = (w', acts)" "ts' = ts[i := acts @ rest]"
      using assms(3) OpRun i by (auto split: prod.splits)
    obtain N where N: "pend ts = add_mset act N" "pend ts' = mset acts + N" using pend_run[OF i] e(2) by metis
    then show ?thesis using exec_inv[of w act N io env w' acts] assms(1,2) OpRun i e(1) by simp
  qed
qed

lemma clean_run_Cons: "clean_run io (op # ops) s \<longleftrightarrow> clean_run io [op] s \<and> clean_run io ops (child_step io op s)"
  by (cases s) auto

lemma run_inv:
  assumes "child_inv w (pend ts)" "clean_run io ops (w, ts)" "child_ops io ops (w, ts) = (w', ts')"
  shows "child_inv w' (pend ts')"
  using assms
proof (induction ops arbitrary: w ts)
  case (Cons op ops)
  obtain w1 ts1 where s: "child_step io op (w, ts) = (w1, ts1)" by (cases "child_step io op (w, ts)")
  then show ?case using Cons.IH[of w1 ts1] Cons.prems step_inv[OF Cons.prems(1) _ s] clean_run_Cons[of io op ops "(w, ts)"] by simp
qed simp

lemma initial_inv: "child_inv (NewManager cfg sessions repo) (pend [])"
  by (simp add: child_inv_def heap_ok_def ends_ok_def ends_def replies_ok_def release_ok_def NewManager_def pend_def)

text \<open>The result of a child that has ended stays.\<close>

lemma exec_result:
  assumes "child_inv w (add_mset act N)" "clean_action act w" "exec_action io env act w = (w', acts)" "a < length (cw_heap w)" "aa_terminalResult (cw_heap w ! a) = Some r"
  shows "a < length (cw_heap w') \<and> aa_terminalResult (cw_heap w' ! a) = Some r \<and> aa_ChildAgentID (cw_heap w' ! a) = aa_ChildAgentID (cw_heap w ! a)"
proof -
  note inv = child_invD[OF assms(1)]
  have t: "isTerminal (cw_heap w ! a)" by (rule has_result_ended(1)[OF inv(1) assms(4,5)])
  show ?thesis
  proof (cases "inert act")
    case True
    then have "list_all2 calm (cw_heap w) (cw_heap w')" using inert_same[OF _ assms(2) inv(5), of io env] assms(3) by (simp add: same_core_def)
    then show ?thesis using calm_nth[of "cw_heap w" "cw_heap w'" a] assms(4,5) by (simp add: calm_def list_all2_lengthD)
  next
    case False
    show ?thesis
    proof (cases act)
      case (ARegister p input allowed i c)
      moreover obtain ag where "cw_heap (create_register (ce_now env) p input allowed i c w) = cw_heap w @ [ag]" by (rule register_fields)
      ultimately show ?thesis using assms(3-5) by (auto simp: nth_append)
    next
      case (AFinish i st s e c prev rep)
      then obtain res w1 where f: "finishWithEvent (ce_now env) i st s e c prev w = (res, w1, acts)" "w' = reply_opt rep res w1"
        using assms(3) by (auto split: prod.splits)
      from f(1) show ?thesis
      proof (cases rule: finish_cases)
        case (settles b ag ag')
        then have "b \<noteq> a" using t active_agent_ofD[OF settles(1)] by auto
        then show ?thesis using settles f(2) assms(4,5) by simp
      qed (use f(2) assms(4,5) in simp_all)
    next
      case (ASpawn b task)
      then show ?thesis using assms(3-5) by (auto simp: SpawnChild_def Let_def reply_with_def split: if_splits option.splits)
    next
      case (AUnregister i)
      then show ?thesis using assms(3-5) unregister_fields(1)[OF inv(1)] by auto
    qed (use False assms(3-5) in \<open>auto simp: inert_def plain_action_def publish_event_def StopChild_def\<close>)
  qed
qed

lemma run_result:
  assumes "child_inv w (pend ts)" "clean_run io ops (w, ts)" "child_ops io ops (w, ts) = (w', ts')" "a < length (cw_heap w)" "aa_terminalResult (cw_heap w ! a) = Some r"
  shows "aa_terminalResult (cw_heap w' ! a) = Some r"
  using assms
proof (induction ops arbitrary: w ts)
  case (Cons op ops)
  obtain w1 ts1 where s: "child_step io op (w, ts) = (w1, ts1)" by (cases "child_step io op (w, ts)")
  have c: "clean_run io [op] (w, ts)" "clean_run io ops (w1, ts1)" using Cons.prems(2) clean_run_Cons[of io op ops "(w, ts)"] s by simp_all
  have "a < length (cw_heap w1) \<and> aa_terminalResult (cw_heap w1 ! a) = Some r"
  proof (cases "w1 = w")
    case False
    then obtain i env act rest acts where i: "op = OpRun i env" "i < length ts" "ts ! i = act # rest" "exec_action io env act w = (w1, acts)"
      using s by (cases op) (auto split: if_splits list.splits prod.splits)
    obtain N where "pend ts = add_mset act N" using pend_run[OF i(2,3)] by blast
    then show ?thesis using exec_result[of w act N io env w1 acts a r] Cons.prems(1,4,5) c(1) i by simp
  qed (use Cons.prems in simp)
  then show ?case using Cons.IH[of w1 ts1] step_inv[OF Cons.prems(1) c(1) s] c(2) Cons.prems(3) s by simp
qed simp

lemma clean_run_append: "clean_run io (ops @ ops') s \<longleftrightarrow> clean_run io ops s \<and> clean_run io ops' (child_ops io ops s)"
proof (induction ops arbitrary: s)
  case (Cons op ops)
  then show ?case using clean_run_Cons[of io op "ops @ ops'" s] clean_run_Cons[of io op ops s] by auto
qed simp

lemma size_filter_mset_list: "size (filter_mset P (mset xs)) = length (filter P xs)"
  by (metis mset_filter size_mset)

lemma ends_of_id:
  "filter_mset (\<lambda>e. end_id e = Some i) (filter_mset (\<lambda>e. end_id e \<noteq> None) X) = filter_mset (\<lambda>e. end_id e = Some i) X"
  unfolding filter_filter_mset by (rule filter_mset_cong) auto

lemma announced_le: "length (filter (\<lambda>e. end_id e = Some i) (cw_events w)) \<le> size (filter_mset (\<lambda>e. end_id e = Some i) (ends w M))"
  unfolding ends_def filter_union_mset ends_of_id size_union size_filter_mset_list by simp

lemma announced_end:
  assumes "child_inv w M" "a < length (cw_heap w)" "e \<in> set (cw_events w)" "end_id e = Some (aa_ChildAgentID (cw_heap w ! a))"
  shows "\<exists>r c previous. aa_terminalResult (cw_heap w ! a) = Some r \<and> e = publish_end (aa_ParentAgentID (cw_heap w ! a)) c r previous"
proof -
  have inv: "heap_ok w" "ends_ok w M" using assms(1) by (simp_all add: child_inv_def)
  have "e \<in># ends w M" using assms(3,4) by (simp add: ends_def)
  then obtain ag r c previous where ag: "ag \<in> set (cw_heap w)" "aa_terminalResult ag = Some r" "e = publish_end (aa_ParentAgentID ag) c r previous"
    using inv(2) unfolding ends_ok_def by blast
  obtain b where b: "b < length (cw_heap w)" "cw_heap w ! b = ag" using ag(1) by (metis in_set_conv_nth)
  have "cs_ChildAgentID r = aa_ChildAgentID (cw_heap w ! b)" using has_result_ended(2)[OF inv(1) b(1)] ag(2) b(2) by simp
  then have "b = a" using assms(4) ag(3) by (intro id_address[OF inv(1) b(1) assms(2)]) (simp add: publish_end_id)
  then show ?thesis using ag b by blast
qed

section \<open>The end of a child\<close>


text \<open>
  Nothing of a child that has ended is left behind once the goroutines have done their work: it is no longer registered, so that it does not count as active and gets no more
  answers, its session is gone from the host, and its end was announced exactly once. The end of a child that has not ended was not announced.
\<close>

lemma settled_children_released:
  assumes "clean_run io ops (NewManager cfg sessions repo, [])" "child_ops io ops (NewManager cfg sessions repo, []) = (w, ts)" "concat ts = []" "a < length (cw_heap w)"
  shows "(if isTerminal (cw_heap w ! a)
          then active_agent_of w (aa_ChildAgentID (cw_heap w ! a)) = None \<and> map_of (cw_sessions w) (aa_ChildAgentID (cw_heap w ! a)) = None \<and>
               length (filter (\<lambda>e. end_id e = Some (aa_ChildAgentID (cw_heap w ! a))) (cw_events w)) = 1
          else filter (\<lambda>e. end_id e = Some (aa_ChildAgentID (cw_heap w ! a))) (cw_events w) = [])"
proof -
  let ?i = "aa_ChildAgentID (cw_heap w ! a)"
  have "pend ts = {#}" using assms(3) by (simp add: pend_def)
  then have inv: "child_inv w {#}" using run_inv[OF initial_inv assms(1,2)] by simp
  then have h: "heap_ok w" by (simp add: child_inv_def)
  have "filter_mset (\<lambda>e. end_id e = Some ?i) (ends w {#}) = mset (filter (\<lambda>e. end_id e = Some ?i) (cw_events w))"
    unfolding ends_def filter_union_mset ends_of_id mset_filter by simp
  then have count: "length (filter (\<lambda>e. end_id e = Some ?i) (cw_events w)) = (if \<exists>ag \<in> set (cw_heap w). aa_ChildAgentID ag = ?i \<and> isTerminal ag then 1 else 0)"
    using inv unfolding child_inv_def ends_ok_def by (metis size_mset)
  have "(\<exists>ag \<in> set (cw_heap w). aa_ChildAgentID ag = ?i \<and> isTerminal ag) = isTerminal (cw_heap w ! a)"
    using id_address[OF h _ assms(4)] assms(4) by (metis in_set_conv_nth)
  moreover have "active_agent_of w ?i = None \<and> map_of (cw_sessions w) ?i = None" if "isTerminal (cw_heap w ! a)"
    using inv that assms(4) by (auto simp: child_inv_def release_ok_def active_agent_of_def)
  moreover have "length (filter (\<lambda>e. end_id e = Some ?i) (cw_events w)) = (if isTerminal (cw_heap w ! a) then 1 else 0)"
    unfolding count using calculation by simp
  ultimately show ?thesis by (auto split: if_splits)
qed

section \<open>Witnesses\<close>

text \<open>Parent \<open>p\<close> creates a child; the child reports its result, and the waiting call returns it.\<close>

definition demo_child_io :: child_io where
  "demo_child_io = \<lparr>ci_sprint = (\<lambda>_. []), ci_unmarshal = (\<lambda>_. Some [(''purpose'', AnyString ''x''), (''task'', AnyString ''y'')])\<rparr>"

definition demo_child_cfg :: child_config where
  "demo_child_cfg =
     \<lparr>cc_Enabled = True, cc_DefaultTTLSeconds = 0, cc_MaxTTLSeconds = 0, cc_DefaultMaxTurns = 0, cc_MaxMaxTurns = 0, cc_MaxActivePerParent = 1\<rparr>"

definition demo_child_start :: child_system where
  "demo_child_start = (NewManager demo_child_cfg [(''p'', None)] (Some []), [])"

definition demo_child_run :: "nat \<Rightarrow> nat \<Rightarrow> child_op list" where
  "demo_child_run n i =
     replicate n (OpRun i \<lparr>ce_now = 1, ce_written = True, ce_skills = None, ce_full = None, ce_random = Some [i], ce_wait = WaitSettled\<rparr>)"

definition demo_child_id :: string where
  "demo_child_id = generateChildAgentID [0]"

definition demo_creation :: "child_op list" where
  "demo_creation = OpStart (ACreate ''p'' [] ''c'') # demo_child_run 8 0"

definition demo_settle :: "child_op list" where
  "demo_settle = OpStart (ASettled demo_child_id ''done'' 1) # demo_child_run 8 1 @ demo_child_run 1 0"


lemma settled_children_released_witness:
  "isTerminal (cw_heap (fst (child_ops demo_child_io (demo_creation @ demo_settle) demo_child_start)) ! 0) \<and>
   map_of (cw_sessions (fst (child_ops demo_child_io (demo_creation @ demo_settle) demo_child_start))) demo_child_id = None"
proof -
  let ?s = "child_ops demo_child_io (demo_creation @ demo_settle) demo_child_start"
  have c: "clean_run demo_child_io (demo_creation @ demo_settle) (NewManager demo_child_cfg [(''p'', None)] (Some []), [])" by code_simp
  have r: "child_ops demo_child_io (demo_creation @ demo_settle) (NewManager demo_child_cfg [(''p'', None)] (Some []), []) = (fst ?s, snd ?s)"
    by (simp add: demo_child_start_def)
  have "concat (snd ?s) = []" "0 < length (cw_heap (fst ?s))" "aa_ChildAgentID (cw_heap (fst ?s) ! 0) = demo_child_id" "isTerminal (cw_heap (fst ?s) ! 0)" by code_simp+
  then show ?thesis using settled_children_released[OF c r, of 0] by simp
qed

end
