(* ===== verification/Child_Limit.thy ===== *)
theory Child_Limit
  imports Child_Settle
begin

text \<open>
  The limit on the active children of a parent (\<^verbatim>\<open>checkActiveLimit\<close> of \<^verbatim>\<open>childagent/manager.go\<close>), and what happens when the creation of a child is disturbed.
\<close>

section \<open>The number of active children\<close>

text \<open>Every child that has not ended is registered, also with its parent.\<close>

definition parent_ids :: "child_world \<Rightarrow> string \<Rightarrow> string list" where
  "parent_ids w p = (case map_of (cw_activeIDsByParent w) p of None \<Rightarrow> [] | Some ids \<Rightarrow> ids)"

definition listed_ok :: "child_world \<Rightarrow> child_action multiset \<Rightarrow> bool" where
  "listed_ok w M \<longleftrightarrow>
     (\<forall>a < length (cw_heap w). \<not> isTerminal (cw_heap w ! a) \<longrightarrow>
        map_of (cw_activeByID w) (aa_ChildAgentID (cw_heap w ! a)) = Some a \<and> aa_ChildAgentID (cw_heap w ! a) \<in> set (parent_ids w (aa_ParentAgentID (cw_heap w ! a)))) \<and>
     (\<forall>i. AUnregister i \<in># M \<longrightarrow> (\<exists>a < length (cw_heap w). aa_ChildAgentID (cw_heap w ! a) = i \<and> isTerminal (cw_heap w ! a)))"

definition active_children :: "child_world \<Rightarrow> string \<Rightarrow> nat set" where
  "active_children w p = {a. a < length (cw_heap w) \<and> \<not> isTerminal (cw_heap w ! a) \<and> aa_ParentAgentID (cw_heap w ! a) = p}"

fun registers :: "string \<Rightarrow> child_action \<Rightarrow> bool" where
  "registers p (ARegister p' input allowed i c) \<longleftrightarrow> p' = p"
| "registers p _ \<longleftrightarrow> False"

lemma active_children_limit:
  assumes "heap_ok w" "listed_ok w M" "checkActiveLimit p w = None"
  shows "int (card (active_children w p)) < cc_MaxActivePerParent (cw_cfg w)"
proof -
  let ?act = "filter (\<lambda>i. case active_agent_of w i of None \<Rightarrow> False | Some (a, ag) \<Rightarrow> \<not> isTerminal ag) (parent_ids w p)"
  have "inj_on (\<lambda>a. aa_ChildAgentID (cw_heap w ! a)) (active_children w p)"
    using id_address[OF assms(1)] by (auto simp: inj_on_def active_children_def)
  moreover have "(\<lambda>a. aa_ChildAgentID (cw_heap w ! a)) ` active_children w p \<subseteq> set ?act"
    using assms(2) by (auto simp: listed_ok_def active_children_def active_agent_of_def)
  ultimately have "card (active_children w p) \<le> card (set ?act)" by (metis card_inj_on_le finite_set)
  also have "\<dots> \<le> length ?act" by (rule card_length)
  finally show ?thesis using assms(3) by (auto simp: checkActiveLimit_def Let_def parent_ids_def split: if_splits)
qed

lemma handleCreate_limit:
  assumes "handleCreate io random parentID args callID w = Inr acts"
  shows "\<exists>input allowed i c. acts = [ARegister (trim_space parentID) input allowed i c]" "checkActiveLimit (trim_space parentID) w = None"
  using assms by (auto simp: handleCreate_def Let_def split: if_splits sum.splits option.splits)

lemma active_calm:
  assumes "list_all2 calm (cw_heap w) (cw_heap w')"
  shows "active_children w' p = active_children w p"
  using assms by (auto simp: active_children_def list_all2_conv_all_nth calm_def)

lemma listed_calm:
  assumes "list_all2 calm (cw_heap w) (cw_heap w')" "cw_activeByID w' = cw_activeByID w" "cw_activeIDsByParent w' = cw_activeIDsByParent w"
    "listed_ok w (add_mset act N)" "list_all (\<lambda>x. \<forall>i. x \<noteq> AUnregister i) acts"
  shows "listed_ok w' (mset acts + N)"
proof -
  have nth: "isTerminal (cw_heap w' ! a) = isTerminal (cw_heap w ! a)" "aa_ChildAgentID (cw_heap w' ! a) = aa_ChildAgentID (cw_heap w ! a)"
    "aa_ParentAgentID (cw_heap w' ! a) = aa_ParentAgentID (cw_heap w ! a)" if "a < length (cw_heap w)" for a
    using calm_nth[OF assms(1) that] by (simp_all add: calm_def)
  have len: "length (cw_heap w') = length (cw_heap w)" using assms(1) by (simp add: list_all2_lengthD)
  have "AUnregister i \<in># mset acts + N \<Longrightarrow> AUnregister i \<in># add_mset act N" for i using assms(5) by (auto simp: list_all_iff)
  then have "\<exists>a < length (cw_heap w'). aa_ChildAgentID (cw_heap w' ! a) = i \<and> isTerminal (cw_heap w' ! a)" if "AUnregister i \<in># mset acts + N" for i
    using that assms(4) nth len unfolding listed_ok_def by metis
  then show ?thesis using assms(4) unfolding listed_ok_def parent_ids_def assms(2,3) len by (auto simp: nth)
qed

lemma other_fields:
  "cw_activeByID (reply_with r w) = cw_activeByID w" "cw_activeIDsByParent (reply_with r w) = cw_activeIDsByParent w" "cw_cfg (reply_with r w) = cw_cfg w"
  "cw_activeIDsByParent (reply_opt rep r' w) = cw_activeIDsByParent w" "cw_cfg (reply_opt rep r' w) = cw_cfg w"
  "cw_activeByID (publish_event e w) = cw_activeByID w" "cw_activeIDsByParent (publish_event e w) = cw_activeIDsByParent w" "cw_cfg (publish_event e w) = cw_cfg w"
  "cw_activeByID (StopChild i w) = cw_activeByID w" "cw_activeIDsByParent (StopChild i w) = cw_activeIDsByParent w" "cw_cfg (StopChild i w) = cw_cfg w"
  "cw_activeByID (persistSnapshot n b s w) = cw_activeByID w" "cw_activeIDsByParent (persistSnapshot n b s w) = cw_activeIDsByParent w"
  "cw_cfg (persistSnapshot n b s w) = cw_cfg w"
  "cw_activeByID (trimSettledLocked p w) = cw_activeByID w" "cw_activeIDsByParent (trimSettledLocked p w) = cw_activeIDsByParent w" "cw_cfg (trimSettledLocked p w) = cw_cfg w"
  "cw_cfg (unregisterActive i w) = cw_cfg w" "cw_cfg (create_register n p input allowed i c w) = cw_cfg w"
  by (simp_all add: reply_with_def reply_opt_def publish_event_def StopChild_def persistSnapshot_def trimSettledLocked_def unregisterActive_def create_register_def Let_def
      split: option.split prod.split)

lemma spawn_fields:
  "SpawnChild x i p w = (r, w') \<Longrightarrow> cw_activeByID w' = cw_activeByID w \<and> cw_activeIDsByParent w' = cw_activeIDsByParent w \<and> cw_cfg w' = cw_cfg w"
  by (auto simp: SpawnChild_def split: if_splits option.splits)

lemma report_fields:
  "OnChildSettled i s n w = (w', acts) \<Longrightarrow> cw_activeByID w' = cw_activeByID w \<and> cw_activeIDsByParent w' = cw_activeIDsByParent w \<and> cw_cfg w' = cw_cfg w"
  "OnChildFailed i s n w = (w', acts) \<Longrightarrow> cw_activeByID w' = cw_activeByID w \<and> cw_activeIDsByParent w' = cw_activeIDsByParent w \<and> cw_cfg w' = cw_cfg w"
  "ObserveChildEvent io now i t d w = (w', acts) \<Longrightarrow> cw_activeByID w' = cw_activeByID w \<and> cw_activeIDsByParent w' = cw_activeIDsByParent w \<and> cw_cfg w' = cw_cfg w"
  by (auto simp: OnChildSettled_def OnChildFailed_def ObserveChildEvent_def split: option.splits if_splits)

lemma finish_fields:
  "finishWithEvent now i st s e c prev w = (r, w', acts) \<Longrightarrow>
     cw_activeByID w' = cw_activeByID w \<and> cw_activeIDsByParent w' = cw_activeIDsByParent w \<and> cw_cfg w' = cw_cfg w"
  by (erule finish_cases) auto

lemma exec_fields:
  assumes "exec_action io env act w = (w', acts)"
  shows "cw_cfg w' = cw_cfg w \<and>
    ((\<forall>p input allowed i c. act \<noteq> ARegister p input allowed i c) \<longrightarrow> (\<forall>i. act \<noteq> AUnregister i) \<longrightarrow>
       cw_activeByID w' = cw_activeByID w \<and> cw_activeIDsByParent w' = cw_activeIDsByParent w)"
proof (cases act)
  case (AFinish i st s e c prev rep)
  then obtain r w1 where "finishWithEvent (ce_now env) i st s e c prev w = (r, w1, acts)" "w' = reply_opt rep r w1" using assms by (auto split: prod.splits)
  then show ?thesis using finish_fields by (simp add: other_fields)
next
  case (ASpawn a task)
  then show ?thesis using assms by (auto simp: Let_def other_fields dest!: spawn_fields split: prod.splits option.splits)
next
  case (AWait a)
  then show ?thesis using assms by (auto simp: other_fields split: option.splits prod.splits)
next
  case (ACancel p i r rep)
  then show ?thesis using assms by (auto simp: other_fields split: option.splits prod.splits sum.splits)
qed (use assms in \<open>auto simp: other_fields Let_def dest!: report_fields split: sum.splits option.splits\<close>)

lemma exec_lists:
  assumes "exec_action io env act w = (w', acts)" "\<forall>p input allowed i c. act \<noteq> ARegister p input allowed i c" "\<forall>i. act \<noteq> AUnregister i"
  shows "cw_activeByID w' = cw_activeByID w" "cw_activeIDsByParent w' = cw_activeIDsByParent w"
  using exec_fields[OF assms(1)] assms(2,3) by blast+

lemma exec_cfg: "exec_action io env act w = (w', acts) \<Longrightarrow> cw_cfg w' = cw_cfg w"
  using exec_fields by blast

lemma request_registers:
  "OnChildSettled i s n w = (w', acts) \<Longrightarrow> list_all (\<lambda>x. \<not> registers p x) acts"
  "OnChildFailed i s n w = (w', acts) \<Longrightarrow> list_all (\<lambda>x. \<not> registers p x) acts"
  "ObserveChildEvent io now i t d w = (w', acts) \<Longrightarrow> list_all (\<lambda>x. \<not> registers p x) acts"
  "Cancel q i r' rep w = (res, acts) \<Longrightarrow> list_all (\<lambda>x. \<not> registers p x) acts"
  "waitUntilSettled choice a w = Some (res', acts) \<Longrightarrow> list_all (\<lambda>x. \<not> registers p x) acts"
  "list_all (\<lambda>x. \<not> registers p x) (CancelAllForParent q r w)" "list_all (\<lambda>x. \<not> registers p x) (runTTLTimer i w)"
  by (auto simp: OnChildSettled_def OnChildFailed_def ObserveChildEvent_def Cancel_def CancelAllForParent_def runTTLTimer_def waitUntilSettled_def Let_def list_all_iff
      split: option.splits if_splits wait_case.splits)

lemma exec_registers:
  assumes "exec_action io env act w = (w', acts)" "\<forall>p args c. act \<noteq> ACreate p args c"
  shows "list_all (\<lambda>x. \<not> registers p x) acts"
proof (cases act)
  case (AFinish i st s e c prev rep)
  then obtain r w1 where "finishWithEvent (ce_now env) i st s e c prev w = (r, w1, acts)" using assms by (auto split: prod.splits)
  then show ?thesis by (rule finish_cases) auto
next
  case (ASpawn a task)
  then show ?thesis using assms by (auto simp: Let_def split: prod.splits option.splits)
next
  case (AWait a)
  then show ?thesis using assms request_registers(5) by (auto split: option.splits prod.splits)
next
  case (ACancel q i r rep)
  then show ?thesis using assms request_registers(4) by (auto split: option.splits prod.splits sum.splits)
qed (use assms request_registers in \<open>auto simp: Let_def split: option.splits\<close>)

lemma listed_unregister:
  assumes "heap_ok w" "listed_ok w (add_mset (AUnregister i) N)"
  shows "listed_ok (unregisterActive i w) N"
proof -
  let ?w = "unregisterActive i w"
  note w' = unregister_fields[OF assms(1), of i]
  have gone: "a < length (cw_heap w) \<Longrightarrow> \<not> isTerminal (cw_heap w ! a) \<Longrightarrow> aa_ChildAgentID (cw_heap w ! a) \<noteq> i" for a
    using assms(2) id_address[OF assms(1)] unfolding listed_ok_def by (metis union_single_eq_member)
  have "j \<in> set (parent_ids w p) \<Longrightarrow> j \<noteq> i \<Longrightarrow> j \<in> set (parent_ids ?w p)" for j p
    by (auto simp: parent_ids_def unregisterActive_def Let_def delete_conv' update_conv' filter_empty_conv split: option.splits if_splits)
  then show ?thesis using assms(2) gone unfolding listed_ok_def w' by auto
qed

lemma listed_register:
  assumes "listed_ok w (add_mset (ARegister p input allowed i c) N)" "i \<notin> set (map aa_ChildAgentID (cw_heap w))"
  shows "listed_ok (create_register now p input allowed i c w) (add_mset (ASpawn (length (cw_heap w)) task) N)"
proof -
  let ?w = "create_register now p input allowed i c w"
  obtain ag where heap: "cw_heap ?w = cw_heap w @ [ag]" and ag: "aa_ChildAgentID ag = i" "aa_ParentAgentID ag = p" by (rule register_fields)
  have w': "map_of (cw_activeByID ?w) j = (if j = i then Some (length (cw_heap w)) else map_of (cw_activeByID w) j)"
    "parent_ids ?w q = (if q = p then parent_ids w p @ [i] else parent_ids w q)" for j q
    by (auto simp: create_register_def Let_def update_conv' parent_ids_def)
  have fresh: "a < length (cw_heap w) \<Longrightarrow> aa_ChildAgentID (cw_heap w ! a) \<noteq> i" for a using assms(2) by auto
  show ?thesis using assms(1) fresh ag unfolding listed_ok_def w' heap by (auto simp: nth_append less_Suc_eq)
qed

lemma listed_settle:
  assumes "listed_ok w (add_mset (AFinish i st s e c prev rep) N)" "a < length (cw_heap w)" "isTerminal ag'" "aa_ChildAgentID ag' = aa_ChildAgentID (cw_heap w ! a)"
    "cw_heap w' = (cw_heap w)[a := ag']" "cw_activeByID w' = cw_activeByID w" "cw_activeIDsByParent w' = cw_activeIDsByParent w"
    "\<And>j. AUnregister j \<in># M \<Longrightarrow> j = aa_ChildAgentID ag' \<or> AUnregister j \<in># N" "heap_ok w"
  shows "listed_ok w' M"
proof -
  have nth: "isTerminal (cw_heap w' ! b) = (if b = a then True else isTerminal (cw_heap w ! b))" "aa_ChildAgentID (cw_heap w' ! b) = aa_ChildAgentID (cw_heap w ! b)"
    "b \<noteq> a \<Longrightarrow> aa_ParentAgentID (cw_heap w' ! b) = aa_ParentAgentID (cw_heap w ! b)" if "b < length (cw_heap w)" for b
    using that assms(2-5) by (auto simp: nth_list_update)
  have len: "length (cw_heap w') = length (cw_heap w)" using assms(5) by simp
  have "\<exists>b < length (cw_heap w). aa_ChildAgentID (cw_heap w' ! b) = j \<and> isTerminal (cw_heap w' ! b)" if "AUnregister j \<in># M" for j
    using assms(8)[OF that]
  proof
    assume "j = aa_ChildAgentID ag'"
    then show ?thesis using assms(2,4) nth[OF assms(2)] by auto
  next
    assume "AUnregister j \<in># N"
    then show ?thesis using assms(1) nth unfolding listed_ok_def by (metis union_iff add_mset_add_single)
  qed
  then show ?thesis using assms(1) unfolding listed_ok_def parent_ids_def assms(6,7) len by (auto simp: nth split: if_splits)
qed

text \<open>Active children and creations that passed the check stay below the limit.\<close>

definition limit_ok :: "child_world \<Rightarrow> child_action multiset \<Rightarrow> string \<Rightarrow> bool" where
  "limit_ok w M p \<longleftrightarrow> int (card (active_children w p)) + int (size (filter_mset (registers p) M)) \<le> cc_MaxActivePerParent (cw_cfg w)"

lemma finite_active [simp]: "finite (active_children w p)"
  by (simp add: active_children_def)

lemma size_filter_none: "list_all (\<lambda>x. \<not> P x) acts \<Longrightarrow> size (filter_mset P (mset acts + N)) = size (filter_mset P N)"
  by (induction acts) auto

lemma limit_mono:
  assumes "limit_ok w (add_mset act N) p" "active_children w' p \<subseteq> active_children w p" "cw_cfg w' = cw_cfg w" "list_all (\<lambda>x. \<not> registers p x) acts"
  shows "limit_ok w' (mset acts + N) p"
proof -
  have "card (active_children w' p) \<le> card (active_children w p)" using assms(2) by (intro card_mono) auto
  then show ?thesis using assms(1) unfolding limit_ok_def assms(3) size_filter_none[OF assms(4)] by (auto split: if_splits)
qed

text \<open>A creation that starts while none of the same parent is between its check and its registration.\<close>

definition solo :: "string \<Rightarrow> child_action \<Rightarrow> child_action multiset \<Rightarrow> bool" where
  "solo p act M \<longleftrightarrow> (case act of ACreate parentID _ _ \<Rightarrow> trim_space parentID = p \<longrightarrow> filter_mset (registers p) M = {#} | _ \<Rightarrow> True)"

lemma calm_listed_limit:
  assumes "exec_action io env act w = (w', acts)" "list_all2 calm (cw_heap w) (cw_heap w')" "listed_ok w (add_mset act N)" "limit_ok w (add_mset act N) p"
    "\<forall>i. act \<noteq> AUnregister i" "\<forall>p args c. act \<noteq> ACreate p args c" "\<forall>p input allowed i c. act \<noteq> ARegister p input allowed i c" "list_all (\<lambda>x. \<forall>i. x \<noteq> AUnregister i) acts"
  shows "listed_ok w' (mset acts + N) \<and> limit_ok w' (mset acts + N) p"
proof
  show "listed_ok w' (mset acts + N)" using exec_lists[OF assms(1,7,5)] by (intro listed_calm[OF assms(2) _ _ assms(3,8)])
  show "limit_ok w' (mset acts + N) p"
    using active_calm[OF assms(2)] exec_cfg[OF assms(1)] exec_registers[OF assms(1,6)] by (intro limit_mono[OF assms(4)]) auto
qed

lemma create_limit:
  assumes "exec_action io env (ACreate q args c) w = (w', acts)" "heap_ok w" "listed_ok w (add_mset (ACreate q args c) N)" "limit_ok w (add_mset (ACreate q args c) N) p"
    "solo p (ACreate q args c) N"
  shows "listed_ok w' (mset acts + N) \<and> limit_ok w' (mset acts + N) p"
proof (cases "handleCreate io (ce_random env) q args c w")
  case (Inl r)
  then have e: "w' = reply_with r w" "acts = []" using assms(1) by simp_all
  then have w': "cw_heap w' = cw_heap w" "cw_cfg w' = cw_cfg w" "cw_activeByID w' = cw_activeByID w" "cw_activeIDsByParent w' = cw_activeIDsByParent w"
    by (simp_all add: reply_with_def)
  then show ?thesis using assms(3,4) e by (simp add: listed_ok_def limit_ok_def active_children_def parent_ids_def)
next
  case (Inr a)
  then have e: "w' = w" "acts = a" using assms(1) by simp_all
  obtain input allowed i c' where a: "a = [ARegister (trim_space q) input allowed i c']" using handleCreate_limit(1)[OF Inr] by blast
  have "int (card (active_children w (trim_space q))) < cc_MaxActivePerParent (cw_cfg w)"
    by (rule active_children_limit[OF assms(2,3) handleCreate_limit(2)[OF Inr]])
  moreover have "filter_mset (registers (trim_space q)) N = {#}" if "p = trim_space q" using assms(5) that by (simp add: solo_def)
  then have "size (filter_mset (registers (trim_space q)) N) = 0" if "p = trim_space q" using that by simp
  ultimately have "limit_ok w (add_mset (ARegister (trim_space q) input allowed i c') N) p"
    using assms(4) by (cases "p = trim_space q") (auto simp: limit_ok_def simp del: size_eq_0_iff_empty)
  then show ?thesis using assms(3) e a by (simp add: listed_ok_def)
qed

lemma register_limit:
  assumes "listed_ok w (add_mset (ARegister q input allowed i c) N)" "limit_ok w (add_mset (ARegister q input allowed i c) N) p"
    "i \<notin> set (map aa_ChildAgentID (cw_heap w))"
  shows "listed_ok (create_register now q input allowed i c w) (add_mset (ASpawn (length (cw_heap w)) task) N) \<and>
         limit_ok (create_register now q input allowed i c w) (add_mset (ASpawn (length (cw_heap w)) task) N) p"
proof
  let ?w = "create_register now q input allowed i c w"
  show "listed_ok ?w (add_mset (ASpawn (length (cw_heap w)) task) N)" by (rule listed_register[OF assms(1,3)])
  obtain ag where heap: "cw_heap ?w = cw_heap w @ [ag]" and ag: "aa_ParentAgentID ag = q" by (rule register_fields)
  have "active_children ?w p \<subseteq> (if q = p then insert (length (cw_heap w)) (active_children w p) else active_children w p)"
    using ag by (auto simp: active_children_def heap nth_append less_Suc_eq split: if_splits)
  then have "card (active_children ?w p) \<le> card (if q = p then insert (length (cw_heap w)) (active_children w p) else active_children w p)"
    by (intro card_mono) auto
  also have "\<dots> \<le> card (active_children w p) + (if q = p then 1 else 0)" by (simp add: card_insert_if)
  finally have "card (active_children ?w p) \<le> card (active_children w p) + (if q = p then 1 else 0)" .
  moreover have "cw_cfg ?w = cw_cfg w" by (simp add: create_register_def Let_def)
  ultimately show "limit_ok ?w (add_mset (ASpawn (length (cw_heap w)) task) N) p" using assms(2) by (auto simp: limit_ok_def split: if_splits)
qed

lemma finish_limit:
  assumes "exec_action io env (AFinish i st s e c prev rep) w = (w', acts)" "heap_ok w" "listed_ok w (add_mset (AFinish i st s e c prev rep) N)"
    "limit_ok w (add_mset (AFinish i st s e c prev rep) N) p" "refs_ok w (AFinish i st s e c prev rep)"
  shows "listed_ok w' (mset acts + N) \<and> limit_ok w' (mset acts + N) p"
proof -
  obtain r w1 where f: "finishWithEvent (ce_now env) i st s e c prev w = (r, w1, acts)" and w': "w' = reply_opt rep r w1"
    using assms(1) by (auto split: prod.splits)
  from f show ?thesis
  proof (cases rule: finish_cases)
    case (settles a ag ag')
    have a: "a < length (cw_heap w)" "cw_heap w ! a = ag" using active_agent_ofD[OF settles(1)] by simp_all
    have "st \<in> {StatusCompleted, StatusFailed, StatusCancelled, StatusExpired}" using assms(5) by simp
    note F = settle_agent_fields[OF this, of "ce_now env" s e ag, folded settles(3)]
    have i: "aa_ChildAgentID ag = i" using active_agent_ofD[OF settles(1)] assms(2) by (auto simp: heap_ok_def)
    have heap: "cw_heap w' = (cw_heap w)[a := ag']" using w' settles(5) by simp
    have "listed_ok w' (mset acts + N)"
      using exec_lists[OF assms(1)] F a i settles(6) by (intro listed_settle[OF assms(3) a(1) F(1) _ heap _ _ _ assms(2)]) (auto split: if_splits)
    moreover have "active_children w' p \<subseteq> active_children w p" using F a heap by (auto simp: active_children_def nth_list_update split: if_splits)
    then have "limit_ok w' (mset acts + N) p" using exec_cfg[OF assms(1)] exec_registers[OF assms(1)] by (intro limit_mono[OF assms(4)]) auto
    ultimately show ?thesis by blast
  qed (use calm_listed_limit[OF assms(1) _ assms(3,4)] w' in \<open>simp_all\<close>)
qed

lemma exec_limit:
  assumes inv: "child_inv w (add_mset act N)" and clean: "clean_action act w" and e: "exec_action io env act w = (w', acts)"
    and ok: "listed_ok w (add_mset act N)" "limit_ok w (add_mset act N) p" and solo: "solo p act N"
  shows "listed_ok w' (mset acts + N) \<and> limit_ok w' (mset acts + N) p"
proof (cases "inert act \<and> (\<forall>p args c. act \<noteq> ACreate p args c)")
  case True
  note I = child_invD[OF inv]
  have calm: "list_all2 calm (cw_heap w) (cw_heap w')" using inert_same[OF _ clean I(5), of io env] True e by (simp add: same_core_def)
  have "list_all (\<lambda>x. \<forall>i. x \<noteq> AUnregister i) acts" using inert_harmless[OF _ I(1,5) e] True by (auto simp: harmless_def list_all_iff)
  moreover have "\<forall>i. act \<noteq> AUnregister i" "\<forall>p input allowed i c. act \<noteq> ARegister p input allowed i c" using True by (auto simp: inert_def plain_action_def)
  ultimately show ?thesis using calm_listed_limit[OF e calm ok] True by blast
next
  case False
  note I = child_invD[OF inv]
  show ?thesis
  proof (cases act)
    case (ACreate q args c)
    then show ?thesis using create_limit[of io env q args c w w' acts N p] e I(1) ok solo by blast
  next
    case (ARegister q input allowed i c)
    then show ?thesis using register_limit[of w q input allowed i c N p "ce_now env" "FormatChildTask (cr_Task input)"] e ok clean by auto
  next
    case (AFinish i st s er c prev rep)
    then show ?thesis using finish_limit[of io env i st s er c prev rep w w' acts N p] e I(1,5) ok by blast
  next
    case (ASpawn a task)
    then show ?thesis using e calm_listed_limit[OF e _ ok]
      by (auto simp: SpawnChild_def Let_def reply_with_def split: if_splits option.splits)
  next
    case (AUnregister i)
    then have w': "w' = unregisterActive i w" "acts = []" using e by simp_all
    have "listed_ok w' N" using listed_unregister[OF I(1)] ok(1) AUnregister w' by simp
    moreover have "active_children w' p = active_children w p" by (simp add: active_children_def w' unregister_fields(1)[OF I(1)])
    then have "limit_ok w' (mset [] + N) p" using exec_cfg[OF e] by (intro limit_mono[OF ok(2)]) auto
    ultimately show ?thesis using w'(2) by simp
  next
    case (AStop i)
    then show ?thesis using e calm_listed_limit[OF e _ ok] by (auto simp: StopChild_def)
  next
    case (APublishEnd q c r prev)
    then show ?thesis using e calm_listed_limit[OF e _ ok] by (auto simp: publish_event_def)
  qed (use False in \<open>simp_all add: inert_def plain_action_def\<close>)
qed

text \<open>No creation of parent \<open>p\<close> is checked while another one waits for its registration.\<close>

fun solo_run :: "child_io \<Rightarrow> string \<Rightarrow> child_op list \<Rightarrow> child_system \<Rightarrow> bool" where
  "solo_run io p [] s \<longleftrightarrow> True"
| "solo_run io p (op # ops) (w, ts) \<longleftrightarrow>
     (case op of
        OpStart _ \<Rightarrow> True
      | OpRun i env \<Rightarrow> i < length ts \<longrightarrow> (case ts ! i of ACreate parentID _ _ # _ \<Rightarrow> trim_space parentID = p \<longrightarrow> list_all (\<lambda>x. \<not> registers p x) (concat ts) | _ \<Rightarrow> True)) \<and>
     solo_run io p ops (child_step io op (w, ts))"

lemma step_limit:
  assumes "child_inv w (pend ts)" "clean_run io [op] (w, ts)" "solo_run io p [op] (w, ts)" "listed_ok w (pend ts)" "limit_ok w (pend ts) p"
    "child_step io op (w, ts) = (w', ts')"
  shows "listed_ok w' (pend ts') \<and> limit_ok w' (pend ts') p"
proof (cases op)
  case (OpStart act)
  have "is_call act \<Longrightarrow> \<not> registers p act" "is_call act \<Longrightarrow> act \<noteq> AUnregister i" for i by (cases act; simp add: is_call_def)+
  then show ?thesis using assms(4-6) OpStart by (auto simp: pend_start listed_ok_def limit_ok_def is_call_def split: if_splits)
next
  case (OpRun i env)
  show ?thesis
  proof (cases "i < length ts \<and> ts ! i \<noteq> []")
    case False
    then show ?thesis using assms OpRun by (auto split: list.splits if_splits)
  next
    case True
    then obtain act rest where i: "i < length ts" "ts ! i = act # rest" by (cases "ts ! i") auto
    obtain acts where e: "exec_action io env act w = (w', acts)" "ts' = ts[i := acts @ rest]"
      using assms(6) OpRun i by (auto split: prod.splits)
    obtain N where N: "pend ts = add_mset act N" "pend ts' = mset acts + N" using pend_run[OF i] e(2) by metis
    have "x \<in># N \<Longrightarrow> x \<in> set (concat ts)" for x using N(1) by (metis in_multiset_in_set pend_def union_single_eq_member add_mset_add_single union_iff)
    then have "solo p act N" using assms(3) OpRun i by (auto simp: solo_def list_all_iff filter_mset_eq_conv split: child_action.splits)
    then show ?thesis using exec_limit[of w act N io env w' acts p] assms(1,2,4,5) OpRun i e(1) N by simp
  qed
qed

lemma run_limit:
  assumes "child_inv w (pend ts)" "clean_run io ops (w, ts)" "solo_run io p ops (w, ts)" "listed_ok w (pend ts)" "limit_ok w (pend ts) p"
    "child_ops io ops (w, ts) = (w', ts')"
  shows "limit_ok w' (pend ts') p"
  using assms
proof (induction ops arbitrary: w ts)
  case (Cons op ops)
  obtain w1 ts1 where s: "child_step io op (w, ts) = (w1, ts1)" by (cases "child_step io op (w, ts)")
  have c: "clean_run io [op] (w, ts)" "clean_run io ops (w1, ts1)" using Cons.prems(2) clean_run_Cons[of io op ops "(w, ts)"] s by simp_all
  have solo: "solo_run io p [op] (w, ts)" "solo_run io p ops (w1, ts1)" using Cons.prems(3) s by simp_all
  show ?case
    using Cons.IH[of w1 ts1] step_inv[OF Cons.prems(1) c(1) s] step_limit[OF Cons.prems(1) c(1) solo(1) Cons.prems(4,5) s] c(2) solo(2) Cons.prems(6) s by simp
qed simp



section \<open>Disturbed creations\<close>

text \<open>
  The creation sets the state of the child to active without looking at it. When the parent's children are cancelled while the child is being created, the activation revives a
  child that has ended: it can end again, and is announced twice.
\<close>

definition revival :: "child_op list" where
  "revival = OpStart (ACreate ''p'' [] ''c'') # demo_child_run 3 0 @ OpStart (ACancelAll ''p'' []) # demo_child_run 3 1 @ demo_child_run 1 0 @ demo_child_run 4 1 @
     OpStart (ASettled demo_child_id ''done'' 1) # demo_child_run 6 2"

lemma revived_child_ends_twice:
  "length (filter (\<lambda>e. end_id e = Some demo_child_id) (cw_events (fst (child_ops demo_child_io revival demo_child_start)))) = 2"
  by code_simp

text \<open>When the cancellation is complete before the host starts the child, the session of the child is started afterwards and never stopped: the manager does not know it any more.\<close>

definition orphaned :: "child_op list" where
  "orphaned = OpStart (ACreate ''p'' [] ''c'') # demo_child_run 2 0 @ OpStart (ACancelAll ''p'' []) # demo_child_run 9 1 @ demo_child_run 7 0"

lemma cancelled_child_runs_on:
  "concat (snd (child_ops demo_child_io orphaned demo_child_start)) = []"
  "map_of (cw_sessions (fst (child_ops demo_child_io orphaned demo_child_start))) demo_child_id = Some (Some ''p'')"
  "active_agent_of (fst (child_ops demo_child_io orphaned demo_child_start)) demo_child_id = None"
  by code_simp+

text \<open>Two calls of the creation tool that run at the same time both pass the check of the limit.\<close>

definition two_creations :: "child_op list" where
  "two_creations = OpStart (ACreate ''p'' [] ''c'') # OpStart (ACreate ''p'' [] ''d'') # demo_child_run 1 0 @ demo_child_run 1 1 @ demo_child_run 7 0 @ demo_child_run 7 1"

lemma limit_exceeded:
  "length (filter (\<lambda>ag. \<not> isTerminal ag \<and> aa_ParentAgentID ag = ''p'') (cw_heap (fst (child_ops demo_child_io two_creations demo_child_start)))) = 2"
  "cc_MaxActivePerParent (cw_cfg (fst (child_ops demo_child_io two_creations demo_child_start))) = 1"
  by code_simp+

text \<open>The snapshot of a progress event may be written after the one of the end: the row says that the child still runs.\<close>

definition late_save :: "child_op list" where
  "late_save = demo_creation @ OpStart (AObserve demo_child_id ''assistant'' []) # demo_child_run 2 1 @ OpStart (ASettled demo_child_id ''done'' 1) # demo_child_run 8 2 @ demo_child_run 1 1"

lemma stale_progress_overwrites_end:
  "map_option rr_Status (map_of (the (cw_repo (fst (child_ops demo_child_io late_save demo_child_start)))) demo_child_id) = Some ''active''"
  "isTerminal (cw_heap (fst (child_ops demo_child_io late_save demo_child_start)) ! 0)"
  by code_simp+

text \<open>A parent that gives up after the child was released gets an empty result, although the result is there.\<close>

definition give_up :: "child_op list" where
  "give_up = demo_creation @ OpStart (ASettled demo_child_id ''done'' 1) # demo_child_run 8 1 @
     replicate 2 (OpRun 0 \<lparr>ce_now = 1, ce_written = True, ce_skills = None, ce_full = None, ce_random = None, ce_wait = WaitCtxDone\<rparr>)"

lemma late_cancel_loses_result:
  "cw_replies (fst (child_ops demo_child_io give_up demo_child_start)) = [CreateResult 0 zero_result]"
  "map_option cs_Summary (aa_terminalResult (cw_heap (fst (child_ops demo_child_io give_up demo_child_start)) ! 0)) = Some ''done''"
  by code_simp+

text \<open>A missing task prints as the text of nil, which is not empty: the child is created with it.\<close>

lemma missing_task_accepted:
  "map_sum (\<lambda>e. e) cr_Task (parseCreateInput \<lparr>ci_sprint = (\<lambda>_. []), ci_unmarshal = (\<lambda>_. Some [])\<rparr> [] (child_defaults demo_child_cfg)) = Inr ''<nil>''"
  by code_simp

end
