(* ===== verification/Autonomy_Store.thy ===== *)
theory Autonomy_Store
  imports Calendar "HOL-Library.List_Lexorder" "HOL-Library.Char_ord"
begin

text \<open>
  The store of the autonomous loop, \<^verbatim>\<open>autonomy/store.go\<close>: profiles, experiences, dreaming commits and todos in one JSON file, every
  write guarded by an expected revision and undone when the file cannot be written.

  \<^verbatim>\<open>aut_store\<close> has the data in memory and the contents of the file. The SHA-256 digest, the known time zones and the JSON copy that a failed write
  is undone with are the fields of \<open>aut_env\<close>; random ids, the clock and the outcome of a write are arguments of the operations.

  \<open>autonomy_file_reopens\<close>: after any sequence of operations, failed writes and restarts, the file can be opened again and gives the data in
  memory. \<open>dreaming_commits_serial\<close>: an agent has at most one commit whose reset is outstanding, and every commit produced a revision of its own.
\<close>

section \<open>Data\<close>

datatype aut_error = AutNotFound | AutConflict | AutInvalid string | AutPersist

record aut_profile =
  ap_AgentID :: string
  ap_Revision :: int
  ap_Responsibility :: string
  ap_WakeIntervalSeconds :: int
  ap_MaxToolRounds :: int
  ap_DreamingEnabled :: bool
  ap_DreamingTime :: string
  ap_Timezone :: string

record experience =
  xp_AgentID :: string
  xp_Revision :: int
  xp_Content :: string
  xp_UpdatedAt :: gotime

record dreaming_commit =
  dc_AgentID :: string
  dc_LocalDate :: string
  dc_CommitID :: string
  dc_SessionID :: string
  dc_Boundary :: string
  dc_ExperienceRevision :: int
  dc_ContentDigest :: string
  dc_ResetApplied :: bool
  dc_UpdatedAt :: gotime

record dreaming_input =
  di_AgentID :: string
  di_LocalDate :: string
  di_CommitID :: string
  di_SessionID :: string
  di_Boundary :: string
  di_ExpectedRevision :: int
  di_Content :: string
  di_Now :: gotime

record todo =
  todo_ID :: string
  todo_AgentID :: string
  todo_Text :: string
  todo_Status :: string
  todo_Revision :: int

record aut_disk =
  dk_Profiles :: "(string, aut_profile) gomap"
  dk_Experiences :: "(string, experience) gomap"
  dk_Dreaming :: "(string, dreaming_commit) gomap"
  dk_Todos :: "(string, todo) gomap"

text \<open>What decoding the file gives: a map may be missing.\<close>

record raw_disk =
  rk_Profiles :: "(string, aut_profile) gomap option"
  rk_Experiences :: "(string, experience) gomap option"
  rk_Dreaming :: "(string, dreaming_commit) gomap option"
  rk_Todos :: "(string, todo) gomap option"

datatype aut_file = NoFile | ReadError | BadJson | FileData raw_disk

record aut_store =
  as_data :: aut_disk
  as_file :: aut_file

record aut_env =
  ae_digest :: "string \<Rightarrow> string"
  ae_zone :: "string \<Rightarrow> bool"
  ae_recode :: "aut_disk \<Rightarrow> raw_disk option"

definition zero_experience :: experience where
  "zero_experience = \<lparr>xp_AgentID = [], xp_Revision = 0, xp_Content = [], xp_UpdatedAt = 0\<rparr>"

definition empty_disk :: aut_disk where
  "empty_disk = \<lparr>dk_Profiles = [], dk_Experiences = [], dk_Dreaming = [], dk_Todos = []\<rparr>"

section \<open>Validation\<close>

text \<open>\<^verbatim>\<open>time.Parse\<close> with the layout 2006-01-02 and with the layout 15:04, where the hour may have one digit.\<close>

definition date_ok :: "string \<Rightarrow> bool" where
  "date_ok s \<longleftrightarrow>
     length s = 10 \<and> s ! 4 = CHR ''-'' \<and> s ! 7 = CHR ''-'' \<and>
     (case (parse_digits 0 (take 4 s), parse_digits 0 (take 2 (drop 5 s)), parse_digits 0 (drop 8 s)) of
        (Some y, Some m, Some d) \<Rightarrow> 1 \<le> m \<and> m \<le> 12 \<and> 1 \<le> d \<and> int d \<le> month_len (int y) (int m)
      | _ \<Rightarrow> False)"

definition clock_ok :: "string \<Rightarrow> bool" where
  "clock_ok s \<longleftrightarrow>
     (let h = takeWhile (\<lambda>c. c \<noteq> CHR '':'') s; r = drop (length h) s
      in (length h = 1 \<or> length h = 2) \<and> length r = 3 \<and>
         (case (parse_digits 0 h, parse_digits 0 (tl r)) of (Some hh, Some mm) \<Rightarrow> hh < 24 \<and> mm < 60 | _ \<Rightarrow> False))"

definition hex_char :: "char \<Rightarrow> bool" where
  "hex_char c \<longleftrightarrow> (let n = of_char c :: nat in 48 \<le> n \<and> n \<le> 57 \<or> 97 \<le> n \<and> n \<le> 102 \<or> 65 \<le> n \<and> n \<le> 70)"

definition validateProfile :: "aut_env \<Rightarrow> aut_profile \<Rightarrow> aut_error option" where
  "validateProfile env p =
     (if trim_space (ap_AgentID p) = [] \<or> ap_WakeIntervalSeconds p < 0 \<or> ap_WakeIntervalSeconds p > 31536000 \<or>
         ap_MaxToolRounds p \<le> 0 \<or> ap_MaxToolRounds p > 10000 then Some (AutInvalid ''invalid profile'')
      else if ap_DreamingEnabled p \<and> ap_DreamingTime p = [] then Some (AutInvalid ''dreaming time is required'')
      else if ap_DreamingTime p \<noteq> [] \<and> \<not> clock_ok (ap_DreamingTime p) then Some (AutInvalid ''invalid dreaming time'')
      else if trim_space (ap_Timezone p) = [] then Some (AutInvalid ''timezone is required'')
      else if \<not> ae_zone env (ap_Timezone p) then Some (AutInvalid ''invalid timezone'')
      else None)"

definition validateTodo :: "todo \<Rightarrow> aut_error option" where
  "validateTodo t =
     (if todo_AgentID t = [] \<or> todo_ID t = [] \<or> todo_Text t = [] \<or> todo_Revision t \<le> 0 then Some (AutInvalid ''invalid todo'')
      else if todo_Status t \<in> set [''pending'', ''in_progress'', ''completed''] then None
      else Some (AutInvalid ''invalid todo status''))"

definition dreamingKey :: "string \<Rightarrow> string \<Rightarrow> string" where
  "dreamingKey agentID localDate = trim_space agentID @ [CHR 0x00] @ trim_space localDate"

definition validateDreamingInput :: "dreaming_input \<Rightarrow> aut_error option" where
  "validateDreamingInput i =
     (if trim_space (di_AgentID i) = [] \<or> trim_space (di_LocalDate i) = [] \<or> trim_space (di_CommitID i) = [] \<or>
         trim_space (di_SessionID i) = [] \<or> trim_space (di_Boundary i) = [] \<or> di_ExpectedRevision i < 0 \<or> di_Now i = 0
      then Some (AutInvalid ''invalid dreaming commit'')
      else if \<not> date_ok (trim_space (di_LocalDate i)) then Some (AutInvalid ''invalid local date'')
      else None)"

section \<open>Opening\<close>

definition initMaps :: "raw_disk \<Rightarrow> aut_disk" where
  "initMaps r =
     \<lparr>dk_Profiles = (case rk_Profiles r of None \<Rightarrow> [] | Some m \<Rightarrow> m), dk_Experiences = (case rk_Experiences r of None \<Rightarrow> [] | Some m \<Rightarrow> m),
      dk_Dreaming = (case rk_Dreaming r of None \<Rightarrow> [] | Some m \<Rightarrow> m), dk_Todos = (case rk_Todos r of None \<Rightarrow> [] | Some m \<Rightarrow> m)\<rparr>"

definition raw_of :: "aut_disk \<Rightarrow> raw_disk" where
  "raw_of d = \<lparr>rk_Profiles = Some (dk_Profiles d), rk_Experiences = Some (dk_Experiences d),
     rk_Dreaming = Some (dk_Dreaming d), rk_Todos = Some (dk_Todos d)\<rparr>"

definition profile_check :: "aut_env \<Rightarrow> string \<times> aut_profile \<Rightarrow> aut_error option" where
  "profile_check env kp =
     (case kp of (k, p) \<Rightarrow>
        if k \<noteq> ap_AgentID p \<or> ap_Revision p \<le> 0 then Some (AutInvalid ''profile identity/revision mismatch'') else validateProfile env p)"

definition experience_check :: "string \<times> experience \<Rightarrow> aut_error option" where
  "experience_check ke =
     (case ke of (k, e) \<Rightarrow>
        if k \<noteq> xp_AgentID e \<or> xp_Revision e \<le> 0 \<or> xp_UpdatedAt e = 0 then Some (AutInvalid ''experience identity/revision mismatch'') else None)"

definition commit_check :: "string \<times> dreaming_commit \<Rightarrow> aut_error option" where
  "commit_check kc =
     (case kc of (k, c) \<Rightarrow>
        if k \<noteq> dreamingKey (dc_AgentID c) (dc_LocalDate c) \<or> dc_CommitID c = [] \<or> length (dc_ContentDigest c) \<noteq> 64 \<or>
           dc_SessionID c = [] \<or> dc_Boundary c = [] \<or> dc_UpdatedAt c = 0 then Some (AutInvalid ''dreaming commit identity invalid'')
        else if \<not> list_all hex_char (dc_ContentDigest c) then Some (AutInvalid ''dreaming commit digest invalid'')
        else if \<not> date_ok (dc_LocalDate c) \<or> dc_ExperienceRevision c \<le> 0 then Some (AutInvalid ''dreaming commit metadata invalid'')
        else None)"

text \<open>The first error of a loop over a map.\<close>

fun first_error :: "('a \<Rightarrow> aut_error option) \<Rightarrow> 'a list \<Rightarrow> aut_error option" where
  "first_error f [] = None"
| "first_error f (x # xs) = (case f x of Some e \<Rightarrow> Some e | None \<Rightarrow> first_error f xs)"

definition aut_Open :: "aut_env \<Rightarrow> aut_file \<Rightarrow> aut_error + aut_store" where
  "aut_Open env file =
     (case file of
        NoFile \<Rightarrow> Inr \<lparr>as_data = empty_disk, as_file = NoFile\<rparr>
      | ReadError \<Rightarrow> Inl AutPersist
      | BadJson \<Rightarrow> Inl AutPersist
      | FileData raw \<Rightarrow>
          let d = initMaps raw
          in case first_error (profile_check env) (dk_Profiles d) of Some e \<Rightarrow> Inl e | None \<Rightarrow>
             (case first_error experience_check (dk_Experiences d) of Some e \<Rightarrow> Inl e | None \<Rightarrow>
             (case first_error (validateTodo \<circ> snd) (dk_Todos d) of Some e \<Rightarrow> Inl e | None \<Rightarrow>
             (case first_error commit_check (dk_Dreaming d) of Some e \<Rightarrow> Inl e | None \<Rightarrow>
                Inr \<lparr>as_data = d, as_file = file\<rparr>))))"

section \<open>Writing\<close>

text \<open>
  How a write ends: the data cannot be encoded, the file cannot be written or renamed, or the new file is in place. An undone write puts the
  JSON copy of the old data back.
\<close>

datatype save_outcome = MarshalFails | WriteFails | Saved

definition persistLocked :: "aut_env \<Rightarrow> save_outcome \<Rightarrow> (aut_disk \<Rightarrow> aut_disk) \<Rightarrow> aut_store \<Rightarrow> aut_error option \<times> aut_store" where
  "persistLocked env io change s =
     (case io of
        MarshalFails \<Rightarrow> (Some AutPersist, s)
      | WriteFails \<Rightarrow>
          (Some AutPersist,
           case ae_recode env (as_data s) of
             Some old \<Rightarrow> s\<lparr>as_data := initMaps old\<rparr>
           | None \<Rightarrow> s\<lparr>as_data := change (as_data s)\<rparr>)
      | Saved \<Rightarrow> (None, s\<lparr>as_data := change (as_data s), as_file := FileData (raw_of (change (as_data s)))\<rparr>))"

section \<open>Operations\<close>

definition trim_input :: "dreaming_input \<Rightarrow> dreaming_input" where
  "trim_input i = i\<lparr>di_AgentID := trim_space (di_AgentID i), di_LocalDate := trim_space (di_LocalDate i), di_CommitID := trim_space (di_CommitID i),
     di_SessionID := trim_space (di_SessionID i), di_Boundary := trim_space (di_Boundary i), di_Content := trim_space (di_Content i)\<rparr>"

definition CommitDreaming ::
  "aut_env \<Rightarrow> save_outcome \<Rightarrow> dreaming_input \<Rightarrow> aut_store \<Rightarrow> (aut_error + dreaming_commit) \<times> aut_store" where
  "CommitDreaming env io i0 s =
     (let i = trim_input i0
      in case validateDreamingInput i of
           Some e \<Rightarrow> (Inl e, s)
         | None \<Rightarrow>
             let key = dreamingKey (di_AgentID i) (di_LocalDate i)
             in case map_of (dk_Dreaming (as_data s)) key of
                  Some old \<Rightarrow>
                    if dc_CommitID old = di_CommitID i \<and> dc_SessionID old = di_SessionID i \<and> dc_Boundary old = di_Boundary i \<and>
                       dc_ContentDigest old = ae_digest env (di_Content i) then (Inr old, s)
                    else (Inl AutConflict, s)
                | None \<Rightarrow>
                    if \<exists>(k, c)\<in>set (dk_Dreaming (as_data s)). dc_AgentID c = di_AgentID i \<and> \<not> dc_ResetApplied c then (Inl AutConflict, s)
                    else
                      let oldExp = (case map_of (dk_Experiences (as_data s)) (di_AgentID i) of None \<Rightarrow> zero_experience | Some e \<Rightarrow> e)
                      in if xp_Revision oldExp \<noteq> di_ExpectedRevision i then (Inl AutConflict, s)
                         else
                           let e = \<lparr>xp_AgentID = di_AgentID i, xp_Revision = xp_Revision oldExp + 1, xp_Content = di_Content i, xp_UpdatedAt = di_Now i\<rparr>;
                               c = \<lparr>dc_AgentID = di_AgentID i, dc_LocalDate = di_LocalDate i, dc_CommitID = di_CommitID i, dc_SessionID = di_SessionID i,
                                    dc_Boundary = di_Boundary i, dc_ExperienceRevision = xp_Revision e, dc_ContentDigest = ae_digest env (di_Content i),
                                    dc_ResetApplied = False, dc_UpdatedAt = di_Now i\<rparr>
                           in (case persistLocked env io (\<lambda>d. d\<lparr>dk_Experiences := AList.update (di_AgentID i) e (dk_Experiences d),
                                                                  dk_Dreaming := AList.update key c (dk_Dreaming d)\<rparr>) s of
                                 (Some err, s') \<Rightarrow> (Inl err, s')
                               | (None, s') \<Rightarrow> (Inr c, s')))"

definition GetDreamingCommit :: "string \<Rightarrow> string \<Rightarrow> aut_store \<Rightarrow> dreaming_commit option" where
  "GetDreamingCommit agentID localDate s = map_of (dk_Dreaming (as_data s)) (dreamingKey agentID localDate)"

definition newer_commit :: "dreaming_commit \<Rightarrow> dreaming_commit \<Rightarrow> bool" where
  "newer_commit c latest \<longleftrightarrow>
     dc_UpdatedAt c > dc_UpdatedAt latest \<or> dc_UpdatedAt c = dc_UpdatedAt latest \<and> dc_LocalDate c > dc_LocalDate latest"

definition LatestDreamingCommit :: "string \<Rightarrow> aut_store \<Rightarrow> dreaming_commit option" where
  "LatestDreamingCommit agentID s =
     fold (\<lambda>(k, c) latest.
        if dc_AgentID c \<noteq> trim_space agentID \<or> \<not> dc_ResetApplied c then latest
        else case latest of None \<Rightarrow> Some c | Some l \<Rightarrow> if newer_commit c l then Some c else Some l)
       (dk_Dreaming (as_data s)) None"

definition ListPendingDreamingCommits :: "string \<Rightarrow> aut_store \<Rightarrow> dreaming_commit list" where
  "ListPendingDreamingCommits agentID s =
     sort_key dc_LocalDate (filter (\<lambda>c. dc_AgentID c = trim_space agentID \<and> \<not> dc_ResetApplied c) (map snd (dk_Dreaming (as_data s))))"

definition MarkDreamingResetApplied ::
  "aut_env \<Rightarrow> save_outcome \<Rightarrow> string \<Rightarrow> string \<Rightarrow> string \<Rightarrow> gotime \<Rightarrow> aut_store \<Rightarrow> (aut_error + dreaming_commit) \<times> aut_store" where
  "MarkDreamingResetApplied env io agentID localDate commitID now s =
     (let key = dreamingKey agentID localDate
      in case map_of (dk_Dreaming (as_data s)) key of
           None \<Rightarrow> (Inl AutNotFound, s)
         | Some c \<Rightarrow>
             if dc_CommitID c \<noteq> trim_space commitID then (Inl AutConflict, s)
             else if dc_ResetApplied c then (Inr c, s)
             else
               let c' = c\<lparr>dc_ResetApplied := True, dc_UpdatedAt := now\<rparr>
               in (case persistLocked env io (\<lambda>d. d\<lparr>dk_Dreaming := AList.update key c' (dk_Dreaming d)\<rparr>) s of
                     (Some err, s') \<Rightarrow> (Inl err, s')
                   | (None, s') \<Rightarrow> (Inr c', s')))"

definition PutProfile :: "aut_env \<Rightarrow> save_outcome \<Rightarrow> aut_profile \<Rightarrow> int \<Rightarrow> aut_store \<Rightarrow> aut_error option \<times> aut_store" where
  "PutProfile env io p0 expectedRevision s =
     (let p = p0\<lparr>ap_AgentID := trim_space (ap_AgentID p0)\<rparr>
      in case validateProfile env p of
           Some e \<Rightarrow> (Some e, s)
         | None \<Rightarrow>
             let old = map_of (dk_Profiles (as_data s)) (ap_AgentID p);
                 rev = (case old of None \<Rightarrow> 0 | Some o' \<Rightarrow> ap_Revision o')
             in if old \<noteq> None \<and> rev \<noteq> expectedRevision then (Some AutConflict, s)
                else if old = None \<and> expectedRevision \<noteq> 0 then (Some AutConflict, s)
                else persistLocked env io
                       (\<lambda>d. d\<lparr>dk_Profiles := AList.update (ap_AgentID p) (p\<lparr>ap_Revision := rev + 1\<rparr>) (dk_Profiles d)\<rparr>) s)"

definition GetProfile :: "string \<Rightarrow> aut_store \<Rightarrow> aut_profile option" where
  "GetProfile agentID s = map_of (dk_Profiles (as_data s)) (trim_space agentID)"

definition GetExperience :: "string \<Rightarrow> aut_store \<Rightarrow> experience option" where
  "GetExperience agentID s = map_of (dk_Experiences (as_data s)) (trim_space agentID)"

definition SubmitDreamingExperience ::
  "aut_env \<Rightarrow> save_outcome \<Rightarrow> string \<Rightarrow> int \<Rightarrow> string \<Rightarrow> gotime \<Rightarrow> aut_store \<Rightarrow> (aut_error + experience) \<times> aut_store" where
  "SubmitDreamingExperience env io agentID0 expectedRevision content0 now s =
     (let agentID = trim_space agentID0; content = trim_space content0
      in if agentID = [] \<or> expectedRevision < 0 \<or> now = 0 then (Inl (AutInvalid ''invalid experience''), s)
         else
           let old = map_of (dk_Experiences (as_data s)) agentID;
               rev = (case old of None \<Rightarrow> 0 | Some o' \<Rightarrow> xp_Revision o')
           in if old \<noteq> None \<and> rev \<noteq> expectedRevision then (Inl AutConflict, s)
              else if old = None \<and> expectedRevision \<noteq> 0 then (Inl AutConflict, s)
              else
                let e = \<lparr>xp_AgentID = agentID, xp_Revision = rev + 1, xp_Content = content, xp_UpdatedAt = now\<rparr>
                in (case persistLocked env io (\<lambda>d. d\<lparr>dk_Experiences := AList.update agentID e (dk_Experiences d)\<rparr>) s of
                      (Some err, s') \<Rightarrow> (Inl err, s')
                    | (None, s') \<Rightarrow> (Inr e, s')))"

text \<open>\<^verbatim>\<open>newID\<close> encodes 16 random bytes.\<close>

definition newID :: "nat list \<Rightarrow> string" where
  "newID bytes = concat (map (\<lambda>b. [hex_digit ((b mod 256) div 16), hex_digit (b mod 16)]) (take 16 (bytes @ replicate 16 0)))"

definition CreateTodo :: "aut_env \<Rightarrow> save_outcome \<Rightarrow> nat list option \<Rightarrow> string \<Rightarrow> string \<Rightarrow> aut_store \<Rightarrow> (aut_error + todo) \<times> aut_store" where
  "CreateTodo env io random agentID0 text0 s =
     (let agentID = trim_space agentID0; txt = trim_space text0
      in if agentID = [] \<or> txt = [] then (Inl (AutInvalid ''invalid todo''), s)
         else case random of
           None \<Rightarrow> (Inl AutPersist, s)
         | Some bytes \<Rightarrow>
             let i = newID bytes;
                 t = \<lparr>todo_ID = i, todo_AgentID = agentID, todo_Text = txt, todo_Status = ''pending'', todo_Revision = 1\<rparr>
             in (case persistLocked env io (\<lambda>d. d\<lparr>dk_Todos := AList.update i t (dk_Todos d)\<rparr>) s of
                   (Some err, s') \<Rightarrow> (Inl err, s')
                 | (None, s') \<Rightarrow> (Inr t, s')))"

definition UpdateTodoCAS ::
  "aut_env \<Rightarrow> save_outcome \<Rightarrow> string \<Rightarrow> string \<Rightarrow> int \<Rightarrow> string \<Rightarrow> string \<Rightarrow> aut_store \<Rightarrow> (aut_error + todo) \<times> aut_store" where
  "UpdateTodoCAS env io agentID0 id0 expectedRevision text0 status0 s =
     (let agentID = trim_space agentID0; i = trim_space id0; txt = trim_space text0; status = trim_space status0
      in case map_of (dk_Todos (as_data s)) i of
           None \<Rightarrow> (Inl AutNotFound, s)
         | Some t \<Rightarrow>
             if todo_AgentID t \<noteq> agentID then (Inl AutNotFound, s)
             else if todo_Revision t \<noteq> expectedRevision then (Inl AutConflict, s)
             else
               let n = t\<lparr>todo_Text := (if txt \<noteq> [] then txt else todo_Text t), todo_Status := (if status \<noteq> [] then status else todo_Status t),
                         todo_Revision := todo_Revision t + 1\<rparr>
               in case validateTodo n of
                    Some e \<Rightarrow> (Inl e, s)
                  | None \<Rightarrow>
                      (case persistLocked env io (\<lambda>d. d\<lparr>dk_Todos := AList.update i n (dk_Todos d)\<rparr>) s of
                         (Some err, s') \<Rightarrow> (Inl err, s')
                       | (None, s') \<Rightarrow> (Inr n, s')))"

definition DeleteTodoCAS :: "aut_env \<Rightarrow> save_outcome \<Rightarrow> string \<Rightarrow> string \<Rightarrow> int \<Rightarrow> aut_store \<Rightarrow> aut_error option \<times> aut_store" where
  "DeleteTodoCAS env io agentID id0 expectedRevision s =
     (let i = trim_space id0
      in case map_of (dk_Todos (as_data s)) i of
           None \<Rightarrow> (Some AutNotFound, s)
         | Some t \<Rightarrow>
             if todo_AgentID t \<noteq> trim_space agentID then (Some AutNotFound, s)
             else if todo_Revision t \<noteq> expectedRevision then (Some AutConflict, s)
             else persistLocked env io (\<lambda>d. d\<lparr>dk_Todos := AList.delete i (dk_Todos d)\<rparr>) s)"

definition GetTodo :: "string \<Rightarrow> string \<Rightarrow> aut_store \<Rightarrow> todo option" where
  "GetTodo agentID i s =
     (case map_of (dk_Todos (as_data s)) (trim_space i) of
        None \<Rightarrow> None
      | Some t \<Rightarrow> if todo_AgentID t \<noteq> trim_space agentID then None else Some t)"

definition ListTodos :: "string \<Rightarrow> aut_store \<Rightarrow> todo list" where
  "ListTodos agentID s = sort_key todo_ID (filter (\<lambda>t. todo_AgentID t = trim_space agentID) (map snd (dk_Todos (as_data s))))"

section \<open>Runs\<close>

datatype aut_op =
    OpCommit dreaming_input
  | OpReset string string string gotime
  | OpProfile aut_profile int
  | OpExperience string int string gotime
  | OpCreate "nat list option" string string
  | OpUpdate string string int string string
  | OpDelete string string int
  | OpRestart

fun aut_step :: "aut_env \<Rightarrow> save_outcome \<times> aut_op \<Rightarrow> aut_store \<Rightarrow> aut_store" where
  "aut_step env (io, OpCommit i) s = snd (CommitDreaming env io i s)"
| "aut_step env (io, OpReset a d c now) s = snd (MarkDreamingResetApplied env io a d c now s)"
| "aut_step env (io, OpProfile p r) s = snd (PutProfile env io p r s)"
| "aut_step env (io, OpExperience a r c now) s = snd (SubmitDreamingExperience env io a r c now s)"
| "aut_step env (io, OpCreate rnd a t) s = snd (CreateTodo env io rnd a t s)"
| "aut_step env (io, OpUpdate a i r t st) s = snd (UpdateTodoCAS env io a i r t st s)"
| "aut_step env (io, OpDelete a i r) s = snd (DeleteTodoCAS env io a i r s)"
| "aut_step env (io, OpRestart) s = (case aut_Open env (as_file s) of Inl e \<Rightarrow> s | Inr s' \<Rightarrow> s')"

definition aut_run :: "aut_env \<Rightarrow> (save_outcome \<times> aut_op) list \<Rightarrow> aut_store" where
  "aut_run env ops = fold (aut_step env) ops \<lparr>as_data = empty_disk, as_file = NoFile\<rparr>"

text \<open>What the development relies on: the digest is 64 hexadecimal digits, and a JSON copy of the data is the data.\<close>

definition env_ok :: "aut_env \<Rightarrow> bool" where
  "env_ok env \<longleftrightarrow> (\<forall>s. length (ae_digest env s) = 64 \<and> list_all hex_char (ae_digest env s)) \<and> (\<forall>d. ae_recode env d = Some (raw_of d))"

definition clock_set :: "aut_op \<Rightarrow> bool" where
  "clock_set op \<longleftrightarrow> (case op of OpReset a d c now \<Rightarrow> now \<noteq> 0 | _ \<Rightarrow> True)"

section \<open>Invariant\<close>

definition dreaming_ok :: "(string, experience) gomap \<Rightarrow> (string, dreaming_commit) gomap \<Rightarrow> bool" where
  "dreaming_ok xs ds \<longleftrightarrow>
     (\<forall>(k, c)\<in>set ds. \<exists>e. map_of xs (dc_AgentID c) = Some e \<and> dc_ExperienceRevision c \<le> xp_Revision e) \<and>
     (\<forall>(k, c)\<in>set ds. \<forall>(k', c')\<in>set ds. dc_AgentID c = dc_AgentID c' \<longrightarrow>
        dc_ExperienceRevision c = dc_ExperienceRevision c' \<or> \<not> dc_ResetApplied c \<and> \<not> dc_ResetApplied c' \<longrightarrow> k = k')"

definition disk_ok :: "aut_env \<Rightarrow> aut_disk \<Rightarrow> bool" where
  "disk_ok env d \<longleftrightarrow>
     (\<forall>x\<in>set (dk_Profiles d). profile_check env x = None) \<and> (\<forall>x\<in>set (dk_Experiences d). experience_check x = None) \<and>
     (\<forall>x\<in>set (dk_Todos d). validateTodo (snd x) = None) \<and> (\<forall>x\<in>set (dk_Dreaming d). commit_check x = None) \<and>
     distinct (map fst (dk_Dreaming d)) \<and> dreaming_ok (dk_Experiences d) (dk_Dreaming d)"

definition stored_aut :: "aut_disk \<Rightarrow> aut_store" where
  "stored_aut d = \<lparr>as_data = d, as_file = FileData (raw_of d)\<rparr>"

definition aut_inv :: "aut_env \<Rightarrow> aut_store \<Rightarrow> bool" where
  "aut_inv env s \<longleftrightarrow> disk_ok env (as_data s) \<and> (s = stored_aut (as_data s) \<or> s = \<lparr>as_data = empty_disk, as_file = NoFile\<rparr>)"

lemma init_raw [simp]: "initMaps (raw_of d) = d"
  by (simp add: initMaps_def raw_of_def)

lemma first_error_None: "first_error f xs = None \<longleftrightarrow> (\<forall>x\<in>set xs. f x = None)"
  by (induction xs) (auto split: option.split)

lemma reopen:
  assumes "aut_inv env s"
  shows "aut_Open env (as_file s) = Inr s"
proof (cases "as_file s = NoFile")
  case True
  then have "s = \<lparr>as_data = empty_disk, as_file = NoFile\<rparr>" using assms unfolding aut_inv_def stored_aut_def by (metis aut_file.distinct(5) aut_store.select_convs(2))
  then show ?thesis by (simp add: aut_Open_def)
next
  case False
  then have s: "s = stored_aut (as_data s)" using assms unfolding aut_inv_def by (metis aut_store.select_convs(2))
  have "first_error (profile_check env) (dk_Profiles (as_data s)) = None" "first_error experience_check (dk_Experiences (as_data s)) = None"
    "first_error (validateTodo \<circ> snd) (dk_Todos (as_data s)) = None" "first_error commit_check (dk_Dreaming (as_data s)) = None"
    using assms by (simp_all add: aut_inv_def disk_ok_def first_error_None)
  then have "aut_Open env (FileData (raw_of (as_data s))) = Inr (stored_aut (as_data s))" by (simp add: aut_Open_def Let_def stored_aut_def)
  then show ?thesis using s by (metis aut_store.select_convs(2) stored_aut_def)
qed

text \<open>A write leaves the store alone or saves the changed data.\<close>

lemma persist_cases:
  assumes "env_ok env" "persistLocked env io change s = (r, s')"
  shows "r \<noteq> None \<and> s' = s \<or> r = None \<and> s' = stored_aut (change (as_data s))"
  using assms by (cases s) (auto simp: persistLocked_def env_ok_def stored_aut_def split: save_outcome.splits)

lemma update_all: "\<forall>x\<in>set m. P x \<Longrightarrow> P (k, v) \<Longrightarrow> \<forall>x\<in>set (AList.update k v m). P x"
  using set_update_subset[of k v m] by blast

lemma delete_all: "\<forall>x\<in>set m. P x \<Longrightarrow> \<forall>x\<in>set (AList.delete k m). P x"
  by (auto simp: AList.delete_eq)

lemma profiles_ok:
  assumes "disk_ok env d" "profile_check env (k, p) = None"
  shows "disk_ok env (d\<lparr>dk_Profiles := AList.update k p (dk_Profiles d)\<rparr>)"
proof -
  have "\<forall>x\<in>set (AList.update k p (dk_Profiles d)). profile_check env x = None"
    by (rule update_all) (use assms in \<open>simp_all add: disk_ok_def\<close>)
  then show ?thesis using assms(1) by (simp add: disk_ok_def)
qed

lemma todos_ok:
  assumes "disk_ok env d"
  shows "validateTodo t = None \<Longrightarrow> disk_ok env (d\<lparr>dk_Todos := AList.update k t (dk_Todos d)\<rparr>)"
    "disk_ok env (d\<lparr>dk_Todos := AList.delete k (dk_Todos d)\<rparr>)"
proof -
  have t: "\<forall>x\<in>set (dk_Todos d). validateTodo (snd x) = None" using assms by (simp add: disk_ok_def)
  have "\<forall>x\<in>set (AList.update k t (dk_Todos d)). validateTodo (snd x) = None" if "validateTodo t = None"
    by (rule update_all[OF t]) (simp add: that)
  then show "validateTodo t = None \<Longrightarrow> disk_ok env (d\<lparr>dk_Todos := AList.update k t (dk_Todos d)\<rparr>)" using assms by (simp add: disk_ok_def)
  have "\<forall>x\<in>set (AList.delete k (dk_Todos d)). validateTodo (snd x) = None" by (rule delete_all[OF t])
  then show "disk_ok env (d\<lparr>dk_Todos := AList.delete k (dk_Todos d)\<rparr>)" using assms by (simp add: disk_ok_def)
qed

lemma commit_known:
  "dreaming_ok xs ds \<Longrightarrow> (k, c) \<in> set ds \<Longrightarrow> \<exists>e. map_of xs (dc_AgentID c) = Some e \<and> dc_ExperienceRevision c \<le> xp_Revision e"
  unfolding dreaming_ok_def by fast

lemma commits_apart:
  "dreaming_ok xs ds \<Longrightarrow> (k, c) \<in> set ds \<Longrightarrow> (k', c') \<in> set ds \<Longrightarrow> dc_AgentID c = dc_AgentID c' \<Longrightarrow>
   dc_ExperienceRevision c = dc_ExperienceRevision c' \<or> \<not> dc_ResetApplied c \<and> \<not> dc_ResetApplied c' \<Longrightarrow> k = k'"
  unfolding dreaming_ok_def by fast

lemma dreaming_okI:
  assumes "\<And>k c. (k, c) \<in> set ds \<Longrightarrow> \<exists>e. map_of xs (dc_AgentID c) = Some e \<and> dc_ExperienceRevision c \<le> xp_Revision e"
    and "\<And>k c k' c'. (k, c) \<in> set ds \<Longrightarrow> (k', c') \<in> set ds \<Longrightarrow> dc_AgentID c = dc_AgentID c' \<Longrightarrow>
      dc_ExperienceRevision c = dc_ExperienceRevision c' \<or> \<not> dc_ResetApplied c \<and> \<not> dc_ResetApplied c' \<Longrightarrow> k = k'"
  shows "dreaming_ok xs ds"
  unfolding dreaming_ok_def using assms by blast

lemma dreaming_less:
  assumes ok: "dreaming_ok xs ds"
    and from_old: "\<And>k w. (k, w) \<in> set ds' \<Longrightarrow> \<exists>w0. (k, w0) \<in> set ds \<and> dc_AgentID w = dc_AgentID w0 \<and>
      dc_ExperienceRevision w = dc_ExperienceRevision w0 \<and> (\<not> dc_ResetApplied w \<longrightarrow> \<not> dc_ResetApplied w0)"
  shows "dreaming_ok xs ds'"
proof (rule dreaming_okI)
  fix k c
  assume "(k, c) \<in> set ds'"
  then show "\<exists>e. map_of xs (dc_AgentID c) = Some e \<and> dc_ExperienceRevision c \<le> xp_Revision e"
    using from_old commit_known[OF ok] by metis
next
  fix k c k' c'
  assume a: "(k, c) \<in> set ds'" "(k', c') \<in> set ds'" "dc_AgentID c = dc_AgentID c'"
    "dc_ExperienceRevision c = dc_ExperienceRevision c' \<or> \<not> dc_ResetApplied c \<and> \<not> dc_ResetApplied c'"
  obtain w w' where "(k, w) \<in> set ds" "dc_AgentID c = dc_AgentID w" "dc_ExperienceRevision c = dc_ExperienceRevision w"
      "\<not> dc_ResetApplied c \<longrightarrow> \<not> dc_ResetApplied w" "(k', w') \<in> set ds" "dc_AgentID c' = dc_AgentID w'"
      "dc_ExperienceRevision c' = dc_ExperienceRevision w'" "\<not> dc_ResetApplied c' \<longrightarrow> \<not> dc_ResetApplied w'"
    using from_old[OF a(1)] from_old[OF a(2)] by blast
  then show "k = k'" using commits_apart[OF ok, of k w k' w'] a(3,4) by metis
qed

lemma newer_experience:
  assumes ok: "dreaming_ok xs ds" and newer: "\<forall>o'. map_of xs a = Some o' \<longrightarrow> xp_Revision o' \<le> xp_Revision e"
  shows "dreaming_ok (AList.update a e xs) ds"
proof -
  have "\<exists>e'. map_of (AList.update a e xs) (dc_AgentID c) = Some e' \<and> dc_ExperienceRevision c \<le> xp_Revision e'" if kc: "(k, c) \<in> set ds" for k c
  proof (cases "dc_AgentID c = a")
    case True
    obtain e' where "map_of xs a = Some e'" "dc_ExperienceRevision c \<le> xp_Revision e'" using commit_known[OF ok kc] True by blast
    then have "dc_ExperienceRevision c \<le> xp_Revision e" using newer by force
    then show ?thesis using True by (simp add: update_conv')
  next
    case False
    then show ?thesis using commit_known[OF ok kc] by (simp add: update_conv')
  qed
  then show ?thesis using ok unfolding dreaming_ok_def by blast
qed

lemma experiences_ok:
  assumes "disk_ok env d" "experience_check (a, e) = None" "\<forall>o'. map_of (dk_Experiences d) a = Some o' \<longrightarrow> xp_Revision o' \<le> xp_Revision e"
  shows "disk_ok env (d\<lparr>dk_Experiences := AList.update a e (dk_Experiences d)\<rparr>)"
proof -
  have "\<forall>x\<in>set (AList.update a e (dk_Experiences d)). experience_check x = None"
    by (rule update_all) (use assms(1,2) in \<open>simp_all add: disk_ok_def\<close>)
  moreover have "dreaming_ok (AList.update a e (dk_Experiences d)) (dk_Dreaming d)"
    by (rule newer_experience[OF _ assms(3)]) (use assms(1) in \<open>simp add: disk_ok_def\<close>)
  ultimately show ?thesis using assms(1) by (simp add: disk_ok_def)
qed

lemma reset_ok:
  assumes ok: "disk_ok env d" and c: "map_of (dk_Dreaming d) key = Some c" and now: "now \<noteq> 0"
  shows "disk_ok env (d\<lparr>dk_Dreaming := AList.update key (c\<lparr>dc_ResetApplied := True, dc_UpdatedAt := now\<rparr>) (dk_Dreaming d)\<rparr>)"
proof -
  let ?c = "c\<lparr>dc_ResetApplied := True, dc_UpdatedAt := now\<rparr>" and ?ds = "dk_Dreaming d"
  have dist: "distinct (map fst ?ds)" using ok by (simp add: disk_ok_def)
  have mem: "(key, c) \<in> set ?ds" using c by (rule map_of_SomeD)
  have "commit_check (key, c) = None" using ok mem unfolding disk_ok_def by blast
  then have "commit_check (key, ?c) = None" using now by (simp add: commit_check_def split: if_splits)
  then have "\<forall>x\<in>set (AList.update key ?c ?ds). commit_check x = None"
    by (intro update_all) (use ok in \<open>simp_all add: disk_ok_def\<close>)
  moreover have sets: "set (AList.update key ?c ?ds) = insert (key, ?c) {(k, w) \<in> set ?ds. k \<noteq> key}" by (rule set_update_distinct[OF dist])
  have "dreaming_ok (dk_Experiences d) (AList.update key ?c ?ds)"
  proof (rule dreaming_less)
    show "dreaming_ok (dk_Experiences d) ?ds" using ok by (simp add: disk_ok_def)
    show "\<exists>w0. (k, w0) \<in> set ?ds \<and> dc_AgentID w = dc_AgentID w0 \<and> dc_ExperienceRevision w = dc_ExperienceRevision w0 \<and>
        (\<not> dc_ResetApplied w \<longrightarrow> \<not> dc_ResetApplied w0)" if "(k, w) \<in> set (AList.update key ?c ?ds)" for k w
    proof (cases "k = key")
      case True
      then have "w = ?c" using that sets by auto
      then show ?thesis using True mem by (intro exI[of _ c]) simp
    next
      case False
      then show ?thesis using that sets by (intro exI[of _ w]) auto
    qed
  qed
  ultimately show ?thesis using ok by (simp add: disk_ok_def distinct_update)
qed

lemma commit_ok:
  assumes ok: "disk_ok env d" and new: "map_of (dk_Dreaming d) key = None"
    and idle: "\<not> (\<exists>(k, c)\<in>set (dk_Dreaming d). dc_AgentID c = dc_AgentID c0 \<and> \<not> dc_ResetApplied c)"
    and rev: "\<forall>o'. map_of (dk_Experiences d) (dc_AgentID c0) = Some o' \<longrightarrow> xp_Revision o' < xp_Revision e"
    and checks: "commit_check (key, c0) = None" "experience_check (dc_AgentID c0, e) = None"
    and rc: "dc_ExperienceRevision c0 = xp_Revision e"
  shows "disk_ok env (d\<lparr>dk_Experiences := AList.update (dc_AgentID c0) e (dk_Experiences d), dk_Dreaming := AList.update key c0 (dk_Dreaming d)\<rparr>)"
proof -
  let ?xs = "AList.update (dc_AgentID c0) e (dk_Experiences d)" and ?ds = "dk_Dreaming d"
  have e_ok: "disk_ok env (d\<lparr>dk_Experiences := ?xs\<rparr>)"
    by (rule experiences_ok[OF ok checks(2)]) (use rev in fastforce)
  then have dk: "dreaming_ok ?xs ?ds" by (simp add: disk_ok_def)
  have lower: "dc_ExperienceRevision c < xp_Revision e" if kc: "(k, c) \<in> set ?ds" "dc_AgentID c = dc_AgentID c0" for k c
  proof -
    have "dreaming_ok (dk_Experiences d) ?ds" using ok by (simp add: disk_ok_def)
    from commit_known[OF this kc(1)] show ?thesis using rev kc(2) by fastforce
  qed
  have "key \<notin> fst ` set ?ds" using new by (simp add: map_of_eq_None_iff)
  then have app: "AList.update key c0 ?ds = ?ds @ [(key, c0)]" by (rule update_new)
  have known: "\<exists>x. map_of ?xs (dc_AgentID c) = Some x \<and> dc_ExperienceRevision c \<le> xp_Revision x" if kc: "(k, c) \<in> set (?ds @ [(key, c0)])" for k c
  proof (cases "(k, c) \<in> set ?ds")
    case True
    then show ?thesis by (rule commit_known[OF dk])
  next
    case False
    then have "c = c0" using kc by simp
    then show ?thesis using rc by (simp add: update_conv')
  qed
  have apart: "k = k'" if a: "(k, c) \<in> set (?ds @ [(key, c0)])" "(k', c') \<in> set (?ds @ [(key, c0)])" "dc_AgentID c = dc_AgentID c'"
    "dc_ExperienceRevision c = dc_ExperienceRevision c' \<or> \<not> dc_ResetApplied c \<and> \<not> dc_ResetApplied c'" for k c k' c'
  proof -
    consider "(k, c) \<in> set ?ds" "(k', c') \<in> set ?ds" | "(k, c) = (key, c0)" "(k', c') = (key, c0)"
      | "(k, c) = (key, c0)" "(k', c') \<in> set ?ds" | "(k, c) \<in> set ?ds" "(k', c') = (key, c0)" using a by auto
    then show ?thesis
    proof cases
      case 1
      then show ?thesis using commits_apart[OF dk] a(3,4) by blast
    next
      case 3
      then have "dc_ExperienceRevision c' < dc_ExperienceRevision c" "dc_ResetApplied c'" using lower[of k' c'] a(3) rc idle by auto
      then show ?thesis using a(4) by simp
    next
      case 4
      then have "dc_ExperienceRevision c < dc_ExperienceRevision c'" "dc_ResetApplied c" using lower[of k c] a(3) rc idle by auto
      then show ?thesis using a(4) by simp
    qed simp
  qed
  have "dreaming_ok ?xs (?ds @ [(key, c0)])" using known apart by (rule dreaming_okI)
  then show ?thesis using e_ok checks(1) \<open>key \<notin> fst ` set ?ds\<close> by (auto simp: disk_ok_def app)
qed

section \<open>Every operation keeps the invariant\<close>

lemma stored_aut_inv: "disk_ok env d \<Longrightarrow> aut_inv env (stored_aut d)"
  by (simp add: aut_inv_def stored_aut_def)

lemma write_inv:
  assumes "env_ok env" "aut_inv env s" "disk_ok env (change (as_data s))"
  shows "aut_inv env (snd (persistLocked env io change s))"
  using persist_cases[OF assms(1), of io change s] assms(2,3) stored_aut_inv by (cases "persistLocked env io change s") auto

lemma checked:
  assumes "aut_inv env s"
  shows "map_of (dk_Profiles (as_data s)) k = Some p \<Longrightarrow> profile_check env (k, p) = None"
    "map_of (dk_Experiences (as_data s)) k = Some e \<Longrightarrow> experience_check (k, e) = None"
    "map_of (dk_Todos (as_data s)) k = Some t \<Longrightarrow> validateTodo t = None"
  using assms map_of_SomeD unfolding aut_inv_def disk_ok_def by (metis snd_conv)+

lemma stored_revisions:
  assumes "aut_inv env s"
  shows "map_of (dk_Profiles (as_data s)) k = Some p \<Longrightarrow> 0 < ap_Revision p" "map_of (dk_Experiences (as_data s)) k = Some e \<Longrightarrow> 0 < xp_Revision e"
proof -
  assume "map_of (dk_Profiles (as_data s)) k = Some p"
  from checked(1)[OF assms this] show "0 < ap_Revision p" by (simp add: profile_check_def split: if_splits)
next
  assume "map_of (dk_Experiences (as_data s)) k = Some e"
  from checked(2)[OF assms this] show "0 < xp_Revision e" by (simp add: experience_check_def split: if_splits)
qed

lemma PutProfile_inv:
  assumes env: "env_ok env" and inv: "aut_inv env s"
  shows "aut_inv env (snd (PutProfile env io p0 r s))"
proof -
  define p where "p = p0\<lparr>ap_AgentID := trim_space (ap_AgentID p0)\<rparr>"
  define rev where "rev = (case map_of (dk_Profiles (as_data s)) (ap_AgentID p) of None \<Rightarrow> 0 | Some o' \<Rightarrow> ap_Revision o')"
  have "0 \<le> rev" using stored_revisions(1)[OF inv] by (auto simp: rev_def less_imp_le split: option.split)
  moreover have "validateProfile env (p\<lparr>ap_Revision := rev + 1\<rparr>) = validateProfile env p" by (simp add: validateProfile_def)
  ultimately have "validateProfile env p = None \<Longrightarrow> profile_check env (ap_AgentID p, p\<lparr>ap_Revision := rev + 1\<rparr>) = None"
    by (simp add: profile_check_def)
  then have "validateProfile env p = None \<Longrightarrow> aut_inv env (snd (persistLocked env io
      (\<lambda>d. d\<lparr>dk_Profiles := AList.update (ap_AgentID p) (p\<lparr>ap_Revision := rev + 1\<rparr>) (dk_Profiles d)\<rparr>) s))"
    using profiles_ok inv by (intro write_inv[OF env inv]) (simp add: aut_inv_def)
  then show ?thesis using inv unfolding PutProfile_def Let_def p_def[symmetric] rev_def[symmetric] by (auto split: option.split)
qed

lemma write_result:
  assumes "aut_inv env (snd w)"
  shows "aut_inv env (snd (case w of (Some err, s') \<Rightarrow> (Inl err, s') | (None, s') \<Rightarrow> (Inr v, s')))"
  using assms by (cases w) (auto split: option.split)

lemma SubmitDreamingExperience_inv:
  assumes env: "env_ok env" and inv: "aut_inv env s"
  shows "aut_inv env (snd (SubmitDreamingExperience env io a r c now s))"
proof -
  define rev where "rev = (case map_of (dk_Experiences (as_data s)) (trim_space a) of None \<Rightarrow> 0 | Some o' \<Rightarrow> xp_Revision o')"
  define e where "e = \<lparr>xp_AgentID = trim_space a, xp_Revision = rev + 1, xp_Content = trim_space c, xp_UpdatedAt = now\<rparr>"
  have "0 \<le> rev" using stored_revisions(2)[OF inv] by (auto simp: rev_def less_imp_le split: option.split)
  then have chk: "now \<noteq> 0 \<Longrightarrow> experience_check (trim_space a, e) = None" by (simp add: experience_check_def e_def)
  have le: "\<forall>o'. map_of (dk_Experiences (as_data s)) (trim_space a) = Some o' \<longrightarrow> xp_Revision o' \<le> xp_Revision e"
    by (simp add: e_def rev_def)
  have "now \<noteq> 0 \<Longrightarrow> aut_inv env (snd (persistLocked env io (\<lambda>d. d\<lparr>dk_Experiences := AList.update (trim_space a) e (dk_Experiences d)\<rparr>) s))"
    using experiences_ok[OF _ chk le] inv by (intro write_inv[OF env inv]) (simp add: aut_inv_def)
  from write_result[OF this, of e] show ?thesis
    using inv unfolding SubmitDreamingExperience_def Let_def rev_def[symmetric] e_def[symmetric] by auto
qed

lemma newID_nonempty: "newID bytes \<noteq> []"
proof -
  obtain b bs where "take 16 (bytes @ replicate 16 0) = b # bs" by (cases "take 16 (bytes @ replicate 16 0)") (auto simp: numeral_eq_Suc)
  then show ?thesis by (simp add: newID_def)
qed

lemma CreateTodo_inv:
  assumes env: "env_ok env" and inv: "aut_inv env s"
  shows "aut_inv env (snd (CreateTodo env io rnd a t s))"
proof -
  have "aut_inv env (snd (persistLocked env io (\<lambda>d. d\<lparr>dk_Todos := AList.update i x (dk_Todos d)\<rparr>) s))" if "validateTodo x = None" for i x
    using todos_ok(1)[OF _ that] inv by (intro write_inv[OF env inv]) (simp add: aut_inv_def)
  note w = write_result[OF this]
  have "validateTodo \<lparr>todo_ID = newID b, todo_AgentID = trim_space a, todo_Text = trim_space t, todo_Status = ''pending'', todo_Revision = 1\<rparr> = None"
    if "trim_space a \<noteq> []" "trim_space t \<noteq> []" for b using that newID_nonempty by (simp add: validateTodo_def)
  then show ?thesis using inv by (auto simp: CreateTodo_def Let_def intro!: w split: option.split)
qed

lemma UpdateTodo_inv:
  assumes env: "env_ok env" and inv: "aut_inv env s"
  shows "aut_inv env (snd (UpdateTodoCAS env io a i r t st s))" "aut_inv env (snd (DeleteTodoCAS env io a i r s))"
proof -
  have "aut_inv env (snd (persistLocked env io (\<lambda>d. d\<lparr>dk_Todos := AList.update i x (dk_Todos d)\<rparr>) s))" if "validateTodo x = None" for i x
    using todos_ok(1)[OF _ that] inv by (intro write_inv[OF env inv]) (simp add: aut_inv_def)
  from write_result[OF this] show "aut_inv env (snd (UpdateTodoCAS env io a i r t st s))"
    using inv by (auto simp: UpdateTodoCAS_def Let_def split: option.split)
  have "aut_inv env (snd (persistLocked env io (\<lambda>d. d\<lparr>dk_Todos := AList.delete i (dk_Todos d)\<rparr>) s))" for i
    using todos_ok(2) inv by (intro write_inv[OF env inv]) (simp add: aut_inv_def)
  then show "aut_inv env (snd (DeleteTodoCAS env io a i r s))" using inv by (auto simp: DeleteTodoCAS_def Let_def split: option.split)
qed

lemma Mark_inv:
  assumes env: "env_ok env" and inv: "aut_inv env s" and now: "now \<noteq> 0"
  shows "aut_inv env (snd (MarkDreamingResetApplied env io a d c now s))"
proof -
  have "aut_inv env (snd (persistLocked env io
      (\<lambda>d. d\<lparr>dk_Dreaming := AList.update key (x\<lparr>dc_ResetApplied := True, dc_UpdatedAt := now\<rparr>) (dk_Dreaming d)\<rparr>) s))"
    if "map_of (dk_Dreaming (as_data s)) key = Some x" for key x
    using reset_ok[OF _ that now] inv by (intro write_inv[OF env inv]) (simp add: aut_inv_def)
  from write_result[OF this] show ?thesis using inv by (auto simp: MarkDreamingResetApplied_def Let_def split: option.split)
qed

lemma CommitDreaming_inv:
  assumes env: "env_ok env" and inv: "aut_inv env s"
  shows "aut_inv env (snd (CommitDreaming env io i0 s))"
proof -
  define i where "i = trim_input i0"
  define key where "key = dreamingKey (di_AgentID i) (di_LocalDate i)"
  define old where "old = (case map_of (dk_Experiences (as_data s)) (di_AgentID i) of None \<Rightarrow> zero_experience | Some e \<Rightarrow> e)"
  define e where "e = \<lparr>xp_AgentID = di_AgentID i, xp_Revision = xp_Revision old + 1, xp_Content = di_Content i, xp_UpdatedAt = di_Now i\<rparr>"
  define c where "c = \<lparr>dc_AgentID = di_AgentID i, dc_LocalDate = di_LocalDate i, dc_CommitID = di_CommitID i, dc_SessionID = di_SessionID i,
      dc_Boundary = di_Boundary i, dc_ExperienceRevision = xp_Revision e, dc_ContentDigest = ae_digest env (di_Content i),
      dc_ResetApplied = False, dc_UpdatedAt = di_Now i\<rparr>"
  let ?w = "persistLocked env io (\<lambda>d. d\<lparr>dk_Experiences := AList.update (di_AgentID i) e (dk_Experiences d),
      dk_Dreaming := AList.update key c (dk_Dreaming d)\<rparr>) s"
  have "0 \<le> xp_Revision old" using stored_revisions(2)[OF inv] by (auto simp: old_def zero_experience_def less_imp_le split: option.split)
  then have pos: "0 < xp_Revision e" by (simp add: e_def)
  have wr: "aut_inv env (snd ?w)" if v: "validateDreamingInput i = None" and new: "map_of (dk_Dreaming (as_data s)) key = None"
    and idle: "\<not> (\<exists>(k, c)\<in>set (dk_Dreaming (as_data s)). dc_AgentID c = di_AgentID i \<and> \<not> dc_ResetApplied c)"
  proof -
    have t: "trim_space (di_LocalDate i) = di_LocalDate i" by (simp add: i_def trim_input_def)
    have "experience_check (dc_AgentID c, e) = None" using v pos by (simp add: experience_check_def c_def e_def validateDreamingInput_def split: if_splits)
    moreover have "commit_check (key, c) = None"
      using v pos env t by (auto simp: commit_check_def c_def key_def validateDreamingInput_def env_ok_def split: if_splits)
    moreover have "\<forall>o'. map_of (dk_Experiences (as_data s)) (dc_AgentID c) = Some o' \<longrightarrow> xp_Revision o' < xp_Revision e"
      by (simp add: c_def e_def old_def)
    moreover have "\<not> (\<exists>(k, c')\<in>set (dk_Dreaming (as_data s)). dc_AgentID c' = dc_AgentID c \<and> \<not> dc_ResetApplied c')"
      using idle by (simp add: c_def)
    moreover have "disk_ok env (as_data s)" using inv by (simp add: aut_inv_def)
    ultimately have "disk_ok env ((as_data s)\<lparr>dk_Experiences := AList.update (dc_AgentID c) e (dk_Experiences (as_data s)),
        dk_Dreaming := AList.update key c (dk_Dreaming (as_data s))\<rparr>)"
      using new by (intro commit_ok) (simp_all add: c_def)
    then show ?thesis by (intro write_inv[OF env inv]) (simp add: c_def)
  qed
  show ?thesis
  proof (cases "validateDreamingInput i = None \<and> map_of (dk_Dreaming (as_data s)) key = None \<and>
      \<not> (\<exists>(k, c)\<in>set (dk_Dreaming (as_data s)). dc_AgentID c = di_AgentID i \<and> \<not> dc_ResetApplied c)")
    case True
    then show ?thesis
      using inv write_result[OF wr, where v = c] unfolding CommitDreaming_def Let_def i_def[symmetric] key_def[symmetric] old_def[symmetric] e_def[symmetric] c_def[symmetric]
      by simp
  next
    case False
    then have "snd (CommitDreaming env io i0 s) = s"
      unfolding CommitDreaming_def Let_def i_def[symmetric] key_def[symmetric] by (auto split: option.split)
    then show ?thesis using inv by simp
  qed
qed

lemma aut_step_inv:
  assumes "env_ok env" "aut_inv env s" "clock_set op"
  shows "aut_inv env (aut_step env (io, op) s)"
  using assms reopen[OF assms(2)]
  by (cases op) (simp_all add: CommitDreaming_inv Mark_inv PutProfile_inv SubmitDreamingExperience_inv CreateTodo_inv UpdateTodo_inv clock_set_def)

lemma aut_run_inv:
  assumes "env_ok env" "\<forall>(io, op)\<in>set ops. clock_set op"
  shows "aut_inv env (aut_run env ops)"
  using assms(2)
proof (induction ops rule: rev_induct)
  case Nil
  then show ?case by (simp add: aut_run_def aut_inv_def disk_ok_def empty_disk_def dreaming_ok_def)
next
  case (snoc x ops)
  then show ?case using aut_step_inv[OF assms(1), of "aut_run env ops" "snd x" "fst x"] by (auto simp: aut_run_def)
qed

section \<open>What the invariant says of the commits\<close>

lemma commit_stored:
  assumes "aut_inv env s" "GetDreamingCommit a d s = Some c"
  shows "(dreamingKey a d, c) \<in> set (dk_Dreaming (as_data s))"
  using assms by (auto simp: GetDreamingCommit_def dest: map_of_SomeD)

lemma commit_experience:
  assumes "aut_inv env s" "GetDreamingCommit a d s = Some c"
  shows "\<exists>e. map_of (dk_Experiences (as_data s)) (dc_AgentID c) = Some e \<and> dc_ExperienceRevision c \<le> xp_Revision e"
proof -
  have "dreaming_ok (dk_Experiences (as_data s)) (dk_Dreaming (as_data s))" using assms(1) by (simp add: aut_inv_def disk_ok_def)
  then show ?thesis using commit_stored[OF assms] by (auto simp: dreaming_ok_def)
qed

lemma commits_same_key:
  assumes "aut_inv env s" "(k, c) \<in> set (dk_Dreaming (as_data s))" "(k', c') \<in> set (dk_Dreaming (as_data s))" "dc_AgentID c = dc_AgentID c'"
    "dc_ExperienceRevision c = dc_ExperienceRevision c' \<or> \<not> dc_ResetApplied c \<and> \<not> dc_ResetApplied c'"
  shows "k = k' \<and> c = c'"
proof -
  have ok: "dreaming_ok (dk_Experiences (as_data s)) (dk_Dreaming (as_data s))" and d: "distinct (map fst (dk_Dreaming (as_data s)))"
    using assms(1) by (simp_all add: aut_inv_def disk_ok_def)
  have "k = k'" using ok assms(2-) unfolding dreaming_ok_def by blast
  then show ?thesis using eq_key_imp_eq_value[OF d] assms(2,3) by blast
qed

lemma commit_revisions_differ:
  assumes "aut_inv env s" "GetDreamingCommit a1 d1 s = Some c1" "GetDreamingCommit a2 d2 s = Some c2"
    "dc_AgentID c1 = dc_AgentID c2" "dc_ExperienceRevision c1 = dc_ExperienceRevision c2"
  shows "c1 = c2"
  using commits_same_key[OF assms(1) commit_stored[OF assms(1,2)] commit_stored[OF assms(1,3)]] assms(4,5) by blast

lemma pending_single:
  assumes inv: "aut_inv env s"
  shows "length (ListPendingDreamingCommits a s) \<le> 1"
proof -
  define P where "P = (\<lambda>(k :: string, c :: dreaming_commit). dc_AgentID c = trim_space a \<and> \<not> dc_ResetApplied c)"
  let ?ds = "dk_Dreaming (as_data s)"
  have d: "distinct ?ds" using inv by (auto simp: aut_inv_def disk_ok_def distinct_map)
  have "(k, c) = (k', c')" if "(k, c) \<in> set (filter P ?ds)" "(k', c') \<in> set (filter P ?ds)" for k c k' c'
    using that commits_same_key[OF inv, of k c k' c'] by (simp add: P_def)
  then have "x = y" if "x \<in> set (filter P ?ds)" "y \<in> set (filter P ?ds)" for x y
    using that by (metis surj_pair)
  then have "card (set (filter P ?ds)) \<le> 1" by (auto simp: card_le_Suc0_iff_eq)
  then have "length (filter P ?ds) \<le> 1" using distinct_card[OF distinct_filter[OF d]] by metis
  moreover have "length (ListPendingDreamingCommits a s) = length (filter P ?ds)"
    by (simp add: ListPendingDreamingCommits_def filter_map P_def o_def case_prod_unfold)
  ultimately show ?thesis by simp
qed

text \<open>Repeating a commit that was stored changes nothing and gives the stored record, also when nothing can be written any more.\<close>

lemma commit_found:
  assumes "validateDreamingInput (trim_input i) = None" "map_of (dk_Dreaming (as_data s)) (dreamingKey (di_AgentID i) (di_LocalDate i)) = Some c"
    "dc_CommitID c = trim_space (di_CommitID i)" "dc_SessionID c = trim_space (di_SessionID i)" "dc_Boundary c = trim_space (di_Boundary i)"
    "dc_ContentDigest c = ae_digest env (trim_space (di_Content i))"
  shows "CommitDreaming env io i s = (Inr c, s)"
  using assms by (simp add: CommitDreaming_def trim_input_def dreamingKey_def)

lemma commit_stores:
  assumes ok: "CommitDreaming env io i s = (Inr c, s')"
  shows "validateDreamingInput (trim_input i) = None \<and> map_of (dk_Dreaming (as_data s')) (dreamingKey (di_AgentID i) (di_LocalDate i)) = Some c \<and>
    dc_CommitID c = trim_space (di_CommitID i) \<and> dc_SessionID c = trim_space (di_SessionID i) \<and> dc_Boundary c = trim_space (di_Boundary i) \<and>
    dc_ContentDigest c = ae_digest env (trim_space (di_Content i))"
proof -
  have v: "validateDreamingInput (trim_input i) = None" using ok by (cases "validateDreamingInput (trim_input i)") (simp_all add: CommitDreaming_def Let_def)
  define key where "key = dreamingKey (di_AgentID i) (di_LocalDate i)"
  have key: "dreamingKey (di_AgentID (trim_input i)) (di_LocalDate (trim_input i)) = key" by (simp add: key_def trim_input_def dreamingKey_def)
  show ?thesis
  proof (cases "map_of (dk_Dreaming (as_data s)) key")
    case None
    then show ?thesis using ok v unfolding CommitDreaming_def Let_def key key_def[symmetric]
      by (cases io) (simp_all add: persistLocked_def trim_input_def update_conv' split: if_splits, auto simp: update_conv')
  next
    case (Some old)
    then show ?thesis using ok v unfolding CommitDreaming_def Let_def key key_def[symmetric] by (auto simp: trim_input_def split: if_splits)
  qed
qed

lemma commit_repeated:
  assumes "CommitDreaming env io i s = (Inr c, s')"
  shows "CommitDreaming env io' i s' = (Inr c, s')"
  using commit_stores[OF assms] by (intro commit_found) simp_all

text \<open>The latest commit is one whose reset was applied, and no other of the agent was updated later.\<close>

definition take_latest :: "string \<Rightarrow> string \<times> dreaming_commit \<Rightarrow> dreaming_commit option \<Rightarrow> dreaming_commit option" where
  "take_latest a = (\<lambda>(k, c) latest. if dc_AgentID c \<noteq> a \<or> \<not> dc_ResetApplied c then latest
     else case latest of None \<Rightarrow> Some c | Some l \<Rightarrow> if newer_commit c l then Some c else Some l)"

definition is_latest :: "dreaming_commit set \<Rightarrow> dreaming_commit option \<Rightarrow> bool" where
  "is_latest C r \<longleftrightarrow> (case r of None \<Rightarrow> C = {} | Some l \<Rightarrow> l \<in> C \<and> (\<forall>c\<in>C. \<not> newer_commit c l))"

lemma take_latest_step:
  assumes "is_latest C r"
  shows "is_latest (C \<union> (if dc_AgentID c = a \<and> dc_ResetApplied c then {c} else {})) (take_latest a (k, c) r)"
  using assms by (auto simp: is_latest_def take_latest_def newer_commit_def split: option.splits)

lemma take_latest_fold:
  assumes "is_latest C r"
  shows "is_latest (C \<union> {c. (\<exists>k. (k, c) \<in> set ds) \<and> dc_AgentID c = a \<and> dc_ResetApplied c}) (fold (take_latest a) ds r)"
  using assms
proof (induction ds arbitrary: C r)
  case (Cons x ds)
  obtain k c where x: "x = (k, c)" by (cases x)
  have "C \<union> {c. (\<exists>k. (k, c) \<in> set (x # ds)) \<and> dc_AgentID c = a \<and> dc_ResetApplied c} =
      (C \<union> (if dc_AgentID c = a \<and> dc_ResetApplied c then {c} else {})) \<union> {c. (\<exists>k. (k, c) \<in> set ds) \<and> dc_AgentID c = a \<and> dc_ResetApplied c}"
    by (auto simp: x)
  then show ?case using Cons.IH[OF take_latest_step[OF Cons.prems, where c = c and a = a and k = k]] by (simp add: x)
qed simp

lemma latest_commit:
  "is_latest {c. (\<exists>k. (k, c) \<in> set (dk_Dreaming (as_data s))) \<and> dc_AgentID c = trim_space a \<and> dc_ResetApplied c} (LatestDreamingCommit a s)"
proof -
  have "LatestDreamingCommit a s = fold (take_latest (trim_space a)) (dk_Dreaming (as_data s)) None"
    unfolding LatestDreamingCommit_def take_latest_def by (rule refl)
  then show ?thesis using take_latest_fold[of "{}" None "dk_Dreaming (as_data s)" "trim_space a"] by (simp add: is_latest_def)
qed

section \<open>Examples\<close>

definition demo_aut :: aut_env where
  "demo_aut = \<lparr>ae_digest = (\<lambda>s. replicate 64 CHR ''a''), ae_zone = (\<lambda>z. z = ''UTC''), ae_recode = (\<lambda>d. Some (raw_of d))\<rparr>"

definition demo_dream :: "string \<Rightarrow> int \<Rightarrow> dreaming_input" where
  "demo_dream day n = \<lparr>di_AgentID = '' a '', di_LocalDate = day, di_CommitID = ''c'', di_SessionID = ''s'', di_Boundary = ''b'',
     di_ExpectedRevision = n, di_Content = ''learned'', di_Now = 5\<rparr>"

text \<open>A commit, a second one while the first is outstanding, a failed and a successful reset, a third commit, a profile, a todo and a restart.\<close>

definition demo_aut_ops :: "(save_outcome \<times> aut_op) list" where
  "demo_aut_ops =
     [(Saved, OpCommit (demo_dream ''2024-02-29'' 0)), (Saved, OpCommit (demo_dream ''2024-03-01'' 1)),
      (WriteFails, OpReset ''a'' ''2024-02-29'' ''c'' 6), (Saved, OpReset ''a'' ''2024-02-29'' ''c'' 7),
      (Saved, OpCommit (demo_dream ''2024-03-02'' 1)), (Saved, OpCreate (Some [1, 2, 3]) ''a'' ''write tests''), (Saved, OpRestart)]"

lemma demo_aut_ok: "env_ok demo_aut" "\<forall>(io, op)\<in>set demo_aut_ops. clock_set op"
  by (simp_all add: env_ok_def demo_aut_def hex_char_def Let_def list_all_iff demo_aut_ops_def clock_set_def)

definition demo_view :: "aut_store \<Rightarrow> nat \<times> nat \<times> string list" where
  "demo_view s = (length (dk_Dreaming (as_data s)), length (ListTodos ''a'' s), map dc_LocalDate (ListPendingDreamingCommits ''a'' s))"

lemma demo_aut_run: "demo_view (aut_run demo_aut demo_aut_ops) = (2, 1, [''2024-03-02''])"
  by code_simp

section \<open>Properties\<close>

text \<open>
  C39. After any sequence of operations, with any of their writes failing and with restarts in between, the file is accepted when it is opened again
  and gives exactly the data in memory: no operation stores what the next start would refuse, and a failed write leaves memory and file equal.
\<close>

theorem autonomy_file_reopens:
  assumes "env_ok env" and "\<forall>(io, op)\<in>set ops. clock_set op"
  shows "aut_Open env (as_file (aut_run env ops)) = Inr (aut_run env ops)"
  by (rule reopen[OF aut_run_inv[OF assms]])

theorem autonomy_file_reopens_witness:
  "aut_Open demo_aut (as_file (aut_run demo_aut demo_aut_ops)) = Inr (aut_run demo_aut demo_aut_ops) \<and>
   length (dk_Dreaming (as_data (aut_run demo_aut demo_aut_ops))) = 2 \<and> length (ListTodos ''a'' (aut_run demo_aut demo_aut_ops)) = 1"
  using autonomy_file_reopens[OF demo_aut_ok] demo_aut_run by (simp add: demo_view_def)

text \<open>
  C40. An agent never has more than one dreaming commit whose context reset is outstanding; no two commits of an agent produced the same revision of its
  experience, and none produced a later one than the experience now has.
\<close>

theorem dreaming_commits_serial:
  assumes "env_ok env" and "\<forall>(io, op)\<in>set ops. clock_set op"
  defines "s \<equiv> aut_run env ops"
  shows "length (ListPendingDreamingCommits a s) \<le> 1 \<and>
    (\<forall>a1 d1 c1 a2 d2 c2. GetDreamingCommit a1 d1 s = Some c1 \<and> GetDreamingCommit a2 d2 s = Some c2 \<and>
       dc_AgentID c1 = dc_AgentID c2 \<and> dc_ExperienceRevision c1 = dc_ExperienceRevision c2 \<longrightarrow> c1 = c2) \<and>
    (\<forall>d c. GetDreamingCommit a d s = Some c \<longrightarrow>
       (\<exists>e. map_of (dk_Experiences (as_data s)) (dc_AgentID c) = Some e \<and> dc_ExperienceRevision c \<le> xp_Revision e))"
proof (intro conjI allI impI)
  have inv: "aut_inv env s" unfolding s_def by (rule aut_run_inv[OF assms(1,2)])
  show "length (ListPendingDreamingCommits a s) \<le> 1" by (rule pending_single[OF inv])
  show "c1 = c2" if "GetDreamingCommit a1 d1 s = Some c1 \<and> GetDreamingCommit a2 d2 s = Some c2 \<and>
       dc_AgentID c1 = dc_AgentID c2 \<and> dc_ExperienceRevision c1 = dc_ExperienceRevision c2" for a1 d1 c1 a2 d2 c2
    using that commit_revisions_differ[OF inv] by blast
  show "\<exists>e. map_of (dk_Experiences (as_data s)) (dc_AgentID c) = Some e \<and> dc_ExperienceRevision c \<le> xp_Revision e"
    if "GetDreamingCommit a d s = Some c" for d c
    using that commit_experience[OF inv] by blast
qed

theorem dreaming_commits_serial_witness:
  "length (ListPendingDreamingCommits ''a'' (aut_run demo_aut demo_aut_ops)) \<le> 1 \<and>
   map dc_LocalDate (ListPendingDreamingCommits ''a'' (aut_run demo_aut demo_aut_ops)) = [''2024-03-02'']"
  using dreaming_commits_serial[OF demo_aut_ok, of "''a''"] demo_aut_run by (simp add: demo_view_def)

end
