(* ===== verification/Spec2Isabelle.thy ===== *)
theory Spec2Isabelle
  imports Coordinator_Budget Journal_Replay Gate Compression_Runs Hitl Trigger_Fire Child_Limit Autonomy_Store
begin

text \<open>
  A verification library for the DAgents node (the Go program under
  \<^verbatim>\<open>src/node/internal\<close>), which runs LLM agents: a session accepts inputs, runs them as
  Turns made of Steps (model request, tool batch, interactions with the user), asks a policy
  before it executes a tool call, and journals every transition so that a restarted process
  continues where the last one stopped.

  \<^bold>\<open>How the parts work together.\<close> An external input (user message, trigger, child agent) is appended
  to the session's input box; control requests (resume, cancel, continuation) go to its priority
  message queue. The agent's execution gate hands them out, one dispatch at a time per claim, and
  never while maintenance holds it. Running an input drives the Turn coordinator by
  commands; each accepted command is persisted as a durable event before the transition becomes
  visible, and a restart replays the events into a fresh coordinator. Before a tool call of a
  batch runs, the policy engine decides whether it runs, asks or is denied; a call that asks waits until the user's
  answer is resumed. The messages of a Turn are kept in a history that has to pair every tool call with its result, also when a Turn is
  interrupted, cancelled or compressed; a long history is compressed in the background or before the next model step. Triggers are fired by a scheduler: it claims a delivery in a durable store, submits the
  message to the input box of a session, and the session releases the claim. Tools that write to a workspace hold a
  lease on its directory. A parent agent may create temporary child agents, which run in sessions of their own until they report. What happens is published on an event hub, from which clients resume by sequence numbers.

  \<^bold>\<open>Theories and the code they model.\<close>
  \<^item> \<^verbatim>\<open>Prelude\<close>: Go strings (bytes), maps (association lists), \<^verbatim>\<open>uint64\<close> (words), float64
    rounding, decimal printing and parsing, and the generic lemmas on them.
  \<^item> \<^verbatim>\<open>Lifecycle\<close>, \<^verbatim>\<open>Events\<close>: \<^verbatim>\<open>turn/lifecycle.go\<close>, \<^verbatim>\<open>turn/lifecycle_events.go\<close>. The statuses, records and
    transition tables of Turns and Steps, one definition per Go function, and the envelopes of
    durable events with their validation.
  \<^item> \<^verbatim>\<open>Coordinator\<close>: \<^verbatim>\<open>turn/coordinator.go\<close>. The record \<open>coordinator\<close> has the fields of
    \<^verbatim>\<open>TurnCoordinator\<close>; every handler (\<open>startTurnLocked\<close>, \<open>recordToolCallLocked\<close>, ...) is a
    function from the coordinator and a command to the new coordinator and an error; nil
    dereferences are the error \<open>PanicNilDeref\<close>, so that their absence is a theorem.
    \<^verbatim>\<open>Coordinator_Inv\<close>, \<^verbatim>\<open>Coordinator_Safety\<close>, \<^verbatim>\<open>Coordinator_Exec\<close> and \<^verbatim>\<open>Coordinator_Budget\<close> hold its
    invariant, preserved by each handler, and the theorems: rejected and unpersisted commands
    leave no trace, no handler panics, a terminal Turn is final, tool executions follow their state
    machine, a batch settles only with known outcomes, cancelling always succeeds, budgets bound the
    Steps, usage is counted once, stale generations are refused.
  \<^item> \<^verbatim>\<open>Event_Store\<close>: \<^verbatim>\<open>store/turn_events.go\<close>. Two tables as lists of rows and each SQL statement as the list
    operation it denotes. Sequence numbers are contiguous, appending is idempotent, the
    paging loop of a session's restart ends and reads everything, bounded reads are complete or fail.
  \<^item> \<^verbatim>\<open>Journal\<close>, \<^verbatim>\<open>Journal_Replay\<close>: the write-ahead path and the replay of
    \<^verbatim>\<open>session/runtime_lifecycle.go\<close>. Replaying the log of any run of durable dispatches rebuilds the
    coordinator, and the command ids issued after the restart are fresh.
  \<^item> \<^verbatim>\<open>Msg_Queue\<close>: \<^verbatim>\<open>queue/queue.go\<close>, \<^verbatim>\<open>queue/envelope.go\<close>. The priority queue refines a stable sort by priority;
    the contract is the locale \<open>priority_fifo\<close>, interpreted on the queue.
  \<^item> \<^verbatim>\<open>Input_Box\<close>: \<^verbatim>\<open>session/input_box.go\<close>. Input numbers are never reused, the idle order lets user
    messages overtake wakeups only, a snapshot restores to the same box.
  \<^item> \<^verbatim>\<open>Gate\<close>: \<^verbatim>\<open>session/maintenance_gate.go\<close>, over the two theories before it, whose contract is the locale
    \<open>work_source\<close> (interpreted on both). Maintenance and dispatches exclude each other, a
    released lease is dead, a release wakes the waiting sessions.
  \<^item> \<^verbatim>\<open>Shell_Parse\<close>, \<^verbatim>\<open>Policy\<close>: the package \<^verbatim>\<open>policy\<close>. Statement and word splitting, approval modes, decisions,
    entry files, updates and persistence of the maps. Running a call without approval is opt-in, one denied
    command denies the whole line, updates are exact, the stored maps round-trip.
  \<^item> \<^verbatim>\<open>Tool_Protocol\<close>: the messages of the package \<^verbatim>\<open>llm\<close> and \<^verbatim>\<open>llm/history_validation.go\<close>. The one-pass check of a history accepts exactly the
    histories of a grammar: plain messages and batches of calls followed by one result each.
  \<^item> \<^verbatim>\<open>History\<close>: \<^verbatim>\<open>turn/history_write.go\<close>, \<^verbatim>\<open>turn/cancel_partial.go\<close> and the parts of the orchestrator that close interrupted batches. Closing and
    cancelling leave a history the check accepts, with one result per open call.
  \<^item> \<^verbatim>\<open>Compression\<close>: \<^verbatim>\<open>compression/plan.go\<close>, \<^verbatim>\<open>apply.go\<close>, \<^verbatim>\<open>sidecar.go\<close>. The prefixes the planner may cut at are exactly the closed ones, and the request
    for the summary as well as the compressed history are accepted by the check.
  \<^item> \<^verbatim>\<open>Compression_Flow\<close>: \<^verbatim>\<open>compression/coordinator.go\<close>, \<^verbatim>\<open>silent_cooldown.go\<close>, \<^verbatim>\<open>last_compression.go\<close>, \<^verbatim>\<open>metrics.go\<close>, \<^verbatim>\<open>summary_footer.go\<close>. The calls of the
    session runtime take as an argument what the silent goroutines and cancellations do between their critical sections. \<^verbatim>\<open>Compression_Safety\<close> has the invariant, kept by
    every interleaving (the locale \<open>kept_by_moves\<close>, interpreted twice); \<^verbatim>\<open>Compression_Runs\<close>: a summary only replaces the range it was made from, no channel is closed twice,
    a waiting call returns, an undisturbed manual compression takes effect.
  \<^item> \<^verbatim>\<open>Llm_Usage\<close>: \<^verbatim>\<open>llm/usage.go\<close>. Consistent counters are summed exactly over the rounds of a Turn; rates are between 0 and 1.
  \<^item> \<^verbatim>\<open>Hitl\<close>: \<^verbatim>\<open>hitl/resume.go\<close>, \<^verbatim>\<open>turn/pending*.go\<close>, \<^verbatim>\<open>turn/tool_router.go\<close> (the decision before each call). An answer only speaks of pending calls, and a call is executed only
    when the answer approves it and the live policy does not deny it.
  \<^item> \<^verbatim>\<open>Workspace\<close>: \<^verbatim>\<open>workspacecoord/coordinator.go\<close>. Two leases held at the same time never cover each other's directory.
  \<^item> \<^verbatim>\<open>Calendar\<close>: the dates and zones of the package \<^verbatim>\<open>time\<close>, with the two directions of the calendar proved inverse. \<^verbatim>\<open>Trigger_Schedule\<close>: \<^verbatim>\<open>triggers/schedule.go\<close>. The
    next fire time is the least moment of the schedule, and a missed one is made up for until the next.
  \<^item> \<^verbatim>\<open>Trigger_Store\<close>: \<^verbatim>\<open>triggers/store.go\<close>, \<^verbatim>\<open>delivery.go\<close>, \<^verbatim>\<open>auto_default.go\<close>, \<^verbatim>\<open>condition_identity.go\<close>. \<open>run_ops\<close> runs any sequence of operations, save failures and restarts:
    claims are exclusive until they are released, recovery disables a trigger, agents only reach their own triggers.
  \<^item> \<^verbatim>\<open>Trigger_Fire\<close>: \<^verbatim>\<open>triggers/scheduler.go\<close>, \<^verbatim>\<open>template.go\<close>, \<^verbatim>\<open>session_target.go\<close>. There is one outstanding delivery per trigger, with other goroutines
    working on the store during a call.
  \<^item> \<^verbatim>\<open>Stream_Hub\<close>: \<^verbatim>\<open>stream/hub.go\<close>. A client that resumes is sent back to the start exactly when it has to be, and otherwise sees each later event once and in order.
  \<^item> \<^verbatim>\<open>Child_Progress\<close>, \<^verbatim>\<open>Child_Agents\<close>: the package \<^verbatim>\<open>childagent\<close>, its host in \<^verbatim>\<open>session/manager_child.go\<close> and the table \<^verbatim>\<open>store/child_runs.go\<close>. Goroutines are lists of the
    sections they have still to run, \<open>child_ops\<close> interleaves them. The snapshot of a child stays well-formed and small, a child keeps to the tools it was given;
    \<^verbatim>\<open>Child_Settle\<close> and \<^verbatim>\<open>Child_Limit\<close>: a child ends once and nothing of it is left behind, the number of active children is bounded, and what happens when the creation is disturbed.
  \<^item> \<^verbatim>\<open>Autonomy_Store\<close>: \<^verbatim>\<open>autonomy/store.go\<close>. Profiles, experiences, dreaming commits and todos in one file. The file can always be opened again and gives the data in memory,
    and the dreaming commits of an agent follow one after the other.

  \<^bold>\<open>Conventions.\<close> Each method that runs under a mutex is one step; where the order of steps matters a step
  relation (\<open>box_step\<close>, \<open>gate_step\<close>, \<open>ws_step\<close>, the dispatch relation of the coordinator) or a list of operations (\<open>run_ops\<close>, \<open>hub_ops\<close>, \<open>child_ops\<close>, \<open>run_moves\<close>) takes them in any order.
  Blocking operations take the outcomes of their select statements as an argument. The current
  time, the results of files and of the JSON encoder, and persistence failures are
  arguments. No definition needs fuel: the loops are recursive functions with
  termination proofs (\<open>loadTurnEvents\<close> ends because the sequence number it reads from grows up to the
  store's last one; the splitting loops consume their input).

  \<^bold>\<open>Not modelled.\<close> The HTTP API, the LLM providers, the shell, browser and computer tool providers, MCP and skills loading,
  and the other packages that are mostly input and output; the SQL engine below the statements; the frontend; and,
  of the session and turn packages, the runtime loop and the model step that compose the parts above.
\<close>

end
